(* ===== verification/Prelude.thy ===== *)
theory Prelude
  imports Complex_Main "HOL-Library.AList" "HOL-Library.Char_ord" "HOL-Library.List_Lexorder"
    "HOL-Library.Product_Lexorder"
begin

text \<open>
  Shared vocabulary of the development.

  \<^item> Python values. \<open>pyval\<close> is the dynamically typed value a constructor or a JSON boundary
    receives. A Python \<open>str\<close> is represented by its UTF-8 encoding, so the length of a
    \<open>string\<close> is the length of \<open>s.encode("utf-8")\<close>, the test \<open>ord(c) < 0x20 or ord(c) == 0x7F\<close>
    is the same test on bytes, and the order of byte lists is the order of code-point lists.
    A finite float is a rational number; the rounding of float arithmetic is not modelled.
  \<^item> Exceptions. A fallible operation returns \<open>error + result\<close>.
  \<^item> Dictionaries. A Python dict is insertion ordered, so it is an association list with
    in-place update (\<^const>\<open>AList.update\<close>) and deletion (\<^const>\<open>AList.delete\<close>). The interface
    used by the components is the locale \<open>py_dict\<close>.
  \<^item> Selection. \<open>min_by\<close> is \<open>min(xs, key=f)\<close>: the first element with a minimal key.
  \<^item> State machines. \<open>reach\<close> and the locale \<open>invariant_system\<close>.
\<close>

named_theorems wf_defs
named_theorems op_defs

section \<open>Python values\<close>

datatype pyfloat = Finite rat | PosInf | NegInf | NaN

datatype pyval =
    PNone
  | PBool bool
  | PInt int
  | PFloat pyfloat
  | PStr string
  | PList "pyval list"
  | PTuple "pyval list"
  | PDict "(string \<times> pyval) list"

datatype py_exc =
    ValueError string
  | TypeError string
  | RuntimeErr string
  | KeyErr string
  | OverflowErr string
  | AttributeErr string
  | OSErr string

definition has_control :: "string \<Rightarrow> bool" where
  "has_control s \<longleftrightarrow> list_ex (\<lambda>c. (of_char c :: nat) < 32 \<or> (of_char c :: nat) = 127) s"

text \<open>
  \<open>len(s)\<close> counts code points: the bytes of the encoding that are not continuation bytes.
\<close>

definition py_len :: "string \<Rightarrow> nat" where
  "py_len s = length (filter (\<lambda>c. \<not> (128 \<le> (of_char c :: nat) \<and> (of_char c :: nat) < 192)) s)"

text \<open>The slice \<open>s[:n]\<close>, again in code points.\<close>

fun py_prefix :: "nat \<Rightarrow> string \<Rightarrow> string" where
  "py_prefix n [] = []"
| "py_prefix n (c # cs) =
     (if 128 \<le> (of_char c :: nat) \<and> (of_char c :: nat) < 192 then c # py_prefix n cs
      else case n of 0 \<Rightarrow> [] | Suc m \<Rightarrow> c # py_prefix m cs)"

definition starts_with :: "string \<Rightarrow> string \<Rightarrow> bool" where
  "starts_with p s \<longleftrightarrow> take (length p) s = p"

definition digit_char :: "nat \<Rightarrow> char" where
  "digit_char d = char_of (48 + d)"

fun show_nat :: "nat \<Rightarrow> string" where
  "show_nat n = (if n < 10 then [digit_char n] else show_nat (n div 10) @ [digit_char (n mod 10)])"

declare show_nat.simps [simp del]

definition show_int :: "int \<Rightarrow> string" where
  "show_int i = (if i < 0 then ''-'' @ show_nat (nat (- i)) else show_nat (nat i))"

definition positive_int_val :: "pyval \<Rightarrow> int option" where
  "positive_int_val v = (case v of PInt i \<Rightarrow> if 0 < i then Some i else None | _ \<Rightarrow> None)"

definition number_val :: "pyval \<Rightarrow> pyfloat option" where
  "number_val v = (case v of PInt i \<Rightarrow> Some (Finite (of_int i)) | PFloat x \<Rightarrow> Some x | _ \<Rightarrow> None)"

definition finite_val :: "pyval \<Rightarrow> rat option" where
  "finite_val v = (case number_val v of Some (Finite r) \<Rightarrow> Some r | _ \<Rightarrow> None)"

definition opt_str :: "string option \<Rightarrow> pyval" where
  "opt_str x = (case x of None \<Rightarrow> PNone | Some s \<Rightarrow> PStr s)"

definition opt_int :: "int option \<Rightarrow> pyval" where
  "opt_int x = (case x of None \<Rightarrow> PNone | Some i \<Rightarrow> PInt i)"

lemma finite_val_simps [simp]:
  "finite_val (PInt i) = Some (of_int i)"
  "finite_val (PFloat (Finite r)) = Some r"
  "finite_val (PFloat PosInf) = None"
  "finite_val (PFloat NegInf) = None"
  "finite_val (PFloat NaN) = None"
  "finite_val PNone = None"
  "finite_val (PBool b) = None"
  "finite_val (PStr s) = None"
  by (simp_all add: finite_val_def number_val_def)

lemma positive_int_val_Some [simp]: "positive_int_val v = Some i \<longleftrightarrow> v = PInt i \<and> 0 < i"
  by (auto simp: positive_int_val_def split: pyval.splits)

lemma positive_int_val_simps [simp]:
  "positive_int_val (PInt i) = (if 0 < i then Some i else None)"
  "positive_int_val PNone = None"
  by (simp_all add: positive_int_val_def)

lemma opt_simps [simp]:
  "opt_str None = PNone" "opt_str (Some s) = PStr s"
  "opt_int None = PNone" "opt_int (Some i) = PInt i"
  by (simp_all add: opt_str_def opt_int_def)

lemma opt_int_inj [simp]: "opt_int x = opt_int y \<longleftrightarrow> x = y"
  by (cases x; cases y) auto

lemma opt_str_inj [simp]: "opt_str x = opt_str y \<longleftrightarrow> x = y"
  by (cases x; cases y) auto

lemma map_PStr_inj [simp]: "map PStr xs = map PStr ys \<longleftrightarrow> xs = ys"
  by (rule inj_map_eq_map) (simp add: inj_def)

lemma map_PInt_inj [simp]: "map PInt xs = map PInt ys \<longleftrightarrow> xs = ys"
  by (rule inj_map_eq_map) (simp add: inj_def)

section \<open>Results\<close>

definition rbind :: "'e + 'a \<Rightarrow> ('a \<Rightarrow> 'e + 'b) \<Rightarrow> 'e + 'b" where
  "rbind m f = (case m of Inl e \<Rightarrow> Inl e | Inr x \<Rightarrow> f x)"

definition ensure :: "bool \<Rightarrow> 'e \<Rightarrow> 'e + unit" where
  "ensure b e = (if b then Inr () else Inl e)"

fun rmap :: "('a \<Rightarrow> 'e + 'b) \<Rightarrow> 'a list \<Rightarrow> 'e + 'b list" where
  "rmap f [] = Inr []"
| "rmap f (x # xs) = rbind (f x) (\<lambda>y. rbind (rmap f xs) (\<lambda>ys. Inr (y # ys)))"

lemma rbind_simps [simp]: "rbind (Inl e) f = Inl e" "rbind (Inr x) f = f x"
  by (simp_all add: rbind_def)

lemma rbind_eq_Inr [simp]: "rbind m f = Inr y \<longleftrightarrow> (\<exists>x. m = Inr x \<and> f x = Inr y)"
  by (cases m) auto

lemma rbind_eq_Inl: "rbind m f = Inl e \<longleftrightarrow> m = Inl e \<or> (\<exists>x. m = Inr x \<and> f x = Inl e)"
  by (cases m) auto

lemma ensure_eq_Inr [simp]: "ensure b e = Inr u \<longleftrightarrow> b"
  by (simp add: ensure_def)

lemma ensure_simps [simp]: "ensure True e = Inr ()" "ensure False e = Inl e"
  by (simp_all add: ensure_def)

lemma rmap_eq_Inr: "rmap f xs = Inr ys \<longleftrightarrow> list_all2 (\<lambda>x y. f x = Inr y) xs ys"
proof (induction xs arbitrary: ys)
  case Nil
  then show ?case by auto
next
  case (Cons x xs)
  then show ?case by (cases ys) auto
qed

lemma rmap_map_id: "(\<And>x. x \<in> set xs \<Longrightarrow> f (g x) = Inr x) \<Longrightarrow> rmap f (map g xs) = Inr xs"
  by (induction xs) auto

section \<open>Ordered dictionaries\<close>

text \<open>
  What a component may rely on when it keeps a dict: reads after writes and after deletions,
  and that distinct keys stay distinct.
\<close>

locale py_dict =
  fixes get :: "'d \<Rightarrow> 'k \<Rightarrow> 'v option"
    and set_item :: "'k \<Rightarrow> 'v \<Rightarrow> 'd \<Rightarrow> 'd"
    and pop :: "'k \<Rightarrow> 'd \<Rightarrow> 'd"
    and keys :: "'d \<Rightarrow> 'k list"
  assumes get_set: "get (set_item k v d) k' = (if k' = k then Some v else get d k')"
    and get_pop: "get (pop k d) k' = (if k' = k then None else get d k')"
    and keys_get: "k \<in> set (keys d) \<longleftrightarrow> get d k \<noteq> None"
    and distinct_set: "distinct (keys d) \<Longrightarrow> distinct (keys (set_item k v d))"
    and distinct_pop: "distinct (keys d) \<Longrightarrow> distinct (keys (pop k d))"
begin

lemma keys_set: "set (keys (set_item k v d)) = insert k (set (keys d))"
  by (auto simp: keys_get get_set split: if_splits)

lemma keys_pop: "set (keys (pop k d)) = set (keys d) - {k}"
  by (auto simp: keys_get get_pop split: if_splits)

lemma pop_absent: "get d k = None \<Longrightarrow> get (pop k d) = get d"
  by (auto simp: get_pop fun_eq_iff)

lemma length_set_new:
  assumes "distinct (keys d)" and "get d k = None"
  shows "length (keys (set_item k v d)) = Suc (length (keys d))"
proof -
  have "length (keys (set_item k v d)) = card (insert k (set (keys d)))"
    using distinct_card [OF distinct_set [OF assms(1), of k v]] by (simp add: keys_set)
  then show ?thesis using assms by (simp add: keys_get distinct_card)
qed

lemma length_set_old:
  assumes "distinct (keys d)" and "get d k \<noteq> None"
  shows "length (keys (set_item k v d)) = length (keys d)"
proof -
  have "k \<in> set (keys d)" using assms(2) by (simp add: keys_get)
  then show ?thesis
    using distinct_card [OF distinct_set [OF assms(1), of k v]] distinct_card [OF assms(1)]
    by (simp add: keys_set insert_absorb)
qed

lemma length_pop:
  assumes "distinct (keys d)" and "get d k \<noteq> None"
  shows "Suc (length (keys (pop k d))) = length (keys d)"
proof -
  have "k \<in> set (keys d)" using assms(2) by (simp add: keys_get)
  moreover have "length (keys (pop k d)) = card (set (keys d) - {k})"
    using distinct_card [OF distinct_pop [OF assms(1), of k]] by (simp add: keys_pop)
  ultimately show ?thesis
    using distinct_card [OF assms(1)] by (metis List.finite_set card.remove)
qed

end

type_synonym ('k, 'v) odict = "('k \<times> 'v) list"

abbreviation dict_get :: "('k, 'v) odict \<Rightarrow> 'k \<Rightarrow> 'v option" where
  "dict_get d k \<equiv> map_of d k"

abbreviation dict_set :: "'k \<Rightarrow> 'v \<Rightarrow> ('k, 'v) odict \<Rightarrow> ('k, 'v) odict" where
  "dict_set \<equiv> AList.update"

abbreviation dict_pop :: "'k \<Rightarrow> ('k, 'v) odict \<Rightarrow> ('k, 'v) odict" where
  "dict_pop \<equiv> AList.delete"

abbreviation dict_keys :: "('k, 'v) odict \<Rightarrow> 'k list" where
  "dict_keys d \<equiv> map fst d"

abbreviation dict_values :: "('k, 'v) odict \<Rightarrow> 'v list" where
  "dict_values d \<equiv> map snd d"

text \<open>\<open>d.get(k)\<close> on a dictionary of values.\<close>

definition dict_item :: "(string, pyval) odict \<Rightarrow> string \<Rightarrow> pyval" where
  "dict_item d k = (case dict_get d k of None \<Rightarrow> PNone | Some v \<Rightarrow> v)"

interpretation od: py_dict map_of AList.update AList.delete "map fst"
proof unfold_locales
  fix k k' :: 'a and v :: 'b and d :: "('a \<times> 'b) list"
  show "map_of (AList.update k v d) k' = (if k' = k then Some v else map_of d k')"
    by (simp add: update_conv')
  show "map_of (AList.delete k d) k' = (if k' = k then None else map_of d k')"
    by (simp add: delete_conv')
  show "k \<in> set (map fst d) \<longleftrightarrow> map_of d k \<noteq> None"
    by (simp add: map_of_eq_None_iff)
  show "distinct (map fst (AList.update k v d))" if "distinct (map fst d)"
    using that by (rule distinct_update)
  show "distinct (map fst (AList.delete k d))" if "distinct (map fst d)"
    using that by (rule distinct_delete)
qed

declare od.get_set [simp] od.get_pop [simp]

lemma values_of_get: "distinct (map fst d) \<Longrightarrow> v \<in> snd ` set d \<longleftrightarrow> (\<exists>k. map_of d k = Some v)"
  by (force simp: map_of_eq_Some_iff)

lemma pop_filter: "AList.delete k d = filter (\<lambda>p. fst p \<noteq> k) d"
  by (auto simp: AList.delete_eq case_prod_unfold intro: filter_cong)

lemma set_new_append: "map_of d k = None \<Longrightarrow> AList.update k v d = d @ [(k, v)]"
  by (induction d) (auto split: if_splits)

text \<open>Sums over the values of a dict under one update: the basis of every ledger proof.\<close>

lemma sum_values_pop:
  fixes f :: "'v \<Rightarrow> 'n :: ab_group_add"
  assumes "distinct (map fst d)" and "map_of d k = Some v"
  shows "sum_list (map f (dict_values (dict_pop k d))) = sum_list (map f (dict_values d)) - f v"
  using assms
proof (induction d)
  case Nil
  then show ?case by simp
next
  case (Cons p d)
  show ?case
  proof (cases "fst p = k")
    case True
    with Cons.prems have "map_of d k = None" by (auto simp: map_of_eq_None_iff)
    then have "AList.delete k d = d" by (simp add: map_of_eq_None_iff)
    with True Cons.prems show ?thesis by (cases p) simp
  next
    case False
    with Cons show ?thesis by (cases p) (simp add: algebra_simps)
  qed
qed

lemma sum_values_set_old:
  fixes f :: "'v \<Rightarrow> 'n :: ab_group_add"
  assumes "distinct (map fst d)" and "map_of d k = Some v"
  shows "sum_list (map f (dict_values (dict_set k w d))) = sum_list (map f (dict_values d)) - f v + f w"
  using assms
proof (induction d)
  case Nil
  then show ?case by simp
next
  case (Cons p d)
  then show ?case by (cases p) (auto simp: algebra_simps split: if_splits)
qed

lemma sum_values_set_new:
  fixes f :: "'v \<Rightarrow> 'n :: ab_group_add"
  assumes "map_of d k = None"
  shows "sum_list (map f (dict_values (dict_set k w d))) = sum_list (map f (dict_values d)) + f w"
  using assms by (simp add: set_new_append)

section \<open>Selection of a minimum\<close>

fun min_by :: "('a \<Rightarrow> 'k :: linorder) \<Rightarrow> 'a list \<Rightarrow> 'a option" where
  "min_by f [] = None"
| "min_by f (x # xs) =
     (case min_by f xs of None \<Rightarrow> Some x | Some y \<Rightarrow> if f x \<le> f y then Some x else Some y)"

lemma min_by_None [simp]: "min_by f xs = None \<longleftrightarrow> xs = []"
  by (cases xs) (auto split: option.splits)

lemma min_by_mem: "min_by f xs = Some x \<Longrightarrow> x \<in> set xs"
  by (induction xs arbitrary: x) (auto split: option.splits if_splits)

lemma min_by_least: "min_by f xs = Some x \<Longrightarrow> y \<in> set xs \<Longrightarrow> f x \<le> f y"
  by (induction xs arbitrary: x y) (fastforce split: option.splits if_splits)+

lemma min_by_nonempty: "xs \<noteq> [] \<Longrightarrow> \<exists>x. min_by f xs = Some x"
  by (metis min_by_None option.exhaust)

section \<open>Reachable states\<close>

inductive reach :: "('s \<Rightarrow> bool) \<Rightarrow> ('s \<Rightarrow> 's \<Rightarrow> bool) \<Rightarrow> 's \<Rightarrow> bool"
  for init :: "'s \<Rightarrow> bool" and step :: "'s \<Rightarrow> 's \<Rightarrow> bool" where
  reach_init: "init s \<Longrightarrow> reach init step s"
| reach_step: "reach init step s \<Longrightarrow> step s t \<Longrightarrow> reach init step t"

text \<open>
  The contract of a component whose operations are the steps of a machine: the invariant
  holds initially and every step keeps it.
\<close>

locale invariant_system =
  fixes init :: "'s \<Rightarrow> bool" and step :: "'s \<Rightarrow> 's \<Rightarrow> bool" and inv :: "'s \<Rightarrow> bool"
  assumes inv_init: "init s \<Longrightarrow> inv s"
    and inv_step: "inv s \<Longrightarrow> step s t \<Longrightarrow> inv t"
begin

lemma inv_reach: "reach init step s \<Longrightarrow> inv s"
  by (induction rule: reach.induct) (auto intro: inv_init inv_step)

lemma inv_steps: "step\<^sup>*\<^sup>* s t \<Longrightarrow> inv s \<Longrightarrow> inv t"
  by (induction rule: rtranclp_induct) (auto intro: inv_step)

end

section \<open>Times and deadlines\<close>

text \<open>A sort key that is a timestamp or \<open>math.inf\<close>.\<close>

datatype etime = At rat | Never

instantiation etime :: linorder
begin

fun less_eq_etime :: "etime \<Rightarrow> etime \<Rightarrow> bool" where
  "less_eq_etime _ Never = True"
| "less_eq_etime Never (At _) = False"
| "less_eq_etime (At a) (At b) = (a \<le> b)"

definition less_etime :: "etime \<Rightarrow> etime \<Rightarrow> bool" where
  "less_etime a b \<longleftrightarrow> a \<le> b \<and> \<not> b \<le> (a :: etime)"

instance
proof
  fix x y z :: etime
  show "(x < y) = (x \<le> y \<and> \<not> y \<le> x)" by (rule less_etime_def)
  show "x \<le> x" by (cases x) auto
  show "x \<le> y \<Longrightarrow> y \<le> z \<Longrightarrow> x \<le> z" by (cases x; cases y; cases z) auto
  show "x \<le> y \<Longrightarrow> y \<le> x \<Longrightarrow> x = y" by (cases x; cases y) auto
  show "x \<le> y \<or> y \<le> x" by (cases x; cases y) auto
qed

end

definition etime_of :: "rat option \<Rightarrow> etime" where
  "etime_of d = (case d of None \<Rightarrow> Never | Some t \<Rightarrow> At t)"

end
