(* ===== verification/CacheContracts.thy ===== *)
theory CacheContracts
  imports Prelude
begin

text \<open>
  The value types of \<open>inference_runtime/cache.py\<close>: cache kinds and visibilities, the tenant
  scope with its access rule, the namespace of digests, and the exact-token cache key with
  the byte string that its digest hashes. SHA-256 is a parameter of the model.
\<close>

section \<open>Validators\<close>

definition identifier_field :: "pyval \<Rightarrow> string \<Rightarrow> py_exc + string" where
  "identifier_field v name =
     (case v of
        PStr s \<Rightarrow>
          if s = [] \<or> 256 < length s then Inl (ValueError (name @ '' must be 1..256 UTF-8 bytes''))
          else if has_control s then Inl (ValueError (name @ '' contains control characters''))
          else Inr s
      | _ \<Rightarrow> Inl (ValueError (name @ '' must be 1..256 UTF-8 bytes'')))"

definition hex_digits :: string where
  "hex_digits = ''0123456789abcdef''"

definition digest_ok :: "string \<Rightarrow> bool" where
  "digest_ok s \<longleftrightarrow>
     starts_with ''sha256:'' s \<and> py_len s = 71 \<and> list_all (\<lambda>c. c \<in> set hex_digits) (drop 7 s)"

definition digest_field :: "pyval \<Rightarrow> string \<Rightarrow> py_exc + string" where
  "digest_field v name =
     (case v of
        PStr s \<Rightarrow> if digest_ok s then Inr s
                 else Inl (ValueError (name @ '' must be a lowercase sha256 digest''))
      | _ \<Rightarrow> Inl (ValueError (name @ '' must be a lowercase sha256 digest'')))"

section \<open>Kinds, scopes and namespaces\<close>

datatype CacheKind = PREFIX | SESSION

datatype CacheVisibility = PRIVATE | WORKFLOW | TENANT

record CacheScope =
  cs_tenant_id :: string
  cs_workflow_id :: string
  cs_agent_id :: string
  cs_visibility :: CacheVisibility

definition mk_CacheScope :: "pyval \<Rightarrow> pyval \<Rightarrow> pyval \<Rightarrow> CacheVisibility \<Rightarrow> py_exc + CacheScope" where
  "mk_CacheScope tenant workflow agent visibility =
     rbind (identifier_field tenant ''tenant_id'') (\<lambda>t.
     rbind (identifier_field workflow ''workflow_id'') (\<lambda>w.
     rbind (identifier_field agent ''agent_id'') (\<lambda>a.
       Inr \<lparr>cs_tenant_id = t, cs_workflow_id = w, cs_agent_id = a, cs_visibility = visibility\<rparr>)))"

definition allows :: "CacheScope \<Rightarrow> CacheScope \<Rightarrow> bool" where
  "allows self requester =
     (if cs_tenant_id self \<noteq> cs_tenant_id requester then False
      else if cs_visibility self = TENANT then True
      else if cs_workflow_id self \<noteq> cs_workflow_id requester then False
      else if cs_visibility self = WORKFLOW then True
      else cs_agent_id self = cs_agent_id requester)"

record CacheNamespace =
  ns_model_digest :: string
  ns_template_digest :: string
  ns_tokenizer_digest :: string
  ns_adapter_digest :: string
  ns_context_digest :: string

definition mk_CacheNamespace ::
  "pyval \<Rightarrow> pyval \<Rightarrow> pyval \<Rightarrow> pyval \<Rightarrow> pyval \<Rightarrow> py_exc + CacheNamespace" where
  "mk_CacheNamespace model template tokenizer adapter context =
     rbind (digest_field model ''model_digest'') (\<lambda>m.
     rbind (digest_field template ''template_digest'') (\<lambda>t.
     rbind (digest_field tokenizer ''tokenizer_digest'') (\<lambda>k.
     rbind (digest_field adapter ''adapter_digest'') (\<lambda>a.
     rbind (digest_field context ''context_digest'') (\<lambda>c.
       Inr \<lparr>ns_model_digest = m, ns_template_digest = t, ns_tokenizer_digest = k,
            ns_adapter_digest = a, ns_context_digest = c\<rparr>)))))"

section \<open>Exact-token keys\<close>

record ExactTokenCacheKey =
  ck_kind :: CacheKind
  ck_namespace :: CacheNamespace
  ck_token_ids :: "int list"

definition token_val :: "pyval \<Rightarrow> py_exc + int" where
  "token_val v =
     (case v of
        PInt i \<Rightarrow> if i < 0 then Inl (ValueError ''token_ids must contain non-negative integers'')
                  else Inr i
      | _ \<Rightarrow> Inl (ValueError ''token_ids must contain non-negative integers''))"

definition mk_ExactTokenCacheKey ::
  "CacheKind \<Rightarrow> CacheNamespace \<Rightarrow> pyval \<Rightarrow> py_exc + ExactTokenCacheKey" where
  "mk_ExactTokenCacheKey kind namespace token_ids =
     (case token_ids of
        PTuple ts \<Rightarrow>
          if ts = [] then Inl (ValueError ''token_ids must be a non-empty tuple'')
          else rbind (rmap token_val ts) (\<lambda>is.
                 Inr \<lparr>ck_kind = kind, ck_namespace = namespace, ck_token_ids = is\<rparr>)
      | _ \<Rightarrow> Inl (ValueError ''token_ids must be a non-empty tuple''))"

fun kind_value :: "CacheKind \<Rightarrow> string" where
  "kind_value PREFIX = ''prefix''"
| "kind_value SESSION = ''session''"

text \<open>\<open>token.to_bytes(4, "little", signed=False)\<close>, which raises above \<open>2 ^ 32 - 1\<close>.\<close>

definition byte_char :: "nat \<Rightarrow> char" where
  "byte_char n = char_of (n mod 256)"

definition to_bytes4 :: "int \<Rightarrow> py_exc + string" where
  "to_bytes4 t =
     (if t < 0 \<or> 2 ^ 32 \<le> t then Inl (OverflowErr ''int too big to convert'')
      else Inr [byte_char (nat t), byte_char (nat t div 256),
                byte_char (nat t div 65536), byte_char (nat t div 16777216)])"

definition namespace_bytes :: "CacheNamespace \<Rightarrow> string" where
  "namespace_bytes n =
     ns_model_digest n @ ns_template_digest n @ ns_tokenizer_digest n @ ns_adapter_digest n
       @ ns_context_digest n"

text \<open>The bytes fed to the hash object, in the order of the \<open>update\<close> calls.\<close>

definition digest_input :: "ExactTokenCacheKey \<Rightarrow> py_exc + string" where
  "digest_input key =
     rbind (rmap to_bytes4 (ck_token_ids key)) (\<lambda>bs.
       Inr (kind_value (ck_kind key) @ namespace_bytes (ck_namespace key) @ concat bs))"

definition key_digest :: "(string \<Rightarrow> string) \<Rightarrow> ExactTokenCacheKey \<Rightarrow> py_exc + string" where
  "key_digest sha256_hex key =
     rbind (digest_input key) (\<lambda>bytes. Inr (''sha256:'' @ sha256_hex bytes))"

section \<open>Well-formedness\<close>

definition id_ok :: "nat \<Rightarrow> string \<Rightarrow> bool" where
  "id_ok n s \<longleftrightarrow> s \<noteq> [] \<and> length s \<le> n \<and> \<not> has_control s"

definition scope_wf :: "CacheScope \<Rightarrow> bool" where
  "scope_wf s \<longleftrightarrow> id_ok 256 (cs_tenant_id s) \<and> id_ok 256 (cs_workflow_id s) \<and> id_ok 256 (cs_agent_id s)"

definition namespace_wf :: "CacheNamespace \<Rightarrow> bool" where
  "namespace_wf n \<longleftrightarrow>
     digest_ok (ns_model_digest n) \<and> digest_ok (ns_template_digest n) \<and>
     digest_ok (ns_tokenizer_digest n) \<and> digest_ok (ns_adapter_digest n) \<and>
     digest_ok (ns_context_digest n)"

definition key_wf :: "ExactTokenCacheKey \<Rightarrow> bool" where
  "key_wf k \<longleftrightarrow> namespace_wf (ck_namespace k) \<and> ck_token_ids k \<noteq> [] \<and>
     list_all (\<lambda>t. 0 \<le> t) (ck_token_ids k)"

lemma identifier_field_Inr: "identifier_field v name = Inr s \<longleftrightarrow> v = PStr s \<and> id_ok 256 s"
  by (auto simp: identifier_field_def id_ok_def split: pyval.splits if_splits)

lemma digest_field_Inr: "digest_field v name = Inr s \<longleftrightarrow> v = PStr s \<and> digest_ok s"
  by (auto simp: digest_field_def split: pyval.splits if_splits)

lemma mk_CacheScope_wf: "mk_CacheScope t w a v = Inr s \<Longrightarrow> scope_wf s"
  by (auto simp: mk_CacheScope_def identifier_field_Inr scope_wf_def)

lemma mk_CacheNamespace_wf: "mk_CacheNamespace m t k a c = Inr n \<Longrightarrow> namespace_wf n"
  by (auto simp: mk_CacheNamespace_def digest_field_Inr namespace_wf_def)

lemma token_val_Inr: "token_val v = Inr i \<longleftrightarrow> v = PInt i \<and> 0 \<le> i"
  by (auto simp: token_val_def split: pyval.splits if_splits)

lemma mk_ExactTokenCacheKey_wf:
  assumes "mk_ExactTokenCacheKey kind ns ts = Inr k" and "namespace_wf ns"
  shows "key_wf k"
  using assms
  by (auto simp: mk_ExactTokenCacheKey_def key_wf_def rmap_eq_Inr token_val_Inr list_all2_conv_all_nth
      list_all_length split: pyval.splits if_splits)

section \<open>Scopes\<close>

lemma allows_same_tenant: "allows s r \<Longrightarrow> cs_tenant_id s = cs_tenant_id r"
  by (auto simp: allows_def split: if_splits)

lemma allows_self: "allows s s"
  by (simp add: allows_def)

lemma allows_private: "cs_visibility s = PRIVATE \<Longrightarrow> allows s r \<longleftrightarrow>
    cs_tenant_id s = cs_tenant_id r \<and> cs_workflow_id s = cs_workflow_id r \<and> cs_agent_id s = cs_agent_id r"
  by (simp add: allows_def)

section \<open>The hashed byte string determines the key\<close>

lemma hex_ascii: "c \<in> set hex_digits \<Longrightarrow> (of_char c :: nat) < 128"
  by (auto simp: hex_digits_def)

lemma py_len_ascii: "\<forall>c \<in> set s. (of_char c :: nat) < 128 \<Longrightarrow> py_len s = length s"
  unfolding py_len_def by (subst filter_True) auto

lemma digest_length:
  assumes "digest_ok s" shows "length s = 71"
proof -
  have s: "s = ''sha256:'' @ drop 7 s"
    using assms append_take_drop_id [of 7 s] by (simp add: digest_ok_def starts_with_def eval_nat_numeral)
  have "\<forall>c \<in> set (drop 7 s). (of_char c :: nat) < 128"
    using assms by (auto simp: digest_ok_def list_all_iff dest: hex_ascii)
  then have "\<forall>c \<in> set (''sha256:'' @ drop 7 s). (of_char c :: nat) < 128"
    by auto
  then have "py_len s = length s"
    by (subst (asm) s [symmetric]) (rule py_len_ascii)
  with assms show ?thesis by (simp add: digest_ok_def)
qed

lemma namespace_bytes_length: "namespace_wf n \<Longrightarrow> length (namespace_bytes n) = 355"
  by (simp add: namespace_bytes_def namespace_wf_def digest_length)

lemma namespace_bytes_inj:
  assumes "namespace_wf m" "namespace_wf n" "namespace_bytes m = namespace_bytes n"
  shows "m = n"
  using assms
  by (cases m; cases n) (simp add: namespace_bytes_def namespace_wf_def digest_length)

lemma base256:
  fixes n :: nat
  assumes "n < 2 ^ 32"
  shows "n = n mod 256 + 256 * (n div 256 mod 256) + 65536 * (n div 65536 mod 256)
           + 16777216 * (n div 16777216 mod 256)"
proof -
  define p q r where "p = n div 256" and "q = p div 256" and "r = q div 256"
  have d: "n div 65536 = q" "n div 16777216 = r"
    by (simp_all add: p_def q_def r_def div_mult2_eq [symmetric])
  have r: "r mod 256 = r"
    using assms by (simp add: d(2) [symmetric] less_mult_imp_div_less)
  have "n = n mod 256 + 256 * p" "p = p mod 256 + 256 * q" "q = q mod 256 + 256 * r"
    by (simp_all add: p_def q_def r_def)
  then show ?thesis unfolding d p_def [symmetric] r by linarith
qed

lemma byte_char_eq: "byte_char m = byte_char n \<longleftrightarrow> m mod 256 = n mod 256"
  unfolding byte_char_def by (metis mod_mod_trivial of_char_of)

lemma to_bytes4_Inr: "to_bytes4 t = Inr b \<Longrightarrow> 0 \<le> t \<and> t < 2 ^ 32 \<and> length b = 4"
  by (auto simp: to_bytes4_def split: if_splits)

lemma to_bytes4_bytes:
  "to_bytes4 t = Inr b \<Longrightarrow> b = [byte_char (nat t), byte_char (nat t div 256),
     byte_char (nat t div 65536), byte_char (nat t div 16777216)]"
  by (simp add: to_bytes4_def split: if_splits)

lemma to_bytes4_inj:
  assumes "to_bytes4 s = Inr b" "to_bytes4 t = Inr b" shows "s = t"
proof -
  have r: "0 \<le> s" "s < 2 ^ 32" "0 \<le> t" "t < 2 ^ 32"
    using assms by (auto dest: to_bytes4_Inr)
  then have n: "nat s < 2 ^ 32" "nat t < 2 ^ 32" by (auto simp: nat_less_iff)
  have e: "nat s mod 256 = nat t mod 256"
       "nat s div 256 mod 256 = nat t div 256 mod 256"
       "nat s div 65536 mod 256 = nat t div 65536 mod 256"
       "nat s div 16777216 mod 256 = nat t div 16777216 mod 256"
    using to_bytes4_bytes [OF assms(1)] to_bytes4_bytes [OF assms(2)]
    by (simp_all only: list.inject byte_char_eq)
  have "nat s = nat t" by (subst base256 [OF n(1)], subst base256 [OF n(2)]) (simp only: e)
  then show ?thesis using r by simp
qed

lemma rmap_bytes_inj:
  assumes "rmap to_bytes4 xs = Inr bs" "rmap to_bytes4 ys = Inr cs" "concat bs = concat cs"
  shows "xs = ys"
  using assms
proof (induction xs arbitrary: ys bs cs)
  case Nil
  show ?case
  proof (cases ys)
    case (Cons y ys')
    then obtain b where "to_bytes4 y = Inr b" "concat cs = b @ concat (tl cs)"
      using Nil by auto
    then show ?thesis using Nil by (auto dest: to_bytes4_Inr)
  qed simp
next
  case (Cons x xs)
  then obtain b bs' where b: "to_bytes4 x = Inr b" "rmap to_bytes4 xs = Inr bs'" "bs = b # bs'"
    by auto
  show ?case
  proof (cases ys)
    case Nil
    then show ?thesis using Cons.prems b by (auto dest: to_bytes4_Inr)
  next
    case (Cons y ys')
    then obtain c cs' where c: "to_bytes4 y = Inr c" "rmap to_bytes4 ys' = Inr cs'" "cs = c # cs'"
      using Cons.prems by auto
    have "length b = length c" using b(1) c(1) by (auto dest!: to_bytes4_Inr)
    then have "b = c" "concat bs' = concat cs'"
      using Cons.prems(3) b(3) c(3) by auto
    then show ?thesis
      using Cons.IH [OF b(2) c(2)] to_bytes4_inj b(1) c(1) Cons by auto
  qed
qed

lemma rmap_bytes_length: "rmap to_bytes4 xs = Inr bs \<Longrightarrow> length (concat bs) = 4 * length xs"
  by (induction xs arbitrary: bs) (auto dest: to_bytes4_Inr)

lemma kind_value_length: "length (kind_value k) = (case k of PREFIX \<Rightarrow> 6 | SESSION \<Rightarrow> 7)"
  by (cases k) auto

lemma digest_input_kind:
  assumes "namespace_wf (ck_namespace j)" "namespace_wf (ck_namespace k)"
    and "digest_input j = Inr b" "digest_input k = Inr b"
  shows "ck_kind j = ck_kind k"
proof -
  obtain bs cs where
    j: "rmap to_bytes4 (ck_token_ids j) = Inr bs"
       "b = kind_value (ck_kind j) @ namespace_bytes (ck_namespace j) @ concat bs" and
    k: "rmap to_bytes4 (ck_token_ids k) = Inr cs"
       "b = kind_value (ck_kind k) @ namespace_bytes (ck_namespace k) @ concat cs"
    using assms by (auto simp: digest_input_def)
  have "length (kind_value (ck_kind j)) + 4 * length (ck_token_ids j)
      = length (kind_value (ck_kind k)) + 4 * length (ck_token_ids k)"
    using arg_cong [OF j(2), of length] arg_cong [OF k(2), of length]
    by (simp only: length_append rmap_bytes_length [OF j(1)] rmap_bytes_length [OF k(1)]
        namespace_bytes_length [OF assms(1)] namespace_bytes_length [OF assms(2)])
  then show ?thesis
    by (cases "ck_kind j"; cases "ck_kind k") (simp_all add: kind_value_length, presburger+)
qed

text \<open>
  The byte string that \<open>ExactTokenCacheKey.digest\<close> hashes determines the key: two validated
  keys with the same hash input have the same kind, the same namespace and the same tokens, so
  a digest collision can only be a collision of SHA-256 itself.
\<close>

theorem digest_input_injective:
  assumes "key_wf j" "key_wf k"
    and "digest_input j = Inr b" "digest_input k = Inr b"
  shows "j = k"
proof -
  have wf: "namespace_wf (ck_namespace j)" "namespace_wf (ck_namespace k)"
    using assms by (auto simp: key_wf_def)
  have kind: "ck_kind j = ck_kind k" by (rule digest_input_kind [OF wf assms(3,4)])
  obtain bs cs where
    j: "rmap to_bytes4 (ck_token_ids j) = Inr bs"
       "b = kind_value (ck_kind j) @ namespace_bytes (ck_namespace j) @ concat bs" and
    k: "rmap to_bytes4 (ck_token_ids k) = Inr cs"
       "b = kind_value (ck_kind k) @ namespace_bytes (ck_namespace k) @ concat cs"
    using assms by (auto simp: digest_input_def)
  have "namespace_bytes (ck_namespace j) = namespace_bytes (ck_namespace k)"
    and "concat bs = concat cs"
    using j(2) k(2) kind namespace_bytes_length [OF wf(1)] namespace_bytes_length [OF wf(2)] by auto
  then show ?thesis
    using rmap_bytes_inj [OF j(1) k(1)] namespace_bytes_inj [OF wf] kind by (cases j; cases k) auto
qed

definition zero_digest :: string where
  "zero_digest = ''sha256:'' @ replicate 64 (CHR ''0'')"

lemma zero_digest_ok: "digest_ok zero_digest"
  by (simp add: zero_digest_def digest_ok_def starts_with_def py_len_def hex_digits_def list_all_iff)

definition zero_namespace :: CacheNamespace where
  "zero_namespace = \<lparr>ns_model_digest = zero_digest, ns_template_digest = zero_digest,
     ns_tokenizer_digest = zero_digest, ns_adapter_digest = zero_digest, ns_context_digest = zero_digest\<rparr>"

definition demo_key :: "CacheKind \<Rightarrow> int list \<Rightarrow> ExactTokenCacheKey" where
  "demo_key kind ts = \<lparr>ck_kind = kind, ck_namespace = zero_namespace, ck_token_ids = ts\<rparr>"

lemma demo_key_wf: "ts \<noteq> [] \<Longrightarrow> list_all (\<lambda>t. 0 \<le> t) ts \<Longrightarrow> key_wf (demo_key kind ts)"
  by (simp add: demo_key_def key_wf_def namespace_wf_def zero_namespace_def zero_digest_ok)

theorem digest_input_injective_witness:
  "key_wf (demo_key PREFIX [7, 300]) \<and>
   (\<exists>b. digest_input (demo_key PREFIX [7, 300]) = Inr b \<and>
        (\<forall>k. key_wf k \<and> digest_input k = Inr b \<longrightarrow> k = demo_key PREFIX [7, 300]))"
proof -
  have wf: "key_wf (demo_key PREFIX [7, 300])" by (simp add: demo_key_wf)
  obtain b where b: "digest_input (demo_key PREFIX [7, 300]) = Inr b"
    by (simp add: digest_input_def demo_key_def to_bytes4_def)
  show ?thesis using digest_input_injective [OF _ wf _ b] wf b by blast
qed

end
