(* ===== verification/Contracts.thy ===== *)
theory Contracts
  imports CacheContracts
begin

text \<open>
  The boundary contracts of \<open>inference_runtime/contracts.py\<close>. Each frozen dataclass is a record
  and its \<open>__post_init__\<close> is a constructor function \<open>mk_C\<close> from the dynamically typed arguments
  to \<open>contract_error + C\<close>, with the checks in the order of the source. Arguments whose class
  the source checks by identity (handles, enums, nested contracts) already have that type here.
  The characterisation lemmas \<open>mk_C_Inr\<close> say exactly which arguments are accepted.
\<close>

datatype contract_error = ContractValidationError string string | UnhashableType

definition MAX_IDENTIFIER_BYTES :: nat where "MAX_IDENTIFIER_BYTES = 256"
definition MAX_SERVICE_CLASS_BYTES :: nat where "MAX_SERVICE_CLASS_BYTES = 64"
definition MAX_ERROR_CODE_BYTES :: nat where "MAX_ERROR_CODE_BYTES = 128"
definition MAX_SCHEDULING_WEIGHT :: int where "MAX_SCHEDULING_WEIGHT = 1000000"

lemmas contract_limits = MAX_IDENTIFIER_BYTES_def MAX_SERVICE_CLASS_BYTES_def
  MAX_ERROR_CODE_BYTES_def MAX_SCHEDULING_WEIGHT_def

section \<open>Field validators\<close>

abbreviation fail_field :: "string \<Rightarrow> string \<Rightarrow> contract_error + 'a" where
  "fail_field field message \<equiv> Inl (ContractValidationError field message)"

abbreviation check_field :: "bool \<Rightarrow> string \<Rightarrow> string \<Rightarrow> contract_error + unit" where
  "check_field ok field message \<equiv> ensure ok (ContractValidationError field message)"

definition bounded_text :: "pyval \<Rightarrow> string \<Rightarrow> nat \<Rightarrow> contract_error + string" where
  "bounded_text v field max_bytes =
     (case v of
        PStr s \<Rightarrow>
          if s = [] then fail_field field ''must be a non-empty string''
          else if max_bytes < length s
            then fail_field field (''must be at most '' @ show_nat max_bytes @ '' UTF-8 bytes'')
          else if has_control s then fail_field field ''must not contain control characters''
          else Inr s
      | _ \<Rightarrow> fail_field field ''must be a non-empty string'')"

definition positive_int :: "pyval \<Rightarrow> string \<Rightarrow> contract_error + int" where
  "positive_int v field =
     (case v of PInt i \<Rightarrow> if i \<le> 0 then fail_field field ''must be a positive integer'' else Inr i
      | _ \<Rightarrow> fail_field field ''must be a positive integer'')"

definition non_negative_int :: "pyval \<Rightarrow> string \<Rightarrow> contract_error + int" where
  "non_negative_int v field =
     (case v of PInt i \<Rightarrow> if i < 0 then fail_field field ''must be a non-negative integer'' else Inr i
      | _ \<Rightarrow> fail_field field ''must be a non-negative integer'')"

definition optional_positive_int :: "pyval \<Rightarrow> string \<Rightarrow> contract_error + int option" where
  "optional_positive_int v field =
     (if v = PNone then Inr None else rbind (positive_int v field) (\<lambda>i. Inr (Some i)))"

definition monotonic_time :: "pyval \<Rightarrow> string \<Rightarrow> contract_error + rat" where
  "monotonic_time v field =
     (case finite_val v of
        Some t \<Rightarrow> if t < 0 then fail_field field ''must be a finite non-negative monotonic timestamp''
                  else Inr t
      | None \<Rightarrow> fail_field field ''must be a finite non-negative monotonic timestamp'')"

definition bool_flag :: "pyval \<Rightarrow> string \<Rightarrow> string \<Rightarrow> contract_error + bool" where
  "bool_flag v field message = (case v of PBool b \<Rightarrow> Inr b | _ \<Rightarrow> fail_field field message)"

lemma bounded_text_Inr: "bounded_text v f n = Inr s \<longleftrightarrow> v = PStr s \<and> id_ok n s"
  by (auto simp: bounded_text_def id_ok_def split: pyval.splits if_splits)

lemma positive_int_Inr: "positive_int v f = Inr i \<longleftrightarrow> v = PInt i \<and> 0 < i"
  by (auto simp: positive_int_def split: pyval.splits if_splits)

lemma non_negative_int_Inr: "non_negative_int v f = Inr i \<longleftrightarrow> v = PInt i \<and> 0 \<le> i"
  by (auto simp: non_negative_int_def split: pyval.splits if_splits)

lemma optional_positive_int_Inr:
  "optional_positive_int v f = Inr x \<longleftrightarrow> v = opt_int x \<and> (case x of None \<Rightarrow> True | Some i \<Rightarrow> 0 < i)"
  by (cases x) (auto simp: optional_positive_int_def positive_int_Inr split: if_splits)

lemma monotonic_time_Inr: "monotonic_time v f = Inr t \<longleftrightarrow> finite_val v = Some t \<and> 0 \<le> t"
  by (auto simp: monotonic_time_def split: option.splits if_splits)

lemma bool_flag_Inr: "bool_flag v f m = Inr b \<longleftrightarrow> v = PBool b"
  by (auto simp: bool_flag_def split: pyval.splits)

lemmas field_Inr = bounded_text_Inr positive_int_Inr non_negative_int_Inr
  optional_positive_int_Inr monotonic_time_Inr bool_flag_Inr

section \<open>Sequence handles\<close>

record SequenceHandle =
  sh_backend :: string
  sh_model :: string
  sh_sequence :: string
  sh_generation :: int

definition mk_SequenceHandle :: "pyval \<Rightarrow> pyval \<Rightarrow> pyval \<Rightarrow> pyval \<Rightarrow> contract_error + SequenceHandle" where
  "mk_SequenceHandle backend model sequence generation =
     rbind (bounded_text backend ''backend'' MAX_IDENTIFIER_BYTES) (\<lambda>b.
     rbind (bounded_text model ''model'' MAX_IDENTIFIER_BYTES) (\<lambda>m.
     rbind (bounded_text sequence ''sequence'' MAX_IDENTIFIER_BYTES) (\<lambda>s.
     rbind (non_negative_int generation ''generation'') (\<lambda>g.
       Inr \<lparr>sh_backend = b, sh_model = m, sh_sequence = s, sh_generation = g\<rparr>))))"

section \<open>Backend capabilities\<close>

text \<open>
  One record with two instances: the untyped constructor arguments and the validated
  capabilities.
\<close>

record ('s, 'm, 'b, 'i, 'o) capabilities =
  bc_backend :: 's
  bc_models :: 'm
  bc_supports_full_request :: 'b
  bc_supports_sequence_steps :: 'b
  bc_supports_streaming :: 'b
  bc_supports_cancellation :: 'b
  bc_supports_chunked_prefill :: 'b
  bc_supports_decode_batching :: 'b
  bc_supports_continuous_batching :: 'b
  bc_supports_prefix_cache :: 'b
  bc_supports_session_cache :: 'b
  bc_supports_explicit_release :: 'b
  bc_max_context_tokens :: 'i
  bc_max_output_tokens :: 'i
  bc_max_concurrent_requests :: 'i
  bc_max_concurrent_sequences :: 'o
  bc_max_prefill_tokens_per_step :: 'o
  bc_max_decode_tokens_per_step :: 'o
  bc_max_sequences_per_step :: 'o

type_synonym capabilities_args = "(pyval, pyval, pyval, pyval, pyval) capabilities"
type_synonym BackendCapabilities = "(string, string list, bool, int, int option) capabilities"

definition capability_models :: "pyval \<Rightarrow> contract_error + string list" where
  "capability_models v =
     (case v of
        PTuple ms \<Rightarrow>
          if ms = [] then fail_field ''models'' ''must be a non-empty tuple''
          else rbind (rmap (\<lambda>(i, m). bounded_text m (''models['' @ show_nat i @ '']'') MAX_IDENTIFIER_BYTES)
                       (enumerate 0 ms)) (\<lambda>names.
                 rbind (check_field (distinct names) ''models'' ''must not contain duplicates'') (\<lambda>_.
                   Inr names))
      | _ \<Rightarrow> fail_field ''models'' ''must be a non-empty tuple'')"

text \<open>The checks that follow the field conversions, with the early return of backends without steps.\<close>

definition step_limits :: "BackendCapabilities \<Rightarrow> contract_error + unit" where
  "step_limits c =
     (if \<not> bc_supports_sequence_steps c then
        if bc_supports_chunked_prefill c \<or> bc_supports_decode_batching c \<or> bc_supports_explicit_release c
        then fail_field ''supports_sequence_steps'' ''step-only flags require sequence-step support''
        else if bc_max_concurrent_sequences c \<noteq> None \<or> bc_max_prefill_tokens_per_step c \<noteq> None \<or>
                bc_max_decode_tokens_per_step c \<noteq> None \<or> bc_max_sequences_per_step c \<noteq> None
        then fail_field ''supports_sequence_steps'' ''step limits must be None without sequence-step support''
        else Inr ()
      else if \<not> bc_supports_cancellation c then
        fail_field ''supports_cancellation'' ''sequence-step backends must support bounded cancellation''
      else if \<not> bc_supports_explicit_release c then
        fail_field ''supports_explicit_release''
          ''sequence-step backends must release sequence resources explicitly''
      else case (bc_max_concurrent_sequences c, bc_max_prefill_tokens_per_step c,
                 bc_max_decode_tokens_per_step c, bc_max_sequences_per_step c) of
        (Some max_concurrent_sequences, Some prefill_limit, Some decode_limit, Some sequence_limit) \<Rightarrow>
          if bc_max_context_tokens c < prefill_limit then
            fail_field ''max_prefill_tokens_per_step'' ''must not exceed max_context_tokens''
          else if bc_max_output_tokens c < decode_limit then
            fail_field ''max_decode_tokens_per_step'' ''must not exceed max_output_tokens''
          else if bc_max_concurrent_requests c < max_concurrent_sequences then
            fail_field ''max_concurrent_sequences'' ''must not exceed max_concurrent_requests''
          else if max_concurrent_sequences < sequence_limit then
            fail_field ''max_sequences_per_step'' ''must not exceed max_concurrent_sequences''
          else if bc_supports_decode_batching c \<and> sequence_limit < 2 then
            fail_field ''max_sequences_per_step'' ''decode batching requires a limit of at least two sequences''
          else if \<not> bc_supports_decode_batching c \<and> sequence_limit \<noteq> 1 then
            fail_field ''max_sequences_per_step'' ''a non-batching backend must step exactly one sequence''
          else if bc_supports_continuous_batching c \<and>
                  \<not> (bc_supports_chunked_prefill c \<and> bc_supports_decode_batching c) then
            fail_field ''supports_continuous_batching''
              ''continuous batching requires chunked prefill and decode batching''
          else if \<not> bc_supports_chunked_prefill c \<and> prefill_limit < bc_max_context_tokens c then
            fail_field ''max_prefill_tokens_per_step''
              ''must cover max_context_tokens when chunked prefill is unsupported''
          else Inr ()
      | _ \<Rightarrow> fail_field ''supports_sequence_steps'' ''sequence-step backends must declare every step limit'')"

definition mk_BackendCapabilities :: "capabilities_args \<Rightarrow> contract_error + BackendCapabilities" where
  "mk_BackendCapabilities a =
     rbind (bounded_text (bc_backend a) ''backend'' MAX_IDENTIFIER_BYTES) (\<lambda>backend.
     rbind (capability_models (bc_models a)) (\<lambda>models.
     rbind (bool_flag (bc_supports_full_request a) ''supports_full_request'' ''must be a boolean'') (\<lambda>full.
     rbind (bool_flag (bc_supports_sequence_steps a) ''supports_sequence_steps'' ''must be a boolean'') (\<lambda>steps.
     rbind (bool_flag (bc_supports_streaming a) ''supports_streaming'' ''must be a boolean'') (\<lambda>streaming.
     rbind (bool_flag (bc_supports_cancellation a) ''supports_cancellation'' ''must be a boolean'') (\<lambda>cancellation.
     rbind (bool_flag (bc_supports_chunked_prefill a) ''supports_chunked_prefill'' ''must be a boolean'') (\<lambda>chunked.
     rbind (bool_flag (bc_supports_decode_batching a) ''supports_decode_batching'' ''must be a boolean'') (\<lambda>batching.
     rbind (bool_flag (bc_supports_continuous_batching a) ''supports_continuous_batching'' ''must be a boolean'') (\<lambda>continuous.
     rbind (bool_flag (bc_supports_prefix_cache a) ''supports_prefix_cache'' ''must be a boolean'') (\<lambda>prefix_cache.
     rbind (bool_flag (bc_supports_session_cache a) ''supports_session_cache'' ''must be a boolean'') (\<lambda>session.
     rbind (bool_flag (bc_supports_explicit_release a) ''supports_explicit_release'' ''must be a boolean'') (\<lambda>release.
     rbind (check_field (full \<or> steps) ''supports_full_request''
              ''at least one full-request or sequence-step interface is required'') (\<lambda>_.
     rbind (positive_int (bc_max_context_tokens a) ''max_context_tokens'') (\<lambda>max_context.
     rbind (positive_int (bc_max_output_tokens a) ''max_output_tokens'') (\<lambda>max_output.
     rbind (positive_int (bc_max_concurrent_requests a) ''max_concurrent_requests'') (\<lambda>max_concurrent.
     rbind (optional_positive_int (bc_max_concurrent_sequences a) ''max_concurrent_sequences'') (\<lambda>max_sequences.
     rbind (check_field (max_output \<le> max_context) ''max_output_tokens'' ''must not exceed max_context_tokens'') (\<lambda>_.
     rbind (optional_positive_int (bc_max_prefill_tokens_per_step a) ''max_prefill_tokens_per_step'') (\<lambda>prefill_limit.
     rbind (optional_positive_int (bc_max_decode_tokens_per_step a) ''max_decode_tokens_per_step'') (\<lambda>decode_limit.
     rbind (optional_positive_int (bc_max_sequences_per_step a) ''max_sequences_per_step'') (\<lambda>sequence_limit.
     (let c = \<lparr>bc_backend = backend, bc_models = models, bc_supports_full_request = full,
               bc_supports_sequence_steps = steps, bc_supports_streaming = streaming,
               bc_supports_cancellation = cancellation, bc_supports_chunked_prefill = chunked,
               bc_supports_decode_batching = batching, bc_supports_continuous_batching = continuous,
               bc_supports_prefix_cache = prefix_cache, bc_supports_session_cache = session,
               bc_supports_explicit_release = release, bc_max_context_tokens = max_context,
               bc_max_output_tokens = max_output, bc_max_concurrent_requests = max_concurrent,
               bc_max_concurrent_sequences = max_sequences,
               bc_max_prefill_tokens_per_step = prefill_limit,
               bc_max_decode_tokens_per_step = decode_limit,
               bc_max_sequences_per_step = sequence_limit\<rparr>
      in rbind (step_limits c) (\<lambda>_. Inr c)))))))))))))))))))))))"

text \<open>The specification: the arguments that denote given capabilities, and which capabilities are coherent.\<close>

definition capabilities_as_args :: "BackendCapabilities \<Rightarrow> capabilities_args" where
  "capabilities_as_args c =
     \<lparr>bc_backend = PStr (bc_backend c), bc_models = PTuple (map PStr (bc_models c)),
      bc_supports_full_request = PBool (bc_supports_full_request c),
      bc_supports_sequence_steps = PBool (bc_supports_sequence_steps c),
      bc_supports_streaming = PBool (bc_supports_streaming c),
      bc_supports_cancellation = PBool (bc_supports_cancellation c),
      bc_supports_chunked_prefill = PBool (bc_supports_chunked_prefill c),
      bc_supports_decode_batching = PBool (bc_supports_decode_batching c),
      bc_supports_continuous_batching = PBool (bc_supports_continuous_batching c),
      bc_supports_prefix_cache = PBool (bc_supports_prefix_cache c),
      bc_supports_session_cache = PBool (bc_supports_session_cache c),
      bc_supports_explicit_release = PBool (bc_supports_explicit_release c),
      bc_max_context_tokens = PInt (bc_max_context_tokens c),
      bc_max_output_tokens = PInt (bc_max_output_tokens c),
      bc_max_concurrent_requests = PInt (bc_max_concurrent_requests c),
      bc_max_concurrent_sequences = opt_int (bc_max_concurrent_sequences c),
      bc_max_prefill_tokens_per_step = opt_int (bc_max_prefill_tokens_per_step c),
      bc_max_decode_tokens_per_step = opt_int (bc_max_decode_tokens_per_step c),
      bc_max_sequences_per_step = opt_int (bc_max_sequences_per_step c)\<rparr>"

definition managed_only :: "BackendCapabilities \<Rightarrow> bool" where
  "managed_only c \<longleftrightarrow>
     \<not> bc_supports_chunked_prefill c \<and> \<not> bc_supports_decode_batching c \<and>
     \<not> bc_supports_explicit_release c \<and> bc_max_concurrent_sequences c = None \<and>
     bc_max_prefill_tokens_per_step c = None \<and> bc_max_decode_tokens_per_step c = None \<and>
     bc_max_sequences_per_step c = None"

definition coherent_steps :: "BackendCapabilities \<Rightarrow> bool" where
  "coherent_steps c \<longleftrightarrow>
     bc_supports_cancellation c \<and> bc_supports_explicit_release c \<and>
     (\<exists>seqs prefill decode batch.
        bc_max_concurrent_sequences c = Some seqs \<and> bc_max_prefill_tokens_per_step c = Some prefill \<and>
        bc_max_decode_tokens_per_step c = Some decode \<and> bc_max_sequences_per_step c = Some batch \<and>
        0 < prefill \<and> prefill \<le> bc_max_context_tokens c \<and>
        0 < decode \<and> decode \<le> bc_max_output_tokens c \<and>
        0 < batch \<and> batch \<le> seqs \<and> seqs \<le> bc_max_concurrent_requests c \<and>
        (bc_supports_decode_batching c \<longleftrightarrow> 2 \<le> batch) \<and>
        (bc_supports_continuous_batching c \<longrightarrow> bc_supports_chunked_prefill c \<and> 2 \<le> batch) \<and>
        (\<not> bc_supports_chunked_prefill c \<longrightarrow> prefill = bc_max_context_tokens c))"

definition capabilities_wf :: "BackendCapabilities \<Rightarrow> bool" where
  "capabilities_wf c \<longleftrightarrow>
     id_ok 256 (bc_backend c) \<and> bc_models c \<noteq> [] \<and> list_all (id_ok 256) (bc_models c) \<and>
     distinct (bc_models c) \<and>
     0 < bc_max_output_tokens c \<and> bc_max_output_tokens c \<le> bc_max_context_tokens c \<and>
     0 < bc_max_concurrent_requests c \<and>
     (if bc_supports_sequence_steps c then coherent_steps c
      else bc_supports_full_request c \<and> managed_only c)"

lemma rmap_enumerate_Inr:
  assumes "\<And>i v y. f (i, v) = Inr y \<longleftrightarrow> v = g y \<and> ok y"
  shows "rmap f (enumerate n vs) = Inr ys \<longleftrightarrow> vs = map g ys \<and> list_all ok ys"
proof (induction vs arbitrary: n ys)
  case Nil
  then show ?case by auto
next
  case (Cons v vs)
  then show ?case using assms by (cases ys) auto
qed

lemma capability_models_Inr:
  "capability_models v = Inr ms \<longleftrightarrow>
     v = PTuple (map PStr ms) \<and> ms \<noteq> [] \<and> list_all (id_ok 256) ms \<and> distinct ms"
proof -
  have "rmap (\<lambda>(i, m). bounded_text m (''models['' @ show_nat i @ '']'') MAX_IDENTIFIER_BYTES)
          (enumerate 0 vs) = Inr ms \<longleftrightarrow> vs = map PStr ms \<and> list_all (id_ok 256) ms" for vs ms
    by (rule rmap_enumerate_Inr) (simp add: bounded_text_Inr contract_limits)
  then show ?thesis
    by (auto simp: capability_models_def split: pyval.splits if_splits)
qed

lemma step_limits_Inr:
  assumes "\<forall>x. bc_max_concurrent_sequences c = Some x \<longrightarrow> 0 < x"
    and "\<forall>x. bc_max_prefill_tokens_per_step c = Some x \<longrightarrow> 0 < x"
    and "\<forall>x. bc_max_decode_tokens_per_step c = Some x \<longrightarrow> 0 < x"
    and "\<forall>x. bc_max_sequences_per_step c = Some x \<longrightarrow> 0 < x"
  shows "step_limits c = Inr () \<longleftrightarrow>
     (if bc_supports_sequence_steps c then coherent_steps c else managed_only c)"
  using assms
  by (auto simp: step_limits_def coherent_steps_def managed_only_def split: option.splits)

lemma capabilities_args_eq:
  "a = capabilities_as_args c \<longleftrightarrow>
     bc_backend a = PStr (bc_backend c) \<and> bc_models a = PTuple (map PStr (bc_models c)) \<and>
     bc_supports_full_request a = PBool (bc_supports_full_request c) \<and>
     bc_supports_sequence_steps a = PBool (bc_supports_sequence_steps c) \<and>
     bc_supports_streaming a = PBool (bc_supports_streaming c) \<and>
     bc_supports_cancellation a = PBool (bc_supports_cancellation c) \<and>
     bc_supports_chunked_prefill a = PBool (bc_supports_chunked_prefill c) \<and>
     bc_supports_decode_batching a = PBool (bc_supports_decode_batching c) \<and>
     bc_supports_continuous_batching a = PBool (bc_supports_continuous_batching c) \<and>
     bc_supports_prefix_cache a = PBool (bc_supports_prefix_cache c) \<and>
     bc_supports_session_cache a = PBool (bc_supports_session_cache c) \<and>
     bc_supports_explicit_release a = PBool (bc_supports_explicit_release c) \<and>
     bc_max_context_tokens a = PInt (bc_max_context_tokens c) \<and>
     bc_max_output_tokens a = PInt (bc_max_output_tokens c) \<and>
     bc_max_concurrent_requests a = PInt (bc_max_concurrent_requests c) \<and>
     bc_max_concurrent_sequences a = opt_int (bc_max_concurrent_sequences c) \<and>
     bc_max_prefill_tokens_per_step a = opt_int (bc_max_prefill_tokens_per_step c) \<and>
     bc_max_decode_tokens_per_step a = opt_int (bc_max_decode_tokens_per_step c) \<and>
     bc_max_sequences_per_step a = opt_int (bc_max_sequences_per_step c)"
  by (cases a) (simp add: capabilities_as_args_def)

lemma capabilities_wf_limits:
  assumes "capabilities_wf c"
  shows "\<forall>x. bc_max_concurrent_sequences c = Some x \<longrightarrow> 0 < x"
    and "\<forall>x. bc_max_prefill_tokens_per_step c = Some x \<longrightarrow> 0 < x"
    and "\<forall>x. bc_max_decode_tokens_per_step c = Some x \<longrightarrow> 0 < x"
    and "\<forall>x. bc_max_sequences_per_step c = Some x \<longrightarrow> 0 < x"
  using assms by (auto simp: capabilities_wf_def coherent_steps_def managed_only_def split: if_splits)

lemma opt_positive: "(case x of None \<Rightarrow> True | Some i \<Rightarrow> 0 < i) \<longleftrightarrow> (\<forall>i. x = Some i \<longrightarrow> 0 < (i :: int))"
  by (cases x) auto

lemma mk_BackendCapabilities_sound:
  assumes "mk_BackendCapabilities a = Inr c"
  shows "a = capabilities_as_args c \<and> capabilities_wf c"
proof -
  have limits: "\<forall>x. bc_max_concurrent_sequences c = Some x \<longrightarrow> 0 < x"
      "\<forall>x. bc_max_prefill_tokens_per_step c = Some x \<longrightarrow> 0 < x"
      "\<forall>x. bc_max_decode_tokens_per_step c = Some x \<longrightarrow> 0 < x"
      "\<forall>x. bc_max_sequences_per_step c = Some x \<longrightarrow> 0 < x"
    and sl: "step_limits c = Inr ()"
    and args: "a = capabilities_as_args c"
    and fields: "id_ok 256 (bc_backend c)" "bc_models c \<noteq> []" "list_all (id_ok 256) (bc_models c)"
      "distinct (bc_models c)" "0 < bc_max_output_tokens c"
      "bc_max_output_tokens c \<le> bc_max_context_tokens c" "0 < bc_max_concurrent_requests c"
      "bc_supports_full_request c \<or> bc_supports_sequence_steps c"
    using assms
    unfolding mk_BackendCapabilities_def rbind_eq_Inr field_Inr capability_models_Inr opt_positive
      Let_def ensure_eq_Inr contract_limits capabilities_args_eq
    by (clarsimp)+
  show ?thesis
    using args fields sl unfolding step_limits_Inr [OF limits]
    by (auto simp: capabilities_wf_def)
qed

lemma mk_BackendCapabilities_complete:
  assumes "capabilities_wf c"
  shows "mk_BackendCapabilities (capabilities_as_args c) = Inr c"
proof -
  note lim = capabilities_wf_limits [OF assms]
  have sl: "step_limits c = Inr ()"
    using assms unfolding step_limits_Inr [OF lim] by (auto simp: capabilities_wf_def)
  show ?thesis
    using assms lim sl
    unfolding mk_BackendCapabilities_def rbind_eq_Inr field_Inr capability_models_Inr opt_positive
      Let_def ensure_eq_Inr contract_limits capabilities_as_args_def capabilities_wf_def
    by (cases c) (auto split: if_splits)
qed

text \<open>
  \<open>BackendCapabilities\<close> accepts exactly the coherent capability declarations: construction
  succeeds with \<open>c\<close> if and only if the arguments are the field values of \<open>c\<close> and \<open>c\<close> satisfies
  the declarative specification (a managed backend declares no step feature or limit; a
  steppable one declares all limits, ordered below the global capacities, with batching
  declared exactly when more than one sequence can be stepped).
\<close>

lemma mk_BackendCapabilities_iff:
  "mk_BackendCapabilities a = Inr c \<longleftrightarrow> a = capabilities_as_args c \<and> capabilities_wf c"
  using mk_BackendCapabilities_sound mk_BackendCapabilities_complete by blast

end
