(* ===== verification/SequenceContracts.thy ===== *)
theory SequenceContracts
  imports Contracts
begin

text \<open>
  The remaining dataclasses of \<open>inference_runtime/contracts.py\<close>: scheduling metadata and session
  control, sequence steps and batches, prefill, decode and release outcomes, completion
  statistics, and scheduler events.
\<close>

section \<open>Scheduling metadata\<close>

record SessionCacheControl =
  sc_session_id :: string
  sc_parent_generation :: "int option"
  sc_commit :: bool

definition mk_SessionCacheControl :: "pyval \<Rightarrow> pyval \<Rightarrow> pyval \<Rightarrow> contract_error + SessionCacheControl" where
  "mk_SessionCacheControl session_id parent_generation commit =
     rbind (bounded_text session_id ''session_id'' MAX_IDENTIFIER_BYTES) (\<lambda>s.
     rbind (optional_positive_int parent_generation ''parent_generation'') (\<lambda>p.
     rbind (bool_flag commit ''commit'' ''must be a bool'') (\<lambda>c.
       Inr \<lparr>sc_session_id = s, sc_parent_generation = p, sc_commit = c\<rparr>)))"

record SchedulingMetadata =
  sm_request_id :: string
  sm_workflow_id :: string
  sm_agent_id :: string
  sm_service_class :: string
  sm_weight :: int
  sm_deadline_monotonic :: "rat option"
  sm_cache_scope :: "CacheScope option"
  sm_session_cache :: "SessionCacheControl option"

definition optional_time :: "pyval \<Rightarrow> string \<Rightarrow> contract_error + rat option" where
  "optional_time v field =
     (if v = PNone then Inr None else rbind (monotonic_time v field) (\<lambda>t. Inr (Some t)))"

definition check_cache_scope ::
  "CacheScope option \<Rightarrow> string \<Rightarrow> string \<Rightarrow> contract_error + unit" where
  "check_cache_scope scope workflow agent =
     (case scope of
        None \<Rightarrow> Inr ()
      | Some s \<Rightarrow>
          if cs_workflow_id s \<noteq> workflow
          then fail_field ''cache_scope'' ''workflow_id must match scheduling metadata''
          else if cs_agent_id s \<noteq> agent
          then fail_field ''cache_scope'' ''agent_id must match scheduling metadata''
          else Inr ())"

definition check_session_cache ::
  "SessionCacheControl option \<Rightarrow> CacheScope option \<Rightarrow> contract_error + unit" where
  "check_session_cache session scope =
     (case session of
        None \<Rightarrow> Inr ()
      | Some _ \<Rightarrow>
          (case scope of
             Some s \<Rightarrow> check_field (cs_visibility s = PRIVATE) ''session_cache''
                         ''requires a private cache_scope''
           | None \<Rightarrow> fail_field ''session_cache'' ''requires a private cache_scope''))"

definition mk_SchedulingMetadata ::
  "pyval \<Rightarrow> pyval \<Rightarrow> pyval \<Rightarrow> pyval \<Rightarrow> pyval \<Rightarrow> pyval \<Rightarrow> CacheScope option \<Rightarrow>
   SessionCacheControl option \<Rightarrow> contract_error + SchedulingMetadata" where
  "mk_SchedulingMetadata request_id workflow_id agent_id service_class weight deadline scope session =
     rbind (bounded_text request_id ''request_id'' MAX_IDENTIFIER_BYTES) (\<lambda>r.
     rbind (bounded_text workflow_id ''workflow_id'' MAX_IDENTIFIER_BYTES) (\<lambda>w.
     rbind (bounded_text agent_id ''agent_id'' MAX_IDENTIFIER_BYTES) (\<lambda>a.
     rbind (bounded_text service_class ''service_class'' MAX_SERVICE_CLASS_BYTES) (\<lambda>c.
     rbind (positive_int weight ''weight'') (\<lambda>n.
     rbind (check_field (n \<le> MAX_SCHEDULING_WEIGHT) ''weight''
              (''must not exceed '' @ show_int MAX_SCHEDULING_WEIGHT)) (\<lambda>_.
     rbind (optional_time deadline ''deadline_monotonic'') (\<lambda>d.
     rbind (check_cache_scope scope w a) (\<lambda>_.
     rbind (check_session_cache session scope) (\<lambda>_.
       Inr \<lparr>sm_request_id = r, sm_workflow_id = w, sm_agent_id = a, sm_service_class = c,
            sm_weight = n, sm_deadline_monotonic = d, sm_cache_scope = scope,
            sm_session_cache = session\<rparr>)))))))))"

definition metadata_wf :: "SchedulingMetadata \<Rightarrow> bool" where
  "metadata_wf m \<longleftrightarrow>
     id_ok 256 (sm_request_id m) \<and> id_ok 256 (sm_workflow_id m) \<and> id_ok 256 (sm_agent_id m) \<and>
     id_ok 64 (sm_service_class m) \<and> 0 < sm_weight m \<and> sm_weight m \<le> 1000000 \<and>
     (\<forall>t. sm_deadline_monotonic m = Some t \<longrightarrow> 0 \<le> t) \<and>
     (\<forall>s. sm_cache_scope m = Some s \<longrightarrow>
        cs_workflow_id s = sm_workflow_id m \<and> cs_agent_id s = sm_agent_id m) \<and>
     (sm_session_cache m \<noteq> None \<longrightarrow>
        (\<exists>s. sm_cache_scope m = Some s \<and> cs_visibility s = PRIVATE))"

lemma optional_time_nonneg: "optional_time v f = Inr d \<Longrightarrow> \<forall>t. d = Some t \<longrightarrow> 0 \<le> t"
  by (auto simp: optional_time_def monotonic_time_Inr split: if_splits)

lemma check_cache_scope_Inr:
  "check_cache_scope scope w a = Inr u \<longleftrightarrow>
     (\<forall>s. scope = Some s \<longrightarrow> cs_workflow_id s = w \<and> cs_agent_id s = a)"
  by (auto simp: check_cache_scope_def split: option.splits)

lemma check_session_cache_Inr:
  "check_session_cache session scope = Inr u \<longleftrightarrow>
     (session \<noteq> None \<longrightarrow> (\<exists>s. scope = Some s \<and> cs_visibility s = PRIVATE))"
  by (auto simp: check_session_cache_def split: option.splits)


definition demo_scope :: CacheScope where
  "demo_scope = \<lparr>cs_tenant_id = ''t'', cs_workflow_id = ''w'', cs_agent_id = ''a'', cs_visibility = PRIVATE\<rparr>"


section \<open>Steps and batches\<close>

record SequenceStep =
  st_handle :: SequenceHandle
  st_token_budget :: int

definition mk_SequenceStep :: "SequenceHandle \<Rightarrow> pyval \<Rightarrow> contract_error + SequenceStep" where
  "mk_SequenceStep handle token_budget =
     rbind (positive_int token_budget ''token_budget'') (\<lambda>n.
       Inr \<lparr>st_handle = handle, st_token_budget = n\<rparr>)"

fun batch_loop ::
  "int \<Rightarrow> nat \<Rightarrow> SequenceHandle list \<Rightarrow> SequenceStep list \<Rightarrow> contract_error + unit" where
  "batch_loop max_tokens index handles [] = Inr ()"
| "batch_loop max_tokens index handles (step # steps) =
     (if st_handle step \<in> set handles
      then fail_field ''steps'' ''must not contain duplicate sequence handles''
      else if max_tokens < st_token_budget step
      then fail_field (''steps['' @ show_nat index @ ''].token_budget'') ''exceeds the backend step limit''
      else batch_loop max_tokens (Suc index) (st_handle step # handles) steps)"

definition validate_sequence_batch ::
  "SequenceStep list \<Rightarrow> pyval \<Rightarrow> pyval \<Rightarrow> contract_error + SequenceStep list" where
  "validate_sequence_batch steps max_sequences max_tokens_per_step =
     (if steps = [] then fail_field ''steps'' ''must be a non-empty tuple''
      else
        rbind (positive_int max_sequences ''max_sequences'') (\<lambda>ms.
        rbind (positive_int max_tokens_per_step ''max_tokens_per_step'') (\<lambda>mt.
          if ms < int (length steps) then fail_field ''steps'' ''exceeds the backend sequence batch limit''
          else rbind (batch_loop mt 0 [] steps) (\<lambda>_. Inr steps))))"

lemma batch_loop_Inr:
  "batch_loop mt i hs steps = Inr () \<longleftrightarrow>
     distinct (map st_handle steps) \<and> set (map st_handle steps) \<inter> set hs = {} \<and>
     list_all (\<lambda>s. st_token_budget s \<le> mt) steps"
  by (induction mt i hs steps rule: batch_loop.induct) auto

text \<open>
  \<open>validate_sequence_batch\<close> returns the batch unchanged exactly when it is non-empty, within
  the positive sequence limit, names no sequence handle twice and gives no step more than the
  positive per-step token limit.
\<close>

theorem validate_sequence_batch_iff:
  "validate_sequence_batch steps vs vt = Inr out \<longleftrightarrow>
     out = steps \<and> steps \<noteq> [] \<and>
     (\<exists>ms mt. vs = PInt ms \<and> vt = PInt mt \<and> 0 < mt \<and> int (length steps) \<le> ms \<and>
        distinct (map st_handle steps) \<and> list_all (\<lambda>s. st_token_budget s \<le> mt) steps)"
proof (cases "steps = []")
  case True
  then show ?thesis by (auto simp: validate_sequence_batch_def)
next
  case False
  then have "0 < ms" if "int (length steps) \<le> ms" for ms
    using that by (cases steps) auto
  with False show ?thesis
    by (auto simp: validate_sequence_batch_def field_Inr batch_loop_Inr split: if_splits)
qed

section \<open>Prefill outcomes\<close>

datatype PrefillStatus = PrefillPartial | PrefillReady

record PrefillOutcome =
  po_handle :: SequenceHandle
  po_status :: PrefillStatus
  po_processed_tokens :: int
  po_remaining_tokens :: int

definition mk_PrefillOutcome ::
  "SequenceHandle \<Rightarrow> PrefillStatus \<Rightarrow> pyval \<Rightarrow> pyval \<Rightarrow> contract_error + PrefillOutcome" where
  "mk_PrefillOutcome handle status processed_tokens remaining_tokens =
     rbind (non_negative_int processed_tokens ''processed_tokens'') (\<lambda>processed.
     rbind (non_negative_int remaining_tokens ''remaining_tokens'') (\<lambda>remaining.
     rbind (if status = PrefillPartial then
              check_field (processed \<noteq> 0 \<and> remaining \<noteq> 0) ''status''
                ''partial prefill must make progress and retain input tokens''
            else check_field (remaining = 0) ''remaining_tokens''
                ''ready prefill must have no remaining tokens'') (\<lambda>_.
       Inr \<lparr>po_handle = handle, po_status = status, po_processed_tokens = processed,
            po_remaining_tokens = remaining\<rparr>)))"

definition prefill_wf :: "PrefillOutcome \<Rightarrow> bool" where
  "prefill_wf p \<longleftrightarrow> 0 \<le> po_processed_tokens p \<and>
     (case po_status p of
        PrefillPartial \<Rightarrow> 0 < po_processed_tokens p \<and> 0 < po_remaining_tokens p
      | PrefillReady \<Rightarrow> po_remaining_tokens p = 0)"

lemma mk_PrefillOutcome_Inr:
  "mk_PrefillOutcome h s p r = Inr out \<longleftrightarrow>
     h = po_handle out \<and> s = po_status out \<and> p = PInt (po_processed_tokens out) \<and>
     r = PInt (po_remaining_tokens out) \<and> prefill_wf out"
  by (cases out; cases s) (auto simp: mk_PrefillOutcome_def field_Inr prefill_wf_def)

section \<open>Completion statistics\<close>

datatype FinishReason = FinishStop | FinishLength | FinishCancelled

record ('t, 'n, 'f, 'b, 'l, 'ot, 'oi) completion =
  co_final_text :: 't
  co_prompt_tokens :: 'n
  co_reasoning_tokens :: 'n
  co_final_tokens :: 'n
  co_sampled_tokens :: 'n
  co_prompt_decode_ms :: 'f
  co_generation_ms :: 'f
  co_cached_prompt_tokens :: 'n
  co_cache_hit :: 'b
  co_first_sample_ms :: 'f
  co_first_final_ms :: 'f
  co_sample_itl_ms :: 'l
  co_final_itl_ms :: 'l
  co_grammar_engine :: 't
  co_cache_match :: 't
  co_session_id :: 'ot
  co_session_parent_generation :: 'oi
  co_session_generation :: 'oi
  co_session_copy_on_write :: 'b

type_synonym completion_args = "(pyval, pyval, pyval, pyval, pyval, pyval, pyval) completion"
type_synonym SequenceCompletion = "(string, int, rat, bool, rat list, string option, int option) completion"

definition finite_ms :: "pyval \<Rightarrow> string \<Rightarrow> string \<Rightarrow> contract_error + rat" where
  "finite_ms v field message =
     (case finite_val v of
        Some t \<Rightarrow> if t < 0 then fail_field field message else Inr t
      | None \<Rightarrow> fail_field field message)"

definition itl_tuple :: "pyval \<Rightarrow> string \<Rightarrow> int \<Rightarrow> contract_error + rat list" where
  "itl_tuple v name maximum =
     (case v of
        PTuple ts \<Rightarrow>
          if maximum < int (length ts) then fail_field name ''must be a bounded tuple of token intervals''
          else rmap (\<lambda>(i, t). finite_ms t (name @ ''['' @ show_nat i @ '']'')
                       ''must be finite and non-negative'') (enumerate 0 ts)
      | _ \<Rightarrow> fail_field name ''must be a bounded tuple of token intervals'')"

definition text_field :: "pyval \<Rightarrow> string \<Rightarrow> contract_error + string" where
  "text_field v field = (case v of PStr s \<Rightarrow> Inr s | _ \<Rightarrow> fail_field field ''must be a string'')"

definition grammar_field :: "pyval \<Rightarrow> contract_error + string" where
  "grammar_field v =
     (case v of
        PStr s \<Rightarrow> if s = [] \<or> 64 < py_len s
                 then fail_field ''grammar_engine'' ''must be a non-empty bounded string'' else Inr s
      | _ \<Rightarrow> fail_field ''grammar_engine'' ''must be a non-empty bounded string'')"

fun hashable :: "pyval \<Rightarrow> bool" where
  "hashable (PList _) = False"
| "hashable (PDict _) = False"
| "hashable (PTuple vs) = list_all hashable vs"
| "hashable _ = True"

definition match_field :: "pyval \<Rightarrow> contract_error + string" where
  "match_field v =
     (if \<not> hashable v then Inl UnhashableType
      else case v of
        PStr s \<Rightarrow> rbind (check_field (s \<in> {''unknown'', ''none'', ''exact'', ''prefix'', ''session''})
                   ''cache_match'' ''must identify a supported cache match kind'') (\<lambda>_. Inr s)
      | _ \<Rightarrow> fail_field ''cache_match'' ''must identify a supported cache match kind'')"

definition session_fields ::
  "completion_args \<Rightarrow> bool \<Rightarrow> contract_error + (string option \<times> int option \<times> int option)" where
  "session_fields a cow =
     (if co_session_id a = PNone then
        rbind (check_field (co_session_parent_generation a = PNone \<and> co_session_generation a = PNone \<and> \<not> cow)
                 ''session_id'' ''is required for session cache metadata'') (\<lambda>_. Inr (None, None, None))
      else
        rbind (bounded_text (co_session_id a) ''session_id'' MAX_IDENTIFIER_BYTES) (\<lambda>sid.
        rbind (optional_positive_int (co_session_parent_generation a) ''session_parent_generation'') (\<lambda>parent.
        rbind (optional_positive_int (co_session_generation a) ''session_generation'') (\<lambda>gen.
        rbind (check_field (\<not> (cow \<and> (parent = None \<or> gen = None)))
                 ''session_copy_on_write'' ''requires parent and committed generations'') (\<lambda>_.
          Inr (Some sid, parent, gen))))))"

definition mk_SequenceCompletion :: "completion_args \<Rightarrow> contract_error + SequenceCompletion" where
  "mk_SequenceCompletion a =
     rbind (text_field (co_final_text a) ''final_text'') (\<lambda>final_text.
     rbind (non_negative_int (co_prompt_tokens a) ''prompt_tokens'') (\<lambda>prompt.
     rbind (non_negative_int (co_reasoning_tokens a) ''reasoning_tokens'') (\<lambda>reasoning.
     rbind (non_negative_int (co_final_tokens a) ''final_tokens'') (\<lambda>final.
     rbind (non_negative_int (co_sampled_tokens a) ''sampled_tokens'') (\<lambda>sampled.
     rbind (non_negative_int (co_cached_prompt_tokens a) ''cached_prompt_tokens'') (\<lambda>cached.
     rbind (check_field (reasoning + final \<le> sampled) ''sampled_tokens''
              ''must cover reasoning and final token counts'') (\<lambda>_.
     rbind (check_field (prompt + sampled \<noteq> 0) ''sampled_tokens''
              ''completion must account at least one token'') (\<lambda>_.
     rbind (check_field (cached \<le> prompt) ''cached_prompt_tokens'' ''must not exceed prompt_tokens'') (\<lambda>_.
     rbind (bool_flag (co_cache_hit a) ''cache_hit'' ''must be a bool'') (\<lambda>hit.
     rbind (bool_flag (co_session_copy_on_write a) ''session_copy_on_write'' ''must be a bool'') (\<lambda>cow.
     rbind (grammar_field (co_grammar_engine a)) (\<lambda>grammar.
     rbind (match_field (co_cache_match a)) (\<lambda>m.
     rbind (check_field (\<not> (m \<in> {''exact'', ''prefix'', ''session''} \<and> \<not> hit)) ''cache_match''
              ''a cache match requires cache_hit'') (\<lambda>_.
     rbind (check_field (\<not> (m = ''session'' \<and>
                (co_session_id a = PNone \<or> co_session_parent_generation a = PNone))) ''cache_match''
              ''a session match requires a session id and parent generation'') (\<lambda>_.
     rbind (session_fields a cow) (\<lambda>(sid, parent, gen).
     rbind (check_field (hit = (0 < cached)) ''cache_hit''
              ''must match whether cached prompt tokens were reused'') (\<lambda>_.
     rbind (finite_ms (co_prompt_decode_ms a) ''prompt_decode_ms'' ''must be a finite non-negative number'') (\<lambda>pd.
     rbind (finite_ms (co_generation_ms a) ''generation_ms'' ''must be a finite non-negative number'') (\<lambda>gm.
     rbind (finite_ms (co_first_sample_ms a) ''first_sample_ms'' ''must be a finite non-negative number'') (\<lambda>fs.
     rbind (finite_ms (co_first_final_ms a) ''first_final_ms'' ''must be a finite non-negative number'') (\<lambda>ff.
     rbind (itl_tuple (co_sample_itl_ms a) ''sample_itl_ms'' (max 0 (sampled - 1))) (\<lambda>sitl.
     rbind (itl_tuple (co_final_itl_ms a) ''final_itl_ms'' (max 0 (final - 1))) (\<lambda>fitl.
     rbind (check_field (\<not> (0 < sampled \<and> fs = 0 \<and> sitl \<noteq> [])) ''first_sample_ms''
              ''must be positive when token timings are present'') (\<lambda>_.
     rbind (check_field (\<not> (0 < final \<and> ff = 0 \<and> fitl \<noteq> [])) ''first_final_ms''
              ''must be positive when final timings are present'') (\<lambda>_.
       Inr \<lparr>co_final_text = final_text, co_prompt_tokens = prompt, co_reasoning_tokens = reasoning,
            co_final_tokens = final, co_sampled_tokens = sampled, co_prompt_decode_ms = pd,
            co_generation_ms = gm, co_cached_prompt_tokens = cached, co_cache_hit = hit,
            co_first_sample_ms = fs, co_first_final_ms = ff, co_sample_itl_ms = sitl,
            co_final_itl_ms = fitl, co_grammar_engine = grammar, co_cache_match = m,
            co_session_id = sid, co_session_parent_generation = parent,
            co_session_generation = gen, co_session_copy_on_write = cow\<rparr>)))))))))))))))))))))))))"

text \<open>What a validated completion guarantees to the accounting code.\<close>

definition completion_wf :: "SequenceCompletion \<Rightarrow> bool" where
  "completion_wf c \<longleftrightarrow>
     0 \<le> co_reasoning_tokens c \<and> 0 \<le> co_final_tokens c \<and>
     co_reasoning_tokens c + co_final_tokens c \<le> co_sampled_tokens c \<and>
     0 < co_prompt_tokens c + co_sampled_tokens c \<and>
     0 \<le> co_cached_prompt_tokens c \<and> co_cached_prompt_tokens c \<le> co_prompt_tokens c \<and>
     (co_cache_hit c \<longleftrightarrow> 0 < co_cached_prompt_tokens c) \<and>
     (co_cache_match c \<in> {''exact'', ''prefix'', ''session''} \<longrightarrow> 0 < co_cached_prompt_tokens c) \<and>
     (co_cache_match c = ''session'' \<longrightarrow>
        co_session_id c \<noteq> None \<and> co_session_parent_generation c \<noteq> None) \<and>
     (co_session_copy_on_write c \<longrightarrow> co_session_id c \<noteq> None \<and>
        co_session_parent_generation c \<noteq> None \<and> co_session_generation c \<noteq> None) \<and>
     int (length (co_sample_itl_ms c)) \<le> max 0 (co_sampled_tokens c - 1) \<and>
     int (length (co_final_itl_ms c)) \<le> max 0 (co_final_tokens c - 1) \<and>
     (co_sample_itl_ms c \<noteq> [] \<longrightarrow> 0 < co_first_sample_ms c) \<and>
     (co_final_itl_ms c \<noteq> [] \<longrightarrow> 0 < co_first_final_ms c)"

lemma finite_ms_nonneg: "finite_ms v f m = Inr t \<Longrightarrow> 0 \<le> t"
  by (auto simp: finite_ms_def split: option.splits if_splits)

lemma itl_tuple_length:
  assumes "itl_tuple v f n = Inr ts" shows "int (length ts) \<le> n"
proof -
  obtain vs where "\<not> n < int (length vs)" and "rmap (\<lambda>(i, t). finite_ms t (f @ ''['' @ show_nat i @ '']'')
      ''must be finite and non-negative'') (enumerate 0 vs) = Inr ts"
    using assms by (auto simp: itl_tuple_def split: pyval.splits if_splits)
  then show ?thesis by (auto simp: rmap_eq_Inr dest: list_all2_lengthD)
qed

lemma session_fields_Inr:
  assumes "session_fields a cow = Inr (sid, parent, gen)"
  shows "(sid = None) = (co_session_id a = PNone)"
    and "(parent = None) = (co_session_parent_generation a = PNone)"
    and "cow \<Longrightarrow> sid \<noteq> None \<and> parent \<noteq> None \<and> gen \<noteq> None"
  using assms by (auto simp: session_fields_def field_Inr opt_int_def split: if_splits option.splits)


lemma match_field_Inr: "match_field v = Inr m \<Longrightarrow> m \<in> {''unknown'', ''none'', ''exact'', ''prefix'', ''session''}"
  by (auto simp: match_field_def split: if_splits pyval.splits)

lemma mk_SequenceCompletion_fields:
  "mk_SequenceCompletion a = Inr c \<Longrightarrow>
     0 \<le> co_reasoning_tokens c \<and> 0 \<le> co_final_tokens c \<and> 0 \<le> co_prompt_tokens c \<and>
     0 \<le> co_sampled_tokens c \<and> 0 \<le> co_cached_prompt_tokens c \<and>
     co_reasoning_tokens c + co_final_tokens c \<le> co_sampled_tokens c \<and>
     co_prompt_tokens c + co_sampled_tokens c \<noteq> 0 \<and>
     co_cached_prompt_tokens c \<le> co_prompt_tokens c \<and>
     \<not> (co_cache_match c \<in> {''exact'', ''prefix'', ''session''} \<and> \<not> co_cache_hit c) \<and>
     \<not> (co_cache_match c = ''session'' \<and>
          (co_session_id a = PNone \<or> co_session_parent_generation a = PNone)) \<and>
     session_fields a (co_session_copy_on_write c) =
       Inr (co_session_id c, co_session_parent_generation c, co_session_generation c) \<and>
     co_cache_hit c = (0 < co_cached_prompt_tokens c) \<and>
     finite_ms (co_first_sample_ms a) ''first_sample_ms'' ''must be a finite non-negative number'' =
       Inr (co_first_sample_ms c) \<and>
     finite_ms (co_first_final_ms a) ''first_final_ms'' ''must be a finite non-negative number'' =
       Inr (co_first_final_ms c) \<and>
     itl_tuple (co_sample_itl_ms a) ''sample_itl_ms'' (max 0 (co_sampled_tokens c - 1)) =
       Inr (co_sample_itl_ms c) \<and>
     itl_tuple (co_final_itl_ms a) ''final_itl_ms'' (max 0 (co_final_tokens c - 1)) =
       Inr (co_final_itl_ms c) \<and>
     \<not> (0 < co_sampled_tokens c \<and> co_first_sample_ms c = 0 \<and> co_sample_itl_ms c \<noteq> []) \<and>
     \<not> (0 < co_final_tokens c \<and> co_first_final_ms c = 0 \<and> co_final_itl_ms c \<noteq> [])"
  unfolding mk_SequenceCompletion_def rbind_eq_Inr field_Inr ensure_eq_Inr sum.inject
    split_paired_Ex case_prod_conv
  by (elim exE conjE, drule sym [of _ c], hypsubst_thin) (simp only: completion.simps simp_thms)

lemma completion_interval_positive:
  fixes first :: rat
  assumes "int (length ts) \<le> max 0 (n - 1)" "\<not> (0 < n \<and> first = 0 \<and> ts \<noteq> [])" "0 \<le> first"
  shows "ts \<noteq> [] \<longrightarrow> 0 < first"
  using assms by (cases ts) (auto simp: max_def split: if_splits)

text \<open>
  Every \<open>SequenceCompletion\<close> that can be constructed has consistent accounting: sampled tokens
  cover reasoning and final tokens, at least one token is accounted, reused prompt tokens are a
  part of the prompt and are positive exactly on a cache hit, a session match or copy-on-write
  names its session lineage, and the interval lists are shorter than the token counts.
\<close>

theorem mk_SequenceCompletion_wf:
  assumes "mk_SequenceCompletion a = Inr c"
  shows "completion_wf c"
proof -
  note fields = mk_SequenceCompletion_fields [OF assms]
  have session: "session_fields a (co_session_copy_on_write c) =
      Inr (co_session_id c, co_session_parent_generation c, co_session_generation c)"
    and sitl: "itl_tuple (co_sample_itl_ms a) ''sample_itl_ms'' (max 0 (co_sampled_tokens c - 1)) =
      Inr (co_sample_itl_ms c)"
    and fitl: "itl_tuple (co_final_itl_ms a) ''final_itl_ms'' (max 0 (co_final_tokens c - 1)) =
      Inr (co_final_itl_ms c)"
    and fs: "finite_ms (co_first_sample_ms a) ''first_sample_ms'' ''must be a finite non-negative number'' =
      Inr (co_first_sample_ms c)"
    and ff: "finite_ms (co_first_final_ms a) ''first_final_ms'' ''must be a finite non-negative number'' =
      Inr (co_first_final_ms c)"
    using fields by blast+
  note ids = session_fields_Inr [OF session]
  note len = itl_tuple_length [OF sitl] itl_tuple_length [OF fitl]
  have pos: "co_sample_itl_ms c \<noteq> [] \<longrightarrow> 0 < co_first_sample_ms c"
    "co_final_itl_ms c \<noteq> [] \<longrightarrow> 0 < co_first_final_ms c"
    using completion_interval_positive [OF len(1) _ finite_ms_nonneg [OF fs]]
      completion_interval_positive [OF len(2) _ finite_ms_nonneg [OF ff]] fields by blast+
  have "0 < co_prompt_tokens c + co_sampled_tokens c" using fields by linarith
  then show ?thesis using fields ids len pos unfolding completion_wf_def by blast
qed

definition demo_completion_args :: completion_args where
  "demo_completion_args =
     \<lparr>co_final_text = PStr ''ok'', co_prompt_tokens = PInt 5, co_reasoning_tokens = PInt 1,
      co_final_tokens = PInt 2, co_sampled_tokens = PInt 4, co_prompt_decode_ms = PInt 1,
      co_generation_ms = PInt 2, co_cached_prompt_tokens = PInt 3, co_cache_hit = PBool True,
      co_first_sample_ms = PInt 1, co_first_final_ms = PInt 1,
      co_sample_itl_ms = PTuple [PInt 1, PInt 2], co_final_itl_ms = PTuple [PInt 1],
      co_grammar_engine = PStr ''gbnf'', co_cache_match = PStr ''prefix'', co_session_id = PNone,
      co_session_parent_generation = PNone, co_session_generation = PNone,
      co_session_copy_on_write = PBool False\<rparr>"

theorem mk_SequenceCompletion_wf_witness:
  "\<exists>c. mk_SequenceCompletion demo_completion_args = Inr c \<and> completion_wf c"
proof -
  have "\<exists>c. mk_SequenceCompletion demo_completion_args = Inr c"
    by (simp add: mk_SequenceCompletion_def demo_completion_args_def field_Inr text_field_def
        grammar_field_def py_len_def match_field_def session_fields_def finite_ms_def itl_tuple_def
        del: split_paired_Ex) blast
  then show ?thesis using mk_SequenceCompletion_wf by blast
qed

section \<open>Decode outcomes\<close>

datatype DecodeStatus = DecodeProgressed | DecodeFinished | DecodeFailed

record DecodeOutcome =
  do_handle :: SequenceHandle
  do_status :: DecodeStatus
  do_token_ids :: "int list"
  do_text_delta :: string
  do_finish_reason :: "FinishReason option"
  do_completion :: "SequenceCompletion option"
  do_error_code :: "string option"

definition token_tuple :: "pyval \<Rightarrow> contract_error + int list" where
  "token_tuple v =
     (case v of
        PTuple ts \<Rightarrow> rmap (\<lambda>(i, t). non_negative_int t (''token_ids['' @ show_nat i @ '']'')) (enumerate 0 ts)
      | _ \<Rightarrow> fail_field ''token_ids'' ''must be a tuple'')"

definition mk_DecodeOutcome ::
  "SequenceHandle \<Rightarrow> DecodeStatus \<Rightarrow> pyval \<Rightarrow> pyval \<Rightarrow> FinishReason option \<Rightarrow>
   SequenceCompletion option \<Rightarrow> pyval \<Rightarrow> contract_error + DecodeOutcome" where
  "mk_DecodeOutcome handle status token_ids text_delta finish_reason completion error_code =
     rbind (token_tuple token_ids) (\<lambda>tokens.
     rbind (text_field text_delta ''text_delta'') (\<lambda>delta.
     rbind (case status of
              DecodeProgressed \<Rightarrow>
                if tokens = [] then fail_field ''token_ids'' ''progressed decode must produce at least one token''
                else if finish_reason \<noteq> None
                then fail_field ''finish_reason'' ''progressed decode must not have a finish reason''
                else if completion \<noteq> None \<or> error_code \<noteq> PNone
                then fail_field ''status'' ''progressed decode cannot carry completion or error''
                else Inr None
            | DecodeFinished \<Rightarrow>
                if finish_reason = None
                then fail_field ''finish_reason'' ''finished decode requires a finish reason''
                else if completion = None
                then fail_field ''completion'' ''finished decode requires completion statistics''
                else if error_code \<noteq> PNone
                then fail_field ''error_code'' ''finished decode cannot carry an error''
                else Inr None
            | DecodeFailed \<Rightarrow>
                if finish_reason \<noteq> None \<or> completion \<noteq> None
                then fail_field ''status'' ''failed decode cannot carry a successful completion''
                else rbind (bounded_text error_code ''error_code'' MAX_ERROR_CODE_BYTES) (\<lambda>e. Inr (Some e)))
       (\<lambda>err.
         Inr \<lparr>do_handle = handle, do_status = status, do_token_ids = tokens, do_text_delta = delta,
              do_finish_reason = finish_reason, do_completion = completion, do_error_code = err\<rparr>)))"

definition decode_wf :: "DecodeOutcome \<Rightarrow> bool" where
  "decode_wf d \<longleftrightarrow> list_all (\<lambda>t. 0 \<le> t) (do_token_ids d) \<and>
     (case do_status d of
        DecodeProgressed \<Rightarrow> do_token_ids d \<noteq> [] \<and> do_finish_reason d = None \<and> do_completion d = None \<and>
          do_error_code d = None
      | DecodeFinished \<Rightarrow> do_finish_reason d \<noteq> None \<and> do_completion d \<noteq> None \<and> do_error_code d = None
      | DecodeFailed \<Rightarrow> do_finish_reason d = None \<and> do_completion d = None \<and>
          (\<exists>e. do_error_code d = Some e \<and> id_ok 128 e))"

lemma token_tuple_Inr: "token_tuple v = Inr ts \<longleftrightarrow> v = PTuple (map PInt ts) \<and> list_all (\<lambda>t. 0 \<le> t) ts"
proof -
  have "rmap (\<lambda>(i, t). non_negative_int t (''token_ids['' @ show_nat i @ '']'')) (enumerate 0 vs) = Inr ts
      \<longleftrightarrow> vs = map PInt ts \<and> list_all (\<lambda>t. 0 \<le> t) ts" for vs ts
    by (rule rmap_enumerate_Inr) (simp add: non_negative_int_Inr)
  then show ?thesis by (auto simp: token_tuple_def split: pyval.splits)
qed

lemma mk_DecodeOutcome_wf:
  assumes "mk_DecodeOutcome h s ts delta fr c e = Inr d"
  shows "decode_wf d \<and> do_handle d = h \<and> do_status d = s"
proof (cases s)
  case DecodeProgressed
  with assms show ?thesis
    by (auto simp: mk_DecodeOutcome_def token_tuple_Inr decode_wf_def split: if_splits)
next
  case DecodeFinished
  with assms show ?thesis
    by (auto simp: mk_DecodeOutcome_def token_tuple_Inr decode_wf_def split: if_splits)
next
  case DecodeFailed
  with assms show ?thesis
    by (auto simp: mk_DecodeOutcome_def token_tuple_Inr decode_wf_def bounded_text_Inr contract_limits
        split: if_splits)
qed

section \<open>Release outcomes\<close>

datatype ReleaseStatus = Released | AlreadyReleased | StaleHandle | NotFound

record ReleaseOutcome =
  ro_handle :: SequenceHandle
  ro_status :: ReleaseStatus
  ro_released_bytes :: int

definition mk_ReleaseOutcome ::
  "SequenceHandle \<Rightarrow> ReleaseStatus \<Rightarrow> pyval \<Rightarrow> contract_error + ReleaseOutcome" where
  "mk_ReleaseOutcome handle status released_bytes =
     rbind (non_negative_int released_bytes ''released_bytes'') (\<lambda>n.
     rbind (check_field (\<not> (status \<noteq> Released \<and> n \<noteq> 0)) ''released_bytes''
              ''non-released outcomes must report zero released bytes'') (\<lambda>_.
       Inr \<lparr>ro_handle = handle, ro_status = status, ro_released_bytes = n\<rparr>))"

section \<open>Scheduler events\<close>

datatype SchedulerEventKind =
    EvAdmitted
  | EvSequenceOpened
  | EvPrefillCompleted
  | EvDecodeCompleted
  | EvSequenceReleased
  | EvRequestCompleted
  | EvRequestFailed

definition sequence_event_kinds :: "SchedulerEventKind set" where
  "sequence_event_kinds = {EvSequenceOpened, EvPrefillCompleted, EvDecodeCompleted, EvSequenceReleased}"

definition token_event_kinds :: "SchedulerEventKind set" where
  "token_event_kinds = {EvPrefillCompleted, EvDecodeCompleted}"

record SchedulerEvent =
  ev_kind :: SchedulerEventKind
  ev_request_id :: string
  ev_at_monotonic :: rat
  ev_handle :: "SequenceHandle option"
  ev_tokens :: "int option"
  ev_error_code :: "string option"

definition mk_SchedulerEvent ::
  "SchedulerEventKind \<Rightarrow> pyval \<Rightarrow> pyval \<Rightarrow> SequenceHandle option \<Rightarrow> pyval \<Rightarrow> pyval \<Rightarrow>
   contract_error + SchedulerEvent" where
  "mk_SchedulerEvent kind request_id at_monotonic handle tokens error_code =
     rbind (bounded_text request_id ''request_id'' MAX_IDENTIFIER_BYTES) (\<lambda>r.
     rbind (monotonic_time at_monotonic ''at_monotonic'') (\<lambda>t.
     rbind (check_field (\<not> (kind \<in> sequence_event_kinds \<and> handle = None)) ''handle''
              ''sequence events require a SequenceHandle'') (\<lambda>_.
     rbind (if kind \<in> token_event_kinds then
              if tokens = PNone then fail_field ''tokens'' ''prefill/decode events require a token count''
              else rbind (non_negative_int tokens ''tokens'') (\<lambda>n. Inr (Some n))
            else if tokens \<noteq> PNone then fail_field ''tokens'' ''this event kind must not carry a token count''
            else Inr None) (\<lambda>n.
     rbind (if kind = EvRequestFailed then
              rbind (bounded_text error_code ''error_code'' MAX_ERROR_CODE_BYTES) (\<lambda>e. Inr (Some e))
            else if error_code \<noteq> PNone
            then fail_field ''error_code'' ''only request_failed events may carry an error code''
            else Inr None) (\<lambda>e.
       Inr \<lparr>ev_kind = kind, ev_request_id = r, ev_at_monotonic = t, ev_handle = handle,
            ev_tokens = n, ev_error_code = e\<rparr>)))))"

definition event_wf :: "SchedulerEvent \<Rightarrow> bool" where
  "event_wf e \<longleftrightarrow> id_ok 256 (ev_request_id e) \<and> 0 \<le> ev_at_monotonic e \<and>
     (ev_kind e \<in> sequence_event_kinds \<longrightarrow> ev_handle e \<noteq> None) \<and>
     (ev_tokens e \<noteq> None \<longleftrightarrow> ev_kind e \<in> token_event_kinds) \<and>
     (ev_error_code e \<noteq> None \<longleftrightarrow> ev_kind e = EvRequestFailed)"

lemma mk_SchedulerEvent_wf: "mk_SchedulerEvent k r t h n c = Inr e \<Longrightarrow> event_wf e \<and> ev_kind e = k"
  by (auto simp: mk_SchedulerEvent_def field_Inr event_wf_def contract_limits split: if_splits)

end
