(* ===== verification/Governance.thy ===== *)
theory Governance
  imports SequenceContracts
begin

text \<open>
  The fair selector of \<open>inference_runtime/governance.py\<close>: service classes, the scheduling policy
  and \<open>HierarchicalFairSelector\<close>. The selector is a record of its five ledgers and the emergency
  counter; an operation that can raise after it changed a ledger returns the error together with
  the changed selector. The text of a rejection is not modelled, its code and retry flag are.
\<close>

section \<open>Service classes and policy\<close>

datatype governance_error = Raised py_exc | AdmissionRejection string bool

record ServiceClassPolicy =
  scp_name :: string
  scp_priority :: int
  scp_emergency :: bool

definition mk_ServiceClassPolicy :: "pyval \<Rightarrow> pyval \<Rightarrow> pyval \<Rightarrow> governance_error + ServiceClassPolicy" where
  "mk_ServiceClassPolicy name_value priority emergency =
     rbind (case name_value of
              PStr s \<Rightarrow> if s = [] \<or> 64 < length s
                       then Inl (Raised (ValueError ''service class name must be 1..64 UTF-8 bytes''))
                       else Inr s
            | _ \<Rightarrow> Inl (Raised (ValueError ''service class name must be 1..64 UTF-8 bytes''))) (\<lambda>n.
     rbind (case priority of
              PInt i \<Rightarrow> if 1000000 < \<bar>i\<bar> then Inl (Raised (ValueError ''service class priority is invalid''))
                       else Inr i
            | _ \<Rightarrow> Inl (Raised (ValueError ''service class priority is invalid''))) (\<lambda>p.
     rbind (case emergency of
              PBool b \<Rightarrow> Inr b
            | _ \<Rightarrow> Inl (Raised (TypeError ''emergency must be a bool''))) (\<lambda>e.
       Inr \<lparr>scp_name = n, scp_priority = p, scp_emergency = e\<rparr>)))"

record RuntimeSchedulingPolicy =
  rp_service_classes :: "ServiceClassPolicy list"
  rp_aging_interval_seconds :: rat
  rp_deadline_urgency_window_seconds :: rat
  rp_deadline_priority_boost :: int
  rp_emergency_burst_cap :: int

fun class_names_loop ::
  "string list \<Rightarrow> nat \<Rightarrow> ServiceClassPolicy list \<Rightarrow> governance_error + nat" where
  "class_names_loop names emergency_count [] = Inr emergency_count"
| "class_names_loop names emergency_count (item # rest) =
     (if scp_name item \<in> set names
      then Inl (Raised (ValueError ''service class names must be unique''))
      else class_names_loop (scp_name item # names)
             (emergency_count + (if scp_emergency item then 1 else 0)) rest)"

definition positive_seconds :: "pyval \<Rightarrow> string \<Rightarrow> governance_error + rat" where
  "positive_seconds v name =
     (case finite_val v of
        Some t \<Rightarrow> if t \<le> 0 then Inl (Raised (ValueError (name @ '' must be finite and positive''))) else Inr t
      | None \<Rightarrow> Inl (Raised (ValueError (name @ '' must be finite and positive''))))"

definition mk_RuntimeSchedulingPolicy ::
  "ServiceClassPolicy list \<Rightarrow> pyval \<Rightarrow> pyval \<Rightarrow> pyval \<Rightarrow> pyval \<Rightarrow>
   governance_error + RuntimeSchedulingPolicy" where
  "mk_RuntimeSchedulingPolicy service_classes aging window boost cap =
     (if service_classes = []
      then Inl (Raised (ValueError ''service_classes must be a non-empty tuple''))
      else
        rbind (class_names_loop [] 0 service_classes) (\<lambda>emergency_count.
        rbind (ensure (emergency_count \<le> 1)
                 (Raised (ValueError ''at most one service class may use the emergency lane''))) (\<lambda>_.
        rbind (positive_seconds aging ''aging_interval_seconds'') (\<lambda>a.
        rbind (positive_seconds window ''deadline_urgency_window_seconds'') (\<lambda>w.
        rbind (case boost of
                 PInt i \<Rightarrow> if i < 0
                          then Inl (Raised (ValueError ''deadline_priority_boost must be a non-negative integer''))
                          else Inr i
               | _ \<Rightarrow> Inl (Raised (ValueError ''deadline_priority_boost must be a non-negative integer''))) (\<lambda>b.
        rbind (case positive_int_val cap of
                 Some i \<Rightarrow> Inr i
               | None \<Rightarrow> Inl (Raised (ValueError ''emergency_burst_cap must be a positive integer''))) (\<lambda>c.
          Inr \<lparr>rp_service_classes = service_classes, rp_aging_interval_seconds = a,
               rp_deadline_urgency_window_seconds = w, rp_deadline_priority_boost = b,
               rp_emergency_burst_cap = c\<rparr>)))))))"

definition default_classes :: "ServiceClassPolicy list" where
  "default_classes =
     [\<lparr>scp_name = ''emergency'', scp_priority = 16, scp_emergency = True\<rparr>,
      \<lparr>scp_name = ''interactive-critical'', scp_priority = 8, scp_emergency = False\<rparr>,
      \<lparr>scp_name = ''interactive'', scp_priority = 4, scp_emergency = False\<rparr>,
      \<lparr>scp_name = ''throughput'', scp_priority = 2, scp_emergency = False\<rparr>,
      \<lparr>scp_name = ''background'', scp_priority = 0, scp_emergency = False\<rparr>,
      \<lparr>scp_name = ''batch'', scp_priority = -2, scp_emergency = False\<rparr>]"

definition policy_defaults :: "governance_error + RuntimeSchedulingPolicy" where
  "policy_defaults = mk_RuntimeSchedulingPolicy default_classes (PFloat (Finite 1)) (PFloat (Finite 2)) (PInt 8) (PInt 4)"

fun find_class :: "ServiceClassPolicy list \<Rightarrow> string \<Rightarrow> ServiceClassPolicy option" where
  "find_class [] name = None"
| "find_class (item # rest) name = (if scp_name item = name then Some item else find_class rest name)"

definition class_policy :: "RuntimeSchedulingPolicy \<Rightarrow> string \<Rightarrow> governance_error + ServiceClassPolicy" where
  "class_policy p name =
     (case find_class (rp_service_classes p) name of
        Some item \<Rightarrow> Inr item
      | None \<Rightarrow> Inl (AdmissionRejection ''unknown_service_class'' False))"

definition policy_wf :: "RuntimeSchedulingPolicy \<Rightarrow> bool" where
  "policy_wf p \<longleftrightarrow>
     rp_service_classes p \<noteq> [] \<and> distinct (map scp_name (rp_service_classes p)) \<and>
     length (filter scp_emergency (rp_service_classes p)) \<le> 1 \<and>
     0 < rp_aging_interval_seconds p \<and> 0 < rp_deadline_urgency_window_seconds p \<and>
     0 \<le> rp_deadline_priority_boost p \<and> 0 < rp_emergency_burst_cap p"

lemma class_names_loop_Inr:
  "class_names_loop names n cs = Inr m \<longleftrightarrow>
     distinct (map scp_name cs) \<and> set (map scp_name cs) \<inter> set names = {} \<and>
     m = n + length (filter scp_emergency cs)"
  by (induction names n cs rule: class_names_loop.induct) auto

lemma positive_seconds_Inr:
  "positive_seconds v name = Inr t \<longleftrightarrow> finite_val v = Some t \<and> 0 < t"
  by (auto simp: positive_seconds_def split: option.splits)

lemma mk_RuntimeSchedulingPolicy_wf:
  "mk_RuntimeSchedulingPolicy cs a w b c = Inr p \<Longrightarrow> policy_wf p \<and> rp_service_classes p = cs"
  by (auto simp: mk_RuntimeSchedulingPolicy_def class_names_loop_Inr positive_seconds_Inr policy_wf_def
      split: if_splits pyval.splits option.splits)

lemma find_class_Some: "find_class cs n = Some c \<Longrightarrow> c \<in> set cs \<and> scp_name c = n"
  by (induction cs) (auto split: if_splits)

lemma find_class_None: "find_class cs n = None \<longleftrightarrow> n \<notin> scp_name ` set cs"
  by (induction cs) auto

section \<open>The selector\<close>

text \<open>
  \<open>SchedulableEntry\<close> is a protocol: the fields every queue entry has. The record is extended by
  the entries of the schedulers.
\<close>

record schedulable =
  en_scheduling :: SchedulingMetadata
  en_admitted_at :: rat
  en_order :: int

record selector =
  fs_workflow_service :: "(string, int) odict"
  fs_agent_service :: "(string \<times> string, int) odict"
  fs_request_service :: "(string, int) odict"
  fs_workflow_weight :: "(string, int) odict"
  fs_agent_weight :: "(string \<times> string, int) odict"
  fs_consecutive_emergency :: int

definition mk_selector :: selector where
  "mk_selector = \<lparr>fs_workflow_service = [], fs_agent_service = [], fs_request_service = [],
     fs_workflow_weight = [], fs_agent_weight = [], fs_consecutive_emergency = 0\<rparr>"

definition get_default :: "('k, 'v) odict \<Rightarrow> 'k \<Rightarrow> 'v \<Rightarrow> 'v" where
  "get_default d k v = (case dict_get d k of Some x \<Rightarrow> x | None \<Rightarrow> v)"

definition counter_add :: "'k \<Rightarrow> int \<Rightarrow> ('k, int) odict \<Rightarrow> ('k, int) odict" where
  "counter_add k n d = dict_set k (get_default d k 0 + n) d"

abbreviation agent_of :: "SchedulingMetadata \<Rightarrow> string \<times> string" where
  "agent_of m \<equiv> (sm_workflow_id m, sm_agent_id m)"

definition register_entry :: "SchedulingMetadata \<Rightarrow> selector \<Rightarrow> selector" where
  "register_entry m s =
     (let workflow = sm_workflow_id m; agent = agent_of m in
      s\<lparr>fs_workflow_weight := dict_set workflow
            (max (get_default (fs_workflow_weight s) workflow 1) (sm_weight m)) (fs_workflow_weight s),
        fs_agent_weight := dict_set agent
            (max (get_default (fs_agent_weight s) agent 1) (sm_weight m)) (fs_agent_weight s)\<rparr>)"

fun register_entries ::
  "RuntimeSchedulingPolicy \<Rightarrow> 'a schedulable_scheme list \<Rightarrow> selector \<Rightarrow>
   (governance_error + unit) \<times> selector" where
  "register_entries p [] s = (Inr (), s)"
| "register_entries p (entry # rest) s =
     (case class_policy p (sm_service_class (en_scheduling entry)) of
        Inl e \<Rightarrow> (Inl e, s)
      | Inr _ \<Rightarrow> register_entries p rest (register_entry (en_scheduling entry) s))"

text \<open>
  \<open>_is_emergency\<close> and \<open>_key\<close> look the service class up again. They run only after
  \<open>register_entries\<close> found the class of every candidate, so the lookup cannot raise there; the
  model reads a missing class as a non-emergency class of priority zero.
\<close>

definition is_emergency :: "RuntimeSchedulingPolicy \<Rightarrow> 'a schedulable_scheme \<Rightarrow> bool" where
  "is_emergency p entry =
     (case class_policy p (sm_service_class (en_scheduling entry)) of
        Inr c \<Rightarrow> scp_emergency c | Inl _ \<Rightarrow> False)"

definition class_priority :: "RuntimeSchedulingPolicy \<Rightarrow> 'a schedulable_scheme \<Rightarrow> int" where
  "class_priority p entry =
     (case class_policy p (sm_service_class (en_scheduling entry)) of
        Inr c \<Rightarrow> scp_priority c | Inl _ \<Rightarrow> 0)"

definition aging_steps :: "RuntimeSchedulingPolicy \<Rightarrow> 'a schedulable_scheme \<Rightarrow> rat \<Rightarrow> int" where
  "aging_steps p entry now =
     \<lfloor>max 0 (now - en_admitted_at entry) / rp_aging_interval_seconds p\<rfloor>"

definition deadline_boost :: "RuntimeSchedulingPolicy \<Rightarrow> 'a schedulable_scheme \<Rightarrow> rat \<Rightarrow> int" where
  "deadline_boost p entry now =
     (case sm_deadline_monotonic (en_scheduling entry) of
        None \<Rightarrow> 0
      | Some d \<Rightarrow> if d - now \<le> rp_deadline_urgency_window_seconds p
                  then rp_deadline_priority_boost p else 0)"

definition effective_priority :: "RuntimeSchedulingPolicy \<Rightarrow> 'a schedulable_scheme \<Rightarrow> rat \<Rightarrow> int" where
  "effective_priority p entry now =
     class_priority p entry + aging_steps p entry now + deadline_boost p entry now"

definition workflow_debt :: "selector \<Rightarrow> SchedulingMetadata \<Rightarrow> rat" where
  "workflow_debt s m =
     of_int (get_default (fs_workflow_service s) (sm_workflow_id m) 0) /
     of_int (get_default (fs_workflow_weight s) (sm_workflow_id m) (sm_weight m))"

definition agent_debt :: "selector \<Rightarrow> SchedulingMetadata \<Rightarrow> rat" where
  "agent_debt s m =
     of_int (get_default (fs_agent_service s) (agent_of m) 0) /
     of_int (get_default (fs_agent_weight s) (agent_of m) (sm_weight m))"

definition request_debt :: "selector \<Rightarrow> SchedulingMetadata \<Rightarrow> rat" where
  "request_debt s m =
     of_int (get_default (fs_request_service s) (sm_request_id m) 0) / of_int (sm_weight m)"

type_synonym selection_key = "int \<times> rat \<times> rat \<times> rat \<times> etime \<times> int"

definition selection_key ::
  "RuntimeSchedulingPolicy \<Rightarrow> selector \<Rightarrow> rat \<Rightarrow> 'a schedulable_scheme \<Rightarrow> selection_key" where
  "selection_key p s now entry =
     (let m = en_scheduling entry in
      (- effective_priority p entry now, workflow_debt s m, agent_debt s m, request_debt s m,
       etime_of (sm_deadline_monotonic m), en_order entry))"

definition lane ::
  "RuntimeSchedulingPolicy \<Rightarrow> int \<Rightarrow> 'a schedulable_scheme list \<Rightarrow> 'a schedulable_scheme list" where
  "lane p consecutive candidates =
     (let emergency = filter (is_emergency p) candidates;
          normal = filter (\<lambda>e. \<not> is_emergency p e) candidates in
      if emergency \<noteq> [] \<and> (normal = [] \<or> consecutive < rp_emergency_burst_cap p) then emergency
      else if normal \<noteq> [] then normal else candidates)"

definition select ::
  "RuntimeSchedulingPolicy \<Rightarrow> 'a schedulable_scheme list \<Rightarrow> pyval \<Rightarrow> selector \<Rightarrow>
   (governance_error + 'a schedulable_scheme option) \<times> selector" where
  "select p entries now s =
     (case finite_val now of
        None \<Rightarrow> (Inl (Raised (ValueError ''now must be a finite non-negative timestamp'')), s)
      | Some t \<Rightarrow>
          if t < 0 then (Inl (Raised (ValueError ''now must be a finite non-negative timestamp'')), s)
          else if entries = [] then (Inr None, s)
          else case register_entries p entries s of
            (Inl e, s1) \<Rightarrow> (Inl e, s1)
          | (Inr _, s1) \<Rightarrow>
              (case min_by (selection_key p s1 t) (lane p (fs_consecutive_emergency s1) entries) of
                 None \<Rightarrow> (Inr None, s1)
               | Some selected \<Rightarrow>
                   (Inr (Some selected),
                    s1\<lparr>fs_consecutive_emergency :=
                        (if is_emergency p selected then fs_consecutive_emergency s1 + 1 else 0)\<rparr>)))"

definition charge :: "SchedulingMetadata \<Rightarrow> pyval \<Rightarrow> selector \<Rightarrow> (governance_error + unit) \<times> selector" where
  "charge m tokens s =
     (case positive_int_val tokens of
        None \<Rightarrow> (Inl (Raised (ValueError ''tokens must be a positive integer'')), s)
      | Some n \<Rightarrow>
          (Inr (),
           s\<lparr>fs_workflow_service := counter_add (sm_workflow_id m) n (fs_workflow_service s),
             fs_agent_service := counter_add (agent_of m) n (fs_agent_service s),
             fs_request_service := counter_add (sm_request_id m) n (fs_request_service s)\<rparr>))"

record FairnessSnapshot =
  fn_workflow_service :: "(string \<times> int) list"
  fn_agent_service :: "((string \<times> string) \<times> int) list"
  fn_request_service :: "(string \<times> int) list"
  fn_consecutive_emergency :: int

definition fairness_snapshot :: "selector \<Rightarrow> FairnessSnapshot" where
  "fairness_snapshot s =
     \<lparr>fn_workflow_service = sort (fs_workflow_service s),
      fn_agent_service = sort (fs_agent_service s),
      fn_request_service = sort (fs_request_service s),
      fn_consecutive_emergency = fs_consecutive_emergency s\<rparr>"

definition forget :: "SchedulingMetadata \<Rightarrow> bool \<Rightarrow> bool \<Rightarrow> selector \<Rightarrow> selector" where
  "forget m drop_agent drop_workflow s =
     (let s1 = s\<lparr>fs_request_service := dict_pop (sm_request_id m) (fs_request_service s)\<rparr>;
          s2 = (if drop_agent
                then s1\<lparr>fs_agent_service := dict_pop (agent_of m) (fs_agent_service s1),
                        fs_agent_weight := dict_pop (agent_of m) (fs_agent_weight s1)\<rparr>
                else s1)
      in if drop_workflow
         then s2\<lparr>fs_workflow_service := dict_pop (sm_workflow_id m) (fs_workflow_service s2),
                 fs_workflow_weight := dict_pop (sm_workflow_id m) (fs_workflow_weight s2)\<rparr>
         else s2)"


section \<open>Selection\<close>

definition known_class :: "RuntimeSchedulingPolicy \<Rightarrow> 'a schedulable_scheme \<Rightarrow> bool" where
  "known_class p e \<longleftrightarrow> sm_service_class (en_scheduling e) \<in> scp_name ` set (rp_service_classes p)"

lemma class_policy_known:
  "(\<exists>c. class_policy p (sm_service_class (en_scheduling e)) = Inr c) \<longleftrightarrow> known_class p e"
proof (cases "find_class (rp_service_classes p) (sm_service_class (en_scheduling e))")
  case None
  then have "\<not> known_class p e" unfolding known_class_def by (simp add: find_class_None)
  with None show ?thesis by (simp add: class_policy_def)
next
  case (Some c)
  then have "known_class p e" using find_class_Some [OF Some] unfolding known_class_def by force
  with Some show ?thesis by (simp add: class_policy_def)
qed

lemma register_entries_Inr:
  "fst (register_entries p es s) = Inr () \<longleftrightarrow> (\<forall>e\<in>set es. known_class p e)"
proof (induction p es s rule: register_entries.induct)
  case (2 p entry rest s)
  show ?case
  proof (cases "class_policy p (sm_service_class (en_scheduling entry))")
    case Inl
    then show ?thesis using class_policy_known [of p entry] by auto
  next
    case (Inr c)
    then show ?thesis using 2 [OF Inr] class_policy_known [of p entry] by auto
  qed
qed simp

lemma register_entries_frame:
  "fs_consecutive_emergency (snd (register_entries p es s)) = fs_consecutive_emergency s \<and>
   fs_workflow_service (snd (register_entries p es s)) = fs_workflow_service s \<and>
   fs_agent_service (snd (register_entries p es s)) = fs_agent_service s \<and>
   fs_request_service (snd (register_entries p es s)) = fs_request_service s"
  by (induction p es s rule: register_entries.induct)
     (auto simp: register_entry_def Let_def split: sum.splits)

lemma selection_key_counter [simp]:
  "selection_key p (s\<lparr>fs_consecutive_emergency := n\<rparr>) t = selection_key p s t"
  by (simp add: selection_key_def workflow_debt_def agent_debt_def request_debt_def fun_eq_iff)

lemma lane_set:
  "set (lane p n es) =
     {e \<in> set es. is_emergency p e \<longleftrightarrow>
        (\<exists>f\<in>set es. is_emergency p f) \<and> ((\<forall>f\<in>set es. is_emergency p f) \<or> n < rp_emergency_burst_cap p)}"
  by (auto simp: lane_def Let_def filter_empty_conv)

lemma lane_nonempty: "es \<noteq> [] \<Longrightarrow> lane p n es \<noteq> []"
  by (auto simp: lane_def Let_def)


lemma select_Some:
  assumes "select p es now s = (Inr (Some e), s')"
  obtains t s1 where "finite_val now = Some t" "0 \<le> t" "register_entries p es s = (Inr (), s1)"
    "min_by (selection_key p s1 t) (lane p (fs_consecutive_emergency s) es) = Some e"
    "s' = s1\<lparr>fs_consecutive_emergency := (if is_emergency p e then fs_consecutive_emergency s + 1 else 0)\<rparr>"
proof -
  obtain r s1 where reg: "register_entries p es s = (r, s1)" by fastforce
  have "fs_consecutive_emergency s1 = fs_consecutive_emergency s"
    using register_entries_frame [of p es s] reg by simp
  with assms reg show ?thesis
    by (auto simp: select_def split: option.splits if_splits sum.splits intro: that)
qed

text \<open>
  C24: A selection over known service classes always succeeds. The chosen entry is a candidate; it
  is an emergency entry exactly when some candidate is one and either no normal work waits or the
  emergency burst is below its cap; and no candidate of the same lane has a smaller key of
  effective priority, workflow, agent and request debt, deadline and order.
\<close>

theorem select_optimal:
  assumes "finite_val now = Some t" and "0 \<le> t" and "es \<noteq> []" and "\<forall>e\<in>set es. known_class p e"
  shows "\<exists>e s'. select p es now s = (Inr (Some e), s') \<and> e \<in> set es \<and>
    (is_emergency p e \<longleftrightarrow> (\<exists>f\<in>set es. is_emergency p f) \<and>
       ((\<forall>f\<in>set es. is_emergency p f) \<or> fs_consecutive_emergency s < rp_emergency_burst_cap p)) \<and>
    (\<forall>f\<in>set es. is_emergency p f = is_emergency p e \<longrightarrow>
       selection_key p s' t e \<le> selection_key p s' t f)"
proof -
  let ?lane = "lane p (fs_consecutive_emergency s) es"
  obtain s1 where reg: "register_entries p es s = (Inr (), s1)"
    using register_entries_Inr [of p es s] assms(4) by (cases "register_entries p es s") auto
  have n: "fs_consecutive_emergency s1 = fs_consecutive_emergency s"
    using register_entries_frame [of p es s] reg by simp
  obtain e where e: "min_by (selection_key p s1 t) ?lane = Some e"
    using min_by_nonempty lane_nonempty [OF assms(3)] by blast
  then have "select p es now s = (Inr (Some e),
      s1\<lparr>fs_consecutive_emergency := (if is_emergency p e then fs_consecutive_emergency s1 + 1 else 0)\<rparr>)"
    using assms reg n by (simp add: select_def)
  then show ?thesis
    using min_by_mem [OF e] min_by_least [OF e] by (auto simp: lane_set)
qed

definition demo_class :: "string \<Rightarrow> int \<Rightarrow> bool \<Rightarrow> ServiceClassPolicy" where
  "demo_class n p e = \<lparr>scp_name = n, scp_priority = p, scp_emergency = e\<rparr>"

definition demo_policy :: RuntimeSchedulingPolicy where
  "demo_policy = \<lparr>rp_service_classes = [demo_class ''emergency'' 16 True, demo_class ''batch'' (-2) False],
     rp_aging_interval_seconds = 1, rp_deadline_urgency_window_seconds = 2,
     rp_deadline_priority_boost = 8, rp_emergency_burst_cap = 2\<rparr>"

definition demo_metadata :: "string \<Rightarrow> string \<Rightarrow> string \<Rightarrow> SchedulingMetadata" where
  "demo_metadata r w c = \<lparr>sm_request_id = r, sm_workflow_id = w, sm_agent_id = ''a'', sm_service_class = c,
     sm_weight = 1, sm_deadline_monotonic = None, sm_cache_scope = None, sm_session_cache = None\<rparr>"

definition demo_entry :: "string \<Rightarrow> string \<Rightarrow> string \<Rightarrow> int \<Rightarrow> schedulable" where
  "demo_entry r w c n = \<lparr>en_scheduling = demo_metadata r w c, en_admitted_at = of_int n, en_order = n\<rparr>"

lemmas demo_defs = demo_class_def demo_policy_def demo_metadata_def demo_entry_def

theorem select_optimal_witness:
  "\<exists>e s'. select demo_policy [demo_entry ''r1'' ''w'' ''batch'' 1, demo_entry ''r2'' ''w'' ''emergency'' 2]
     (PInt 3) mk_selector = (Inr (Some e), s') \<and> is_emergency demo_policy e"
proof -
  let ?es = "[demo_entry ''r1'' ''w'' ''batch'' 1, demo_entry ''r2'' ''w'' ''emergency'' 2]"
  have "\<exists>f\<in>set ?es. is_emergency demo_policy f"
    by (simp add: demo_defs is_emergency_def class_policy_def)
  then show ?thesis
    using select_optimal [of "PInt 3" 3 ?es demo_policy mk_selector]
    by (auto simp: demo_defs known_class_def mk_selector_def)
qed

section \<open>The emergency lane is bounded\<close>

text \<open>
  A service trace: selections while normal work is waiting, with charges, forgotten scopes and
  rejected calls in between.
\<close>

inductive serves ::
  "RuntimeSchedulingPolicy \<Rightarrow> selector \<Rightarrow> 'a schedulable_scheme list \<Rightarrow> selector \<Rightarrow> bool"
  for p :: RuntimeSchedulingPolicy and s0 :: selector where
  serves_start: "serves p s0 [] s0"
| serves_select: "serves p s0 xs s \<Longrightarrow> f \<in> set es \<Longrightarrow> \<not> is_emergency p f \<Longrightarrow>
    select p es now s = (Inr (Some e), s') \<Longrightarrow> serves p s0 (xs @ [e]) s'"
| serves_charge: "serves p s0 xs s \<Longrightarrow> charge m n s = (r, s') \<Longrightarrow> serves p s0 xs s'"
| serves_forget: "serves p s0 xs s \<Longrightarrow> serves p s0 xs (forget m da dw s)"

lemma select_counter:
  assumes "select p es now s = (Inr (Some e), s')"
  shows "fs_consecutive_emergency s' = (if is_emergency p e then fs_consecutive_emergency s + 1 else 0)"
    and "e \<in> set (lane p (fs_consecutive_emergency s) es)"
  using assms by (auto elim!: select_Some dest: min_by_mem)

lemma charge_counter: "charge m n s = (r, s') \<Longrightarrow> fs_consecutive_emergency s' = fs_consecutive_emergency s"
  by (auto simp: charge_def split: option.splits)

lemma forget_counter: "fs_consecutive_emergency (forget m da dw s) = fs_consecutive_emergency s"
  by (simp add: forget_def Let_def)

definition bounded_bursts :: "RuntimeSchedulingPolicy \<Rightarrow> 'a schedulable_scheme list \<Rightarrow> bool" where
  "bounded_bursts p xs \<longleftrightarrow>
     (\<forall>as bs cs. xs = as @ bs @ cs \<longrightarrow> list_all (is_emergency p) bs \<longrightarrow> int (length bs) \<le> rp_emergency_burst_cap p)"

definition tail_counted :: "RuntimeSchedulingPolicy \<Rightarrow> 'a schedulable_scheme list \<Rightarrow> int \<Rightarrow> bool" where
  "tail_counted p xs n \<longleftrightarrow>
     0 \<le> n \<and> (\<forall>as bs. xs = as @ bs \<longrightarrow> list_all (is_emergency p) bs \<longrightarrow> int (length bs) \<le> n)"

lemma tail_counted_snoc:
  assumes "tail_counted p xs n"
  shows "tail_counted p (xs @ [e]) (if is_emergency p e then n + 1 else 0)"
  unfolding tail_counted_def
proof (intro conjI allI impI)
  show "0 \<le> (if is_emergency p e then n + 1 else 0)" using assms by (simp add: tail_counted_def)
  fix as bs assume split: "xs @ [e] = as @ bs" and all: "list_all (is_emergency p) bs"
  show "int (length bs) \<le> (if is_emergency p e then n + 1 else 0)"
  proof (cases bs rule: rev_cases)
    case Nil
    then show ?thesis using assms by (simp add: tail_counted_def)
  next
    case (snoc bs' b)
    then show ?thesis using split all assms by (auto simp: tail_counted_def)
  qed
qed

lemma bounded_bursts_snoc:
  assumes "bounded_bursts p xs" and "tail_counted p xs n"
    and "is_emergency p e \<longrightarrow> n < rp_emergency_burst_cap p" and "0 \<le> rp_emergency_burst_cap p"
  shows "bounded_bursts p (xs @ [e])"
  unfolding bounded_bursts_def
proof (intro allI impI)
  fix as bs cs assume split: "xs @ [e] = as @ bs @ cs" and all: "list_all (is_emergency p) bs"
  show "int (length bs) \<le> rp_emergency_burst_cap p"
  proof (cases cs rule: rev_cases)
    case snoc
    then have "xs = as @ bs @ butlast cs" using split by (simp add: butlast_append)
    then show ?thesis using assms(1) all unfolding bounded_bursts_def by blast
  next
    case Nil
    then show ?thesis
    proof (cases bs rule: rev_cases)
      case (snoc bs' b)
      then have "xs = as @ bs'" "b = e" using split Nil by simp_all
      then show ?thesis using assms(2,3) all snoc by (force simp: tail_counted_def)
    qed (use assms(4) in simp)
  qed
qed

lemma serves_invariant:
  assumes "serves p s0 xs s" and "0 \<le> fs_consecutive_emergency s0" and "0 \<le> rp_emergency_burst_cap p"
  shows "bounded_bursts p xs \<and> tail_counted p xs (fs_consecutive_emergency s)"
  using assms
proof (induction rule: serves.induct)
  case serves_start
  then show ?case by (simp add: bounded_bursts_def tail_counted_def)
next
  case (serves_select xs s f es now e s')
  note inv = serves_select.IH [OF serves_select.prems]
  have "is_emergency p e \<longrightarrow> fs_consecutive_emergency s < rp_emergency_burst_cap p"
    using select_counter(2) [OF serves_select.hyps(4)] serves_select.hyps(2,3) by (auto simp: lane_set)
  then have "bounded_bursts p (xs @ [e])"
    using inv serves_select.prems(2) by (intro bounded_bursts_snoc) auto
  moreover have "tail_counted p (xs @ [e]) (fs_consecutive_emergency s')"
    unfolding select_counter(1) [OF serves_select.hyps(4)] using inv by (intro tail_counted_snoc) simp
  ultimately show ?case by simp
next
  case (serves_charge xs s m n r s')
  then show ?case by (simp add: charge_counter)
next
  case (serves_forget xs s m da dw)
  then show ?case by (simp add: forget_counter)
qed

text \<open>
  C35: Emergency traffic cannot starve normal work: while normal work is waiting, any run of more
  consecutive selections than the burst cap contains a normal one, whatever is charged or
  forgotten in between.
\<close>

theorem emergency_burst_bounded:
  assumes "serves p s0 (as @ bs @ cs) s" and "0 \<le> fs_consecutive_emergency s0"
    and "0 < rp_emergency_burst_cap p" and "rp_emergency_burst_cap p < int (length bs)"
  shows "\<exists>e\<in>set bs. \<not> is_emergency p e"
proof (rule ccontr)
  assume "\<not> ?thesis"
  then have "list_all (is_emergency p) bs" by (simp add: list_all_iff)
  moreover have "bounded_bursts p (as @ bs @ cs)" using serves_invariant [OF assms(1,2)] assms(3) by simp
  ultimately have "int (length bs) \<le> rp_emergency_burst_cap p" unfolding bounded_bursts_def by blast
  with assms(4) show False by simp
qed

definition demo_queue :: "schedulable list" where
  "demo_queue = [demo_entry ''r1'' ''w'' ''batch'' 1, demo_entry ''r2'' ''w'' ''emergency'' 2]"

definition demo_after :: "nat \<Rightarrow> selector" where
  "demo_after n = ((\<lambda>s. snd (select demo_policy demo_queue (PInt 3) s)) ^^ n) mk_selector"

lemma demo_select:
  "select demo_policy demo_queue (PInt 3) s =
     (Inr (Some (demo_queue ! (if fs_consecutive_emergency s < 2 then 1 else 0))),
      snd (select demo_policy demo_queue (PInt 3) s))"
  by (simp add: select_def demo_queue_def demo_defs class_policy_def register_entry_def lane_def
      is_emergency_def Let_def)

lemma demo_counter:
  "fs_consecutive_emergency (snd (select demo_policy demo_queue (PInt 3) s)) =
     (if fs_consecutive_emergency s < 2 then fs_consecutive_emergency s + 1 else 0)"
  by (simp add: select_def demo_queue_def demo_defs class_policy_def register_entry_def lane_def
      is_emergency_def Let_def)

lemma demo_serves:
  "serves demo_policy mk_selector [demo_queue ! 1, demo_queue ! 1, demo_queue ! 0] (demo_after 3)"
proof -
  have normal: "demo_queue ! 0 \<in> set demo_queue" "\<not> is_emergency demo_policy (demo_queue ! 0)"
    by (simp_all add: demo_queue_def demo_defs is_emergency_def class_policy_def)
  have counts: "fs_consecutive_emergency (demo_after 0) = 0"
    "fs_consecutive_emergency (demo_after 1) = 1" "fs_consecutive_emergency (demo_after 2) = 2"
    by (simp_all add: demo_after_def mk_selector_def demo_counter numeral_2_eq_2)
  have step: "select demo_policy demo_queue (PInt 3) (demo_after n) =
      (Inr (Some (demo_queue ! (if fs_consecutive_emergency (demo_after n) < 2 then 1 else 0))),
       demo_after (Suc n))" for n
    using demo_select [of "demo_after n"] by (simp add: demo_after_def)
  have "serves demo_policy mk_selector [] (demo_after 0)"
    using serves_start [of demo_policy mk_selector] by (simp add: demo_after_def)
  from serves_select [OF this normal step] counts
  have "serves demo_policy mk_selector [demo_queue ! 1] (demo_after 1)" by simp
  from serves_select [OF this normal step] counts
  have "serves demo_policy mk_selector [demo_queue ! 1, demo_queue ! 1] (demo_after 2)"
    by (simp add: numeral_2_eq_2)
  from serves_select [OF this normal step] counts
  show ?thesis by (simp add: numeral_3_eq_3 numeral_2_eq_2)
qed

theorem emergency_burst_bounded_witness:
  "\<exists>e\<in>set [demo_queue ! 1, demo_queue ! 1, demo_queue ! 0]. \<not> is_emergency demo_policy e"
proof -
  have "serves demo_policy mk_selector ([] @ [demo_queue ! 1, demo_queue ! 1, demo_queue ! 0] @ []) (demo_after 3)"
    using demo_serves by simp
  then show ?thesis
    by (rule emergency_burst_bounded) (simp_all add: mk_selector_def demo_policy_def)
qed

section \<open>Aging bounds overtaking\<close>

lemma aging_gap:
  fixes e :: "'a schedulable_scheme" and f :: "'b schedulable_scheme"
  assumes I: "0 < rp_aging_interval_seconds p"
    and gap: "en_admitted_at e + (of_int k + 1) * rp_aging_interval_seconds p \<le> en_admitted_at f"
    and now: "en_admitted_at f \<le> now"
  shows "aging_steps p f now + k + 1 \<le> aging_steps p e now"
proof -
  let ?I = "rp_aging_interval_seconds p"
  have "(now - en_admitted_at f) + (of_int k + 1) * ?I \<le> now - en_admitted_at e"
    using gap by (simp add: algebra_simps)
  also have "\<dots> \<le> max 0 (now - en_admitted_at e)" by simp
  finally have "((now - en_admitted_at f) + (of_int k + 1) * ?I) / ?I \<le> max 0 (now - en_admitted_at e) / ?I"
    using I by (intro divide_right_mono) auto
  then have "(now - en_admitted_at f) / ?I + of_int (k + 1) \<le> max 0 (now - en_admitted_at e) / ?I"
    using I by (simp add: add_divide_distrib)
  then have "\<lfloor>(now - en_admitted_at f) / ?I + of_int (k + 1)\<rfloor> \<le> \<lfloor>max 0 (now - en_admitted_at e) / ?I\<rfloor>"
    by (rule floor_mono)
  then show ?thesis using now by (simp add: aging_steps_def)
qed

lemma deadline_boost_bounds:
  "0 \<le> rp_deadline_priority_boost p \<Longrightarrow>
     0 \<le> deadline_boost p e now \<and> deadline_boost p e now \<le> rp_deadline_priority_boost p"
  by (simp add: deadline_boost_def split: option.splits)

lemma select_priority:
  assumes "select p es now s = (Inr (Some f), s')" and "finite_val now = Some t"
    and "e \<in> set es" and "is_emergency p e = is_emergency p f"
  shows "effective_priority p e t \<le> effective_priority p f t"
proof -
  obtain s1 where m: "min_by (selection_key p s1 t) (lane p (fs_consecutive_emergency s) es) = Some f"
    using assms(1,2) by (auto elim!: select_Some)
  have "e \<in> set (lane p (fs_consecutive_emergency s) es)"
    using min_by_mem [OF m] assms(3,4) by (simp add: lane_set)
  from min_by_least [OF m this] show ?thesis
    by (auto simp: selection_key_def Let_def less_eq_prod_def)
qed

text \<open>
  C36: Overtaking is bounded by aging: an entry is never selected before another waiting entry of
  its lane if it was admitted later by the difference of the class priorities plus the deadline
  boost plus one, in aging intervals.
\<close>

theorem aging_bounds_overtaking:
  assumes "policy_wf p" and "select p es now s = (Inr (Some f), s')" and "finite_val now = Some t"
    and "en_admitted_at f \<le> t" and "e \<in> set es" and "is_emergency p e = is_emergency p f"
  shows "en_admitted_at f < en_admitted_at e +
    (of_int (class_priority p f - class_priority p e + rp_deadline_priority_boost p) + 1) *
      rp_aging_interval_seconds p"
proof (rule ccontr)
  assume "\<not> ?thesis"
  then have "aging_steps p f t + (class_priority p f - class_priority p e + rp_deadline_priority_boost p) + 1
      \<le> aging_steps p e t"
    using assms(1,4) by (intro aging_gap) (auto simp: policy_wf_def)
  moreover have "0 \<le> deadline_boost p e t" "deadline_boost p f t \<le> rp_deadline_priority_boost p"
    using deadline_boost_bounds assms(1) by (auto simp: policy_wf_def)
  ultimately have "effective_priority p f t < effective_priority p e t"
    by (simp add: effective_priority_def)
  then show False using select_priority [OF assms(2,3,5,6)] by simp
qed

theorem aging_bounds_overtaking_witness:
  "en_admitted_at (demo_queue ! 1) < en_admitted_at (demo_entry ''r0'' ''v'' ''emergency'' 2) +
     (of_int (class_priority demo_policy (demo_queue ! 1) -
        class_priority demo_policy (demo_entry ''r0'' ''v'' ''emergency'' 2) + 8) + 1) * 1"
proof -
  let ?es = "[demo_entry ''r0'' ''v'' ''emergency'' 2, demo_queue ! 1]"
  let ?s = "mk_selector\<lparr>fs_workflow_service := [(''v'', 3)], fs_request_service := [(''r0'', 3)]\<rparr>"
  have "\<exists>s'. select demo_policy ?es (PInt 2) ?s = (Inr (Some (demo_queue ! 1)), s')"
    by (simp add: select_def demo_queue_def demo_defs class_policy_def register_entry_def lane_def
      is_emergency_def Let_def mk_selector_def selection_key_def workflow_debt_def get_default_def
      effective_priority_def aging_steps_def deadline_boost_def class_priority_def less_eq_prod_def)
  then obtain s' where sel: "select demo_policy ?es (PInt 2) ?s = (Inr (Some (demo_queue ! 1)), s')" ..
  show ?thesis
    using aging_bounds_overtaking [OF _ sel, of 2 "demo_entry ''r0'' ''v'' ''emergency'' 2"]
    by (simp add: policy_wf_def demo_queue_def demo_defs is_emergency_def class_policy_def)
qed

section \<open>Weighted fairness between workflows\<close>

text \<open>
  One round of service: among entries of equal effective priority the selector picks one and its
  service is charged with at most \<open>q\<close> tokens. \<open>ws\<close> is the set of workflows with work in every
  round; their registered weights cover the weights of their entries.
\<close>

definition normalized_service :: "selector \<Rightarrow> string \<Rightarrow> rat" where
  "normalized_service s w =
     of_int (get_default (fs_workflow_service s) w 0) / of_int (get_default (fs_workflow_weight s) w 1)"

definition registered :: "selector \<Rightarrow> 'a schedulable_scheme \<Rightarrow> bool" where
  "registered s e \<longleftrightarrow>
     (case dict_get (fs_workflow_weight s) (sm_workflow_id (en_scheduling e)) of
        None \<Rightarrow> False | Some w \<Rightarrow> 1 \<le> w \<and> sm_weight (en_scheduling e) \<le> w)"

definition equal_rank :: "RuntimeSchedulingPolicy \<Rightarrow> rat \<Rightarrow> 'a schedulable_scheme list \<Rightarrow> bool" where
  "equal_rank p t es \<longleftrightarrow> (\<forall>e\<in>set es. \<forall>f\<in>set es.
     is_emergency p e = is_emergency p f \<and> effective_priority p e t = effective_priority p f t)"

inductive fair_round :: "RuntimeSchedulingPolicy \<Rightarrow> int \<Rightarrow> string set \<Rightarrow> selector \<Rightarrow> selector \<Rightarrow> bool"
  for p :: RuntimeSchedulingPolicy and q :: int and ws :: "string set" where
  fair_round:
  "(\<lambda>e. sm_workflow_id (en_scheduling e)) ` set (es :: schedulable list) = ws \<Longrightarrow>
   list_all (registered s) es \<Longrightarrow> finite_val now = Some t \<Longrightarrow> equal_rank p t es \<Longrightarrow>
   select p es now s = (Inr (Some e), s1) \<Longrightarrow> n \<le> q \<Longrightarrow>
   charge (en_scheduling e) (PInt n) s1 = (Inr (), s2) \<Longrightarrow> fair_round p q ws s s2"

definition fair_gap :: "int \<Rightarrow> string set \<Rightarrow> selector \<Rightarrow> bool" where
  "fair_gap q ws s \<longleftrightarrow>
     (\<forall>w\<in>ws. 1 \<le> get_default (fs_workflow_weight s) w 1) \<and>
     (\<forall>v\<in>ws. \<forall>w\<in>ws. normalized_service s v \<le>
        normalized_service s w + of_int q / of_int (get_default (fs_workflow_weight s) v 1))"

definition fair_start :: "int \<Rightarrow> string set \<Rightarrow> selector \<Rightarrow> bool" where
  "fair_start q ws s \<longleftrightarrow> 0 \<le> q \<and>
     (\<forall>w\<in>ws. get_default (fs_workflow_service s) w 0 = 0 \<and> 1 \<le> get_default (fs_workflow_weight s) w 1)"

lemma get_default_set [simp]:
  "get_default (dict_set k v d) k' x = (if k' = k then v else get_default d k' x)"
  by (simp add: get_default_def)

lemma get_default_counter [simp]:
  "get_default (counter_add k n d) k' 0 = (if k' = k then get_default d k 0 + n else get_default d k' 0)"
  by (simp add: counter_add_def)

lemma register_entry_registered:
  assumes "registered s e"
  shows "dict_get (fs_workflow_weight (register_entry (en_scheduling e) s)) = dict_get (fs_workflow_weight s)"
  using assms
  by (auto simp: registered_def register_entry_def Let_def get_default_def fun_eq_iff split: option.splits)

lemma register_entries_registered:
  "list_all (registered s) es \<Longrightarrow>
     dict_get (fs_workflow_weight (snd (register_entries p es s))) = dict_get (fs_workflow_weight s)"
proof (induction p es s rule: register_entries.induct)
  case (2 p entry rest s)
  then have keep: "dict_get (fs_workflow_weight (register_entry (en_scheduling entry) s)) =
      dict_get (fs_workflow_weight s)" by (simp add: register_entry_registered)
  then have "list_all (registered (register_entry (en_scheduling entry) s)) rest"
    using 2(2) by (simp add: registered_def list_all_iff)
  with 2(1) keep show ?case by (simp split: sum.splits)
qed simp

lemma fair_select_least:
  assumes "list_all (registered s) es" and "equal_rank p t es" and "finite_val now = Some t"
    and "select p es now s = (Inr (Some e), s1)"
  shows "f \<in> set es \<Longrightarrow> normalized_service s1 (sm_workflow_id (en_scheduling e)) \<le>
           normalized_service s1 (sm_workflow_id (en_scheduling f))"
    and "e \<in> set es"
    and "normalized_service s1 = normalized_service s"
    and "get_default (fs_workflow_weight s1) = get_default (fs_workflow_weight s)"
proof -
  obtain s0 where reg: "register_entries p es s = (Inr (), s0)"
    and m: "min_by (selection_key p s0 t) (lane p (fs_consecutive_emergency s) es) = Some e"
    and s1: "s1 = s0\<lparr>fs_consecutive_emergency := (if is_emergency p e then fs_consecutive_emergency s + 1 else 0)\<rparr>"
    using assms(3,4) by (auto elim!: select_Some)
  have weights: "dict_get (fs_workflow_weight s0) = dict_get (fs_workflow_weight s)"
    using register_entries_registered [OF assms(1), of p] reg by simp
  show mem: "e \<in> set es" using min_by_mem [OF m] by (simp add: lane_set)
  show "get_default (fs_workflow_weight s1) = get_default (fs_workflow_weight s)"
    using weights by (simp add: s1 get_default_def fun_eq_iff)
  then show "normalized_service s1 = normalized_service s"
    using register_entries_frame [of p es s] reg by (simp add: s1 normalized_service_def fun_eq_iff)
  have debt: "workflow_debt s0 (en_scheduling g) = normalized_service s1 (sm_workflow_id (en_scheduling g))"
    if "g \<in> set es" for g
    using assms(1) that weights
    by (auto simp: list_all_iff registered_def workflow_debt_def normalized_service_def get_default_def s1
        split: option.splits)
  show "normalized_service s1 (sm_workflow_id (en_scheduling e)) \<le>
      normalized_service s1 (sm_workflow_id (en_scheduling f))" if f: "f \<in> set es"
  proof -
    have rank: "is_emergency p f = is_emergency p e" "effective_priority p f t = effective_priority p e t"
      using assms(2) f mem unfolding equal_rank_def by blast+
    then have "f \<in> set (lane p (fs_consecutive_emergency s) es)"
      using min_by_mem [OF m] f by (simp add: lane_set)
    from min_by_least [OF m this] rank
    have "workflow_debt s0 (en_scheduling e) \<le> workflow_debt s0 (en_scheduling f)"
      by (auto simp: selection_key_def Let_def less_eq_prod_def)
    then show ?thesis by (simp add: debt mem f)
  qed
qed

lemma charge_normalized:
  assumes "charge m (PInt n) s = (Inr (), s2)"
  shows "0 < n" and "fs_workflow_weight s2 = fs_workflow_weight s"
    and "normalized_service s2 w = normalized_service s w +
      (if w = sm_workflow_id m then of_int n / of_int (get_default (fs_workflow_weight s) w 1) else 0)"
  using assms
  by (auto simp: charge_def normalized_service_def add_divide_distrib positive_int_val_def
      split: if_splits option.splits)

lemma fair_round_gap:
  assumes "fair_gap q ws s" and "fair_round p q ws s s2"
  shows "fair_gap q ws s2"
  using assms(2)
proof cases
  case (fair_round es now t e s1 n)
  let ?wf = "\<lambda>e :: schedulable. sm_workflow_id (en_scheduling e)"
  let ?weight = "\<lambda>w. get_default (fs_workflow_weight s) w 1"
  note least = fair_select_least [OF fair_round(2,4,3,5)]
  note charged = charge_normalized [OF fair_round(7), unfolded least(4)]
  have w2: "get_default (fs_workflow_weight s2) w 1 = ?weight w" for w by (simp add: charged(2) least(4))
  have weight: "1 \<le> ?weight w" if "w \<in> ws" for w using assms(1) that by (simp add: fair_gap_def)
  show ?thesis unfolding fair_gap_def w2
  proof (intro conjI ballI)
    fix v w assume v: "v \<in> ws" and w: "w \<in> ws"
    have up: "normalized_service s w \<le> normalized_service s2 w"
      using charged(1) weight [OF w] by (auto simp: charged(3) least(3) intro!: divide_nonneg_nonneg)
    show "normalized_service s2 v \<le> normalized_service s2 w + of_int q / of_int (?weight v)"
    proof (cases "v = ?wf e")
      case True
      obtain f where f: "f \<in> set es" "?wf f = w" using w fair_round(1) by auto
      have "of_int n / of_int (?weight v) \<le> (of_int q / of_int (?weight v) :: rat)"
        using fair_round(6) weight [OF v] by (intro divide_right_mono) auto
      moreover have "normalized_service s v \<le> normalized_service s w"
        using least(1) [OF f(1)] True f(2) by (simp add: least(3))
      ultimately show ?thesis using up True by (simp add: charged(3) least(3))
    next
      case False
      have "normalized_service s v \<le> normalized_service s w + of_int q / of_int (?weight v)"
        using assms(1) v w by (simp add: fair_gap_def)
      with up False show ?thesis by (simp add: charged(3) least(3))
    qed
  qed (rule weight)
qed

interpretation fair_service: invariant_system "fair_start q ws" "fair_round p q ws" "fair_gap q ws"
  for p :: RuntimeSchedulingPolicy and q :: int and ws :: "string set"
proof
  show "fair_start q ws s \<Longrightarrow> fair_gap q ws s" for s
    by (auto simp: fair_start_def fair_gap_def normalized_service_def)
  show "fair_gap q ws s \<Longrightarrow> fair_round p q ws s t \<Longrightarrow> fair_gap q ws t" for s t
    by (rule fair_round_gap)
qed

text \<open>
  Weighted fairness: however many rounds are served, and however tokens are charged within the
  per-round bound, the weight-normalized service of a workflow with waiting work exceeds that of
  any other such workflow by at most one round's charge divided by its own weight.
\<close>

theorem workflow_service_gap:
  assumes "reach (fair_start q ws) (fair_round p q ws) s" and "v \<in> ws" and "w \<in> ws"
  shows "normalized_service s v \<le>
    normalized_service s w + of_int q / of_int (get_default (fs_workflow_weight s) v 1)"
  using fair_service.inv_reach [OF assms(1)] assms(2,3) by (simp add: fair_gap_def)

definition demo_rivals :: "schedulable list" where
  "demo_rivals = [demo_entry ''r1'' ''v'' ''batch'' 1, demo_entry ''r2'' ''w'' ''batch'' 1]"

definition demo_selector :: selector where
  "demo_selector = mk_selector\<lparr>fs_workflow_weight := [(''v'', 1), (''w'', 1)]\<rparr>"

definition demo_charged :: selector where
  "demo_charged = snd (charge (en_scheduling (demo_rivals ! 0)) (PInt 3)
     (snd (select demo_policy demo_rivals (PInt 1) demo_selector)))"

lemma demo_rank: "equal_rank demo_policy 1 demo_rivals"
  by (simp add: equal_rank_def demo_rivals_def demo_defs is_emergency_def effective_priority_def
      class_priority_def aging_steps_def deadline_boost_def class_policy_def)

lemma demo_rivals_select:
  "fst (select demo_policy demo_rivals (PInt 1) demo_selector) = Inr (Some (demo_rivals ! 0))"
  by (simp add: select_def demo_selector_def mk_selector_def demo_rivals_def demo_defs class_policy_def
      register_entry_def lane_def is_emergency_def Let_def selection_key_def effective_priority_def
      class_priority_def aging_steps_def deadline_boost_def workflow_debt_def agent_debt_def
      request_debt_def get_default_def etime_of_def less_eq_prod_def)

theorem workflow_service_gap_witness:
  "normalized_service demo_charged ''v'' \<le> normalized_service demo_charged ''w'' +
     of_int 4 / of_int (get_default (fs_workflow_weight demo_charged) ''v'' 1)"
proof -
  let ?s1 = "snd (select demo_policy demo_rivals (PInt 1) demo_selector)"
  have start: "fair_start 4 {''v'', ''w''} demo_selector"
    by (simp add: fair_start_def demo_selector_def mk_selector_def get_default_def)
  have sel: "select demo_policy demo_rivals (PInt 1) demo_selector = (Inr (Some (demo_rivals ! 0)), ?s1)"
    using demo_rivals_select by (metis prod.collapse)
  have chg: "charge (en_scheduling (demo_rivals ! 0)) (PInt 3) ?s1 = (Inr (), demo_charged)"
    by (simp add: demo_charged_def charge_def positive_int_val_def)
  have "fair_round demo_policy 4 {''v'', ''w''} demo_selector demo_charged"
    by (rule fair_round.intros [OF _ _ _ demo_rank sel _ chg])
       (auto simp: demo_rivals_def demo_defs registered_def demo_selector_def)
  then show ?thesis
    by (intro workflow_service_gap [of 4 "{''v'', ''w''}" demo_policy] reach.intros(2) [OF reach.intros(1) [of "fair_start 4 {''v'', ''w''}", OF start]]) auto
qed

end
