(* ===== verification/Admission.thy ===== *)
theory Admission
  imports Governance
begin

text \<open>
  \<open>ResourceAdmissionController\<close> of \<open>inference_runtime/governance.py\<close>: the pending queue and the
  KV reservation ledger. The controller's lock makes each operation one step; the state is the
  insertion-ordered dict of reservations, and the limits and the policy are constants.
\<close>

section \<open>Limits\<close>

record 'i admission_limits =
  al_max_pending :: 'i
  al_max_sequences :: 'i
  al_kv_token_budget :: 'i
  al_max_pending_per_workflow :: 'i
  al_max_pending_per_agent :: 'i
  al_max_sequences_per_workflow :: 'i
  al_max_sequences_per_agent :: 'i
  al_max_kv_tokens_per_workflow :: 'i
  al_max_kv_tokens_per_agent :: 'i
  al_load_shed_pending_threshold :: 'i
  al_load_shed_min_priority :: 'i

type_synonym limits_args = "pyval admission_limits"
type_synonym AdmissionLimits = "int admission_limits"

definition limit_field :: "pyval \<Rightarrow> string \<Rightarrow> governance_error + int" where
  "limit_field v name =
     (case positive_int_val v of
        Some i \<Rightarrow> Inr i
      | None \<Rightarrow> Inl (Raised (ValueError (name @ '' must be a positive integer''))))"

definition limit_check :: "bool \<Rightarrow> string \<Rightarrow> governance_error + unit" where
  "limit_check ok message = ensure ok (Raised (ValueError message))"

definition mk_AdmissionLimits :: "limits_args \<Rightarrow> governance_error + AdmissionLimits" where
  "mk_AdmissionLimits a =
     rbind (limit_field (al_max_pending a) ''max_pending'') (\<lambda>max_pending.
     rbind (limit_field (al_max_sequences a) ''max_sequences'') (\<lambda>max_sequences.
     rbind (limit_field (al_kv_token_budget a) ''kv_token_budget'') (\<lambda>kv.
     rbind (limit_field (al_max_pending_per_workflow a) ''max_pending_per_workflow'') (\<lambda>pw.
     rbind (limit_field (al_max_pending_per_agent a) ''max_pending_per_agent'') (\<lambda>pa.
     rbind (limit_field (al_max_sequences_per_workflow a) ''max_sequences_per_workflow'') (\<lambda>sw.
     rbind (limit_field (al_max_sequences_per_agent a) ''max_sequences_per_agent'') (\<lambda>sa.
     rbind (limit_field (al_max_kv_tokens_per_workflow a) ''max_kv_tokens_per_workflow'') (\<lambda>kw.
     rbind (limit_field (al_max_kv_tokens_per_agent a) ''max_kv_tokens_per_agent'') (\<lambda>ka.
     rbind (limit_field (al_load_shed_pending_threshold a) ''load_shed_pending_threshold'') (\<lambda>shed.
     rbind (case al_load_shed_min_priority a of
              PInt i \<Rightarrow> Inr i
            | _ \<Rightarrow> Inl (Raised (ValueError ''load_shed_min_priority must be an integer''))) (\<lambda>prio.
     rbind (limit_check (sw \<le> max_sequences) ''workflow sequence quota exceeds global capacity'') (\<lambda>_.
     rbind (limit_check (sa \<le> sw) ''agent sequence quota exceeds workflow quota'') (\<lambda>_.
     rbind (limit_check (kw \<le> kv) ''workflow KV quota exceeds global capacity'') (\<lambda>_.
     rbind (limit_check (ka \<le> kw) ''agent KV quota exceeds workflow quota'') (\<lambda>_.
     rbind (limit_check (shed \<le> max_pending) ''load shed threshold exceeds pending capacity'') (\<lambda>_.
       Inr \<lparr>al_max_pending = max_pending, al_max_sequences = max_sequences, al_kv_token_budget = kv,
            al_max_pending_per_workflow = pw, al_max_pending_per_agent = pa,
            al_max_sequences_per_workflow = sw, al_max_sequences_per_agent = sa,
            al_max_kv_tokens_per_workflow = kw, al_max_kv_tokens_per_agent = ka,
            al_load_shed_pending_threshold = shed, al_load_shed_min_priority = prio\<rparr>))))))))))))))))"

section \<open>The controller\<close>

record Reservation =
  rv_scheduling :: SchedulingMetadata
  rv_estimated_tokens :: int
  rv_reserved_tokens :: "int option"

type_synonym ledger = "(string, Reservation) odict"

definition pending_locked :: "ledger \<Rightarrow> Reservation list" where
  "pending_locked l = filter (\<lambda>r. rv_reserved_tokens r = None) (dict_values l)"

definition active_locked :: "ledger \<Rightarrow> Reservation list" where
  "active_locked l = filter (\<lambda>r. rv_reserved_tokens r \<noteq> None) (dict_values l)"

abbreviation same_workflow :: "SchedulingMetadata \<Rightarrow> Reservation \<Rightarrow> bool" where
  "same_workflow m r \<equiv> sm_workflow_id (rv_scheduling r) = sm_workflow_id m"

abbreviation same_agent :: "SchedulingMetadata \<Rightarrow> Reservation \<Rightarrow> bool" where
  "same_agent m r \<equiv> same_workflow m r \<and> sm_agent_id (rv_scheduling r) = sm_agent_id m"

definition admit ::
  "AdmissionLimits \<Rightarrow> RuntimeSchedulingPolicy \<Rightarrow> SchedulingMetadata \<Rightarrow> pyval \<Rightarrow> ledger \<Rightarrow>
   governance_error + ledger" where
  "admit lims p m estimated_tokens l =
     (case positive_int_val estimated_tokens of
        None \<Rightarrow> Inl (Raised (ValueError ''estimated_tokens must be a positive integer''))
      | Some n \<Rightarrow>
          if al_kv_token_budget lims < n then Inl (AdmissionRejection ''context_overflow'' False)
          else if al_max_kv_tokens_per_workflow lims < n then Inl (AdmissionRejection ''workflow_kv_quota'' False)
          else if al_max_kv_tokens_per_agent lims < n then Inl (AdmissionRejection ''agent_kv_quota'' False)
          else rbind (class_policy p (sm_service_class m)) (\<lambda>c.
            if dict_get l (sm_request_id m) \<noteq> None then Inl (AdmissionRejection ''duplicate_request'' False)
            else let pending = pending_locked l in
              if al_max_pending lims \<le> int (length pending) then Inl (AdmissionRejection ''queue_full'' True)
              else if al_load_shed_pending_threshold lims \<le> int (length pending) \<and>
                      scp_priority c < al_load_shed_min_priority lims \<and> \<not> scp_emergency c
                then Inl (AdmissionRejection ''overloaded'' True)
              else if al_max_pending_per_workflow lims \<le> int (length (filter (same_workflow m) pending))
                then Inl (AdmissionRejection ''workflow_queue_quota'' True)
              else if al_max_pending_per_agent lims \<le> int (length (filter (same_agent m) pending))
                then Inl (AdmissionRejection ''agent_queue_quota'' True)
              else Inr (dict_set (sm_request_id m)
                     \<lparr>rv_scheduling = m, rv_estimated_tokens = n, rv_reserved_tokens = None\<rparr> l)))"

definition reserved_or_zero :: "Reservation \<Rightarrow> int" where
  "reserved_or_zero r = (case rv_reserved_tokens r of None \<Rightarrow> 0 | Some n \<Rightarrow> n)"

definition can_activate :: "AdmissionLimits \<Rightarrow> string \<Rightarrow> ledger \<Rightarrow> bool" where
  "can_activate lims request_id l =
     (case dict_get l request_id of
        None \<Rightarrow> False
      | Some item \<Rightarrow>
          if rv_reserved_tokens item \<noteq> None then False
          else let active = active_locked l in
            if al_max_sequences lims \<le> int (length active) then False
            else let workflow_active = filter (same_workflow (rv_scheduling item)) active;
                     agent_active = filter (\<lambda>r. sm_agent_id (rv_scheduling r) = sm_agent_id (rv_scheduling item))
                                      workflow_active in
              if al_max_sequences_per_workflow lims \<le> int (length workflow_active) then False
              else if al_max_sequences_per_agent lims \<le> int (length agent_active) then False
              else sum_list (map reserved_or_zero active) + rv_estimated_tokens item \<le> al_kv_token_budget lims \<and>
                   sum_list (map reserved_or_zero workflow_active) + rv_estimated_tokens item
                     \<le> al_max_kv_tokens_per_workflow lims \<and>
                   sum_list (map reserved_or_zero agent_active) + rv_estimated_tokens item
                     \<le> al_max_kv_tokens_per_agent lims)"

definition activate :: "string \<Rightarrow> pyval \<Rightarrow> ledger \<Rightarrow> governance_error + ledger" where
  "activate request_id reserved_tokens l =
     (case dict_get l request_id of
        None \<Rightarrow> Inl (AdmissionRejection ''unknown_request'' False)
      | Some item \<Rightarrow>
          if rv_reserved_tokens item \<noteq> None then Inl (AdmissionRejection ''state_conflict'' False)
          else case positive_int_val
                      (if reserved_tokens = PNone then PInt (rv_estimated_tokens item) else reserved_tokens) of
            None \<Rightarrow> Inl (Raised (ValueError ''reserved_tokens must be a positive integer''))
          | Some actual \<Rightarrow>
              if rv_estimated_tokens item < actual
              then Inl (AdmissionRejection ''reservation_underestimated'' False)
              else Inr (dict_set request_id
                     \<lparr>rv_scheduling = rv_scheduling item, rv_estimated_tokens = rv_estimated_tokens item,
                      rv_reserved_tokens = Some actual\<rparr> l))"

definition release_reservation :: "string \<Rightarrow> ledger \<Rightarrow> bool \<times> ledger" where
  "release_reservation request_id l = (dict_get l request_id \<noteq> None, dict_pop request_id l)"

definition count_by :: "('a \<Rightarrow> 'k) \<Rightarrow> 'a list \<Rightarrow> ('k, int) odict" where
  "count_by f xs = fold (\<lambda>x d. counter_add (f x) 1 d) xs []"

record AdmissionSnapshot =
  as_pending_requests :: nat
  as_active_sequences :: nat
  as_reserved_kv_tokens :: int
  as_pending_by_workflow :: "(string \<times> int) list"
  as_active_by_workflow :: "(string \<times> int) list"
  as_active_by_agent :: "((string \<times> string) \<times> int) list"

definition admission_snapshot :: "ledger \<Rightarrow> AdmissionSnapshot" where
  "admission_snapshot l =
     (let pending = pending_locked l; active = active_locked l in
      \<lparr>as_pending_requests = length pending, as_active_sequences = length active,
       as_reserved_kv_tokens = sum_list (map reserved_or_zero active),
       as_pending_by_workflow = sort (count_by (\<lambda>r. sm_workflow_id (rv_scheduling r)) pending),
       as_active_by_workflow = sort (count_by (\<lambda>r. sm_workflow_id (rv_scheduling r)) active),
       as_active_by_agent = sort (count_by (\<lambda>r. agent_of (rv_scheduling r)) active)\<rparr>)"

section \<open>Quotas\<close>

text \<open>Counts and sums over the reservations whose metadata satisfy a predicate.\<close>

definition active_count :: "(SchedulingMetadata \<Rightarrow> bool) \<Rightarrow> ledger \<Rightarrow> int" where
  "active_count P l = int (length (filter (\<lambda>r. P (rv_scheduling r)) (active_locked l)))"

definition active_kv :: "(SchedulingMetadata \<Rightarrow> bool) \<Rightarrow> ledger \<Rightarrow> int" where
  "active_kv P l = sum_list (map reserved_or_zero (filter (\<lambda>r. P (rv_scheduling r)) (active_locked l)))"

definition pending_count :: "(SchedulingMetadata \<Rightarrow> bool) \<Rightarrow> ledger \<Rightarrow> int" where
  "pending_count P l = int (length (filter (\<lambda>r. P (rv_scheduling r)) (pending_locked l)))"

definition quotas_ok :: "AdmissionLimits \<Rightarrow> ledger \<Rightarrow> bool" where
  "quotas_ok lims l \<longleftrightarrow>
     active_count (\<lambda>_. True) l \<le> al_max_sequences lims \<and>
     (\<forall>w. active_count (\<lambda>m. sm_workflow_id m = w) l \<le> al_max_sequences_per_workflow lims) \<and>
     (\<forall>w a. active_count (\<lambda>m. sm_workflow_id m = w \<and> sm_agent_id m = a) l \<le> al_max_sequences_per_agent lims) \<and>
     active_kv (\<lambda>_. True) l \<le> al_kv_token_budget lims \<and>
     (\<forall>w. active_kv (\<lambda>m. sm_workflow_id m = w) l \<le> al_max_kv_tokens_per_workflow lims) \<and>
     (\<forall>w a. active_kv (\<lambda>m. sm_workflow_id m = w \<and> sm_agent_id m = a) l \<le> al_max_kv_tokens_per_agent lims) \<and>
     pending_count (\<lambda>_. True) l \<le> al_max_pending lims \<and>
     (\<forall>w. pending_count (\<lambda>m. sm_workflow_id m = w) l \<le> al_max_pending_per_workflow lims) \<and>
     (\<forall>w a. pending_count (\<lambda>m. sm_workflow_id m = w \<and> sm_agent_id m = a) l \<le> al_max_pending_per_agent lims)"

definition entries_ok :: "ledger \<Rightarrow> bool" where
  "entries_ok l \<longleftrightarrow> distinct (dict_keys l) \<and>
     (\<forall>k r. dict_get l k = Some r \<longrightarrow> sm_request_id (rv_scheduling r) = k \<and> 0 < rv_estimated_tokens r \<and>
        (\<forall>n. rv_reserved_tokens r = Some n \<longrightarrow> 0 < n \<and> n \<le> rv_estimated_tokens r))"

definition estimates_fit :: "AdmissionLimits \<Rightarrow> ledger \<Rightarrow> bool" where
  "estimates_fit lims l \<longleftrightarrow>
     (\<forall>k r. dict_get l k = Some r \<longrightarrow> rv_estimated_tokens r \<le> al_kv_token_budget lims \<and>
        rv_estimated_tokens r \<le> al_max_kv_tokens_per_workflow lims \<and>
        rv_estimated_tokens r \<le> al_max_kv_tokens_per_agent lims)"

definition ledger_ok :: "AdmissionLimits \<Rightarrow> ledger \<Rightarrow> bool" where
  "ledger_ok lims l \<longleftrightarrow> entries_ok l \<and> estimates_fit lims l \<and> quotas_ok lims l"

text \<open>Each tally is a sum of one contribution per reservation, so one update changes it by one term.\<close>

definition count_term :: "bool \<Rightarrow> (SchedulingMetadata \<Rightarrow> bool) \<Rightarrow> Reservation \<Rightarrow> int" where
  "count_term act P r = (if (rv_reserved_tokens r \<noteq> None) = act \<and> P (rv_scheduling r) then 1 else 0)"

definition kv_term :: "(SchedulingMetadata \<Rightarrow> bool) \<Rightarrow> Reservation \<Rightarrow> int" where
  "kv_term P r = (if P (rv_scheduling r) then reserved_or_zero r else 0)"

lemma length_filter_sum: "int (length (filter Q xs)) = sum_list (map (\<lambda>x. if Q x then 1 else 0) xs)"
  by (induction xs) auto

lemma tally_sums:
  "active_count P l = sum_list (map (count_term True P) (dict_values l))"
  "pending_count P l = sum_list (map (count_term False P) (dict_values l))"
  "active_kv P l = sum_list (map (kv_term P) (dict_values l))"
proof -
  show "active_count P l = sum_list (map (count_term True P) (dict_values l))"
    "pending_count P l = sum_list (map (count_term False P) (dict_values l))"
    unfolding active_count_def pending_count_def active_locked_def pending_locked_def count_term_def
      filter_filter length_filter_sum by (auto intro!: arg_cong [where f = sum_list])
  show "active_kv P l = sum_list (map (kv_term P) (dict_values l))"
    unfolding active_kv_def active_locked_def kv_term_def reserved_or_zero_def
    by (induction l) (auto split: option.splits)
qed

lemma tally_new:
  assumes "dict_get l k = None"
  shows "active_count P (dict_set k r l) = active_count P l + count_term True P r"
    and "pending_count P (dict_set k r l) = pending_count P l + count_term False P r"
    and "active_kv P (dict_set k r l) = active_kv P l + kv_term P r"
  unfolding tally_sums using assms by (rule sum_values_set_new)+

lemma tally_old:
  assumes "distinct (dict_keys l)" and "dict_get l k = Some r"
  shows "active_count P (dict_set k r' l) = active_count P l - count_term True P r + count_term True P r'"
    and "pending_count P (dict_set k r' l) = pending_count P l - count_term False P r + count_term False P r'"
    and "active_kv P (dict_set k r' l) = active_kv P l - kv_term P r + kv_term P r'"
  unfolding tally_sums using assms by (rule sum_values_set_old)+

lemma tally_pop:
  assumes "distinct (dict_keys l)" and "dict_get l k = Some r"
  shows "active_count P (dict_pop k l) = active_count P l - count_term True P r"
    and "pending_count P (dict_pop k l) = pending_count P l - count_term False P r"
    and "active_kv P (dict_pop k l) = active_kv P l - kv_term P r"
  unfolding tally_sums using assms by (rule sum_values_pop)+

lemma pop_absent_same: "dict_get l k = None \<Longrightarrow> dict_pop k l = l"
  by (simp add: map_of_eq_None_iff)

text \<open>The guards of the code in terms of the tallies.\<close>

lemma admit_Inr:
  "admit lims p m v l = Inr l' \<longleftrightarrow>
     (\<exists>n c. v = PInt n \<and> 0 < n \<and> n \<le> al_kv_token_budget lims \<and> n \<le> al_max_kv_tokens_per_workflow lims \<and>
        n \<le> al_max_kv_tokens_per_agent lims \<and> class_policy p (sm_service_class m) = Inr c \<and>
        dict_get l (sm_request_id m) = None \<and>
        pending_count (\<lambda>_. True) l < al_max_pending lims \<and>
        (pending_count (\<lambda>_. True) l < al_load_shed_pending_threshold lims \<or>
           al_load_shed_min_priority lims \<le> scp_priority c \<or> scp_emergency c) \<and>
        pending_count (\<lambda>x. sm_workflow_id x = sm_workflow_id m) l < al_max_pending_per_workflow lims \<and>
        pending_count (\<lambda>x. sm_workflow_id x = sm_workflow_id m \<and> sm_agent_id x = sm_agent_id m) l
          < al_max_pending_per_agent lims \<and>
        l' = dict_set (sm_request_id m)
          \<lparr>rv_scheduling = m, rv_estimated_tokens = n, rv_reserved_tokens = None\<rparr> l)"
  by (cases "class_policy p (sm_service_class m)")
     (auto simp: admit_def pending_count_def Let_def split: option.splits if_splits)

lemma can_activate_iff:
  "can_activate lims k l \<longleftrightarrow>
     (\<exists>r. dict_get l k = Some r \<and> rv_reserved_tokens r = None \<and>
        (let w = sm_workflow_id (rv_scheduling r); a = sm_agent_id (rv_scheduling r);
             n = rv_estimated_tokens r in
         active_count (\<lambda>_. True) l < al_max_sequences lims \<and>
         active_count (\<lambda>m. sm_workflow_id m = w) l < al_max_sequences_per_workflow lims \<and>
         active_count (\<lambda>m. sm_workflow_id m = w \<and> sm_agent_id m = a) l < al_max_sequences_per_agent lims \<and>
         active_kv (\<lambda>_. True) l + n \<le> al_kv_token_budget lims \<and>
         active_kv (\<lambda>m. sm_workflow_id m = w) l + n \<le> al_max_kv_tokens_per_workflow lims \<and>
         active_kv (\<lambda>m. sm_workflow_id m = w \<and> sm_agent_id m = a) l + n \<le> al_max_kv_tokens_per_agent lims))"
  by (auto simp: can_activate_def active_count_def active_kv_def Let_def conj_commute split: option.splits if_splits)

lemma activate_Inr:
  "activate k v l = Inr l' \<longleftrightarrow>
     (\<exists>r n. dict_get l k = Some r \<and> rv_reserved_tokens r = None \<and>
        (v = PNone \<and> n = rv_estimated_tokens r \<or> v = PInt n) \<and> 0 < n \<and> n \<le> rv_estimated_tokens r \<and>
        l' = dict_set k \<lparr>rv_scheduling = rv_scheduling r, rv_estimated_tokens = rv_estimated_tokens r,
                rv_reserved_tokens = Some n\<rparr> l)"
  by (auto simp: activate_def split: option.splits if_splits)

section \<open>Every operation keeps the quotas\<close>

lemma le_minus: "0 \<le> d \<Longrightarrow> a \<le> b \<Longrightarrow> a - d \<le> (b :: int)"
  by simp

lemma term_bounds:
  "0 \<le> count_term act P r"
  "(\<forall>n. rv_reserved_tokens r = Some n \<longrightarrow> 0 < n) \<Longrightarrow> 0 \<le> kv_term P r"
  by (auto simp: count_term_def kv_term_def reserved_or_zero_def split: option.splits)

lemma fresh_terms [simp]:
  "count_term True P \<lparr>rv_scheduling = m, rv_estimated_tokens = n, rv_reserved_tokens = None\<rparr> = 0"
  "kv_term P \<lparr>rv_scheduling = m, rv_estimated_tokens = n, rv_reserved_tokens = None\<rparr> = 0"
  "count_term False P \<lparr>rv_scheduling = m, rv_estimated_tokens = n, rv_reserved_tokens = None\<rparr> = (if P m then 1 else 0)"
  "count_term True P \<lparr>rv_scheduling = m, rv_estimated_tokens = n, rv_reserved_tokens = Some k\<rparr> = (if P m then 1 else 0)"
  "kv_term P \<lparr>rv_scheduling = m, rv_estimated_tokens = n, rv_reserved_tokens = Some k\<rparr> = (if P m then k else 0)"
  "count_term False P \<lparr>rv_scheduling = m, rv_estimated_tokens = n, rv_reserved_tokens = Some k\<rparr> = 0"
  by (auto simp: count_term_def kv_term_def reserved_or_zero_def)

lemma pending_terms:
  "rv_reserved_tokens r = None \<Longrightarrow> count_term True P r = 0 \<and> kv_term P r = 0 \<and>
     count_term False P r = (if P (rv_scheduling r) then 1 else 0)"
  by (simp add: count_term_def kv_term_def reserved_or_zero_def)

lemma entries_ok_set:
  assumes "entries_ok l" and "sm_request_id (rv_scheduling r) = k" and "0 < rv_estimated_tokens r"
    and "\<forall>n. rv_reserved_tokens r = Some n \<longrightarrow> 0 < n \<and> n \<le> rv_estimated_tokens r"
  shows "entries_ok (dict_set k r l)"
  using assms by (auto simp: entries_ok_def distinct_update)

lemma admit_ledger_ok:
  assumes "ledger_ok lims l" and "admit lims p m v l = Inr l'"
  shows "ledger_ok lims l'"
proof -
  from assms(2) obtain n where n: "0 < n" "n \<le> al_kv_token_budget lims"
      "n \<le> al_max_kv_tokens_per_workflow lims" "n \<le> al_max_kv_tokens_per_agent lims"
    and new: "dict_get l (sm_request_id m) = None"
    and pend: "pending_count (\<lambda>_. True) l < al_max_pending lims"
      "pending_count (\<lambda>x. sm_workflow_id x = sm_workflow_id m) l < al_max_pending_per_workflow lims"
      "pending_count (\<lambda>x. sm_workflow_id x = sm_workflow_id m \<and> sm_agent_id x = sm_agent_id m) l
         < al_max_pending_per_agent lims"
    and l': "l' = dict_set (sm_request_id m)
         \<lparr>rv_scheduling = m, rv_estimated_tokens = n, rv_reserved_tokens = None\<rparr> l"
    by (auto simp: admit_Inr)
  have "entries_ok l'" unfolding l' using assms(1) n by (intro entries_ok_set) (auto simp: ledger_ok_def)
  moreover have "estimates_fit lims l'"
    unfolding l' using assms(1) n by (auto simp: ledger_ok_def estimates_fit_def)
  moreover have "quotas_ok lims l'"
    using assms(1) pend unfolding ledger_ok_def quotas_ok_def l' tally_new [OF new] by auto
  ultimately show ?thesis by (simp add: ledger_ok_def)
qed

lemma activate_ledger_ok:
  assumes "ledger_ok lims l" and "can_activate lims k l" and "activate k v l = Inr l'"
  shows "ledger_ok lims l'"
proof -
  from assms(3) obtain r n where r: "dict_get l k = Some r" "rv_reserved_tokens r = None"
    and n: "0 < n" "n \<le> rv_estimated_tokens r"
    and l': "l' = dict_set k \<lparr>rv_scheduling = rv_scheduling r, rv_estimated_tokens = rv_estimated_tokens r,
                rv_reserved_tokens = Some n\<rparr> l"
    by (auto simp: activate_Inr)
  have ok: "entries_ok l" "quotas_ok lims l" "estimates_fit lims l" using assms(1) by (simp_all add: ledger_ok_def)
  then have d: "distinct (dict_keys l)" by (simp add: entries_ok_def)
  note old = tally_old [OF d r(1)] pending_terms [OF r(2)]
  have "entries_ok l'" unfolding l' using ok r n by (intro entries_ok_set) (auto simp: entries_ok_def)
  moreover have "estimates_fit lims l'" unfolding l' using ok(3) r by (auto simp: estimates_fit_def)
  moreover have "quotas_ok lims l'"
    using ok(2) assms(2) r n unfolding quotas_ok_def can_activate_iff l' old(1,2,3)
    by (auto simp: old(4) Let_def intro: le_minus)
  ultimately show ?thesis by (simp add: ledger_ok_def)
qed

lemma release_ledger_ok:
  assumes "ledger_ok lims l"
  shows "ledger_ok lims (snd (release_reservation k l))"
proof (cases "dict_get l k")
  case None
  then show ?thesis using assms by (simp add: release_reservation_def pop_absent_same)
next
  case (Some r)
  have ok: "entries_ok l" "quotas_ok lims l" "estimates_fit lims l" using assms by (simp_all add: ledger_ok_def)
  then have d: "distinct (dict_keys l)" by (simp add: entries_ok_def)
  have nonneg: "0 \<le> kv_term P r" for P
    using ok(1) Some by (intro term_bounds(2)) (auto simp: entries_ok_def)
  have "entries_ok (dict_pop k l)" using ok(1) by (auto simp: entries_ok_def distinct_delete)
  moreover have "estimates_fit lims (dict_pop k l)" using ok(3) by (auto simp: estimates_fit_def)
  moreover have "quotas_ok lims (dict_pop k l)"
    using ok(2) unfolding quotas_ok_def tally_pop [OF d Some]
    by (intro conjI allI le_minus) (simp_all add: term_bounds(1) nonneg)
  ultimately show ?thesis by (simp add: ledger_ok_def release_reservation_def)
qed

section \<open>Deferred activation\<close>

text \<open>
  The scheduler asks \<open>can_activate\<close> and calls \<open>activate\<close> later, in a second lock section; other
  threads admit and release in between. The contract between the two: the answer stays valid
  under every quiet step, and acting on it keeps the invariant.
\<close>

locale guarded_activation =
  fixes inv :: "'s \<Rightarrow> bool" and can :: "'k \<Rightarrow> 's \<Rightarrow> bool"
    and act :: "'k \<Rightarrow> 's \<Rightarrow> 's \<Rightarrow> bool" and quiet :: "'k \<Rightarrow> 's \<Rightarrow> 's \<Rightarrow> bool"
  assumes act_inv: "inv s \<Longrightarrow> can k s \<Longrightarrow> act k s t \<Longrightarrow> inv t"
    and quiet_inv: "inv s \<Longrightarrow> quiet k s t \<Longrightarrow> inv t"
    and quiet_can: "inv s \<Longrightarrow> can k s \<Longrightarrow> quiet k s t \<Longrightarrow> can k t"
begin

lemma quiet_steps: "(quiet k)\<^sup>*\<^sup>* s t \<Longrightarrow> inv s \<Longrightarrow> can k s \<Longrightarrow> inv t \<and> can k t"
  by (induction rule: rtranclp_induct) (auto intro: quiet_inv quiet_can)

lemma deferred_act: "inv s \<Longrightarrow> can k s \<Longrightarrow> (quiet k)\<^sup>*\<^sup>* s t \<Longrightarrow> act k t u \<Longrightarrow> inv u"
  using quiet_steps act_inv by blast

end

inductive quiet_step ::
  "AdmissionLimits \<Rightarrow> RuntimeSchedulingPolicy \<Rightarrow> string \<Rightarrow> ledger \<Rightarrow> ledger \<Rightarrow> bool"
  for lims :: AdmissionLimits and p :: RuntimeSchedulingPolicy and k :: string where
  quiet_admit: "admit lims p m v l = Inr l' \<Longrightarrow> quiet_step lims p k l l'"
| quiet_release: "j \<noteq> k \<Longrightarrow> release_reservation j l = (b, l') \<Longrightarrow> quiet_step lims p k l l'"

lemma can_activate_less_active:
  assumes "can_activate lims k l" and "dict_get l' k = dict_get l k"
    and "\<And>P. active_count P l' \<le> active_count P l" and "\<And>P. active_kv P l' \<le> active_kv P l"
  shows "can_activate lims k l'"
proof -
  obtain r where r: "dict_get l k = Some r" "rv_reserved_tokens r = None"
    using assms(1) by (auto simp: can_activate_iff)
  show ?thesis
    using assms(1) r unfolding can_activate_iff assms(2) Let_def
    by (auto intro: le_less_trans [OF assms(3)] order_trans [OF add_right_mono [OF assms(4)]])
qed

lemma quiet_can_activate:
  assumes "ledger_ok lims l" and "can_activate lims k l" and "quiet_step lims p k l l'"
  shows "can_activate lims k l'"
  using assms(3)
proof cases
  case (quiet_admit m v)
  then obtain n where new: "dict_get l (sm_request_id m) = None"
    and l': "l' = dict_set (sm_request_id m)
         \<lparr>rv_scheduling = m, rv_estimated_tokens = n, rv_reserved_tokens = None\<rparr> l"
    by (auto simp: admit_Inr)
  have "k \<noteq> sm_request_id m" using new assms(2) by (auto simp: can_activate_iff)
  then show ?thesis
    using assms(2) by (rule_tac can_activate_less_active) (auto simp: l' tally_new [OF new])
next
  case (quiet_release j b)
  then have l': "l' = dict_pop j l" by (simp add: release_reservation_def)
  show ?thesis
  proof (cases "dict_get l j")
    case None
    then show ?thesis using assms(2) by (simp add: l' pop_absent_same)
  next
    case (Some r)
    have ok: "entries_ok l" using assms(1) by (simp add: ledger_ok_def)
    then have d: "distinct (dict_keys l)" by (simp add: entries_ok_def)
    have "0 \<le> kv_term P r" for P
      using ok Some by (intro term_bounds(2)) (auto simp: entries_ok_def)
    then show ?thesis
      using assms(2) quiet_release(1)
      by (rule_tac can_activate_less_active) (auto simp: l' tally_pop [OF d Some] term_bounds(1))
  qed
qed

interpretation kv_ledger: guarded_activation "ledger_ok lims" "can_activate lims"
  "\<lambda>k l l'. \<exists>v. activate k v l = Inr l'" "quiet_step lims p"
  for lims :: AdmissionLimits and p :: RuntimeSchedulingPolicy
proof
  fix k l l'
  show "ledger_ok lims l'" if "ledger_ok lims l" "can_activate lims k l" "\<exists>v. activate k v l = Inr l'"
    using that activate_ledger_ok by blast
  show "ledger_ok lims l'" if "ledger_ok lims l" "quiet_step lims p k l l'"
    using that(2,1) by cases (auto intro: admit_ledger_ok simp: release_reservation_def
        dest: release_ledger_ok)
  show "can_activate lims k l'" if "ledger_ok lims l" "can_activate lims k l" "quiet_step lims p k l l'"
    using that by (rule quiet_can_activate)
qed

inductive ledger_step :: "AdmissionLimits \<Rightarrow> RuntimeSchedulingPolicy \<Rightarrow> ledger \<Rightarrow> ledger \<Rightarrow> bool"
  for lims :: AdmissionLimits and p :: RuntimeSchedulingPolicy where
  step_admit: "admit lims p m v l = Inr l' \<Longrightarrow> ledger_step lims p l l'"
| step_release: "release_reservation k l = (b, l') \<Longrightarrow> ledger_step lims p l l'"
| step_activate: "can_activate lims k l \<Longrightarrow> (quiet_step lims p k)\<^sup>*\<^sup>* l l1 \<Longrightarrow>
    activate k v l1 = Inr l' \<Longrightarrow> ledger_step lims p l l'"

definition limits_wf :: "AdmissionLimits \<Rightarrow> bool" where
  "limits_wf lims \<longleftrightarrow>
     0 < al_max_pending lims \<and> 0 < al_max_pending_per_workflow lims \<and> 0 < al_max_pending_per_agent lims \<and>
     0 < al_max_sequences_per_agent lims \<and> al_max_sequences_per_agent lims \<le> al_max_sequences_per_workflow lims \<and>
     al_max_sequences_per_workflow lims \<le> al_max_sequences lims \<and>
     0 < al_max_kv_tokens_per_agent lims \<and> al_max_kv_tokens_per_agent lims \<le> al_max_kv_tokens_per_workflow lims \<and>
     al_max_kv_tokens_per_workflow lims \<le> al_kv_token_budget lims \<and>
     0 < al_load_shed_pending_threshold lims \<and> al_load_shed_pending_threshold lims \<le> al_max_pending lims"

lemma limit_field_Inr: "limit_field v name = Inr i \<longleftrightarrow> v = PInt i \<and> 0 < i"
  by (auto simp: limit_field_def split: option.splits)

lemma mk_AdmissionLimits_wf: "mk_AdmissionLimits a = Inr lims \<Longrightarrow> limits_wf lims"
  unfolding mk_AdmissionLimits_def rbind_eq_Inr limit_field_Inr limit_check_def ensure_eq_Inr sum.inject
  by (elim exE conjE, drule sym [of _ lims], hypsubst_thin) (simp add: limits_wf_def)

lemma tally_empty [simp]: "active_count P [] = 0" "pending_count P [] = 0" "active_kv P [] = 0"
  by (simp_all add: tally_sums)

interpretation admission: invariant_system "\<lambda>l. l = [] \<and> limits_wf lims" "ledger_step lims p" "ledger_ok lims"
  for lims :: AdmissionLimits and p :: RuntimeSchedulingPolicy
proof
  show "ledger_ok lims l" if "l = [] \<and> limits_wf lims" for l
    using that by (auto simp: ledger_ok_def entries_ok_def estimates_fit_def quotas_ok_def limits_wf_def)
  show "ledger_ok lims l'" if ok: "ledger_ok lims l" and step: "ledger_step lims p l l'" for l l'
    using step
  proof cases
    case step_admit
    then show ?thesis using ok by (rule_tac admit_ledger_ok)
  next
    case (step_release k)
    then show ?thesis using release_ledger_ok [OF ok, of k] by simp
  next
    case step_activate
    then show ?thesis using kv_ledger.deferred_act [OF ok] by blast
  qed
qed


definition demo_limits :: AdmissionLimits where
  "demo_limits = \<lparr>al_max_pending = 2, al_max_sequences = 2, al_kv_token_budget = 100,
     al_max_pending_per_workflow = 2, al_max_pending_per_agent = 2, al_max_sequences_per_workflow = 2,
     al_max_sequences_per_agent = 1, al_max_kv_tokens_per_workflow = 80, al_max_kv_tokens_per_agent = 60,
     al_load_shed_pending_threshold = 2, al_load_shed_min_priority = 0\<rparr>"

definition demo_reservation :: "int option \<Rightarrow> Reservation" where
  "demo_reservation n = \<lparr>rv_scheduling = demo_metadata ''r'' ''w'' ''batch'', rv_estimated_tokens = 50,
     rv_reserved_tokens = n\<rparr>"

lemma demo_limits_wf: "limits_wf demo_limits"
  by (simp add: limits_wf_def demo_limits_def)

lemma demo_admit: "admit demo_limits demo_policy (demo_metadata ''r'' ''w'' ''batch'') (PInt 50) [] =
    Inr [(''r'', demo_reservation None)]"
  by (simp add: admit_def demo_limits_def demo_defs class_policy_def pending_locked_def demo_reservation_def)

lemma demo_activate: "activate ''r'' (PInt 40) [(''r'', demo_reservation None)] = Inr [(''r'', demo_reservation (Some 40))]"
  by (simp add: activate_def demo_reservation_def)

lemma demo_can_activate: "can_activate demo_limits ''r'' [(''r'', demo_reservation None)]"
  by (simp add: can_activate_def demo_reservation_def active_locked_def demo_limits_def)

lemma demo_reach:
  "reach (\<lambda>l. l = [] \<and> limits_wf demo_limits) (ledger_step demo_limits demo_policy) [(''r'', demo_reservation None)]"
  by (rule reach_step [where s = "[]"]) (simp_all add: reach_init demo_limits_wf step_admit [OF demo_admit])


text \<open>
  No admitted request is stuck: in every reachable ledger a pending request passes the
  activation check as soon as no sequence is active, and activating it with its estimate succeeds.
\<close>

theorem pending_can_activate:
  assumes "reach (\<lambda>l. l = [] \<and> limits_wf lims) (ledger_step lims p) l" and "limits_wf lims"
    and "dict_get l k = Some r" and "rv_reserved_tokens r = None" and "active_locked l = []"
  shows "can_activate lims k l \<and> (\<exists>l'. activate k PNone l = Inr l')"
proof -
  have ok: "entries_ok l" "estimates_fit lims l"
    using admission.inv_reach [OF assms(1)] by (simp_all add: ledger_ok_def)
  have "can_activate lims k l"
    using ok(2) assms(2-5)
    by (auto simp: can_activate_iff active_count_def active_kv_def estimates_fit_def limits_wf_def)
  moreover have "0 < rv_estimated_tokens r" using ok(1) assms(3) by (simp add: entries_ok_def)
  ultimately show ?thesis using assms(3,4) by (auto simp: activate_Inr)
qed

theorem pending_can_activate_witness:
  "can_activate demo_limits ''r'' [(''r'', demo_reservation None)] \<and>
     (\<exists>l'. activate ''r'' PNone [(''r'', demo_reservation None)] = Inr l')"
  by (rule pending_can_activate [OF demo_reach demo_limits_wf, of "''r''" "demo_reservation None"])
     (simp_all add: active_locked_def demo_reservation_def)

text \<open>
  The retry flag of a rejection is truthful. A request rejected as retryable is accepted once
  the queue has drained; a request rejected as not retryable is rejected by every ledger that does
  not already hold its id, or is itself the duplicate of a registered request.
\<close>

theorem admit_retryable:
  assumes "limits_wf lims" and "admit lims p m v l = Inl (AdmissionRejection code retryable)"
  shows "(retryable \<longrightarrow> (\<exists>l'. admit lims p m v [] = Inr l')) \<and>
    (\<not> retryable \<longrightarrow> dict_get l (sm_request_id m) \<noteq> None \<and> code = ''duplicate_request'' \<or>
       (\<forall>l'. admit lims p m v l' = Inl (AdmissionRejection code retryable)))"
  using assms
  by (auto simp: admit_def limits_wf_def Let_def pending_locked_def rbind_eq_Inl class_policy_def
      split: option.splits if_splits)

theorem admit_retryable_witness:
  "admit demo_limits demo_policy (demo_metadata ''q'' ''w'' ''batch'') (PInt 5)
       [(''r'', demo_reservation None), (''s'', demo_reservation None)] =
     Inl (AdmissionRejection ''queue_full'' True) \<and>
   (\<exists>l'. admit demo_limits demo_policy (demo_metadata ''q'' ''w'' ''batch'') (PInt 5) [] = Inr l')"
proof
  show full: "admit demo_limits demo_policy (demo_metadata ''q'' ''w'' ''batch'') (PInt 5)
       [(''r'', demo_reservation None), (''s'', demo_reservation None)] =
     Inl (AdmissionRejection ''queue_full'' True)"
    by (simp add: admit_def demo_limits_def demo_defs class_policy_def pending_locked_def demo_reservation_def)
  show "\<exists>l'. admit demo_limits demo_policy (demo_metadata ''q'' ''w'' ''batch'') (PInt 5) [] = Inr l'"
    using admit_retryable [OF demo_limits_wf full] by simp
qed

end
