(* ===== verification/SequenceCache.thy ===== *)
theory SequenceCache
  imports CacheContracts
begin

text \<open>
  \<open>SequenceStateCache\<close> of \<open>inference_runtime/cache.py\<close>: the byte-bounded cache of sequence states
  with leases, copy-on-write clones, expiry and least-recently-used eviction.

  The lock makes every operation one step. An operation returns its result or error together with
  the new state, because expired entries are pruned before later checks raise. The reading of
  \<open>self._clock()\<close> and the id drawn by \<open>uuid.uuid4().hex\<close> are arguments of the operations that
  use them. The eviction loop has fuel; \<open>Diverges\<close> is its result when the fuel runs out, which
  \<open>ensure_capacity_result\<close> excludes.
\<close>

section \<open>State\<close>

record CacheLease =
  le_entry_id :: string
  le_generation :: int
  le_key :: ExactTokenCacheKey
  le_mutable :: bool
  le_copy_on_write :: bool

record CacheMetrics =
  cm_hits :: int
  cm_misses :: int
  cm_denied :: int
  cm_insertions :: int
  cm_evictions :: int
  cm_invalidations :: int
  cm_cow_clones :: int
  cm_saved_prefill_tokens :: int
  cm_bytes_used :: int
  cm_entries :: int
  cm_leased_entries :: int

record cache_entry =
  ce_entry_id :: string
  ce_generation :: int
  ce_key :: ExactTokenCacheKey
  ce_scope :: CacheScope
  ce_payload :: string
  ce_byte_size :: int
  ce_created_at :: rat
  ce_expires_at :: rat
  ce_last_access :: rat
  ce_refcount :: int
  ce_ephemeral :: bool

datatype cache_error = CacheRaised py_exc | CacheCapacityError string | Diverges

record cache_config =
  cc_byte_budget :: int
  cc_max_entries :: int
  cc_ttl_seconds :: rat

record cache =
  ca_entries :: "(string, cache_entry) odict"
  ca_index :: "(ExactTokenCacheKey \<times> CacheScope, string) odict"
  ca_bytes_used :: int
  ca_hits :: int
  ca_misses :: int
  ca_denied :: int
  ca_insertions :: int
  ca_evictions :: int
  ca_invalidations :: int
  ca_cow_clones :: int
  ca_saved_prefill_tokens :: int

definition mk_cache_config :: "pyval \<Rightarrow> pyval \<Rightarrow> pyval \<Rightarrow> cache_error + cache_config" where
  "mk_cache_config byte_budget max_entries ttl_seconds =
     (case positive_int_val byte_budget of
        None \<Rightarrow> Inl (CacheRaised (ValueError ''byte_budget must be a positive integer''))
      | Some b \<Rightarrow>
          (case positive_int_val max_entries of
             None \<Rightarrow> Inl (CacheRaised (ValueError ''max_entries must be a positive integer''))
           | Some n \<Rightarrow>
               (case finite_val ttl_seconds of
                  None \<Rightarrow> Inl (CacheRaised (ValueError ''ttl_seconds must be finite and positive''))
                | Some t \<Rightarrow>
                    if t \<le> 0 then Inl (CacheRaised (ValueError ''ttl_seconds must be finite and positive''))
                    else Inr \<lparr>cc_byte_budget = b, cc_max_entries = n, cc_ttl_seconds = t\<rparr>)))"

definition empty_cache :: cache where
  "empty_cache = \<lparr>ca_entries = [], ca_index = [], ca_bytes_used = 0, ca_hits = 0, ca_misses = 0,
     ca_denied = 0, ca_insertions = 0, ca_evictions = 0, ca_invalidations = 0, ca_cow_clones = 0,
     ca_saved_prefill_tokens = 0\<rparr>"

section \<open>Internal operations\<close>

definition clock_now :: "pyval \<Rightarrow> cache_error + rat" where
  "clock_now v =
     (case finite_val v of
        Some t \<Rightarrow> if t < 0 then Inl (CacheRaised (RuntimeErr ''cache clock must return a finite non-negative timestamp''))
                 else Inr t
      | None \<Rightarrow> Inl (CacheRaised (RuntimeErr ''cache clock must return a finite non-negative timestamp'')))"

definition remove_locked :: "bool \<Rightarrow> cache_entry \<Rightarrow> cache \<Rightarrow> cache" where
  "remove_locked invalidation entry s =
     (let s1 = s\<lparr>ca_entries := dict_pop (ce_entry_id entry) (ca_entries s)\<rparr>;
          s2 = (if ce_ephemeral entry then s1
                else s1\<lparr>ca_index := dict_pop (ce_key entry, ce_scope entry) (ca_index s1)\<rparr>);
          s3 = s2\<lparr>ca_bytes_used := ca_bytes_used s2 - ce_byte_size entry\<rparr>
      in if invalidation then s3\<lparr>ca_invalidations := ca_invalidations s3 + 1\<rparr> else s3)"

definition evict_entry :: "cache_entry \<Rightarrow> cache \<Rightarrow> cache" where
  "evict_entry entry s =
     (let s1 = remove_locked False entry s in s1\<lparr>ca_evictions := ca_evictions s1 + 1\<rparr>)"

definition prune_locked :: "rat \<Rightarrow> cache \<Rightarrow> cache" where
  "prune_locked now s =
     fold evict_entry
       (filter (\<lambda>e. ce_refcount e = 0 \<and> ce_expires_at e \<le> now) (dict_values (ca_entries s))) s"

fun evict_loop :: "nat \<Rightarrow> cache_config \<Rightarrow> int \<Rightarrow> cache \<Rightarrow> (cache_error + unit) \<times> cache" where
  "evict_loop 0 cfg byte_size s = (Inl Diverges, s)"
| "evict_loop (Suc fuel) cfg byte_size s =
     (if cc_byte_budget cfg < ca_bytes_used s + byte_size \<or>
         cc_max_entries cfg \<le> int (length (ca_entries s)) then
        (case min_by (\<lambda>e. (ce_last_access e, ce_created_at e))
                (filter (\<lambda>e. ce_refcount e = 0) (dict_values (ca_entries s))) of
           None \<Rightarrow> (Inl (CacheCapacityError ''cache capacity is pinned by active leases''), s)
         | Some victim \<Rightarrow> evict_loop fuel cfg byte_size (evict_entry victim s))
      else (Inr (), s))"

definition ensure_capacity_locked ::
  "cache_config \<Rightarrow> int \<Rightarrow> rat \<Rightarrow> cache \<Rightarrow> (cache_error + unit) \<times> cache" where
  "ensure_capacity_locked cfg byte_size now s =
     (let s1 = prune_locked now s in evict_loop (Suc (length (ca_entries s1))) cfg byte_size s1)"

definition lease_entry_locked :: "CacheLease \<Rightarrow> cache \<Rightarrow> cache_error + cache_entry" where
  "lease_entry_locked lease s =
     (case dict_get (ca_entries s) (le_entry_id lease) of
        None \<Rightarrow> Inl (CacheRaised (RuntimeErr ''cache lease is stale''))
      | Some entry \<Rightarrow>
          if ce_generation entry \<noteq> le_generation lease \<or> ce_key entry \<noteq> le_key lease \<or> ce_refcount entry = 0
          then Inl (CacheRaised (RuntimeErr ''cache lease is stale''))
          else Inr entry)"

section \<open>Public operations\<close>

definition validate_values :: "cache_config \<Rightarrow> string \<Rightarrow> cache_error + unit" where
  "validate_values cfg payload =
     (if payload = [] then Inl (CacheRaised (ValueError ''payload must be non-empty bytes''))
      else if cc_byte_budget cfg < int (length payload)
      then Inl (CacheCapacityError ''cache entry exceeds the byte budget'')
      else Inr ())"

definition replace_existing ::
  "ExactTokenCacheKey \<times> CacheScope \<Rightarrow> cache \<Rightarrow> (cache_error + unit) \<times> cache" where
  "replace_existing index_key s =
     (case dict_get (ca_index s) index_key of
        None \<Rightarrow> (Inr (), s)
      | Some existing_id \<Rightarrow>
          (case dict_get (ca_entries s) existing_id of
             None \<Rightarrow> (Inl (CacheRaised (KeyErr existing_id)), s)
           | Some existing \<Rightarrow>
               if ce_refcount existing \<noteq> 0
               then (Inl (CacheCapacityError ''cannot replace a leased cache entry''), s)
               else (Inr (), remove_locked True existing s)))"

definition insert_entry ::
  "cache_config \<Rightarrow> string \<Rightarrow> ExactTokenCacheKey \<Rightarrow> CacheScope \<Rightarrow> string \<Rightarrow> rat \<Rightarrow> cache \<Rightarrow> cache" where
  "insert_entry cfg entry_id key scope payload now s =
     s\<lparr>ca_entries := dict_set entry_id
          \<lparr>ce_entry_id = entry_id, ce_generation = 1, ce_key = key, ce_scope = scope,
           ce_payload = payload, ce_byte_size = int (length payload), ce_created_at = now,
           ce_expires_at = now + cc_ttl_seconds cfg, ce_last_access = now, ce_refcount = 0,
           ce_ephemeral = False\<rparr> (ca_entries s),
       ca_index := dict_set (key, scope) entry_id (ca_index s),
       ca_bytes_used := ca_bytes_used s + int (length payload),
       ca_insertions := ca_insertions s + 1\<rparr>"

definition put ::
  "cache_config \<Rightarrow> pyval \<Rightarrow> string \<Rightarrow> ExactTokenCacheKey \<Rightarrow> CacheScope \<Rightarrow> string \<Rightarrow> cache \<Rightarrow>
   (cache_error + string) \<times> cache" where
  "put cfg clock uid key scope payload s =
     (case rbind (validate_values cfg payload) (\<lambda>_. clock_now clock) of
        Inl e \<Rightarrow> (Inl e, s)
      | Inr now \<Rightarrow>
          (case replace_existing (key, scope) (prune_locked now s) of
             (Inl e, s1) \<Rightarrow> (Inl e, s1)
           | (Inr _, s1) \<Rightarrow>
               (case ensure_capacity_locked cfg (int (length payload)) now s1 of
                  (Inl e, s2) \<Rightarrow> (Inl e, s2)
                | (Inr _, s2) \<Rightarrow> (Inr uid, insert_entry cfg uid key scope payload now s2))))"

fun visibility_rank :: "CacheVisibility \<Rightarrow> nat" where
  "visibility_rank PRIVATE = 0"
| "visibility_rank WORKFLOW = 1"
| "visibility_rank TENANT = 2"

definition lease_of :: "cache_entry \<Rightarrow> bool \<Rightarrow> bool \<Rightarrow> CacheLease" where
  "lease_of e mutable copy_on_write =
     \<lparr>le_entry_id = ce_entry_id e, le_generation = ce_generation e, le_key = ce_key e,
      le_mutable = mutable, le_copy_on_write = copy_on_write\<rparr>"

definition count_hit :: "ExactTokenCacheKey \<Rightarrow> cache \<Rightarrow> cache" where
  "count_hit key s =
     s\<lparr>ca_hits := ca_hits s + 1,
       ca_saved_prefill_tokens := ca_saved_prefill_tokens s + int (length (ck_token_ids key))\<rparr>"

definition clone_entry :: "cache_config \<Rightarrow> string \<Rightarrow> CacheScope \<Rightarrow> rat \<Rightarrow> cache_entry \<Rightarrow> cache_entry" where
  "clone_entry cfg clone_id requester now entry =
     \<lparr>ce_entry_id = clone_id, ce_generation = ce_generation entry + 1, ce_key = ce_key entry,
      ce_scope = requester, ce_payload = ce_payload entry, ce_byte_size = ce_byte_size entry,
      ce_created_at = now, ce_expires_at = now + cc_ttl_seconds cfg, ce_last_access = now,
      ce_refcount = 1, ce_ephemeral = True\<rparr>"

definition add_clone :: "cache_entry \<Rightarrow> cache \<Rightarrow> cache" where
  "add_clone clone s =
     s\<lparr>ca_entries := dict_set (ce_entry_id clone) clone (ca_entries s),
       ca_bytes_used := ca_bytes_used s + ce_byte_size clone,
       ca_cow_clones := ca_cow_clones s + 1\<rparr>"

definition touch_entry :: "cache_config \<Rightarrow> rat \<Rightarrow> cache_entry \<Rightarrow> cache_entry" where
  "touch_entry cfg now entry =
     entry\<lparr>ce_refcount := ce_refcount entry + 1, ce_last_access := now,
           ce_expires_at := now + cc_ttl_seconds cfg\<rparr>"

definition matching_entries :: "ExactTokenCacheKey \<Rightarrow> cache \<Rightarrow> cache_entry list" where
  "matching_entries key s =
     filter (\<lambda>e. \<not> ce_ephemeral e \<and> ce_key e = key) (dict_values (ca_entries s))"

definition pick_entry :: "ExactTokenCacheKey \<Rightarrow> CacheScope \<Rightarrow> cache \<Rightarrow> cache_entry option" where
  "pick_entry key requester s =
     min_by (\<lambda>e. (visibility_rank (cs_visibility (ce_scope e)), - ce_last_access e))
       (filter (\<lambda>e. allows (ce_scope e) requester) (matching_entries key s))"

definition acquire ::
  "cache_config \<Rightarrow> pyval \<Rightarrow> string \<Rightarrow> ExactTokenCacheKey \<Rightarrow> CacheScope \<Rightarrow> bool \<Rightarrow> cache \<Rightarrow>
   (cache_error + CacheLease option) \<times> cache" where
  "acquire cfg clock uid key requester mutable s =
     (if mutable \<and> ck_kind key = PREFIX
      then (Inl (CacheRaised (ValueError ''prefix cache leases are immutable'')), s)
      else case clock_now clock of
        Inl e \<Rightarrow> (Inl e, s)
      | Inr now \<Rightarrow>
          (let s1 = prune_locked now s in
           case pick_entry key requester s1 of
             None \<Rightarrow>
               (Inr None,
                if matching_entries key s1 \<noteq> [] then s1\<lparr>ca_denied := ca_denied s1 + 1\<rparr>
                else s1\<lparr>ca_misses := ca_misses s1 + 1\<rparr>)
           | Some entry \<Rightarrow>
               if mutable \<and> 0 < ce_refcount entry then
                 (case ensure_capacity_locked cfg (ce_byte_size entry) now s1 of
                    (Inl e, s2) \<Rightarrow> (Inl e, s2)
                  | (Inr _, s2) \<Rightarrow>
                      (let clone = clone_entry cfg uid requester now entry in
                       (Inr (Some (lease_of clone mutable True)), count_hit key (add_clone clone s2))))
               else
                 (let leased = touch_entry cfg now entry in
                  (Inr (Some (lease_of leased mutable False)),
                   count_hit key (s1\<lparr>ca_entries := dict_set (ce_entry_id entry) leased (ca_entries s1)\<rparr>)))))"

definition read_lease :: "CacheLease \<Rightarrow> cache \<Rightarrow> cache_error + string" where
  "read_lease lease s = rbind (lease_entry_locked lease s) (\<lambda>e. Inr (ce_payload e))"

definition release_lease :: "CacheLease \<Rightarrow> cache \<Rightarrow> bool \<times> cache" where
  "release_lease lease s =
     (case dict_get (ca_entries s) (le_entry_id lease) of
        None \<Rightarrow> (False, s)
      | Some entry \<Rightarrow>
          if ce_generation entry \<noteq> le_generation lease \<or> ce_refcount entry = 0 then (False, s)
          else
            (let e1 = entry\<lparr>ce_refcount := ce_refcount entry - 1\<rparr>;
                 s1 = s\<lparr>ca_entries := dict_set (le_entry_id lease) e1 (ca_entries s)\<rparr> in
             (True, if ce_ephemeral e1 \<and> ce_refcount e1 = 0 then remove_locked False e1 s1 else s1)))"

definition commit_session ::
  "cache_config \<Rightarrow> pyval \<Rightarrow> string \<Rightarrow> CacheLease \<Rightarrow> ExactTokenCacheKey \<Rightarrow> string \<Rightarrow> CacheScope \<Rightarrow>
   cache \<Rightarrow> (cache_error + string) \<times> cache" where
  "commit_session cfg clock uid lease new_key payload scope s =
     (if \<not> le_mutable lease
      then (Inl (CacheRaised (ValueError ''commit_session requires a mutable lease'')), s)
      else if ck_kind new_key \<noteq> SESSION
      then (Inl (CacheRaised (ValueError ''session commits require a session cache key'')), s)
      else case lease_entry_locked lease s of
        Inl e \<Rightarrow> (Inl e, s)
      | Inr _ \<Rightarrow>
          (case put cfg clock uid new_key scope payload s of
             (Inl e, s1) \<Rightarrow> (Inl e, s1)
           | (Inr entry_id, s1) \<Rightarrow> (Inr entry_id, snd (release_lease lease s1))))"

definition invalidate ::
  "pyval \<Rightarrow> CacheKind option \<Rightarrow> CacheNamespace option \<Rightarrow> cache \<Rightarrow> (cache_error + nat) \<times> cache" where
  "invalidate tenant_id kind namespace s =
     (case identifier_field tenant_id ''tenant_id'' of
        Inl e \<Rightarrow> (Inl (CacheRaised e), s)
      | Inr t \<Rightarrow>
          (let targets = filter (\<lambda>e. cs_tenant_id (ce_scope e) = t \<and>
                   (kind = None \<or> kind = Some (ck_kind (ce_key e))) \<and>
                   (namespace = None \<or> namespace = Some (ck_namespace (ce_key e))) \<and>
                   ce_refcount e = 0) (dict_values (ca_entries s)) in
           (Inr (length targets), fold (remove_locked True) targets s)))"

definition prune :: "pyval \<Rightarrow> cache \<Rightarrow> (cache_error + int) \<times> cache" where
  "prune clock s =
     (case clock_now clock of
        Inl e \<Rightarrow> (Inl e, s)
      | Inr now \<Rightarrow>
          (let s1 = prune_locked now s in
           (Inr (int (length (ca_entries s)) - int (length (ca_entries s1))), s1)))"

definition cache_metrics :: "cache \<Rightarrow> CacheMetrics" where
  "cache_metrics s =
     \<lparr>cm_hits = ca_hits s, cm_misses = ca_misses s, cm_denied = ca_denied s,
      cm_insertions = ca_insertions s, cm_evictions = ca_evictions s,
      cm_invalidations = ca_invalidations s, cm_cow_clones = ca_cow_clones s,
      cm_saved_prefill_tokens = ca_saved_prefill_tokens s, cm_bytes_used = ca_bytes_used s,
      cm_entries = int (length (ca_entries s)),
      cm_leased_entries = int (length (filter (\<lambda>e. 0 < ce_refcount e) (dict_values (ca_entries s))))\<rparr>"

section \<open>Invariant\<close>

definition entry_ok :: "string \<Rightarrow> cache_entry \<Rightarrow> bool" where
  "entry_ok k e \<longleftrightarrow> ce_entry_id e = k \<and> ce_byte_size e = int (length (ce_payload e)) \<and>
     ce_payload e \<noteq> [] \<and> 0 \<le> ce_refcount e \<and> (ce_ephemeral e \<longrightarrow> 0 < ce_refcount e)"

definition index_ok :: "cache \<Rightarrow> bool" where
  "index_ok s \<longleftrightarrow>
     (\<forall>key scope k. dict_get (ca_index s) (key, scope) = Some k \<longleftrightarrow>
        (\<exists>e. dict_get (ca_entries s) k = Some e \<and> \<not> ce_ephemeral e \<and> ce_key e = key \<and> ce_scope e = scope))"

definition stored_bytes :: "cache \<Rightarrow> int" where
  "stored_bytes s = sum_list (map ce_byte_size (dict_values (ca_entries s)))"

definition cache_core :: "cache \<Rightarrow> bool" where
  "cache_core s \<longleftrightarrow> distinct (dict_keys (ca_entries s)) \<and>
     (\<forall>k e. dict_get (ca_entries s) k = Some e \<longrightarrow> entry_ok k e) \<and>
     index_ok s \<and> ca_bytes_used s = stored_bytes s"

definition cache_bounded :: "cache_config \<Rightarrow> cache \<Rightarrow> bool" where
  "cache_bounded cfg s \<longleftrightarrow>
     ca_bytes_used s \<le> cc_byte_budget cfg \<and> int (length (ca_entries s)) \<le> cc_max_entries cfg"

definition cache_inv :: "cache_config \<Rightarrow> cache \<Rightarrow> bool" where
  "cache_inv cfg s \<longleftrightarrow> cache_core s \<and> cache_bounded cfg s"

lemma cache_core_entry: "cache_core s \<Longrightarrow> dict_get (ca_entries s) k = Some e \<Longrightarrow> entry_ok k e"
  by (simp add: cache_core_def)

lemma cache_core_value:
  assumes "cache_core s" and "e \<in> set (dict_values (ca_entries s))"
  shows "dict_get (ca_entries s) (ce_entry_id e) = Some e"
proof -
  obtain k where "dict_get (ca_entries s) k = Some e"
    using assms values_of_get [of "ca_entries s" e] by (auto simp: cache_core_def)
  then show ?thesis using cache_core_entry [OF assms(1)] by (auto simp: entry_ok_def)
qed

text \<open>
  One removal of a stored entry keeps the invariant and gives back exactly its bytes. A removal
  of entries without leases is a \<open>shrink\<close>: no entry is changed and every leased entry stays.
\<close>

definition shrinks :: "cache \<Rightarrow> cache \<Rightarrow> bool" where
  "shrinks s s' \<longleftrightarrow> cache_core s' \<and> ca_bytes_used s' \<le> ca_bytes_used s \<and>
     length (ca_entries s') \<le> length (ca_entries s) \<and>
     (\<forall>k e. dict_get (ca_entries s') k = Some e \<longrightarrow> dict_get (ca_entries s) k = Some e) \<and>
     (\<forall>k e. dict_get (ca_entries s) k = Some e \<and> ce_refcount e \<noteq> 0 \<longrightarrow> dict_get (ca_entries s') k = Some e)"

lemma shrinks_core: "shrinks s t \<Longrightarrow> cache_core t"
  unfolding shrinks_def by (rule conjunct1)

lemma shrinks_get: "shrinks s t \<Longrightarrow> dict_get (ca_entries t) k = Some e \<Longrightarrow> dict_get (ca_entries s) k = Some e"
  unfolding shrinks_def by (elim conjE) blast

lemma shrinks_refl: "cache_core s \<Longrightarrow> shrinks s s"
  by (simp add: shrinks_def)

lemma shrinks_trans: "shrinks s t \<Longrightarrow> shrinks t u \<Longrightarrow> shrinks s u"
  unfolding shrinks_def by (meson order_trans)

lemma shrinks_inv: "cache_inv cfg s \<Longrightarrow> shrinks s t \<Longrightarrow> cache_inv cfg t"
  by (auto simp: cache_inv_def shrinks_def cache_bounded_def)

lemma remove_fields:
  "ca_entries (remove_locked b e s) = dict_pop (ce_entry_id e) (ca_entries s)"
  "ca_index (remove_locked b e s) =
     (if ce_ephemeral e then ca_index s else dict_pop (ce_key e, ce_scope e) (ca_index s))"
  "ca_bytes_used (remove_locked b e s) = ca_bytes_used s - ce_byte_size e"
  by (simp_all add: remove_locked_def Let_def)

lemma core_cong:
  "ca_entries t = ca_entries s \<Longrightarrow> ca_index t = ca_index s \<Longrightarrow> ca_bytes_used t = ca_bytes_used s \<Longrightarrow>
     cache_core t \<longleftrightarrow> cache_core s"
  by (simp add: cache_core_def index_ok_def stored_bytes_def)

lemma shrinks_cong:
  "ca_entries t' = ca_entries t \<Longrightarrow> ca_index t' = ca_index t \<Longrightarrow> ca_bytes_used t' = ca_bytes_used t \<Longrightarrow>
     shrinks s t' \<longleftrightarrow> shrinks s t"
  using core_cong [of t' t] by (simp add: shrinks_def)

lemma remove_index:
  assumes idx: "index_ok s" and e: "dict_get (ca_entries s) k = Some e" and id: "ce_entry_id e = k"
  shows "index_ok (remove_locked b e s)"
  unfolding index_ok_def
proof (intro allI)
  fix key scope k'
  have ix: "dict_get (ca_index s) (key, scope) = Some k' \<longleftrightarrow>
      (\<exists>e. dict_get (ca_entries s) k' = Some e \<and> \<not> ce_ephemeral e \<and> ce_key e = key \<and> ce_scope e = scope)" for key scope k'
    using idx unfolding index_ok_def by blast
  show "dict_get (ca_index (remove_locked b e s)) (key, scope) = Some k' \<longleftrightarrow>
      (\<exists>f. dict_get (ca_entries (remove_locked b e s)) k' = Some f \<and> \<not> ce_ephemeral f \<and>
         ce_key f = key \<and> ce_scope f = scope)"
  proof (cases "k' = k")
    case True
    have "dict_get (ca_index (remove_locked b e s)) (key, scope) \<noteq> Some k"
    proof
      assume got: "dict_get (ca_index (remove_locked b e s)) (key, scope) = Some k"
      then have "dict_get (ca_index s) (key, scope) = Some k" by (simp add: remove_fields split: if_splits)
      with ix e have "\<not> ce_ephemeral e \<and> ce_key e = key \<and> ce_scope e = scope" by auto
      with got show False by (simp add: remove_fields)
    qed
    then show ?thesis using True id by (simp add: remove_fields)
  next
    case False
    have "dict_get (ca_index s) (ce_key e, ce_scope e) \<noteq> Some k'" if "\<not> ce_ephemeral e"
      using ix [of "ce_key e" "ce_scope e" k] e that False by auto
    then have "dict_get (ca_index (remove_locked b e s)) (key, scope) = Some k' \<longleftrightarrow>
        dict_get (ca_index s) (key, scope) = Some k'"
      by (auto simp: remove_fields)
    then show ?thesis using ix False id by (simp add: remove_fields)
  qed
qed

lemma remove_core:
  assumes core: "cache_core s" and e: "dict_get (ca_entries s) k = Some e"
  shows "cache_core (remove_locked b e s)"
proof -
  have id: "ce_entry_id e = k" using cache_core_entry [OF core e] by (simp add: entry_ok_def)
  have d: "distinct (dict_keys (ca_entries s))" and idx: "index_ok s" using core by (simp_all add: cache_core_def)
  have "ca_bytes_used (remove_locked b e s) = stored_bytes (remove_locked b e s)"
    using core sum_values_pop [OF d e, of ce_byte_size] id
    by (simp add: cache_core_def stored_bytes_def remove_fields)
  moreover have "distinct (dict_keys (ca_entries (remove_locked b e s)))"
    unfolding remove_fields by (rule distinct_delete [OF d])
  moreover have "entry_ok j f" if "dict_get (ca_entries (remove_locked b e s)) j = Some f" for j f
    using that cache_core_entry [OF core] by (simp add: remove_fields split: if_splits)
  ultimately show ?thesis using remove_index [OF idx e id] unfolding cache_core_def by blast
qed

lemma remove_shrinks:
  assumes core: "cache_core s" and e: "dict_get (ca_entries s) k = Some e" and zero: "ce_refcount e = 0"
  shows "shrinks s (remove_locked b e s)"
    and "length (ca_entries (remove_locked b e s)) < length (ca_entries s)"
proof -
  have id: "ce_entry_id e = k" and size: "0 < ce_byte_size e"
    using cache_core_entry [OF core e] by (simp_all add: entry_ok_def)
  have "Suc (length (dict_pop k (ca_entries s))) = length (ca_entries s)"
    using od.length_pop [of "ca_entries s" k] core e by (simp add: cache_core_def)
  then show less: "length (ca_entries (remove_locked b e s)) < length (ca_entries s)"
    by (simp add: remove_fields id)
  then show "shrinks s (remove_locked b e s)"
    unfolding shrinks_def using remove_core [OF core e] size zero e id
    by (intro conjI allI impI) (auto simp: remove_fields split: if_splits)
qed

lemma evict_shrinks:
  assumes "cache_core s" and "dict_get (ca_entries s) k = Some e" and "ce_refcount e = 0"
  shows "shrinks s (evict_entry e s)"
    and "length (ca_entries (evict_entry e s)) < length (ca_entries s)"
    and "ca_entries (evict_entry e s) = dict_pop (ce_entry_id e) (ca_entries s)"
proof -
  have same: "ca_entries (evict_entry e s) = ca_entries (remove_locked False e s)"
    "ca_index (evict_entry e s) = ca_index (remove_locked False e s)"
    "ca_bytes_used (evict_entry e s) = ca_bytes_used (remove_locked False e s)"
    by (simp_all add: evict_entry_def Let_def)
  show "shrinks s (evict_entry e s)"
    unfolding shrinks_cong [OF same] by (rule remove_shrinks [OF assms])
  show "length (ca_entries (evict_entry e s)) < length (ca_entries s)"
    unfolding same by (rule remove_shrinks [OF assms])
  show "ca_entries (evict_entry e s) = dict_pop (ce_entry_id e) (ca_entries s)"
    by (simp add: same remove_fields)
qed

text \<open>A loop that removes a snapshot of lease-free entries, one after the other.\<close>

definition removes :: "(cache_entry \<Rightarrow> cache \<Rightarrow> cache) \<Rightarrow> bool" where
  "removes f \<longleftrightarrow> (\<forall>t k e. cache_core t \<longrightarrow> dict_get (ca_entries t) k = Some e \<longrightarrow> ce_refcount e = 0 \<longrightarrow>
     shrinks t (f e t) \<and> ca_entries (f e t) = dict_pop (ce_entry_id e) (ca_entries t))"

lemma removes_ops: "removes evict_entry" "removes (remove_locked b)"
  unfolding removes_def using evict_shrinks remove_shrinks(1) by (auto simp: remove_fields)

lemma fold_shrinks:
  assumes "removes f" and "cache_core s"
    and "\<forall>e\<in>set es. dict_get (ca_entries s) (ce_entry_id e) = Some e \<and> ce_refcount e = 0"
    and "distinct (map ce_entry_id es)"
  shows "shrinks s (fold f es s) \<and>
    (\<forall>k. dict_get (ca_entries (fold f es s)) k =
      (if k \<in> ce_entry_id ` set es then None else dict_get (ca_entries s) k))"
  using assms(2-4)
proof (induction es arbitrary: s)
  case Nil
  then show ?case by (simp add: shrinks_refl)
next
  case (Cons e es)
  have one: "shrinks s (f e s)" and pop: "ca_entries (f e s) = dict_pop (ce_entry_id e) (ca_entries s)"
    using assms(1) Cons.prems unfolding removes_def by (meson list.set_intros(1))+
  have core: "cache_core (f e s)" using one by (simp add: shrinks_def)
  have rest: "\<forall>g\<in>set es. dict_get (ca_entries (f e s)) (ce_entry_id g) = Some g \<and> ce_refcount g = 0"
  proof
    fix g assume g: "g \<in> set es"
    then have "ce_entry_id g \<noteq> ce_entry_id e" using Cons.prems(3) by (metis distinct.simps(2) imageI list.set_map list.simps(9))
    with g Cons.prems(2) show "dict_get (ca_entries (f e s)) (ce_entry_id g) = Some g \<and> ce_refcount g = 0"
      by (simp add: pop)
  qed
  note IH = Cons.IH [OF core rest]
  have d: "distinct (map ce_entry_id es)" using Cons.prems(3) by simp
  show ?case
  proof (intro conjI allI)
    show "shrinks s (fold f (e # es) s)" using shrinks_trans [OF one] IH [OF d] by simp
    show "dict_get (ca_entries (fold f (e # es) s)) k =
      (if k \<in> ce_entry_id ` set (e # es) then None else dict_get (ca_entries s) k)" for k
      using IH [OF d] by (simp add: pop)
  qed
qed

lemma filter_values_ids:
  assumes "cache_core s"
  shows "\<forall>e\<in>set (filter P (dict_values (ca_entries s))). dict_get (ca_entries s) (ce_entry_id e) = Some e"
    and "distinct (map ce_entry_id (filter P (dict_values (ca_entries s))))"
proof -
  show "\<forall>e\<in>set (filter P (dict_values (ca_entries s))). dict_get (ca_entries s) (ce_entry_id e) = Some e"
    using cache_core_value [OF assms] by simp
  have d: "distinct (dict_keys (ca_entries s))" using assms by (simp add: cache_core_def)
  have "map ce_entry_id (dict_values (ca_entries s)) = dict_keys (ca_entries s)"
    using assms d by (auto simp: cache_core_def entry_ok_def)
  with d have "distinct (map ce_entry_id (dict_values (ca_entries s)))" by argo
  then show "distinct (map ce_entry_id (filter P (dict_values (ca_entries s))))"
    by (rule distinct_map_filter)
qed

lemma fold_filter_result:
  assumes "removes f" and "cache_core s" and "\<And>e. P e \<Longrightarrow> ce_refcount e = 0"
  shows "shrinks s (fold f (filter P (dict_values (ca_entries s))) s)"
    and "dict_get (ca_entries (fold f (filter P (dict_values (ca_entries s))) s)) k =
      (case dict_get (ca_entries s) k of Some e \<Rightarrow> if P e then None else Some e | None \<Rightarrow> None)"
proof -
  let ?es = "filter P (dict_values (ca_entries s))"
  note res = fold_shrinks [OF assms(1,2) _ filter_values_ids(2) [OF assms(2)], of P]
  have zero: "\<forall>e\<in>set ?es. dict_get (ca_entries s) (ce_entry_id e) = Some e \<and> ce_refcount e = 0"
    using filter_values_ids(1) [OF assms(2), of P] assms(3) by simp
  show "shrinks s (fold f ?es s)" using res [OF zero] by blast
  have "k \<in> ce_entry_id ` set ?es \<longleftrightarrow> (\<exists>e. dict_get (ca_entries s) k = Some e \<and> P e)"
  proof
    assume "k \<in> ce_entry_id ` set ?es"
    then show "\<exists>e. dict_get (ca_entries s) k = Some e \<and> P e"
      using filter_values_ids(1) [OF assms(2), of P] by auto
  next
    assume "\<exists>e. dict_get (ca_entries s) k = Some e \<and> P e"
    then obtain e where e: "dict_get (ca_entries s) k = Some e" "P e" by blast
    then have "ce_entry_id e = k" using cache_core_entry [OF assms(2)] by (simp add: entry_ok_def)
    moreover have "e \<in> set ?es" using map_of_SomeD [OF e(1)] e(2) by force
    ultimately show "k \<in> ce_entry_id ` set ?es" by blast
  qed
  then show "dict_get (ca_entries (fold f ?es s)) k =
      (case dict_get (ca_entries s) k of Some e \<Rightarrow> if P e then None else Some e | None \<Rightarrow> None)"
    using res [OF zero] by (simp split: option.splits)
qed

lemma prune_result:
  assumes "cache_core s"
  shows "shrinks s (prune_locked now s)"
    and "dict_get (ca_entries (prune_locked now s)) k =
      (case dict_get (ca_entries s) k of
         Some e \<Rightarrow> if ce_refcount e = 0 \<and> ce_expires_at e \<le> now then None else Some e
       | None \<Rightarrow> None)"
  unfolding prune_locked_def by (rule fold_filter_result [OF removes_ops(1) assms], simp)+

text \<open>
  The eviction loop: the fuel is enough, success leaves room for the new entry, and failure
  means that every remaining entry is leased.
\<close>

lemma evict_loop_result:
  assumes "cache_core s" and "length (ca_entries s) < fuel" and "evict_loop fuel cfg n s = (r, s')"
  shows "shrinks s s' \<and>
    (r = Inr () \<and> ca_bytes_used s' + n \<le> cc_byte_budget cfg \<and> int (length (ca_entries s')) < cc_max_entries cfg \<or>
     r = Inl (CacheCapacityError ''cache capacity is pinned by active leases'') \<and>
       (\<forall>e\<in>set (dict_values (ca_entries s')). ce_refcount e \<noteq> 0) \<and>
       (cc_byte_budget cfg < ca_bytes_used s' + n \<or> cc_max_entries cfg \<le> int (length (ca_entries s'))))"
  using assms
proof (induction fuel cfg n s rule: evict_loop.induct)
  case (1 cfg n s)
  then show ?case by simp
next
  case (2 fuel cfg n s)
  let ?full = "cc_byte_budget cfg < ca_bytes_used s + n \<or> cc_max_entries cfg \<le> int (length (ca_entries s))"
  let ?free = "filter (\<lambda>e. ce_refcount e = 0) (dict_values (ca_entries s))"
  let ?pick = "min_by (\<lambda>e. (ce_last_access e, ce_created_at e)) ?free"
  show ?case
  proof (cases ?full)
    case False
    with 2(4) have "r = Inr ()" "s' = s" by (auto simp: not_less not_le)
    with False show ?thesis using shrinks_refl [OF 2(2)] by (simp add: not_less not_le)
  next
    case full: True
    show ?thesis
    proof (cases ?pick)
      case None
      then have "?free = []" by simp
      then have "\<forall>e\<in>set (dict_values (ca_entries s)). ce_refcount e \<noteq> 0" by (simp add: filter_empty_conv)
      moreover have "r = Inl (CacheCapacityError ''cache capacity is pinned by active leases'')" "s' = s"
        using 2(4) full None by simp_all
      ultimately show ?thesis using shrinks_refl [OF 2(2)] full by simp
    next
      case (Some v)
      have v: "ce_refcount v = 0" "dict_get (ca_entries s) (ce_entry_id v) = Some v"
        using min_by_mem [OF Some] cache_core_value [OF 2(2)] by simp_all
      note ev = evict_shrinks [OF 2(2) v(2,1)]
      have core: "cache_core (evict_entry v s)" using ev(1) by (simp add: shrinks_def)
      have "evict_loop fuel cfg n (evict_entry v s) = (r, s')" using 2(4) full Some by simp
      from 2(1) [OF full Some core _ this] ev(2) 2(3) shrinks_trans [OF ev(1)] show ?thesis by auto
    qed
  qed
qed

lemma ensure_capacity_result:
  assumes "cache_core s" and "ensure_capacity_locked cfg n now s = (r, s')"
  shows "shrinks s s' \<and>
    (r = Inr () \<and> ca_bytes_used s' + n \<le> cc_byte_budget cfg \<and> int (length (ca_entries s')) < cc_max_entries cfg \<or>
     r = Inl (CacheCapacityError ''cache capacity is pinned by active leases'') \<and>
       (\<forall>e\<in>set (dict_values (ca_entries s')). ce_refcount e \<noteq> 0) \<and>
       (cc_byte_budget cfg < ca_bytes_used s' + n \<or> cc_max_entries cfg \<le> int (length (ca_entries s'))))"
proof -
  have p: "shrinks s (prune_locked now s)" by (rule prune_result(1) [OF assms(1)])
  then have "cache_core (prune_locked now s)" by (simp add: shrinks_def)
  from evict_loop_result [OF this, of "Suc (length (ca_entries (prune_locked now s)))"] assms(2)
  show ?thesis using shrinks_trans [OF p] by (auto simp: ensure_capacity_locked_def Let_def)
qed

section \<open>Every operation keeps the invariant\<close>

text \<open>The three ways an operation changes an entry: a new entry, a new clone, and a changed lease count.\<close>

lemma insert_core:
  assumes core: "cache_core s" and fresh: "dict_get (ca_entries s) uid = None"
    and new: "dict_get (ca_index s) (key, scope) = None" and "payload \<noteq> []"
  shows "cache_core (insert_entry cfg uid key scope payload now s)"
proof -
  let ?t = "insert_entry cfg uid key scope payload now s"
  have "index_ok ?t"
    unfolding index_ok_def
  proof (intro allI)
    fix key' scope' k'
    have ix: "dict_get (ca_index s) (key', scope') = Some k' \<longleftrightarrow>
      (\<exists>e. dict_get (ca_entries s) k' = Some e \<and> \<not> ce_ephemeral e \<and> ce_key e = key' \<and> ce_scope e = scope')"
      using core unfolding cache_core_def index_ok_def by blast
    show "dict_get (ca_index ?t) (key', scope') = Some k' \<longleftrightarrow>
      (\<exists>e. dict_get (ca_entries ?t) k' = Some e \<and> \<not> ce_ephemeral e \<and> ce_key e = key' \<and> ce_scope e = scope')"
      using ix fresh new by (cases "k' = uid"; cases "(key', scope') = (key, scope)") (auto simp: insert_entry_def)
  qed
  moreover have "ca_bytes_used ?t = stored_bytes ?t"
    using core sum_values_set_new [OF fresh, of ce_byte_size]
    by (simp add: insert_entry_def stored_bytes_def cache_core_def)
  moreover have "entry_ok k e" if "dict_get (ca_entries ?t) k = Some e" for k e
    using that cache_core_entry [OF core, of k e] assms(4)
    by (cases "k = uid") (auto simp: insert_entry_def entry_ok_def [of uid])
  moreover have "distinct (dict_keys (ca_entries ?t))"
    using core by (simp add: insert_entry_def cache_core_def distinct_update)
  ultimately show ?thesis unfolding cache_core_def by blast
qed

definition same_content :: "cache_entry \<Rightarrow> cache_entry \<Rightarrow> bool" where
  "same_content e f \<longleftrightarrow> ce_entry_id f = ce_entry_id e \<and> ce_generation f = ce_generation e \<and>
     ce_key f = ce_key e \<and> ce_scope f = ce_scope e \<and> ce_payload f = ce_payload e \<and>
     ce_byte_size f = ce_byte_size e \<and> ce_ephemeral f = ce_ephemeral e"

lemma update_core:
  assumes core: "cache_core s" and e: "dict_get (ca_entries s) k = Some e" and same: "same_content e f"
    and ref: "0 \<le> ce_refcount f" "ce_ephemeral f \<longrightarrow> 0 < ce_refcount f"
  shows "cache_core (s\<lparr>ca_entries := dict_set k f (ca_entries s)\<rparr>)"
    and "length (dict_set k f (ca_entries s)) = length (ca_entries s)"
proof -
  let ?t = "s\<lparr>ca_entries := dict_set k f (ca_entries s)\<rparr>"
  have d: "distinct (dict_keys (ca_entries s))" and idx: "index_ok s" and bytes: "ca_bytes_used s = stored_bytes s"
    using core by (simp_all add: cache_core_def)
  have "index_ok ?t"
    using idx e same unfolding index_ok_def same_content_def by auto
  moreover have "ca_bytes_used ?t = stored_bytes ?t"
    using bytes sum_values_set_old [OF d e, of ce_byte_size f] same
    by (simp add: stored_bytes_def same_content_def)
  moreover have "entry_ok j g" if "dict_get (ca_entries ?t) j = Some g" for j g
  proof (cases "j = k")
    case True
    with that ref same cache_core_entry [OF core e] show ?thesis by (simp add: entry_ok_def same_content_def)
  next
    case False
    with that cache_core_entry [OF core] show ?thesis by simp
  qed
  moreover have "distinct (dict_keys (ca_entries ?t))" using d by (simp add: distinct_update)
  ultimately show "cache_core ?t" unfolding cache_core_def by blast
  show "length (dict_set k f (ca_entries s)) = length (ca_entries s)"
    using od.length_set_old [OF d, of k f] e by simp
qed

lemma clone_core:
  assumes core: "cache_core s" and fresh: "dict_get (ca_entries s) (ce_entry_id c) = None"
    and ok: "entry_ok (ce_entry_id c) c" "ce_ephemeral c"
  shows "cache_core (add_clone c s)"
proof -
  let ?t = "add_clone c s"
  have "index_ok ?t"
    using core fresh ok(2) unfolding cache_core_def index_ok_def add_clone_def by auto
  moreover have "ca_bytes_used ?t = stored_bytes ?t"
    using core sum_values_set_new [OF fresh, of ce_byte_size c]
    by (simp add: add_clone_def stored_bytes_def cache_core_def)
  moreover have "entry_ok k e" if "dict_get (ca_entries ?t) k = Some e" for k e
    using that cache_core_entry [OF core] ok(1) by (auto simp: add_clone_def split: if_splits)
  moreover have "distinct (dict_keys (ca_entries ?t))"
    using core by (simp add: add_clone_def cache_core_def distinct_update)
  ultimately show ?thesis unfolding cache_core_def by blast
qed

text \<open>
  What a step keeps of the entries: a leased entry stays leased with the same content.
\<close>

definition keeps :: "string \<Rightarrow> cache \<Rightarrow> cache \<Rightarrow> bool" where
  "keeps k s t \<longleftrightarrow> (\<forall>e. dict_get (ca_entries s) k = Some e \<and> ce_refcount e \<noteq> 0 \<longrightarrow>
     (\<exists>f. dict_get (ca_entries t) k = Some f \<and> same_content e f \<and> ce_refcount f \<noteq> 0))"

lemma same_content_refl [simp]: "same_content e e"
  by (simp add: same_content_def)

lemma same_content_trans: "same_content e f \<Longrightarrow> same_content f g \<Longrightarrow> same_content e g"
  by (simp add: same_content_def)

lemma keeps_trans: "keeps k s t \<Longrightarrow> keeps k t u \<Longrightarrow> keeps k s u"
  unfolding keeps_def by (meson same_content_trans)

lemma shrinks_keeps: "shrinks s t \<Longrightarrow> keeps k s t"
  unfolding shrinks_def keeps_def by (meson same_content_refl)

lemma shrinks_fresh: "shrinks s t \<Longrightarrow> dict_get (ca_entries s) k = None \<Longrightarrow> dict_get (ca_entries t) k = None"
  by (cases "dict_get (ca_entries t) k") (auto dest: shrinks_get)

lemma core_index:
  "cache_core s \<Longrightarrow> dict_get (ca_index s) (key, scope) = Some k \<longleftrightarrow>
     (\<exists>e. dict_get (ca_entries s) k = Some e \<and> \<not> ce_ephemeral e \<and> ce_key e = key \<and> ce_scope e = scope)"
  unfolding cache_core_def index_ok_def by blast

lemma shrinks_index:
  assumes "shrinks s t" and "cache_core s" and "dict_get (ca_index s) ks = None"
  shows "dict_get (ca_index t) ks = None"
proof (rule ccontr)
  obtain key scope where ks: "ks = (key, scope)" by fastforce
  assume "dict_get (ca_index t) ks \<noteq> None"
  then obtain k where "dict_get (ca_index t) (key, scope) = Some k" by (auto simp: ks)
  then obtain e where "dict_get (ca_entries t) k = Some e" "\<not> ce_ephemeral e" "ce_key e = key" "ce_scope e = scope"
    using core_index [OF shrinks_core [OF assms(1)]] by auto
  moreover from this have "dict_get (ca_entries s) k = Some e" using shrinks_get [OF assms(1)] by blast
  ultimately have "dict_get (ca_index s) (key, scope) = Some k"
    using core_index [OF assms(2)] by blast
  with assms(3) show False by (simp add: ks)
qed

lemma replace_existing_result:
  assumes core: "cache_core s" and res: "replace_existing (key, scope) s = (r, t)"
  shows "shrinks s t" and "r = Inr () \<Longrightarrow> dict_get (ca_index t) (key, scope) = None"
    and "r \<noteq> Inr () \<Longrightarrow> t = s \<and> r = Inl (CacheCapacityError ''cannot replace a leased cache entry'') \<and>
      (\<exists>k e. dict_get (ca_entries s) k = Some e \<and> ce_refcount e \<noteq> 0)"
proof -
  have "shrinks s t \<and> (r = Inr () \<and> dict_get (ca_index t) (key, scope) = None \<or>
      t = s \<and> r = Inl (CacheCapacityError ''cannot replace a leased cache entry'') \<and>
      (\<exists>k e. dict_get (ca_entries s) k = Some e \<and> ce_refcount e \<noteq> 0))"
  proof (cases "dict_get (ca_index s) (key, scope)")
    case None
    then show ?thesis using res shrinks_refl [OF core] by (auto simp: replace_existing_def)
  next
    case (Some k)
    then obtain e where e: "dict_get (ca_entries s) k = Some e" "\<not> ce_ephemeral e" "ce_key e = key" "ce_scope e = scope"
      using core_index [OF core] by blast
    show ?thesis
    proof (cases "ce_refcount e = 0")
      case True
      then have "r = Inr ()" "t = remove_locked True e s" using res Some e(1) by (simp_all add: replace_existing_def)
      then show ?thesis using remove_shrinks(1) [OF core e(1) True] e by (simp add: remove_fields)
    next
      case False
      then show ?thesis using res Some e(1) shrinks_refl [OF core] by (auto simp: replace_existing_def)
    qed
  qed
  then show "shrinks s t" "r = Inr () \<Longrightarrow> dict_get (ca_index t) (key, scope) = None"
    "r \<noteq> Inr () \<Longrightarrow> t = s \<and> r = Inl (CacheCapacityError ''cannot replace a leased cache entry'') \<and>
      (\<exists>k e. dict_get (ca_entries s) k = Some e \<and> ce_refcount e \<noteq> 0)"
    by auto
qed

text \<open>The public operations.\<close>

lemma put_cases:
  assumes "put cfg clock uid key scope payload s = (r, t)"
  obtains (early) e where "t = s" "r = Inl e"
      "rbind (validate_values cfg payload) (\<lambda>_. clock_now clock) = Inl e"
  | (leased) e now where "clock_now clock = Inr now" "r = Inl e"
      "replace_existing (key, scope) (prune_locked now s) = (Inl e, t)"
  | (pinned) e now s1 where "clock_now clock = Inr now" "r = Inl e"
      "replace_existing (key, scope) (prune_locked now s) = (Inr (), s1)"
      "ensure_capacity_locked cfg (int (length payload)) now s1 = (Inl e, t)"
  | (stored) now s1 s2 where "validate_values cfg payload = Inr ()" "clock_now clock = Inr now" "r = Inr uid"
      "replace_existing (key, scope) (prune_locked now s) = (Inr (), s1)"
      "ensure_capacity_locked cfg (int (length payload)) now s1 = (Inr (), s2)"
      "t = insert_entry cfg uid key scope payload now s2"
proof (cases "rbind (validate_values cfg payload) (\<lambda>_. clock_now clock)")
  case (Inl e)
  with assms show ?thesis by (intro early [of e]) (auto simp: put_def)
next
  case (Inr now)
  then have v: "validate_values cfg payload = Inr ()" "clock_now clock = Inr now" by auto
  obtain r1 s1 where r1: "replace_existing (key, scope) (prune_locked now s) = (r1, s1)" by fastforce
  obtain r2 s2 where r2: "ensure_capacity_locked cfg (int (length payload)) now s1 = (r2, s2)" by fastforce
  show ?thesis
    using assms Inr v r1 r2 leased [OF v(2)] pinned [OF v(2)] stored [OF v]
    by (cases r1; cases r2) (auto simp: put_def)
qed

lemma prune_replace:
  assumes "cache_core s" and "replace_existing (key, scope) (prune_locked now s) = (r, t)"
  shows "shrinks s t" and "cache_core t"
    and "r = Inr () \<Longrightarrow> dict_get (ca_index t) (key, scope) = None"
proof -
  have p: "shrinks s (prune_locked now s)" by (rule prune_result(1) [OF assms(1)])
  then have core: "cache_core (prune_locked now s)" by (simp add: shrinks_def)
  note rep = replace_existing_result [OF core assms(2)]
  show "shrinks s t" by (rule shrinks_trans [OF p rep(1)])
  then show "cache_core t" by (simp add: shrinks_def)
  show "r = Inr () \<Longrightarrow> dict_get (ca_index t) (key, scope) = None" by (rule rep(2))
qed

lemma put_stored:
  assumes core: "cache_core s" and fresh: "dict_get (ca_entries s) uid = None"
    and v: "validate_values cfg payload = Inr ()"
    and r: "replace_existing (key, scope) (prune_locked now s) = (Inr (), s1)"
    and c: "ensure_capacity_locked cfg (int (length payload)) now s1 = (Inr (), s2)"
  shows "shrinks s s2" and "cache_inv cfg (insert_entry cfg uid key scope payload now s2)"
    and "dict_get (ca_entries s2) uid = None" and "dict_get (ca_index s2) (key, scope) = None"
proof -
  note pr = prune_replace [OF core r]
  note cap = ensure_capacity_result [OF pr(2) c]
  show sh: "shrinks s s2" using shrinks_trans [OF pr(1)] cap by blast
  show none: "dict_get (ca_entries s2) uid = None" by (rule shrinks_fresh [OF sh fresh])
  show index: "dict_get (ca_index s2) (key, scope) = None"
    using shrinks_index [OF _ pr(2) pr(3)] cap by blast
  have "payload \<noteq> []" using v by (auto simp: validate_values_def split: if_splits)
  then have "cache_core (insert_entry cfg uid key scope payload now s2)"
    using insert_core [OF _ none index] sh by (simp add: shrinks_def)
  moreover have "length (dict_set uid x (ca_entries s2)) = Suc (length (ca_entries s2))" for x
    using none by (simp add: set_new_append)
  ultimately show "cache_inv cfg (insert_entry cfg uid key scope payload now s2)"
    using cap by (auto simp: cache_inv_def cache_bounded_def insert_entry_def)
qed

lemma put_step:
  assumes inv: "cache_inv cfg s" and fresh: "dict_get (ca_entries s) uid = None"
    and put: "put cfg clock uid key scope payload s = (r, t)"
  shows "cache_inv cfg t \<and> keeps k s t"
proof -
  have core: "cache_core s" using inv by (simp add: cache_inv_def)
  from put show ?thesis
  proof (cases rule: put_cases)
    case early
    then show ?thesis using inv shrinks_keeps [OF shrinks_refl [OF core]] by simp
  next
    case (leased e now)
    from prune_replace(1) [OF core leased(3)] show ?thesis using shrinks_inv [OF inv] shrinks_keeps by blast
  next
    case (pinned e now s1)
    have "shrinks s t"
      using shrinks_trans [OF prune_replace(1) [OF core pinned(3)]]
        ensure_capacity_result [OF prune_replace(2) [OF core pinned(3)] pinned(4)] by blast
    then show ?thesis using shrinks_inv [OF inv] shrinks_keeps by blast
  next
    case (stored now s1 s2)
    note st = put_stored [OF core fresh stored(1,4,5)]
    have "keeps k s2 t" using st(3) by (auto simp: keeps_def stored(6) insert_entry_def)
    then show ?thesis using st(2) keeps_trans [OF shrinks_keeps [OF st(1)]] stored(6) by simp
  qed
qed

lemma release_step:
  assumes inv: "cache_inv cfg s" and rel: "release_lease lease s = (b, t)"
  shows "cache_inv cfg t" and "le_entry_id lease \<noteq> k \<Longrightarrow> keeps k s t"
proof -
  have core: "cache_core s" using inv by (simp add: cache_inv_def)
  have "cache_inv cfg t \<and> (le_entry_id lease \<noteq> k \<longrightarrow> keeps k s t)"
  proof (cases "b")
    case False
    then have "t = s" using rel by (auto simp: release_lease_def Let_def split: option.splits if_splits)
    then show ?thesis using inv shrinks_keeps [OF shrinks_refl [OF core]] by simp
  next
    case True
    let ?k = "le_entry_id lease"
    from True rel obtain e where e: "dict_get (ca_entries s) ?k = Some e" and ref: "ce_refcount e \<noteq> 0"
      and t: "t = (let e1 = e\<lparr>ce_refcount := ce_refcount e - 1\<rparr>;
                 s1 = s\<lparr>ca_entries := dict_set ?k e1 (ca_entries s)\<rparr> in
             if ce_ephemeral e1 \<and> ce_refcount e1 = 0 then remove_locked False e1 s1 else s1)"
      by (auto simp: release_lease_def Let_def split: option.splits if_splits)
    let ?e1 = "e\<lparr>ce_refcount := ce_refcount e - 1\<rparr>"
    let ?s1 = "s\<lparr>ca_entries := dict_set ?k ?e1 (ca_entries s)\<rparr>"
    have ok: "ce_entry_id e = ?k" "0 < ce_refcount e" "0 \<le> ce_byte_size e"
      using cache_core_entry [OF core e] ref by (auto simp: entry_ok_def)
    show ?thesis
    proof (cases "ce_ephemeral e \<and> ce_refcount e = 1")
      case False
      then have t: "t = ?s1" by (auto simp: t Let_def)
      have "same_content e ?e1" by (simp add: same_content_def)
      from update_core [OF core e this] False ok(2) inv show ?thesis
        by (auto simp: t cache_inv_def cache_bounded_def keeps_def)
    next
      case True
      then have "t = remove_locked False ?e1 ?s1" by (simp add: t Let_def)
      moreover have "remove_locked False ?e1 ?s1 = remove_locked False e s"
        using True ok(1) by (simp add: remove_locked_def Let_def delete_update_same)
      ultimately have t: "t = remove_locked False e s" by simp
      have "length (dict_pop ?k (ca_entries s)) \<le> length (ca_entries s)" by (simp add: pop_filter)
      then show ?thesis
        using remove_core [OF core e, of False] inv ok
        by (auto simp: t cache_inv_def cache_bounded_def remove_fields keeps_def)
    qed
  qed
  then show "cache_inv cfg t" "le_entry_id lease \<noteq> k \<Longrightarrow> keeps k s t" by auto
qed

lemma acquire_cases:
  assumes "acquire cfg clock uid key requester mutable s = (r, t)"
  obtains (early) e where "t = s" "r = Inl e"
  | (miss) now where "clock_now clock = Inr now" "r = Inr None"
      "pick_entry key requester (prune_locked now s) = None"
      "ca_entries t = ca_entries (prune_locked now s)" "ca_index t = ca_index (prune_locked now s)"
      "ca_bytes_used t = ca_bytes_used (prune_locked now s)"
  | (pinned) now entry e where "clock_now clock = Inr now" "r = Inl e"
      "pick_entry key requester (prune_locked now s) = Some entry"
      "ensure_capacity_locked cfg (ce_byte_size entry) now (prune_locked now s) = (Inl e, t)"
  | (cloned) now entry s2 where "clock_now clock = Inr now"
      "pick_entry key requester (prune_locked now s) = Some entry" "mutable" "0 < ce_refcount entry"
      "ensure_capacity_locked cfg (ce_byte_size entry) now (prune_locked now s) = (Inr (), s2)"
      "r = Inr (Some (lease_of (clone_entry cfg uid requester now entry) mutable True))"
      "t = count_hit key (add_clone (clone_entry cfg uid requester now entry) s2)"
  | (touched) now entry where "clock_now clock = Inr now"
      "pick_entry key requester (prune_locked now s) = Some entry" "\<not> (mutable \<and> 0 < ce_refcount entry)"
      "r = Inr (Some (lease_of (touch_entry cfg now entry) mutable False))"
      "t = count_hit key ((prune_locked now s)\<lparr>ca_entries :=
         dict_set (ce_entry_id entry) (touch_entry cfg now entry) (ca_entries (prune_locked now s))\<rparr>)"
proof (cases "(mutable \<and> ck_kind key = PREFIX) \<or> (\<exists>e. clock_now clock = Inl e)")
  case True
  with assms have "t = s \<and> (\<exists>e. r = Inl e)"
    by (cases "mutable \<and> ck_kind key = PREFIX") (auto simp: acquire_def)
  then show ?thesis using early by blast
next
  case False
  then obtain now where now: "clock_now clock = Inr now" by (cases "clock_now clock") auto
  let ?s1 = "prune_locked now s"
  show ?thesis
  proof (cases "pick_entry key requester ?s1")
    case None
    with assms False now show ?thesis by (intro miss [OF now]) (auto simp: acquire_def Let_def)
  next
    case (Some entry)
    obtain r2 s2 where c: "ensure_capacity_locked cfg (ce_byte_size entry) now ?s1 = (r2, s2)" by fastforce
    show ?thesis
    proof (cases "mutable \<and> 0 < ce_refcount entry")
      case True
      then show ?thesis
        using assms False now Some c pinned [OF now _ Some] cloned [OF now Some]
        by (cases r2) (auto simp: acquire_def Let_def)
    next
      case no: False
      with assms False now Some show ?thesis by (intro touched [OF now Some no]) (auto simp: acquire_def Let_def)
    qed
  qed
qed

lemma pick_entry_Some:
  assumes "pick_entry key requester s = Some e"
  shows "e \<in> set (dict_values (ca_entries s))" and "\<not> ce_ephemeral e" and "ce_key e = key"
    and "allows (ce_scope e) requester"
  using min_by_mem [OF assms [unfolded pick_entry_def]] by (auto simp: matching_entries_def)

lemma count_hit_fields [simp]:
  "ca_entries (count_hit key s) = ca_entries s" "ca_index (count_hit key s) = ca_index s"
  "ca_bytes_used (count_hit key s) = ca_bytes_used s"
  by (simp_all add: count_hit_def)

lemma inv_cong:
  "ca_entries t = ca_entries s \<Longrightarrow> ca_index t = ca_index s \<Longrightarrow> ca_bytes_used t = ca_bytes_used s \<Longrightarrow>
     cache_inv cfg t \<longleftrightarrow> cache_inv cfg s"
  using core_cong [of t s] by (simp add: cache_inv_def cache_bounded_def)

lemma keeps_cong: "ca_entries t' = ca_entries t \<Longrightarrow> keeps k s t' \<longleftrightarrow> keeps k s t"
  by (simp add: keeps_def)

lemma acquire_step:
  assumes inv: "cache_inv cfg s" and fresh: "dict_get (ca_entries s) uid = None"
    and acq: "acquire cfg clock uid key requester mutable s = (r, t)"
  shows "cache_inv cfg t \<and> keeps k s t"
proof -
  have core: "cache_core s" using inv by (simp add: cache_inv_def)
  have pr: "shrinks s (prune_locked now s)" for now by (rule prune_result(1) [OF core])
  note pcore = shrinks_core [OF pr] and pinv = shrinks_inv [OF inv pr] and pkeeps = shrinks_keeps [OF pr]
  from acq show ?thesis
  proof (cases rule: acquire_cases)
    case early
    then show ?thesis using inv shrinks_keeps [OF shrinks_refl [OF core]] by simp
  next
    case (miss now)
    then show ?thesis using pinv [of now] pkeeps [of k now] inv_cong [OF miss(4-6)] keeps_cong [OF miss(4)] by blast
  next
    case (pinned now entry e)
    have "shrinks s t" using shrinks_trans [OF pr] ensure_capacity_result [OF pcore pinned(4)] by blast
    then show ?thesis using shrinks_inv [OF inv] shrinks_keeps by blast
  next
    case (cloned now entry s2)
    let ?c = "clone_entry cfg uid requester now entry"
    note cap = ensure_capacity_result [OF pcore cloned(5)]
    have sh: "shrinks s s2" using shrinks_trans [OF pr] cap by blast
    have none: "dict_get (ca_entries s2) uid = None" by (rule shrinks_fresh [OF sh fresh])
    have "entry_ok (ce_entry_id entry) entry"
      using cache_core_entry [OF pcore cache_core_value [OF pcore pick_entry_Some(1) [OF cloned(2)]]] .
    then have "cache_core (add_clone ?c s2)"
      using none by (intro clone_core [OF shrinks_core [OF sh]]) (auto simp: clone_entry_def entry_ok_def)
    moreover have "length (dict_set uid ?c (ca_entries s2)) = Suc (length (ca_entries s2))"
      using none by (simp add: set_new_append)
    moreover have "ce_entry_id ?c = uid" "ce_byte_size ?c = ce_byte_size entry" by (simp_all add: clone_entry_def)
    ultimately have "cache_inv cfg (add_clone ?c s2)"
      using cap by (auto simp: cache_inv_def cache_bounded_def add_clone_def)
    then have "cache_inv cfg t" unfolding cloned(7) using inv_cong [OF count_hit_fields] by blast
    moreover have "keeps k s2 t" using none by (auto simp: cloned(7) keeps_def add_clone_def clone_entry_def)
    ultimately show ?thesis using keeps_trans [OF shrinks_keeps [OF sh]] by blast
  next
    case (touched now entry)
    let ?s1 = "prune_locked now s" and ?e = "touch_entry cfg now entry"
    have e: "dict_get (ca_entries ?s1) (ce_entry_id entry) = Some entry"
      by (rule cache_core_value [OF pcore pick_entry_Some(1) [OF touched(2)]])
    have same: "same_content entry ?e" by (simp add: same_content_def touch_entry_def)
    have ref: "0 \<le> ce_refcount entry" "0 \<le> ce_refcount ?e" "ce_ephemeral ?e \<longrightarrow> 0 < ce_refcount ?e"
      using cache_core_entry [OF pcore e] by (auto simp: entry_ok_def touch_entry_def)
    note up = update_core [OF pcore e same ref(2,3)]
    have "cache_inv cfg (?s1\<lparr>ca_entries := dict_set (ce_entry_id entry) ?e (ca_entries ?s1)\<rparr>)"
      using up pinv [of now] by (simp add: cache_inv_def cache_bounded_def)
    then have "cache_inv cfg t" unfolding touched(5) using inv_cong [OF count_hit_fields] by blast
    moreover have "keeps k ?s1 t"
      using e same ref by (auto simp: touched(5) keeps_def touch_entry_def)
    ultimately show ?thesis using keeps_trans [OF pkeeps] by blast
  qed
qed

lemma invalidate_step:
  assumes inv: "cache_inv cfg s" and "invalidate tenant kind ns s = (r, t)"
  shows "cache_inv cfg t \<and> keeps k s t"
proof (cases "identifier_field tenant ''tenant_id''")
  case Inl
  then show ?thesis
    using assms shrinks_keeps [OF shrinks_refl, of s k] by (simp add: invalidate_def cache_inv_def)
next
  case (Inr tn)
  let ?P = "\<lambda>e. cs_tenant_id (ce_scope e) = tn \<and> (kind = None \<or> kind = Some (ck_kind (ce_key e))) \<and>
      (ns = None \<or> ns = Some (ck_namespace (ce_key e))) \<and> ce_refcount e = 0"
  have "t = fold (remove_locked True) (filter ?P (dict_values (ca_entries s))) s"
    using assms(2) Inr by (auto simp: invalidate_def Let_def)
  moreover have "shrinks s (fold (remove_locked True) (filter ?P (dict_values (ca_entries s))) s)"
    using inv by (intro fold_filter_result(1) [OF removes_ops(2)]) (auto simp: cache_inv_def)
  ultimately show ?thesis using shrinks_inv [OF inv] shrinks_keeps by blast
qed

lemma prune_step:
  assumes inv: "cache_inv cfg s" and "prune clock s = (r, t)"
  shows "cache_inv cfg t \<and> keeps k s t"
proof -
  have core: "cache_core s" using inv by (simp add: cache_inv_def)
  have "shrinks s t"
    using assms(2) prune_result(1) [OF core] shrinks_refl [OF core]
    by (auto simp: prune_def Let_def split: sum.splits)
  then show ?thesis using shrinks_inv [OF inv] shrinks_keeps by blast
qed

lemma commit_step:
  assumes inv: "cache_inv cfg s" and fresh: "dict_get (ca_entries s) uid = None"
    and com: "commit_session cfg clock uid lease key payload scope s = (r, t)"
  shows "cache_inv cfg t" and "le_entry_id lease \<noteq> k \<Longrightarrow> keeps k s t"
proof -
  obtain r1 s1 where p: "put cfg clock uid key scope payload s = (r1, s1)" by fastforce
  note ps = put_step [OF inv fresh p]
  have s: "t = s \<or> t = s1 \<or> t = snd (release_lease lease s1)"
    using com p by (auto simp: commit_session_def split: if_splits sum.splits)
  obtain b where rel: "release_lease lease s1 = (b, snd (release_lease lease s1))" by (metis prod.collapse)
  have k: "keeps k s s" using inv shrinks_keeps [OF shrinks_refl] by (simp add: cache_inv_def)
  note rs = release_step [OF conjunct1 [OF ps] rel]
  show "cache_inv cfg t" using s inv ps rs(1) by metis
  show "keeps k s t" if "le_entry_id lease \<noteq> k"
    using s k ps rs(2) [OF that] keeps_trans by metis
qed

section \<open>The cache as a state machine\<close>

text \<open>
  Every call, successful or not. Ids drawn by \<open>uuid4\<close> are fresh. \<open>released\<close> restricts the leases
  that the callers give back.
\<close>

inductive cache_step :: "cache_config \<Rightarrow> (CacheLease \<Rightarrow> bool) \<Rightarrow> cache \<Rightarrow> cache \<Rightarrow> bool"
  for cfg :: cache_config and released :: "CacheLease \<Rightarrow> bool" where
  step_put: "dict_get (ca_entries s) uid = None \<Longrightarrow> put cfg clock uid key scope payload s = (r, t) \<Longrightarrow>
    cache_step cfg released s t"
| step_acquire: "dict_get (ca_entries s) uid = None \<Longrightarrow>
    acquire cfg clock uid key requester mutable s = (r', t) \<Longrightarrow> cache_step cfg released s t"
| step_release: "released lease \<Longrightarrow> release_lease lease s = (b, t) \<Longrightarrow> cache_step cfg released s t"
| step_commit: "released lease \<Longrightarrow> dict_get (ca_entries s) uid = None \<Longrightarrow>
    commit_session cfg clock uid lease key payload scope s = (r, t) \<Longrightarrow> cache_step cfg released s t"
| step_invalidate: "invalidate tenant kind ns s = (n, t) \<Longrightarrow> cache_step cfg released s t"
| step_prune: "prune clock s = (m, t) \<Longrightarrow> cache_step cfg released s t"

lemma cache_step_keeps:
  assumes "cache_step cfg (\<lambda>l. le_entry_id l \<noteq> k) s t" and "cache_inv cfg s"
  shows "keeps k s t"
  using assms
  by cases (auto dest: put_step acquire_step release_step(2) commit_step(2) invalidate_step prune_step)

definition cache_start :: "cache_config \<Rightarrow> cache \<Rightarrow> bool" where
  "cache_start cfg s \<longleftrightarrow> s = empty_cache \<and> 0 < cc_byte_budget cfg \<and> 0 < cc_max_entries cfg"

interpretation state_cache: invariant_system "cache_start cfg" "cache_step cfg released" "cache_inv cfg"
  for cfg :: cache_config and released :: "CacheLease \<Rightarrow> bool"
proof
  show "cache_start cfg s \<Longrightarrow> cache_inv cfg s" for s
    by (auto simp: cache_start_def empty_cache_def cache_inv_def cache_core_def cache_bounded_def index_ok_def stored_bytes_def)
  show "cache_inv cfg t" if inv: "cache_inv cfg s" and step: "cache_step cfg released s t" for s t
    using step
  proof cases
    case step_put
    then show ?thesis using put_step [OF inv] by blast
  next
    case step_acquire
    then show ?thesis using acquire_step [OF inv] by blast
  next
    case step_release
    then show ?thesis using release_step(1) [OF inv] by blast
  next
    case step_commit
    then show ?thesis using commit_step(1) [OF inv] by blast
  next
    case step_invalidate
    then show ?thesis using invalidate_step [OF inv] by blast
  next
    case step_prune
    then show ?thesis using prune_step [OF inv] by blast
  qed
qed

text \<open>
  C14: In every reachable state the byte counter is the exact sum of the stored payload sizes, the
  byte budget and the entry limit hold, and the index names exactly the entries that can be found:
  one per key and scope, never a copy-on-write clone.
\<close>

theorem cache_accounting:
  assumes "reach (cache_start cfg) (cache_step cfg released) s"
  shows "ca_bytes_used s = sum_list (map (\<lambda>e. int (length (ce_payload e))) (dict_values (ca_entries s))) \<and>
    ca_bytes_used s \<le> cc_byte_budget cfg \<and> int (length (ca_entries s)) \<le> cc_max_entries cfg \<and>
    (\<forall>key scope k. dict_get (ca_index s) (key, scope) = Some k \<longleftrightarrow>
       (\<exists>e. dict_get (ca_entries s) k = Some e \<and> \<not> ce_ephemeral e \<and> ce_key e = key \<and> ce_scope e = scope))"
proof -
  have inv: "cache_core s" "cache_bounded cfg s"
    using state_cache.inv_reach [OF assms] by (simp_all add: cache_inv_def)
  have "map (\<lambda>e. int (length (ce_payload e))) (dict_values (ca_entries s)) =
      map ce_byte_size (dict_values (ca_entries s))"
    using cache_core_entry [OF inv(1) cache_core_value [OF inv(1)]] by (auto simp: entry_ok_def)
  then have "ca_bytes_used s = sum_list (map (\<lambda>e. int (length (ce_payload e))) (dict_values (ca_entries s)))"
    using inv(1) unfolding cache_core_def stored_bytes_def by argo
  then show ?thesis using core_index [OF inv(1)] inv(2) unfolding cache_bounded_def by blast
qed

text \<open>
  C9: A lease is stable: as long as nobody gives back a lease on the same entry, no sequence of
  puts, acquisitions, commits, invalidations, prunes and evictions changes what the lease reads.
\<close>

theorem lease_stable:
  assumes "reach (cache_start cfg) (cache_step cfg released) s"
    and "(cache_step cfg (\<lambda>l. le_entry_id l \<noteq> le_entry_id lease))\<^sup>*\<^sup>* s t"
    and "read_lease lease s = Inr payload"
  shows "read_lease lease t = Inr payload"
proof -
  have "cache_inv cfg t \<and> keeps (le_entry_id lease) s t"
    using assms(2)
  proof (induction rule: rtranclp_induct)
    case base
    show ?case using state_cache.inv_reach [OF assms(1)] by (simp add: keeps_def)
  next
    case (step t u)
    then show ?case
      using state_cache.inv_step cache_step_keeps keeps_trans by metis
  qed
  then show ?thesis
    using assms(3) unfolding keeps_def
    by (fastforce simp: read_lease_def lease_entry_locked_def same_content_def split: option.splits if_splits)
qed

text \<open>
  C37: Acquisition respects tenants and scopes: the lease reads the payload of an entry with
  exactly the requested key whose scope allows the requester (hence of the same tenant), which was
  still leased or not yet expired; a copy-on-write lease gets its own entry and leaves the source
  entry unchanged.
\<close>

theorem acquire_isolated:
  assumes "reach (cache_start cfg) (cache_step cfg released) s" and "dict_get (ca_entries s) uid = None"
    and "acquire cfg clock uid key requester mutable s = (Inr (Some lease), t)"
  shows "\<exists>src k now. dict_get (ca_entries s) k = Some src \<and> ce_key src = key \<and>
    allows (ce_scope src) requester \<and> cs_tenant_id (ce_scope src) = cs_tenant_id requester \<and>
    clock_now clock = Inr now \<and> (ce_refcount src \<noteq> 0 \<or> now < ce_expires_at src) \<and>
    le_key lease = key \<and> read_lease lease t = Inr (ce_payload src) \<and>
    (le_copy_on_write lease \<longrightarrow> le_entry_id lease \<noteq> k \<and> dict_get (ca_entries t) k = Some src)"
proof -
  have core: "cache_core s" using state_cache.inv_reach [OF assms(1)] by (simp add: cache_inv_def)
  note pcore = shrinks_core [OF prune_result(1) [OF core]]
  have source: "dict_get (ca_entries s) (ce_entry_id e) = Some e \<and> ce_key e = key \<and>
      allows (ce_scope e) requester \<and> cs_tenant_id (ce_scope e) = cs_tenant_id requester \<and>
      (ce_refcount e \<noteq> 0 \<or> now < ce_expires_at e) \<and>
      dict_get (ca_entries (prune_locked now s)) (ce_entry_id e) = Some e"
    if pick: "pick_entry key requester (prune_locked now s) = Some e" for e now
  proof -
    have got: "dict_get (ca_entries (prune_locked now s)) (ce_entry_id e) = Some e"
      by (rule cache_core_value [OF pcore pick_entry_Some(1) [OF pick]])
    then show ?thesis
      using prune_result(2) [OF core, of now "ce_entry_id e"] pick_entry_Some [OF pick]
        allows_same_tenant [OF pick_entry_Some(4) [OF pick]]
      by (auto split: option.splits if_splits)
  qed
  have ref: "0 \<le> ce_refcount e" if "dict_get (ca_entries s) (ce_entry_id e) = Some e" for e
    using cache_core_entry [OF core that] by (simp add: entry_ok_def)
  from assms(3) show ?thesis
  proof (cases rule: acquire_cases)
    case (cloned now entry s2)
    have sh: "shrinks (prune_locked now s) s2" using ensure_capacity_result [OF pcore cloned(5)] by blast
    note src = source [OF cloned(2)]
    have keep: "dict_get (ca_entries s2) (ce_entry_id entry) = Some entry"
      using sh src cloned(4) unfolding shrinks_def by (metis less_irrefl)
    have ne: "ce_entry_id entry \<noteq> uid" using src assms(2) by auto
    have "read_lease lease t = Inr (ce_payload entry)" "le_key lease = key" "le_entry_id lease = uid"
      using cloned(6,7) src by (simp_all add: read_lease_def lease_entry_locked_def lease_of_def clone_entry_def add_clone_def)
    moreover have "dict_get (ca_entries t) (ce_entry_id entry) = Some entry"
      using keep ne by (simp add: cloned(7) add_clone_def clone_entry_def)
    ultimately show ?thesis using src cloned(1) ne by metis
  next
    case (touched now entry)
    note src = source [OF touched(2)]
    have "read_lease lease t = Inr (ce_payload entry)" "le_key lease = key" "\<not> le_copy_on_write lease"
      using touched(4,5) src ref [of entry]
      by (simp_all add: read_lease_def lease_entry_locked_def lease_of_def touch_entry_def)
    then show ?thesis using src touched(1) by metis
  qed simp_all
qed

text \<open>
  What is put can be acquired: before its time to live has passed, a payload put under a
  private scope is what any lease for that scope reads, whatever other scopes hold under the key.
\<close>

theorem put_acquire:
  assumes "reach (cache_start cfg) (cache_step cfg released) s" and "dict_get (ca_entries s) uid = None"
    and "put cfg clock uid key scope payload s = (Inr uid, t)" and "cs_visibility scope = PRIVATE"
    and "clock_now clock = Inr now" and "clock_now clock' = Inr now'" and "now' < now + cc_ttl_seconds cfg"
    and "allows scope requester" and "\<not> (mutable \<and> ck_kind key = PREFIX)"
  shows "\<exists>lease u. acquire cfg clock' uid' key requester mutable t = (Inr (Some lease), u) \<and>
    read_lease lease u = Inr payload"
proof -
  have inv: "cache_inv cfg s" by (rule state_cache.inv_reach [OF assms(1)])
  then have core: "cache_core s" by (simp add: cache_inv_def)
  have tcore: "cache_core t" using put_step [OF inv assms(2,3)] by (simp add: cache_inv_def)
  obtain e where e: "dict_get (ca_entries t) uid = Some e" "ce_key e = key" "ce_scope e = scope"
      "ce_payload e = payload" "ce_refcount e = 0" "\<not> ce_ephemeral e" "now' < ce_expires_at e"
    using assms(3)
  proof (cases rule: put_cases)
    case (stored now1 s1 s2)
    have "now1 = now" using stored(2) assms(5) by simp
    then show ?thesis using that assms(7) by (simp add: stored(6) insert_entry_def)
  qed simp_all
  let ?p = "prune_locked now' t"
  note pcore = shrinks_core [OF prune_result(1) [OF tcore]]
  have pe: "dict_get (ca_entries ?p) uid = Some e"
    using prune_result(2) [OF tcore, of now' uid] e(1,7) by simp
  then have mem: "e \<in> set (filter (\<lambda>e. allows (ce_scope e) requester) (matching_entries key ?p))"
    using e(2,3,6) assms(8) map_of_SomeD [OF pe] by (force simp: matching_entries_def)
  then obtain f where f: "pick_entry key requester ?p = Some f"
    unfolding pick_entry_def using min_by_nonempty by (metis empty_iff list.set(1))
  note pick = pick_entry_Some [OF f]
  have "visibility_rank (cs_visibility (ce_scope f)) \<le> 0"
    using min_by_least [OF f [unfolded pick_entry_def] mem] assms(4) e(3) by (auto simp: less_eq_prod_def)
  then have "cs_visibility (ce_scope f) = PRIVATE" by (cases "cs_visibility (ce_scope f)") simp_all
  then have "ce_scope f = scope"
    using pick(4) assms(4,8) allows_private by (cases "ce_scope f"; cases scope) auto
  then have "dict_get (ca_index ?p) (key, scope) = Some (ce_entry_id f)"
    using core_index [OF pcore] cache_core_value [OF pcore pick(1)] pick by blast
  moreover have "dict_get (ca_index ?p) (key, scope) = Some uid"
    using core_index [OF pcore] pe e by blast
  ultimately have "f = e" "ce_entry_id e = uid"
    using cache_core_value [OF pcore pick(1)] pe by auto
  then show ?thesis
    using f assms(6,9) e
    by (auto simp: acquire_def Let_def read_lease_def lease_entry_locked_def lease_of_def touch_entry_def)
qed

text \<open>
  Nothing but leases can make the cache refuse: if no entry is leased, a non-empty payload
  within the byte budget is always stored, expired and least recently used entries making room.
\<close>

theorem put_succeeds:
  assumes "reach (cache_start cfg) (cache_step cfg released) s"
    and "\<forall>e\<in>set (dict_values (ca_entries s)). ce_refcount e = 0" and "0 < cc_max_entries cfg"
    and "payload \<noteq> []" and "int (length payload) \<le> cc_byte_budget cfg" and "clock_now clock = Inr now"
  shows "\<exists>t. put cfg clock uid key scope payload s = (Inr uid, t)"
proof -
  have core: "cache_core s" using state_cache.inv_reach [OF assms(1)] by (simp add: cache_inv_def)
  have free: "ce_refcount e = 0" if "shrinks s t" "dict_get (ca_entries t) k = Some e" for t k e
    using assms(2) map_of_SomeD [OF shrinks_get [OF that]] by force
  obtain r t where put: "put cfg clock uid key scope payload s = (r, t)" by fastforce
  then show ?thesis
  proof (cases rule: put_cases)
    case early
    then show ?thesis using assms(4-6) by (auto simp: validate_values_def)
  next
    case (leased e now)
    have "\<exists>k f. dict_get (ca_entries (prune_locked now s)) k = Some f \<and> ce_refcount f \<noteq> 0"
      using replace_existing_result(3) [OF shrinks_core [OF prune_result(1) [OF core]] leased(3)] by simp
    then show ?thesis using free [OF prune_result(1) [OF core]] by blast
  next
    case (pinned e now s1)
    note pr = prune_replace [OF core pinned(3)]
    note cap = ensure_capacity_result [OF pr(2) pinned(4)]
    have sh: "shrinks s t" using shrinks_trans [OF pr(1)] cap by blast
    have "ca_entries t = []"
    proof (rule ccontr)
      assume "ca_entries t \<noteq> []"
      then obtain f where f: "f \<in> set (dict_values (ca_entries t))" by (cases "ca_entries t") auto
      then have "ce_refcount f = 0" using free [OF sh cache_core_value [OF shrinks_core [OF sh]]] by blast
      with f cap show False by blast
    qed
    moreover from this have "ca_bytes_used t = 0"
      using shrinks_core [OF sh] by (simp add: cache_core_def stored_bytes_def)
    ultimately show ?thesis using cap assms(3,5) by auto
  next
    case stored
    then show ?thesis using put by simp
  qed
qed

section \<open>A concrete run\<close>

definition demo_cfg :: cache_config where
  "demo_cfg = \<lparr>cc_byte_budget = 10, cc_max_entries = 2, cc_ttl_seconds = 5\<rparr>"

definition demo_token_key :: ExactTokenCacheKey where
  "demo_token_key = demo_key PREFIX [1, 2, 3]"

definition demo_owner :: CacheScope where
  "demo_owner = \<lparr>cs_tenant_id = ''t'', cs_workflow_id = ''w'', cs_agent_id = ''a'', cs_visibility = PRIVATE\<rparr>"

definition demo_stored :: "int \<Rightarrow> cache_entry" where
  "demo_stored n = \<lparr>ce_entry_id = ''u1'', ce_generation = 1, ce_key = demo_token_key, ce_scope = demo_owner,
     ce_payload = ''abc'', ce_byte_size = 3, ce_created_at = 1, ce_expires_at = 6, ce_last_access = 1,
     ce_refcount = n, ce_ephemeral = False\<rparr>"

definition demo_cache :: "int \<Rightarrow> int \<Rightarrow> cache" where
  "demo_cache n hits = empty_cache\<lparr>ca_entries := [(''u1'', demo_stored n)],
     ca_index := [((demo_token_key, demo_owner), ''u1'')], ca_bytes_used := 3, ca_insertions := 1,
     ca_hits := hits, ca_saved_prefill_tokens := hits * int (length (ck_token_ids demo_token_key))\<rparr>"

definition demo_lease :: CacheLease where
  "demo_lease = \<lparr>le_entry_id = ''u1'', le_generation = 1, le_key = demo_token_key, le_mutable = False,
     le_copy_on_write = False\<rparr>"

lemmas demo_cache_defs = demo_cfg_def demo_stored_def demo_cache_def demo_lease_def empty_cache_def

lemma demo_start: "reach (cache_start demo_cfg) (cache_step demo_cfg released) empty_cache"
  by (rule reach_init) (simp add: cache_start_def demo_cfg_def)

lemma demo_put: "put demo_cfg (PInt 1) ''u1'' demo_token_key demo_owner ''abc'' empty_cache = (Inr ''u1'', demo_cache 0 0)"
  by (simp add: put_def validate_values_def clock_now_def prune_locked_def replace_existing_def
      ensure_capacity_locked_def insert_entry_def demo_cache_defs)

lemma demo_acquire:
  "acquire demo_cfg (PInt 1) ''u2'' demo_token_key demo_owner False (demo_cache 0 0) = (Inr (Some demo_lease), demo_cache 1 1)"
  by (simp add: acquire_def clock_now_def prune_locked_def pick_entry_def matching_entries_def allows_self
      touch_entry_def lease_of_def count_hit_def demo_cache_defs)

lemma demo_reach_put: "reach (cache_start demo_cfg) (cache_step demo_cfg released) (demo_cache 0 0)"
  by (rule reach_step [OF demo_start step_put [OF _ demo_put]]) (simp add: empty_cache_def)

lemma demo_reach_lease: "reach (cache_start demo_cfg) (cache_step demo_cfg released) (demo_cache 1 1)"
  by (rule reach_step [OF demo_reach_put step_acquire [OF _ demo_acquire]]) (simp add: demo_cache_def)

theorem cache_accounting_witness:
  "ca_bytes_used (demo_cache 0 0) =
     sum_list (map (\<lambda>e. int (length (ce_payload e))) (dict_values (ca_entries (demo_cache 0 0)))) \<and>
   ca_bytes_used (demo_cache 0 0) \<le> cc_byte_budget demo_cfg"
  using cache_accounting [OF demo_reach_put] by blast

lemma demo_refused:
  "put demo_cfg (PInt 9) ''u3'' demo_token_key demo_owner ''xyz'' (demo_cache 1 1) =
     (Inl (CacheCapacityError ''cannot replace a leased cache entry''), demo_cache 1 1)"
  by (simp add: put_def validate_values_def clock_now_def prune_locked_def replace_existing_def demo_cache_defs)

theorem lease_stable_witness:
  "\<exists>t. put demo_cfg (PInt 9) ''u3'' demo_token_key demo_owner ''xyz'' (demo_cache 1 1) =
     (Inl (CacheCapacityError ''cannot replace a leased cache entry''), t) \<and> read_lease demo_lease t = Inr ''abc''"
proof -
  have "cache_step demo_cfg (\<lambda>l. le_entry_id l \<noteq> le_entry_id demo_lease) (demo_cache 1 1) (demo_cache 1 1)"
    by (rule step_put [OF _ demo_refused]) (simp add: demo_cache_def)
  then have "(cache_step demo_cfg (\<lambda>l. le_entry_id l \<noteq> le_entry_id demo_lease))\<^sup>*\<^sup>* (demo_cache 1 1) (demo_cache 1 1)"
    by (rule r_into_rtranclp)
  moreover have "read_lease demo_lease (demo_cache 1 1) = Inr ''abc''"
    by (simp add: read_lease_def lease_entry_locked_def demo_cache_defs)
  ultimately have "read_lease demo_lease (demo_cache 1 1) = Inr ''abc''"
    by (rule lease_stable [OF demo_reach_lease])
  then show ?thesis using demo_refused by blast
qed

theorem acquire_isolated_witness:
  "\<exists>src k. dict_get (ca_entries (demo_cache 0 0)) k = Some src \<and> allows (ce_scope src) demo_owner \<and>
     read_lease demo_lease (demo_cache 1 1) = Inr (ce_payload src)"
proof -
  have "dict_get (ca_entries (demo_cache 0 0)) ''u2'' = None" by (simp add: demo_cache_def)
  from acquire_isolated [OF demo_reach_put this demo_acquire] show ?thesis by blast
qed

theorem put_acquire_witness:
  "\<exists>lease u. acquire demo_cfg (PInt 5) ''u2'' demo_token_key demo_owner False (demo_cache 0 0) = (Inr (Some lease), u) \<and>
     read_lease lease u = Inr ''abc''"
  by (rule put_acquire [OF demo_start _ demo_put, of 1 _ 5])
     (simp_all add: clock_now_def demo_cfg_def demo_owner_def allows_self empty_cache_def)

theorem put_succeeds_witness:
  "\<exists>t. put demo_cfg (PInt 2) ''u2'' demo_token_key demo_owner ''0123456789'' (demo_cache 0 0) = (Inr ''u2'', t)"
  by (rule put_succeeds [OF demo_reach_put, where now = 2])
     (simp_all add: clock_now_def demo_cache_defs)

end
