(* ===== verification/BackendRegistry.thy ===== *)
theory BackendRegistry
  imports Contracts
begin

text \<open>
  \<open>inference_runtime/registry.py\<close>: the lazy backend registry with leases, bounded loading and
  unloading, and keepalive sweeping.

  \<open>_acquire_name\<close> and \<open>unload\<close> release the condition variable while a factory or a shutdown runs,
  so each is a sequence of lock sections: \<open>acquire_begin\<close>, \<open>acquire_fail\<close> and \<open>acquire_finish\<close>,
  and \<open>unload_begin\<close> and \<open>unload_finish\<close>. The factory, the capabilities attribute and the shutdown
  method of a loaded backend are arguments. A clock reading is an argument of the section that
  takes it. The text of a stored failure and of an error is not modelled, its code is.
\<close>

section \<open>Descriptors and entries\<close>

datatype BackendMode = STEPPABLE | MANAGED

datatype BackendLifecycle = UNLOADED | LOADING | READY | DRAINING | FAILED

datatype registry_error = RegistryError string | RegistryRaised py_exc | AssertFailed | Blocked

record BackendDescriptor =
  bd_name :: string
  bd_mode :: BackendMode
  bd_capabilities :: BackendCapabilities
  bd_priority :: int
  bd_keepalive_seconds :: rat

definition mk_BackendDescriptor ::
  "pyval \<Rightarrow> BackendMode \<Rightarrow> BackendCapabilities \<Rightarrow> pyval \<Rightarrow> pyval \<Rightarrow> registry_error + BackendDescriptor" where
  "mk_BackendDescriptor name_value mode caps priority keepalive =
     rbind (case name_value of
              PStr s \<Rightarrow> if s = [] \<or> 128 < length s
                       then Inl (RegistryRaised (ValueError ''backend descriptor name is invalid'')) else Inr s
            | _ \<Rightarrow> Inl (RegistryRaised (ValueError ''backend descriptor name is invalid''))) (\<lambda>n.
     rbind (case priority of
              PInt i \<Rightarrow> Inr i
            | _ \<Rightarrow> Inl (RegistryRaised (TypeError ''priority must be an integer''))) (\<lambda>p.
     rbind (case finite_val keepalive of
              Some t \<Rightarrow> if t < 0
                then Inl (RegistryRaised (ValueError ''keepalive_seconds must be finite and non-negative''))
                else Inr t
            | None \<Rightarrow> Inl (RegistryRaised (ValueError ''keepalive_seconds must be finite and non-negative''))) (\<lambda>k.
     rbind (ensure (\<not> (mode = STEPPABLE \<and> \<not> bc_supports_sequence_steps caps))
              (RegistryRaised (ValueError ''steppable descriptor lacks sequence-step capability''))) (\<lambda>_.
     rbind (ensure (\<not> (mode = MANAGED \<and> \<not> bc_supports_full_request caps))
              (RegistryRaised (ValueError ''managed descriptor lacks full-request capability''))) (\<lambda>_.
       Inr \<lparr>bd_name = n, bd_mode = mode, bd_capabilities = caps, bd_priority = p,
            bd_keepalive_seconds = k\<rparr>)))))"

datatype backend_failure = LoadRaised string | CapabilityMismatch | ShutdownFailed

record BackendRegistrySnapshot =
  rs_name :: string
  rs_mode :: BackendMode
  rs_priority :: int
  rs_lifecycle :: BackendLifecycle
  rs_generation :: nat
  rs_active_leases :: nat
  rs_last_used :: rat
  rs_failure :: "backend_failure option"
  rs_capabilities :: BackendCapabilities

record 'i backend_entry =
  be_descriptor :: BackendDescriptor
  be_lifecycle :: BackendLifecycle
  be_generation :: nat
  be_instance :: "'i option"
  be_active_leases :: nat
  be_last_used :: rat
  be_failure :: "backend_failure option"

type_synonym 'i registry = "(string, 'i backend_entry) odict"

record 'i BackendLease =
  bl_name :: string
  bl_generation :: nat
  bl_instance :: 'i
  bl_released :: bool

section \<open>Registration and routing\<close>

definition registry_now :: "pyval \<Rightarrow> registry_error + rat" where
  "registry_now v =
     (case finite_val v of
        Some t \<Rightarrow> if t < 0 then Inl (RegistryRaised (RuntimeErr ''registry clock must be finite and non-negative''))
                 else Inr t
      | None \<Rightarrow> Inl (RegistryRaised (RuntimeErr ''registry clock must be finite and non-negative'')))"

definition register :: "pyval \<Rightarrow> BackendDescriptor \<Rightarrow> 'i registry \<Rightarrow> registry_error + 'i registry" where
  "register clock d r =
     (if dict_get r (bd_name d) \<noteq> None then Inl (RegistryError ''duplicate_backend'')
      else rbind (registry_now clock) (\<lambda>t.
        Inr (dict_set (bd_name d)
          \<lparr>be_descriptor = d, be_lifecycle = UNLOADED, be_generation = 0, be_instance = None,
           be_active_leases = 0, be_last_used = t, be_failure = None\<rparr> r)))"

definition candidate_names ::
  "string \<Rightarrow> BackendMode option \<Rightarrow> bool \<Rightarrow> bool \<Rightarrow> 'i registry \<Rightarrow> string list" where
  "candidate_names model require_mode require_streaming require_cancellation r =
     map (\<lambda>e. bd_name (be_descriptor e))
       (sort_key (\<lambda>e. (- bd_priority (be_descriptor e), bd_name (be_descriptor e)))
         (filter (\<lambda>e. let d = be_descriptor e in
              model \<in> set (bc_models (bd_capabilities d)) \<and>
              (require_mode = None \<or> require_mode = Some (bd_mode d)) \<and>
              (\<not> require_streaming \<or> bc_supports_streaming (bd_capabilities d)) \<and>
              (\<not> require_cancellation \<or> bc_supports_cancellation (bd_capabilities d)))
            (dict_values r)))"

definition registry_preferred_mode :: "string \<Rightarrow> 'i registry \<Rightarrow> registry_error + BackendMode" where
  "registry_preferred_mode model r =
     (case candidate_names model None False False r of
        [] \<Rightarrow> Inl (RegistryError ''no_route'')
      | n # _ \<Rightarrow> (case dict_get r n of
                    None \<Rightarrow> Inl (RegistryRaised (KeyErr n))
                  | Some e \<Rightarrow> Inr (bd_mode (be_descriptor e))))"

section \<open>Acquiring and releasing\<close>

datatype 'i begin_outcome =
    Waiting
  | Refused registry_error
  | Granted "'i BackendLease"
  | Load BackendDescriptor

definition acquire_begin :: "pyval \<Rightarrow> string \<Rightarrow> 'i registry \<Rightarrow> 'i begin_outcome \<times> 'i registry" where
  "acquire_begin clock name r =
     (case dict_get r name of
        None \<Rightarrow> (Refused (RegistryRaised (KeyErr name)), r)
      | Some e \<Rightarrow>
          (case be_lifecycle e of
             LOADING \<Rightarrow> (Waiting, r)
           | DRAINING \<Rightarrow> (Refused (RegistryError ''backend_draining''), r)
           | READY \<Rightarrow>
               (case be_instance e of
                  None \<Rightarrow> (Refused AssertFailed, r)
                | Some i \<Rightarrow>
                    (let e1 = e\<lparr>be_active_leases := be_active_leases e + 1\<rparr> in
                     case registry_now clock of
                       Inl err \<Rightarrow> (Refused err, dict_set name e1 r)
                     | Inr t \<Rightarrow>
                         (Granted \<lparr>bl_name = name, bl_generation = be_generation e, bl_instance = i,
                                   bl_released = False\<rparr>,
                          dict_set name (e1\<lparr>be_last_used := t\<rparr>) r)))
           | _ \<Rightarrow> (Load (be_descriptor e), dict_set name (e\<lparr>be_lifecycle := LOADING, be_failure := None\<rparr>) r)))"

text \<open>The factory call between the lock sections, with the capability check on its result.\<close>

definition load_backend ::
  "(BackendDescriptor \<Rightarrow> string + 'i) \<Rightarrow> ('i \<Rightarrow> BackendCapabilities option) \<Rightarrow> BackendDescriptor \<Rightarrow>
   backend_failure + 'i" where
  "load_backend factory capabilities_of d =
     (case factory d of
        Inl text \<Rightarrow> Inl (LoadRaised text)
      | Inr i \<Rightarrow>
          (case capabilities_of i of
             None \<Rightarrow> Inr i
           | Some c \<Rightarrow> if c \<noteq> bd_capabilities d then Inl CapabilityMismatch else Inr i))"

definition load_error :: "backend_failure \<Rightarrow> registry_error" where
  "load_error f =
     (if f = CapabilityMismatch then RegistryError ''capability_mismatch''
      else RegistryError ''backend_load_failed'')"

definition acquire_fail :: "string \<Rightarrow> backend_failure \<Rightarrow> 'i registry \<Rightarrow> registry_error + 'i registry" where
  "acquire_fail name failure r =
     (case dict_get r name of
        None \<Rightarrow> Inl (RegistryRaised (KeyErr name))
      | Some e \<Rightarrow>
          Inr (dict_set name (e\<lparr>be_lifecycle := FAILED, be_failure := Some failure, be_instance := None\<rparr>) r))"

definition acquire_finish ::
  "pyval \<Rightarrow> string \<Rightarrow> 'i \<Rightarrow> 'i registry \<Rightarrow> (registry_error + 'i BackendLease) \<times> 'i registry" where
  "acquire_finish clock name i r =
     (case dict_get r name of
        None \<Rightarrow> (Inl (RegistryRaised (KeyErr name)), r)
      | Some e \<Rightarrow>
          (let e1 = e\<lparr>be_instance := Some i, be_generation := be_generation e + 1, be_active_leases := 1\<rparr> in
           case registry_now clock of
             Inl err \<Rightarrow> (Inl err, dict_set name e1 r)
           | Inr t \<Rightarrow>
               (Inr \<lparr>bl_name = name, bl_generation = be_generation e1, bl_instance = i, bl_released = False\<rparr>,
                dict_set name (e1\<lparr>be_last_used := t, be_lifecycle := READY\<rparr>) r)))"

text \<open>\<open>_acquire_name\<close> without interference; \<open>Blocked\<close> stands for waiting on another loader.\<close>

definition acquire_name ::
  "(BackendDescriptor \<Rightarrow> string + 'i) \<Rightarrow> ('i \<Rightarrow> BackendCapabilities option) \<Rightarrow> (string \<Rightarrow> pyval) \<Rightarrow> string \<Rightarrow>
   'i registry \<Rightarrow> (registry_error + 'i BackendLease) \<times> 'i registry" where
  "acquire_name factory capabilities_of clock name r =
     (case acquire_begin (clock name) name r of
        (Waiting, r1) \<Rightarrow> (Inl Blocked, r1)
      | (Refused err, r1) \<Rightarrow> (Inl err, r1)
      | (Granted l, r1) \<Rightarrow> (Inr l, r1)
      | (Load d, r1) \<Rightarrow>
          (case load_backend factory capabilities_of d of
             Inl failure \<Rightarrow>
               (case acquire_fail name failure r1 of
                  Inl err \<Rightarrow> (Inl err, r1)
                | Inr r2 \<Rightarrow> (Inl (load_error failure), r2))
           | Inr i \<Rightarrow> acquire_finish (clock name) name i r1))"

fun acquire_loop ::
  "(BackendDescriptor \<Rightarrow> string + 'i) \<Rightarrow> ('i \<Rightarrow> BackendCapabilities option) \<Rightarrow> (string \<Rightarrow> pyval) \<Rightarrow>
   string list \<Rightarrow> 'i registry \<Rightarrow> (registry_error + 'i BackendLease) \<times> 'i registry" where
  "acquire_loop factory capabilities_of clock [] r = (Inl (RegistryError ''all_backends_failed''), r)"
| "acquire_loop factory capabilities_of clock (name # names) r =
     (case acquire_name factory capabilities_of clock name r of
        (Inl (RegistryError code), r1) \<Rightarrow> acquire_loop factory capabilities_of clock names r1
      | (res, r1) \<Rightarrow> (res, r1))"

definition acquire_backend ::
  "(BackendDescriptor \<Rightarrow> string + 'i) \<Rightarrow> ('i \<Rightarrow> BackendCapabilities option) \<Rightarrow> (string \<Rightarrow> pyval) \<Rightarrow>
   string \<Rightarrow> BackendMode option \<Rightarrow> bool \<Rightarrow> bool \<Rightarrow> 'i registry \<Rightarrow>
   (registry_error + 'i BackendLease) \<times> 'i registry" where
  "acquire_backend factory capabilities_of clock model require_mode streaming cancellation r =
     (let candidates = candidate_names model require_mode streaming cancellation r in
      if candidates = [] then (Inl (RegistryError ''no_route''), r)
      else acquire_loop factory capabilities_of clock candidates r)"

definition registry_release ::
  "pyval \<Rightarrow> 'i BackendLease \<Rightarrow> 'i registry \<Rightarrow> (registry_error + bool) \<times> 'i registry" where
  "registry_release clock lease r =
     (case dict_get r (bl_name lease) of
        None \<Rightarrow> (Inr False, r)
      | Some e \<Rightarrow>
          if be_generation e \<noteq> bl_generation lease \<or> be_active_leases e = 0 then (Inr False, r)
          else
            (let e1 = e\<lparr>be_active_leases := be_active_leases e - 1\<rparr> in
             case registry_now clock of
               Inl err \<Rightarrow> (Inl err, dict_set (bl_name lease) e1 r)
             | Inr t \<Rightarrow> (Inr True, dict_set (bl_name lease) (e1\<lparr>be_last_used := t\<rparr>) r)))"

definition lease_release ::
  "pyval \<Rightarrow> 'i BackendLease \<Rightarrow> 'i registry \<Rightarrow> (registry_error + bool) \<times> 'i BackendLease \<times> 'i registry" where
  "lease_release clock lease r =
     (if bl_released lease then (Inr False, lease, r)
      else case registry_release clock (lease\<lparr>bl_released := True\<rparr>) r of
        (res, r1) \<Rightarrow> (res, lease\<lparr>bl_released := True\<rparr>, r1))"

section \<open>Unloading and sweeping\<close>

datatype 'i unload_outcome = NotUnloadable registry_error | NotLoaded | Shutdown "'i option"

definition unload_begin :: "string \<Rightarrow> 'i registry \<Rightarrow> 'i unload_outcome \<times> 'i registry" where
  "unload_begin name r =
     (case dict_get r name of
        None \<Rightarrow> (NotUnloadable (RegistryError ''unknown_backend''), r)
      | Some e \<Rightarrow>
          if be_lifecycle e = UNLOADED then (NotLoaded, r)
          else if be_active_leases e \<noteq> 0 then (NotUnloadable (RegistryError ''backend_busy''), r)
          else if be_lifecycle e \<notin> {READY, FAILED} then (NotUnloadable (RegistryError ''backend_state_conflict''), r)
          else (Shutdown (be_instance e), dict_set name (e\<lparr>be_lifecycle := DRAINING\<rparr>) r))"

definition unload_finish ::
  "pyval \<Rightarrow> string \<Rightarrow> bool \<Rightarrow> 'i registry \<Rightarrow> (registry_error + bool) \<times> 'i registry" where
  "unload_finish clock name stopped r =
     (case dict_get r name of
        None \<Rightarrow> (Inl (RegistryRaised (KeyErr name)), r)
      | Some e \<Rightarrow>
          (let e1 = e\<lparr>be_instance := None, be_lifecycle := (if stopped then UNLOADED else FAILED),
                     be_failure := (if stopped then None else Some ShutdownFailed)\<rparr> in
           case registry_now clock of
             Inl err \<Rightarrow> (Inl err, dict_set name e1 r)
           | Inr t \<Rightarrow> (Inr stopped, dict_set name (e1\<lparr>be_last_used := t\<rparr>) r)))"

text \<open>\<open>shutdown i\<close>: the instance has no shutdown method, or it returned something but \<open>False\<close>.\<close>

definition unload ::
  "('i \<Rightarrow> bool) \<Rightarrow> pyval \<Rightarrow> string \<Rightarrow> 'i registry \<Rightarrow> (registry_error + bool) \<times> 'i registry" where
  "unload shutdown clock name r =
     (case unload_begin name r of
        (NotUnloadable err, r1) \<Rightarrow> (Inl err, r1)
      | (NotLoaded, r1) \<Rightarrow> (Inr False, r1)
      | (Shutdown i, r1) \<Rightarrow>
          unload_finish clock name (case i of None \<Rightarrow> True | Some x \<Rightarrow> shutdown x) r1)"

definition sweep_targets :: "rat \<Rightarrow> 'i registry \<Rightarrow> string list" where
  "sweep_targets now r =
     map (\<lambda>e. bd_name (be_descriptor e))
       (filter (\<lambda>e. be_lifecycle e = READY \<and> be_active_leases e = 0 \<and>
            bd_keepalive_seconds (be_descriptor e) \<le> now - be_last_used e) (dict_values r))"

fun sweep_loop ::
  "('i \<Rightarrow> bool) \<Rightarrow> (string \<Rightarrow> pyval) \<Rightarrow> string list \<Rightarrow> string list \<Rightarrow> 'i registry \<Rightarrow>
   (registry_error + string list) \<times> 'i registry" where
  "sweep_loop shutdown clock [] unloaded r = (Inr unloaded, r)"
| "sweep_loop shutdown clock (name # names) unloaded r =
     (case unload shutdown (clock name) name r of
        (Inr True, r1) \<Rightarrow> sweep_loop shutdown clock names (unloaded @ [name]) r1
      | (Inr False, r1) \<Rightarrow> sweep_loop shutdown clock names unloaded r1
      | (Inl (RegistryError code), r1) \<Rightarrow> sweep_loop shutdown clock names unloaded r1
      | (Inl err, r1) \<Rightarrow> (Inl err, r1))"

definition sweep ::
  "('i \<Rightarrow> bool) \<Rightarrow> pyval \<Rightarrow> (string \<Rightarrow> pyval) \<Rightarrow> 'i registry \<Rightarrow>
   (registry_error + string list) \<times> 'i registry" where
  "sweep shutdown now clock r =
     (case registry_now now of
        Inl err \<Rightarrow> (Inl err, r)
      | Inr t \<Rightarrow> sweep_loop shutdown clock (sweep_targets t r) [] r)"

definition registry_snapshots :: "'i registry \<Rightarrow> BackendRegistrySnapshot list" where
  "registry_snapshots r =
     map (\<lambda>e. \<lparr>rs_name = bd_name (be_descriptor e), rs_mode = bd_mode (be_descriptor e),
            rs_priority = bd_priority (be_descriptor e), rs_lifecycle = be_lifecycle e,
            rs_generation = be_generation e, rs_active_leases = be_active_leases e,
            rs_last_used = be_last_used e, rs_failure = be_failure e,
            rs_capabilities = bd_capabilities (be_descriptor e)\<rparr>)
       (sort_key (\<lambda>e. bd_name (be_descriptor e)) (dict_values r))"

section \<open>Threads\<close>

text \<open>
  The registry under concurrent use. A thread is idle, or runs a factory, or runs a shutdown; the
  leases handed out and not yet released are \<open>sy_held\<close>. Clock readings are finite and
  non-negative, as \<open>time.monotonic\<close> returns them.
\<close>

datatype 'i activity = Idle | Loading string | Unloading string "'i option"

record 'i system =
  sy_registry :: "'i registry"
  sy_threads :: "nat \<Rightarrow> 'i activity"
  sy_held :: "'i BackendLease list"

inductive registry_step :: "'i system \<Rightarrow> 'i system \<Rightarrow> bool" where
  do_register: "register (PFloat (Finite t)) d (sy_registry s) = Inr r \<Longrightarrow>
    registry_step s (s\<lparr>sy_registry := r\<rparr>)"
| do_lease: "sy_threads s th = Idle \<Longrightarrow> 0 \<le> t \<Longrightarrow>
    acquire_begin (PFloat (Finite t)) n (sy_registry s) = (Granted l, r) \<Longrightarrow>
    registry_step s (s\<lparr>sy_registry := r, sy_held := l # sy_held s\<rparr>)"
| do_load: "sy_threads s th = Idle \<Longrightarrow> 0 \<le> t \<Longrightarrow>
    acquire_begin (PFloat (Finite t)) n (sy_registry s) = (Load d, r) \<Longrightarrow>
    registry_step s (s\<lparr>sy_registry := r, sy_threads := (sy_threads s)(th := Loading n)\<rparr>)"
| do_load_failed: "sy_threads s th = Loading n \<Longrightarrow> acquire_fail n f (sy_registry s) = Inr r \<Longrightarrow>
    registry_step s (s\<lparr>sy_registry := r, sy_threads := (sy_threads s)(th := Idle)\<rparr>)"
| do_load_done: "sy_threads s th = Loading n \<Longrightarrow> 0 \<le> t \<Longrightarrow>
    acquire_finish (PFloat (Finite t)) n i (sy_registry s) = (Inr l, r) \<Longrightarrow>
    registry_step s (s\<lparr>sy_registry := r, sy_threads := (sy_threads s)(th := Idle), sy_held := l # sy_held s\<rparr>)"
| do_release: "sy_held s = xs @ l # ys \<Longrightarrow> 0 \<le> t \<Longrightarrow>
    registry_release (PFloat (Finite t)) l (sy_registry s) = (Inr b, r) \<Longrightarrow>
    registry_step s (s\<lparr>sy_registry := r, sy_held := xs @ ys\<rparr>)"
| do_unload: "sy_threads s th = Idle \<Longrightarrow> unload_begin n (sy_registry s) = (Shutdown i, r) \<Longrightarrow>
    registry_step s (s\<lparr>sy_registry := r, sy_threads := (sy_threads s)(th := Unloading n i)\<rparr>)"
| do_unload_done: "sy_threads s th = Unloading n i \<Longrightarrow> 0 \<le> t \<Longrightarrow>
    unload_finish (PFloat (Finite t)) n stopped (sy_registry s) = (Inr b, r) \<Longrightarrow>
    registry_step s (s\<lparr>sy_registry := r, sy_threads := (sy_threads s)(th := Idle)\<rparr>)"

definition system_start :: "'i system \<Rightarrow> bool" where
  "system_start s \<longleftrightarrow> sy_registry s = [] \<and> sy_threads s = (\<lambda>_. Idle) \<and> sy_held s = []"

abbreviation held_of :: "string \<Rightarrow> 'i BackendLease list \<Rightarrow> 'i BackendLease list" where
  "held_of n ls \<equiv> filter (\<lambda>l. bl_name l = n) ls"

definition entry_inv :: "string \<Rightarrow> 'i backend_entry \<Rightarrow> 'i BackendLease list \<Rightarrow> bool" where
  "entry_inv n e ls \<longleftrightarrow>
     bd_name (be_descriptor e) = n \<and> be_active_leases e = length (held_of n ls) \<and>
     (be_lifecycle e \<noteq> READY \<longrightarrow> be_active_leases e = 0) \<and>
     (be_lifecycle e = READY \<longrightarrow> be_instance e \<noteq> None) \<and>
     (\<forall>l\<in>set (held_of n ls). bl_generation l = be_generation e \<and> be_instance e = Some (bl_instance l))"

fun works_on :: "'i activity \<Rightarrow> string option" where
  "works_on Idle = None"
| "works_on (Loading n) = Some n"
| "works_on (Unloading n i) = Some n"

fun activity_ok :: "'i activity \<Rightarrow> 'i registry \<Rightarrow> bool" where
  "activity_ok Idle r = True"
| "activity_ok (Loading n) r = (case dict_get r n of None \<Rightarrow> False | Some e \<Rightarrow> be_lifecycle e = LOADING)"
| "activity_ok (Unloading n i) r =
     (case dict_get r n of None \<Rightarrow> False | Some e \<Rightarrow> be_lifecycle e = DRAINING \<and> be_instance e = i)"

definition thread_inv :: "(nat \<Rightarrow> 'i activity) \<Rightarrow> 'i registry \<Rightarrow> bool" where
  "thread_inv ts r \<longleftrightarrow> (\<forall>th. activity_ok (ts th) r) \<and>
     (\<forall>th th' n. works_on (ts th) = Some n \<and> works_on (ts th') = Some n \<longrightarrow> th = th')"

definition system_inv :: "'i system \<Rightarrow> bool" where
  "system_inv s \<longleftrightarrow> distinct (dict_keys (sy_registry s)) \<and>
     (\<forall>n e. dict_get (sy_registry s) n = Some e \<longrightarrow> entry_inv n e (sy_held s)) \<and>
     (\<forall>l\<in>set (sy_held s). dict_get (sy_registry s) (bl_name l) \<noteq> None) \<and>
     thread_inv (sy_threads s) (sy_registry s)"

lemma registry_now_finite [simp]: "0 \<le> t \<Longrightarrow> registry_now (PFloat (Finite t)) = Inr t"
  by (simp add: registry_now_def)

text \<open>What each lock section does to the entry it names.\<close>

lemma register_Inr:
  assumes "register (PFloat (Finite t)) d r = Inr r'"
  shows "dict_get r (bd_name d) = None \<and> (\<exists>e. r' = dict_set (bd_name d) e r \<and> be_descriptor e = d \<and> be_lifecycle e = UNLOADED \<and>
    be_active_leases e = 0 \<and> be_instance e = None)"
  using assms by (auto simp: register_def split: if_splits)

lemma acquire_begin_Granted:
  assumes "acquire_begin (PFloat (Finite t)) n r = (Granted l, r')" and "0 \<le> t"
  shows "\<exists>e i. dict_get r n = Some e \<and> be_lifecycle e = READY \<and> be_instance e = Some i \<and>
    l = \<lparr>bl_name = n, bl_generation = be_generation e, bl_instance = i, bl_released = False\<rparr> \<and>
    r' = dict_set n (e\<lparr>be_active_leases := be_active_leases e + 1, be_last_used := t\<rparr>) r"
  using assms by (auto simp: acquire_begin_def Let_def split: option.splits BackendLifecycle.splits)

lemma acquire_begin_Load:
  assumes "acquire_begin (PFloat (Finite t)) n r = (Load d, r')" and "0 \<le> t"
  shows "\<exists>e. dict_get r n = Some e \<and> be_lifecycle e \<in> {UNLOADED, FAILED} \<and> d = be_descriptor e \<and>
    r' = dict_set n (e\<lparr>be_lifecycle := LOADING, be_failure := None\<rparr>) r"
  using assms by (auto simp: acquire_begin_def Let_def split: option.splits BackendLifecycle.splits)

lemma unload_begin_Shutdown:
  assumes "unload_begin n r = (Shutdown i, r')"
  shows "\<exists>e. dict_get r n = Some e \<and> be_lifecycle e \<in> {READY, FAILED} \<and> be_active_leases e = 0 \<and>
    i = be_instance e \<and> r' = dict_set n (e\<lparr>be_lifecycle := DRAINING\<rparr>) r"
  using assms by (auto simp: unload_begin_def split: option.splits if_splits)

text \<open>Updating one entry: the invariant of the others is untouched.\<close>

lemma entry_inv_cong: "held_of n ls = held_of n ls' \<Longrightarrow> entry_inv n e ls \<longleftrightarrow> entry_inv n e ls'"
  unfolding entry_inv_def by presburger

lemma system_inv_update:
  assumes inv: "system_inv s" and e': "entry_inv n e' ls"
    and other: "\<And>m. m \<noteq> n \<Longrightarrow> held_of m ls = held_of m (sy_held s)"
    and ls: "\<And>l. l \<in> set ls \<Longrightarrow> bl_name l = n \<or> l \<in> set (sy_held s)"
    and ts: "thread_inv ts (dict_set n e' (sy_registry s))"
  shows "system_inv (s\<lparr>sy_registry := dict_set n e' (sy_registry s), sy_threads := ts, sy_held := ls\<rparr>)"
proof -
  have "entry_inv m e ls" if "dict_get (dict_set n e' (sy_registry s)) m = Some e" for m e
  proof (cases "m = n")
    case True
    with that e' show ?thesis by simp
  next
    case False
    with that have "entry_inv m e (sy_held s)" using inv unfolding system_inv_def by auto
    then show ?thesis using entry_inv_cong [OF other [OF False]] by blast
  qed
  moreover have "dict_get (dict_set n e' (sy_registry s)) (bl_name l) \<noteq> None" if "l \<in> set ls" for l
    using ls [OF that] inv by (auto simp: system_inv_def)
  moreover have "distinct (dict_keys (dict_set n e' (sy_registry s)))"
    using inv by (simp add: system_inv_def distinct_update)
  ultimately show ?thesis using ts by (simp add: system_inv_def)
qed

lemma system_inv_entry:
  assumes "system_inv s" and "dict_get (sy_registry s) n = Some e" and "entry_inv n e' (sy_held s)"
    and "thread_inv ts (dict_set n e' (sy_registry s))"
  shows "system_inv (s\<lparr>sy_registry := dict_set n e' (sy_registry s), sy_threads := ts\<rparr>)"
  using system_inv_update [OF assms(1,3) _ _ assms(4)] by simp

definition unattended :: "string \<Rightarrow> (nat \<Rightarrow> 'i activity) \<Rightarrow> bool" where
  "unattended n ts \<longleftrightarrow> (\<forall>th. works_on (ts th) \<noteq> Some n)"

lemma activity_lifecycle:
  "activity_ok a r \<Longrightarrow> works_on a = Some n \<Longrightarrow> \<exists>e. dict_get r n = Some e \<and> be_lifecycle e \<in> {LOADING, DRAINING}"
  by (cases a) (auto split: option.splits)

lemma unattendedI:
  assumes "thread_inv ts r" and "\<And>e. dict_get r n = Some e \<Longrightarrow> be_lifecycle e \<notin> {LOADING, DRAINING}"
  shows "unattended n ts"
  unfolding unattended_def
proof
  fix th
  have "activity_ok (ts th) r" using assms(1) by (simp add: thread_inv_def)
  then show "works_on (ts th) \<noteq> Some n" using activity_lifecycle assms(2) by blast
qed

lemma activity_other: "works_on a \<noteq> Some n \<Longrightarrow> activity_ok a (dict_set n e r) \<longleftrightarrow> activity_ok a r"
  by (cases a) auto

lemma thread_inv_start:
  assumes inv: "thread_inv ts r" and un: "unattended n ts"
    and act: "works_on act = Some n" "activity_ok act (dict_set n e r)"
  shows "thread_inv (ts(th := act)) (dict_set n e r)"
proof -
  have "activity_ok ((ts(th := act)) x) (dict_set n e r)" for x
    using inv un act activity_other [of "ts x" n e r] by (simp add: thread_inv_def unattended_def)
  moreover have "x = y" if "works_on ((ts(th := act)) x) = Some m" "works_on ((ts(th := act)) y) = Some m" for x y m
    using that inv un act(1) by (auto simp: thread_inv_def unattended_def split: if_splits)
  ultimately show ?thesis unfolding thread_inv_def by blast
qed

lemma thread_inv_other:
  assumes inv: "thread_inv ts r" and un: "unattended n ts"
  shows "thread_inv ts (dict_set n e r)"
  using assms activity_other [of _ n e r] by (simp add: thread_inv_def unattended_def)

lemma thread_inv_finish:
  assumes inv: "thread_inv ts r" and act: "works_on (ts th) = Some n"
  shows "thread_inv (ts(th := Idle)) (dict_set n e r)"
proof (rule thread_inv_other)
  have ne: "works_on (ts x) \<noteq> Some n" if "x \<noteq> th" for x
    using inv act that unfolding thread_inv_def by blast
  then show "unattended n (ts(th := Idle))" by (simp add: unattended_def)
  show "thread_inv (ts(th := Idle)) r" using inv by (auto simp: thread_inv_def split: if_splits)
qed

section \<open>Leases and instances\<close>

lemma system_inv_entryD: "system_inv s \<Longrightarrow> dict_get (sy_registry s) n = Some e \<Longrightarrow> entry_inv n e (sy_held s)"
  by (simp add: system_inv_def)

lemma system_inv_threadD: "system_inv s \<Longrightarrow> thread_inv (sy_threads s) (sy_registry s)"
  by (simp add: system_inv_def)

lemma attended_entry:
  assumes "system_inv s" and "works_on (sy_threads s th) = Some n"
  obtains e where "dict_get (sy_registry s) n = Some e" "be_lifecycle e \<in> {LOADING, DRAINING}"
    "held_of n (sy_held s) = []" "be_active_leases e = 0" "bd_name (be_descriptor e) = n"
proof -
  have "activity_ok (sy_threads s th) (sy_registry s)"
    using system_inv_threadD [OF assms(1)] by (simp add: thread_inv_def)
  then obtain e where e: "dict_get (sy_registry s) n = Some e" "be_lifecycle e \<in> {LOADING, DRAINING}"
    using activity_lifecycle assms(2) by blast
  then show ?thesis using that system_inv_entryD [OF assms(1) e(1)] by (auto simp: entry_inv_def)
qed

lemma unattended_entry:
  assumes "system_inv s"
    and "\<And>e. dict_get (sy_registry s) n = Some e \<Longrightarrow> be_lifecycle e \<notin> {LOADING, DRAINING}"
  shows "thread_inv (sy_threads s) (dict_set n e' (sy_registry s))" and "unattended n (sy_threads s)"
  using thread_inv_other unattendedI system_inv_threadD [OF assms(1)] assms(2) by blast+

lemma register_inv:
  assumes inv: "system_inv s" and reg: "register (PFloat (Finite t)) d (sy_registry s) = Inr r"
  shows "system_inv (s\<lparr>sy_registry := r\<rparr>)"
proof -
  from register_Inr [OF reg] obtain e where new: "dict_get (sy_registry s) (bd_name d) = None"
    and r: "r = dict_set (bd_name d) e (sy_registry s)" and e: "be_descriptor e = d" "be_lifecycle e = UNLOADED"
      "be_active_leases e = 0" "be_instance e = None" by blast
  have none: "held_of (bd_name d) (sy_held s) = []"
    using inv new by (auto simp: system_inv_def filter_empty_conv)
  have "thread_inv (sy_threads s) (dict_set (bd_name d) e (sy_registry s))"
    by (rule unattended_entry [OF inv]) (simp add: new)
  then have "system_inv (s\<lparr>sy_registry := dict_set (bd_name d) e (sy_registry s), sy_threads := sy_threads s, sy_held := sy_held s\<rparr>)"
    using e none by (intro system_inv_update [OF inv]) (auto simp: entry_inv_def filter_empty_conv)
  then show ?thesis by (simp add: r)
qed

lemma grant_inv:
  assumes inv: "system_inv s" and "0 \<le> t"
    and got: "acquire_begin (PFloat (Finite t)) n (sy_registry s) = (Granted l, r)"
  shows "system_inv (s\<lparr>sy_registry := r, sy_held := l # sy_held s\<rparr>)"
proof -
  from acquire_begin_Granted [OF got assms(2)] obtain e i where e: "dict_get (sy_registry s) n = Some e"
      "be_lifecycle e = READY" "be_instance e = Some i"
    and l: "l = \<lparr>bl_name = n, bl_generation = be_generation e, bl_instance = i, bl_released = False\<rparr>"
    and r: "r = dict_set n (e\<lparr>be_active_leases := be_active_leases e + 1, be_last_used := t\<rparr>) (sy_registry s)"
    by blast
  let ?e = "e\<lparr>be_active_leases := be_active_leases e + 1, be_last_used := t\<rparr>"
  have "thread_inv (sy_threads s) (dict_set n ?e (sy_registry s))"
    by (rule unattended_entry [OF inv]) (simp add: e)
  then have "system_inv (s\<lparr>sy_registry := dict_set n ?e (sy_registry s), sy_threads := sy_threads s, sy_held := l # sy_held s\<rparr>)"
    using e system_inv_entryD [OF inv e(1)]
    by (intro system_inv_update [OF inv]) (auto simp: entry_inv_def l)
  then show ?thesis by (simp add: r)
qed

lemma load_inv:
  assumes inv: "system_inv s" and "0 \<le> t"
    and got: "acquire_begin (PFloat (Finite t)) n (sy_registry s) = (Load d, r)"
  shows "system_inv (s\<lparr>sy_registry := r, sy_threads := (sy_threads s)(th := Loading n)\<rparr>)"
proof -
  from acquire_begin_Load [OF got assms(2)] obtain e where e: "dict_get (sy_registry s) n = Some e"
      "be_lifecycle e \<in> {UNLOADED, FAILED}"
    and r: "r = dict_set n (e\<lparr>be_lifecycle := LOADING, be_failure := None\<rparr>) (sy_registry s)" by blast
  have "unattended n (sy_threads s)" by (rule unattended_entry [OF inv]) (use e in auto)
  then have "thread_inv ((sy_threads s)(th := Loading n)) r"
    unfolding r by (intro thread_inv_start [OF system_inv_threadD [OF inv]]) auto
  then show ?thesis unfolding r
    using e system_inv_entryD [OF inv e(1)]
    by (intro system_inv_entry [OF inv e(1)]) (auto simp: entry_inv_def)
qed

lemma load_failed_inv:
  assumes inv: "system_inv s" and th: "sy_threads s th = Loading n"
    and got: "acquire_fail n f (sy_registry s) = Inr r"
  shows "system_inv (s\<lparr>sy_registry := r, sy_threads := (sy_threads s)(th := Idle)\<rparr>)"
proof -
  obtain e where e: "dict_get (sy_registry s) n = Some e" "held_of n (sy_held s) = []" "be_active_leases e = 0"
      "bd_name (be_descriptor e) = n"
    using attended_entry [OF inv, of th n] th by auto
  have r: "r = dict_set n (e\<lparr>be_lifecycle := FAILED, be_failure := Some f, be_instance := None\<rparr>) (sy_registry s)"
    using got e(1) by (simp add: acquire_fail_def)
  have "thread_inv ((sy_threads s)(th := Idle)) r"
    unfolding r by (rule thread_inv_finish [OF system_inv_threadD [OF inv]]) (simp add: th)
  then show ?thesis unfolding r
    using e by (intro system_inv_entry [OF inv e(1)]) (auto simp: entry_inv_def filter_empty_conv)
qed

lemma load_done_inv:
  assumes inv: "system_inv s" and th: "sy_threads s th = Loading n" and t: "0 \<le> t"
    and got: "acquire_finish (PFloat (Finite t)) n i (sy_registry s) = (Inr l, r)"
  shows "system_inv (s\<lparr>sy_registry := r, sy_threads := (sy_threads s)(th := Idle), sy_held := l # sy_held s\<rparr>)"
proof -
  obtain e where e: "dict_get (sy_registry s) n = Some e" "held_of n (sy_held s) = []"
      "bd_name (be_descriptor e) = n"
    using attended_entry [OF inv, of th n] th by auto
  let ?e = "e\<lparr>be_instance := Some i, be_generation := be_generation e + 1, be_active_leases := 1,
      be_last_used := t, be_lifecycle := READY\<rparr>"
  have r: "r = dict_set n ?e (sy_registry s)" and
    l: "l = \<lparr>bl_name = n, bl_generation = be_generation e + 1, bl_instance = i, bl_released = False\<rparr>"
    using got t e(1) by (auto simp: acquire_finish_def Let_def)
  have "thread_inv ((sy_threads s)(th := Idle)) (dict_set n ?e (sy_registry s))"
    by (rule thread_inv_finish [OF system_inv_threadD [OF inv]]) (simp add: th)
  then show ?thesis unfolding r
    using e by (intro system_inv_update [OF inv]) (auto simp: entry_inv_def l filter_empty_conv)
qed

lemma held_lease:
  assumes inv: "system_inv s" and l: "l \<in> set (sy_held s)"
  obtains e where "dict_get (sy_registry s) (bl_name l) = Some e" "be_generation e = bl_generation l"
    "be_active_leases e \<noteq> 0" "be_lifecycle e = READY" "be_instance e = Some (bl_instance l)"
proof -
  obtain e where e: "dict_get (sy_registry s) (bl_name l) = Some e"
    using inv l by (auto simp: system_inv_def)
  have mem: "l \<in> set (held_of (bl_name l) (sy_held s))" using l by simp
  then have "length (held_of (bl_name l) (sy_held s)) \<noteq> 0" by (metis length_greater_0_conv empty_iff list.set(1) not_gr0)
  with system_inv_entryD [OF inv e] mem show ?thesis by (intro that [OF e]) (auto simp: entry_inv_def)
qed

lemma release_effect:
  assumes inv: "system_inv s" and l: "l \<in> set (sy_held s)" and "0 \<le> t"
  obtains e where "dict_get (sy_registry s) (bl_name l) = Some e" "be_lifecycle e = READY"
    "registry_release (PFloat (Finite t)) l (sy_registry s) =
      (Inr True, dict_set (bl_name l) (e\<lparr>be_active_leases := be_active_leases e - 1, be_last_used := t\<rparr>) (sy_registry s))"
proof -
  obtain e where e: "dict_get (sy_registry s) (bl_name l) = Some e" "be_generation e = bl_generation l"
      "be_active_leases e \<noteq> 0" "be_lifecycle e = READY" "be_instance e = Some (bl_instance l)"
    by (rule held_lease [OF inv l])
  show ?thesis by (rule that [OF e(1,4)]) (use e assms(3) in \<open>simp add: registry_release_def\<close>)
qed

lemma release_inv:
  assumes inv: "system_inv s" and held: "sy_held s = xs @ l # ys" and t: "0 \<le> t"
    and got: "registry_release (PFloat (Finite t)) l (sy_registry s) = (Inr b, r)"
  shows "system_inv (s\<lparr>sy_registry := r, sy_held := xs @ ys\<rparr>)"
proof -
  let ?n = "bl_name l"
  have "l \<in> set (sy_held s)" using held by simp
  from release_effect [OF inv this t] obtain e where e: "dict_get (sy_registry s) ?n = Some e" "be_lifecycle e = READY"
    and r: "r = dict_set ?n (e\<lparr>be_active_leases := be_active_leases e - 1, be_last_used := t\<rparr>) (sy_registry s)"
    using got by force
  let ?e = "e\<lparr>be_active_leases := be_active_leases e - 1, be_last_used := t\<rparr>"
  have "thread_inv (sy_threads s) (dict_set ?n ?e (sy_registry s))"
    by (rule unattended_entry [OF inv]) (simp add: e)
  then have "system_inv (s\<lparr>sy_registry := dict_set ?n ?e (sy_registry s), sy_threads := sy_threads s, sy_held := xs @ ys\<rparr>)"
    using system_inv_entryD [OF inv e(1)] e(2) held
    by (intro system_inv_update [OF inv]) (auto simp: entry_inv_def)
  then show ?thesis by (simp add: r)
qed

lemma unload_inv:
  assumes inv: "system_inv s" and got: "unload_begin n (sy_registry s) = (Shutdown i, r)"
  shows "system_inv (s\<lparr>sy_registry := r, sy_threads := (sy_threads s)(th := Unloading n i)\<rparr>)"
proof -
  from unload_begin_Shutdown [OF got] obtain e where e: "dict_get (sy_registry s) n = Some e"
      "be_lifecycle e \<in> {READY, FAILED}" "be_active_leases e = 0" "i = be_instance e"
    and r: "r = dict_set n (e\<lparr>be_lifecycle := DRAINING\<rparr>) (sy_registry s)" by blast
  have "unattended n (sy_threads s)" by (rule unattended_entry [OF inv]) (use e in auto)
  then have "thread_inv ((sy_threads s)(th := Unloading n i)) r"
    unfolding r using e(4) by (intro thread_inv_start [OF system_inv_threadD [OF inv]]) auto
  then show ?thesis unfolding r
    using e system_inv_entryD [OF inv e(1)]
    by (intro system_inv_entry [OF inv e(1)]) (auto simp: entry_inv_def)
qed

lemma unload_done_inv:
  assumes inv: "system_inv s" and th: "sy_threads s th = Unloading n i" and t: "0 \<le> t"
    and got: "unload_finish (PFloat (Finite t)) n stopped (sy_registry s) = (Inr b, r)"
  shows "system_inv (s\<lparr>sy_registry := r, sy_threads := (sy_threads s)(th := Idle)\<rparr>)"
proof -
  obtain e where e: "dict_get (sy_registry s) n = Some e" "held_of n (sy_held s) = []" "be_active_leases e = 0"
      "bd_name (be_descriptor e) = n"
    using attended_entry [OF inv, of th n] th by auto
  let ?e = "e\<lparr>be_instance := None, be_lifecycle := (if stopped then UNLOADED else FAILED),
      be_failure := (if stopped then None else Some ShutdownFailed), be_last_used := t\<rparr>"
  have r: "r = dict_set n ?e (sy_registry s)" using got t e(1) by (auto simp: unload_finish_def Let_def)
  have "thread_inv ((sy_threads s)(th := Idle)) (dict_set n ?e (sy_registry s))"
    by (rule thread_inv_finish [OF system_inv_threadD [OF inv]]) (simp add: th)
  then show ?thesis unfolding r
    using e by (intro system_inv_entry [OF inv e(1)]) (auto simp: entry_inv_def filter_empty_conv)
qed

interpretation backend_system: invariant_system system_start registry_step system_inv
proof
  show "system_start s \<Longrightarrow> system_inv s" for s :: "'a system"
    by (simp add: system_start_def system_inv_def thread_inv_def)
  show "system_inv t" if inv: "system_inv s" and step: "registry_step s t" for s t :: "'a system"
    using step
    by cases (blast intro: register_inv [OF inv] grant_inv [OF inv] load_inv [OF inv] load_failed_inv [OF inv]
        load_done_inv [OF inv] release_inv [OF inv] unload_inv [OF inv] unload_done_inv [OF inv])+
qed

text \<open>
  C6: An outstanding lease always refers to the live instance of a ready backend of the same
  generation, and no thread is shutting that backend down: an instance is never stopped under a
  request that uses it, however threads interleave.
\<close>

theorem lease_instance_live:
  assumes "reach system_start registry_step s" and "l \<in> set (sy_held s)"
  shows "(\<exists>e. dict_get (sy_registry s) (bl_name l) = Some e \<and> be_lifecycle e = READY \<and>
      be_generation e = bl_generation l \<and> be_instance e = Some (bl_instance l)) \<and>
    (\<forall>th i. sy_threads s th \<noteq> Unloading (bl_name l) i)"
proof -
  have inv: "system_inv s" by (rule backend_system.inv_reach [OF assms(1)])
  obtain e where e: "dict_get (sy_registry s) (bl_name l) = Some e" "be_generation e = bl_generation l"
      "be_lifecycle e = READY" "be_instance e = Some (bl_instance l)"
    by (rule held_lease [OF inv assms(2)])
  have "unattended (bl_name l) (sy_threads s)" by (rule unattended_entry(2) [OF inv]) (simp add: e)
  then have "sy_threads s th \<noteq> Unloading (bl_name l) i" for th i
    unfolding unattended_def by (metis works_on.simps(3))
  with e show ?thesis by blast
qed

text \<open>
  The lease counters are exact: in every reachable state the counter of a backend is the
  number of outstanding leases on it, at most one thread loads or unloads it, and giving back an
  outstanding lease is always accepted.
\<close>

theorem lease_count_exact:
  assumes "reach system_start registry_step s"
  shows "(\<forall>n e. dict_get (sy_registry s) n = Some e \<longrightarrow> be_active_leases e = length (held_of n (sy_held s))) \<and>
    (\<forall>th th' n. works_on (sy_threads s th) = Some n \<and> works_on (sy_threads s th') = Some n \<longrightarrow> th = th') \<and>
    (\<forall>l\<in>set (sy_held s). \<forall>t\<ge>0. fst (registry_release (PFloat (Finite t)) l (sy_registry s)) = Inr True)"
proof -
  have inv: "system_inv s" by (rule backend_system.inv_reach [OF assms])
  have "fst (registry_release (PFloat (Finite t)) l (sy_registry s)) = Inr True"
    if "l \<in> set (sy_held s)" "0 \<le> t" for l t
    by (rule release_effect [OF inv that]) simp
  then show ?thesis using inv by (auto simp: system_inv_def entry_inv_def thread_inv_def)
qed

definition demo_capabilities :: BackendCapabilities where
  "demo_capabilities = \<lparr>bc_backend = ''b'', bc_models = [''m''], bc_supports_full_request = True,
     bc_supports_sequence_steps = False, bc_supports_streaming = True, bc_supports_cancellation = True,
     bc_supports_chunked_prefill = False, bc_supports_decode_batching = False,
     bc_supports_continuous_batching = False, bc_supports_prefix_cache = False,
     bc_supports_session_cache = False, bc_supports_explicit_release = False,
     bc_max_context_tokens = 64, bc_max_output_tokens = 16, bc_max_concurrent_requests = 1,
     bc_max_concurrent_sequences = None, bc_max_prefill_tokens_per_step = None,
     bc_max_decode_tokens_per_step = None, bc_max_sequences_per_step = None\<rparr>"

definition demo_backend :: "string \<Rightarrow> int \<Rightarrow> BackendDescriptor" where
  "demo_backend n p = \<lparr>bd_name = n, bd_mode = MANAGED, bd_capabilities = demo_capabilities,
     bd_priority = p, bd_keepalive_seconds = 300\<rparr>"

definition demo_backend_entry :: "BackendLifecycle \<Rightarrow> nat \<Rightarrow> nat \<Rightarrow> nat option \<Rightarrow> nat backend_entry" where
  "demo_backend_entry c g a i = \<lparr>be_descriptor = demo_backend ''b'' 1, be_lifecycle = c, be_generation = g,
     be_instance = i, be_active_leases = a, be_last_used = 0, be_failure = None\<rparr>"

definition demo_backend_lease :: "nat BackendLease" where
  "demo_backend_lease = \<lparr>bl_name = ''b'', bl_generation = 1, bl_instance = 7, bl_released = False\<rparr>"

definition demo_system :: "nat backend_entry option \<Rightarrow> nat activity \<Rightarrow> nat BackendLease list \<Rightarrow> nat system" where
  "demo_system e a ls = \<lparr>sy_registry = (case e of None \<Rightarrow> [] | Some e \<Rightarrow> [(''b'', e)]),
     sy_threads = (\<lambda>_. Idle)(0 := a), sy_held = ls\<rparr>"

lemmas demo_system_defs = demo_backend_def demo_backend_entry_def demo_backend_lease_def demo_system_def

lemma demo_leased_reach:
  "reach system_start registry_step
     (demo_system (Some (demo_backend_entry READY 1 1 (Some 7))) Idle [demo_backend_lease])"
proof -
  have "reach system_start registry_step (demo_system None Idle [])"
    by (rule reach_init) (simp add: system_start_def demo_system_def fun_upd_def)
  moreover have "registry_step (demo_system None Idle []) (demo_system (Some (demo_backend_entry UNLOADED 0 0 None)) Idle [])"
    using do_register [of 0 "demo_backend ''b'' 1" "demo_system None Idle []"]
    by (simp add: register_def demo_system_defs)
  moreover have "registry_step (demo_system (Some (demo_backend_entry UNLOADED 0 0 None)) Idle [])
      (demo_system (Some (demo_backend_entry LOADING 0 0 None)) (Loading ''b'') [])"
    using do_load [of "demo_system (Some (demo_backend_entry UNLOADED 0 0 None)) Idle []" 0 0 "''b''"]
    by (simp add: acquire_begin_def demo_system_defs)
  moreover have "registry_step (demo_system (Some (demo_backend_entry LOADING 0 0 None)) (Loading ''b'') [])
      (demo_system (Some (demo_backend_entry READY 1 1 (Some 7))) Idle [demo_backend_lease])"
    using do_load_done [of "demo_system (Some (demo_backend_entry LOADING 0 0 None)) (Loading ''b'') []" 0 "''b''" 0 7]
    by (simp add: acquire_finish_def demo_system_defs)
  ultimately show ?thesis by (blast intro: reach_step)
qed

theorem lease_instance_live_witness:
  "\<exists>e. dict_get (sy_registry (demo_system (Some (demo_backend_entry READY 1 1 (Some 7))) Idle [demo_backend_lease]))
       (bl_name demo_backend_lease) = Some e \<and> be_instance e = Some 7"
  using lease_instance_live [OF demo_leased_reach, of demo_backend_lease]
  by (auto simp: demo_system_def demo_backend_lease_def)

theorem lease_count_exact_witness:
  "fst (registry_release (PFloat (Finite 3)) demo_backend_lease
     (sy_registry (demo_system (Some (demo_backend_entry READY 1 1 (Some 7))) Idle [demo_backend_lease]))) = Inr True"
  using lease_count_exact [OF demo_leased_reach] by (simp add: demo_system_def)

section \<open>Routing\<close>

definition serves_model :: "string \<Rightarrow> BackendMode option \<Rightarrow> bool \<Rightarrow> bool \<Rightarrow> BackendDescriptor \<Rightarrow> bool" where
  "serves_model model require_mode streaming cancellation d \<longleftrightarrow>
     model \<in> set (bc_models (bd_capabilities d)) \<and> (require_mode = None \<or> require_mode = Some (bd_mode d)) \<and>
     (streaming \<longrightarrow> bc_supports_streaming (bd_capabilities d)) \<and>
     (cancellation \<longrightarrow> bc_supports_cancellation (bd_capabilities d))"

lemma acquire_finish_name: "acquire_finish clock n i r = (Inr l, r') \<Longrightarrow> bl_name l = n"
  by (auto simp: acquire_finish_def Let_def split: option.splits sum.splits)

lemma acquire_name_lease:
  assumes "acquire_name factory caps clock n r = (Inr l, r')"
  shows "bl_name l = n"
proof -
  obtain out r1 where b: "acquire_begin (clock n) n r = (out, r1)" by fastforce
  show ?thesis
  proof (cases out)
    case (Granted k)
    with b have "bl_name k = n"
      by (auto simp: acquire_begin_def Let_def split: option.splits BackendLifecycle.splits sum.splits)
    with assms b Granted show ?thesis by (simp add: acquire_name_def)
  next
    case (Load d)
    with assms b show ?thesis
      by (auto simp: acquire_name_def acquire_finish_name split: sum.splits)
  qed (use assms b in \<open>auto simp: acquire_name_def\<close>)
qed

lemma acquire_loop_Inr:
  assumes "acquire_loop factory caps clock names r = (Inr l, r')"
  shows "\<exists>pre post r1. names = pre @ bl_name l # post \<and>
    acquire_loop factory caps clock pre r = (Inl (RegistryError ''all_backends_failed''), r1) \<and>
    acquire_name factory caps clock (bl_name l) r1 = (Inr l, r')"
  using assms
proof (induction names arbitrary: r)
  case Nil
  then show ?case by simp
next
  case (Cons n names)
  obtain res r1 where a: "acquire_name factory caps clock n r = (res, r1)" by fastforce
  show ?case
  proof (cases "\<exists>code. res = Inl (RegistryError code)")
    case True
    then obtain code where code: "res = Inl (RegistryError code)" ..
    with a Cons.prems have "acquire_loop factory caps clock names r1 = (Inr l, r')" by simp
    from Cons.IH [OF this] obtain pre post r2 where "names = pre @ bl_name l # post"
      "acquire_loop factory caps clock pre r1 = (Inl (RegistryError ''all_backends_failed''), r2)"
      "acquire_name factory caps clock (bl_name l) r2 = (Inr l, r')" by blast
    then show ?thesis using a code by (intro exI [of _ "n # pre"] exI [of _ post] exI [of _ r2]) simp
  next
    case False
    with a Cons.prems have res: "res = Inr l" "r1 = r'"
      by (auto split: sum.splits registry_error.splits)
    then have "bl_name l = n" using a acquire_name_lease by metis
    then show ?thesis using a res by (intro exI [of _ "[]"] exI [of _ names] exI [of _ r]) simp
  qed
qed

text \<open>
  Routing and fallback: a granted lease names a registered backend that declares the model and
  every required capability; the candidates are tried in the order of falling priority, ties by
  name, and each candidate before the granted one refused or failed to load.
\<close>

theorem acquire_backend_routes:
  assumes "reach system_start registry_step s"
    and "acquire_backend factory caps clock model mode streaming cancellation (sy_registry s) = (Inr l, r')"
  shows "\<exists>e pre post r1. dict_get (sy_registry s) (bl_name l) = Some e \<and>
    serves_model model mode streaming cancellation (be_descriptor e) \<and>
    candidate_names model mode streaming cancellation (sy_registry s) = pre @ bl_name l # post \<and>
    (\<forall>n\<in>set pre. \<exists>f. dict_get (sy_registry s) n = Some f \<and>
       (- bd_priority (be_descriptor f), n) \<le> (- bd_priority (be_descriptor e), bl_name l)) \<and>
    acquire_loop factory caps clock pre (sy_registry s) = (Inl (RegistryError ''all_backends_failed''), r1) \<and>
    acquire_name factory caps clock (bl_name l) r1 = (Inr l, r')"
proof -
  let ?r = "sy_registry s" and ?names = "candidate_names model mode streaming cancellation (sy_registry s)"
  let ?key = "\<lambda>e :: 'a backend_entry. (- bd_priority (be_descriptor e), bd_name (be_descriptor e))"
  have inv: "system_inv s" by (rule backend_system.inv_reach [OF assms(1)])
  have "acquire_loop factory caps clock ?names ?r = (Inr l, r')"
    using assms(2) by (auto simp: acquire_backend_def Let_def split: if_splits)
  from acquire_loop_Inr [OF this] obtain pre post r1 where names: "?names = pre @ bl_name l # post"
    and rest: "acquire_loop factory caps clock pre ?r = (Inl (RegistryError ''all_backends_failed''), r1)"
      "acquire_name factory caps clock (bl_name l) r1 = (Inr l, r')" by blast
  obtain es where es: "?names = map (\<lambda>e. bd_name (be_descriptor e)) es" "sorted (map ?key es)"
    "set es = {e \<in> set (dict_values ?r). serves_model model mode streaming cancellation (be_descriptor e)}"
    using that [of "sort_key ?key (filter (\<lambda>e. serves_model model mode streaming cancellation (be_descriptor e)) (dict_values ?r))"]
    by (auto simp: candidate_names_def serves_model_def Let_def)
  have get: "dict_get ?r (bd_name (be_descriptor f)) = Some f" if "f \<in> set es" for f
    using inv that es(3) values_of_get [of ?r f] by (auto simp: system_inv_def entry_inv_def)
  obtain es1 e es2 where split: "es = es1 @ e # es2" "pre = map (\<lambda>e. bd_name (be_descriptor e)) es1"
      "bl_name l = bd_name (be_descriptor e)"
    using names unfolding es(1) by (auto simp: map_eq_append_conv map_eq_Cons_conv)
  have "?key f \<le> ?key e" if "f \<in> set es1" for f using es(2) that by (auto simp: split(1) sorted_append)
  then have "\<forall>n\<in>set pre. \<exists>f. dict_get ?r n = Some f \<and>
       (- bd_priority (be_descriptor f), n) \<le> (- bd_priority (be_descriptor e), bl_name l)"
    using get by (auto simp: split)
  moreover have "dict_get ?r (bl_name l) = Some e" "serves_model model mode streaming cancellation (be_descriptor e)"
    using get [of e] es(3) by (auto simp: split)
  ultimately show ?thesis using names rest by blast
qed

theorem acquire_backend_routes_witness:
  "\<exists>l r' e. acquire_backend (\<lambda>_. Inr (9 :: nat)) (\<lambda>_. None) (\<lambda>_. PInt 4) ''m'' None True False
      (sy_registry (demo_system (Some (demo_backend_entry READY 1 1 (Some 7))) Idle [demo_backend_lease])) = (Inr l, r') \<and>
    dict_get (sy_registry (demo_system (Some (demo_backend_entry READY 1 1 (Some 7))) Idle [demo_backend_lease])) (bl_name l) = Some e \<and>
    serves_model ''m'' None True False (be_descriptor e)"
proof -
  have "\<exists>l r'. acquire_backend (\<lambda>_. Inr (9 :: nat)) (\<lambda>_. None) (\<lambda>_. PInt 4) ''m'' None True False
      (sy_registry (demo_system (Some (demo_backend_entry READY 1 1 (Some 7))) Idle [demo_backend_lease])) = (Inr l, r')"
    by (simp add: acquire_backend_def candidate_names_def acquire_name_def acquire_begin_def registry_now_def
        demo_system_defs demo_capabilities_def)
  then show ?thesis using acquire_backend_routes [OF demo_leased_reach] by blast
qed

end
