(* ===== verification/Router.thy ===== *)
theory Router
  imports BackendRegistry SequenceContracts
begin

text \<open>
  \<open>inference_runtime/router.py\<close>: the high-level router over the backend registry. The calls
  into a leased target (\<open>infer\<close>, \<open>generate\<close>, \<open>cancel\<close>, the protocol checks) are arguments.
\<close>

section \<open>Model\<close>

datatype target_kind = IsInferencePort | IsManagedBackend | IsNeither

type_synonym 'i active_map = "(string, 'i BackendLease \<times> 'i) odict"

datatype ('e, 'o) infer_result = Returned 'o | TargetRaised 'e | RouterRaised registry_error

definition infer_enter :: "string \<Rightarrow> 'i active_map \<Rightarrow> registry_error + unit" where
  "infer_enter request_id active =
     ensure (dict_get active request_id = None) (RegistryError ''duplicate_request'')"

definition infer_bind ::
  "pyval \<Rightarrow> string \<Rightarrow> 'i BackendLease \<Rightarrow> 'i active_map \<times> 'i registry \<Rightarrow>
   (registry_error + unit) \<times> 'i active_map \<times> 'i registry" where
  "infer_bind clock request_id lease = (\<lambda>(active, r).
     if dict_get active request_id \<noteq> None then
       (case lease_release clock lease r of
          (Inl err, _, r1) \<Rightarrow> (Inl err, active, r1)
        | (Inr _, _, r1) \<Rightarrow> (Inl (RegistryError ''duplicate_request''), active, r1))
     else (Inr (), dict_set request_id (lease, bl_instance lease) active, r))"

definition infer_exit ::
  "pyval \<Rightarrow> string \<Rightarrow> 'i BackendLease \<Rightarrow> 'i active_map \<times> 'i registry \<Rightarrow>
   (registry_error + unit) \<times> 'i active_map \<times> 'i registry" where
  "infer_exit clock request_id lease = (\<lambda>(active, r).
     case lease_release clock lease r of
       (Inl err, _, r1) \<Rightarrow> (Inl err, dict_pop request_id active, r1)
     | (Inr _, _, r1) \<Rightarrow> (Inr (), dict_pop request_id active, r1))"

definition call_target ::
  "('i \<Rightarrow> target_kind) \<Rightarrow> ('i \<Rightarrow> 'q \<Rightarrow> 'e + 'o) \<Rightarrow> ('i \<Rightarrow> 'q \<Rightarrow> 'e + 'o) \<Rightarrow> 'i \<Rightarrow> 'q \<Rightarrow> ('e, 'o) infer_result" where
  "call_target kind infer_of generate_of target request =
     (case kind target of
        IsInferencePort \<Rightarrow> (case infer_of target request of Inl e \<Rightarrow> TargetRaised e | Inr v \<Rightarrow> Returned v)
      | IsManagedBackend \<Rightarrow> (case generate_of target request of Inl e \<Rightarrow> TargetRaised e | Inr v \<Rightarrow> Returned v)
      | IsNeither \<Rightarrow> RouterRaised (RegistryError ''invalid_route''))"

text \<open>\<open>InferenceRouter.infer\<close> without interference. An exception of the \<open>finally\<close> block replaces the result.\<close>

definition infer ::
  "(BackendDescriptor \<Rightarrow> string + 'i) \<Rightarrow> ('i \<Rightarrow> BackendCapabilities option) \<Rightarrow> (string \<Rightarrow> pyval) \<Rightarrow>
   ('i \<Rightarrow> target_kind) \<Rightarrow> ('i \<Rightarrow> 'q \<Rightarrow> 'e + 'o) \<Rightarrow> ('i \<Rightarrow> 'q \<Rightarrow> 'e + 'o) \<Rightarrow> pyval \<Rightarrow> string \<Rightarrow> 'q \<Rightarrow> SchedulingMetadata \<Rightarrow>
   'i active_map \<times> 'i registry \<Rightarrow> ('e, 'o) infer_result \<times> 'i active_map \<times> 'i registry" where
  "infer factory capabilities_of clock kind infer_of generate_of exit_clock model_id request scheduling = (\<lambda>(active, r).
     case infer_enter (sm_request_id scheduling) active of
       Inl err \<Rightarrow> (RouterRaised err, active, r)
     | Inr _ \<Rightarrow>
         (case acquire_backend factory capabilities_of clock model_id None False False r of
            (Inl err, r1) \<Rightarrow> (RouterRaised err, active, r1)
          | (Inr lease, r1) \<Rightarrow>
              (case infer_bind exit_clock (sm_request_id scheduling) lease (active, r1) of
                 (Inl err, st) \<Rightarrow> (RouterRaised err, st)
               | (Inr _, st) \<Rightarrow>
                   (let result = call_target kind infer_of generate_of (bl_instance lease) request in
                    case infer_exit exit_clock (sm_request_id scheduling) lease st of
                      (Inl err, st1) \<Rightarrow> (RouterRaised err, st1)
                    | (Inr _, st1) \<Rightarrow> (result, st1)))))"

definition router_cancel :: "('i \<Rightarrow> (string \<Rightarrow> bool) option) \<Rightarrow> string \<Rightarrow> 'i active_map \<Rightarrow> bool" where
  "router_cancel cancel_of request_id active =
     (case dict_get active request_id of
        None \<Rightarrow> False
      | Some (lease, target) \<Rightarrow> (case cancel_of target of None \<Rightarrow> False | Some c \<Rightarrow> c request_id))"

definition router_preferred_mode :: "string \<Rightarrow> 'i registry \<Rightarrow> registry_error + BackendMode" where
  "router_preferred_mode model r = registry_preferred_mode model r"

section \<open>No request leaks a lease\<close>

definition lease_counts :: "'i registry \<Rightarrow> string \<Rightarrow> nat option" where
  "lease_counts r n = map_option be_active_leases (dict_get r n)"

definition settled :: "'i registry \<Rightarrow> bool" where
  "settled r \<longleftrightarrow> (\<forall>n e. dict_get r n = Some e \<longrightarrow>
     (be_lifecycle e \<noteq> READY \<longrightarrow> be_active_leases e = 0) \<and> (be_lifecycle e = READY \<longrightarrow> be_instance e \<noteq> None))"

definition good_clock :: "pyval \<Rightarrow> bool" where
  "good_clock v \<longleftrightarrow> (\<exists>t. registry_now v = Inr t)"

lemma lease_counts_set: "lease_counts (dict_set n e r) = (lease_counts r)(n \<mapsto> be_active_leases e)"
  by (auto simp: lease_counts_def fun_eq_iff)

lemma settled_set:
  "settled r \<Longrightarrow> (be_lifecycle e \<noteq> READY \<longrightarrow> be_active_leases e = 0) \<Longrightarrow>
     (be_lifecycle e = READY \<longrightarrow> be_instance e \<noteq> None) \<Longrightarrow> settled (dict_set n e r)"
  by (auto simp: settled_def)

definition leased_once :: "'i registry \<Rightarrow> 'i BackendLease \<Rightarrow> 'i registry \<Rightarrow> bool" where
  "leased_once r l r' \<longleftrightarrow> \<not> bl_released l \<and>
     (\<exists>k e. lease_counts r (bl_name l) = Some k \<and> dict_get r' (bl_name l) = Some e \<and>
        be_generation e = bl_generation l \<and> be_active_leases e = Suc k \<and>
        lease_counts r' = (lease_counts r)(bl_name l \<mapsto> Suc k))"

lemma acquire_name_counts:
  assumes st: "settled r" and clock: "good_clock (clock n)"
    and got: "acquire_name factory caps clock n r = (res, r')"
  shows "settled r' \<and> (case res of Inl _ \<Rightarrow> lease_counts r' = lease_counts r | Inr l \<Rightarrow> leased_once r l r')"
proof (cases "dict_get r n")
  case None
  then show ?thesis using got st by (auto simp: acquire_name_def acquire_begin_def)
next
  case (Some e)
  obtain t where t: "registry_now (clock n) = Inr t" using clock by (auto simp: good_clock_def)
  have same: "lease_counts r n = Some (be_active_leases e)" using Some by (simp add: lease_counts_def)
  have ok: "be_lifecycle e \<noteq> READY \<longrightarrow> be_active_leases e = 0" "be_lifecycle e = READY \<longrightarrow> be_instance e \<noteq> None"
    using st Some by (auto simp: settled_def)
  consider (keep) "be_lifecycle e \<in> {LOADING, DRAINING}" | (ready) i where "be_lifecycle e = READY" "be_instance e = Some i"
    | (load) "be_lifecycle e \<in> {UNLOADED, FAILED}" "be_active_leases e = 0"
    using ok by (cases "be_lifecycle e") auto
  then show ?thesis
  proof cases
    case keep
    then show ?thesis using got st Some by (auto simp: acquire_name_def acquire_begin_def)
  next
    case (ready i)
    with got Some t show ?thesis
      by (auto simp: acquire_name_def acquire_begin_def leased_once_def lease_counts_set same st intro!: settled_set)
  next
    case load
    let ?r1 = "dict_set n (e\<lparr>be_lifecycle := LOADING, be_failure := None\<rparr>) r"
    have bgn: "acquire_begin (clock n) n r = (Load (be_descriptor e), ?r1)"
      using load Some by (auto simp: acquire_begin_def)
    have upd: "(lease_counts r)(n \<mapsto> 0) = lease_counts r" using same load by (auto simp: fun_eq_iff)
    show ?thesis
      using got bgn load t st
      by (auto simp: acquire_name_def acquire_fail_def acquire_finish_def Let_def leased_once_def
          lease_counts_set same upd intro!: settled_set split: sum.splits)
  qed
qed

lemma acquire_loop_counts:
  assumes "settled r" and "\<forall>n\<in>set names. good_clock (clock n)"
    and "acquire_loop factory caps clock names r = (res, r')"
  shows "settled r' \<and> (case res of Inl _ \<Rightarrow> lease_counts r' = lease_counts r | Inr l \<Rightarrow> leased_once r l r')"
  using assms
proof (induction names arbitrary: r)
  case Nil
  then show ?case by auto
next
  case (Cons n names)
  obtain res1 r1 where a: "acquire_name factory caps clock n r = (res1, r1)" by fastforce
  note one = acquire_name_counts [OF Cons.prems(1) _ a]
  show ?case
  proof (cases "\<exists>code. res1 = Inl (RegistryError code)")
    case True
    then have "settled r1" "lease_counts r1 = lease_counts r" using one Cons.prems(2) by auto
    moreover have "acquire_loop factory caps clock names r1 = (res, r')" using True a Cons.prems(3) by auto
    ultimately show ?thesis
      using Cons.IH [of r1] Cons.prems(2) by (cases res) (simp_all add: leased_once_def)
  next
    case False
    then have "res1 = res" "r1 = r'" using a Cons.prems(3) by (auto split: sum.splits registry_error.splits)
    then show ?thesis using one Cons.prems(2) by (cases res) simp_all
  qed
qed

lemma lease_release_restores:
  assumes "leased_once r l r'" and "registry_now clock = Inr t"
  shows "\<exists>l' r''. lease_release clock l r' = (Inr True, l', r'') \<and> lease_counts r'' = lease_counts r"
  using assms
  by (auto simp: leased_once_def lease_release_def registry_release_def Let_def lease_counts_set fun_eq_iff)

text \<open>
  The router leaks nothing: whatever the outcome of \<open>infer\<close> (a result, an exception of the
  target, an unusable route, no backend, a duplicate request), afterwards the map of active
  requests and every backend's lease counter are what they were before the call.
\<close>

theorem infer_restores:
  assumes "settled r" and "\<forall>n. good_clock (clock n)" and "good_clock exit_clock"
    and "infer factory caps clock kind infer_of generate_of exit_clock model request m (active, r) = (res, active', r')"
  shows "active' = active \<and> lease_counts r' = lease_counts r"
proof (cases "dict_get active (sm_request_id m)")
  case Some
  then show ?thesis using assms(4) by (simp add: infer_def infer_enter_def)
next
  case None
  then have enter: "infer_enter (sm_request_id m) active = Inr ()" by (simp add: infer_enter_def)
  obtain t where t: "registry_now exit_clock = Inr t" using assms(3) by (auto simp: good_clock_def)
  obtain got r1 where a: "acquire_backend factory caps clock model None False False r = (got, r1)" by fastforce
  have counts: "case got of Inl _ \<Rightarrow> lease_counts r1 = lease_counts r | Inr l \<Rightarrow> leased_once r l r1"
  proof (cases "candidate_names model None False False r = []")
    case True
    then show ?thesis using a by (auto simp: acquire_backend_def)
  next
    case False
    then have "acquire_loop factory caps clock (candidate_names model None False False r) r = (got, r1)"
      using a by (simp add: acquire_backend_def)
    from acquire_loop_counts [OF assms(1) _ this] show ?thesis using assms(2) by simp
  qed
  show ?thesis
  proof (cases got)
    case (Inl err)
    then show ?thesis using assms(4) enter a counts by (simp add: infer_def)
  next
    case (Inr l)
    obtain l' r'' where rel: "lease_release exit_clock l r1 = (Inr True, l', r'')" "lease_counts r'' = lease_counts r"
      using lease_release_restores [OF _ t] counts Inr by force
    have "dict_pop (sm_request_id m) (dict_set (sm_request_id m) x active) = active" for x
      using None by (simp add: delete_update_same map_of_eq_None_iff)
    then show ?thesis
      using assms(4) enter a Inr None rel by (auto simp: infer_def infer_bind_def infer_exit_def Let_def)
  qed
qed

theorem infer_restores_witness:
  "\<exists>res active' r'. infer (\<lambda>_. Inr (9 :: nat)) (\<lambda>_. None) (\<lambda>_. PInt 4) (\<lambda>_. IsManagedBackend)
       (\<lambda>_ _. Inl ()) (\<lambda>i q. Inr (i + q)) (PInt 5) ''m'' 2
       \<lparr>sm_request_id = ''r'', sm_workflow_id = ''w'', sm_agent_id = ''a'', sm_service_class = ''batch'',
        sm_weight = 1, sm_deadline_monotonic = None, sm_cache_scope = None, sm_session_cache = None\<rparr>
       ([], [(''b'', demo_backend_entry READY 1 3 (Some 7))]) = (res, active', r') \<and>
     active' = [] \<and> lease_counts r' = lease_counts [(''b'', demo_backend_entry READY 1 3 (Some 7))]"
proof -
  let ?m = "\<lparr>sm_request_id = ''r'', sm_workflow_id = ''w'', sm_agent_id = ''a'', sm_service_class = ''batch'',
        sm_weight = 1, sm_deadline_monotonic = None, sm_cache_scope = None, sm_session_cache = None\<rparr>"
  let ?r = "[(''b'', demo_backend_entry READY 1 3 (Some 7))]"
  have st: "settled ?r" by (simp add: settled_def demo_backend_entry_def)
  have clocks: "\<forall>n :: string. good_clock ((\<lambda>_. PInt 4) n)" "good_clock (PInt 5)"
    by (simp_all add: good_clock_def registry_now_def)
  obtain res active' r' where run: "infer (\<lambda>_. Inr (9 :: nat)) (\<lambda>_. None) (\<lambda>_. PInt 4) (\<lambda>_. IsManagedBackend)
       (\<lambda>_ _. Inl ()) (\<lambda>i q. Inr (i + q)) (PInt 5) ''m'' 2 ?m ([], ?r) = (res, active', r')"
    by (metis prod.collapse)
  then show ?thesis using infer_restores [OF st clocks run] by auto
qed

end
