(* ===== verification/Scheduler.thy ===== *)
theory Scheduler
  imports Admission
begin

text \<open>
  \<open>ContinuousBatchScheduler\<close> of \<open>inference_runtime/continuous_scheduler.py\<close>: the control plane
  that admits requests, opens sequences, runs prefill and decode microbatches and releases.

  One worker thread runs \<open>_run\<close>; callers enqueue, cancel and collect. A worker action that calls
  the backend outside the lock is two definitions, before and after the call (\<open>open_begin\<close> and
  \<open>open_end\<close>, \<open>prefill_begin\<close> and \<open>prefill_end\<close>, \<open>decode_begin\<close> and \<open>decode_end\<close>), so that the
  callers' steps can fall between them. What the backend answers is an argument: \<open>backend_exc + v\<close>
  is a raised exception or a value. The clock readings of one action are one argument. The events
  accepted by the sinks are appended to a log. Error details are not modelled, codes are.
\<close>

section \<open>State\<close>

datatype RuntimeRequestState =
  QUEUED | OPENING | PREFILL | PREFILL_INFLIGHT | DECODE | DECODE_INFLIGHT | RELEASING | TERMINAL

record InferenceRuntimeError =
  ie_code :: string
  ie_retryable :: bool

abbreviation runtime_error :: "string \<Rightarrow> bool \<Rightarrow> InferenceRuntimeError" where
  "runtime_error code retryable \<equiv> \<lparr>ie_code = code, ie_retryable = retryable\<rparr>"

text \<open>An exception raised by the backend, with its \<open>code\<close> attribute (empty if it has none).\<close>

record backend_exc =
  bx_code :: string

record 'c runtime_request =
  rq_model_id :: string
  rq_messages :: "(string \<times> string) list"
  rq_queue_timeout_ms :: int
  rq_execution_timeout_ms :: int
  rq_total_tokens :: int
  rq_contract :: 'c

record generate_result =
  gr_request_id :: string
  gr_attempt_id :: string
  gr_output :: pyval
  gr_completion :: SequenceCompletion
  gr_queue_ms :: rat
  gr_total_ms :: rat
  gr_context_limit :: int
  gr_context_headroom :: int

record 'c request_entry = schedulable +
  re_request :: "'c runtime_request"
  re_attempt_id :: string
  re_queue_deadline :: rat
  re_estimated_tokens :: int
  re_state :: RuntimeRequestState
  re_handle :: "SequenceHandle option"
  re_execution_deadline :: "rat option"
  re_opened_at :: "rat option"
  re_cancel_requested :: bool
  re_result :: "generate_result option"
  re_error :: "InferenceRuntimeError option"
  re_terminal_at :: "rat option"
  re_admitted_event_sent :: bool
  re_terminalizing :: bool
  re_release_confirmed :: bool
  re_final_deltas :: "string list"

record 'c scheduler =
  sd_entries :: "(string, 'c request_entry) odict"
  sd_queued :: "string list"
  sd_prefill :: "string list"
  sd_decode :: "string list"
  sd_decode_burst :: nat
  sd_stopping :: bool
  sd_stopped :: bool
  sd_fatal_error :: "InferenceRuntimeError option"
  sd_event_failures :: nat
  sd_next_order :: int
  sd_selector :: selector
  sd_admission :: ledger
  sd_log :: "SchedulerEvent list"

record 'c sched_config =
  sg_tick_token_budget :: int
  sg_max_pending_requests :: int
  sg_max_decode_burst :: int
  sg_policy :: RuntimeSchedulingPolicy
  sg_limits :: AdmissionLimits
  sg_capabilities :: BackendCapabilities
  sg_sink :: "SchedulerEvent \<Rightarrow> bool"
  sg_check_output :: "string \<Rightarrow> 'c \<Rightarrow> pyval option"

definition default_limits :: "int \<Rightarrow> int \<Rightarrow> int \<Rightarrow> int \<Rightarrow> limits_args" where
  "default_limits max_pending max_sequences kv_tokens max_context =
     (let agent_sequences = max 1 (max_sequences div 2) in
      \<lparr>al_max_pending = PInt max_pending, al_max_sequences = PInt max_sequences,
       al_kv_token_budget = PInt kv_tokens, al_max_pending_per_workflow = PInt max_pending,
       al_max_pending_per_agent = PInt (max 1 (max_pending div 2)),
       al_max_sequences_per_workflow = PInt max_sequences,
       al_max_sequences_per_agent = PInt agent_sequences,
       al_max_kv_tokens_per_workflow = PInt kv_tokens,
       al_max_kv_tokens_per_agent = PInt (min kv_tokens (max_context * agent_sequences)),
       al_load_shed_pending_threshold = PInt (max 1 ((max_pending * 3) div 4)),
       al_load_shed_min_priority = PInt 0\<rparr>)"

text \<open>
  The constructor for a backend that passed \<open>require_batch_steppable_backend\<close>. \<open>manifest_kv\<close> is
  \<open>backend.runtime_manifest.scheduler.kv_tokens\<close> where the backend has it.
\<close>

definition mk_sched_config ::
  "BackendCapabilities \<Rightarrow> int option \<Rightarrow> pyval \<Rightarrow> pyval \<Rightarrow> pyval \<Rightarrow> RuntimeSchedulingPolicy option \<Rightarrow>
   AdmissionLimits option \<Rightarrow> (SchedulerEvent \<Rightarrow> bool) \<Rightarrow> (string \<Rightarrow> 'c \<Rightarrow> pyval option) \<Rightarrow>
   governance_error + 'c sched_config" where
  "mk_sched_config caps manifest_kv tick pending burst policy limits sink check =
     rbind (limit_field tick ''tick_token_budget'') (\<lambda>tick_token_budget.
     rbind (limit_field pending ''max_pending_requests'') (\<lambda>max_pending.
     rbind (limit_field burst ''max_decode_burst'') (\<lambda>max_burst.
     case (bc_max_sequences_per_step caps, bc_max_prefill_tokens_per_step caps, bc_max_decode_tokens_per_step caps) of
       (None, _, _) \<Rightarrow> Inl (Raised (ValueError ''batch backend omitted max_sequences_per_step''))
     | (_, None, _) \<Rightarrow> Inl (Raised (ValueError ''batch backend omitted max_prefill_tokens_per_step''))
     | (_, _, None) \<Rightarrow> Inl (Raised (ValueError ''batch backend omitted max_decode_tokens_per_step''))
     | (Some seqs, _, _) \<Rightarrow>
         if tick_token_budget < seqs
         then Inl (Raised (ValueError ''tick budget must cover progress for the maximum decode batch''))
         else
           rbind (case policy of Some p \<Rightarrow> Inr p | None \<Rightarrow> policy_defaults) (\<lambda>p.
           rbind (case limits of
                    Some l \<Rightarrow> Inr l
                  | None \<Rightarrow>
                      (let max_sequences = (case bc_max_concurrent_sequences caps of None \<Rightarrow> 1 | Some n \<Rightarrow> if n = 0 then 1 else n);
                           kv = (case manifest_kv of Some k \<Rightarrow> k | None \<Rightarrow> bc_max_context_tokens caps * max_sequences) in
                       mk_AdmissionLimits (default_limits max_pending max_sequences kv (bc_max_context_tokens caps)))) (\<lambda>l.
             Inr \<lparr>sg_tick_token_budget = tick_token_budget, sg_max_pending_requests = max_pending,
                  sg_max_decode_burst = max_burst, sg_policy = p, sg_limits = l, sg_capabilities = caps,
                  sg_sink = sink, sg_check_output = check\<rparr>)))))"

definition empty_scheduler :: "'c scheduler" where
  "empty_scheduler = \<lparr>sd_entries = [], sd_queued = [], sd_prefill = [], sd_decode = [], sd_decode_burst = 0,
     sd_stopping = False, sd_stopped = False, sd_fatal_error = None, sd_event_failures = 0,
     sd_next_order = 0, sd_selector = mk_selector, sd_admission = [], sd_log = []\<rparr>"

definition entry_of :: "string \<Rightarrow> 'c scheduler \<Rightarrow> 'c request_entry option" where
  "entry_of k s = dict_get (sd_entries s) k"

definition set_entry :: "string \<Rightarrow> 'c request_entry \<Rightarrow> 'c scheduler \<Rightarrow> 'c scheduler" where
  "set_entry k e s = s\<lparr>sd_entries := dict_set k e (sd_entries s)\<rparr>"

definition state_is :: "string \<Rightarrow> RuntimeRequestState \<Rightarrow> 'c scheduler \<Rightarrow> bool" where
  "state_is k st s = (case entry_of k s of None \<Rightarrow> False | Some e \<Rightarrow> re_state e = st)"

definition nonterminal_entries :: "'c scheduler \<Rightarrow> 'c request_entry list" where
  "nonterminal_entries s = filter (\<lambda>e. re_state e \<noteq> TERMINAL) (dict_values (sd_entries s))"

section \<open>Events and errors\<close>

definition publish ::
  "'c sched_config \<Rightarrow> rat \<Rightarrow> string \<Rightarrow> SchedulerEventKind \<Rightarrow> SequenceHandle option \<Rightarrow> pyval \<Rightarrow> pyval \<Rightarrow>
   'c scheduler \<Rightarrow> 'c scheduler" where
  "publish cfg now request_id kind handle tokens error_code s =
     (case mk_SchedulerEvent kind (PStr request_id) (PFloat (Finite now)) handle tokens error_code of
        Inr event \<Rightarrow>
          if sg_sink cfg event then s\<lparr>sd_log := sd_log s @ [event]\<rparr>
          else s\<lparr>sd_event_failures := sd_event_failures s + 1\<rparr>
      | Inl _ \<Rightarrow> s\<lparr>sd_event_failures := sd_event_failures s + 1\<rparr>)"

definition backend_error :: "string \<Rightarrow> backend_exc \<Rightarrow> InferenceRuntimeError" where
  "backend_error code exc =
     runtime_error (py_prefix 128 (if bx_code exc = [] then code else bx_code exc)) True"

section \<open>Terminalization\<close>

definition send_admitted :: "'c sched_config \<Rightarrow> rat \<Rightarrow> string \<Rightarrow> 'c request_entry \<Rightarrow> 'c scheduler \<Rightarrow> 'c scheduler" where
  "send_admitted cfg now k e s =
     (if re_admitted_event_sent e then s
      else set_entry k (e\<lparr>re_admitted_event_sent := True\<rparr>) (publish cfg now k EvAdmitted None PNone PNone s))"

definition drop_scopes :: "string \<Rightarrow> 'c request_entry \<Rightarrow> 'c scheduler \<Rightarrow> selector" where
  "drop_scopes k e s =
     (let m = en_scheduling e;
          others = filter (\<lambda>(j, c). j \<noteq> k \<and> re_state c \<noteq> TERMINAL) (sd_entries s);
          same_agent = list_ex (\<lambda>(_, c). sm_workflow_id (en_scheduling c) = sm_workflow_id m \<and>
                          sm_agent_id (en_scheduling c) = sm_agent_id m) others;
          same_workflow = list_ex (\<lambda>(_, c). sm_workflow_id (en_scheduling c) = sm_workflow_id m) others
      in forget m (\<not> same_agent) (\<not> same_workflow) (sd_selector s))"

definition finish_entry ::
  "'c sched_config \<Rightarrow> rat \<Rightarrow> string \<Rightarrow> generate_result option \<Rightarrow> InferenceRuntimeError option \<Rightarrow>
   'c request_entry \<Rightarrow> 'c scheduler \<Rightarrow> 'c scheduler" where
  "finish_entry cfg now k result error e s =
     (let s1 = set_entry k (e\<lparr>re_terminalizing := True\<rparr>) s;
          s2 = (if re_release_confirmed e
                then s1\<lparr>sd_admission := snd (release_reservation (sm_request_id (en_scheduling e)) (sd_admission s1))\<rparr>
                else s1);
          s3 = (case result of
                  Some _ \<Rightarrow> publish cfg now k EvRequestCompleted None PNone PNone s2
                | None \<Rightarrow> publish cfg now k EvRequestFailed None PNone
                    (PStr (py_prefix 128 (case error of Some x \<Rightarrow> ie_code x | None \<Rightarrow> ''scheduler_invariant''))) s2);
          s4 = set_entry k (e\<lparr>re_terminalizing := True, re_state := TERMINAL, re_result := result,
                              re_error := error, re_terminal_at := Some now\<rparr>) s3
      in s4\<lparr>sd_selector := drop_scopes k e s4\<rparr>)"

definition exactly_one ::
  "generate_result option \<Rightarrow> InferenceRuntimeError option \<Rightarrow> generate_result option \<times> InferenceRuntimeError option" where
  "exactly_one result error =
     (if (result = None) = (error = None) then (None, Some (runtime_error ''scheduler_invariant'' False))
      else (result, error))"

definition terminalize ::
  "'c sched_config \<Rightarrow> rat \<Rightarrow> string \<Rightarrow> generate_result option \<Rightarrow> InferenceRuntimeError option \<Rightarrow>
   'c scheduler \<Rightarrow> 'c scheduler" where
  "terminalize cfg now k result error s =
     (case entry_of k s of
        None \<Rightarrow> s
      | Some e0 \<Rightarrow>
          (let s1 = send_admitted cfg now k e0 s;
               e1 = e0\<lparr>re_admitted_event_sent := True,
                       re_release_confirmed := (re_handle e0 = None \<or> re_release_confirmed e0)\<rparr>;
               s2 = set_entry k e1 s1
           in if re_state e1 = TERMINAL \<or> re_terminalizing e1 then s2
              else case exactly_one result error of (r, x) \<Rightarrow> finish_entry cfg now k r x e1 s2))"

definition release_and_terminalize ::
  "'c sched_config \<Rightarrow> rat \<Rightarrow> (SequenceHandle \<Rightarrow> backend_exc + ReleaseStatus) \<Rightarrow> string \<Rightarrow>
   generate_result option \<Rightarrow> InferenceRuntimeError option \<Rightarrow> 'c scheduler \<Rightarrow> 'c scheduler" where
  "release_and_terminalize cfg now release k result error s =
     (case entry_of k s of
        None \<Rightarrow> s
      | Some e \<Rightarrow>
          (case re_handle e of
             None \<Rightarrow> terminalize cfg now k result error (set_entry k (e\<lparr>re_release_confirmed := True\<rparr>) s)
           | Some h \<Rightarrow>
               (case release h of
                  Inl exc \<Rightarrow> terminalize cfg now k None (Some (backend_error ''backend_release_failed'' exc)) s
                | Inr status \<Rightarrow>
                    if status \<in> {Released, AlreadyReleased}
                    then terminalize cfg now k result error
                           (publish cfg now k EvSequenceReleased (Some h) PNone PNone
                              (set_entry k (e\<lparr>re_release_confirmed := True\<rparr>) s))
                    else terminalize cfg now k None
                           (Some (backend_error ''backend_release_failed'' \<lparr>bx_code = []\<rparr>)) s)))"

section \<open>Callers: infer, cancel, shutdown\<close>

definition estimate_reservation :: "BackendCapabilities \<Rightarrow> 'c runtime_request \<Rightarrow> int" where
  "estimate_reservation caps request =
     (let prompt_bytes = sum_list (map (\<lambda>(role, content). int (length content) + int (length role)) (rq_messages request));
          estimate = prompt_bytes + rq_total_tokens request + 64
      in min (bc_max_context_tokens caps) (max 1 estimate))"

definition queue_deadline_of :: "rat \<Rightarrow> 'c runtime_request \<Rightarrow> SchedulingMetadata \<Rightarrow> rat" where
  "queue_deadline_of now request m =
     (let d = now + of_int (rq_queue_timeout_ms request) / 1000 in
      case sm_deadline_monotonic m of None \<Rightarrow> d | Some t \<Rightarrow> min d t)"

definition new_entry ::
  "'c sched_config \<Rightarrow> rat \<Rightarrow> string \<Rightarrow> int \<Rightarrow> 'c runtime_request \<Rightarrow> SchedulingMetadata \<Rightarrow> 'c request_entry" where
  "new_entry cfg now attempt_id order_value request m =
     \<lparr>en_scheduling = m, en_admitted_at = now, en_order = order_value, re_request = request,
      re_attempt_id = attempt_id, re_queue_deadline = queue_deadline_of now request m,
      re_estimated_tokens = estimate_reservation (sg_capabilities cfg) request,
      re_state = QUEUED, re_handle = None, re_execution_deadline = None, re_opened_at = None,
      re_cancel_requested = False, re_result = None, re_error = None, re_terminal_at = None,
      re_admitted_event_sent = False, re_terminalizing = False, re_release_confirmed = False,
      re_final_deltas = []\<rparr>"

datatype submit_error = Rejected InferenceRuntimeError | SubmitRaised py_exc

text \<open>\<open>infer\<close> up to the wait for the terminal state.\<close>

definition infer_submit ::
  "'c sched_config \<Rightarrow> rat \<Rightarrow> string \<Rightarrow> 'c runtime_request \<Rightarrow> SchedulingMetadata \<Rightarrow> 'c scheduler \<Rightarrow>
   submit_error + 'c scheduler" where
  "infer_submit cfg now attempt_id request m s =
     (if queue_deadline_of now request m \<le> now then Inl (Rejected (runtime_error ''deadline_exceeded'' True))
      else if sd_stopped s then
        Inl (Rejected (case sd_fatal_error s of Some e \<Rightarrow> e | None \<Rightarrow> runtime_error ''shutdown'' True))
      else if sd_stopping s then Inl (Rejected (runtime_error ''shutdown'' True))
      else if entry_of (sm_request_id m) s \<noteq> None then Inl (Rejected (runtime_error ''duplicate_request'' False))
      else if sg_max_pending_requests cfg \<le> int (length (nonterminal_entries s))
        then Inl (Rejected (runtime_error ''queue_full'' True))
      else
        (let e = new_entry cfg now attempt_id (sd_next_order s) request m in
         case admit (sg_limits cfg) (sg_policy cfg) m (PInt (re_estimated_tokens e)) (sd_admission s) of
           Inl (AdmissionRejection code retryable) \<Rightarrow> Inl (Rejected (runtime_error code retryable))
         | Inl (Raised exc) \<Rightarrow> Inl (SubmitRaised exc)
         | Inr l \<Rightarrow>
             Inr ((set_entry (sm_request_id m) e s)
               \<lparr>sd_admission := l, sd_next_order := sd_next_order s + 1,
                sd_queued := sd_queued s @ [sm_request_id m]\<rparr>)))"

text \<open>\<open>infer\<close> after the wait: the entry is removed and its result or error delivered.\<close>

definition infer_collect ::
  "string \<Rightarrow> 'c scheduler \<Rightarrow> ((InferenceRuntimeError + generate_result) \<times> 'c scheduler) option" where
  "infer_collect k s =
     (case entry_of k s of
        None \<Rightarrow> None
      | Some e \<Rightarrow>
          if re_state e \<noteq> TERMINAL then None
          else Some (case re_error e of
                       Some x \<Rightarrow> Inl x
                     | None \<Rightarrow> (case re_result e of
                                   None \<Rightarrow> Inl (runtime_error ''scheduler_invariant'' False)
                                 | Some r \<Rightarrow> Inr r),
                     s\<lparr>sd_entries := dict_pop k (sd_entries s)\<rparr>))"

definition cancel :: "string \<Rightarrow> 'c scheduler \<Rightarrow> bool \<times> 'c scheduler" where
  "cancel k s =
     (case entry_of k s of
        None \<Rightarrow> (False, s)
      | Some e \<Rightarrow> if re_state e = TERMINAL then (False, s)
                  else (True, set_entry k (e\<lparr>re_cancel_requested := True\<rparr>) s))"

definition shutdown_flags :: "'c scheduler \<Rightarrow> 'c scheduler" where
  "shutdown_flags s =
     s\<lparr>sd_stopping := True,
       sd_entries := map (\<lambda>(k, e). (k, if re_state e = TERMINAL then e else e\<lparr>re_cancel_requested := True\<rparr>))
                       (sd_entries s)\<rparr>"

definition fail_all ::
  "'c sched_config \<Rightarrow> rat \<Rightarrow> (SequenceHandle \<Rightarrow> backend_exc + ReleaseStatus) \<Rightarrow> InferenceRuntimeError \<Rightarrow>
   'c scheduler \<Rightarrow> 'c scheduler" where
  "fail_all cfg now release err s =
     fold (\<lambda>k t. release_and_terminalize cfg now release k None (Some err) t)
       (map fst (filter (\<lambda>(k, e). re_state e \<noteq> TERMINAL) (sd_entries s))) s"

section \<open>Queues\<close>

text \<open>\<open>_pop_state_locked\<close>: stale ids are dropped, the selector picks among the candidates.\<close>

definition pop_state ::
  "'c sched_config \<Rightarrow> rat \<Rightarrow> string list \<Rightarrow> RuntimeRequestState \<Rightarrow> ('c request_entry \<Rightarrow> bool) \<Rightarrow> 'c scheduler \<Rightarrow>
   (governance_error + 'c request_entry option) \<times> string list \<times> 'c scheduler" where
  "pop_state cfg now queue st predicate s =
     (let valid_ids = filter (\<lambda>k. state_is k st s) queue;
          candidates = filter predicate (List.map_filter (\<lambda>k. entry_of k s) valid_ids) in
      case select (sg_policy cfg) candidates (PFloat (Finite now)) (sd_selector s) of
        (Inl err, sel) \<Rightarrow> (Inl err, valid_ids, s\<lparr>sd_selector := sel\<rparr>)
      | (Inr None, sel) \<Rightarrow> (Inr None, valid_ids, s\<lparr>sd_selector := sel\<rparr>)
      | (Inr (Some e), sel) \<Rightarrow>
          (Inr (Some e), remove1 (sm_request_id (en_scheduling e)) valid_ids, s\<lparr>sd_selector := sel\<rparr>))"

fun take_state ::
  "'c sched_config \<Rightarrow> rat \<Rightarrow> string list \<Rightarrow> RuntimeRequestState \<Rightarrow> nat \<Rightarrow> 'c scheduler \<Rightarrow>
   (governance_error + 'c request_entry list) \<times> string list \<times> 'c scheduler" where
  "take_state cfg now queue st 0 s = (Inr [], queue, s)"
| "take_state cfg now queue st (Suc limit) s =
     (case pop_state cfg now queue st (\<lambda>_. True) s of
        (Inl err, q, t) \<Rightarrow> (Inl err, q, t)
      | (Inr None, q, t) \<Rightarrow> (Inr [], q, t)
      | (Inr (Some e), q, t) \<Rightarrow>
          (case take_state cfg now q st limit t of
             (Inl err, q', t') \<Rightarrow> (Inl err, q', t')
           | (Inr es, q', t') \<Rightarrow> (Inr (e # es), q', t')))"

definition queue_has_state :: "string list \<Rightarrow> RuntimeRequestState \<Rightarrow> 'c scheduler \<Rightarrow> bool \<times> string list" where
  "queue_has_state queue st s =
     (let q = dropWhile (\<lambda>k. \<not> state_is k st s) queue in (q \<noteq> [], q))"

datatype action = RunDecode | RunPrefill | NoAction

definition choose_batch_action :: "'c sched_config \<Rightarrow> 'c scheduler \<Rightarrow> action \<times> 'c scheduler" where
  "choose_batch_action cfg s =
     (case queue_has_state (sd_decode s) DECODE s of (has_decode, d) \<Rightarrow>
        case queue_has_state (sd_prefill s) PREFILL s of (has_prefill, p) \<Rightarrow>
          (if has_decode \<and> (\<not> has_prefill \<or> int (sd_decode_burst s) < sg_max_decode_burst cfg) then RunDecode
           else if has_prefill then RunPrefill
           else if has_decode then RunDecode
           else NoAction,
           s\<lparr>sd_decode := d, sd_prefill := p\<rparr>))"

section \<open>Worker: boundaries and opening\<close>

definition entry_deadline :: "'c request_entry \<Rightarrow> rat option" where
  "entry_deadline e = (if re_handle e = None then Some (re_queue_deadline e) else re_execution_deadline e)"

definition boundary_error :: "rat \<Rightarrow> bool \<Rightarrow> 'c request_entry \<Rightarrow> InferenceRuntimeError option" where
  "boundary_error now stopping e =
     (if re_state e = TERMINAL then None
      else if stopping \<or> re_cancel_requested e then
        Some (runtime_error (if stopping then ''shutdown'' else ''cancelled'') stopping)
      else case entry_deadline e of
        None \<Rightarrow> None
      | Some d \<Rightarrow>
          if d \<le> now
          then Some (runtime_error (if re_handle e = None then ''queue_timeout'' else ''deadline_exceeded'') True)
          else None)"

definition find_boundary :: "rat \<Rightarrow> 'c scheduler \<Rightarrow> (string \<times> 'c request_entry) option" where
  "find_boundary now s = List.find (\<lambda>(k, e). boundary_error now (sd_stopping s) e \<noteq> None) (sd_entries s)"

definition process_terminal_boundaries ::
  "'c sched_config \<Rightarrow> rat \<Rightarrow> (SequenceHandle \<Rightarrow> backend_exc + ReleaseStatus) \<Rightarrow> 'c scheduler \<Rightarrow>
   bool \<times> 'c scheduler" where
  "process_terminal_boundaries cfg now release s =
     (case find_boundary now s of
        None \<Rightarrow> (False, s)
      | Some (k, e) \<Rightarrow>
          (True, release_and_terminalize cfg now release k None (boundary_error now (sd_stopping s) e)
                   (set_entry k (e\<lparr>re_state := RELEASING\<rparr>) s)))"

text \<open>\<open>_open_one\<close> up to the call of \<open>backend.open_sequence\<close>: the id of the entry to open.\<close>

definition open_begin :: "'c sched_config \<Rightarrow> rat \<Rightarrow> 'c scheduler \<Rightarrow> (governance_error + string option) \<times> 'c scheduler" where
  "open_begin cfg now s =
     (let active = length (filter (\<lambda>e. re_handle e \<noteq> None \<and> re_state e \<noteq> TERMINAL) (dict_values (sd_entries s)));
          capacity = (case bc_max_concurrent_sequences (sg_capabilities cfg) of None \<Rightarrow> 0 | Some n \<Rightarrow> n) in
      if capacity \<le> int active then (Inr None, s)
      else case pop_state cfg now (sd_queued s) QUEUED
                  (\<lambda>c. can_activate (sg_limits cfg) (sm_request_id (en_scheduling c)) (sd_admission s)) s of
        (Inl err, q, t) \<Rightarrow> (Inl err, t\<lparr>sd_queued := q\<rparr>)
      | (Inr None, q, t) \<Rightarrow> (Inr None, t\<lparr>sd_queued := q\<rparr>)
      | (Inr (Some e), q, t) \<Rightarrow>
          (let k = sm_request_id (en_scheduling e);
               e1 = e\<lparr>re_state := OPENING\<rparr> in
           (Inr (Some k), send_admitted cfg now k e1 (set_entry k e1 (t\<lparr>sd_queued := q\<rparr>)))))"

definition admission_exc :: "governance_error \<Rightarrow> backend_exc" where
  "admission_exc err = (case err of AdmissionRejection code _ \<Rightarrow> \<lparr>bx_code = code\<rparr> | Raised _ \<Rightarrow> \<lparr>bx_code = []\<rparr>)"

definition execution_deadline_of :: "rat \<Rightarrow> 'c request_entry \<Rightarrow> rat" where
  "execution_deadline_of now e =
     (let d = now + of_int (rq_execution_timeout_ms (re_request e)) / 1000 in
      case sm_deadline_monotonic (en_scheduling e) of None \<Rightarrow> d | Some t \<Rightarrow> min d t)"

text \<open>
  \<open>_open_one\<close> after \<open>open_sequence\<close> returned a handle and \<open>reservation_tokens\<close> was read
  (\<open>PNone\<close> when the backend has no reader).
\<close>

definition open_ready ::
  "'c sched_config \<Rightarrow> rat \<Rightarrow> (SequenceHandle \<Rightarrow> backend_exc + ReleaseStatus) \<Rightarrow> SequenceHandle \<Rightarrow> string \<Rightarrow>
   'c request_entry \<Rightarrow> 'c scheduler \<Rightarrow> 'c scheduler" where
  "open_ready cfg now release h k e s =
     (let deadline = execution_deadline_of now e;
          e1 = e\<lparr>re_handle := Some h, re_opened_at := Some now, re_execution_deadline := Some deadline\<rparr>;
          abort = (re_cancel_requested e \<or> sd_stopping s \<or> deadline \<le> now);
          s1 = (if abort then set_entry k (e1\<lparr>re_state := RELEASING\<rparr>) s
                else (set_entry k (e1\<lparr>re_state := PREFILL\<rparr>) s)\<lparr>sd_prefill := sd_prefill s @ [k]\<rparr>);
          s2 = publish cfg now k EvSequenceOpened (Some h) PNone PNone s1
      in if abort then
           release_and_terminalize cfg now release k None
             (Some (runtime_error (if re_cancel_requested e then ''cancelled'' else ''deadline_exceeded'')
                      (\<not> re_cancel_requested e))) s2
         else s2)"

definition open_end ::
  "'c sched_config \<Rightarrow> rat \<Rightarrow> (SequenceHandle \<Rightarrow> backend_exc + ReleaseStatus) \<Rightarrow> backend_exc + SequenceHandle \<Rightarrow>
   backend_exc + pyval \<Rightarrow> string \<Rightarrow> 'c scheduler \<Rightarrow> 'c scheduler" where
  "open_end cfg now release opened reservation k s =
     (case entry_of k s of
        None \<Rightarrow> s
      | Some e \<Rightarrow>
          (case opened of
             Inl exc \<Rightarrow> terminalize cfg now k None (Some (backend_error ''open_sequence_failed'' exc)) s
           | Inr h \<Rightarrow>
               (case rbind reservation (\<lambda>n.
                        case activate (sm_request_id (en_scheduling e)) n (sd_admission s) of
                          Inl err \<Rightarrow> Inl (admission_exc err) | Inr l \<Rightarrow> Inr l) of
                  Inl exc \<Rightarrow>
                    release_and_terminalize cfg now release k None
                      (Some (backend_error ''resource_admission_failed'' exc))
                      (publish cfg now k EvSequenceOpened (Some h) PNone PNone
                        (set_entry k (e\<lparr>re_handle := Some h, re_state := RELEASING\<rparr>) s))
                | Inr l \<Rightarrow>
                    open_ready cfg now release h k e
                      (s\<lparr>sd_admission := l, sd_selector := snd (charge (en_scheduling e) (PInt 1) (sd_selector s))\<rparr>))))"

section \<open>Worker: prefill microbatches\<close>

text \<open>
  The ids of the selected entries and the steps for the backend. The budget loop shares the
  remaining tick budget evenly over the remaining candidates.
\<close>

fun prefill_steps :: "int \<Rightarrow> int \<Rightarrow> 'c request_entry list \<Rightarrow> (string \<times> SequenceStep) list" where
  "prefill_steps max_tokens remaining [] = []"
| "prefill_steps max_tokens remaining (e # es) =
     (case re_handle e of
        None \<Rightarrow> prefill_steps max_tokens remaining es
      | Some h \<Rightarrow>
          (let slots_left = max 1 (int (length (e # es)));
               budget = min max_tokens (max 1 (remaining div slots_left)) in
           (sm_request_id (en_scheduling e), \<lparr>st_handle = h, st_token_budget = budget\<rparr>)
             # prefill_steps max_tokens (remaining - budget) es))"

definition set_state :: "RuntimeRequestState \<Rightarrow> string \<Rightarrow> 'c scheduler \<Rightarrow> 'c scheduler" where
  "set_state st k s = (case entry_of k s of None \<Rightarrow> s | Some e \<Rightarrow> set_entry k (e\<lparr>re_state := st\<rparr>) s)"

definition prefill_begin ::
  "'c sched_config \<Rightarrow> rat \<Rightarrow> 'c scheduler \<Rightarrow> (governance_error + string list \<times> SequenceStep list) \<times> 'c scheduler" where
  "prefill_begin cfg now s =
     (case (bc_max_sequences_per_step (sg_capabilities cfg), bc_max_prefill_tokens_per_step (sg_capabilities cfg)) of
        (Some seqs, Some max_tokens) \<Rightarrow>
          (case take_state cfg now (sd_prefill s) PREFILL (nat seqs) s of
             (Inl err, q, t) \<Rightarrow> (Inl err, t\<lparr>sd_prefill := q\<rparr>)
           | (Inr es, q, t) \<Rightarrow>
               (let steps = prefill_steps max_tokens (sg_tick_token_budget cfg) es in
                (Inr (map fst steps, map snd steps),
                 fold (set_state PREFILL_INFLIGHT) (map fst steps) (t\<lparr>sd_prefill := q\<rparr>))))
      | _ \<Rightarrow> (Inl (Raised (RuntimeErr ''AssertionError'')), s))"

text \<open>The lock section after the backend call: one step per outcome.\<close>

definition prefill_outcome :: "string \<times> PrefillOutcome \<Rightarrow> 'c scheduler \<Rightarrow> 'c scheduler" where
  "prefill_outcome = (\<lambda>(k, p) s.
     case entry_of k s of
       None \<Rightarrow> s
     | Some e \<Rightarrow>
         if re_handle e \<noteq> Some (po_handle p)
         then set_entry k (e\<lparr>re_state := RELEASING, re_error := Some (runtime_error ''protocol_violation'' True)\<rparr>) s
         else if po_status p = PrefillReady
         then (set_entry k (e\<lparr>re_state := DECODE\<rparr>) s)\<lparr>sd_decode := sd_decode s @ [k]\<rparr>
         else (set_entry k (e\<lparr>re_state := PREFILL\<rparr>) s)\<lparr>sd_prefill := sd_prefill s @ [k]\<rparr>)"

definition charge_tokens :: "SchedulingMetadata \<Rightarrow> int \<Rightarrow> 'c scheduler \<Rightarrow> 'c scheduler" where
  "charge_tokens m n s =
     (if n = 0 then s else s\<lparr>sd_selector := snd (charge m (PInt n) (sd_selector s))\<rparr>)"

definition prefill_event :: "'c sched_config \<Rightarrow> rat \<Rightarrow> string \<times> PrefillOutcome \<Rightarrow> 'c scheduler \<Rightarrow> 'c scheduler" where
  "prefill_event cfg now = (\<lambda>(k, p) s.
     case entry_of k s of
       None \<Rightarrow> s
     | Some e \<Rightarrow>
         if re_handle e \<noteq> Some (po_handle p) then s
         else publish cfg now k EvPrefillCompleted (re_handle e) (PInt (po_processed_tokens p)) PNone
                (charge_tokens (en_scheduling e) (po_processed_tokens p) s))"

definition release_failed ::
  "'c sched_config \<Rightarrow> rat \<Rightarrow> (SequenceHandle \<Rightarrow> backend_exc + ReleaseStatus) \<Rightarrow> string \<Rightarrow> 'c scheduler \<Rightarrow> 'c scheduler" where
  "release_failed cfg now release k s =
     (case entry_of k s of
        None \<Rightarrow> s
      | Some e \<Rightarrow> if re_state e = RELEASING then release_and_terminalize cfg now release k None (re_error e) s else s)"

definition fail_batch ::
  "'c sched_config \<Rightarrow> rat \<Rightarrow> (SequenceHandle \<Rightarrow> backend_exc + ReleaseStatus) \<Rightarrow> InferenceRuntimeError \<Rightarrow>
   string list \<Rightarrow> 'c scheduler \<Rightarrow> 'c scheduler" where
  "fail_batch cfg now release err ks s =
     fold (\<lambda>k t. release_and_terminalize cfg now release k None (Some err) t) ks s"

definition prefill_end ::
  "'c sched_config \<Rightarrow> rat \<Rightarrow> (SequenceHandle \<Rightarrow> backend_exc + ReleaseStatus) \<Rightarrow> string list \<Rightarrow>
   backend_exc + PrefillOutcome list \<Rightarrow> 'c scheduler \<Rightarrow> 'c scheduler" where
  "prefill_end cfg now release ks answer s =
     (case rbind answer (\<lambda>ps. if length ps \<noteq> length ks then Inl \<lparr>bx_code = []\<rparr> else Inr ps) of
        Inl exc \<Rightarrow> fail_batch cfg now release (backend_error ''prefill_batch_failed'' exc) ks s
      | Inr ps \<Rightarrow>
          (let s1 = (fold prefill_outcome (zip ks ps) s)\<lparr>sd_decode_burst := 0\<rparr>;
               s2 = fold (prefill_event cfg now) (zip ks ps) s1
           in fold (release_failed cfg now release) ks s2))"

section \<open>Worker: decode microbatches\<close>

definition decode_begin ::
  "'c sched_config \<Rightarrow> rat \<Rightarrow> 'c scheduler \<Rightarrow> (governance_error + string list \<times> SequenceStep list) \<times> 'c scheduler" where
  "decode_begin cfg now s =
     (case (bc_max_sequences_per_step (sg_capabilities cfg), bc_max_decode_tokens_per_step (sg_capabilities cfg)) of
        (Some seqs, Some max_tokens) \<Rightarrow>
          (case take_state cfg now (sd_decode s) DECODE (nat (min seqs (sg_tick_token_budget cfg))) s of
             (Inl err, q, t) \<Rightarrow> (Inl err, t\<lparr>sd_decode := q\<rparr>)
           | (Inr es, q, t) \<Rightarrow>
               (let quantum = min max_tokens (max 1 (sg_tick_token_budget cfg div max 1 (int (length es))));
                    steps = List.map_filter (\<lambda>e. map_option (\<lambda>h. (sm_request_id (en_scheduling e),
                                \<lparr>st_handle = h, st_token_budget = quantum\<rparr>)) (re_handle e)) es in
                (Inr (map (\<lambda>e. sm_request_id (en_scheduling e)) es, map snd steps),
                 fold (set_state DECODE_INFLIGHT) (map fst steps) (t\<lparr>sd_decode := q\<rparr>))))
      | _ \<Rightarrow> (Inl (Raised (RuntimeErr ''AssertionError'')), s))"

text \<open>An outcome for the wrong sequence is replaced by a failed outcome for the right one.\<close>

definition checked_outcome :: "'c request_entry \<Rightarrow> DecodeOutcome \<Rightarrow> DecodeOutcome" where
  "checked_outcome e d =
     (case re_handle e of
        Some h \<Rightarrow> if do_handle d \<noteq> h
                  then \<lparr>do_handle = h, do_status = DecodeFailed, do_token_ids = [], do_text_delta = [],
                        do_finish_reason = None, do_completion = None, do_error_code = Some ''protocol_violation''\<rparr>
                  else d
      | None \<Rightarrow> d)"

definition decode_outcome :: "string \<times> DecodeOutcome \<Rightarrow> 'c scheduler \<Rightarrow> 'c scheduler" where
  "decode_outcome = (\<lambda>(k, d0) s.
     case entry_of k s of
       None \<Rightarrow> s
     | Some e \<Rightarrow>
         (let d = checked_outcome e d0;
              e1 = (if do_text_delta d = [] then e else e\<lparr>re_final_deltas := re_final_deltas e @ [do_text_delta d]\<rparr>) in
          if do_status d = DecodeProgressed
          then (set_entry k (e1\<lparr>re_state := DECODE\<rparr>) s)\<lparr>sd_decode := sd_decode s @ [k]\<rparr>
          else set_entry k (e1\<lparr>re_state := RELEASING\<rparr>) s))"

definition decode_event :: "'c sched_config \<Rightarrow> rat \<Rightarrow> string \<times> DecodeOutcome \<Rightarrow> 'c scheduler \<Rightarrow> 'c scheduler" where
  "decode_event cfg now = (\<lambda>(k, d0) s.
     case entry_of k s of
       None \<Rightarrow> s
     | Some e \<Rightarrow>
         (let n = int (length (do_token_ids (checked_outcome e d0))) in
          publish cfg now k EvDecodeCompleted (re_handle e) (PInt n) PNone (charge_tokens (en_scheduling e) n s)))"

definition make_result ::
  "'c sched_config \<Rightarrow> rat \<Rightarrow> 'c request_entry \<Rightarrow> SequenceCompletion \<Rightarrow> pyval \<Rightarrow> generate_result" where
  "make_result cfg now e c output =
     (let opened = (case re_opened_at e of Some t \<Rightarrow> if t = 0 then now else t | None \<Rightarrow> now);
          limit = bc_max_context_tokens (sg_capabilities cfg) in
      \<lparr>gr_request_id = sm_request_id (en_scheduling e), gr_attempt_id = re_attempt_id e, gr_output = output,
       gr_completion = c, gr_queue_ms = max 0 (opened - en_admitted_at e) * 1000,
       gr_total_ms = max 0 (now - en_admitted_at e) * 1000, gr_context_limit = limit,
       gr_context_headroom = max 0 (limit - co_prompt_tokens c - rq_total_tokens (re_request e))\<rparr>)"

definition complete_entry ::
  "'c sched_config \<Rightarrow> rat \<Rightarrow> (SequenceHandle \<Rightarrow> backend_exc + ReleaseStatus) \<Rightarrow> string \<Rightarrow>
   SequenceCompletion option \<Rightarrow> 'c scheduler \<Rightarrow> 'c scheduler" where
  "complete_entry cfg now release k completion s =
     (case entry_of k s of
        None \<Rightarrow> s
      | Some e \<Rightarrow>
          (case completion of
             None \<Rightarrow> release_and_terminalize cfg now release k None (Some (runtime_error ''protocol_violation'' True)) s
           | Some c \<Rightarrow>
               if concat (re_final_deltas e) \<noteq> co_final_text c
               then release_and_terminalize cfg now release k None (Some (runtime_error ''protocol_violation'' True)) s
               else (case sg_check_output cfg (co_final_text c) (rq_contract (re_request e)) of
                       None \<Rightarrow> release_and_terminalize cfg now release k None (Some (runtime_error ''output_invalid'' False)) s
                     | Some output \<Rightarrow>
                         release_and_terminalize cfg now release k (Some (make_result cfg now e c output)) None s)))"

definition decode_failure :: "DecodeOutcome \<Rightarrow> InferenceRuntimeError" where
  "decode_failure d =
     (let code = (case do_error_code d of Some c \<Rightarrow> c | None \<Rightarrow> []) in
      runtime_error (if code = [] then ''decode_failed'' else code) (starts_with ''backend_'' code))"

definition decode_terminal ::
  "'c sched_config \<Rightarrow> rat \<Rightarrow> (SequenceHandle \<Rightarrow> backend_exc + ReleaseStatus) \<Rightarrow> string \<times> DecodeOutcome \<Rightarrow>
   'c scheduler \<Rightarrow> 'c scheduler" where
  "decode_terminal cfg now release = (\<lambda>(k, d0) s.
     case entry_of k s of
       None \<Rightarrow> s
     | Some e \<Rightarrow>
         (let d = checked_outcome e d0 in
          case do_status d of
            DecodeProgressed \<Rightarrow> s
          | DecodeFailed \<Rightarrow> release_and_terminalize cfg now release k None (Some (decode_failure d)) s
          | DecodeFinished \<Rightarrow> complete_entry cfg now release k (do_completion d) s))"

definition decode_end ::
  "'c sched_config \<Rightarrow> rat \<Rightarrow> (SequenceHandle \<Rightarrow> backend_exc + ReleaseStatus) \<Rightarrow> string list \<Rightarrow>
   backend_exc + DecodeOutcome list \<Rightarrow> 'c scheduler \<Rightarrow> 'c scheduler" where
  "decode_end cfg now release ks answer s =
     (case rbind answer (\<lambda>ds. if length ds \<noteq> length ks then Inl \<lparr>bx_code = []\<rparr> else Inr ds) of
        Inl exc \<Rightarrow> fail_batch cfg now release (backend_error ''decode_batch_failed'' exc) ks s
      | Inr ds \<Rightarrow>
          (let s1 = fold decode_outcome (zip ks ds) s;
               s2 = s1\<lparr>sd_decode_burst := sd_decode_burst s1 + 1\<rparr>;
               s3 = fold (decode_event cfg now) (zip ks ds) s2
           in fold (decode_terminal cfg now release) (zip ks ds) s3))"

section \<open>Worker: idle and crash\<close>

definition has_immediate_work :: "'c sched_config \<Rightarrow> rat \<Rightarrow> 'c scheduler \<Rightarrow> bool" where
  "has_immediate_work cfg now s \<longleftrightarrow>
     list_ex (\<lambda>e. boundary_error now (sd_stopping s) e \<noteq> None) (dict_values (sd_entries s)) \<or>
     fst (queue_has_state (sd_prefill s) PREFILL s) \<or> fst (queue_has_state (sd_decode s) DECODE s) \<or>
     list_ex (\<lambda>k. state_is k QUEUED s \<and> can_activate (sg_limits cfg) k (sd_admission s)) (sd_queued s)"

definition next_deadline_wait :: "rat \<Rightarrow> 'c scheduler \<Rightarrow> rat option" where
  "next_deadline_wait now s =
     (case List.map_filter entry_deadline (nonterminal_entries s) of
        [] \<Rightarrow> None
      | d # ds \<Rightarrow> Some (max 0 (fold min ds d - now)))"

definition worker_stop :: "'c scheduler \<Rightarrow> 'c scheduler option" where
  "worker_stop s =
     (if sd_stopping s \<and> nonterminal_entries s = [] then Some (s\<lparr>sd_stopped := True\<rparr>) else None)"

definition worker_crash ::
  "'c sched_config \<Rightarrow> rat \<Rightarrow> (SequenceHandle \<Rightarrow> backend_exc + ReleaseStatus) \<Rightarrow> 'c scheduler \<Rightarrow> 'c scheduler" where
  "worker_crash cfg now release s =
     (let err = runtime_error ''scheduler_crashed'' True in
      (fail_all cfg now release err (s\<lparr>sd_fatal_error := Some err\<rparr>))\<lparr>sd_stopped := True\<rparr>)"

definition shutdown_unstarted ::
  "'c sched_config \<Rightarrow> rat \<Rightarrow> (SequenceHandle \<Rightarrow> backend_exc + ReleaseStatus) \<Rightarrow> 'c scheduler \<Rightarrow> 'c scheduler" where
  "shutdown_unstarted cfg now release s =
     (fail_all cfg now release (runtime_error ''shutdown'' True) (shutdown_flags s))\<lparr>sd_stopped := True\<rparr>"

end
