(* ===== verification/SchedulerSafety.thy ===== *)
theory SchedulerSafety
  imports Scheduler
begin

text \<open>
  Safety of the continuous batch scheduler: token budgets of the microbatches, the resource
  ledger under the interleaving of callers and worker, no lost request, and what a terminal
  request guarantees.
\<close>

section \<open>Token budgets\<close>

definition budgets_ok :: "int \<Rightarrow> int \<Rightarrow> SequenceStep list \<Rightarrow> bool" where
  "budgets_ok max_tokens tick steps \<longleftrightarrow>
     sum_list (map st_token_budget steps) \<le> tick \<and>
     list_all (\<lambda>st. 1 \<le> st_token_budget st \<and> st_token_budget st \<le> max_tokens) steps"

lemma div_at_least_one: "0 < n \<Longrightarrow> n \<le> t \<Longrightarrow> 1 \<le> t div (n :: int)"
  using zdiv_mono1 [of n t n] by simp

lemma mult_div_below: "0 < n \<Longrightarrow> n * (t div n) \<le> (t :: int)"
  using pos_mod_sign [of n t] mult_div_mod_eq [of n t] by linarith

lemma prefill_steps_bounds:
  assumes "0 < m" and "int (length es) \<le> remaining"
  shows "budgets_ok m remaining (map snd (prefill_steps m remaining es))"
  using assms(2)
proof (induction es arbitrary: remaining)
  case Nil
  then show ?case by (simp add: budgets_ok_def)
next
  case (Cons e es)
  show ?case
  proof (cases "re_handle e")
    case None
    with Cons show ?thesis by simp
  next
    case (Some h)
    let ?n = "int (length (e # es))"
    define b where "b = min m (max 1 (remaining div ?n))"
    have n: "0 < ?n" "max 1 ?n = ?n" by simp_all
    have share: "1 \<le> remaining div ?n" using Cons.prems by (intro div_at_least_one) auto
    then have b: "1 \<le> b" "b \<le> m" "b \<le> remaining div ?n" using assms(1) by (auto simp: b_def)
    have "?n * (remaining div ?n) \<le> remaining" using n(1) by (rule mult_div_below)
    moreover have "(?n - 1) * 1 \<le> (?n - 1) * (remaining div ?n)" using share n by (intro mult_left_mono) auto
    ultimately have "int (length es) + b \<le> remaining" using b(3) by (simp add: algebra_simps)
    then have "int (length es) \<le> remaining - b" by simp
    moreover have "prefill_steps m remaining (e # es) = (sm_request_id (en_scheduling e),
        \<lparr>st_handle = h, st_token_budget = b\<rparr>) # prefill_steps m (remaining - b) es"
      using Some n by (simp add: Let_def b_def)
    ultimately show ?thesis using Cons.IH [of "remaining - b"] b by (simp add: budgets_ok_def)
  qed
qed

lemma prefill_steps_length: "length (prefill_steps m r es) \<le> length es"
  by (induction m r es rule: prefill_steps.induct) (auto split: option.splits simp: Let_def)

lemma take_state_length:
  "take_state cfg now q st n s = (Inr es, q', t) \<Longrightarrow> length es \<le> n"
proof (induction n arbitrary: q s es q' t)
  case (Suc n)
  then show ?case
    by (auto split: prod.splits sum.splits option.splits dest!: Suc.IH)
qed simp

lemma decode_quantum_total:
  assumes "0 < m" and "0 \<le> n" and "n \<le> tick" and "k \<le> n"
  shows "k * min m (max 1 (tick div max 1 n)) \<le> (tick :: int)"
proof (cases "n = 0")
  case True
  then have "k * min m (max 1 (tick div max 1 n)) \<le> 0"
    using assms by (intro mult_nonpos_nonneg) auto
  then show ?thesis using assms by simp
next
  case False
  then have n: "max 1 n = n" "0 < n" using assms(2) by auto
  then have "1 \<le> tick div n" using assms(3) by (intro div_at_least_one) auto
  then have q: "0 \<le> min m (max 1 (tick div n))" "min m (max 1 (tick div n)) \<le> tick div n" using assms(1) by auto
  have "k * min m (max 1 (tick div n)) \<le> n * min m (max 1 (tick div n))"
    using assms(4) q(1) by (rule mult_right_mono)
  also have "\<dots> \<le> n * (tick div n)" using q(2) n(2) by (intro mult_left_mono) auto
  also have "\<dots> \<le> tick" using n(2) by (rule mult_div_below)
  finally show ?thesis by (simp add: n)
qed

text \<open>
  C25: A microbatch never exceeds the tick token budget or the backend's limits: the budgets of a
  prefill batch and of a decode batch sum to at most the tick budget, every sequence of the batch
  gets at least one token (so it makes progress) and at most the per-step limit, and the batch has
  at most the permitted number of sequences.
\<close>

theorem microbatch_budgets:
  assumes "bc_max_sequences_per_step (sg_capabilities cfg) = Some seqs" and "0 < seqs"
    and "seqs \<le> sg_tick_token_budget cfg"
    and "bc_max_prefill_tokens_per_step (sg_capabilities cfg) = Some mp" and "0 < mp"
    and "bc_max_decode_tokens_per_step (sg_capabilities cfg) = Some md" and "0 < md"
  shows "(prefill_begin cfg now s = (Inr (ks, steps), t) \<longrightarrow>
      budgets_ok mp (sg_tick_token_budget cfg) steps \<and> int (length steps) \<le> seqs) \<and>
    (decode_begin cfg now s = (Inr (ks, steps), t) \<longrightarrow>
      budgets_ok md (sg_tick_token_budget cfg) steps \<and> int (length steps) \<le> seqs)"
proof (intro conjI impI)
  assume "prefill_begin cfg now s = (Inr (ks, steps), t)"
  then obtain es q u where es: "take_state cfg now (sd_prefill s) PREFILL (nat seqs) s = (Inr es, q, u)"
    and steps: "steps = map snd (prefill_steps mp (sg_tick_token_budget cfg) es)"
    using assms(1,4) by (auto simp: prefill_begin_def Let_def split: prod.splits sum.splits)
  have "int (length es) \<le> seqs" using take_state_length [OF es] assms(2) by simp
  then show "budgets_ok mp (sg_tick_token_budget cfg) steps" "int (length steps) \<le> seqs"
    using prefill_steps_bounds [OF assms(5), of es "sg_tick_token_budget cfg"] assms(3)
      prefill_steps_length [of mp "sg_tick_token_budget cfg" es]
    by (simp_all add: steps)
next
  assume "decode_begin cfg now s = (Inr (ks, steps), t)"
  then obtain es q u where es: "take_state cfg now (sd_decode s) DECODE (nat (min seqs (sg_tick_token_budget cfg))) s
      = (Inr es, q, u)"
    and steps: "steps = map snd (List.map_filter (\<lambda>e. map_option (\<lambda>h. (sm_request_id (en_scheduling e),
        \<lparr>st_handle = h, st_token_budget = min md (max 1 (sg_tick_token_budget cfg div max 1 (int (length es))))\<rparr>))
        (re_handle e)) es)"
    using assms(1,6) by (auto simp: decode_begin_def Let_def split: prod.splits sum.splits)
  let ?quantum = "min md (max 1 (sg_tick_token_budget cfg div max 1 (int (length es))))"
  have len: "int (length es) \<le> seqs" using take_state_length [OF es] assms(2) by simp
  have "length steps \<le> length es"
    unfolding steps List.map_filter_def by simp
  moreover have all: "list_all (\<lambda>st. st_token_budget st = ?quantum) steps"
    unfolding steps List.map_filter_def by (auto simp: list_all_iff split: option.splits)
  moreover have "sum_list (map st_token_budget steps) = int (length steps) * ?quantum"
    using all by (induction steps) (auto simp: algebra_simps)
  ultimately show "budgets_ok md (sg_tick_token_budget cfg) steps" "int (length steps) \<le> seqs"
    using len decode_quantum_total [OF assms(7), of "int (length es)" "sg_tick_token_budget cfg" "int (length steps)"] assms(3,7)
    by (auto simp: budgets_ok_def list_all_iff)
qed

section \<open>Invariant\<close>

text \<open>What the result of a completed request must satisfy: it is the validated text that was streamed.\<close>

definition result_ok :: "'c sched_config \<Rightarrow> 'c request_entry \<Rightarrow> generate_result \<Rightarrow> bool" where
  "result_ok cfg e r \<longleftrightarrow>
     concat (re_final_deltas e) = co_final_text (gr_completion r) \<and>
     sg_check_output cfg (co_final_text (gr_completion r)) (rq_contract (re_request e)) = Some (gr_output r) \<and>
     gr_request_id r = sm_request_id (en_scheduling e) \<and> gr_attempt_id r = re_attempt_id e"

definition terminal_ok :: "'c sched_config \<Rightarrow> 'c request_entry \<Rightarrow> bool" where
  "terminal_ok cfg e \<longleftrightarrow> re_terminalizing e \<and> (re_result e = None) \<noteq> (re_error e = None) \<and>
     (\<forall>r. re_result e = Some r \<longrightarrow> re_release_confirmed e \<and> result_ok cfg e r)"

definition pending_res :: "string \<Rightarrow> 'c request_entry \<Rightarrow> ledger \<Rightarrow> bool" where
  "pending_res k e l \<longleftrightarrow> (\<exists>r. dict_get l k = Some r \<and> rv_scheduling r = en_scheduling e \<and> rv_reserved_tokens r = None)"

definition active_res :: "string \<Rightarrow> 'c request_entry \<Rightarrow> ledger \<Rightarrow> bool" where
  "active_res k e l \<longleftrightarrow> (\<exists>r. dict_get l k = Some r \<and> rv_scheduling r = en_scheduling e \<and> rv_reserved_tokens r \<noteq> None)"

text \<open>
  Where a request is. \<open>busy\<close> holds the ids the worker has taken out of the queues. A request that
  is not terminal waits in the queue of its state or is busy, and owns the reservation that its
  state needs; a completed request owns none.
\<close>

definition located :: "'c sched_config \<Rightarrow> string set \<Rightarrow> 'c scheduler \<Rightarrow> string \<Rightarrow> 'c request_entry \<Rightarrow> bool" where
  "located cfg busy s k e =
     (case re_state e of
        QUEUED \<Rightarrow> k \<in> set (sd_queued s) \<and> re_handle e = None \<and> pending_res k e (sd_admission s)
      | OPENING \<Rightarrow> k \<in> busy \<and> re_handle e = None \<and> pending_res k e (sd_admission s)
      | PREFILL \<Rightarrow> k \<in> set (sd_prefill s) \<and> re_handle e \<noteq> None \<and> active_res k e (sd_admission s)
      | PREFILL_INFLIGHT \<Rightarrow> k \<in> busy \<and> re_handle e \<noteq> None \<and> active_res k e (sd_admission s)
      | DECODE \<Rightarrow> k \<in> set (sd_decode s) \<and> re_handle e \<noteq> None \<and> active_res k e (sd_admission s)
      | DECODE_INFLIGHT \<Rightarrow> k \<in> busy \<and> re_handle e \<noteq> None \<and> active_res k e (sd_admission s)
      | RELEASING \<Rightarrow> k \<in> busy
      | TERMINAL \<Rightarrow> terminal_ok cfg e \<and> (re_result e \<noteq> None \<longrightarrow> dict_get (sd_admission s) k = None))"

definition entry_good :: "'c sched_config \<Rightarrow> string set \<Rightarrow> 'c scheduler \<Rightarrow> string \<Rightarrow> 'c request_entry \<Rightarrow> bool" where
  "entry_good cfg busy s k e \<longleftrightarrow> sm_request_id (en_scheduling e) = k \<and> located cfg busy s k e \<and>
     (re_state e \<noteq> TERMINAL \<longrightarrow> \<not> re_terminalizing e \<and> known_class (sg_policy cfg) e \<and>
        (re_state e \<noteq> RELEASING \<longrightarrow> \<not> re_release_confirmed e))"

definition sched_inv :: "'c sched_config \<Rightarrow> string set \<Rightarrow> 'c scheduler \<Rightarrow> bool" where
  "sched_inv cfg busy s \<longleftrightarrow> ledger_ok (sg_limits cfg) (sd_admission s) \<and>
     (\<forall>k e. entry_of k s = Some e \<longrightarrow> entry_good cfg busy s k e)"

text \<open>Only some fields matter for the invariant.\<close>

definition same_queues :: "'c scheduler \<Rightarrow> 'c scheduler \<Rightarrow> bool" where
  "same_queues s t \<longleftrightarrow> sd_queued t = sd_queued s \<and> sd_prefill t = sd_prefill s \<and> sd_decode t = sd_decode s"

lemma publish_fields [simp]:
  "sd_entries (publish cfg now k kind h n c s) = sd_entries s"
  "sd_queued (publish cfg now k kind h n c s) = sd_queued s"
  "sd_prefill (publish cfg now k kind h n c s) = sd_prefill s"
  "sd_decode (publish cfg now k kind h n c s) = sd_decode s"
  "sd_admission (publish cfg now k kind h n c s) = sd_admission s"
  "entry_of j (publish cfg now k kind h n c s) = entry_of j s"
  "sd_stopping (publish cfg now k kind h n c s) = sd_stopping s"
  by (simp_all add: publish_def entry_of_def split: sum.splits)

lemma entry_of_set [simp]: "entry_of j (set_entry k e s) = (if j = k then Some e else entry_of j s)"
  by (simp add: entry_of_def set_entry_def)

lemma set_entry_fields [simp]:
  "sd_queued (set_entry k e s) = sd_queued s" "sd_prefill (set_entry k e s) = sd_prefill s"
  "sd_decode (set_entry k e s) = sd_decode s" "sd_admission (set_entry k e s) = sd_admission s"
  "sd_stopping (set_entry k e s) = sd_stopping s"
  by (simp_all add: set_entry_def)

lemma send_admitted_fields [simp]:
  "sd_queued (send_admitted cfg now k e s) = sd_queued s" "sd_prefill (send_admitted cfg now k e s) = sd_prefill s"
  "sd_decode (send_admitted cfg now k e s) = sd_decode s" "sd_admission (send_admitted cfg now k e s) = sd_admission s"
  "j \<noteq> k \<Longrightarrow> entry_of j (send_admitted cfg now k e s) = entry_of j s"
  by (simp_all add: send_admitted_def)

section \<open>Terminalization\<close>

definition finished :: "'c sched_config \<Rightarrow> 'c request_entry \<Rightarrow> bool" where
  "finished cfg e \<longleftrightarrow> re_state e = TERMINAL \<and> terminal_ok cfg e"

text \<open>
  \<open>settles k s t\<close>: exactly the request \<open>k\<close> became terminal, and the ledger lost at most its
  reservation, and lost it if the release was confirmed.
\<close>

definition settles :: "'c sched_config \<Rightarrow> string \<Rightarrow> 'c scheduler \<Rightarrow> 'c scheduler \<Rightarrow> bool" where
  "settles cfg k s t \<longleftrightarrow> same_queues s t \<and>
     (\<exists>e. entry_of k t = Some e \<and> finished cfg e \<and> sm_request_id (en_scheduling e) = k \<and>
        sd_admission t = (if re_release_confirmed e then dict_pop k (sd_admission s) else sd_admission s)) \<and>
     (\<forall>j. j \<noteq> k \<longrightarrow> entry_of j t = entry_of j s)"

lemma finish_entry_effect:
  assumes "sm_request_id (en_scheduling e) = k"
  shows "same_queues s (finish_entry cfg now k r x e s)"
    and "entry_of j (finish_entry cfg now k r x e s) =
      (if j = k then Some (e\<lparr>re_terminalizing := True, re_state := TERMINAL, re_result := r, re_error := x,
         re_terminal_at := Some now\<rparr>) else entry_of j s)"
    and "sd_admission (finish_entry cfg now k r x e s) =
      (if re_release_confirmed e then dict_pop k (sd_admission s) else sd_admission s)"
  using assms
  by (auto simp: finish_entry_def Let_def same_queues_def release_reservation_def entry_of_def
      set_entry_def split: option.splits)

lemma exactly_one_spec:
  "exactly_one r x = (r', x') \<Longrightarrow> (r' = None) \<noteq> (x' = None) \<and> (r' = None \<or> r' = r)"
  by (auto simp: exactly_one_def split: if_splits)

lemma terminalize_settles:
  assumes e: "entry_of k s = Some e" and open_: "re_state e \<noteq> TERMINAL" "\<not> re_terminalizing e"
    and id: "sm_request_id (en_scheduling e) = k"
    and res: "\<And>v. r = Some v \<Longrightarrow> (re_handle e = None \<or> re_release_confirmed e) \<and> result_ok cfg e v"
  shows "settles cfg k s (terminalize cfg now k r x s)"
proof -
  let ?e1 = "e\<lparr>re_admitted_event_sent := True, re_release_confirmed := (re_handle e = None \<or> re_release_confirmed e)\<rparr>"
  let ?s2 = "set_entry k ?e1 (send_admitted cfg now k e s)"
  obtain r' x' where one: "exactly_one r x = (r', x')" by fastforce
  have t: "terminalize cfg now k r x s = finish_entry cfg now k r' x' ?e1 ?s2"
    using e open_ one by (simp add: terminalize_def Let_def)
  have "finished cfg (?e1\<lparr>re_terminalizing := True, re_state := TERMINAL, re_result := r', re_error := x',
       re_terminal_at := Some now\<rparr>)"
    using exactly_one_spec [OF one] res
    by (auto simp: finished_def terminal_ok_def result_ok_def)
  moreover note finish_entry_effect [of ?e1 k, where s = ?s2 and cfg = cfg and now = now and r = r' and x = x']
  ultimately show ?thesis
    using id unfolding t settles_def same_queues_def by auto
qed

lemma release_settles:
  assumes e: "entry_of k s = Some e" and open_: "re_state e \<noteq> TERMINAL" "\<not> re_terminalizing e"
    and id: "sm_request_id (en_scheduling e) = k"
    and res: "\<And>v. r = Some v \<Longrightarrow> result_ok cfg e v"
  shows "settles cfg k s (release_and_terminalize cfg now rel k r x s)"
proof -
  let ?e = "e\<lparr>re_release_confirmed := True\<rparr>" and ?s = "set_entry k (e\<lparr>re_release_confirmed := True\<rparr>) s"
  have ok: "result_ok cfg ?e v" if "r = Some v" for v using res [OF that] by (simp add: result_ok_def)
  have confirmed: "settles cfg k s (terminalize cfg now k r x u)"
    if u: "same_queues s u" "sd_admission u = sd_admission s" "\<And>j. entry_of j u = entry_of j ?s" for u
  proof -
    have "settles cfg k u (terminalize cfg now k r x u)"
      using open_ id ok by (intro terminalize_settles [of _ _ ?e]) (auto simp: u(3))
    then show ?thesis using u by (auto simp: settles_def same_queues_def)
  qed
  have failed: "settles cfg k s (terminalize cfg now k None y s)" for y
    using open_ id by (intro terminalize_settles [OF e]) auto
  show ?thesis
    using e confirmed [of ?s] failed
      confirmed [of "publish cfg now k EvSequenceReleased (re_handle e) PNone PNone ?s"]
    by (auto simp: release_and_terminalize_def same_queues_def split: option.splits sum.splits)
qed

text \<open>A request that settles leaves the invariant of all others intact.\<close>

lemma located_other:
  assumes "dict_get l' k = dict_get l k" and "located cfg busy s k e" and "sd_admission s = l"
    and "set (sd_queued s) - {j} \<subseteq> set (sd_queued t)" and "set (sd_prefill s) - {j} \<subseteq> set (sd_prefill t)"
    and "set (sd_decode s) - {j} \<subseteq> set (sd_decode t)" and "sd_admission t = l'" and "k \<noteq> j"
  shows "located cfg busy t k e"
  using assms unfolding located_def pending_res_def active_res_def
  by (cases "re_state e") auto

lemma settles_inv:
  assumes inv: "sched_inv cfg busy s" and st: "settles cfg k s t"
  shows "sched_inv cfg busy t"
proof -
  obtain e where e: "entry_of k t = Some e" "finished cfg e" "sm_request_id (en_scheduling e) = k"
    and adm: "sd_admission t = (if re_release_confirmed e then dict_pop k (sd_admission s) else sd_admission s)"
    and other: "\<And>j. j \<noteq> k \<Longrightarrow> entry_of j t = entry_of j s" and q: "same_queues s t"
    using st by (auto simp: settles_def)
  have l: "ledger_ok (sg_limits cfg) (sd_admission s)" using inv by (simp add: sched_inv_def)
  then have "ledger_ok (sg_limits cfg) (sd_admission t)"
    using release_ledger_ok [OF l, of k] by (simp add: adm release_reservation_def)
  moreover have "entry_good cfg busy t j f" if f: "entry_of j t = Some f" for j f
  proof (cases "j = k")
    case True
    then have "f = e" using f e(1) by simp
    then show ?thesis using e True adm by (auto simp: entry_good_def located_def finished_def terminal_ok_def)
  next
    case False
    then have g: "entry_good cfg busy s j f" using inv f other by (simp add: sched_inv_def)
    have "located cfg busy t j f"
      by (rule located_other [of "sd_admission t" j "sd_admission s" _ _ s _ k])
         (use g q False adm in \<open>auto simp: entry_good_def same_queues_def\<close>)
    then show ?thesis using g by (simp add: entry_good_def)
  qed
  ultimately show ?thesis by (simp add: sched_inv_def)
qed

section \<open>One entry at a time\<close>

lemma inv_update:
  assumes inv: "sched_inv cfg busy s" and other: "\<And>j. j \<noteq> k \<Longrightarrow> entry_of j t = entry_of j s"
    and k: "\<And>e. entry_of k t = Some e \<Longrightarrow> entry_good cfg busy t k e"
    and adm: "\<And>j. j \<noteq> k \<Longrightarrow> dict_get (sd_admission t) j = dict_get (sd_admission s) j"
    and l: "ledger_ok (sg_limits cfg) (sd_admission t)"
    and q: "set (sd_queued s) - {k} \<subseteq> set (sd_queued t)" "set (sd_prefill s) - {k} \<subseteq> set (sd_prefill t)"
      "set (sd_decode s) - {k} \<subseteq> set (sd_decode t)"
  shows "sched_inv cfg busy t"
proof -
  have "entry_good cfg busy t j f" if f: "entry_of j t = Some f" for j f
  proof (cases "j = k")
    case True
    then show ?thesis using f k by simp
  next
    case False
    then have g: "entry_good cfg busy s j f" using inv f other by (simp add: sched_inv_def)
    have "located cfg busy t j f"
      by (rule located_other [of "sd_admission t" j "sd_admission s" _ _ s _ k])
         (use g q False adm in \<open>auto simp: entry_good_def\<close>)
    then show ?thesis using g by (simp add: entry_good_def)
  qed
  then show ?thesis using l by (simp add: sched_inv_def)
qed

lemma inv_entry: "sched_inv cfg busy s \<Longrightarrow> entry_of k s = Some e \<Longrightarrow> entry_good cfg busy s k e"
  by (simp add: sched_inv_def)

lemma inv_ledger: "sched_inv cfg busy s \<Longrightarrow> ledger_ok (sg_limits cfg) (sd_admission s)"
  by (simp add: sched_inv_def)

lemma located_cong:
  assumes "re_state f = re_state e" "re_handle f = re_handle e" "en_scheduling f = en_scheduling e"
    "re_result f = re_result e" "terminal_ok cfg f = terminal_ok cfg e" "same_queues s t" "sd_admission t = sd_admission s"
  shows "located cfg busy t k f = located cfg busy s k e"
  using assms unfolding located_def pending_res_def active_res_def same_queues_def
  by (cases "re_state e") simp_all

lemma located_mono: "busy \<subseteq> busy' \<Longrightarrow> located cfg busy s k e \<Longrightarrow> located cfg busy' s k e"
  unfolding located_def by (cases "re_state e") auto

lemma inv_mono: "sched_inv cfg busy s \<Longrightarrow> busy \<subseteq> busy' \<Longrightarrow> sched_inv cfg busy' s"
  unfolding sched_inv_def entry_good_def using located_mono by blast

definition calm :: "'c request_entry \<Rightarrow> bool" where
  "calm e \<longleftrightarrow> re_state e \<notin> {OPENING, PREFILL_INFLIGHT, DECODE_INFLIGHT, RELEASING}"

lemma inv_calm:
  assumes inv: "sched_inv cfg busy s"
    and calm: "\<And>k e. k \<in> busy \<Longrightarrow> entry_of k s = Some e \<Longrightarrow> calm e"
  shows "sched_inv cfg {} s"
proof -
  have "located cfg {} s k e" if e: "entry_of k s = Some e" for k e
  proof -
    have "located cfg busy s k e" using inv_entry [OF inv e] by (simp add: entry_good_def)
    then show ?thesis using calm [of k e] e unfolding located_def calm_def by (cases "re_state e") auto
  qed
  then show ?thesis using inv unfolding sched_inv_def entry_good_def by blast
qed

text \<open>Selector, counters and events do not matter.\<close>

lemma inv_frame:
  assumes "sched_inv cfg busy s" and "\<And>j. entry_of j t = entry_of j s" and "same_queues s t"
    and "sd_admission t = sd_admission s"
  shows "sched_inv cfg busy t"
  using assms(1) located_cong [OF refl refl refl refl refl assms(3,4)]
  unfolding sched_inv_def entry_good_def assms(2,4) by blast

lemma terminal_release:
  assumes e: "entry_of k s = Some e" "re_state e = TERMINAL"
  shows "same_queues s (release_and_terminalize cfg now rel k r x s)"
    "sd_admission (release_and_terminalize cfg now rel k r x s) = sd_admission s"
    "\<exists>f. entry_of k (release_and_terminalize cfg now rel k r x s) = Some f \<and> re_state f = TERMINAL \<and>
       en_scheduling f = en_scheduling e \<and> re_result f = re_result e \<and> (terminal_ok cfg e \<longrightarrow> terminal_ok cfg f)"
    "j \<noteq> k \<Longrightarrow> entry_of j (release_and_terminalize cfg now rel k r x s) = entry_of j s"
  using e
  by (auto simp: release_and_terminalize_def terminalize_def Let_def same_queues_def terminal_ok_def result_ok_def
      split: option.splits sum.splits)

lemma release_any:
  assumes inv: "sched_inv cfg busy s" and e: "entry_of k s = Some e"
    and res: "\<And>v. r = Some v \<Longrightarrow> re_state e \<noteq> TERMINAL \<Longrightarrow> result_ok cfg e v"
  shows "sched_inv cfg busy (release_and_terminalize cfg now rel k r x s) \<and>
    (\<exists>f. entry_of k (release_and_terminalize cfg now rel k r x s) = Some f \<and> re_state f = TERMINAL) \<and>
    (\<forall>j. j \<noteq> k \<longrightarrow> entry_of j (release_and_terminalize cfg now rel k r x s) = entry_of j s)"
proof (cases "re_state e = TERMINAL")
  case True
  let ?t = "release_and_terminalize cfg now rel k r x s"
  note tr = terminal_release [OF e True, where cfg = cfg and now = now and rel = rel and r = r and x = x]
  from tr(3) obtain f where f: "entry_of k ?t = Some f" "re_state f = TERMINAL" "en_scheduling f = en_scheduling e"
    "re_result f = re_result e" "terminal_ok cfg e \<longrightarrow> terminal_ok cfg f" by blast
  have g: "entry_good cfg busy s k e" by (rule inv_entry [OF inv e])
  then have "entry_good cfg busy ?t k f"
    using f True tr(2) by (simp add: entry_good_def located_def)
  then have "sched_inv cfg busy ?t"
    using tr(1,2,4) inv_ledger [OF inv] f
    by (intro inv_update [OF inv, of k]) (auto simp: same_queues_def)
  then show ?thesis using f tr(4) by simp
next
  case False
  have g: "\<not> re_terminalizing e" "sm_request_id (en_scheduling e) = k"
    using inv_entry [OF inv e] False by (simp_all add: entry_good_def)
  have "settles cfg k s (release_and_terminalize cfg now rel k r x s)"
    by (rule release_settles [OF e False g]) (use res False in auto)
  then show ?thesis using settles_inv [OF inv] by (auto simp: settles_def finished_def)
qed

text \<open>Folding an operation that touches only its own entry.\<close>

lemma fold_own:
  assumes step: "\<And>x s. I s \<Longrightarrow> x \<in> set xs \<Longrightarrow> P (entry_of (f x) s) \<Longrightarrow>
      I (g x s) \<and> P (entry_of (f x) (g x s)) \<and> Q (entry_of (f x) (g x s)) \<and>
      (\<forall>j. j \<noteq> f x \<longrightarrow> entry_of j (g x s) = entry_of j s)"
    and "I s" and "\<And>x. x \<in> set xs \<Longrightarrow> P (entry_of (f x) s)"
  shows "I (fold g xs s) \<and> (\<forall>x\<in>set xs. P (entry_of (f x) (fold g xs s)) \<and> Q (entry_of (f x) (fold g xs s))) \<and>
    (\<forall>j. j \<notin> f ` set xs \<longrightarrow> entry_of j (fold g xs s) = entry_of j s)"
  using assms
proof (induction xs arbitrary: s rule: rev_induct)
  case Nil
  then show ?case by simp
next
  case (snoc x xs)
  have IH: "I (fold g xs s) \<and> (\<forall>y\<in>set xs. P (entry_of (f y) (fold g xs s)) \<and> Q (entry_of (f y) (fold g xs s))) \<and>
    (\<forall>j. j \<notin> f ` set xs \<longrightarrow> entry_of j (fold g xs s) = entry_of j s)"
    using snoc.prems by (intro snoc.IH) auto
  have "P (entry_of (f x) (fold g xs s))"
    using IH snoc.prems(3) [of x] by (cases "f x \<in> f ` set xs") auto
  then have one: "I (g x (fold g xs s)) \<and> P (entry_of (f x) (g x (fold g xs s))) \<and>
      Q (entry_of (f x) (g x (fold g xs s))) \<and> (\<forall>j. j \<noteq> f x \<longrightarrow> entry_of j (g x (fold g xs s)) = entry_of j (fold g xs s))"
    using IH by (intro snoc.prems(1)) auto
  show ?case
  proof (intro conjI ballI allI impI)
    fix y assume "y \<in> set (xs @ [x])"
    then show "P (entry_of (f y) (fold g (xs @ [x]) s))" "Q (entry_of (f y) (fold g (xs @ [x]) s))"
      using one IH by (cases "f y = f x"; auto)+
  qed (use one IH in auto)
qed

lemma fail_batch_inv:
  assumes inv: "sched_inv cfg busy s" and ks: "\<And>k. k \<in> set ks \<Longrightarrow> \<exists>e. entry_of k s = Some e"
  shows "sched_inv cfg busy (fail_batch cfg now rel err ks s) \<and>
    (\<forall>k\<in>set ks. \<exists>e. entry_of k (fail_batch cfg now rel err ks s) = Some e \<and> re_state e = TERMINAL) \<and>
    (\<forall>j. j \<notin> set ks \<longrightarrow> entry_of j (fail_batch cfg now rel err ks s) = entry_of j s)"
proof -
  have "sched_inv cfg busy (fold (\<lambda>k t. release_and_terminalize cfg now rel k None (Some err) t) ks s) \<and>
      (\<forall>k\<in>set ks. entry_of k (fold (\<lambda>k t. release_and_terminalize cfg now rel k None (Some err) t) ks s) \<noteq> None \<and>
         (\<exists>e. entry_of k (fold (\<lambda>k t. release_and_terminalize cfg now rel k None (Some err) t) ks s) = Some e \<and> re_state e = TERMINAL)) \<and>
      (\<forall>j. j \<notin> (\<lambda>k. k) ` set ks \<longrightarrow> entry_of j (fold (\<lambda>k t. release_and_terminalize cfg now rel k None (Some err) t) ks s) = entry_of j s)"
    by (rule fold_own [where I = "sched_inv cfg busy" and P = "\<lambda>e. e \<noteq> None" and Q = "\<lambda>e. \<exists>f. e = Some f \<and> re_state f = TERMINAL"])
       (use inv ks release_any [where r = None] in \<open>fastforce+\<close>)
  then show ?thesis by (simp add: fail_batch_def)
qed

end
