(* ===== verification/SchedulerMachine.thy ===== *)
theory SchedulerMachine
  imports SchedulerSafety
begin

text \<open>
  The scheduler as a machine: callers and the worker thread interleave at their lock sections.
  Every operation keeps the invariant of \<open>SchedulerSafety\<close>; what callers may rely on follows.
\<close>

section \<open>Selection from a queue\<close>

lemma entry_of_updates [simp]:
  "entry_of j (s\<lparr>sd_admission := l\<rparr>) = entry_of j s" "entry_of j (s\<lparr>sd_selector := sel\<rparr>) = entry_of j s"
  "entry_of j (s\<lparr>sd_queued := q\<rparr>) = entry_of j s" "entry_of j (s\<lparr>sd_prefill := q\<rparr>) = entry_of j s"
  "entry_of j (s\<lparr>sd_decode := q\<rparr>) = entry_of j s" "entry_of j (s\<lparr>sd_decode_burst := n\<rparr>) = entry_of j s"
  "entry_of j (s\<lparr>sd_fatal_error := x\<rparr>) = entry_of j s" "entry_of j (s\<lparr>sd_stopped := b\<rparr>) = entry_of j s"
  by (simp_all add: entry_of_def)

lemma select_total:
  assumes "0 \<le> now" and "\<forall>e\<in>set es. known_class p e"
  shows "\<exists>r sel'. select p es (PFloat (Finite now)) sel = (Inr r, sel')"
proof -
  obtain r s1 where reg: "register_entries p es sel = (r, s1)" by fastforce
  then have "r = Inr ()" using register_entries_Inr [of p es sel] assms(2) by simp
  then show ?thesis using assms(1) reg by (auto simp: select_def split: option.splits)
qed

lemma select_member: "select p es now sel = (Inr (Some e), sel') \<Longrightarrow> e \<in> set es"
  by (elim select_Some) (use lane_set min_by_mem in fastforce)

text \<open>What an operation that only selects leaves alone.\<close>

definition selects :: "'c scheduler \<Rightarrow> 'c scheduler \<Rightarrow> bool" where
  "selects s t \<longleftrightarrow> (\<exists>sel. t = s\<lparr>sd_selector := sel\<rparr>)"

lemma selects_fields:
  assumes "selects s t"
  shows "sd_entries t = sd_entries s" "sd_queued t = sd_queued s" "sd_prefill t = sd_prefill s"
    "sd_decode t = sd_decode s" "sd_admission t = sd_admission s" "entry_of k t = entry_of k s"
    "state_is k st t = state_is k st s"
  using assms by (auto simp: selects_def entry_of_def state_is_def)

lemma selects_refl: "selects s s"
  unfolding selects_def by (rule exI [of _ "sd_selector s"]) simp

lemma selects_trans: "selects s t \<Longrightarrow> selects t u \<Longrightarrow> selects s u"
  by (auto simp: selects_def)

definition keyed :: "'c scheduler \<Rightarrow> bool" where
  "keyed s \<longleftrightarrow> (\<forall>k e. entry_of k s = Some e \<longrightarrow> sm_request_id (en_scheduling e) = k)"

definition classified :: "'c sched_config \<Rightarrow> 'c scheduler \<Rightarrow> bool" where
  "classified cfg s \<longleftrightarrow> (\<forall>k e. entry_of k s = Some e \<longrightarrow> re_state e \<noteq> TERMINAL \<longrightarrow> known_class (sg_policy cfg) e)"

lemma inv_keyed: "sched_inv cfg busy s \<Longrightarrow> keyed s"
  by (simp add: sched_inv_def keyed_def entry_good_def)

lemma inv_classified: "sched_inv cfg busy s \<Longrightarrow> classified cfg s"
  by (simp add: sched_inv_def classified_def entry_good_def)

lemma candidate_set:
  "e \<in> set (filter pr (List.map_filter (\<lambda>k. entry_of k s) (filter (\<lambda>k. state_is k st s) q))) \<Longrightarrow>
   \<exists>k\<in>set q. entry_of k s = Some e \<and> re_state e = st \<and> pr e"
  by (auto simp: List.map_filter_def state_is_def split: option.splits)

lemma pop_state_effect:
  assumes pop: "pop_state cfg now q st pr s = (r, q', t)" and keyed: "keyed s"
  shows "selects s t" and "set q' \<subseteq> set q"
    and "r = Inr (Some e) \<Longrightarrow> entry_of (sm_request_id (en_scheduling e)) s = Some e \<and> re_state e = st \<and> pr e \<and>
           sm_request_id (en_scheduling e) \<in> set q"
    and "j \<in> set q \<Longrightarrow> state_is j st s \<Longrightarrow> j \<in> set q' \<or> (\<exists>e. r = Inr (Some e) \<and> sm_request_id (en_scheduling e) = j)"
proof -
  let ?v = "filter (\<lambda>k. state_is k st s) q"
  let ?c = "filter pr (List.map_filter (\<lambda>k. entry_of k s) ?v)"
  obtain r' sel where sel: "select (sg_policy cfg) ?c (PFloat (Finite now)) (sd_selector s) = (r', sel)"
    by fastforce
  have t: "t = s\<lparr>sd_selector := sel\<rparr>" and r: "r = r'"
    and q: "q' = (case r' of Inr (Some e) \<Rightarrow> remove1 (sm_request_id (en_scheduling e)) ?v | _ \<Rightarrow> ?v)"
    using pop sel by (auto simp: pop_state_def Let_def split: sum.splits option.splits)
  show "selects s t" unfolding t selects_def by blast
  show "set q' \<subseteq> set q" unfolding q
    by (auto split: sum.splits option.splits dest: subsetD [OF set_remove1_subset])
  show "entry_of (sm_request_id (en_scheduling e)) s = Some e \<and> re_state e = st \<and> pr e \<and>
      sm_request_id (en_scheduling e) \<in> set q" if "r = Inr (Some e)"
    using candidate_set [of e pr s st q] select_member sel that r keyed unfolding keyed_def by blast
  show "j \<in> set q' \<or> (\<exists>e. r = Inr (Some e) \<and> sm_request_id (en_scheduling e) = j)"
    if "j \<in> set q" "state_is j st s"
    using that unfolding q r by (auto split: sum.splits option.splits)
qed

lemma pop_state_total:
  assumes "0 \<le> now" and "classified cfg s" and "st \<noteq> TERMINAL"
  shows "\<exists>r q' t. pop_state cfg now q st pr s = (Inr r, q', t)"
proof -
  let ?c = "filter pr (List.map_filter (\<lambda>k. entry_of k s) (filter (\<lambda>k. state_is k st s) q))"
  have "\<forall>e\<in>set ?c. known_class (sg_policy cfg) e"
    using candidate_set [of _ pr s st q] assms(2,3) unfolding classified_def by blast
  then obtain r sel where "select (sg_policy cfg) ?c (PFloat (Finite now)) (sd_selector s) = (Inr r, sel)"
    using select_total [OF assms(1)] by blast
  then show ?thesis by (cases r) (auto simp: pop_state_def Let_def)
qed

lemma take_state_effect:
  assumes "take_state cfg now q st n s = (r, q', t)" and "keyed s"
  shows "selects s t \<and> set q' \<subseteq> set q \<and>
    (\<forall>es. r = Inr es \<longrightarrow>
       (\<forall>e\<in>set es. entry_of (sm_request_id (en_scheduling e)) s = Some e \<and> re_state e = st) \<and>
       (\<forall>j\<in>set q. state_is j st s \<longrightarrow> j \<in> set q' \<or> j \<in> (\<lambda>e. sm_request_id (en_scheduling e)) ` set es))"
  using assms
proof (induction n arbitrary: q s r q' t)
  case 0
  then show ?case by (auto simp: selects_refl)
next
  case (Suc n)
  obtain p q1 t1 where pop: "pop_state cfg now q st (\<lambda>_. True) s = (p, q1, t1)" by (metis prod_cases3)
  note eff = pop_state_effect [OF pop Suc.prems(2)]
  show ?case
  proof (cases "\<exists>e. p = Inr (Some e)")
    case False
    then show ?thesis using Suc.prems(1) pop eff by (auto split: sum.splits option.splits)
  next
    case True
    then obtain e where p: "p = Inr (Some e)" by blast
    obtain r2 q2 t2 where rest: "take_state cfg now q1 st n t1 = (r2, q2, t2)" by (metis prod_cases3)
    have "keyed t1" using Suc.prems(2) eff(1) by (simp add: keyed_def selects_fields)
    note IH = Suc.IH [OF rest this]
    have res: "q' = q2" "t = t2" "r = (case r2 of Inl err \<Rightarrow> Inl err | Inr es \<Rightarrow> Inr (e # es))"
      using Suc.prems(1) pop p rest by (auto split: sum.splits)
    have "selects s t2" using IH eff(1) selects_trans by blast
    then show ?thesis
      using IH eff(2,3,4) p unfolding res
      by (auto simp: selects_fields [OF eff(1)] split: sum.splits) blast+
  qed
qed

lemma take_state_total:
  assumes "0 \<le> now" and "classified cfg s" and "st \<noteq> TERMINAL" and "keyed s"
  shows "\<exists>es q' t. take_state cfg now q st n s = (Inr es, q', t)"
  using assms(2,4)
proof (induction n arbitrary: q s)
  case (Suc n)
  obtain p q1 t1 where pop: "pop_state cfg now q st (\<lambda>_. True) s = (Inr p, q1, t1)"
    using pop_state_total [OF assms(1) Suc.prems(1) assms(3)] by blast
  have sel: "selects s t1" using pop_state_effect(1) [OF pop Suc.prems(2)] .
  have "classified cfg t1" "keyed t1"
    using Suc.prems by (simp_all add: classified_def keyed_def selects_fields [OF sel])
  from Suc.IH [OF this, of q1] show ?case using pop by (cases p) auto
qed simp

section \<open>Callers\<close>

text \<open>A request id is registered at most once.\<close>

definition keys_ok :: "'c scheduler \<Rightarrow> bool" where
  "keys_ok s \<longleftrightarrow> distinct (dict_keys (sd_entries s))"

lemma keys_ok_set [simp]: "keys_ok s \<Longrightarrow> keys_ok (set_entry k e s)"
  by (simp add: keys_ok_def set_entry_def distinct_update)

lemma keys_ok_publish [simp]: "keys_ok (publish cfg now k kind h n c s) = keys_ok s"
  by (simp add: keys_ok_def)

lemma entry_of_mem: "keys_ok s \<Longrightarrow> (k, e) \<in> set (sd_entries s) \<Longrightarrow> entry_of k s = Some e"
  by (simp add: keys_ok_def entry_of_def)

lemma submit_inv:
  assumes inv: "sched_inv cfg busy s" and sub: "infer_submit cfg now a req m s = Inr t"
  shows "sched_inv cfg busy t" and "keys_ok s \<Longrightarrow> keys_ok t"
    and "\<exists>v. admit (sg_limits cfg) (sg_policy cfg) m v (sd_admission s) = Inr (sd_admission t)"
    and "entry_of (sm_request_id m) s = None"
    and "j \<noteq> sm_request_id m \<Longrightarrow> entry_of j t = entry_of j s"
proof -
  let ?k = "sm_request_id m" and ?e = "new_entry cfg now a (sd_next_order s) req m"
  obtain l where new: "entry_of ?k s = None"
    and adm: "admit (sg_limits cfg) (sg_policy cfg) m (PInt (re_estimated_tokens ?e)) (sd_admission s) = Inr l"
    and t: "t = (set_entry ?k ?e s)\<lparr>sd_admission := l, sd_next_order := sd_next_order s + 1,
        sd_queued := sd_queued s @ [?k]\<rparr>"
    using sub by (auto simp: infer_submit_def Let_def split: if_splits sum.splits governance_error.splits)
  obtain c where cls: "class_policy (sg_policy cfg) (sm_service_class m) = Inr c"
    and l: "l = dict_set ?k \<lparr>rv_scheduling = m, rv_estimated_tokens = re_estimated_tokens ?e, rv_reserved_tokens = None\<rparr> (sd_admission s)"
    using adm by (auto simp: admit_Inr)
  have e: "entry_of j t = (if j = ?k then Some ?e else entry_of j s)" for j
    by (simp add: t entry_of_def set_entry_def)
  have "known_class (sg_policy cfg) ?e" using cls class_policy_known [of "sg_policy cfg" ?e]
    by (auto simp: new_entry_def)
  then have "entry_good cfg busy t ?k ?e"
    by (simp add: entry_good_def located_def new_entry_def pending_res_def t l)
  then show "sched_inv cfg busy t"
    using admit_ledger_ok [OF inv_ledger [OF inv] adm]
    by (intro inv_update [OF inv, of ?k]) (auto simp: e, auto simp: t l)
  show "keys_ok t" if "keys_ok s" using that by (simp add: t keys_ok_def set_entry_def distinct_update)
  show "\<exists>v. admit (sg_limits cfg) (sg_policy cfg) m v (sd_admission s) = Inr (sd_admission t)"
    using adm by (auto simp: t)
  show "entry_of ?k s = None" by (rule new)
  show "entry_of j t = entry_of j s" if "j \<noteq> ?k" using that by (simp add: e)
qed

lemma collect_effect:
  assumes "infer_collect k s = Some (r, t)"
  shows "\<exists>e. entry_of k s = Some e \<and> re_state e = TERMINAL" and "same_queues s t" and "sd_admission t = sd_admission s"
    and "entry_of j t = (if j = k then None else entry_of j s)" and "keys_ok s \<Longrightarrow> keys_ok t"
  using assms
  by (auto simp: infer_collect_def same_queues_def entry_of_def keys_ok_def distinct_delete split: option.splits if_splits)

text \<open>Marking a request as cancelled changes neither its state nor its resources.\<close>

definition marks :: "'c scheduler \<Rightarrow> 'c scheduler \<Rightarrow> bool" where
  "marks s t \<longleftrightarrow> same_queues s t \<and> sd_admission t = sd_admission s \<and>
     (\<forall>k. entry_of k t = entry_of k s \<or>
        (\<exists>e. entry_of k s = Some e \<and> re_state e \<noteq> TERMINAL \<and> entry_of k t = Some (e\<lparr>re_cancel_requested := True\<rparr>)))"

lemma cancel_marks: "cancel k s = (b, t) \<Longrightarrow> marks s t"
  by (auto simp: cancel_def marks_def same_queues_def split: option.splits if_splits)

lemma map_of_values: "map_of (map (\<lambda>(k, v). (k, f v)) xs) k = map_option f (map_of xs k)"
  by (induction xs) auto

lemma shutdown_entry:
  "entry_of k (shutdown_flags s) =
     map_option (\<lambda>e. if re_state e = TERMINAL then e else e\<lparr>re_cancel_requested := True\<rparr>) (entry_of k s)"
  unfolding shutdown_flags_def entry_of_def by (simp add: map_of_values)

lemma shutdown_marks: "marks s (shutdown_flags s)"
  unfolding marks_def shutdown_entry
proof (intro conjI allI)
  fix k
  show "map_option (\<lambda>e. if re_state e = TERMINAL then e else e\<lparr>re_cancel_requested := True\<rparr>) (entry_of k s) = entry_of k s \<or>
     (\<exists>e. entry_of k s = Some e \<and> re_state e \<noteq> TERMINAL \<and>
        map_option (\<lambda>e. if re_state e = TERMINAL then e else e\<lparr>re_cancel_requested := True\<rparr>) (entry_of k s) =
          Some (e\<lparr>re_cancel_requested := True\<rparr>))"
    by (cases "entry_of k s") simp_all
qed (simp_all add: shutdown_flags_def same_queues_def)

lemma marks_inv:
  assumes inv: "sched_inv cfg busy s" and m: "marks s t"
  shows "sched_inv cfg busy t"
proof -
  have "entry_good cfg busy t k f" if f: "entry_of k t = Some f" for k f
  proof -
    obtain e where e: "entry_of k s = Some e" and "f = e \<or> re_state e \<noteq> TERMINAL \<and> f = e\<lparr>re_cancel_requested := True\<rparr>"
      using m f unfolding marks_def by (metis option.inject)
    moreover have "located cfg busy t k f = located cfg busy s k e" if "f = e \<or> f = e\<lparr>re_cancel_requested := True\<rparr>"
      using that m by (intro located_cong) (auto simp: marks_def terminal_ok_def result_ok_def)
    ultimately show ?thesis using inv_entry [OF inv e] by (auto simp: entry_good_def known_class_def)
  qed
  then show ?thesis using inv m by (simp add: sched_inv_def marks_def)
qed

lemma collect_inv:
  assumes inv: "sched_inv cfg busy s" and c: "infer_collect k s = Some (r, t)"
  shows "sched_inv cfg busy t"
  using collect_effect [OF c] inv_ledger [OF inv]
  by (intro inv_update [OF inv, of k]) (auto simp: same_queues_def)

section \<open>Worker: boundaries and opening\<close>

lemma keys_ok_terminalize: "keys_ok s \<Longrightarrow> keys_ok (terminalize cfg now k r x s)"
  by (auto simp: terminalize_def finish_entry_def send_admitted_def Let_def keys_ok_def set_entry_def
      distinct_update split: option.splits prod.splits)

lemma keys_ok_release: "keys_ok s \<Longrightarrow> keys_ok (release_and_terminalize cfg now rel k r x s)"
  unfolding release_and_terminalize_def
  by (auto intro!: keys_ok_terminalize split: option.splits sum.splits)

text \<open>Putting an entry of the worker into the state RELEASING is always allowed.\<close>

lemma releasing_inv:
  assumes inv: "sched_inv cfg busy s" and e: "entry_of k s = Some e" "re_state e \<noteq> TERMINAL"
    and f: "re_state f = RELEASING" "en_scheduling f = en_scheduling e" "\<not> re_terminalizing f" and k: "k \<in> busy"
  shows "sched_inv cfg busy (set_entry k f s)"
proof (rule inv_update [OF inv, of k])
  show "entry_good cfg busy (set_entry k f s) k g" if "entry_of k (set_entry k f s) = Some g" for g
    using that inv_entry [OF inv e(1)] e(2) f k by (auto simp: entry_good_def located_def known_class_def)
qed (use inv_ledger [OF inv] in auto)

lemma find_member: "List.find P xs = Some x \<Longrightarrow> x \<in> set xs \<and> P x"
  by (induction xs) (auto split: if_splits)

lemma boundary_inv:
  assumes inv: "sched_inv cfg {} s" and keys: "keys_ok s"
    and b: "process_terminal_boundaries cfg now rel s = (d, t)"
  shows "sched_inv cfg {} t \<and> keys_ok t"
proof (cases "find_boundary now s")
  case None
  then show ?thesis using b inv keys by (simp add: process_terminal_boundaries_def)
next
  case (Some p)
  obtain k e where p: "p = (k, e)" by fastforce
  then have mem: "(k, e) \<in> set (sd_entries s)" and open_: "boundary_error now (sd_stopping s) e \<noteq> None"
    using Some find_member unfolding find_boundary_def by fastforce+
  then have e: "entry_of k s = Some e" "re_state e \<noteq> TERMINAL"
    using entry_of_mem [OF keys] by (auto simp: boundary_error_def)
  let ?f = "e\<lparr>re_state := RELEASING\<rparr>" and ?s = "set_entry k (e\<lparr>re_state := RELEASING\<rparr>) s"
  have s: "sched_inv cfg {k} ?s"
    using inv_mono [OF inv, of "{k}"] inv_entry [OF inv e(1)] e
    by (intro releasing_inv [where e = e]) (auto simp: entry_good_def)
  have t: "t = release_and_terminalize cfg now rel k None (boundary_error now (sd_stopping s) e) ?s"
    using b Some p by (simp add: process_terminal_boundaries_def)
  have "sched_inv cfg {k} t \<and> (\<exists>f. entry_of k t = Some f \<and> re_state f = TERMINAL)"
    unfolding t using release_any [OF s, of k ?f None] by simp
  then show ?thesis using keys by (auto simp: t calm_def intro!: keys_ok_release inv_calm)
qed

text \<open>What the worker relies on while it calls \<open>open_sequence\<close> outside the lock.\<close>

definition may_open :: "'c sched_config \<Rightarrow> string \<Rightarrow> 'c scheduler \<Rightarrow> bool" where
  "may_open cfg k s \<longleftrightarrow> state_is k OPENING s \<and> can_activate (sg_limits cfg) k (sd_admission s)"

lemma entry_of_send_admitted:
  "entry_of k s = Some e \<Longrightarrow>
   entry_of k (send_admitted cfg now k e s) = Some (e\<lparr>re_admitted_event_sent := True\<rparr>)"
  by (cases e) (auto simp: send_admitted_def)

lemma keys_ok_send_admitted [simp]: "keys_ok s \<Longrightarrow> keys_ok (send_admitted cfg now k e s)"
  by (simp add: send_admitted_def)

text \<open>The entries of \<open>K\<close> change, all others keep their state, reservation and place.\<close>

lemma inv_change:
  assumes inv: "sched_inv cfg busy s" and other: "\<And>j. j \<notin> K \<Longrightarrow> entry_of j t = entry_of j s"
    and own: "\<And>j e. j \<in> K \<Longrightarrow> entry_of j t = Some e \<Longrightarrow> entry_good cfg busy' t j e"
    and adm: "\<And>j. j \<notin> K \<Longrightarrow> dict_get (sd_admission t) j = dict_get (sd_admission s) j"
    and l: "ledger_ok (sg_limits cfg) (sd_admission t)"
    and q: "\<And>j. j \<in> set (sd_queued s) - K \<Longrightarrow> state_is j QUEUED s \<Longrightarrow> j \<in> set (sd_queued t)"
      "\<And>j. j \<in> set (sd_prefill s) - K \<Longrightarrow> state_is j PREFILL s \<Longrightarrow> j \<in> set (sd_prefill t)"
      "\<And>j. j \<in> set (sd_decode s) - K \<Longrightarrow> state_is j DECODE s \<Longrightarrow> j \<in> set (sd_decode t)"
    and busy: "busy - K \<subseteq> busy'"
  shows "sched_inv cfg busy' t"
proof -
  have "entry_good cfg busy' t k e" if e: "entry_of k t = Some e" for k e
  proof (cases "k \<in> K")
    case True
    then show ?thesis using own e by blast
  next
    case False
    then have es: "entry_of k s = Some e" using e other by simp
    then have "located cfg busy' t k e"
      using inv_entry [OF inv es] q [of k] adm [OF False] busy False
      unfolding entry_good_def located_def state_is_def pending_res_def active_res_def
      by (cases "re_state e") auto
    then show ?thesis using inv_entry [OF inv es] by (simp add: entry_good_def)
  qed
  then show ?thesis using l by (simp add: sched_inv_def)
qed

lemma open_begin_inv:
  assumes inv: "sched_inv cfg {} s" and keys: "keys_ok s" and ob: "open_begin cfg now s = (Inr r, t)"
  shows "keys_ok t" and "r = None \<Longrightarrow> sched_inv cfg {} t"
    and "r = Some k \<Longrightarrow> sched_inv cfg {k} t \<and> may_open cfg k t"
proof -
  let ?can = "\<lambda>c. can_activate (sg_limits cfg) (sm_request_id (en_scheduling c)) (sd_admission s)"
  obtain p q u where pop: "pop_state cfg now (sd_queued s) QUEUED ?can s = (p, q, u)" by (metis prod_cases3)
  note eff = pop_state_effect [OF pop inv_keyed [OF inv]]
  let ?u = "u\<lparr>sd_queued := q\<rparr>"
  have u: "entry_of j u = entry_of j s" "sd_admission ?u = sd_admission s" "keys_ok ?u"
     "sd_prefill ?u = sd_prefill s" "sd_decode ?u = sd_decode s" for j
    using selects_fields [OF eff(1)] keys by (simp_all add: entry_of_def keys_ok_def)
  have none: "sched_inv cfg {} ?u" if "\<And>e. p \<noteq> Inr (Some e)"
    using eff(4) that inv_ledger [OF inv] by (intro inv_change [OF inv, of "{}"]) (auto simp: u)
  have some: "sched_inv cfg {k} v \<and> may_open cfg k v \<and> keys_ok v"
    if e: "p = Inr (Some e)" and k: "k = sm_request_id (en_scheduling e)"
      and v: "v = send_admitted cfg now k (e\<lparr>re_state := OPENING\<rparr>) (set_entry k (e\<lparr>re_state := OPENING\<rparr>) ?u)" for e k v
  proof -
    have es: "entry_of k s = Some e" "re_state e = QUEUED" "can_activate (sg_limits cfg) k (sd_admission s)"
      using eff(3) [OF e] by (auto simp: k)
    have ev: "entry_of k v = Some (e\<lparr>re_state := OPENING, re_admitted_event_sent := True\<rparr>)"
      unfolding v by (subst entry_of_send_admitted) simp_all
    have other: "entry_of j v = entry_of j s" if "j \<noteq> k" for j using that by (simp add: v u)
    have adm: "sd_admission v = sd_admission s" by (simp add: v u)
    have "entry_good cfg {k} v k (e\<lparr>re_state := OPENING, re_admitted_event_sent := True\<rparr>)"
      using inv_entry [OF inv es(1)] es(2)
      by (simp add: entry_good_def located_def pending_res_def adm known_class_def)
    then have "sched_inv cfg {k} v"
      using eff(4) e k other ev inv_ledger [OF inv]
      by (intro inv_change [OF inv, of "{k}"]) (auto simp: adm, auto simp: v u)
    then show ?thesis using es(3) u(3) by (simp add: may_open_def state_is_def ev adm) (simp add: v)
  qed
  show "keys_ok t" "r = None \<Longrightarrow> sched_inv cfg {} t" "r = Some k \<Longrightarrow> sched_inv cfg {k} t \<and> may_open cfg k t"
    using ob pop none some inv keys u(3) unfolding open_begin_def Let_def
    by (auto split: if_splits option.splits sum.splits)
qed

lemma inv_idle:
  assumes "sched_inv cfg {k} s" and "entry_of k s = Some e" and "calm e"
  shows "sched_inv cfg {} s"
  using assms by (intro inv_calm) auto

lemma release_idle:
  assumes inv: "sched_inv cfg {k} s" and e: "entry_of k s = Some e" and keys: "keys_ok s"
    and res: "\<And>v. r = Some v \<Longrightarrow> re_state e \<noteq> TERMINAL \<Longrightarrow> result_ok cfg e v"
  shows "sched_inv cfg {} (release_and_terminalize cfg now rel k r x s) \<and>
    keys_ok (release_and_terminalize cfg now rel k r x s)"
proof -
  let ?t = "release_and_terminalize cfg now rel k r x s"
  have "sched_inv cfg {k} ?t \<and> (\<exists>f. entry_of k ?t = Some f \<and> re_state f = TERMINAL) \<and>
      (\<forall>j. j \<noteq> k \<longrightarrow> entry_of j ?t = entry_of j s)"
    using inv e res by (rule release_any)
  then show ?thesis using keys_ok_release [OF keys] by (auto simp: calm_def elim: inv_idle)
qed

lemma inv_publish: "sched_inv cfg busy s \<Longrightarrow> sched_inv cfg busy (publish cfg' now k kind h n c s)"
  by (erule inv_frame) (simp_all add: same_queues_def)

lemma open_ready_inv:
  assumes inv: "sched_inv cfg {k} s" and e: "entry_of k s = Some e" "re_state e = OPENING" and keys: "keys_ok s"
    and l: "ledger_ok (sg_limits cfg) l" "\<And>j. j \<noteq> k \<Longrightarrow> dict_get l j = dict_get (sd_admission s) j"
    and res: "active_res k e l"
  shows "sched_inv cfg {} (open_ready cfg now rel h k e (s\<lparr>sd_admission := l, sd_selector := sel\<rparr>)) \<and>
    keys_ok (open_ready cfg now rel h k e (s\<lparr>sd_admission := l, sd_selector := sel\<rparr>))"
proof -
  let ?s = "s\<lparr>sd_admission := l, sd_selector := sel\<rparr>"
  let ?e = "e\<lparr>re_handle := Some h, re_opened_at := Some now, re_execution_deadline := Some (execution_deadline_of now e)\<rparr>"
  let ?abort = "set_entry k (?e\<lparr>re_state := RELEASING\<rparr>) ?s"
  let ?go = "(set_entry k (?e\<lparr>re_state := PREFILL\<rparr>) ?s)\<lparr>sd_prefill := sd_prefill s @ [k]\<rparr>"
  have g: "sm_request_id (en_scheduling e) = k" "\<not> re_terminalizing e" "known_class (sg_policy cfg) e" "\<not> re_release_confirmed e"
    using inv_entry [OF inv e(1)] e(2) by (simp_all add: entry_good_def)
  have ent: "entry_of j ?abort = (if j = k then Some (?e\<lparr>re_state := RELEASING\<rparr>) else entry_of j s)"
    "entry_of j ?go = (if j = k then Some (?e\<lparr>re_state := PREFILL\<rparr>) else entry_of j s)" for j
    by (simp_all add: entry_of_def set_entry_def)
  have keys': "keys_ok ?abort" "keys_ok ?go" using keys by (simp_all add: keys_ok_def set_entry_def distinct_update)
  have "sched_inv cfg {k} ?abort"
    using g l by (intro inv_change [OF inv, of "{k}"])
      (auto simp: ent entry_good_def located_def known_class_def)
  then have aborted: "sched_inv cfg {} (release_and_terminalize cfg now rel k None x
        (publish cfg now k EvSequenceOpened (Some h) PNone PNone ?abort)) \<and>
      keys_ok (release_and_terminalize cfg now rel k None x
        (publish cfg now k EvSequenceOpened (Some h) PNone PNone ?abort))" for x
    using keys'(1) by (intro release_idle [where e = "?e\<lparr>re_state := RELEASING\<rparr>"] inv_publish) (simp_all add: ent)
  have "sched_inv cfg {} ?go"
    using g l res by (intro inv_change [OF inv, of "{k}"])
      (auto simp: ent entry_good_def located_def known_class_def active_res_def)
  then show ?thesis
    using aborted keys'(2) unfolding open_ready_def Let_def
    by (cases "re_cancel_requested e \<or> sd_stopping ?s \<or> execution_deadline_of now e \<le> now")
       (simp_all add: inv_publish)
qed

lemma open_end_inv:
  assumes inv: "sched_inv cfg {k} s" and keys: "keys_ok s" and may: "may_open cfg k s"
  shows "sched_inv cfg {} (open_end cfg now rel opened reservation k s) \<and> keys_ok (open_end cfg now rel opened reservation k s)"
proof -
  obtain e where e: "entry_of k s = Some e" "re_state e = OPENING"
    using may by (auto simp: may_open_def state_is_def split: option.splits)
  have g: "sm_request_id (en_scheduling e) = k" "\<not> re_terminalizing e"
    using inv_entry [OF inv e(1)] e(2) by (simp_all add: entry_good_def)
  show ?thesis
  proof (cases opened)
    case (Inl exc)
    let ?t = "terminalize cfg now k None (Some (backend_error ''open_sequence_failed'' exc)) s"
    have st: "settles cfg k s ?t" using e g by (intro terminalize_settles) auto
    then have "sched_inv cfg {} ?t"
      using settles_inv [OF inv st] by (auto simp: settles_def finished_def calm_def intro!: inv_idle)
    then show ?thesis using e Inl keys_ok_terminalize [OF keys] by (simp add: open_end_def)
  next
    case (Inr h)
    let ?act = "rbind reservation (\<lambda>n. case activate k n (sd_admission s) of
        Inl err \<Rightarrow> Inl (admission_exc err) | Inr l \<Rightarrow> Inr l)"
    show ?thesis
    proof (cases ?act)
      case (Inl exc)
      let ?f = "e\<lparr>re_handle := Some h, re_state := RELEASING\<rparr>"
      have "sched_inv cfg {k} (set_entry k ?f s)" using e g by (intro releasing_inv [OF inv]) auto
      then have "sched_inv cfg {k} (publish cfg now k EvSequenceOpened (Some h) PNone PNone (set_entry k ?f s))"
        by (rule inv_publish)
      from release_idle [OF this, of ?f None] show ?thesis
        using e g keys Inr Inl by (simp add: open_end_def)
    next
      case (Inr l)
      then obtain n where n: "reservation = Inr n" and "(case activate k n (sd_admission s) of Inl err \<Rightarrow> Inl (admission_exc err) | Inr l \<Rightarrow> Inr l) = Inr l"
        by auto
      then have act: "activate k n (sd_admission s) = Inr l"
        by (cases "activate k n (sd_admission s)") auto
      have ok: "ledger_ok (sg_limits cfg) l"
        using activate_ledger_ok [OF inv_ledger [OF inv] _ act] may by (simp add: may_open_def)
      have "active_res k e l" "\<And>j. j \<noteq> k \<Longrightarrow> dict_get l j = dict_get (sd_admission s) j"
        using act inv_entry [OF inv e(1)] e(2)
        by (auto simp: activate_Inr active_res_def pending_res_def entry_good_def located_def)
      then show ?thesis
        using open_ready_inv [OF inv e keys ok] e g \<open>opened = Inr h\<close> by (simp add: open_end_def n act)
    qed
  qed
qed

section \<open>Worker: batches\<close>

lemma fold_set_state:
  "entry_of j (fold (set_state st) ks s) =
     (if j \<in> set ks then map_option (\<lambda>e. e\<lparr>re_state := st\<rparr>) (entry_of j s) else entry_of j s)"
  "sd_queued (fold (set_state st) ks s) = sd_queued s" "sd_prefill (fold (set_state st) ks s) = sd_prefill s"
  "sd_decode (fold (set_state st) ks s) = sd_decode s" "sd_admission (fold (set_state st) ks s) = sd_admission s"
  "keys_ok s \<Longrightarrow> keys_ok (fold (set_state st) ks s)"
  by (induction ks arbitrary: s) (auto simp: set_state_def option.map_comp o_def split: option.splits)

lemma prefill_steps_ids:
  assumes "\<forall>e\<in>set es. re_handle e \<noteq> None"
  shows "map fst (prefill_steps m r es) = map (\<lambda>e. sm_request_id (en_scheduling e)) es"
  using assms by (induction m r es rule: prefill_steps.induct) (auto simp: Let_def)

text \<open>Taking a batch: the selected requests leave the queue of \<open>st\<close> and become in flight.\<close>

lemma batch_taken:
  assumes inv: "sched_inv cfg {} s" and keys: "keys_ok s" and st: "st = PREFILL \<and> st' = PREFILL_INFLIGHT \<or> st = DECODE \<and> st' = DECODE_INFLIGHT"
    and es: "\<forall>e\<in>set es. entry_of (sm_request_id (en_scheduling e)) s = Some e \<and> re_state e = st"
    and ks: "set ks = (\<lambda>e. sm_request_id (en_scheduling e)) ` set es"
    and u: "\<And>j. entry_of j u = entry_of j s" "sd_admission u = sd_admission s" "sd_queued u = sd_queued s" "keys_ok u"
    and q: "\<And>j. j \<in> set (sd_prefill s) - set ks \<Longrightarrow> state_is j PREFILL s \<Longrightarrow> j \<in> set (sd_prefill u)"
      "\<And>j. j \<in> set (sd_decode s) - set ks \<Longrightarrow> state_is j DECODE s \<Longrightarrow> j \<in> set (sd_decode u)"
    and t: "t = fold (set_state st') ks u"
  shows "sched_inv cfg (set ks) t \<and> keys_ok t \<and> (\<forall>k\<in>set ks. state_is k st' t)"
proof -
  have own: "\<exists>e. entry_of k s = Some e \<and> re_state e = st \<and> entry_of k t = Some (e\<lparr>re_state := st'\<rparr>)" if "k \<in> set ks" for k
    using that es ks by (auto simp: t fold_set_state u)
  have "sched_inv cfg (set ks) t"
  proof (rule inv_change [OF inv, of "set ks"])
    fix j f assume j: "j \<in> set ks" "entry_of j t = Some f"
    then obtain e where e: "entry_of j s = Some e" "re_state e = st" "f = e\<lparr>re_state := st'\<rparr>" using own by fastforce
    then show "entry_good cfg (set ks) t j f"
      using inv_entry [OF inv e(1)] st j(1)
      by (auto simp: entry_good_def located_def active_res_def known_class_def t fold_set_state u)
  qed (use inv_ledger [OF inv] q in \<open>auto simp: t fold_set_state u\<close>)
  moreover have "\<forall>k\<in>set ks. state_is k st' t" using own unfolding state_is_def by fastforce
  ultimately show ?thesis using u(4) by (simp add: t fold_set_state)
qed

lemma prefill_begin_inv:
  assumes inv: "sched_inv cfg {} s" and keys: "keys_ok s" and b: "prefill_begin cfg now s = (Inr (ks, steps), t)"
  shows "sched_inv cfg (set ks) t \<and> keys_ok t \<and> (\<forall>k\<in>set ks. state_is k PREFILL_INFLIGHT t)"
proof -
  obtain n m es q u where take: "take_state cfg now (sd_prefill s) PREFILL n s = (Inr es, q, u)"
    and ks: "ks = map fst (prefill_steps m (sg_tick_token_budget cfg) es)"
    and t: "t = fold (set_state PREFILL_INFLIGHT) ks (u\<lparr>sd_prefill := q\<rparr>)"
    using b by (auto simp: prefill_begin_def Let_def split: option.splits prod.splits sum.splits)
  have eff: "selects s u"
    "\<forall>e\<in>set es. entry_of (sm_request_id (en_scheduling e)) s = Some e \<and> re_state e = PREFILL"
    "\<forall>j\<in>set (sd_prefill s). state_is j PREFILL s \<longrightarrow> j \<in> set q \<or> j \<in> (\<lambda>e. sm_request_id (en_scheduling e)) ` set es"
    using take_state_effect [OF take inv_keyed [OF inv]] by simp_all
  have "\<forall>e\<in>set es. re_handle e \<noteq> None"
    using eff(2) inv_entry [OF inv] by (fastforce simp: entry_good_def located_def)
  then have ids: "set ks = (\<lambda>e. sm_request_id (en_scheduling e)) ` set es"
    by (simp add: ks prefill_steps_ids)
  show ?thesis
    by (rule batch_taken [OF inv keys _ eff(2) ids _ _ _ _ _ _ t])
       (use eff(3) selects_fields [OF eff(1)] keys in \<open>auto simp: ids entry_of_def keys_ok_def\<close>)
qed

lemma decode_begin_inv:
  assumes inv: "sched_inv cfg {} s" and keys: "keys_ok s" and b: "decode_begin cfg now s = (Inr (ks, steps), t)"
  shows "sched_inv cfg (set ks) t \<and> keys_ok t \<and> (\<forall>k\<in>set ks. state_is k DECODE_INFLIGHT t)" and "length steps = length ks"
proof -
  obtain n quantum es q u sts where take: "take_state cfg now (sd_decode s) DECODE n s = (Inr es, q, u)"
    and ks: "ks = map (\<lambda>e. sm_request_id (en_scheduling e)) es"
    and t: "t = fold (set_state DECODE_INFLIGHT) (map fst sts) (u\<lparr>sd_decode := q\<rparr>)"
    and steps: "steps = map snd sts"
    and sts: "sts = List.map_filter (\<lambda>e. map_option (\<lambda>h. (sm_request_id (en_scheduling e),
        \<lparr>st_handle = h, st_token_budget = quantum\<rparr>)) (re_handle e)) es"
    using b by (auto simp: decode_begin_def Let_def split: option.splits prod.splits sum.splits)
  have eff: "selects s u"
    "\<forall>e\<in>set es. entry_of (sm_request_id (en_scheduling e)) s = Some e \<and> re_state e = DECODE"
    "\<forall>j\<in>set (sd_decode s). state_is j DECODE s \<longrightarrow> j \<in> set q \<or> j \<in> (\<lambda>e. sm_request_id (en_scheduling e)) ` set es"
    using take_state_effect [OF take inv_keyed [OF inv]] by simp_all
  have "\<forall>e\<in>set es. re_handle e \<noteq> None"
    using eff(2) inv_entry [OF inv] by (fastforce simp: entry_good_def located_def)
  then have ids: "map fst sts = ks"
    unfolding ks sts by (induction es) (auto simp: List.map_filter_simps)
  then show "length steps = length ks" by (metis length_map steps)
  from t ids have t: "t = fold (set_state DECODE_INFLIGHT) ks (u\<lparr>sd_decode := q\<rparr>)" by simp
  have ids: "set ks = (\<lambda>e. sm_request_id (en_scheduling e)) ` set es" by (simp add: ks)
  show "sched_inv cfg (set ks) t \<and> keys_ok t \<and> (\<forall>k\<in>set ks. state_is k DECODE_INFLIGHT t)"
    by (rule batch_taken [OF inv keys _ eff(2) ids _ _ _ _ _ _ t])
       (use eff(3) selects_fields [OF eff(1)] keys in \<open>auto simp: ids entry_of_def keys_ok_def\<close>)
qed

text \<open>The requests of a batch in flight belong to the worker and hold their sequences.\<close>

definition owned :: "'c sched_config \<Rightarrow> string set \<Rightarrow> 'c scheduler \<Rightarrow> bool" where
  "owned cfg K s \<longleftrightarrow> (\<forall>k\<in>K. \<exists>e. entry_of k s = Some e \<and> re_state e \<noteq> TERMINAL \<and> \<not> re_terminalizing e \<and>
     \<not> re_release_confirmed e \<and> re_handle e \<noteq> None \<and> active_res k e (sd_admission s))"

lemma inflight_owned:
  assumes inv: "sched_inv cfg busy s" and "\<forall>k\<in>K. state_is k st s" and "st \<in> {PREFILL_INFLIGHT, DECODE_INFLIGHT}"
  shows "owned cfg K s"
  unfolding owned_def
proof
  fix k assume "k \<in> K"
  then obtain e where e: "entry_of k s = Some e" "re_state e = st"
    using assms(2) by (auto simp: state_is_def split: option.splits)
  then show "\<exists>e. entry_of k s = Some e \<and> re_state e \<noteq> TERMINAL \<and> \<not> re_terminalizing e \<and>
     \<not> re_release_confirmed e \<and> re_handle e \<noteq> None \<and> active_res k e (sd_admission s)"
    using inv_entry [OF inv e(1)] assms(3) by (auto simp: entry_good_def located_def)
qed

lemma requeue_inv:
  assumes inv: "sched_inv cfg K s" and own: "owned cfg K s" and k: "k \<in> K" and e: "entry_of k s = Some e"
    and f: "re_handle f = re_handle e" "en_scheduling f = en_scheduling e" "re_terminalizing f = re_terminalizing e"
      "re_release_confirmed f = re_release_confirmed e"
    and t: "\<And>j. entry_of j t = (if j = k then Some f else entry_of j s)" "sd_admission t = sd_admission s"
      "sd_queued t = sd_queued s" "set (sd_prefill s) \<subseteq> set (sd_prefill t)" "set (sd_decode s) \<subseteq> set (sd_decode t)"
    and st: "re_state f = PREFILL \<and> k \<in> set (sd_prefill t) \<or> re_state f = DECODE \<and> k \<in> set (sd_decode t) \<or> re_state f = RELEASING"
  shows "sched_inv cfg K t \<and> owned cfg K t"
proof
  have o: "re_state e \<noteq> TERMINAL" "\<not> re_terminalizing e" "\<not> re_release_confirmed e" "re_handle e \<noteq> None"
      "active_res k e (sd_admission s)"
    using own k e by (fastforce simp: owned_def)+
  then have "entry_good cfg K t k f"
    using inv_entry [OF inv e] f t(2) st k
    by (auto simp: entry_good_def located_def active_res_def known_class_def)
  then show "sched_inv cfg K t"
    using t inv_ledger [OF inv] by (intro inv_change [OF inv, of "{k}"]) (auto split: if_splits)
  show "owned cfg K t" using own o f st unfolding owned_def by (auto simp: t active_res_def)
qed

lemma prefill_outcome_inv:
  assumes "sched_inv cfg K s" and "owned cfg K s" and "fst x \<in> K"
  shows "sched_inv cfg K (prefill_outcome x s) \<and> owned cfg K (prefill_outcome x s)"
    and "\<exists>e. entry_of (fst x) (prefill_outcome x s) = Some e \<and> re_state e \<in> {PREFILL, DECODE, RELEASING}"
    and "j \<noteq> fst x \<Longrightarrow> entry_of j (prefill_outcome x s) = entry_of j s"
proof -
  obtain k p where x: "x = (k, p)" by fastforce
  obtain e where e: "entry_of k s = Some e" using assms(2,3) by (auto simp: owned_def x)
  show "sched_inv cfg K (prefill_outcome x s) \<and> owned cfg K (prefill_outcome x s)"
    by (rule requeue_inv [OF assms(1,2) _ e, where f = "the (entry_of k (prefill_outcome x s))"])
       (use assms(3) e in \<open>auto simp: prefill_outcome_def x\<close>)
  show "\<exists>e. entry_of (fst x) (prefill_outcome x s) = Some e \<and> re_state e \<in> {PREFILL, DECODE, RELEASING}"
    "j \<noteq> fst x \<Longrightarrow> entry_of j (prefill_outcome x s) = entry_of j s"
    using e by (auto simp: prefill_outcome_def x)
qed

lemma decode_outcome_inv:
  assumes "sched_inv cfg K s" and "owned cfg K s" and "fst x \<in> K"
  shows "sched_inv cfg K (decode_outcome x s) \<and> owned cfg K (decode_outcome x s)"
    and "j \<noteq> fst x \<Longrightarrow> entry_of j (decode_outcome x s) = entry_of j s"
    and "entry_of (fst x) s = Some e \<Longrightarrow> \<exists>f. entry_of (fst x) (decode_outcome x s) = Some f \<and> re_handle f = re_handle e \<and>
      (if do_status (checked_outcome e (snd x)) = DecodeProgressed then re_state f = DECODE else re_state f = RELEASING)"
proof -
  obtain k d where x: "x = (k, d)" by fastforce
  obtain e where e: "entry_of k s = Some e" using assms(2,3) by (auto simp: owned_def x)
  show "sched_inv cfg K (decode_outcome x s) \<and> owned cfg K (decode_outcome x s)"
    by (rule requeue_inv [OF assms(1,2) _ e, where f = "the (entry_of k (decode_outcome x s))"])
       (use assms(3) e in \<open>auto simp: decode_outcome_def Let_def x\<close>)
  show "j \<noteq> fst x \<Longrightarrow> entry_of j (decode_outcome x s) = entry_of j s"
    using e by (auto simp: decode_outcome_def Let_def x)
  show "entry_of (fst x) s = Some e \<Longrightarrow> \<exists>f. entry_of (fst x) (decode_outcome x s) = Some f \<and> re_handle f = re_handle e \<and>
      (if do_status (checked_outcome e (snd x)) = DecodeProgressed then re_state f = DECODE else re_state f = RELEASING)" for e
    by (auto simp: decode_outcome_def Let_def x)
qed

text \<open>Operations that only publish events and charge the selector.\<close>

definition announces :: "'c scheduler \<Rightarrow> 'c scheduler \<Rightarrow> bool" where
  "announces s t \<longleftrightarrow> sd_entries t = sd_entries s \<and> same_queues s t \<and> sd_admission t = sd_admission s"

lemma announces_inv: "sched_inv cfg busy s \<Longrightarrow> announces s t \<Longrightarrow> sched_inv cfg busy t"
  by (erule inv_frame) (auto simp: announces_def entry_of_def)

lemma announces_keys: "announces s t \<Longrightarrow> keys_ok t = keys_ok s"
  by (simp add: announces_def keys_ok_def)

lemma announces_fold: "(\<And>x s. announces s (g x s)) \<Longrightarrow> announces s (fold g xs s)"
  by (induction xs arbitrary: s) (auto simp: announces_def same_queues_def)

lemma event_announces: "announces s (prefill_event cfg now x s)" "announces s (decode_event cfg now y s)"
  by (auto simp: announces_def same_queues_def prefill_event_def decode_event_def charge_tokens_def Let_def
      split: prod.splits option.splits)

lemma keys_ok_fold: "keys_ok s \<Longrightarrow> (\<And>x s. keys_ok s \<Longrightarrow> keys_ok (g x s)) \<Longrightarrow> keys_ok (fold g xs s)"
  by (induction xs arbitrary: s) auto

lemma keys_ok_event [simp]:
  "keys_ok (prefill_event cfg now x s) = keys_ok s" "keys_ok (decode_event cfg now y s) = keys_ok s"
  using announces_keys [OF event_announces(1)] announces_keys [OF event_announces(2)] by blast+

lemma keys_ok_record [simp]:
  "keys_ok (s\<lparr>sd_decode := q\<rparr>) = keys_ok s" "keys_ok (s\<lparr>sd_prefill := q\<rparr>) = keys_ok s"
  "keys_ok (s\<lparr>sd_decode_burst := n\<rparr>) = keys_ok s" "keys_ok (s\<lparr>sd_stopped := b\<rparr>) = keys_ok s"
  "keys_ok (s\<lparr>sd_fatal_error := x\<rparr>) = keys_ok s"
  by (simp_all add: keys_ok_def)

lemma keys_ok_batch:
  "keys_ok s \<Longrightarrow> keys_ok (prefill_outcome x s)" "keys_ok s \<Longrightarrow> keys_ok (decode_outcome y s)"
  "keys_ok s \<Longrightarrow> keys_ok (release_failed cfg now rel k s)" "keys_ok s \<Longrightarrow> keys_ok (decode_terminal cfg now rel y s)"
  "keys_ok s \<Longrightarrow> keys_ok (fail_batch cfg now rel err ks s)"
  by (auto simp: prefill_outcome_def decode_outcome_def release_failed_def decode_terminal_def complete_entry_def
      fail_batch_def Let_def intro!: keys_ok_release keys_ok_fold
      split: prod.splits option.splits DecodeStatus.splits)

lemma inv_burst: "sched_inv cfg busy (s\<lparr>sd_decode_burst := n\<rparr>) = sched_inv cfg busy s"
proof -
  have "sched_inv cfg busy t" if "sched_inv cfg busy s" "t = s\<lparr>sd_decode_burst := n\<rparr>" for s t :: "'a scheduler" and n
    by (rule inv_frame [OF that(1)]) (auto simp: that(2) same_queues_def)
  from this [of s _ n] this [of "s\<lparr>sd_decode_burst := n\<rparr>" s "sd_decode_burst s"] show ?thesis by auto
qed

lemma failed_batch_inv:
  assumes inv: "sched_inv cfg (set ks) s" and own: "owned cfg (set ks) s"
  shows "sched_inv cfg {} (fail_batch cfg now rel err ks s)"
proof -
  let ?t = "fail_batch cfg now rel err ks s"
  have "sched_inv cfg (set ks) ?t \<and> (\<forall>k\<in>set ks. \<exists>e. entry_of k ?t = Some e \<and> re_state e = TERMINAL) \<and>
      (\<forall>j. j \<notin> set ks \<longrightarrow> entry_of j ?t = entry_of j s)"
    using inv own by (intro fail_batch_inv) (auto simp: owned_def)
  then show ?thesis by (intro inv_calm [where busy = "set ks"]) (fastforce simp: calm_def)+
qed

lemma release_failed_inv:
  assumes inv: "sched_inv cfg K s"
    and e: "\<exists>e. entry_of k s = Some e \<and> re_state e \<in> {PREFILL, DECODE, RELEASING, TERMINAL}"
  shows "sched_inv cfg K (release_failed cfg now rel k s) \<and>
    (\<exists>e. entry_of k (release_failed cfg now rel k s) = Some e \<and> re_state e \<in> {PREFILL, DECODE, RELEASING, TERMINAL}) \<and>
    (\<exists>e. entry_of k (release_failed cfg now rel k s) = Some e \<and> calm e) \<and>
    (\<forall>j. j \<noteq> k \<longrightarrow> entry_of j (release_failed cfg now rel k s) = entry_of j s)"
proof -
  obtain e where e: "entry_of k s = Some e" "re_state e \<in> {PREFILL, DECODE, RELEASING, TERMINAL}"
    using assms(2) by blast
  show ?thesis
    using release_any [OF inv e(1), of None now rel "re_error e"] e inv
    by (cases "re_state e = RELEASING") (auto simp: release_failed_def calm_def)
qed

lemma prefill_end_inv:
  assumes inv: "sched_inv cfg (set ks) s" and keys: "keys_ok s" and st: "\<forall>k\<in>set ks. state_is k PREFILL_INFLIGHT s"
  shows "sched_inv cfg {} (prefill_end cfg now rel ks answer s) \<and> keys_ok (prefill_end cfg now rel ks answer s)"
proof (cases "rbind answer (\<lambda>ps. if length ps \<noteq> length ks then Inl \<lparr>bx_code = []\<rparr> else Inr ps)")
  case (Inl exc)
  then show ?thesis
    using failed_batch_inv [OF inv] inflight_owned [OF inv st] keys_ok_batch(5) [OF keys] by (simp add: prefill_end_def)
next
  case (Inr ps)
  then have len: "length ps = length ks" by (auto split: if_splits)
  have own: "owned cfg (set ks) s" using inflight_owned [OF inv st] by simp
  let ?s1 = "fold prefill_outcome (zip ks ps) s"
  let ?s2 = "fold (prefill_event cfg now) (zip ks ps) (?s1\<lparr>sd_decode_burst := 0\<rparr>)"
  let ?s3 = "fold (release_failed cfg now rel) ks ?s2"
  have keysz: "fst ` set (zip ks ps) = set ks"
    using len by (metis list.set_map map_fst_zip)
  have "(sched_inv cfg (set ks) ?s1 \<and> owned cfg (set ks) ?s1) \<and>
      (\<forall>x\<in>set (zip ks ps). True \<and> (\<exists>e. entry_of (fst x) ?s1 = Some e \<and> re_state e \<in> {PREFILL, DECODE, RELEASING})) \<and>
      (\<forall>j. j \<notin> fst ` set (zip ks ps) \<longrightarrow> entry_of j ?s1 = entry_of j s)"
    by (rule fold_own [where I = "\<lambda>s. sched_inv cfg (set ks) s \<and> owned cfg (set ks) s" and P = "\<lambda>_. True"
          and Q = "\<lambda>v. \<exists>e. v = Some e \<and> re_state e \<in> {PREFILL, DECODE, RELEASING}"])
       (use inv own keysz prefill_outcome_inv [where K = "set ks" and cfg = cfg] in blast)+
  then have s1: "sched_inv cfg (set ks) ?s1"
    "\<And>k. k \<in> set ks \<Longrightarrow> \<exists>e. entry_of k ?s1 = Some e \<and> re_state e \<in> {PREFILL, DECODE, RELEASING}"
    using keysz by force+
  have ann: "announces (?s1\<lparr>sd_decode_burst := 0\<rparr>) ?s2" by (rule announces_fold) (rule event_announces)
  have s2: "sched_inv cfg (set ks) ?s2" using s1(1) announces_inv [OF _ ann] by (simp add: inv_burst)
  have e2: "entry_of k ?s2 = entry_of k ?s1" for k using ann by (simp add: announces_def entry_of_def)
  have "sched_inv cfg (set ks) ?s3 \<and>
      (\<forall>k\<in>set ks. (\<exists>e. entry_of k ?s3 = Some e \<and> re_state e \<in> {PREFILL, DECODE, RELEASING, TERMINAL}) \<and>
        (\<exists>e. entry_of k ?s3 = Some e \<and> calm e)) \<and>
      (\<forall>j. j \<notin> (\<lambda>k. k) ` set ks \<longrightarrow> entry_of j ?s3 = entry_of j ?s2)"
  proof (rule fold_own [where I = "sched_inv cfg (set ks)" and
          P = "\<lambda>v. \<exists>e. v = Some e \<and> re_state e \<in> {PREFILL, DECODE, RELEASING, TERMINAL}" and Q = "\<lambda>v. \<exists>e. v = Some e \<and> calm e"])
    show "\<exists>e. entry_of k ?s2 = Some e \<and> re_state e \<in> {PREFILL, DECODE, RELEASING, TERMINAL}" if "k \<in> set ks" for k
      using s1(2) [OF that] e2 by auto
  qed (use s2 release_failed_inv in blast)+
  then have "sched_inv cfg {} ?s3" by (intro inv_calm [where busy = "set ks"]) auto
  moreover have "keys_ok ?s3" using keys by (auto intro!: keys_ok_fold keys_ok_batch)
  ultimately show ?thesis unfolding prefill_end_def Inr sum.case Let_def by blast
qed

lemma checked_outcome_cong: "re_handle f = re_handle e \<Longrightarrow> checked_outcome f d = checked_outcome e d"
  by (simp add: checked_outcome_def)

lemma decode_outcomes_inv:
  assumes "sched_inv cfg K s" and "owned cfg K s" and "fst ` set xs \<subseteq> K"
  shows "(sched_inv cfg K (fold decode_outcome xs s) \<and> owned cfg K (fold decode_outcome xs s)) \<and>
    (\<forall>k\<in>fst ` set xs. \<exists>f. entry_of k (fold decode_outcome xs s) = Some f \<and>
       (re_state f = DECODE \<or> re_state f = RELEASING \<and>
         (\<exists>d. (k, d) \<in> set xs \<and> do_status (checked_outcome f d) \<noteq> DecodeProgressed)))"
  using assms
proof (induction xs rule: rev_induct)
  case Nil
  then show ?case by simp
next
  case (snoc x xs)
  let ?s = "fold decode_outcome xs s" and ?t = "fold decode_outcome (xs @ [x]) s"
  have IH: "sched_inv cfg K ?s" "owned cfg K ?s"
    "\<And>k. k \<in> fst ` set xs \<Longrightarrow> \<exists>f. entry_of k ?s = Some f \<and> (re_state f = DECODE \<or> re_state f = RELEASING \<and>
        (\<exists>d. (k, d) \<in> set xs \<and> do_status (checked_outcome f d) \<noteq> DecodeProgressed))"
    using snoc by auto
  have x: "fst x \<in> K" using snoc.prems(3) by auto
  note one = decode_outcome_inv [OF IH(1,2) x]
  obtain e where e: "entry_of (fst x) ?s = Some e" using IH(2) x by (auto simp: owned_def)
  obtain f where f: "entry_of (fst x) ?t = Some f" "re_handle f = re_handle e"
    "if do_status (checked_outcome e (snd x)) = DecodeProgressed then re_state f = DECODE else re_state f = RELEASING"
    using one(3) [OF e] by auto
  have "\<exists>f. entry_of k ?t = Some f \<and> (re_state f = DECODE \<or> re_state f = RELEASING \<and>
        (\<exists>d. (k, d) \<in> set (xs @ [x]) \<and> do_status (checked_outcome f d) \<noteq> DecodeProgressed))"
    if k: "k \<in> fst ` set (xs @ [x])" for k
  proof (cases "k = fst x")
    case True
    have "(k, snd x) \<in> set (xs @ [x])" by (simp add: True)
    moreover have "checked_outcome f (snd x) = checked_outcome e (snd x)" using f(2) by (rule checked_outcome_cong)
    ultimately show ?thesis using f(1,3) True by (metis (no_types))
  next
    case False
    then have "k \<in> fst ` set xs" using k by auto
    moreover have "entry_of k ?t = entry_of k ?s" using one(2) [OF False] by simp
    ultimately show ?thesis using IH(3) [of k] by auto
  qed
  then show ?case using one(1) by simp
qed

lemma complete_inv:
  assumes inv: "sched_inv cfg K s" and e: "entry_of k s = Some e"
  shows "sched_inv cfg K (complete_entry cfg now rel k c s) \<and>
    (\<exists>f. entry_of k (complete_entry cfg now rel k c s) = Some f \<and> re_state f = TERMINAL) \<and>
    (\<forall>j. j \<noteq> k \<longrightarrow> entry_of j (complete_entry cfg now rel k c s) = entry_of j s)"
proof -
  have id: "sm_request_id (en_scheduling e) = k" using inv_entry [OF inv e] by (simp add: entry_good_def)
  have ok: "result_ok cfg e (make_result cfg now e d out)"
    if "concat (re_final_deltas e) = co_final_text d"
      "sg_check_output cfg (co_final_text d) (rq_contract (re_request e)) = Some out" for d out
    using that id by (simp add: result_ok_def make_result_def Let_def)
  note rel = release_any [OF inv e, where now = now and rel = rel]
  show ?thesis unfolding complete_entry_def using e
    by (auto split: option.splits intro!: rel [THEN conjunct1] rel [THEN conjunct2, THEN conjunct1]
        rel [THEN conjunct2, THEN conjunct2, rule_format] simp: ok)
qed

lemma decode_terminal_inv:
  assumes inv: "sched_inv cfg K s" and e: "entry_of k s = Some e"
  shows "sched_inv cfg K (decode_terminal cfg now rel (k, d) s) \<and>
    (if do_status (checked_outcome e d) = DecodeProgressed then decode_terminal cfg now rel (k, d) s = s
     else \<exists>f. entry_of k (decode_terminal cfg now rel (k, d) s) = Some f \<and> re_state f = TERMINAL) \<and>
    (\<forall>j. j \<noteq> k \<longrightarrow> entry_of j (decode_terminal cfg now rel (k, d) s) = entry_of j s)"
  using e inv complete_inv [OF inv e, where now = now and rel = rel and c = "do_completion (checked_outcome e d)"]
    release_any [OF inv e, of None now rel "Some (decode_failure (checked_outcome e d))"]
  by (cases "do_status (checked_outcome e d)") (simp_all add: decode_terminal_def Let_def)

lemma decode_terminals_inv:
  assumes "sched_inv cfg K s" and "\<forall>x\<in>set xs. \<exists>e. entry_of (fst x) s = Some e"
  shows "sched_inv cfg K (fold (decode_terminal cfg now rel) xs s) \<and>
    (\<forall>k e. entry_of k s = Some e \<longrightarrow> (\<exists>f. entry_of k (fold (decode_terminal cfg now rel) xs s) = Some f \<and>
       (re_state f = TERMINAL \<or> f = e \<and> (\<forall>d. (k, d) \<in> set xs \<longrightarrow> do_status (checked_outcome e d) = DecodeProgressed))))"
  using assms
proof (induction xs arbitrary: s)
  case Nil
  then show ?case by simp
next
  case (Cons x xs)
  obtain k d where x: "x = (k, d)" by fastforce
  obtain e where e: "entry_of k s = Some e" using Cons.prems(2) by (auto simp: x)
  let ?t = "decode_terminal cfg now rel (k, d) s"
  have t: "sched_inv cfg K ?t"
    "if do_status (checked_outcome e d) = DecodeProgressed then ?t = s else \<exists>f. entry_of k ?t = Some f \<and> re_state f = TERMINAL"
    "\<And>j. j \<noteq> k \<Longrightarrow> entry_of j ?t = entry_of j s"
    using decode_terminal_inv [OF Cons.prems(1) e, of now rel d] by auto
  have ex: "\<exists>f. entry_of j ?t = Some f" if "\<exists>f. entry_of j s = Some f" for j
    using that t(2,3) by (cases "j = k") (auto split: if_splits)
  have IH: "sched_inv cfg K (fold (decode_terminal cfg now rel) xs ?t)"
    "\<And>j f. entry_of j ?t = Some f \<Longrightarrow> \<exists>g. entry_of j (fold (decode_terminal cfg now rel) xs ?t) = Some g \<and>
       (re_state g = TERMINAL \<or> g = f \<and> (\<forall>d. (j, d) \<in> set xs \<longrightarrow> do_status (checked_outcome f d) = DecodeProgressed))"
    using Cons.IH [OF t(1)] Cons.prems(2) ex by auto
  have "\<exists>g. entry_of j (fold (decode_terminal cfg now rel) xs ?t) = Some g \<and>
       (re_state g = TERMINAL \<or> g = f \<and> (\<forall>d'. (j, d') \<in> set (x # xs) \<longrightarrow> do_status (checked_outcome f d') = DecodeProgressed))"
    if f: "entry_of j s = Some f" for j f
    using IH(2) [of j] t(2,3) e f by (cases "j = k") (auto simp: x split: if_splits)
  then show ?case using IH(1) by (simp add: x)
qed

lemma decode_end_inv:
  assumes inv: "sched_inv cfg (set ks) s" and keys: "keys_ok s" and st: "\<forall>k\<in>set ks. state_is k DECODE_INFLIGHT s"
  shows "sched_inv cfg {} (decode_end cfg now rel ks answer s) \<and> keys_ok (decode_end cfg now rel ks answer s)"
proof (cases "rbind answer (\<lambda>ds. if length ds \<noteq> length ks then Inl \<lparr>bx_code = []\<rparr> else Inr ds)")
  case (Inl exc)
  then show ?thesis
    using failed_batch_inv [OF inv] inflight_owned [OF inv st] keys_ok_batch(5) [OF keys] by (simp add: decode_end_def)
next
  case (Inr ds)
  then have len: "length ds = length ks" by (auto split: if_splits)
  have own: "owned cfg (set ks) s" using inflight_owned [OF inv st] by simp
  let ?xs = "zip ks ds" and ?s1 = "fold decode_outcome (zip ks ds) s"
  let ?s2 = "fold (decode_event cfg now) ?xs (?s1\<lparr>sd_decode_burst := sd_decode_burst ?s1 + 1\<rparr>)"
  let ?s3 = "fold (decode_terminal cfg now rel) ?xs ?s2"
  have keysz: "fst ` set ?xs = set ks" using len by (metis list.set_map map_fst_zip)
  have s1: "sched_inv cfg (set ks) ?s1"
    "\<And>k. k \<in> set ks \<Longrightarrow> \<exists>f. entry_of k ?s1 = Some f \<and> (re_state f = DECODE \<or> re_state f = RELEASING \<and>
       (\<exists>d. (k, d) \<in> set ?xs \<and> do_status (checked_outcome f d) \<noteq> DecodeProgressed))"
    using decode_outcomes_inv [OF inv own, of ?xs] unfolding keysz by auto
  have ann: "announces (?s1\<lparr>sd_decode_burst := sd_decode_burst ?s1 + 1\<rparr>) ?s2"
    by (rule announces_fold) (rule event_announces)
  have s2: "sched_inv cfg (set ks) ?s2" using s1(1) announces_inv [OF _ ann] by (simp add: inv_burst)
  have e2: "entry_of k ?s2 = entry_of k ?s1" for k using ann by (simp add: announces_def entry_of_def)
  have "\<forall>x\<in>set ?xs. \<exists>e. entry_of (fst x) ?s2 = Some e"
    unfolding e2 using s1(2) keysz by blast
  note s3 = decode_terminals_inv [OF s2 this, of now rel]
  have "calm f" if k: "k \<in> set ks" and f: "entry_of k ?s3 = Some f" for k f
  proof -
    obtain e where e: "entry_of k ?s2 = Some e" "re_state e = DECODE \<or> re_state e = RELEASING \<and>
       (\<exists>d. (k, d) \<in> set ?xs \<and> do_status (checked_outcome e d) \<noteq> DecodeProgressed)"
      using s1(2) [OF k] unfolding e2 by blast
    then show ?thesis using s3 f by (fastforce simp: calm_def)
  qed
  then have "sched_inv cfg {} ?s3" using s3 by (intro inv_calm [where busy = "set ks"]) auto
  moreover have "keys_ok ?s3" using keys by (auto intro!: keys_ok_fold keys_ok_batch)
  ultimately show ?thesis unfolding decode_end_def Inr sum.case Let_def by blast
qed

section \<open>Worker: crash\<close>

lemma fail_all_inv:
  assumes inv: "sched_inv cfg busy s"
  shows "sched_inv cfg {} (fail_all cfg now rel err s)"
    and "entry_of k (fail_all cfg now rel err s) = Some e \<Longrightarrow> re_state e = TERMINAL"
    and "keys_ok s \<Longrightarrow> keys_ok (fail_all cfg now rel err s)"
proof -
  let ?ks = "map fst (filter (\<lambda>(k, e). re_state e \<noteq> TERMINAL) (sd_entries s))"
  let ?t = "fail_batch cfg now rel err ?ks s"
  have t: "fail_all cfg now rel err s = ?t" by (simp add: fail_all_def fail_batch_def)
  have mem: "k \<in> set ?ks" if "entry_of k s = Some e" "re_state e \<noteq> TERMINAL" for k e
    using that by (force simp: entry_of_def dest: map_of_SomeD)
  have "\<exists>e. entry_of k s = Some e" if "k \<in> set ?ks" for k
    using that map_of_eq_None_iff [of "sd_entries s" k] by (force simp: entry_of_def)
  then have fb: "sched_inv cfg busy ?t \<and> (\<forall>k\<in>set ?ks. \<exists>e. entry_of k ?t = Some e \<and> re_state e = TERMINAL) \<and>
      (\<forall>j. j \<notin> set ?ks \<longrightarrow> entry_of j ?t = entry_of j s)"
    by (intro fail_batch_inv [OF inv])
  have ended: "re_state e = TERMINAL" if "entry_of k ?t = Some e" for k e
  proof (cases "k \<in> set ?ks")
    case True
    then show ?thesis using fb that by fastforce
  next
    case False
    then have "entry_of k s = Some e" using fb that by simp
    then show ?thesis using mem False by blast
  qed
  then show "entry_of k (fail_all cfg now rel err s) = Some e \<Longrightarrow> re_state e = TERMINAL" unfolding t .
  show "sched_inv cfg {} (fail_all cfg now rel err s)"
    unfolding t by (rule inv_calm [OF conjunct1 [OF fb]]) (drule ended, simp add: calm_def)
  show "keys_ok (fail_all cfg now rel err s)" if "keys_ok s" unfolding t using that by (rule keys_ok_batch)
qed

lemma crash_inv:
  assumes "sched_inv cfg busy s" and "keys_ok s"
  shows "sched_inv cfg {} (worker_crash cfg now rel s) \<and> keys_ok (worker_crash cfg now rel s)"
proof -
  let ?s = "s\<lparr>sd_fatal_error := Some (runtime_error ''scheduler_crashed'' True)\<rparr>"
  let ?t = "fail_all cfg now rel (runtime_error ''scheduler_crashed'' True) ?s"
  have "sched_inv cfg busy ?s" using assms(1) by (rule inv_frame) (simp_all add: same_queues_def)
  from fail_all_inv [OF this] have "sched_inv cfg {} ?t" "keys_ok ?t" using assms(2) by simp_all
  moreover from this(1) have "sched_inv cfg {} (?t\<lparr>sd_stopped := True\<rparr>)"
    by (rule inv_frame) (simp_all add: same_queues_def)
  ultimately show ?thesis by (simp add: worker_crash_def Let_def)
qed

section \<open>The machine\<close>

text \<open>
  The program counter of the worker thread: idle between actions, after \<open>_choose_batch_action\<close>,
  inside a backend call (with the requests it works on), or stopped.
\<close>

datatype worker_pc = WIdle | WChosen action | WOpening string | WPrefill "string list" | WDecode "string list" | WStopped

inductive sched_step :: "'c sched_config \<Rightarrow> worker_pc \<times> 'c scheduler \<Rightarrow> worker_pc \<times> 'c scheduler \<Rightarrow> bool"
  for cfg :: "'c sched_config" where
  Submit: "infer_submit cfg now a req m s = Inr t \<Longrightarrow> sched_step cfg (pc, s) (pc, t)"
| Collect: "infer_collect k s = Some (r, t) \<Longrightarrow> sched_step cfg (pc, s) (pc, t)"
| Cancel: "cancel k s = (b, t) \<Longrightarrow> sched_step cfg (pc, s) (pc, t)"
| Shutdown: "sched_step cfg (pc, s) (pc, shutdown_flags s)"
| Boundary: "process_terminal_boundaries cfg now rel s = (b, t) \<Longrightarrow> sched_step cfg (WIdle, s) (WIdle, t)"
| OpenNone: "open_begin cfg now s = (Inr None, t) \<Longrightarrow> sched_step cfg (WIdle, s) (WIdle, t)"
| OpenBegin: "open_begin cfg now s = (Inr (Some k), t) \<Longrightarrow> sched_step cfg (WIdle, s) (WOpening k, t)"
| OpenEnd: "sched_step cfg (WOpening k, s) (WIdle, open_end cfg now rel opened reservation k s)"
| Choose: "choose_batch_action cfg s = (act, t) \<Longrightarrow> sched_step cfg (WIdle, s) (WChosen act, t)"
| PrefillBegin: "prefill_begin cfg now s = (Inr (ks, steps), t) \<Longrightarrow>
    sched_step cfg (WChosen RunPrefill, s) (if ks = [] then WIdle else WPrefill ks, t)"
| PrefillEnd: "sched_step cfg (WPrefill ks, s) (WIdle, prefill_end cfg now rel ks answer1 s)"
| DecodeBegin: "decode_begin cfg now s = (Inr (ks, steps), t) \<Longrightarrow>
    sched_step cfg (WChosen RunDecode, s) (if steps = [] then WIdle else WDecode ks, t)"
| DecodeEnd: "sched_step cfg (WDecode ks, s) (WIdle, decode_end cfg now rel ks answer2 s)"
| Idle: "sched_step cfg (WChosen NoAction, s) (WIdle, s)"
| Stop: "worker_stop s = Some t \<Longrightarrow> sched_step cfg (WChosen NoAction, s) (WStopped, t)"
| Crash: "pc \<noteq> WStopped \<Longrightarrow> sched_step cfg (pc, s) (WStopped, worker_crash cfg now rel s)"

fun busy_of :: "worker_pc \<Rightarrow> string set" where
  "busy_of (WOpening k) = {k}"
| "busy_of (WPrefill ks) = set ks"
| "busy_of (WDecode ks) = set ks"
| "busy_of _ = {}"

fun pc_ok :: "'c sched_config \<Rightarrow> worker_pc \<Rightarrow> 'c scheduler \<Rightarrow> bool" where
  "pc_ok cfg (WOpening k) s = may_open cfg k s"
| "pc_ok cfg (WPrefill ks) s = (\<forall>k\<in>set ks. state_is k PREFILL_INFLIGHT s)"
| "pc_ok cfg (WDecode ks) s = (\<forall>k\<in>set ks. state_is k DECODE_INFLIGHT s)"
| "pc_ok cfg _ s = True"

definition machine_inv :: "'c sched_config \<Rightarrow> worker_pc \<times> 'c scheduler \<Rightarrow> bool" where
  "machine_inv cfg = (\<lambda>(pc, s). sched_inv cfg (busy_of pc) s \<and> keys_ok s \<and> pc_ok cfg pc s)"

text \<open>A caller keeps what the worker relies on, because it changes no state other than TERMINAL.\<close>

lemma pc_ok_keep:
  assumes "\<And>k st. st \<in> {OPENING, PREFILL_INFLIGHT, DECODE_INFLIGHT} \<Longrightarrow> state_is k st s \<Longrightarrow> state_is k st t"
    and "\<And>k. can_activate (sg_limits cfg) k (sd_admission s) \<Longrightarrow> can_activate (sg_limits cfg) k (sd_admission t)"
    and "pc_ok cfg pc s"
  shows "pc_ok cfg pc t"
  using assms by (cases pc) (auto simp: may_open_def)

lemma marks_state: "marks s t \<Longrightarrow> state_is k st s \<Longrightarrow> state_is k st t"
proof -
  assume m: "marks s t" and k: "state_is k st s"
  have "entry_of k t = entry_of k s \<or> (\<exists>e. entry_of k s = Some e \<and> entry_of k t = Some (e\<lparr>re_cancel_requested := True\<rparr>))"
    using m unfolding marks_def by blast
  then show "state_is k st t" using k by (auto simp: state_is_def)
qed

lemma marks_machine:
  assumes "machine_inv cfg (pc, s)" and "marks s t" and "keys_ok t"
  shows "machine_inv cfg (pc, t)"
proof -
  have "pc_ok cfg pc t"
    by (rule pc_ok_keep [of s]) (use assms marks_state in \<open>auto simp: machine_inv_def marks_def\<close>)
  then show ?thesis using assms marks_inv by (auto simp: machine_inv_def)
qed

lemma submit_machine:
  assumes "machine_inv cfg (pc, s)" and sub: "infer_submit cfg now a req m s = Inr t"
  shows "machine_inv cfg (pc, t)"
proof -
  have inv: "sched_inv cfg (busy_of pc) s" using assms(1) by (simp add: machine_inv_def)
  note eff = submit_inv [OF inv sub]
  obtain v where v: "admit (sg_limits cfg) (sg_policy cfg) m v (sd_admission s) = Inr (sd_admission t)"
    using eff(3) by blast
  have "pc_ok cfg pc t"
  proof (rule pc_ok_keep [of s])
    show "can_activate (sg_limits cfg) k (sd_admission t)" if "can_activate (sg_limits cfg) k (sd_admission s)" for k
      using quiet_can_activate [OF inv_ledger [OF inv] that] quiet_admit [OF v] by blast
    show "state_is k st t" if "state_is k st s" for k st
      using that eff(4) eff(5) [of k] by (cases "k = sm_request_id m") (auto simp: state_is_def)
    show "pc_ok cfg pc s" using assms(1) by (simp add: machine_inv_def)
  qed
  then show ?thesis using assms(1) eff(1,2) by (simp add: machine_inv_def)
qed

lemma collect_machine:
  assumes "machine_inv cfg (pc, s)" and c: "infer_collect k s = Some (r, t)"
  shows "machine_inv cfg (pc, t)"
proof -
  note eff = collect_effect [OF c]
  have "pc_ok cfg pc t"
    by (rule pc_ok_keep [of s]) (use assms(1) eff in \<open>auto simp: machine_inv_def state_is_def\<close>)
  then show ?thesis using assms(1) eff(5) collect_inv [OF _ c] by (auto simp: machine_inv_def)
qed

lemma choose_inv:
  assumes inv: "sched_inv cfg {} s" and keys: "keys_ok s" and c: "choose_batch_action cfg s = (act, t)"
  shows "sched_inv cfg {} t \<and> keys_ok t"
proof -
  have drop: "j \<in> set (dropWhile (\<lambda>k. \<not> state_is k st s) q)" if "j \<in> set q" "state_is j st s" for j st q
    using that by (induction q) auto
  have t: "t = s\<lparr>sd_decode := dropWhile (\<lambda>k. \<not> state_is k DECODE s) (sd_decode s),
      sd_prefill := dropWhile (\<lambda>k. \<not> state_is k PREFILL s) (sd_prefill s)\<rparr>"
    using c by (auto simp: choose_batch_action_def queue_has_state_def Let_def)
  have "sched_inv cfg {} t"
    using inv_ledger [OF inv] drop by (intro inv_change [OF inv, of "{}"]) (auto simp: t)
  then show ?thesis using keys by (simp add: t)
qed

lemma stop_inv:
  assumes "sched_inv cfg busy s" and "keys_ok s" and "worker_stop s = Some t"
  shows "sched_inv cfg busy t \<and> keys_ok t"
proof -
  have t: "t = s\<lparr>sd_stopped := True\<rparr>" using assms(3) by (simp add: worker_stop_def split: if_splits)
  show ?thesis unfolding t using assms(1,2) inv_frame [OF assms(1), of "s\<lparr>sd_stopped := True\<rparr>"]
    by (simp add: same_queues_def)
qed

lemma step_machine:
  assumes step: "sched_step cfg (pc, s) (pc', t)" and inv: "machine_inv cfg (pc, s)"
  shows "machine_inv cfg (pc', t)"
  using step
proof cases
  case Submit
  then show ?thesis using inv submit_machine by blast
next
  case Collect
  then show ?thesis using inv collect_machine by blast
next
  case (Cancel k b)
  then have "keys_ok t" using inv by (auto simp: machine_inv_def cancel_def split: option.splits if_splits)
  then show ?thesis using inv Cancel cancel_marks marks_machine by blast
next
  case Shutdown
  then have "keys_ok t" using inv
    by (auto simp: machine_inv_def shutdown_flags_def keys_ok_def comp_def case_prod_beta)
  then show ?thesis using inv Shutdown shutdown_marks marks_machine by blast
next
  case (Boundary now rel b)
  then show ?thesis using inv boundary_inv [of cfg s now rel b t] by (simp add: machine_inv_def)
next
  case (OpenNone now)
  then show ?thesis using inv open_begin_inv(1,2) [of cfg s now None t] by (simp add: machine_inv_def)
next
  case (OpenBegin now k)
  then show ?thesis using inv open_begin_inv(1,3) [of cfg s now "Some k" t] by (simp add: machine_inv_def)
next
  case OpenEnd
  then show ?thesis using inv by (simp add: machine_inv_def open_end_inv)
next
  case (Choose act)
  then show ?thesis using inv choose_inv [of cfg s act t] by (simp add: machine_inv_def)
next
  case (PrefillBegin now ks steps)
  then show ?thesis using inv prefill_begin_inv [of cfg s now ks steps t] by (auto simp: machine_inv_def)
next
  case PrefillEnd
  then show ?thesis using inv by (simp add: machine_inv_def prefill_end_inv)
next
  case (DecodeBegin now ks steps)
  then show ?thesis using inv decode_begin_inv [of cfg s now ks steps t] by (auto simp: machine_inv_def)
next
  case DecodeEnd
  then show ?thesis using inv by (simp add: machine_inv_def decode_end_inv)
next
  case Idle
  then show ?thesis using inv by (simp add: machine_inv_def)
next
  case Stop
  then show ?thesis using inv stop_inv [of cfg "{}" s t] by (simp add: machine_inv_def)
next
  case (Crash now rel)
  then show ?thesis using inv crash_inv [of cfg "busy_of pc" s now rel] by (simp add: machine_inv_def)
qed

definition sched_init :: "'c sched_config \<Rightarrow> worker_pc \<times> 'c scheduler \<Rightarrow> bool" where
  "sched_init cfg m \<longleftrightarrow> m = (WIdle, empty_scheduler) \<and> limits_wf (sg_limits cfg)"

interpretation batch_machine: invariant_system "sched_init cfg" "sched_step cfg" "machine_inv cfg"
  for cfg :: "'c sched_config"
proof
  fix m :: "worker_pc \<times> 'c scheduler"
  assume "sched_init cfg m"
  then show "machine_inv cfg m"
    using admission.inv_init [of "[]" "sg_limits cfg"]
    by (auto simp: sched_init_def machine_inv_def sched_inv_def empty_scheduler_def entry_of_def keys_ok_def)
next
  fix m n :: "worker_pc \<times> 'c scheduler"
  assume "machine_inv cfg m" "sched_step cfg m n"
  then show "machine_inv cfg n" by (cases m; cases n) (auto intro: step_machine)
qed

end
