(* ===== verification/SchedulerTheorems.thy ===== *)
theory SchedulerTheorems
  imports SchedulerMachine
begin

text \<open>
  What the callers of the continuous batch scheduler may rely on, in every state that callers and
  worker can reach together.
\<close>

section \<open>A concrete scheduler\<close>

definition demo_caps :: BackendCapabilities where
  "demo_caps = \<lparr>bc_backend = ''b'', bc_models = [''m''], bc_supports_full_request = True,
     bc_supports_sequence_steps = True, bc_supports_streaming = True, bc_supports_cancellation = True,
     bc_supports_chunked_prefill = True, bc_supports_decode_batching = True,
     bc_supports_continuous_batching = True, bc_supports_prefix_cache = False,
     bc_supports_session_cache = False, bc_supports_explicit_release = True, bc_max_context_tokens = 50,
     bc_max_output_tokens = 50, bc_max_concurrent_requests = 4, bc_max_concurrent_sequences = Some 4,
     bc_max_prefill_tokens_per_step = Some 8, bc_max_decode_tokens_per_step = Some 4,
     bc_max_sequences_per_step = Some 4\<rparr>"

definition demo_config :: "unit sched_config" where
  "demo_config = \<lparr>sg_tick_token_budget = 16, sg_max_pending_requests = 4, sg_max_decode_burst = 2,
     sg_policy = demo_policy, sg_limits = demo_limits, sg_capabilities = demo_caps,
     sg_sink = (\<lambda>_. False), sg_check_output = (\<lambda>t _. Some (PStr t))\<rparr>"

definition demo_request :: "unit runtime_request" where
  "demo_request = \<lparr>rq_model_id = ''m'', rq_messages = [(''user'', ''hi'')], rq_queue_timeout_ms = 1000,
     rq_execution_timeout_ms = 9000, rq_total_tokens = 20, rq_contract = ()\<rparr>"

definition demo_handle :: "string \<Rightarrow> SequenceHandle" where
  "demo_handle n = \<lparr>sh_backend = ''b'', sh_model = ''m'', sh_sequence = n, sh_generation = 1\<rparr>"

definition or_empty :: "'e + 'c scheduler \<Rightarrow> 'c scheduler" where
  "or_empty r = (case r of Inr s \<Rightarrow> s | Inl _ \<Rightarrow> empty_scheduler)"

text \<open>A request is submitted and its sequence opened.\<close>

definition demo_submitted :: "unit scheduler" where
  "demo_submitted = or_empty (infer_submit demo_config 1 ''a1'' demo_request (demo_metadata ''r'' ''w'' ''batch'') empty_scheduler)"

definition demo_taken :: "unit scheduler" where
  "demo_taken = snd (open_begin demo_config 1 demo_submitted)"

definition demo_opened :: "unit scheduler" where
  "demo_opened = open_end demo_config 1 (\<lambda>_. Inr Released) (Inr (demo_handle ''s1'')) (Inr (PInt 40)) ''r'' demo_taken"

lemma demo_submit: "infer_submit demo_config 1 ''a1'' demo_request (demo_metadata ''r'' ''w'' ''batch'') empty_scheduler = Inr demo_submitted"
  by code_simp

lemma demo_open: "open_begin demo_config 1 demo_submitted = (Inr (Some ''r''), demo_taken)"
  by code_simp

lemma demo_opened_state: "map_option re_state (entry_of ''r'' demo_opened) = Some PREFILL" "sd_prefill demo_opened = [''r'']"
  by code_simp+

lemma demo_reach_opened: "reach (sched_init demo_config) (sched_step demo_config) (WIdle, demo_opened)"
proof -
  have "limits_wf (sg_limits demo_config)" by (simp add: demo_config_def demo_limits_wf)
  then have "reach (sched_init demo_config) (sched_step demo_config) (WIdle, empty_scheduler)"
    by (intro reach_init) (simp add: sched_init_def)
  then have "reach (sched_init demo_config) (sched_step demo_config) (WIdle, demo_submitted)"
    by (rule reach_step) (rule Submit [OF demo_submit])
  then have "reach (sched_init demo_config) (sched_step demo_config) (WOpening ''r'', demo_taken)"
    by (rule reach_step) (rule OpenBegin [OF demo_open])
  then show ?thesis unfolding demo_opened_def by (rule reach_step) (rule OpenEnd)
qed

section \<open>Quotas\<close>

text \<open>
  C2: In every state that submits, cancellations, collections, shutdown, worker actions with any
  answers of the backend and worker crashes can reach, the reservations respect every admission
  quota: sequences and KV tokens in total, per workflow and per agent, and pending requests. This
  covers the gap between \<open>can_activate\<close> and \<open>activate\<close>, in which the lock is not held.
\<close>

theorem scheduler_quotas:
  assumes "reach (sched_init cfg) (sched_step cfg) (pc, s)"
  shows "quotas_ok (sg_limits cfg) (sd_admission s)"
  using batch_machine.inv_reach [OF assms] by (simp add: machine_inv_def sched_inv_def ledger_ok_def)

theorem scheduler_quotas_witness:
  "quotas_ok (sg_limits demo_config) (sd_admission demo_opened) \<and> dict_keys (sd_admission demo_opened) = [''r'']"
proof
  show "quotas_ok (sg_limits demo_config) (sd_admission demo_opened)" by (rule scheduler_quotas [OF demo_reach_opened])
  show "dict_keys (sd_admission demo_opened) = [''r'']" by code_simp
qed

section \<open>No request is lost\<close>

definition waiting :: "'c scheduler \<Rightarrow> RuntimeRequestState \<Rightarrow> string \<Rightarrow> bool" where
  "waiting s st k \<longleftrightarrow> (st = QUEUED \<and> k \<in> set (sd_queued s)) \<or> (st = PREFILL \<and> k \<in> set (sd_prefill s)) \<or>
     (st = DECODE \<and> k \<in> set (sd_decode s))"

lemma reach_entry:
  assumes "reach (sched_init cfg) (sched_step cfg) (pc, s)" and "entry_of k s = Some e"
  shows "entry_good cfg (busy_of pc) s k e"
  using batch_machine.inv_reach [OF assms(1)] assms(2) by (auto simp: machine_inv_def intro: inv_entry)



section \<open>The worker never sleeps on work\<close>

lemma queue_has: "k \<in> set q \<Longrightarrow> state_is k st s \<Longrightarrow> fst (queue_has_state q st s)"
  by (auto simp: queue_has_state_def Let_def dropWhile_eq_Nil_conv)

lemma deadline_wait:
  assumes "e \<in> set (nonterminal_entries s)" and "entry_deadline e = Some d"
  shows "\<exists>w. next_deadline_wait now s = Some w"
proof -
  have "d \<in> set (List.map_filter entry_deadline (nonterminal_entries s))"
    using assms by (force simp: List.map_filter_def)
  then show ?thesis by (auto simp: next_deadline_wait_def split: list.splits)
qed

text \<open>
  The worker never sleeps forever on a registered request. Whenever it is between actions and
  a request is not terminal, either the check under the lock finds work to do immediately, or the
  wait that follows has a finite timeout.
\<close>

theorem worker_wakes:
  assumes "reach (sched_init cfg) (sched_step cfg) (pc, s)" and "busy_of pc = {}" and "nonterminal_entries s \<noteq> []"
  shows "has_immediate_work cfg now s \<or> (\<exists>w. next_deadline_wait now s = Some w)"
proof -
  obtain k e where mem: "(k, e) \<in> set (sd_entries s)" "re_state e \<noteq> TERMINAL"
    using assms(3) by (auto simp: nonterminal_entries_def filter_empty_conv)
  have inv: "machine_inv cfg (pc, s)" by (rule batch_machine.inv_reach [OF assms(1)])
  then have e: "entry_of k s = Some e" using mem(1) by (simp add: machine_inv_def entry_of_mem)
  have non: "e \<in> set (nonterminal_entries s)" using mem by (force simp: nonterminal_entries_def)
  have st: "state_is k (re_state e) s" by (simp add: state_is_def e)
  have l: "located cfg {} s k e" using reach_entry [OF assms(1) e] assms(2) by (simp add: entry_good_def)
  consider "re_state e = QUEUED" "re_handle e = None" | "re_state e = PREFILL" "k \<in> set (sd_prefill s)"
    | "re_state e = DECODE" "k \<in> set (sd_decode s)"
    using l mem(2) by (cases "re_state e") (auto simp: located_def)
  then show ?thesis
  proof cases
    case 1
    then show ?thesis using deadline_wait [OF non] by (auto simp: entry_deadline_def)
  next
    case 2
    then show ?thesis using queue_has st by (auto simp: has_immediate_work_def)
  next
    case 3
    then show ?thesis using queue_has st by (auto simp: has_immediate_work_def)
  qed
qed

theorem worker_wakes_witness: "has_immediate_work demo_config 1 demo_opened \<or> (\<exists>w. next_deadline_wait 1 demo_opened = Some w)"
proof -
  have "busy_of WIdle = {}" by simp
  moreover have "nonterminal_entries demo_opened \<noteq> []" by code_simp
  ultimately show ?thesis by (rule worker_wakes [OF demo_reach_opened])
qed

section \<open>Selection never fails\<close>

text \<open>
  The selection of work never brings the worker down: with a valid clock reading and a backend
  that declares its step limits, opening, prefill selection and decode selection return normally in
  every reachable state, because every registered request has a known service class.
\<close>

theorem selection_total:
  assumes "reach (sched_init cfg) (sched_step cfg) (pc, s)" and "0 \<le> now"
    and "bc_max_sequences_per_step (sg_capabilities cfg) = Some n"
    and "bc_max_prefill_tokens_per_step (sg_capabilities cfg) = Some p"
    and "bc_max_decode_tokens_per_step (sg_capabilities cfg) = Some d"
  shows "(\<exists>r t. open_begin cfg now s = (Inr r, t)) \<and> (\<exists>r t. prefill_begin cfg now s = (Inr r, t)) \<and>
    (\<exists>r t. decode_begin cfg now s = (Inr r, t))"
proof -
  have inv: "sched_inv cfg (busy_of pc) s" using batch_machine.inv_reach [OF assms(1)] by (simp add: machine_inv_def)
  note c = inv_classified [OF inv] and k = inv_keyed [OF inv]
  let ?can = "\<lambda>c. can_activate (sg_limits cfg) (sm_request_id (en_scheduling c)) (sd_admission s)"
  obtain r q t where "pop_state cfg now (sd_queued s) QUEUED ?can s = (Inr r, q, t)"
    using pop_state_total [OF assms(2) c] by (metis RuntimeRequestState.distinct(13))
  then have "\<exists>r t. open_begin cfg now s = (Inr r, t)"
    by (cases r) (auto simp: open_begin_def Let_def)
  moreover obtain es q t where "take_state cfg now (sd_prefill s) PREFILL (nat n) s = (Inr es, q, t)"
    using take_state_total [OF assms(2) c _ k, of PREFILL] by blast
  then have "\<exists>r t. prefill_begin cfg now s = (Inr r, t)"
    using assms by (simp add: prefill_begin_def Let_def)
  moreover obtain es q t where "take_state cfg now (sd_decode s) DECODE (nat (min n (sg_tick_token_budget cfg))) s = (Inr es, q, t)"
    using take_state_total [OF assms(2) c _ k, of DECODE] by blast
  then have "\<exists>r t. decode_begin cfg now s = (Inr r, t)"
    using assms by (simp add: decode_begin_def Let_def)
  ultimately show ?thesis by blast
qed

theorem selection_total_witness:
  "\<exists>r t. prefill_begin demo_config 2 demo_opened = (Inr r, t)"
proof -
  have "bc_max_sequences_per_step (sg_capabilities demo_config) = Some 4"
    "bc_max_prefill_tokens_per_step (sg_capabilities demo_config) = Some 8"
    "bc_max_decode_tokens_per_step (sg_capabilities demo_config) = Some 4"
    by (simp_all add: demo_config_def demo_caps_def)
  then show ?thesis using selection_total [OF demo_reach_opened, of 2] by simp
qed

section \<open>What a caller of infer gets\<close>

text \<open>
  A result delivered by \<open>infer\<close> is genuine: it belongs to the request and its attempt, its
  text is exactly the concatenation of the streamed deltas, it passed the output contract of the
  request, the sequence was released and the reservation is gone. An error delivered by \<open>infer\<close> is
  the one recorded for the request, never the fallback for a request with neither result nor error.
\<close>

theorem collect_integrity:
  assumes "reach (sched_init cfg) (sched_step cfg) (pc, s)" and "infer_collect k s = Some (outcome, t)"
  shows "\<exists>e. entry_of k s = Some e \<and> entry_of k t = None \<and>
    (case outcome of
       Inr r \<Rightarrow> re_result e = Some r \<and> result_ok cfg e r \<and> re_release_confirmed e \<and> dict_get (sd_admission t) k = None
     | Inl x \<Rightarrow> re_result e = None \<and> re_error e = Some x)"
proof -
  note eff = collect_effect [OF assms(2)]
  obtain e where e: "entry_of k s = Some e" "re_state e = TERMINAL" using eff(1) by blast
  have ok: "terminal_ok cfg e" "re_result e \<noteq> None \<longrightarrow> dict_get (sd_admission s) k = None"
    using reach_entry [OF assms(1) e(1)] e(2) by (simp_all add: entry_good_def located_def)
  have out: "outcome = (case re_error e of Some x \<Rightarrow> Inl x | None \<Rightarrow>
      (case re_result e of None \<Rightarrow> Inl (runtime_error ''scheduler_invariant'' False) | Some r \<Rightarrow> Inr r))"
    using assms(2) e by (simp add: infer_collect_def)
  show ?thesis
    using e(1) eff(3) eff(4) [of k] ok out
    by (cases "re_error e"; cases "re_result e") (auto simp: terminal_ok_def)
qed

definition demo_completion :: SequenceCompletion where
  "demo_completion = \<lparr>co_final_text = ''ok'', co_prompt_tokens = 5, co_reasoning_tokens = 0,
      co_final_tokens = 2, co_sampled_tokens = 2, co_prompt_decode_ms = 1, co_generation_ms = 2,
      co_cached_prompt_tokens = 0, co_cache_hit = False, co_first_sample_ms = 1, co_first_final_ms = 1,
      co_sample_itl_ms = [1], co_final_itl_ms = [1], co_grammar_engine = ''none'', co_cache_match = ''none'',
      co_session_id = None, co_session_parent_generation = None, co_session_generation = None,
      co_session_copy_on_write = False\<rparr>"

definition demo_prefilling :: "unit scheduler" where
  "demo_prefilling = snd (prefill_begin demo_config 2 (snd (choose_batch_action demo_config demo_opened)))"

definition demo_prefilled :: "unit scheduler" where
  "demo_prefilled = prefill_end demo_config 2 (\<lambda>_. Inr Released) [''r'']
     (Inr [\<lparr>po_handle = demo_handle ''s1'', po_status = PrefillReady, po_processed_tokens = 5, po_remaining_tokens = 0\<rparr>]) demo_prefilling"

definition demo_decoding :: "unit scheduler" where
  "demo_decoding = snd (decode_begin demo_config 2 (snd (choose_batch_action demo_config demo_prefilled)))"

definition demo_finished :: "unit scheduler" where
  "demo_finished = decode_end demo_config 3 (\<lambda>_. Inr Released) [''r'']
     (Inr [\<lparr>do_handle = demo_handle ''s1'', do_status = DecodeFinished, do_token_ids = [7, 8], do_text_delta = ''ok'',
        do_finish_reason = Some FinishStop, do_completion = Some demo_completion, do_error_code = None\<rparr>]) demo_decoding"

lemma demo_prefill_steps:
  "choose_batch_action demo_config demo_opened = (RunPrefill, snd (choose_batch_action demo_config demo_opened))"
  "prefill_begin demo_config 2 (snd (choose_batch_action demo_config demo_opened)) =
     (Inr ([''r''], [\<lparr>st_handle = demo_handle ''s1'', st_token_budget = 8\<rparr>]), demo_prefilling)"
  by code_simp+

lemma demo_decode_steps:
  "choose_batch_action demo_config demo_prefilled = (RunDecode, snd (choose_batch_action demo_config demo_prefilled))"
  "decode_begin demo_config 2 (snd (choose_batch_action demo_config demo_prefilled)) =
     (Inr ([''r''], [\<lparr>st_handle = demo_handle ''s1'', st_token_budget = 4\<rparr>]), demo_decoding)"
  by code_simp+

lemma demo_reach_finished: "reach (sched_init demo_config) (sched_step demo_config) (WIdle, demo_finished)"
proof -
  let ?reach = "reach (sched_init demo_config) (sched_step demo_config)"
  have "?reach (WChosen RunPrefill, snd (choose_batch_action demo_config demo_opened))"
    using demo_reach_opened by (rule reach_step) (rule Choose [OF demo_prefill_steps(1)])
  then have "?reach (WPrefill [''r''], demo_prefilling)"
    by (rule reach_step) (use PrefillBegin [OF demo_prefill_steps(2)] in simp)
  then have "?reach (WIdle, demo_prefilled)"
    unfolding demo_prefilled_def by (rule reach_step) (rule PrefillEnd)
  then have "?reach (WChosen RunDecode, snd (choose_batch_action demo_config demo_prefilled))"
    by (rule reach_step) (rule Choose [OF demo_decode_steps(1)])
  then have "?reach (WDecode [''r''], demo_decoding)"
    by (rule reach_step) (use DecodeBegin [OF demo_decode_steps(2)] in simp)
  then show ?thesis unfolding demo_finished_def by (rule reach_step) (rule DecodeEnd)
qed

lemma demo_collect: "\<exists>r t. infer_collect ''r'' demo_finished = Some (Inr r, t) \<and> gr_output r = PStr ''ok''"
proof -
  have "(case infer_collect ''r'' demo_finished of Some (Inr r, t) \<Rightarrow> gr_output r = PStr ''ok'' | _ \<Rightarrow> False)"
    by code_simp
  then show ?thesis by (auto split: option.splits prod.splits sum.splits)
qed

theorem collect_integrity_witness:
  "\<exists>e r. entry_of ''r'' demo_finished = Some e \<and> re_result e = Some r \<and> result_ok demo_config e r \<and> gr_output r = PStr ''ok''"
proof -
  obtain r t where c: "infer_collect ''r'' demo_finished = Some (Inr r, t)" and out: "gr_output r = PStr ''ok''"
    using demo_collect by blast
  from collect_integrity [OF demo_reach_finished c] obtain e
    where "entry_of ''r'' demo_finished = Some e" "re_result e = Some r" "result_ok demo_config e r" by auto
  then show ?thesis using out by blast
qed

section \<open>Crash\<close>

lemma finish_keeps_entry: "entry_of k s = Some f \<Longrightarrow> \<exists>g. entry_of k (finish_entry cfg now j r x e s) = Some g"
  by (auto simp: finish_entry_def Let_def split: option.splits)

lemma release_keeps_entry:
  "entry_of k s = Some e \<Longrightarrow> \<exists>f. entry_of k (release_and_terminalize cfg now rel j r x s) = Some f"
  by (auto simp: release_and_terminalize_def terminalize_def Let_def send_admitted_def
      intro!: finish_keeps_entry split: option.splits sum.splits prod.splits)

lemma crash_terminal:
  assumes "sched_inv cfg busy s"
  shows "entry_of k (worker_crash cfg now rel s) = Some e \<Longrightarrow> re_state e = TERMINAL"
    and "entry_of k s \<noteq> None \<Longrightarrow> entry_of k (worker_crash cfg now rel s) \<noteq> None"
proof -
  let ?s = "s\<lparr>sd_fatal_error := Some (runtime_error ''scheduler_crashed'' True)\<rparr>"
  have inv: "sched_inv cfg busy ?s" using assms by (rule inv_frame) (simp_all add: same_queues_def)
  show "entry_of k (worker_crash cfg now rel s) = Some e \<Longrightarrow> re_state e = TERMINAL"
    using fail_all_inv(2) [OF inv] by (simp add: worker_crash_def Let_def)
  have keep: "entry_of k (fold (\<lambda>k t. release_and_terminalize cfg now rel k None (Some err) t) ks u) \<noteq> None"
    if "entry_of k u \<noteq> None" for ks u err
    using that by (induction ks arbitrary: u) (auto simp: release_keeps_entry)
  show "entry_of k s \<noteq> None \<Longrightarrow> entry_of k (worker_crash cfg now rel s) \<noteq> None"
    using keep [of ?s] by (simp add: worker_crash_def Let_def fail_all_def)
qed

text \<open>
  When the worker crashes, nobody waits forever: every registered request becomes terminal
  with a result or an error, no request is admitted afterwards, and the quotas still hold.
\<close>

theorem crash_fails_everything:
  assumes "reach (sched_init cfg) (sched_step cfg) (pc, s)"
  shows "(\<forall>k e. entry_of k (worker_crash cfg now rel s) = Some e \<longrightarrow>
      re_state e = TERMINAL \<and> (re_result e \<noteq> None \<or> re_error e \<noteq> None)) \<and>
    (\<forall>k. entry_of k s \<noteq> None \<longrightarrow> entry_of k (worker_crash cfg now rel s) \<noteq> None) \<and>
    (\<exists>x. infer_submit cfg now' a req m (worker_crash cfg now rel s) = Inl x) \<and>
    quotas_ok (sg_limits cfg) (sd_admission (worker_crash cfg now rel s))"
proof -
  have inv: "sched_inv cfg (busy_of pc) s" "keys_ok s"
    using batch_machine.inv_reach [OF assms] by (simp_all add: machine_inv_def)
  have c: "sched_inv cfg {} (worker_crash cfg now rel s)" using crash_inv [OF inv] by blast
  note all = crash_terminal [OF inv(1)]
  have "re_state e = TERMINAL \<and> (re_result e \<noteq> None \<or> re_error e \<noteq> None)"
    if "entry_of k (worker_crash cfg now rel s) = Some e" for k e
    using all(1) [OF that] inv_entry [OF c that] by (auto simp: entry_good_def located_def terminal_ok_def)
  moreover have "\<exists>x. infer_submit cfg now' a req m (worker_crash cfg now rel s) = Inl x"
    by (auto simp: infer_submit_def worker_crash_def Let_def)
  ultimately show ?thesis using all(2) c by (auto simp: sched_inv_def ledger_ok_def)
qed

theorem crash_fails_everything_witness:
  "\<exists>e. entry_of ''r'' (worker_crash demo_config 2 (\<lambda>_. Inr Released) demo_opened) = Some e \<and> re_state e = TERMINAL"
proof -
  have "entry_of ''r'' demo_opened \<noteq> None" using demo_opened_state(1) by auto
  then show ?thesis
    using crash_fails_everything [OF demo_reach_opened, of 2 "\<lambda>_. Inr Released"] by blast
qed

section \<open>Budgets on a concrete batch\<close>

theorem microbatch_budgets_witness:
  "budgets_ok 8 (sg_tick_token_budget demo_config) [\<lparr>st_handle = demo_handle ''s1'', st_token_budget = 8\<rparr>]"
proof -
  have "bc_max_sequences_per_step (sg_capabilities demo_config) = Some 4"
    "bc_max_prefill_tokens_per_step (sg_capabilities demo_config) = Some 8"
    "bc_max_decode_tokens_per_step (sg_capabilities demo_config) = Some 4" "4 \<le> sg_tick_token_budget demo_config"
    by (simp_all add: demo_config_def demo_caps_def)
  then show ?thesis using microbatch_budgets demo_prefill_steps(2) by force
qed

section \<open>A request id used again while a stale copy is queued\<close>

text \<open>
  A request that becomes terminal while it waits for prefill leaves its id in the prefill queue. If
  the caller submits the same id again, the id is queued twice and both copies look valid.
\<close>

definition demo_cancelled :: "unit scheduler" where
  "demo_cancelled = snd (process_terminal_boundaries demo_config 2 (\<lambda>_. Inr Released) (snd (cancel ''r'' demo_opened)))"

definition demo_collected :: "unit scheduler" where
  "demo_collected = empty_scheduler\<lparr>sd_prefill := [''r''], sd_event_failures := 4, sd_next_order := 1\<rparr>"

definition demo_again :: "unit scheduler" where
  "demo_again = or_empty (infer_submit demo_config 3 ''a2'' demo_request (demo_metadata ''r'' ''w'' ''batch'')
     demo_collected)"

definition demo_doubled :: "unit scheduler" where
  "demo_doubled = open_end demo_config 3 (\<lambda>_. Inr Released) (Inr (demo_handle ''s2'')) (Inr (PInt 40)) ''r''
     (snd (open_begin demo_config 3 demo_again))"

definition demo_double_batch :: "unit scheduler" where
  "demo_double_batch = snd (prefill_begin demo_config 4 (snd (choose_batch_action demo_config demo_doubled)))"

lemma demo_batch_invalid:
  "\<exists>err. validate_sequence_batch [\<lparr>st_handle = demo_handle ''s2'', st_token_budget = 8\<rparr>,
     \<lparr>st_handle = demo_handle ''s2'', st_token_budget = 8\<rparr>] (PInt 4) (PInt 8) = Inl err"
proof -
  have "case validate_sequence_batch [\<lparr>st_handle = demo_handle ''s2'', st_token_budget = 8\<rparr>,
     \<lparr>st_handle = demo_handle ''s2'', st_token_budget = 8\<rparr>] (PInt 4) (PInt 8) of Inl _ \<Rightarrow> True | Inr _ \<Rightarrow> False"
    by code_simp
  then show ?thesis by (auto split: sum.splits)
qed

lemma demo_double_step1:
  "cancel ''r'' demo_opened = (fst (cancel ''r'' demo_opened), snd (cancel ''r'' demo_opened))"
  by simp

lemma demo_double_step2:
  "process_terminal_boundaries demo_config 2 (\<lambda>_. Inr Released) (snd (cancel ''r'' demo_opened)) =
     (fst (process_terminal_boundaries demo_config 2 (\<lambda>_. Inr Released) (snd (cancel ''r'' demo_opened))), demo_cancelled)"
  by (simp add: demo_cancelled_def)

lemma demo_double_step3:
  "infer_collect ''r'' demo_cancelled = Some (Inl (runtime_error ''cancelled'' False), demo_collected)"
  by code_simp

lemma demo_double_step4:
  "infer_submit demo_config 3 ''a2'' demo_request (demo_metadata ''r'' ''w'' ''batch'')
     demo_collected = Inr demo_again"
  by code_simp

lemma demo_double_step5:
  "open_begin demo_config 3 demo_again = (Inr (Some ''r''), snd (open_begin demo_config 3 demo_again))"
  by code_simp

lemma demo_double_step6:
  "choose_batch_action demo_config demo_doubled = (RunPrefill, snd (choose_batch_action demo_config demo_doubled))"
  by code_simp

lemma demo_double_step7:
  "prefill_begin demo_config 4 (snd (choose_batch_action demo_config demo_doubled)) =
     (Inr ([''r'', ''r''], [\<lparr>st_handle = demo_handle ''s2'', st_token_budget = 8\<rparr>,
        \<lparr>st_handle = demo_handle ''s2'', st_token_budget = 8\<rparr>]), demo_double_batch)"
  by code_simp

text \<open>
  C39: The scheduler can put the same sequence twice into one prefill batch: after a cancellation
  during prefill and a second submission under the same request id, a reachable state selects the
  id twice, and the batch it sends is one that \<open>validate_sequence_batch\<close>, which the backends call,
  rejects. The rejection fails every request of the batch.
\<close>

theorem stale_id_doubles_batch:
  "reach (sched_init demo_config) (sched_step demo_config) (WPrefill [''r'', ''r''], demo_double_batch) \<and>
   (\<exists>ks steps. prefill_begin demo_config 4 (snd (choose_batch_action demo_config demo_doubled)) =
       (Inr (ks, steps), demo_double_batch) \<and> ks = [''r'', ''r''] \<and>
      (\<exists>err. validate_sequence_batch steps (PInt 4) (PInt 8) = Inl err))"
proof
  let ?reach = "reach (sched_init demo_config) (sched_step demo_config)"
  have "?reach (WIdle, snd (cancel ''r'' demo_opened))"
    using demo_reach_opened by (rule reach_step) (rule Cancel [OF demo_double_step1])
  then have "?reach (WIdle, demo_cancelled)" by (rule reach_step) (rule Boundary [OF demo_double_step2])
  then have "?reach (WIdle, demo_collected)"
    by (rule reach_step) (rule Collect [OF demo_double_step3])
  then have "?reach (WIdle, demo_again)" by (rule reach_step) (rule Submit [OF demo_double_step4])
  then have "?reach (WOpening ''r'', snd (open_begin demo_config 3 demo_again))"
    by (rule reach_step) (rule OpenBegin [OF demo_double_step5])
  then have "?reach (WIdle, demo_doubled)" unfolding demo_doubled_def by (rule reach_step) (rule OpenEnd)
  then have "?reach (WChosen RunPrefill, snd (choose_batch_action demo_config demo_doubled))"
    by (rule reach_step) (rule Choose [OF demo_double_step6])
  then show "?reach (WPrefill [''r'', ''r''], demo_double_batch)"
    by (rule reach_step) (use PrefillBegin [OF demo_double_step7] in simp)
  show "\<exists>ks steps. prefill_begin demo_config 4 (snd (choose_batch_action demo_config demo_doubled)) =
       (Inr (ks, steps), demo_double_batch) \<and> ks = [''r'', ''r''] \<and>
      (\<exists>err. validate_sequence_batch steps (PInt 4) (PInt 8) = Inl err)"
    using demo_double_step7 demo_batch_invalid by blast
qed

end
