(* ===== verification/AgentContracts.thy ===== *)
theory AgentContracts
  imports Prelude
begin

text \<open>
  The data of the agent runtime: \<open>agent_runtime/errors.py\<close>, \<open>ids.py\<close>, \<open>contracts.py\<close> and
  \<open>events.py\<close>. Error messages are not modelled, codes are. The type tests on enum fields are
  discharged by the types of the model. The tokenizer of \<open>json.loads\<close> and the printer of
  \<open>json.dumps\<close> are arguments: \<open>decode\<close> maps a text to the tree of \<open>json_node\<close>s that the hooks of
  the source see, \<open>dumps\<close> prints a value.
\<close>

section \<open>Errors and identifiers\<close>

datatype agent_kind = RuntimeKind | ContractKind | ConflictKind | IntegrityKind

datatype agent_exc = AgentExc agent_kind string | AgentPyExc py_exc

abbreviation runtime_exc :: "string \<Rightarrow> agent_exc" where "runtime_exc \<equiv> AgentExc RuntimeKind"
abbreviation contract_exc :: "string \<Rightarrow> agent_exc" where "contract_exc \<equiv> AgentExc ContractKind"
abbreviation integrity_exc :: "string \<Rightarrow> agent_exc" where "integrity_exc \<equiv> AgentExc IntegrityKind"

definition MAX_ID_BYTES :: nat where "MAX_ID_BYTES = 128"
definition MAX_DECISION_BYTES :: nat where "MAX_DECISION_BYTES = 16384"
definition MAX_TEXT_BYTES :: nat where "MAX_TEXT_BYTES = 8192"

definition validate_identifier :: "pyval \<Rightarrow> agent_exc + string" where
  "validate_identifier v =
     (case v of
        PStr s \<Rightarrow>
          if s = [] then Inl (contract_exc ''invalid_identifier'')
          else if MAX_ID_BYTES < length s then Inl (contract_exc ''invalid_identifier'')
          else if has_control s then Inl (contract_exc ''invalid_identifier'')
          else Inr s
      | _ \<Rightarrow> Inl (contract_exc ''invalid_identifier''))"

definition good_id :: "string \<Rightarrow> bool" where
  "good_id s \<longleftrightarrow> s \<noteq> [] \<and> length s \<le> MAX_ID_BYTES \<and> \<not> has_control s"

lemma validate_identifier_Inr [simp]: "validate_identifier v = Inr s \<longleftrightarrow> v = PStr s \<and> good_id s"
  by (auto simp: validate_identifier_def good_id_def split: pyval.splits)

lemma validate_str:
  "validate_identifier (PStr s) = (if good_id s then Inr s else Inl (contract_exc ''invalid_identifier''))"
  by (auto simp: validate_identifier_def good_id_def)

record 's correlation_ids =
  ci_workflow_id :: 's
  ci_task_id :: 's
  ci_run_id :: 's
  ci_turn_id :: 's
  ci_action_id :: 's
  ci_invocation_id :: 's
  ci_attempt_id :: 's

definition mk_CorrelationIds :: "pyval correlation_ids \<Rightarrow> agent_exc + string correlation_ids" where
  "mk_CorrelationIds a =
     rbind (validate_identifier (ci_workflow_id a)) (\<lambda>w.
     rbind (validate_identifier (ci_task_id a)) (\<lambda>t.
     rbind (validate_identifier (ci_run_id a)) (\<lambda>r.
     rbind (validate_identifier (ci_turn_id a)) (\<lambda>u.
     rbind (validate_identifier (ci_action_id a)) (\<lambda>c.
     rbind (validate_identifier (ci_invocation_id a)) (\<lambda>i.
     rbind (validate_identifier (ci_attempt_id a)) (\<lambda>n.
       Inr \<lparr>ci_workflow_id = w, ci_task_id = t, ci_run_id = r, ci_turn_id = u, ci_action_id = c,
            ci_invocation_id = i, ci_attempt_id = n\<rparr>)))))))"

section \<open>Enumerations\<close>

datatype AgentRunLifecycle =
  RunReady | RunDeciding | RunWaitingTool | RunObserving | RunSynthesizing | RunVerifying |
  RunSucceeded | RunBlocked | RunFailed | RunWaitingUser | RunPaused | RunCancelled | RunTimedOut |
  RunBudgetExhausted

datatype ToolInvocationLifecycle =
  ToolProposed | ToolArgsReady | ToolNeedsResolution | ToolAuthorized | ToolWaitingApproval |
  ToolDenied | ToolDispatched | ToolSucceeded | ToolPartial | ToolFailed | ToolUnknownOutcome

datatype EffectClass = ReadOnly | IdempotentMutation | NonIdempotentMutation

datatype SideEffectState = EffectNone | EffectNotDispatched | EffectApplied | EffectPartial | EffectUnknown

datatype RetryScope = RetryNever | RetryTransient | RetryIdempotent | RetryReconcileOnly

datatype AuthorizationDecision = AuthAllow | AuthDeny | AuthRequireApproval

datatype FlowPolicy =
  DirectReturnSafe | SynthesizeNoTools | ReplanWithObservation | VerifyThenReplan |
  PauseForApproval | PersistAndStop | Handoff

datatype DecisionAction = CallTool | AskUser | Submit | DecideBlocked

fun run_value :: "AgentRunLifecycle \<Rightarrow> string" where
  "run_value RunReady = ''ready''"
| "run_value RunDeciding = ''deciding''"
| "run_value RunWaitingTool = ''waiting_tool''"
| "run_value RunObserving = ''observing''"
| "run_value RunSynthesizing = ''synthesizing''"
| "run_value RunVerifying = ''verifying''"
| "run_value RunSucceeded = ''succeeded''"
| "run_value RunBlocked = ''blocked''"
| "run_value RunFailed = ''failed''"
| "run_value RunWaitingUser = ''waiting_user''"
| "run_value RunPaused = ''paused''"
| "run_value RunCancelled = ''cancelled''"
| "run_value RunTimedOut = ''timed_out''"
| "run_value RunBudgetExhausted = ''budget_exhausted''"

fun tool_value :: "ToolInvocationLifecycle \<Rightarrow> string" where
  "tool_value ToolProposed = ''proposed''"
| "tool_value ToolArgsReady = ''args_ready''"
| "tool_value ToolNeedsResolution = ''needs_resolution''"
| "tool_value ToolAuthorized = ''authorized''"
| "tool_value ToolWaitingApproval = ''waiting_approval''"
| "tool_value ToolDenied = ''denied''"
| "tool_value ToolDispatched = ''dispatched''"
| "tool_value ToolSucceeded = ''succeeded''"
| "tool_value ToolPartial = ''partial''"
| "tool_value ToolFailed = ''failed''"
| "tool_value ToolUnknownOutcome = ''unknown_outcome''"

fun effect_value :: "EffectClass \<Rightarrow> string" where
  "effect_value ReadOnly = ''read_only''"
| "effect_value IdempotentMutation = ''idempotent_mutation''"
| "effect_value NonIdempotentMutation = ''non_idempotent_mutation''"

fun side_effect_value :: "SideEffectState \<Rightarrow> string" where
  "side_effect_value EffectNone = ''none''"
| "side_effect_value EffectNotDispatched = ''not_dispatched''"
| "side_effect_value EffectApplied = ''applied''"
| "side_effect_value EffectPartial = ''partial''"
| "side_effect_value EffectUnknown = ''unknown''"

fun auth_value :: "AuthorizationDecision \<Rightarrow> string" where
  "auth_value AuthAllow = ''allow''"
| "auth_value AuthDeny = ''deny''"
| "auth_value AuthRequireApproval = ''require_approval''"

fun policy_value :: "FlowPolicy \<Rightarrow> string" where
  "policy_value DirectReturnSafe = ''direct_return_safe''"
| "policy_value SynthesizeNoTools = ''synthesize_no_tools''"
| "policy_value ReplanWithObservation = ''replan_with_observation''"
| "policy_value VerifyThenReplan = ''verify_then_replan''"
| "policy_value PauseForApproval = ''pause_for_approval''"
| "policy_value PersistAndStop = ''persist_and_stop''"
| "policy_value Handoff = ''handoff''"

fun action_value :: "DecisionAction \<Rightarrow> string" where
  "action_value CallTool = ''call_tool''"
| "action_value AskUser = ''ask_user''"
| "action_value Submit = ''submit''"
| "action_value DecideBlocked = ''blocked''"

text \<open>Looking an enum member up by value, as \<open>AgentRunLifecycle(v)\<close> does.\<close>

definition run_members :: "AgentRunLifecycle list" where
  "run_members = [RunReady, RunDeciding, RunWaitingTool, RunObserving, RunSynthesizing, RunVerifying,
     RunSucceeded, RunBlocked, RunFailed, RunWaitingUser, RunPaused, RunCancelled, RunTimedOut, RunBudgetExhausted]"

definition tool_members :: "ToolInvocationLifecycle list" where
  "tool_members = [ToolProposed, ToolArgsReady, ToolNeedsResolution, ToolAuthorized, ToolWaitingApproval,
     ToolDenied, ToolDispatched, ToolSucceeded, ToolPartial, ToolFailed, ToolUnknownOutcome]"

definition run_of :: "pyval \<Rightarrow> AgentRunLifecycle option" where
  "run_of v = (case v of PStr s \<Rightarrow> List.find (\<lambda>m. run_value m = s) run_members | _ \<Rightarrow> None)"

definition tool_of :: "pyval \<Rightarrow> ToolInvocationLifecycle option" where
  "tool_of v = (case v of PStr s \<Rightarrow> List.find (\<lambda>m. tool_value m = s) tool_members | _ \<Rightarrow> None)"

definition action_of :: "pyval \<Rightarrow> DecisionAction option" where
  "action_of v = (case v of PStr s \<Rightarrow> List.find (\<lambda>m. action_value m = s) [CallTool, AskUser, Submit, DecideBlocked] | _ \<Rightarrow> None)"

lemma run_of_value [simp]: "run_of (PStr (run_value m)) = Some m"
  by (cases m) (simp_all add: run_of_def run_members_def)

lemma tool_of_value [simp]: "tool_of (PStr (tool_value m)) = Some m"
  by (cases m) (simp_all add: tool_of_def tool_members_def)

lemma action_of_value [simp]: "action_of (PStr (action_value m)) = Some m"
  by (cases m) (simp_all add: action_of_def)

section \<open>Values\<close>

fun all_finite :: "pyval \<Rightarrow> bool" where
  "all_finite (PFloat x) = (case x of Finite _ \<Rightarrow> True | _ \<Rightarrow> False)"
| "all_finite (PList vs) = list_all all_finite vs"
| "all_finite (PTuple vs) = list_all all_finite vs"
| "all_finite (PDict kvs) = list_all (\<lambda>kv. all_finite (snd kv)) kvs"
| "all_finite v = True"

definition reject_nonfinite :: "pyval \<Rightarrow> agent_exc + unit" where
  "reject_nonfinite v = ensure (all_finite v) (contract_exc ''invalid_contract'')"

fun freeze :: "pyval \<Rightarrow> pyval" where
  "freeze (PList vs) = PTuple (map freeze vs)"
| "freeze (PTuple vs) = PTuple (map freeze vs)"
| "freeze (PDict kvs) = PDict (map (\<lambda>kv. (fst kv, freeze (snd kv))) kvs)"
| "freeze v = v"

definition mapping_field :: "pyval \<Rightarrow> agent_exc + (string, pyval) odict" where
  "mapping_field v =
     (case v of
        PDict kvs \<Rightarrow> rbind (reject_nonfinite v) (\<lambda>_. Inr (map (\<lambda>kv. (fst kv, freeze (snd kv))) kvs))
      | _ \<Rightarrow> Inl (contract_exc ''invalid_contract''))"

text \<open>\<open>_text\<close>; \<open>None\<close> is the accepted null.\<close>

definition text_value :: "pyval \<Rightarrow> agent_exc + string" where
  "text_value v =
     (case v of
        PStr s \<Rightarrow>
          if s = [] then Inl (contract_exc ''invalid_contract'')
          else if MAX_TEXT_BYTES < length s then Inl (contract_exc ''contract_too_large'')
          else if has_control s then Inl (contract_exc ''invalid_contract'')
          else Inr s
      | _ \<Rightarrow> Inl (contract_exc ''invalid_contract''))"

definition nullable_text :: "pyval \<Rightarrow> agent_exc + string option" where
  "nullable_text v = (if v = PNone then Inr None else rbind (text_value v) (\<lambda>s. Inr (Some s)))"

section \<open>Strict JSON\<close>

datatype json_node =
    JNull
  | JBool bool
  | JInt int
  | JFloat pyfloat
  | JConst string
  | JStr string
  | JArr "json_node list"
  | JObj "(string \<times> json_node) list"

text \<open>The value after the hooks: duplicate keys and the constants NaN and Infinity are refused.\<close>

fun strict_value :: "json_node \<Rightarrow> pyval option" where
  "strict_value JNull = Some PNone"
| "strict_value (JBool b) = Some (PBool b)"
| "strict_value (JInt i) = Some (PInt i)"
| "strict_value (JFloat x) = Some (PFloat x)"
| "strict_value (JConst _) = None"
| "strict_value (JStr s) = Some (PStr s)"
| "strict_value (JArr ns) = map_option PList (those (map strict_value ns))"
| "strict_value (JObj kns) =
     (if distinct (map fst kns)
      then map_option (\<lambda>vs. PDict (zip (map fst kns) vs)) (those (map (\<lambda>kn. strict_value (snd kn)) kns))
      else None)"

definition strict_object :: "(string \<Rightarrow> json_node option) \<Rightarrow> nat \<Rightarrow> string \<Rightarrow> agent_exc + (string, pyval) odict" where
  "strict_object decode max_bytes raw =
     (if max_bytes < length raw then Inl (contract_exc ''contract_too_large'')
      else case decode raw of
        None \<Rightarrow> Inl (contract_exc ''invalid_json'')
      | Some n \<Rightarrow>
          (case strict_value n of
             None \<Rightarrow> Inl (contract_exc ''invalid_json'')
           | Some (PDict kvs) \<Rightarrow> Inr kvs
           | Some _ \<Rightarrow> Inl (contract_exc ''invalid_contract'')))"

section \<open>Tool intents\<close>

record ToolIntent =
  ti_action :: DecisionAction
  ti_tool_id :: "string option"
  ti_objective :: "string option"
  ti_input_hint :: "string option"
  ti_message :: "string option"

text \<open>\<open>_validate_shape\<close>; an empty string counts as missing, as in the source.\<close>

definition present :: "string option \<Rightarrow> bool" where
  "present x = (case x of None \<Rightarrow> False | Some s \<Rightarrow> s \<noteq> [])"

definition validate_shape :: "ToolIntent \<Rightarrow> agent_exc + unit" where
  "validate_shape i =
     (if ti_action i = CallTool
      then ensure (present (ti_tool_id i) \<and> present (ti_objective i) \<and> present (ti_input_hint i) \<and> ti_message i = None)
             (contract_exc ''invalid_contract'')
      else ensure (\<not> (present (ti_tool_id i) \<or> present (ti_objective i) \<or> present (ti_input_hint i)) \<and> present (ti_message i))
             (contract_exc ''invalid_contract''))"

definition mk_ToolIntent ::
  "DecisionAction \<Rightarrow> pyval \<Rightarrow> pyval \<Rightarrow> pyval \<Rightarrow> pyval \<Rightarrow> agent_exc + ToolIntent" where
  "mk_ToolIntent action tool_id objective input_hint message =
     rbind (nullable_text tool_id) (\<lambda>t.
     rbind (nullable_text objective) (\<lambda>ob.
     rbind (nullable_text input_hint) (\<lambda>h.
     rbind (nullable_text message) (\<lambda>m.
       (let i = \<lparr>ti_action = action, ti_tool_id = t, ti_objective = ob, ti_input_hint = h, ti_message = m\<rparr> in
        rbind (validate_shape i) (\<lambda>_. Inr i))))))"

definition validate_intent :: "string list \<Rightarrow> ToolIntent \<Rightarrow> agent_exc + unit" where
  "validate_intent allowed i =
     rbind (validate_shape i) (\<lambda>_.
       ensure (ti_action i = CallTool \<longrightarrow> (case ti_tool_id i of None \<Rightarrow> False | Some t \<Rightarrow> t \<in> set allowed))
         (contract_exc ''unknown_tool''))"

definition intent_fields :: "string list" where
  "intent_fields = [''action'', ''tool_id'', ''objective'', ''input_hint'', ''message'']"

definition parse_intent ::
  "(string \<Rightarrow> json_node option) \<Rightarrow> string \<Rightarrow> string list \<Rightarrow> agent_exc + ToolIntent" where
  "parse_intent decode raw allowed =
     rbind (strict_object decode MAX_DECISION_BYTES raw) (\<lambda>d.
       if set (dict_keys d) \<noteq> set intent_fields then Inl (contract_exc ''invalid_contract'')
       else case action_of (dict_item d ''action'') of
         None \<Rightarrow> Inl (contract_exc ''invalid_contract'')
       | Some action \<Rightarrow>
           rbind (mk_ToolIntent action (dict_item d ''tool_id'') (dict_item d ''objective'')
                    (dict_item d ''input_hint'') (dict_item d ''message'')) (\<lambda>i.
           rbind (validate_intent allowed i) (\<lambda>_. Inr i)))"

section \<open>Calls, results and definitions\<close>

record CompiledToolCall =
  cc_action_id :: string
  cc_invocation_id :: string
  cc_internal_call_id :: string
  cc_tool_id :: string
  cc_tool_version :: string
  cc_native_arguments :: "(string, pyval) odict"
  cc_idempotency_key :: string
  cc_effect_class :: EffectClass

definition mk_CompiledToolCall ::
  "pyval \<Rightarrow> pyval \<Rightarrow> pyval \<Rightarrow> pyval \<Rightarrow> pyval \<Rightarrow> pyval \<Rightarrow> pyval \<Rightarrow> EffectClass \<Rightarrow> agent_exc + CompiledToolCall" where
  "mk_CompiledToolCall action_id invocation_id internal_call_id tool_id tool_version native_arguments
     idempotency_key effect_class =
     rbind (validate_identifier action_id) (\<lambda>a.
     rbind (validate_identifier invocation_id) (\<lambda>i.
     rbind (validate_identifier internal_call_id) (\<lambda>c.
     rbind (validate_identifier tool_id) (\<lambda>t.
     rbind (validate_identifier tool_version) (\<lambda>v.
     rbind (validate_identifier idempotency_key) (\<lambda>k.
     rbind (mapping_field native_arguments) (\<lambda>n.
       Inr \<lparr>cc_action_id = a, cc_invocation_id = i, cc_internal_call_id = c, cc_tool_id = t,
            cc_tool_version = v, cc_native_arguments = n, cc_idempotency_key = k,
            cc_effect_class = effect_class\<rparr>)))))))"

record AgentErrorInfo =
  ae_code :: string
  ae_message :: string
  ae_retryable :: bool
  ae_retry_scope :: RetryScope
  ae_side_effect_state :: SideEffectState

definition mk_AgentErrorInfo ::
  "pyval \<Rightarrow> pyval \<Rightarrow> bool \<Rightarrow> RetryScope \<Rightarrow> SideEffectState \<Rightarrow> agent_exc + AgentErrorInfo" where
  "mk_AgentErrorInfo code message retryable scope state =
     rbind (validate_identifier code) (\<lambda>c.
     rbind (text_value message) (\<lambda>m.
       Inr \<lparr>ae_code = c, ae_message = m, ae_retryable = retryable, ae_retry_scope = scope,
            ae_side_effect_state = state\<rparr>))"

record AuthorizationResult =
  ar_decision :: AuthorizationDecision
  ar_reason :: string
  ar_policy_id :: string

definition mk_AuthorizationResult :: "AuthorizationDecision \<Rightarrow> pyval \<Rightarrow> pyval \<Rightarrow> agent_exc + AuthorizationResult" where
  "mk_AuthorizationResult decision reason policy_id =
     rbind (text_value reason) (\<lambda>r.
     rbind (validate_identifier policy_id) (\<lambda>p.
       Inr \<lparr>ar_decision = decision, ar_reason = r, ar_policy_id = p\<rparr>))"

record ToolResultEnvelope =
  tr_invocation_id :: string
  tr_tool_id :: string
  tr_tool_version :: string
  tr_status :: ToolInvocationLifecycle
  tr_summary :: string
  tr_data_ref :: "string option"
  tr_data_hash :: "string option"
  tr_truncated :: bool
  tr_side_effect_state :: SideEffectState
  tr_error :: "AgentErrorInfo option"
  tr_provenance :: string

definition mk_ToolResultEnvelope ::
  "pyval \<Rightarrow> pyval \<Rightarrow> pyval \<Rightarrow> ToolInvocationLifecycle \<Rightarrow> pyval \<Rightarrow> pyval \<Rightarrow> pyval \<Rightarrow> bool \<Rightarrow>
   SideEffectState \<Rightarrow> AgentErrorInfo option \<Rightarrow> pyval \<Rightarrow> agent_exc + ToolResultEnvelope" where
  "mk_ToolResultEnvelope invocation_id tool_id tool_version status summary data_ref data_hash truncated
     side_effect_state error provenance =
     rbind (validate_identifier invocation_id) (\<lambda>i.
     rbind (validate_identifier tool_id) (\<lambda>t.
     rbind (validate_identifier tool_version) (\<lambda>v.
     rbind (validate_identifier provenance) (\<lambda>p.
     rbind (text_value summary) (\<lambda>s.
     rbind (nullable_text data_ref) (\<lambda>r.
     rbind (nullable_text data_hash) (\<lambda>h.
       if status \<notin> {ToolSucceeded, ToolPartial, ToolFailed, ToolUnknownOutcome}
       then Inl (contract_exc ''invalid_contract'')
       else if status \<in> {ToolFailed, ToolUnknownOutcome} \<and> error = None
       then Inl (contract_exc ''invalid_contract'')
       else Inr \<lparr>tr_invocation_id = i, tr_tool_id = t, tr_tool_version = v, tr_status = status, tr_summary = s,
            tr_data_ref = r, tr_data_hash = h, tr_truncated = truncated, tr_side_effect_state = side_effect_state,
            tr_error = error, tr_provenance = p\<rparr>)))))))"

record FlowTransition =
  ft_policy :: FlowPolicy
  ft_next_lifecycle :: AgentRunLifecycle
  ft_reason :: string

definition mk_FlowTransition :: "FlowPolicy \<Rightarrow> AgentRunLifecycle \<Rightarrow> pyval \<Rightarrow> agent_exc + FlowTransition" where
  "mk_FlowTransition policy next_lifecycle reason =
     rbind (text_value reason) (\<lambda>r.
       Inr \<lparr>ft_policy = policy, ft_next_lifecycle = next_lifecycle, ft_reason = r\<rparr>)"

record ToolRevision =
  rv_version :: string
  rv_semantic_schema :: "(string, pyval) odict"
  rv_native_input_schema :: "(string, pyval) odict"
  rv_native_output_schema :: "(string, pyval) odict"
  rv_compiler_revision :: string
  rv_effect_class :: EffectClass
  rv_permission_policy_id :: string
  rv_scope_policy_id :: string
  rv_default_flow_policy :: FlowPolicy
  rv_timeout_ms :: int
  rv_result_byte_cap :: int
  rv_result_token_cap :: int
  rv_retry_scope :: RetryScope

record ToolDefinition =
  td_tool_id :: string
  td_revision :: ToolRevision
  td_description :: string

text \<open>\<open>positive_field\<close> is the test of the three limits of a revision.\<close>

definition positive_field :: "pyval \<Rightarrow> agent_exc + int" where
  "positive_field v =
     (case positive_int_val v of None \<Rightarrow> Inl (contract_exc ''invalid_contract'') | Some i \<Rightarrow> Inr i)"

definition mk_ToolRevision ::
  "pyval \<Rightarrow> pyval \<Rightarrow> pyval \<Rightarrow> pyval \<Rightarrow> pyval \<Rightarrow> EffectClass \<Rightarrow> pyval \<Rightarrow> pyval \<Rightarrow> FlowPolicy \<Rightarrow>
   pyval \<Rightarrow> pyval \<Rightarrow> pyval \<Rightarrow> RetryScope \<Rightarrow> agent_exc + ToolRevision" where
  "mk_ToolRevision version semantic_schema native_input_schema native_output_schema compiler_revision effect_class
     permission_policy_id scope_policy_id default_flow_policy timeout_ms result_byte_cap result_token_cap retry_scope =
     rbind (validate_identifier version) (\<lambda>v.
     rbind (validate_identifier compiler_revision) (\<lambda>c.
     rbind (validate_identifier permission_policy_id) (\<lambda>p.
     rbind (validate_identifier scope_policy_id) (\<lambda>sp.
     rbind (positive_field timeout_ms) (\<lambda>t.
     rbind (positive_field result_byte_cap) (\<lambda>b.
     rbind (positive_field result_token_cap) (\<lambda>k.
     rbind (mapping_field semantic_schema) (\<lambda>ss.
     rbind (mapping_field native_input_schema) (\<lambda>ns.
     rbind (mapping_field native_output_schema) (\<lambda>os.
       Inr \<lparr>rv_version = v, rv_semantic_schema = ss, rv_native_input_schema = ns, rv_native_output_schema = os,
            rv_compiler_revision = c, rv_effect_class = effect_class, rv_permission_policy_id = p,
            rv_scope_policy_id = sp, rv_default_flow_policy = default_flow_policy, rv_timeout_ms = t,
            rv_result_byte_cap = b, rv_result_token_cap = k, rv_retry_scope = retry_scope\<rparr>))))))))))"

definition mk_ToolDefinition :: "pyval \<Rightarrow> ToolRevision \<Rightarrow> pyval \<Rightarrow> agent_exc + ToolDefinition" where
  "mk_ToolDefinition tool_id revision description =
     rbind (validate_identifier tool_id) (\<lambda>t.
     rbind (text_value description) (\<lambda>d.
       Inr \<lparr>td_tool_id = t, td_revision = revision, td_description = d\<rparr>))"

section \<open>Events\<close>

datatype event_kind =
    RunCreated | RunTransition | ToolProposedEv | ToolTransition | BudgetConsumed | DecisionRecorded
  | InferenceCompleted | ArgumentsCompiled | AuthorizationRecorded | DispatchStarted | ResultRecorded
  | FlowDecided | AcceptanceDecided

fun kind_name :: "event_kind \<Rightarrow> string" where
  "kind_name RunCreated = ''run_created''"
| "kind_name RunTransition = ''run_transition''"
| "kind_name ToolProposedEv = ''tool_proposed''"
| "kind_name ToolTransition = ''tool_transition''"
| "kind_name BudgetConsumed = ''budget_consumed''"
| "kind_name DecisionRecorded = ''decision_recorded''"
| "kind_name InferenceCompleted = ''inference_completed''"
| "kind_name ArgumentsCompiled = ''arguments_compiled''"
| "kind_name AuthorizationRecorded = ''authorization_recorded''"
| "kind_name DispatchStarted = ''dispatch_started''"
| "kind_name ResultRecorded = ''result_recorded''"
| "kind_name FlowDecided = ''flow_decided''"
| "kind_name AcceptanceDecided = ''acceptance_decided''"

definition known_event_kinds :: "event_kind list" where
  "known_event_kinds = [RunCreated, RunTransition, ToolProposedEv, ToolTransition, BudgetConsumed, DecisionRecorded,
     InferenceCompleted, ArgumentsCompiled, AuthorizationRecorded, DispatchStarted, ResultRecorded, FlowDecided,
     AcceptanceDecided]"

definition kind_of :: "string \<Rightarrow> event_kind option" where
  "kind_of n = List.find (\<lambda>k. kind_name k = n) known_event_kinds"

lemma kind_of_name [simp]: "kind_of (kind_name k) = Some k"
  by (cases k) (simp_all add: kind_of_def known_event_kinds_def)

type_synonym payload = "(string, pyval) odict"

record AgentEvent =
  ev_id :: string
  ev_kind :: event_kind
  ev_payload :: payload
  ev_occurred_at_utc :: string
  ev_version :: int
  ev_sequence :: "int option"

text \<open>\<open>canonical_json\<close>: every value of the model is serialisable once it is finite.\<close>

definition canonical_json :: "(pyval \<Rightarrow> string) \<Rightarrow> payload \<Rightarrow> agent_exc + string" where
  "canonical_json dumps p = rbind (reject_nonfinite (PDict p)) (\<lambda>_. Inr (dumps (PDict p)))"

text \<open>
  \<open>utc text\<close> is what \<open>datetime.fromisoformat\<close> says of the timestamp: \<open>None\<close> if it does not parse,
  otherwise whether it carries the offset of UTC.
\<close>

definition mk_AgentEvent ::
  "(pyval \<Rightarrow> string) \<Rightarrow> (string \<Rightarrow> bool option) \<Rightarrow> pyval \<Rightarrow> string \<Rightarrow> payload \<Rightarrow> string \<Rightarrow> int \<Rightarrow> int option \<Rightarrow>
   agent_exc + AgentEvent" where
  "mk_AgentEvent dumps utc event_id kind payload occurred version seq =
     rbind (validate_identifier event_id) (\<lambda>i.
       case kind_of kind of
         None \<Rightarrow> Inl (contract_exc ''unknown_event_kind'')
       | Some k \<Rightarrow>
           if version \<noteq> 1 then Inl (contract_exc ''unknown_event_version'')
           else if (case seq of None \<Rightarrow> False | Some n \<Rightarrow> n < 1) then Inl (contract_exc ''invalid_event'')
           else case utc occurred of
             None \<Rightarrow> Inl (contract_exc ''invalid_event'')
           | Some False \<Rightarrow> Inl (contract_exc ''invalid_event'')
           | Some True \<Rightarrow>
               rbind (canonical_json dumps payload) (\<lambda>_.
                 Inr \<lparr>ev_id = i, ev_kind = k, ev_payload = payload, ev_occurred_at_utc = occurred,
                      ev_version = version, ev_sequence = seq\<rparr>))"

text \<open>\<open>parse_canonical_payload\<close>: strict JSON whose canonical form is the text itself.\<close>

definition parse_canonical_payload ::
  "(pyval \<Rightarrow> string) \<Rightarrow> (string \<Rightarrow> json_node option) \<Rightarrow> string \<Rightarrow> agent_exc + payload" where
  "parse_canonical_payload dumps decode text =
     (case decode text of
        None \<Rightarrow> Inl (contract_exc ''invalid_event'')
      | Some n \<Rightarrow>
          (case strict_value n of
             None \<Rightarrow> Inl (contract_exc ''invalid_event'')
           | Some (PDict d) \<Rightarrow>
               rbind (canonical_json dumps d) (\<lambda>j. if j = text then Inr d else Inl (contract_exc ''invalid_event''))
           | Some _ \<Rightarrow> Inl (contract_exc ''invalid_event'')))"

end
