(* ===== verification/AgentReducer.thy ===== *)
theory AgentReducer
  imports AgentContracts
begin

text \<open>
  \<open>agent_runtime/reducer.py\<close>: the state of an agent run is a fold over its event log. The fold
  is the only authority on which transitions are legal; the event store refuses a log it rejects.
\<close>

section \<open>Transition tables\<close>

definition RUN_TERMINAL :: "AgentRunLifecycle list" where
  "RUN_TERMINAL = [RunSucceeded, RunBlocked, RunFailed, RunCancelled, RunTimedOut, RunBudgetExhausted]"

fun run_transitions :: "AgentRunLifecycle \<Rightarrow> AgentRunLifecycle list" where
  "run_transitions RunReady = [RunDeciding, RunCancelled, RunTimedOut]"
| "run_transitions RunDeciding = [RunWaitingTool, RunWaitingUser, RunPaused, RunBlocked, RunFailed, RunCancelled,
     RunTimedOut, RunBudgetExhausted]"
| "run_transitions RunWaitingTool = [RunObserving, RunPaused, RunFailed, RunCancelled, RunTimedOut, RunBudgetExhausted]"
| "run_transitions RunObserving = [RunDeciding, RunSynthesizing, RunVerifying, RunPaused, RunBlocked, RunFailed,
     RunCancelled, RunTimedOut, RunBudgetExhausted]"
| "run_transitions RunSynthesizing = [RunDeciding, RunSucceeded, RunBlocked, RunFailed, RunCancelled, RunTimedOut,
     RunBudgetExhausted]"
| "run_transitions RunVerifying = [RunDeciding, RunSucceeded, RunBlocked, RunFailed, RunCancelled, RunTimedOut,
     RunBudgetExhausted]"
| "run_transitions RunWaitingUser = [RunDeciding, RunCancelled, RunTimedOut]"
| "run_transitions RunPaused = [RunDeciding, RunCancelled, RunTimedOut]"
| "run_transitions _ = []"

fun tool_transitions :: "ToolInvocationLifecycle \<Rightarrow> ToolInvocationLifecycle list" where
  "tool_transitions ToolProposed = [ToolArgsReady, ToolNeedsResolution]"
| "tool_transitions ToolNeedsResolution = [ToolArgsReady, ToolFailed]"
| "tool_transitions ToolArgsReady = [ToolAuthorized, ToolWaitingApproval, ToolDenied]"
| "tool_transitions ToolWaitingApproval = [ToolAuthorized, ToolDenied]"
| "tool_transitions ToolAuthorized = [ToolDispatched]"
| "tool_transitions ToolDispatched = [ToolSucceeded, ToolPartial, ToolFailed, ToolUnknownOutcome]"
| "tool_transitions _ = []"

section \<open>State\<close>

record BudgetState =
  bd_turns :: int
  bd_inference_tokens :: int
  bd_inference_ms :: int
  bd_tool_calls :: int
  bd_tool_attempts :: int
  bd_resolver_calls :: int
  bd_retries :: int
  bd_result_bytes :: int
  bd_context_bytes :: int
  bd_deadline_utc :: pyval

text \<open>The fields that \<open>getattr\<close> and \<open>setattr\<close> reach by name, except \<open>deadline_utc\<close>.\<close>

datatype budget_category =
  Turns | InferenceTokens | InferenceMs | ToolCalls | ToolAttempts | ResolverCalls | Retries | ResultBytes | ContextBytes

definition budget_categories :: "(string \<times> budget_category) list" where
  "budget_categories = [(''turns'', Turns), (''inference_tokens'', InferenceTokens), (''inference_ms'', InferenceMs),
     (''tool_calls'', ToolCalls), (''tool_attempts'', ToolAttempts), (''resolver_calls'', ResolverCalls),
     (''retries'', Retries), (''result_bytes'', ResultBytes), (''context_bytes'', ContextBytes)]"

definition category_of :: "string \<Rightarrow> budget_category option" where
  "category_of n = map_of budget_categories n"

fun get_budget :: "budget_category \<Rightarrow> BudgetState \<Rightarrow> int" where
  "get_budget Turns b = bd_turns b"
| "get_budget InferenceTokens b = bd_inference_tokens b"
| "get_budget InferenceMs b = bd_inference_ms b"
| "get_budget ToolCalls b = bd_tool_calls b"
| "get_budget ToolAttempts b = bd_tool_attempts b"
| "get_budget ResolverCalls b = bd_resolver_calls b"
| "get_budget Retries b = bd_retries b"
| "get_budget ResultBytes b = bd_result_bytes b"
| "get_budget ContextBytes b = bd_context_bytes b"

fun set_budget :: "budget_category \<Rightarrow> int \<Rightarrow> BudgetState \<Rightarrow> BudgetState" where
  "set_budget Turns v b = b\<lparr>bd_turns := v\<rparr>"
| "set_budget InferenceTokens v b = b\<lparr>bd_inference_tokens := v\<rparr>"
| "set_budget InferenceMs v b = b\<lparr>bd_inference_ms := v\<rparr>"
| "set_budget ToolCalls v b = b\<lparr>bd_tool_calls := v\<rparr>"
| "set_budget ToolAttempts v b = b\<lparr>bd_tool_attempts := v\<rparr>"
| "set_budget ResolverCalls v b = b\<lparr>bd_resolver_calls := v\<rparr>"
| "set_budget Retries v b = b\<lparr>bd_retries := v\<rparr>"
| "set_budget ResultBytes v b = b\<lparr>bd_result_bytes := v\<rparr>"
| "set_budget ContextBytes v b = b\<lparr>bd_context_bytes := v\<rparr>"

lemma get_set_budget [simp]: "get_budget c (set_budget d v b) = (if c = d then v else get_budget c b)"
  by (cases c; cases d) simp_all

record AgentRunState =
  rs_run_id :: string
  rs_lifecycle :: AgentRunLifecycle
  rs_version :: int
  rs_budgets :: BudgetState
  rs_tool_invocations :: "(string, ToolInvocationLifecycle) odict"
  rs_action_claims :: "string set"
  rs_budget_claims :: "string set"
  rs_catalog_digests :: "(string, string) odict"
  rs_h1_records :: "(string, payload) odict"
  rs_dispatched_invocations :: "string set"
  rs_terminal_results :: "string set"
  rs_acceptance_verdict :: "bool option"

abbreviation illegal :: agent_exc where "illegal \<equiv> integrity_exc ''illegal_event_stream''"
abbreviation bad_payload :: agent_exc where "bad_payload \<equiv> integrity_exc ''invalid_event_payload''"

section \<open>Event handlers\<close>

fun py_true :: "pyval \<Rightarrow> bool" where
  "py_true PNone = False"
| "py_true (PBool b) = b"
| "py_true (PInt i) = (i \<noteq> 0)"
| "py_true (PFloat x) = (x \<noteq> Finite 0)"
| "py_true (PStr s) = (s \<noteq> [])"
| "py_true (PList vs) = (vs \<noteq> [])"
| "py_true (PTuple vs) = (vs \<noteq> [])"
| "py_true (PDict d) = (d \<noteq> [])"

text \<open>\<open>BudgetState(**raw)\<close> takes exactly the ten fields; the nine amounts must be non-negative ints.\<close>

definition amount_field :: "(string, pyval) odict \<Rightarrow> string \<Rightarrow> int option" where
  "amount_field d n = (case dict_item d n of PInt i \<Rightarrow> if 0 \<le> i then Some i else None | _ \<Rightarrow> None)"

definition mk_budgets :: "pyval \<Rightarrow> agent_exc + BudgetState" where
  "mk_budgets raw =
     (case raw of
        PDict d \<Rightarrow>
          if set (dict_keys d) \<noteq> insert ''deadline_utc'' (set (map fst budget_categories)) then Inl bad_payload
          else (case those (map (amount_field d) (map fst budget_categories)) of
                  Some [t, it, im, tc, ta, rc, re, rb, cb] \<Rightarrow>
                    Inr \<lparr>bd_turns = t, bd_inference_tokens = it, bd_inference_ms = im, bd_tool_calls = tc,
                         bd_tool_attempts = ta, bd_resolver_calls = rc, bd_retries = re, bd_result_bytes = rb,
                         bd_context_bytes = cb, bd_deadline_utc = dict_item d ''deadline_utc''\<rparr>
                | _ \<Rightarrow> Inl illegal)
      | _ \<Rightarrow> Inl bad_payload)"

definition run_created :: "string \<Rightarrow> payload \<Rightarrow> agent_exc + AgentRunState" where
  "run_created run_id p =
     (case dict_get p ''budgets'' of
        None \<Rightarrow> Inl bad_payload
      | Some raw \<Rightarrow>
          rbind (mk_budgets raw) (\<lambda>b.
            Inr \<lparr>rs_run_id = run_id, rs_lifecycle = RunReady, rs_version = 1, rs_budgets = b,
                 rs_tool_invocations = [], rs_action_claims = {}, rs_budget_claims = {}, rs_catalog_digests = [],
                 rs_h1_records = [], rs_dispatched_invocations = {}, rs_terminal_results = {},
                 rs_acceptance_verdict = None\<rparr>))"

definition run_transition :: "payload \<Rightarrow> AgentRunState \<Rightarrow> agent_exc + AgentRunState" where
  "run_transition p s =
     (case run_of (dict_item p ''target'') of
        None \<Rightarrow> Inl bad_payload
      | Some target \<Rightarrow>
          if target \<notin> set (run_transitions (rs_lifecycle s)) then Inl illegal
          else if target = RunSucceeded \<and> dict_item p ''authority'' \<noteq> PStr ''acceptance_gate'' then Inl illegal
          else Inr (s\<lparr>rs_lifecycle := target\<rparr>))"

definition tool_proposed :: "payload \<Rightarrow> AgentRunState \<Rightarrow> agent_exc + AgentRunState" where
  "tool_proposed p s =
     (case (dict_item p ''invocation_id'', dict_item p ''action_id'', dict_item p ''tool_catalog_digest'') of
        (PStr iid, PStr act, PStr digest) \<Rightarrow>
          if rs_lifecycle s \<noteq> RunWaitingTool then Inl illegal
          else rbind (validate_identifier (PStr iid)) (\<lambda>_.
               rbind (validate_identifier (PStr act)) (\<lambda>_.
                 if dict_get (rs_tool_invocations s) iid \<noteq> None \<or> act \<in> rs_action_claims s then Inl illegal
                 else Inr (s\<lparr>rs_tool_invocations := dict_set iid ToolProposed (rs_tool_invocations s),
                             rs_action_claims := insert act (rs_action_claims s),
                             rs_catalog_digests := dict_set act digest (rs_catalog_digests s)\<rparr>)))
      | _ \<Rightarrow> Inl illegal)"

definition tool_transition :: "payload \<Rightarrow> AgentRunState \<Rightarrow> agent_exc + AgentRunState" where
  "tool_transition p s =
     (case dict_item p ''invocation_id'' of
        PStr iid \<Rightarrow>
          (case (dict_get (rs_tool_invocations s) iid, tool_of (dict_item p ''target'')) of
             (Some current, Some target) \<Rightarrow>
               if target \<notin> set (tool_transitions current) then Inl illegal
               else Inr (s\<lparr>rs_tool_invocations := dict_set iid target (rs_tool_invocations s)\<rparr>)
           | _ \<Rightarrow> Inl bad_payload)
      | _ \<Rightarrow> Inl illegal)"

text \<open>
  \<open>attr\<close> says which names other than the fields \<open>hasattr\<close> accepts on a \<open>BudgetState\<close> (its methods
  and class attributes): comparing the amount with one of those raises a TypeError.
\<close>

definition budget_consumed :: "(string \<Rightarrow> bool) \<Rightarrow> payload \<Rightarrow> AgentRunState \<Rightarrow> agent_exc + AgentRunState" where
  "budget_consumed attr p s =
     (case (dict_item p ''claim_id'', dict_item p ''category'') of
        (PStr claim, PStr category) \<Rightarrow>
          if claim \<in> rs_budget_claims s then Inl illegal
          else if category_of category = None \<and> category \<noteq> ''deadline_utc'' \<and> \<not> attr category then Inl illegal
          else rbind (validate_identifier (PStr claim)) (\<lambda>_.
            if category = ''deadline_utc'' then Inl illegal
            else case positive_int_val (dict_item p ''amount'') of
              None \<Rightarrow> Inl illegal
            | Some amount \<Rightarrow>
                (case category_of category of
                   None \<Rightarrow> Inl (AgentPyExc (TypeError ''unorderable''))
                 | Some c \<Rightarrow>
                     if get_budget c (rs_budgets s) < amount then Inl illegal
                     else if py_true (dict_item p ''terminalize'') \<and> rs_lifecycle s \<in> set RUN_TERMINAL then Inl illegal
                     else Inr (s\<lparr>rs_budgets := set_budget c (get_budget c (rs_budgets s) - amount) (rs_budgets s),
                                 rs_budget_claims := insert claim (rs_budget_claims s),
                                 rs_lifecycle := (if py_true (dict_item p ''terminalize'') then RunBudgetExhausted
                                                  else rs_lifecycle s)\<rparr>)))
      | _ \<Rightarrow> Inl illegal)"

definition invocation_kinds :: "event_kind list" where
  "invocation_kinds = [ArgumentsCompiled, AuthorizationRecorded, DispatchStarted, ResultRecorded]"

definition h1_effect :: "event_kind \<Rightarrow> payload \<Rightarrow> string \<Rightarrow> AgentRunState \<Rightarrow> agent_exc + AgentRunState" where
  "h1_effect kind p iid s =
     (if kind = DispatchStarted then
        if dict_get (rs_tool_invocations s) iid \<noteq> Some ToolAuthorized then Inl illegal
        else if iid \<in> rs_dispatched_invocations s then Inl illegal
        else Inr (s\<lparr>rs_dispatched_invocations := insert iid (rs_dispatched_invocations s)\<rparr>)
      else if kind = ResultRecorded then
        if iid \<notin> rs_dispatched_invocations s then Inl illegal
        else if iid \<in> rs_terminal_results s then Inl illegal
        else Inr (s\<lparr>rs_terminal_results := insert iid (rs_terminal_results s)\<rparr>)
      else if kind = AcceptanceDecided then
        (case dict_item p ''accepted'' of
           PBool b \<Rightarrow>
             if dict_item p ''authority'' \<noteq> PStr ''acceptance_gate'' then Inl illegal
             else Inr (s\<lparr>rs_acceptance_verdict := Some b\<rparr>)
         | _ \<Rightarrow> Inl illegal)
      else Inr s)"

text \<open>The identifier of an invocation record; other records need none.\<close>

definition h1_invocation :: "event_kind \<Rightarrow> payload \<Rightarrow> AgentRunState \<Rightarrow> agent_exc + string" where
  "h1_invocation kind p s =
     (if kind \<in> set invocation_kinds then
        (case dict_item p ''invocation_id'' of
           PStr iid \<Rightarrow> if dict_get (rs_tool_invocations s) iid = None then Inl illegal else Inr iid
         | _ \<Rightarrow> Inl illegal)
      else Inr [])"

definition h1_record :: "event_kind \<Rightarrow> payload \<Rightarrow> AgentRunState \<Rightarrow> agent_exc + AgentRunState" where
  "h1_record kind p s =
     (if dict_item p ''record_version'' \<noteq> PStr ''h1.v1'' then Inl illegal
      else case dict_item p ''record_id'' of
        PStr rid \<Rightarrow>
          if dict_get (rs_h1_records s) rid \<noteq> None then Inl illegal
          else rbind (validate_identifier (PStr rid)) (\<lambda>_.
               rbind (h1_invocation kind p s) (\<lambda>iid.
               rbind (h1_effect kind p iid s) (\<lambda>t.
                 Inr (t\<lparr>rs_h1_records := dict_set rid p (rs_h1_records t)\<rparr>))))
      | _ \<Rightarrow> Inl illegal)"

definition apply_event :: "(string \<Rightarrow> bool) \<Rightarrow> AgentEvent \<Rightarrow> AgentRunState \<Rightarrow> agent_exc + AgentRunState" where
  "apply_event attr e s =
     (case ev_kind e of
        RunCreated \<Rightarrow> Inl illegal
      | RunTransition \<Rightarrow> run_transition (ev_payload e) s
      | ToolProposedEv \<Rightarrow> tool_proposed (ev_payload e) s
      | ToolTransition \<Rightarrow> tool_transition (ev_payload e) s
      | BudgetConsumed \<Rightarrow> budget_consumed attr (ev_payload e) s
      | k \<Rightarrow> h1_record k (ev_payload e) s)"

text \<open>One turn of the loop after the first event: the sequence check, the event, the version.\<close>

definition replay_step :: "(string \<Rightarrow> bool) \<Rightarrow> int \<Rightarrow> AgentEvent \<Rightarrow> AgentRunState \<Rightarrow> agent_exc + AgentRunState" where
  "replay_step attr expected e s =
     (if ev_sequence e \<noteq> Some expected then Inl illegal
      else rbind (apply_event attr e s) (\<lambda>t. Inr (t\<lparr>rs_version := expected\<rparr>)))"

fun replay_rest :: "(string \<Rightarrow> bool) \<Rightarrow> int \<Rightarrow> AgentEvent list \<Rightarrow> AgentRunState \<Rightarrow> agent_exc + AgentRunState" where
  "replay_rest attr expected [] s = Inr s"
| "replay_rest attr expected (e # es) s = rbind (replay_step attr expected e s) (replay_rest attr (expected + 1) es)"

definition replay :: "(string \<Rightarrow> bool) \<Rightarrow> string \<Rightarrow> AgentEvent list \<Rightarrow> agent_exc + AgentRunState" where
  "replay attr run_id events =
     rbind (validate_identifier (PStr run_id)) (\<lambda>_.
       case events of
         [] \<Rightarrow> Inl illegal
       | e # es \<Rightarrow>
           if ev_kind e \<noteq> RunCreated then Inl illegal
           else if ev_sequence e \<noteq> Some 1 then Inl illegal
           else rbind (run_created run_id (ev_payload e)) (replay_rest attr 2 es))"

end
