(* ===== verification/AgentReplay.thy ===== *)
theory AgentReplay
  imports AgentReducer
begin

text \<open>
  What a log that \<open>replay\<close> accepts guarantees: replay is incremental, versions count events,
  budgets are conserved, terminal runs stay terminal, tools are authorized before they are
  dispatched and dispatched before they have a result.
\<close>

section \<open>Replay is a fold\<close>

lemma replay_rest_append:
  "replay_rest attr n (es @ fs) s = rbind (replay_rest attr n es s) (replay_rest attr (n + int (length es)) fs)"
proof (induction es arbitrary: n s)
  case (Cons e es)
  show ?case
  proof (cases "replay_step attr n e s")
    case (Inr t)
    then show ?thesis using Cons.IH [of "n + 1" t] by (simp add: algebra_simps)
  qed simp
qed simp

lemma replay_snoc:
  assumes "es \<noteq> []"
  shows "replay attr r (es @ [e]) = rbind (replay attr r es) (replay_step attr (int (length es) + 1) e)"
proof -
  obtain f fs where es: "es = f # fs" using assms by (cases es) auto
  have one: "rbind x Inr = x" for x :: "agent_exc + AgentRunState" by (cases x) auto
  show ?thesis
    by (cases "run_created r (ev_payload f)")
       (auto simp: replay_def es replay_rest_append one rbind_def add.commute validate_str split: sum.splits)
qed

lemma replay_induct [consumes 1, case_names Created Step]:
  assumes replay: "replay attr r es = Inr s"
    and created: "\<And>e s. ev_kind e = RunCreated \<Longrightarrow> run_created r (ev_payload e) = Inr s \<Longrightarrow> P [e] s"
    and step: "\<And>es e s t. es \<noteq> [] \<Longrightarrow> replay attr r es = Inr s \<Longrightarrow> P es s \<Longrightarrow>
      ev_sequence e = Some (int (length es) + 1) \<Longrightarrow> apply_event attr e s = Inr t \<Longrightarrow>
      P (es @ [e]) (t\<lparr>rs_version := int (length es) + 1\<rparr>)"
  shows "P es s"
  using replay
proof (induction es arbitrary: s rule: rev_induct)
  case Nil
  then show ?case by (simp add: replay_def)
next
  case (snoc e es)
  show ?case
  proof (cases "es = []")
    case True
    then show ?thesis using snoc.prems created by (auto simp: replay_def split: if_splits)
  next
    case False
    then obtain u where "replay attr r es = Inr u" "replay_step attr (int (length es) + 1) e u = Inr s"
      using snoc.prems by (auto simp: replay_snoc)
    then show ?thesis using step [OF False _ snoc.IH] by (auto simp: replay_step_def split: if_splits)
  qed
qed

lemma replay_nonempty: "replay attr r es = Inr s \<Longrightarrow> es \<noteq> []"
  by (auto simp: replay_def)

section \<open>What one event can change\<close>

lemma created_fields:
  assumes "run_created r p = Inr s"
  shows "rs_run_id s = r" "rs_lifecycle s = RunReady" "rs_version s = 1" "rs_tool_invocations s = []"
    "rs_action_claims s = {}" "rs_budget_claims s = {}" "rs_h1_records s = []"
    "rs_dispatched_invocations s = {}" "rs_terminal_results s = {}" "rs_acceptance_verdict s = None"
  using assms by (auto simp: run_created_def split: option.splits)

lemma those_Some: "those xs = Some ys \<longleftrightarrow> xs = map Some ys"
  by (induction xs arbitrary: ys) (auto split: option.splits)

lemma amount_field_nonneg: "amount_field d n = Some i \<Longrightarrow> 0 \<le> i"
  by (auto simp: amount_field_def split: pyval.splits if_splits)

lemma mk_budgets_nonneg:
  assumes "mk_budgets raw = Inr b"
  shows "0 \<le> get_budget c b"
proof -
  obtain d t it im tc ta rc re rb cb
    where a: "map (amount_field d) (map fst budget_categories) = map Some [t, it, im, tc, ta, rc, re, rb, cb]"
    and b: "b = \<lparr>bd_turns = t, bd_inference_tokens = it, bd_inference_ms = im, bd_tool_calls = tc,
         bd_tool_attempts = ta, bd_resolver_calls = rc, bd_retries = re, bd_result_bytes = rb,
         bd_context_bytes = cb, bd_deadline_utc = dict_item d ''deadline_utc''\<rparr>"
    using assms by (auto simp: mk_budgets_def those_Some split: pyval.splits if_splits option.splits list.splits)
  have "0 \<le> t" "0 \<le> it" "0 \<le> im" "0 \<le> tc" "0 \<le> ta" "0 \<le> rc" "0 \<le> re" "0 \<le> rb" "0 \<le> cb"
    using a by (auto simp: budget_categories_def dest: amount_field_nonneg)
  then show ?thesis by (cases c) (simp_all add: b)
qed

lemma run_transition_Inr:
  "run_transition p s = Inr t \<longleftrightarrow>
     (\<exists>target. run_of (dict_item p ''target'') = Some target \<and> target \<in> set (run_transitions (rs_lifecycle s)) \<and>
        (target = RunSucceeded \<longrightarrow> dict_item p ''authority'' = PStr ''acceptance_gate'') \<and>
        t = s\<lparr>rs_lifecycle := target\<rparr>)"
  by (auto simp: run_transition_def split: option.splits)

lemma tool_proposed_Inr:
  "tool_proposed p s = Inr t \<longleftrightarrow>
     (\<exists>iid act digest. dict_item p ''invocation_id'' = PStr iid \<and> dict_item p ''action_id'' = PStr act \<and>
        dict_item p ''tool_catalog_digest'' = PStr digest \<and> rs_lifecycle s = RunWaitingTool \<and> good_id iid \<and>
        good_id act \<and> dict_get (rs_tool_invocations s) iid = None \<and> act \<notin> rs_action_claims s \<and>
        t = s\<lparr>rs_tool_invocations := dict_set iid ToolProposed (rs_tool_invocations s),
              rs_action_claims := insert act (rs_action_claims s),
              rs_catalog_digests := dict_set act digest (rs_catalog_digests s)\<rparr>)"
  by (auto simp: tool_proposed_def split: pyval.splits if_splits)

lemma tool_transition_Inr:
  "tool_transition p s = Inr t \<longleftrightarrow>
     (\<exists>iid current target. dict_item p ''invocation_id'' = PStr iid \<and> dict_get (rs_tool_invocations s) iid = Some current \<and>
        tool_of (dict_item p ''target'') = Some target \<and> target \<in> set (tool_transitions current) \<and>
        t = s\<lparr>rs_tool_invocations := dict_set iid target (rs_tool_invocations s)\<rparr>)"
  by (auto simp: tool_transition_def split: pyval.splits option.splits if_splits)

lemma budget_consumed_Inr:
  "budget_consumed attr p s = Inr t \<longleftrightarrow>
     (\<exists>claim category c amount. dict_item p ''claim_id'' = PStr claim \<and> dict_item p ''category'' = PStr category \<and>
        claim \<notin> rs_budget_claims s \<and> good_id claim \<and> category \<noteq> ''deadline_utc'' \<and> category_of category = Some c \<and>
        dict_item p ''amount'' = PInt amount \<and> 0 < amount \<and> amount \<le> get_budget c (rs_budgets s) \<and>
        \<not> (py_true (dict_item p ''terminalize'') \<and> rs_lifecycle s \<in> set RUN_TERMINAL) \<and>
        t = s\<lparr>rs_budgets := set_budget c (get_budget c (rs_budgets s) - amount) (rs_budgets s),
              rs_budget_claims := insert claim (rs_budget_claims s),
              rs_lifecycle := (if py_true (dict_item p ''terminalize'') then RunBudgetExhausted else rs_lifecycle s)\<rparr>)"
  by (auto simp: budget_consumed_def not_less split: pyval.splits option.splits if_splits)

text \<open>A record event changes the sets of its kind and the record table, nothing else.\<close>

lemma h1_effect_Inr:
  assumes "h1_effect k p iid s = Inr t"
  shows "(k = DispatchStarted \<and> dict_get (rs_tool_invocations s) iid = Some ToolAuthorized \<and>
      iid \<notin> rs_dispatched_invocations s \<and> t = s\<lparr>rs_dispatched_invocations := insert iid (rs_dispatched_invocations s)\<rparr>) \<or>
    (k = ResultRecorded \<and> iid \<in> rs_dispatched_invocations s \<and> iid \<notin> rs_terminal_results s \<and>
      t = s\<lparr>rs_terminal_results := insert iid (rs_terminal_results s)\<rparr>) \<or>
    (\<exists>b. k = AcceptanceDecided \<and> dict_item p ''accepted'' = PBool b \<and> dict_item p ''authority'' = PStr ''acceptance_gate'' \<and>
      t = s\<lparr>rs_acceptance_verdict := Some b\<rparr>) \<or> t = s"
  using assms unfolding h1_effect_def by (auto split: if_splits pyval.splits)

lemma h1_record_parts:
  assumes "h1_record k p s = Inr t"
  obtains rid iid u where "h1_invocation k p s = Inr iid" "h1_effect k p iid s = Inr u"
    "dict_get (rs_h1_records s) rid = None" "good_id rid" "dict_item p ''record_id'' = PStr rid"
    "t = u\<lparr>rs_h1_records := dict_set rid p (rs_h1_records u)\<rparr>"
proof -
  obtain rid where rid: "dict_item p ''record_id'' = PStr rid" "dict_get (rs_h1_records s) rid = None"
    and r: "rbind (validate_identifier (PStr rid)) (\<lambda>_. rbind (h1_invocation k p s) (\<lambda>iid.
        rbind (h1_effect k p iid s) (\<lambda>u. Inr (u\<lparr>rs_h1_records := dict_set rid p (rs_h1_records u)\<rparr>)))) = Inr t"
    using assms unfolding h1_record_def by (auto split: if_splits pyval.splits simp del: rbind_eq_Inr)
  from r show ?thesis using that rid by auto
qed

lemma h1_invocation_Inr:
  "h1_invocation k p s = Inr iid \<Longrightarrow> k \<in> set invocation_kinds \<Longrightarrow> dict_item p ''invocation_id'' = PStr iid"
  unfolding h1_invocation_def by (auto split: pyval.splits if_splits)

lemma h1_record_Inr:
  assumes "h1_record k p s = Inr t"
  shows "rs_lifecycle t = rs_lifecycle s" "rs_budgets t = rs_budgets s" "rs_tool_invocations t = rs_tool_invocations s"
    "rs_budget_claims t = rs_budget_claims s" "rs_run_id t = rs_run_id s"
    "rs_dispatched_invocations t = rs_dispatched_invocations s \<or>
       (\<exists>iid. k = DispatchStarted \<and> dict_item p ''invocation_id'' = PStr iid \<and>
          dict_get (rs_tool_invocations s) iid = Some ToolAuthorized \<and> iid \<notin> rs_dispatched_invocations s \<and>
          rs_dispatched_invocations t = insert iid (rs_dispatched_invocations s))"
    "rs_terminal_results t = rs_terminal_results s \<or>
       (\<exists>iid. k = ResultRecorded \<and> dict_item p ''invocation_id'' = PStr iid \<and> iid \<in> rs_dispatched_invocations s \<and>
          iid \<notin> rs_terminal_results s \<and> rs_terminal_results t = insert iid (rs_terminal_results s))"
proof -
  obtain rid iid u where i: "h1_invocation k p s = Inr iid" and e: "h1_effect k p iid s = Inr u"
    and t: "t = u\<lparr>rs_h1_records := dict_set rid p (rs_h1_records u)\<rparr>"
    using h1_record_parts [OF assms] by metis
  have kinds: "DispatchStarted \<in> set invocation_kinds" "ResultRecorded \<in> set invocation_kinds"
    by (simp_all add: invocation_kinds_def)
  note eff = h1_effect_Inr [OF e]
  show "rs_lifecycle t = rs_lifecycle s" "rs_budgets t = rs_budgets s" "rs_tool_invocations t = rs_tool_invocations s"
    "rs_budget_claims t = rs_budget_claims s" "rs_run_id t = rs_run_id s"
    using eff by (elim disjE exE conjE; simp add: t)+
  show "rs_dispatched_invocations t = rs_dispatched_invocations s \<or>
       (\<exists>iid. k = DispatchStarted \<and> dict_item p ''invocation_id'' = PStr iid \<and>
          dict_get (rs_tool_invocations s) iid = Some ToolAuthorized \<and> iid \<notin> rs_dispatched_invocations s \<and>
          rs_dispatched_invocations t = insert iid (rs_dispatched_invocations s))"
    using eff h1_invocation_Inr [OF i] kinds by (elim disjE exE conjE) (simp_all add: t)
  show "rs_terminal_results t = rs_terminal_results s \<or>
       (\<exists>iid. k = ResultRecorded \<and> dict_item p ''invocation_id'' = PStr iid \<and> iid \<in> rs_dispatched_invocations s \<and>
          iid \<notin> rs_terminal_results s \<and> rs_terminal_results t = insert iid (rs_terminal_results s))"
    using eff h1_invocation_Inr [OF i] kinds by (elim disjE exE conjE) (simp_all add: t)
qed

lemma dispatch_effect:
  assumes "h1_record k p s = Inr t" and "k = DispatchStarted" and "dict_item p ''invocation_id'' = PStr iid"
  shows "iid \<notin> rs_dispatched_invocations s \<and> iid \<in> rs_dispatched_invocations t"
proof -
  obtain rid j u where i: "h1_invocation k p s = Inr j" and e: "h1_effect k p j s = Inr u"
    and t: "t = u\<lparr>rs_h1_records := dict_set rid p (rs_h1_records u)\<rparr>"
    using h1_record_parts [OF assms(1)] by metis
  have "j = iid" using h1_invocation_Inr [OF i] assms(2,3) by (simp add: invocation_kinds_def)
  then show ?thesis using e assms(2) by (auto simp: h1_effect_def t split: if_splits)
qed

lemma result_effect:
  assumes "h1_record k p s = Inr t" and "k = ResultRecorded" and "dict_item p ''invocation_id'' = PStr iid"
  shows "iid \<notin> rs_terminal_results s \<and> iid \<in> rs_terminal_results t"
proof -
  obtain rid j u where i: "h1_invocation k p s = Inr j" and e: "h1_effect k p j s = Inr u"
    and t: "t = u\<lparr>rs_h1_records := dict_set rid p (rs_h1_records u)\<rparr>"
    using h1_record_parts [OF assms(1)] by metis
  have "j = iid" using h1_invocation_Inr [OF i] assms(2,3) by (simp add: invocation_kinds_def)
  then show ?thesis using e assms(2) by (auto simp: h1_effect_def t split: if_splits)
qed

lemma apply_event_kinds:
  assumes "apply_event attr e s = Inr t"
  obtains (run) "ev_kind e = RunTransition" "run_transition (ev_payload e) s = Inr t"
    | (propose) "ev_kind e = ToolProposedEv" "tool_proposed (ev_payload e) s = Inr t"
    | (tool) "ev_kind e = ToolTransition" "tool_transition (ev_payload e) s = Inr t"
    | (budget) "ev_kind e = BudgetConsumed" "budget_consumed attr (ev_payload e) s = Inr t"
    | (h1) "ev_kind e \<notin> {RunCreated, RunTransition, ToolProposedEv, ToolTransition, BudgetConsumed}"
        "h1_record (ev_kind e) (ev_payload e) s = Inr t"
  using assms by (cases "ev_kind e") (auto simp: apply_event_def)

section \<open>Replay is incremental\<close>

text \<open>
  Replay is incremental: replaying a log extended by one event is replaying the log and then
  applying that event, with the next sequence number, to the state; and the version of the state
  is the number of events. So a state that a caller holds together with its version can be
  advanced event by event and always agrees with a replay of the persisted log.
\<close>

theorem replay_incremental:
  assumes "es \<noteq> []"
  shows "replay attr r (es @ [e]) = rbind (replay attr r es) (replay_step attr (int (length es) + 1) e) \<and>
    (\<forall>s. replay attr r es = Inr s \<longrightarrow> rs_version s = int (length es) \<and> rs_run_id s = r)"
proof (intro conjI allI impI)
  show "replay attr r (es @ [e]) = rbind (replay attr r es) (replay_step attr (int (length es) + 1) e)"
    using assms by (rule replay_snoc)
next
  fix s
  assume "replay attr r es = Inr s"
  then have "rs_version s = int (length es) \<and> rs_run_id s = r"
  proof (induction rule: replay_induct)
    case (Created e s)
    then show ?case by (simp add: created_fields)
  next
    case (Step es e s t)
    from Step.hyps(4) have "rs_run_id t = rs_run_id s"
      by (cases rule: apply_event_kinds)
         (auto simp: run_transition_Inr tool_proposed_Inr tool_transition_Inr budget_consumed_Inr dest: h1_record_Inr)
    then show ?case using Step.IH by simp
  qed
  then show "rs_version s = int (length es)" "rs_run_id s = r" by simp_all
qed

section \<open>Terminal runs\<close>

lemma apply_lifecycle:
  assumes "apply_event attr e s = Inr t"
  shows "rs_lifecycle t = rs_lifecycle s \<or> rs_lifecycle s \<notin> set RUN_TERMINAL"
  using assms
proof (cases rule: apply_event_kinds)
  case run
  then have "run_transitions (rs_lifecycle s) \<noteq> []" by (auto simp: run_transition_Inr)
  then show ?thesis by (cases "rs_lifecycle s") (simp_all add: RUN_TERMINAL_def)
qed (auto simp: tool_proposed_Inr tool_transition_Inr budget_consumed_Inr dest: h1_record_Inr)

lemma replay_append_terminal:
  assumes "replay attr r es = Inr s" and "rs_lifecycle s \<in> set RUN_TERMINAL" and "replay attr r (es @ fs) = Inr t"
  shows "rs_lifecycle t = rs_lifecycle s"
  using assms(3)
proof (induction fs arbitrary: t rule: rev_induct)
  case Nil
  then show ?case using assms(1) by simp
next
  case (snoc f fs)
  have ne: "es @ fs \<noteq> []" using replay_nonempty [OF assms(1)] by simp
  from snoc.prems obtain u where u: "replay attr r (es @ fs) = Inr u"
      "replay_step attr (int (length (es @ fs)) + 1) f u = Inr t"
    using replay_snoc [OF ne, of attr r f] by (auto simp del: append_assoc simp: append_assoc [symmetric])
  then obtain v where "apply_event attr f u = Inr v" "rs_lifecycle t = rs_lifecycle v"
    by (auto simp: replay_step_def split: if_splits)
  then show ?case using apply_lifecycle snoc.IH [OF u(1)] assms(2) by fastforce
qed

text \<open>
  A terminal run stays terminal: once the lifecycle of a run is succeeded, blocked, failed,
  cancelled, timed out or budget exhausted, every longer log that replay accepts has the same
  lifecycle.
\<close>

theorem terminal_is_final:
  assumes "replay attr r es = Inr s" and "rs_lifecycle s \<in> set RUN_TERMINAL" and "replay attr r (es @ fs) = Inr t"
  shows "rs_lifecycle t = rs_lifecycle s"
  using assms by (rule replay_append_terminal)

section \<open>Budgets\<close>

definition spent :: "budget_category \<Rightarrow> AgentEvent \<Rightarrow> int" where
  "spent c e =
     (if ev_kind e = BudgetConsumed \<and> dict_item (ev_payload e) ''category'' \<in> PStr ` {n. category_of n = Some c}
      then (case dict_item (ev_payload e) ''amount'' of PInt n \<Rightarrow> n | _ \<Rightarrow> 0) else 0)"

definition granted :: "AgentEvent list \<Rightarrow> agent_exc + BudgetState" where
  "granted es = mk_budgets (dict_item (ev_payload (hd es)) ''budgets'')"

lemma granted_append: "es \<noteq> [] \<Longrightarrow> granted (es @ fs) = granted es"
  by (simp add: granted_def)

lemma apply_budget:
  assumes "apply_event attr e s = Inr t"
  shows "get_budget c (rs_budgets t) = get_budget c (rs_budgets s) - spent c e" "0 \<le> spent c e"
    "0 \<le> get_budget c (rs_budgets s) \<Longrightarrow> 0 \<le> get_budget c (rs_budgets t)"
  using assms
  by (cases rule: apply_event_kinds;
      auto simp: spent_def run_transition_Inr tool_proposed_Inr tool_transition_Inr budget_consumed_Inr dest: h1_record_Inr)+

text \<open>
  C15: Budgets are conserved and never negative: in the state of an accepted log, what remains of
  each budget category is what \<open>run_created\<close> granted minus the sum of the amounts consumed by the
  events of the log, and it is at least zero. So no log can spend more than was granted.
\<close>

theorem budget_conserved:
  assumes "replay attr r es = Inr s"
  shows "\<exists>b. granted es = Inr b \<and>
    get_budget c (rs_budgets s) = get_budget c b - sum_list (map (spent c) es) \<and> 0 \<le> get_budget c (rs_budgets s)"
  using assms
proof (induction rule: replay_induct)
  case (Created e s)
  then obtain raw b where raw: "dict_get (ev_payload e) ''budgets'' = Some raw" "mk_budgets raw = Inr b" "rs_budgets s = b"
    by (auto simp: run_created_def split: option.splits)
  then have "granted [e] = Inr b" by (simp add: granted_def dict_item_def)
  then show ?case using raw Created.hyps(1) mk_budgets_nonneg [OF raw(2)] by (auto simp: spent_def)
next
  case (Step es e s t)
  then obtain b where "granted es = Inr b" "get_budget c (rs_budgets s) = get_budget c b - sum_list (map (spent c) es)"
    "0 \<le> get_budget c (rs_budgets s)" by blast
  then show ?case using apply_budget [OF Step.hyps(4), of c] Step.hyps(1) by (auto simp: granted_append)
qed

section \<open>Authorization before dispatch\<close>

definition authorizes :: "string \<Rightarrow> AgentEvent \<Rightarrow> bool" where
  "authorizes iid e \<longleftrightarrow> ev_kind e = ToolTransition \<and> dict_item (ev_payload e) ''invocation_id'' = PStr iid \<and>
     tool_of (dict_item (ev_payload e) ''target'') = Some ToolAuthorized"

definition dispatches :: "string \<Rightarrow> AgentEvent \<Rightarrow> bool" where
  "dispatches iid e \<longleftrightarrow> ev_kind e = DispatchStarted \<and> dict_item (ev_payload e) ''invocation_id'' = PStr iid"

definition has_result :: "string \<Rightarrow> AgentEvent \<Rightarrow> bool" where
  "has_result iid e \<longleftrightarrow> ev_kind e = ResultRecorded \<and> dict_item (ev_payload e) ''invocation_id'' = PStr iid"

text \<open>\<open>before P Q es\<close>: an event with \<open>P\<close> precedes an event with \<open>Q\<close>.\<close>

definition before :: "(AgentEvent \<Rightarrow> bool) \<Rightarrow> (AgentEvent \<Rightarrow> bool) \<Rightarrow> AgentEvent list \<Rightarrow> bool" where
  "before P Q es \<longleftrightarrow> (\<exists>xs e ys. es = xs @ e # ys \<and> Q e \<and> list_ex P xs)"

lemma before_snoc: "before P Q (es @ [e]) \<longleftrightarrow> before P Q es \<or> Q e \<and> list_ex P es"
proof
  assume "before P Q (es @ [e])"
  then obtain xs f ys where *: "es @ [e] = xs @ f # ys" "Q f" "list_ex P xs" by (auto simp: before_def)
  then show "before P Q es \<or> Q e \<and> list_ex P es"
    by (cases ys rule: rev_cases) (auto simp: before_def)
next
  assume "before P Q es \<or> Q e \<and> list_ex P es"
  then show "before P Q (es @ [e])" by (fastforce simp: before_def)
qed

definition past_authorization :: "ToolInvocationLifecycle list" where
  "past_authorization = [ToolAuthorized, ToolDispatched, ToolSucceeded, ToolPartial, ToolUnknownOutcome]"

definition ordered :: "AgentEvent list \<Rightarrow> AgentRunState \<Rightarrow> bool" where
  "ordered es s \<longleftrightarrow>
     (\<forall>iid st. dict_get (rs_tool_invocations s) iid = Some st \<longrightarrow> st \<in> set past_authorization \<longrightarrow> list_ex (authorizes iid) es) \<and>
     (\<forall>iid\<in>rs_dispatched_invocations s. before (authorizes iid) (dispatches iid) es) \<and>
     (\<forall>iid\<in>rs_terminal_results s. before (dispatches iid) (has_result iid) es)"

lemma tool_to_past:
  "target \<in> set (tool_transitions current) \<Longrightarrow> target \<in> set past_authorization \<Longrightarrow>
     target = ToolAuthorized \<or> current \<in> set past_authorization"
  by (cases current) (auto simp: past_authorization_def)

lemma before_right: "before P Q es \<Longrightarrow> list_ex Q es"
  by (auto simp: before_def)

lemma ordered_step:
  assumes ord: "ordered es s" and ap: "apply_event attr e s = Inr t"
  shows "ordered (es @ [e]) (t\<lparr>rs_version := n\<rparr>)"
  using ap
proof (cases rule: apply_event_kinds)
  case run
  then show ?thesis using ord by (auto simp: run_transition_Inr ordered_def before_snoc)
next
  case propose
  then show ?thesis using ord by (auto simp: tool_proposed_Inr ordered_def before_snoc past_authorization_def split: if_splits)
next
  case tool
  then obtain iid current target where ev: "dict_item (ev_payload e) ''invocation_id'' = PStr iid"
      "tool_of (dict_item (ev_payload e) ''target'') = Some target"
    and cur: "dict_get (rs_tool_invocations s) iid = Some current" "target \<in> set (tool_transitions current)"
    and t: "t = s\<lparr>rs_tool_invocations := dict_set iid target (rs_tool_invocations s)\<rparr>"
    by (auto simp: tool_transition_Inr)
  have "list_ex (authorizes iid) (es @ [e])" if "target \<in> set past_authorization"
    using tool_to_past [OF cur(2) that] ord cur(1) ev tool(1) by (auto simp: ordered_def authorizes_def)
  then show ?thesis using ord by (auto simp: t ordered_def before_snoc split: if_splits)
next
  case budget
  then show ?thesis using ord by (auto simp: budget_consumed_Inr ordered_def before_snoc)
next
  case h1
  note r = h1_record_Inr [OF h1(2)]
  have "before (authorizes iid) (dispatches iid) (es @ [e])" if "iid \<in> rs_dispatched_invocations t" for iid
    using that r(6) ord by (auto simp: ordered_def before_snoc dispatches_def past_authorization_def)
  moreover have "before (dispatches iid) (has_result iid) (es @ [e])" if "iid \<in> rs_terminal_results t" for iid
    using that r(7) ord before_right [of "authorizes iid" "dispatches iid" es]
    by (auto simp: ordered_def before_snoc has_result_def)
  ultimately show ?thesis using ord by (auto simp: ordered_def r(3))
qed

lemma replay_ordered: "replay attr r es = Inr s \<Longrightarrow> ordered es s"
proof (induction rule: replay_induct)
  case (Created e s)
  then show ?case by (simp add: ordered_def created_fields)
next
  case (Step es e s t)
  then show ?case by (auto intro: ordered_step)
qed

lemma replay_counts:
  "replay attr r es = Inr s \<Longrightarrow>
     length (filter (dispatches iid) es) = (if iid \<in> rs_dispatched_invocations s then 1 else 0) \<and>
     length (filter (has_result iid) es) = (if iid \<in> rs_terminal_results s then 1 else 0)"
proof (induction rule: replay_induct)
  case (Created e s)
  then show ?case by (simp add: dispatches_def has_result_def created_fields)
next
  case (Step es e s t)
  from Step.hyps(4) show ?case
  proof (cases rule: apply_event_kinds)
    case h1
    note r = h1_record_Inr(6,7) [OF h1(2)]
    have "dispatches iid e \<Longrightarrow> iid \<notin> rs_dispatched_invocations s \<and> iid \<in> rs_dispatched_invocations t"
      "\<not> dispatches iid e \<Longrightarrow> (iid \<in> rs_dispatched_invocations t) = (iid \<in> rs_dispatched_invocations s)"
      using r(1) dispatch_effect [OF h1(2)] by (auto simp: dispatches_def)
    moreover have "has_result iid e \<Longrightarrow> iid \<notin> rs_terminal_results s \<and> iid \<in> rs_terminal_results t"
      "\<not> has_result iid e \<Longrightarrow> (iid \<in> rs_terminal_results t) = (iid \<in> rs_terminal_results s)"
      using r(2) result_effect [OF h1(2)] by (auto simp: has_result_def)
    ultimately show ?thesis using Step.IH by auto
  qed (use Step.IH in \<open>auto simp: dispatches_def has_result_def run_transition_Inr tool_proposed_Inr tool_transition_Inr
        budget_consumed_Inr\<close>)
qed

text \<open>
  C10: Tools run in order and once. In an accepted log, the dispatch of an invocation is preceded by
  its authorization and its result by its dispatch; each invocation is dispatched at most once and
  has at most one result.
\<close>

theorem dispatch_authorized_once:
  assumes "replay attr r es = Inr s"
  shows "(iid \<in> rs_dispatched_invocations s \<longrightarrow> before (authorizes iid) (dispatches iid) es) \<and>
    (iid \<in> rs_terminal_results s \<longrightarrow> before (dispatches iid) (has_result iid) es) \<and>
    length (filter (dispatches iid) es) \<le> 1 \<and> length (filter (has_result iid) es) \<le> 1"
  using replay_ordered [OF assms] replay_counts [OF assms, of iid] by (auto simp: ordered_def)

section \<open>Concrete logs\<close>

definition demo_event :: "int \<Rightarrow> event_kind \<Rightarrow> payload \<Rightarrow> AgentEvent" where
  "demo_event n k p = \<lparr>ev_id = ''e'', ev_kind = k, ev_payload = p, ev_occurred_at_utc = ''2026-01-01T00:00:00Z'',
     ev_version = 1, ev_sequence = Some n\<rparr>"

definition demo_budgets :: pyval where
  "demo_budgets = PDict [(''turns'', PInt 3), (''inference_tokens'', PInt 100), (''inference_ms'', PInt 100),
     (''tool_calls'', PInt 2), (''tool_attempts'', PInt 2), (''resolver_calls'', PInt 0), (''retries'', PInt 0),
     (''result_bytes'', PInt 0), (''context_bytes'', PInt 0), (''deadline_utc'', PNone)]"

definition demo_to :: "int \<Rightarrow> string \<Rightarrow> AgentEvent" where
  "demo_to n target = demo_event n RunTransition [(''target'', PStr target), (''authority'', PStr ''acceptance_gate'')]"

definition demo_tool :: "int \<Rightarrow> string \<Rightarrow> AgentEvent" where
  "demo_tool n target = demo_event n ToolTransition [(''invocation_id'', PStr ''i''), (''target'', PStr target)]"

definition demo_record :: "int \<Rightarrow> event_kind \<Rightarrow> string \<Rightarrow> AgentEvent" where
  "demo_record n k rid = demo_event n k [(''record_version'', PStr ''h1.v1''), (''record_id'', PStr rid),
     (''invocation_id'', PStr ''i''), (''accepted'', PBool False), (''authority'', PStr ''acceptance_gate'')]"

definition demo_log :: "AgentEvent list" where
  "demo_log = [demo_event 1 RunCreated [(''budgets'', demo_budgets)], demo_to 2 ''deciding'',
     demo_event 3 BudgetConsumed [(''claim_id'', PStr ''c''), (''category'', PStr ''turns''), (''amount'', PInt 1)],
     demo_to 4 ''waiting_tool'',
     demo_event 5 ToolProposedEv [(''invocation_id'', PStr ''i''), (''action_id'', PStr ''a''), (''tool_catalog_digest'', PStr ''d'')],
     demo_tool 6 ''args_ready'', demo_tool 7 ''authorized'', demo_record 8 DispatchStarted ''r1'',
     demo_tool 9 ''dispatched'', demo_record 10 ResultRecorded ''r2'', demo_tool 11 ''succeeded'',
     demo_to 12 ''observing'', demo_to 13 ''verifying'', demo_record 14 AcceptanceDecided ''r3'']"

definition no_attr :: "string \<Rightarrow> bool" where "no_attr n = False"

lemma demo_log_replays:
  "case replay no_attr ''run'' demo_log of
     Inl _ \<Rightarrow> False
   | Inr s \<Rightarrow> ''i'' \<in> rs_dispatched_invocations s \<and> get_budget Turns (rs_budgets s) = 2 \<and>
       rs_acceptance_verdict s = Some False"
  by code_simp

lemma demo_success_replays:
  "case replay no_attr ''run'' (demo_log @ [demo_to 15 ''succeeded'']) of
     Inl _ \<Rightarrow> False | Inr s \<Rightarrow> rs_lifecycle s = RunSucceeded \<and> rs_acceptance_verdict s = Some False"
  by code_simp

lemma demo_late_replays:
  "case replay no_attr ''run'' ((demo_log @ [demo_to 15 ''succeeded'']) @
      [demo_event 16 BudgetConsumed [(''claim_id'', PStr ''d''), (''category'', PStr ''turns''), (''amount'', PInt 1)]]) of
     Inl _ \<Rightarrow> False | Inr s \<Rightarrow> True"
  by code_simp

lemma case_Inr: "(case x of Inl _ \<Rightarrow> False | Inr s \<Rightarrow> P s) \<Longrightarrow> \<exists>s. x = Inr s \<and> P s"
  by (cases x) auto

lemmas demo_log_state = case_Inr [OF demo_log_replays]
  and demo_success_state = case_Inr [OF demo_success_replays]
  and demo_late_state = case_Inr [OF demo_late_replays]

theorem replay_incremental_witness:
  "replay no_attr ''run'' (demo_log @ [demo_to 15 ''succeeded'']) =
     rbind (replay no_attr ''run'' demo_log) (replay_step no_attr (int (length demo_log) + 1) (demo_to 15 ''succeeded''))"
  using replay_incremental [of demo_log no_attr "''run''" "demo_to 15 ''succeeded''"] by (simp add: demo_log_def)

theorem terminal_is_final_witness:
  "\<exists>u. replay no_attr ''run'' ((demo_log @ [demo_to 15 ''succeeded'']) @
      [demo_event 16 BudgetConsumed [(''claim_id'', PStr ''d''), (''category'', PStr ''turns''), (''amount'', PInt 1)]]) = Inr u \<and>
     rs_lifecycle u = RunSucceeded"
proof -
  obtain t u where "replay no_attr ''run'' (demo_log @ [demo_to 15 ''succeeded'']) = Inr t" "rs_lifecycle t = RunSucceeded"
    "replay no_attr ''run'' ((demo_log @ [demo_to 15 ''succeeded'']) @
      [demo_event 16 BudgetConsumed [(''claim_id'', PStr ''d''), (''category'', PStr ''turns''), (''amount'', PInt 1)]]) = Inr u"
    using demo_success_state demo_late_state by blast
  moreover from this have "rs_lifecycle t \<in> set RUN_TERMINAL" by (simp add: RUN_TERMINAL_def)
  ultimately show ?thesis using terminal_is_final by metis
qed

theorem budget_conserved_witness:
  "\<exists>b s. granted demo_log = Inr b \<and> replay no_attr ''run'' demo_log = Inr s \<and>
     get_budget Turns (rs_budgets s) = get_budget Turns b - sum_list (map (spent Turns) demo_log)"
proof -
  obtain s where "replay no_attr ''run'' demo_log = Inr s" using demo_log_state by blast
  then show ?thesis using budget_conserved by blast
qed

theorem dispatch_authorized_once_witness: "before (authorizes ''i'') (dispatches ''i'') demo_log"
proof -
  obtain s where "replay no_attr ''run'' demo_log = Inr s" "''i'' \<in> rs_dispatched_invocations s"
    using demo_log_state by blast
  then show ?thesis using dispatch_authorized_once by blast
qed

text \<open>
  The reducer accepts a run that succeeds against its own acceptance verdict: a log whose only
  acceptance record says \<open>accepted = False\<close> may still transition to succeeded, because the
  transition checks the authority named in its payload and not the recorded verdict. The message
  of that check says that only deterministic acceptance may succeed a run.
\<close>

theorem success_against_verdict:
  "\<exists>s. replay no_attr ''run'' (demo_log @ [demo_to 15 ''succeeded'']) = Inr s \<and> rs_lifecycle s = RunSucceeded \<and>
     rs_acceptance_verdict s = Some False"
  using demo_success_state by blast

end
