(* ===== verification/AgentStore.thy ===== *)
theory AgentStore
  imports AgentReplay "HOL-Library.Multiset"
begin

text \<open>
  \<open>agent_runtime/event_store.py\<close>: the append-only event log in one SQLite table. A store is the
  list of rows and the flag that a transaction is open on the connection. \<open>agent_lib\<close> holds the
  functions of the standard library the code calls: \<open>json.dumps\<close> with sorted keys, the tokenizer of
  \<open>json.loads\<close>, the ISO timestamp parser, SHA-256 in hexadecimal, and \<open>hasattr\<close> on the budget object.
\<close>

section \<open>Table\<close>

record agent_lib =
  lb_dumps :: "pyval \<Rightarrow> string"
  lb_decode :: "string \<Rightarrow> json_node option"
  lb_utc :: "string \<Rightarrow> bool option"
  lb_sha256 :: "string \<Rightarrow> string"
  lb_attr :: "string \<Rightarrow> bool"

record event_row =
  rw_run_id :: string
  rw_sequence :: int
  rw_event_id :: string
  rw_version :: int
  rw_kind :: string
  rw_occurred :: string
  rw_payload_json :: string
  rw_payload_sha256 :: string
  rw_action_id :: pyval
  rw_invocation_id :: pyval
  rw_budget_claim_id :: pyval
  rw_idempotency_key :: pyval

record event_store =
  es_rows :: "event_row list"
  es_open :: bool

definition payload_digest :: "agent_lib \<Rightarrow> string \<Rightarrow> string" where
  "payload_digest lib text = ''sha256:'' @ lb_sha256 lib text"

text \<open>
  A row for an event; the last column stands for the JSON path of the partial index on
  authorization records. A SQL NULL is \<open>PNone\<close>.
\<close>

definition event_row_of :: "agent_lib \<Rightarrow> string \<Rightarrow> int \<Rightarrow> AgentEvent \<Rightarrow> agent_exc + event_row" where
  "event_row_of lib run_id seq e =
     rbind (canonical_json (lb_dumps lib) (ev_payload e)) (\<lambda>text.
       Inr \<lparr>rw_run_id = run_id, rw_sequence = seq, rw_event_id = ev_id e, rw_version = ev_version e,
            rw_kind = kind_name (ev_kind e), rw_occurred = ev_occurred_at_utc e, rw_payload_json = text,
            rw_payload_sha256 = payload_digest lib text,
            rw_action_id = (if ev_kind e = ToolProposedEv then dict_item (ev_payload e) ''action_id'' else PNone),
            rw_invocation_id = (if ev_kind e \<in> {ToolProposedEv, ToolTransition}
                                then dict_item (ev_payload e) ''invocation_id'' else PNone),
            rw_budget_claim_id = (if ev_kind e = BudgetConsumed then dict_item (ev_payload e) ''claim_id'' else PNone),
            rw_idempotency_key = (if ev_kind e = AuthorizationRecorded
                                  then dict_item (ev_payload e) ''idempotency_key'' else PNone)\<rparr>)"

text \<open>The primary key, the unique event id and the four unique indexes, NULLs excepted.\<close>

definition conflicts :: "event_row \<Rightarrow> event_row \<Rightarrow> bool" where
  "conflicts a b \<longleftrightarrow>
     (rw_run_id a = rw_run_id b \<and> rw_sequence a = rw_sequence b) \<or> rw_event_id a = rw_event_id b \<or>
     (rw_action_id a \<noteq> PNone \<and> rw_action_id a = rw_action_id b) \<or>
     (rw_kind a = ''tool_proposed'' \<and> rw_kind b = ''tool_proposed'' \<and> rw_invocation_id a \<noteq> PNone \<and>
        rw_invocation_id a = rw_invocation_id b) \<or>
     (rw_budget_claim_id a \<noteq> PNone \<and> rw_budget_claim_id a = rw_budget_claim_id b) \<or>
     (rw_idempotency_key a \<noteq> PNone \<and> rw_idempotency_key a = rw_idempotency_key b)"

fun insert_rows :: "event_row list \<Rightarrow> event_row list \<Rightarrow> event_row list option" where
  "insert_rows rows [] = Some rows"
| "insert_rows rows (r # rs) = (if list_ex (conflicts r) rows then None else insert_rows (rows @ [r]) rs)"

section \<open>load\<close>

definition load_row :: "agent_lib \<Rightarrow> int \<Rightarrow> event_row \<Rightarrow> agent_exc + AgentEvent" where
  "load_row lib expected r =
     (if rw_sequence r \<noteq> expected then Inl (integrity_exc ''event_gap'')
      else if payload_digest lib (rw_payload_json r) \<noteq> rw_payload_sha256 r then Inl (integrity_exc ''hash_mismatch'')
      else if rw_version r \<noteq> 1 then Inl (integrity_exc ''unknown_event_version'')
      else case rbind (parse_canonical_payload (lb_dumps lib) (lb_decode lib) (rw_payload_json r)) (\<lambda>p.
                  mk_AgentEvent (lb_dumps lib) (lb_utc lib) (PStr (rw_event_id r)) (rw_kind r) p (rw_occurred r)
                    (rw_version r) (Some (rw_sequence r))) of
        Inl _ \<Rightarrow> Inl (integrity_exc ''invalid_persisted_event'')
      | Inr e \<Rightarrow> Inr e)"

fun load_rows :: "agent_lib \<Rightarrow> int \<Rightarrow> event_row list \<Rightarrow> agent_exc + AgentEvent list" where
  "load_rows lib expected [] = Inr []"
| "load_rows lib expected (r # rs) =
     rbind (load_row lib expected r) (\<lambda>e. rbind (load_rows lib (expected + 1) rs) (\<lambda>es. Inr (e # es)))"

definition run_rows :: "string \<Rightarrow> event_store \<Rightarrow> event_row list" where
  "run_rows run_id st = sort_key rw_sequence (filter (\<lambda>r. rw_run_id r = run_id) (es_rows st))"

definition load_events :: "agent_lib \<Rightarrow> string \<Rightarrow> event_store \<Rightarrow> agent_exc + AgentEvent list" where
  "load_events lib run_id st =
     rbind (validate_identifier (PStr run_id)) (\<lambda>_. load_rows lib 1 (run_rows run_id st))"

section \<open>append\<close>

definition last_sequence :: "string \<Rightarrow> event_store \<Rightarrow> int" where
  "last_sequence run_id st = fold max (map rw_sequence (filter (\<lambda>r. rw_run_id r = run_id) (es_rows st))) 0"

fun number_from :: "int \<Rightarrow> AgentEvent list \<Rightarrow> AgentEvent list" where
  "number_from n [] = []"
| "number_from n (e # es) = e\<lparr>ev_sequence := Some n\<rparr> # number_from (n + 1) es"

fun rows_from :: "agent_lib \<Rightarrow> string \<Rightarrow> int \<Rightarrow> AgentEvent list \<Rightarrow> agent_exc + event_row list" where
  "rows_from lib run_id n [] = Inr []"
| "rows_from lib run_id n (e # es) =
     rbind (event_row_of lib run_id n e) (\<lambda>r. rbind (rows_from lib run_id (n + 1) es) (\<lambda>rs. Inr (r # rs)))"

text \<open>
  The transaction. An error of the runtime rolls back; an exception of another type (the TypeError
  that \<open>replay\<close> can raise) escapes the handlers and leaves the transaction open, and then the next
  \<open>BEGIN IMMEDIATE\<close> fails.
\<close>

definition append_events ::
  "agent_lib \<Rightarrow> string \<Rightarrow> int \<Rightarrow> AgentEvent list \<Rightarrow> event_store \<Rightarrow> (agent_exc + int) \<times> event_store" where
  "append_events lib run_id expected events st =
     (case validate_identifier (PStr run_id) of
        Inl err \<Rightarrow> (Inl err, st)
      | Inr _ \<Rightarrow>
          if expected < 0 \<or> events = [] then (Inl (AgentPyExc (ValueError ''expected_version'')), st)
          else case rows_from lib run_id (expected + 1) events of
            Inl err \<Rightarrow> (Inl err, st)
          | Inr rows \<Rightarrow>
              if es_open st then (Inl (AgentPyExc (RuntimeErr ''OperationalError'')), st)
              else if last_sequence run_id st \<noteq> expected then (Inl (AgentExc ConflictKind ''version_conflict''), st)
              else case rbind (load_events lib run_id st) (\<lambda>existing.
                       replay (lb_attr lib) run_id (existing @ number_from (expected + 1) events)) of
                Inl (AgentPyExc x) \<Rightarrow> (Inl (AgentPyExc x), st\<lparr>es_open := True\<rparr>)
              | Inl err \<Rightarrow> (Inl err, st)
              | Inr _ \<Rightarrow>
                  (case insert_rows (es_rows st) rows of
                     None \<Rightarrow> (Inl (integrity_exc ''duplicate_claim''), st)
                   | Some all \<Rightarrow> (Inr (expected + int (length events)), st\<lparr>es_rows := all\<rparr>)))"

section \<open>Rows and events\<close>

text \<open>
  An event that can be persisted: it passed the checks of its constructor, and its payload is the
  representative of its dictionary that JSON reproduces (keys in sorted order, lists for tuples).
\<close>

definition json_stable :: "agent_lib \<Rightarrow> payload \<Rightarrow> bool" where
  "json_stable lib p \<longleftrightarrow> all_finite (PDict p) \<and>
     parse_canonical_payload (lb_dumps lib) (lb_decode lib) (lb_dumps lib (PDict p)) = Inr p"

definition event_ok :: "agent_lib \<Rightarrow> AgentEvent \<Rightarrow> bool" where
  "event_ok lib e \<longleftrightarrow> good_id (ev_id e) \<and> ev_version e = 1 \<and> lb_utc lib (ev_occurred_at_utc e) = Some True \<and>
     json_stable lib (ev_payload e)"

lemma event_row_Inr:
  assumes "event_row_of lib r n e = Inr row"
  shows "rw_run_id row = r" "rw_sequence row = n" "rw_event_id row = ev_id e" "rw_version row = ev_version e"
    "rw_kind row = kind_name (ev_kind e)" "rw_occurred row = ev_occurred_at_utc e"
    "rw_payload_json row = lb_dumps lib (PDict (ev_payload e))"
    "rw_payload_sha256 row = payload_digest lib (rw_payload_json row)"
  using assms by (auto simp: event_row_of_def canonical_json_def)

lemma load_one:
  assumes row: "event_row_of lib r n e = Inr row" and ok: "event_ok lib e" and n: "1 \<le> n"
  shows "load_row lib n row = Inr (e\<lparr>ev_sequence := Some n\<rparr>)"
proof -
  note f = event_row_Inr [OF row]
  have parse: "parse_canonical_payload (lb_dumps lib) (lb_decode lib) (rw_payload_json row) = Inr (ev_payload e)"
    "all_finite (PDict (ev_payload e))" "good_id (ev_id e)" "ev_version e = 1"
    "lb_utc lib (ev_occurred_at_utc e) = Some True"
    using ok by (simp_all add: event_ok_def json_stable_def f)
  have "mk_AgentEvent (lb_dumps lib) (lb_utc lib) (PStr (rw_event_id row)) (rw_kind row) (ev_payload e) (rw_occurred row)
      (rw_version row) (Some (rw_sequence row)) = Inr (e\<lparr>ev_sequence := Some n\<rparr>)"
    using parse n unfolding mk_AgentEvent_def f canonical_json_def reject_nonfinite_def by (simp add: validate_str)
  then show ?thesis using parse f by (simp add: load_row_def)
qed

lemma rows_load:
  assumes "rows_from lib r n es = Inr rows" and "\<forall>e\<in>set es. event_ok lib e" and "1 \<le> n"
  shows "load_rows lib n rows = Inr (number_from n es)"
  using assms
proof (induction es arbitrary: n rows)
  case (Cons e es)
  then obtain row rest where "event_row_of lib r n e = Inr row" "rows_from lib r (n + 1) es = Inr rest" "rows = row # rest"
    by auto
  then show ?case using Cons.IH [of "n + 1" rest] Cons.prems load_one [of lib r n e row] by simp
qed simp

lemma upt_step: "map (\<lambda>i. n + int i) [0..<Suc k] = n # map (\<lambda>i. n + 1 + int i) [0..<k]"
  by (simp add: upt_conv_Cons map_Suc_upt [symmetric] del: upt_Suc)

lemma rows_from_fields:
  assumes "rows_from lib r n es = Inr rows"
  shows "map rw_sequence rows = map (\<lambda>i. n + int i) [0..<length es] \<and> (\<forall>row\<in>set rows. rw_run_id row = r)"
  using assms
proof (induction es arbitrary: n rows)
  case (Cons e es)
  then obtain row rest where row: "event_row_of lib r n e = Inr row" "rows_from lib r (n + 1) es = Inr rest" "rows = row # rest"
    by auto
  then show ?case using Cons.IH [OF row(2)] event_row_Inr(1,2) [OF row(1)] by (simp add: upt_step del: upt_Suc)
qed simp

lemma load_rows_append:
  "load_rows lib n (xs @ ys) =
     rbind (load_rows lib n xs) (\<lambda>es. rbind (load_rows lib (n + int (length xs)) ys) (\<lambda>fs. Inr (es @ fs)))"
proof (induction xs arbitrary: n)
  case Nil
  have "rbind x Inr = x" for x :: "agent_exc + AgentEvent list" by (cases x) auto
  then show ?case by simp
next
  case (Cons r rs)
  show ?case
    by (cases "load_row lib n r"; cases "load_rows lib (n + 1) rs"; cases "load_rows lib (n + 1 + int (length rs)) ys")
       (simp_all add: Cons.IH add.assoc)
qed

lemma load_rows_sequence:
  "load_rows lib n rows = Inr es \<Longrightarrow>
     map rw_sequence rows = map (\<lambda>i. n + int i) [0..<length rows] \<and> length es = length rows"
proof (induction rows arbitrary: n es)
  case (Cons r rs)
  then obtain e fs where fs: "load_rows lib (n + 1) rs = Inr fs" "load_row lib n r = Inr e" "es = e # fs" by auto
  have "rw_sequence r = n" using fs(2) by (auto simp: load_row_def split: if_splits)
  then show ?case using Cons.IH [OF fs(1)] fs(3) by (simp add: upt_step del: upt_Suc)
qed simp

lemma sort_append_larger:
  assumes "\<forall>x\<in>set xs. \<forall>y\<in>set ys. f x < f y" and "sorted (map f ys)"
  shows "sort_key f (xs @ ys) = sort_key f xs @ ys"
proof (rule properties_for_sort_key)
  show "filter (\<lambda>x. f k = f x) (sort_key f xs @ ys) = filter (\<lambda>x. f k = f x) (xs @ ys)" for k
    using sort_key_stable [of f "f k" xs] by (simp add: eq_commute [of "f k"])
  show "sorted (map f (sort_key f xs @ ys))" using assms by (auto simp: sorted_append less_imp_le)
qed simp

lemma insert_rows_Some: "insert_rows rows new = Some all \<Longrightarrow> all = rows @ new"
  by (induction rows new rule: insert_rows.induct) (auto split: if_splits)

lemma loaded_last:
  assumes "load_rows lib 1 (run_rows r st) = Inr es"
  shows "last_sequence r st = int (length es)"
    and "\<forall>row\<in>set (es_rows st). rw_run_id row = r \<longrightarrow> rw_sequence row \<le> int (length es)"
proof -
  let ?F = "filter (\<lambda>x. rw_run_id x = r) (es_rows st)"
  have seq: "map rw_sequence (run_rows r st) = map (\<lambda>i. 1 + int i) [0..<length es]" "length (run_rows r st) = length es"
    using load_rows_sequence [OF assms] by simp_all
  have "set (map rw_sequence ?F) = set (map rw_sequence (run_rows r st))" by (simp add: run_rows_def)
  then have set: "set (map rw_sequence ?F) = (\<lambda>i. 1 + int i) ` {0..<length es}" by (simp add: seq)
  have "last_sequence r st = Max (set (0 # map rw_sequence ?F))"
    unfolding last_sequence_def by (rule Max.set_eq_fold [symmetric])
  also have "\<dots> = int (length es)"
    unfolding list.set(2) set
    by (rule Max_eqI) (auto simp: image_iff Suc_le_eq of_nat_diff intro!: bexI [of _ "length es - 1"])
  finally show "last_sequence r st = int (length es)" .
  show "\<forall>row\<in>set (es_rows st). rw_run_id row = r \<longrightarrow> rw_sequence row \<le> int (length es)"
  proof (intro ballI impI)
    fix row assume "row \<in> set (es_rows st)" "rw_run_id row = r"
    then have "rw_sequence row \<in> set (map rw_sequence ?F)" by simp
    then show "rw_sequence row \<le> int (length es)" unfolding set by auto
  qed
qed

lemma append_Inr:
  assumes "append_events lib r n evs st = (Inr v, st')"
  obtains rows old s where "good_id r" "0 \<le> n" "evs \<noteq> []" "\<not> es_open st" "rows_from lib r (n + 1) evs = Inr rows"
    "last_sequence r st = n" "load_events lib r st = Inr old" "load_rows lib 1 (run_rows r st) = Inr old"
    "replay (lb_attr lib) r (old @ number_from (n + 1) evs) = Inr s"
    "v = n + int (length evs)" "st' = st\<lparr>es_rows := es_rows st @ rows\<rparr>"
proof -
  have good: "good_id r"
    using assms by (auto simp: append_events_def validate_str split: if_splits)
  have guards: "0 \<le> n" "evs \<noteq> []"
    using assms by (auto simp: append_events_def split: if_splits sum.splits)
  obtain rows where rows: "rows_from lib r (n + 1) evs = Inr rows"
    using assms guards good by (cases "rows_from lib r (n + 1) evs") (auto simp: append_events_def validate_str)
  let ?check = "rbind (load_events lib r st) (\<lambda>existing. replay (lb_attr lib) r (existing @ number_from (n + 1) evs))"
  obtain s where check: "?check = Inr s"
    using assms guards good rows
    by (cases ?check) (auto simp: append_events_def validate_str simp del: rbind_eq_Inr split: if_splits agent_exc.splits)
  obtain all where all: "insert_rows (es_rows st) rows = Some all" "v = n + int (length evs)" "st' = st\<lparr>es_rows := all\<rparr>"
    and last: "last_sequence r st = n" "\<not> es_open st"
    using assms guards good rows check
    by (auto simp: append_events_def validate_str simp del: rbind_eq_Inr split: if_splits option.splits)
  obtain old where "load_events lib r st = Inr old" "replay (lb_attr lib) r (old @ number_from (n + 1) evs) = Inr s"
    using check by auto
  moreover from this(1) have "load_rows lib 1 (run_rows r st) = Inr old" by (auto simp: load_events_def)
  ultimately show ?thesis
    using that good guards rows last all insert_rows_Some [OF all(1)] by blast
qed


text \<open>
  Appends are atomic and exclusive. An append that raises leaves every row as it was, and of
  two appends that expect the same version of a run only one succeeds: the second raises the
  version conflict.
\<close>

theorem append_exclusive:
  assumes "append_events lib r n evs st = (res, st')"
  shows "(\<forall>err. res = Inl err \<longrightarrow> es_rows st' = es_rows st) \<and>
    (\<forall>v rows. res = Inr v \<and> evs' \<noteq> [] \<and> rows_from lib r (n + 1) evs' = Inr rows \<longrightarrow>
       append_events lib r n evs' st' = (Inl (AgentExc ConflictKind ''version_conflict''), st'))"
proof (cases res)
  case (Inl err)
  have "es_rows (snd (append_events lib r n evs st)) = es_rows st \<or> (\<exists>v. fst (append_events lib r n evs st) = Inr v)"
    unfolding append_events_def by (simp split: sum.splits if_splits option.splits agent_exc.splits)
  then show ?thesis using assms Inl by simp
next
  case (Inr v)
  have "append_events lib r n evs' st' = (Inl (AgentExc ConflictKind ''version_conflict''), st')"
    if evs': "evs' \<noteq> []" "rows_from lib r (n + 1) evs' = Inr new" for new
  proof -
    have app: "append_events lib r n evs st = (Inr v, st')" using assms Inr by simp
    obtain rows old where g: "good_id r" "0 \<le> n" "evs \<noteq> []" "\<not> es_open st" and st': "st' = st\<lparr>es_rows := es_rows st @ rows\<rparr>"
      and rows: "rows_from lib r (n + 1) evs = Inr rows" and last: "last_sequence r st = n"
      using append_Inr [OF app] by metis
    have "\<exists>row\<in>set rows. rw_sequence row = n + 1 \<and> rw_run_id row = r"
      using rows g(3) event_row_Inr(1,2) by (cases evs) fastforce+
    then have "n + 1 \<in> set (map rw_sequence (filter (\<lambda>x. rw_run_id x = r) (es_rows st')))"
      unfolding st' by (force simp: image_iff)
    then have "n + 1 \<le> Max (set (0 # map rw_sequence (filter (\<lambda>x. rw_run_id x = r) (es_rows st'))))" by simp
    then have "n < last_sequence r st'" unfolding last_sequence_def Max.set_eq_fold by simp
    then show ?thesis using g evs' by (auto simp: append_events_def validate_str st')
  qed
  then show ?thesis using Inr by simp
qed

section \<open>A concrete append\<close>

definition demo_payload :: payload where
  "demo_payload = [(''budgets'', demo_budgets)]"

definition demo_node :: json_node where
  "demo_node = JObj [(''budgets'', JObj [(''turns'', JInt 3), (''inference_tokens'', JInt 100), (''inference_ms'', JInt 100),
     (''tool_calls'', JInt 2), (''tool_attempts'', JInt 2), (''resolver_calls'', JInt 0), (''retries'', JInt 0),
     (''result_bytes'', JInt 0), (''context_bytes'', JInt 0), (''deadline_utc'', JNull)])]"

definition demo_lib :: agent_lib where
  "demo_lib = \<lparr>lb_dumps = (\<lambda>v. if v = PDict demo_payload then ''created'' else ''other''),
     lb_decode = (\<lambda>t. if t = ''created'' then Some demo_node else None), lb_utc = (\<lambda>_. Some True),
     lb_sha256 = (\<lambda>t. t), lb_attr = no_attr\<rparr>"

definition demo_empty :: event_store where
  "demo_empty = \<lparr>es_rows = [], es_open = False\<rparr>"

definition demo_created :: AgentEvent where
  "demo_created = demo_event 1 RunCreated demo_payload"

definition demo_appended :: event_store where
  "demo_appended = snd (append_events demo_lib ''run'' 0 [demo_created] demo_empty)"

lemma demo_append: "append_events demo_lib ''run'' 0 [demo_created] demo_empty = (Inr 1, demo_appended)"
  by code_simp

lemma demo_event_ok: "event_ok demo_lib demo_created"
  by code_simp


theorem append_exclusive_witness:
  "append_events demo_lib ''run'' 0 [demo_created] demo_appended =
     (Inl (AgentExc ConflictKind ''version_conflict''), demo_appended)"
proof -
  have "\<exists>rows. rows_from demo_lib ''run'' (0 + 1) [demo_created] = Inr rows"
    by (simp add: event_row_of_def canonical_json_def reject_nonfinite_def demo_created_def demo_event_def
        demo_payload_def demo_budgets_def)
  then show ?thesis using append_exclusive [OF demo_append, of "[demo_created]"] by blast
qed

end
