(* ===== verification/AgentTools.thy ===== *)
theory AgentTools
  imports AgentStore
begin

text \<open>
  The deterministic parts around a tool call of the agent runtime: \<open>catalog.py\<close>, \<open>decision.py\<close>,
  \<open>compiler.py\<close>, \<open>permissions.py\<close>, \<open>resolver.py\<close>, \<open>executor.py\<close>, \<open>normalization.py\<close>, \<open>flow.py\<close>
  and \<open>acceptance.py\<close>. The inference port, the tool adapters, the file system and the clock are
  arguments.
\<close>

section \<open>Digests and identifiers\<close>

definition digest_of :: "agent_lib \<Rightarrow> payload \<Rightarrow> agent_exc + string" where
  "digest_of lib p = rbind (canonical_json (lb_dumps lib) p) (\<lambda>text. Inr (''sha256:'' @ lb_sha256 lib text))"

definition stable_id :: "agent_lib \<Rightarrow> string \<Rightarrow> payload \<Rightarrow> agent_exc + string" where
  "stable_id lib prefix p =
     rbind (canonical_json (lb_dumps lib) p) (\<lambda>text. Inr (prefix @ ''_'' @ take 40 (lb_sha256 lib text)))"

fun plain_arguments :: "pyval \<Rightarrow> pyval" where
  "plain_arguments (PDict kvs) = PDict (map (\<lambda>kv. (fst kv, plain_arguments (snd kv))) kvs)"
| "plain_arguments (PTuple vs) = PList (map plain_arguments vs)"
| "plain_arguments v = v"

definition arguments_digest :: "agent_lib \<Rightarrow> (string, pyval) odict \<Rightarrow> agent_exc + string" where
  "arguments_digest lib args = digest_of lib (map (\<lambda>kv. (fst kv, plain_arguments (snd kv))) args)"

section \<open>Catalog\<close>

fun plain_value :: "pyval \<Rightarrow> pyval" where
  "plain_value (PDict kvs) = PDict (map (\<lambda>kv. (fst kv, plain_value (snd kv))) kvs)"
| "plain_value (PList vs) = PList (map plain_value vs)"
| "plain_value (PTuple vs) = PList (map plain_value vs)"
| "plain_value v = v"

fun retry_value :: "RetryScope \<Rightarrow> string" where
  "retry_value RetryNever = ''never''"
| "retry_value RetryTransient = ''transient''"
| "retry_value RetryIdempotent = ''idempotent''"
| "retry_value RetryReconcileOnly = ''reconcile_only''"

definition plain_revision :: "ToolRevision \<Rightarrow> pyval" where
  "plain_revision r = PDict
     [(''version'', PStr (rv_version r)), (''semantic_schema'', plain_value (PDict (rv_semantic_schema r))),
      (''native_input_schema'', plain_value (PDict (rv_native_input_schema r))),
      (''native_output_schema'', plain_value (PDict (rv_native_output_schema r))),
      (''compiler_revision'', PStr (rv_compiler_revision r)), (''effect_class'', PStr (effect_value (rv_effect_class r))),
      (''permission_policy_id'', PStr (rv_permission_policy_id r)), (''scope_policy_id'', PStr (rv_scope_policy_id r)),
      (''default_flow_policy'', PStr (policy_value (rv_default_flow_policy r))), (''timeout_ms'', PInt (rv_timeout_ms r)),
      (''result_byte_cap'', PInt (rv_result_byte_cap r)), (''result_token_cap'', PInt (rv_result_token_cap r)),
      (''retry_scope'', PStr (retry_value (rv_retry_scope r)))]"

definition plain_definition :: "ToolDefinition \<Rightarrow> pyval" where
  "plain_definition t = PDict [(''tool_id'', PStr (td_tool_id t)), (''revision'', plain_revision (td_revision t)),
     (''description'', PStr (td_description t))]"

record tool_catalog =
  tc_tools :: "(string, ToolDefinition) odict"
  tc_digest :: string

fun index_tools :: "(string, ToolDefinition) odict \<Rightarrow> ToolDefinition list \<Rightarrow> agent_exc + (string, ToolDefinition) odict" where
  "index_tools d [] = Inr d"
| "index_tools d (t # ts) =
     (if dict_get d (td_tool_id t) \<noteq> None then Inl (AgentPyExc (ValueError ''duplicate tool_id''))
      else index_tools (dict_set (td_tool_id t) t d) ts)"

definition sorted_items :: "(string, 'v) odict \<Rightarrow> (string \<times> 'v) list" where
  "sorted_items d = sort_key fst d"

definition mk_catalog :: "agent_lib \<Rightarrow> ToolDefinition list \<Rightarrow> agent_exc + tool_catalog" where
  "mk_catalog lib tools =
     rbind (index_tools [] tools) (\<lambda>d.
     rbind (digest_of lib (map (\<lambda>kt. (fst kt, plain_definition (snd kt))) (sorted_items d))) (\<lambda>digest.
       Inr \<lparr>tc_tools = d, tc_digest = digest\<rparr>))"

definition catalog_get :: "tool_catalog \<Rightarrow> string \<Rightarrow> ToolDefinition option" where
  "catalog_get c tool_id = dict_get (tc_tools c) tool_id"

definition catalog_all :: "tool_catalog \<Rightarrow> ToolDefinition list" where
  "catalog_all c = map snd (sorted_items (tc_tools c))"

section \<open>Decision\<close>

record SemanticToolCard =
  sc_tool_id :: string
  sc_version :: string
  sc_description :: string
  sc_input_slots :: "pyval list"
  sc_effect_class :: string
  sc_result_shape :: string

definition MAX_CONTEXT_BYTES :: nat where "MAX_CONTEXT_BYTES = 32768"
definition MAX_STATE_REFS :: nat where "MAX_STATE_REFS = 32"
definition MAX_TOOL_CARDS :: nat where "MAX_TOOL_CARDS = 8"

definition tool_intent_schema :: "string list \<Rightarrow> agent_exc + payload" where
  "tool_intent_schema ids =
     (if ids = [] \<or> MAX_TOOL_CARDS < length ids \<or> \<not> distinct ids then Inl (contract_exc ''invalid_shortlist'')
      else Inr
        [(''type'', PStr ''object''),
         (''properties'', PDict
            [(''action'', PDict [(''type'', PStr ''string''),
                (''enum'', PList [PStr ''call_tool'', PStr ''ask_user'', PStr ''submit'', PStr ''blocked''])]),
             (''tool_id'', PDict [(''type'', PList [PStr ''string'', PStr ''null'']), (''enum'', PList (map PStr ids @ [PNone]))]),
             (''objective'', PDict [(''type'', PList [PStr ''string'', PStr ''null''])]),
             (''input_hint'', PDict [(''type'', PList [PStr ''string'', PStr ''null''])]),
             (''message'', PDict [(''type'', PList [PStr ''string'', PStr ''null''])])]),
         (''required'', PList (map PStr [''action'', ''tool_id'', ''objective'', ''input_hint'', ''message''])),
         (''additionalProperties'', PBool False)])"

record decision_context =
  dx_context :: payload
  dx_schema :: payload
  dx_digest :: string

definition card_value :: "SemanticToolCard \<Rightarrow> pyval" where
  "card_value c = PDict [(''tool_id'', PStr (sc_tool_id c)), (''version'', PStr (sc_version c)),
     (''description'', PStr (sc_description c)), (''input_slots'', PList (sc_input_slots c)),
     (''effect_class'', PStr (sc_effect_class c)), (''result_shape'', PStr (sc_result_shape c))]"

definition build_context ::
  "agent_lib \<Rightarrow> string \<Rightarrow> string \<Rightarrow> string list \<Rightarrow> (string, string) odict \<Rightarrow> SemanticToolCard list \<Rightarrow> string \<Rightarrow>
   agent_exc + decision_context" where
  "build_context lib instruction_version objective criteria state_refs cards catalog_digest =
     (if MAX_STATE_REFS < length state_refs then Inl (contract_exc ''context_too_large'')
      else if cards = [] \<or> MAX_TOOL_CARDS < length cards then Inl (contract_exc ''invalid_shortlist'')
      else rbind (tool_intent_schema (map sc_tool_id cards)) (\<lambda>schema.
        (let context =
               [(''instruction_version'', PStr instruction_version),
                (''task'', PDict [(''objective'', PStr objective), (''acceptance_criteria'', PList (map PStr criteria))]),
                (''state_refs'', PDict (map (\<lambda>kv. (fst kv, PStr (snd kv))) (sorted_items state_refs))),
                (''tool_cards'', PList (map card_value cards)),
                (''latest_observation'', PNone),
                (''tool_catalog_digest'', PStr catalog_digest)] in
         rbind (canonical_json (lb_dumps lib) context) (\<lambda>text.
           if MAX_CONTEXT_BYTES < length text then Inl (contract_exc ''context_too_large'')
           else Inr \<lparr>dx_context = context, dx_schema = schema, dx_digest = ''sha256:'' @ lb_sha256 lib text\<rparr>))))"

record DecisionRequest =
  dr_request_id :: string
  dr_attempt_id :: string
  dr_context :: payload
  dr_output_schema :: payload
  dr_context_digest :: string
  dr_catalog_digest :: string

record DecisionResponse =
  dp_output :: string
  dp_input_tokens :: int
  dp_output_tokens :: int
  dp_inference_ms :: int

text \<open>The tool ids that the schema of a request enumerates, without the final null.\<close>

definition schema_tool_ids :: "payload \<Rightarrow> agent_exc + string list" where
  "schema_tool_ids schema =
     (case dict_item schema ''properties'' of
        PDict props \<Rightarrow>
          (case dict_item props ''tool_id'' of
             PDict field \<Rightarrow>
               (case dict_item field ''enum'' of
                  PList vs \<Rightarrow> Inr (concat (map (\<lambda>v. case v of PStr t \<Rightarrow> [t] | _ \<Rightarrow> []) (butlast vs)))
                | _ \<Rightarrow> Inl (AgentPyExc (KeyErr ''enum'')))
           | _ \<Rightarrow> Inl (AgentPyExc (KeyErr ''tool_id'')))
      | _ \<Rightarrow> Inl (AgentPyExc (KeyErr ''properties'')))"

text \<open>
  \<open>DecisionEngine.decide\<close>; \<open>infer\<close> is the inference port. The catalog is immutable, so the two
  comparisons of the digest have the same outcome.
\<close>

definition decide ::
  "agent_lib \<Rightarrow> (DecisionRequest \<Rightarrow> agent_exc + DecisionResponse) \<Rightarrow> DecisionRequest \<Rightarrow> string \<Rightarrow>
   agent_exc + ToolIntent \<times> DecisionResponse" where
  "decide lib infer request current_digest =
     (if current_digest \<noteq> dr_catalog_digest request then Inl (runtime_exc ''catalog_changed'')
      else rbind (infer request) (\<lambda>response.
        if MAX_DECISION_BYTES < length (dp_output response) then Inl (contract_exc ''contract_too_large'')
        else rbind (schema_tool_ids (dr_output_schema request)) (\<lambda>allowed.
             rbind (parse_intent (lb_decode lib) (dp_output response) allowed) (\<lambda>intent.
               Inr (intent, response)))))"

section \<open>Compilation\<close>

datatype adapter_result = Compiled "(string, pyval) odict" | MissingBinding | AdapterRaised agent_exc

type_synonym adapters = "(string, string \<Rightarrow> (string, pyval) odict \<Rightarrow> adapter_result) odict"

definition compile ::
  "agent_lib \<Rightarrow> tool_catalog \<Rightarrow> adapters \<Rightarrow> string \<Rightarrow> string \<Rightarrow> string \<Rightarrow> (string, pyval) odict \<Rightarrow> ToolIntent \<Rightarrow>
   agent_exc + CompiledToolCall" where
  "compile lib catalog adapters run_id turn_id digest bindings intent =
     (case (ti_tool_id intent, ti_input_hint intent) of
        (Some tool_id, Some hint) \<Rightarrow>
          if ti_action intent \<noteq> CallTool then Inl (runtime_exc ''not_tool_action'')
          else if digest \<noteq> tc_digest catalog then Inl (runtime_exc ''catalog_changed'')
          else (case (catalog_get catalog tool_id, dict_get adapters tool_id) of
            (Some definition_, Some adapter) \<Rightarrow>
              (case adapter hint bindings of
                 MissingBinding \<Rightarrow> Inl (runtime_exc ''needs_resolution'')
               | AdapterRaised err \<Rightarrow> Inl err
               | Compiled native \<Rightarrow>
                   rbind (arguments_digest lib native) (\<lambda>args.
                   (let identity = [(''run_id'', PStr run_id), (''turn_id'', PStr turn_id), (''catalog_digest'', PStr digest),
                          (''tool_id'', PStr tool_id), (''tool_version'', PStr (rv_version (td_revision definition_))),
                          (''input_hint'', PStr hint), (''arguments_digest'', PStr args)] in
                    rbind (stable_id lib ''act'' identity) (\<lambda>action_id.
                    rbind (stable_id lib ''inv'' (identity @ [(''action_id'', PStr action_id)])) (\<lambda>invocation_id.
                    rbind (stable_id lib ''call'' [(''invocation_id'', PStr invocation_id)]) (\<lambda>call_id.
                    rbind (stable_id lib ''idem'' (identity @ [(''effect'', PStr (effect_value (rv_effect_class (td_revision definition_))))])) (\<lambda>key.
                      mk_CompiledToolCall (PStr action_id) (PStr invocation_id) (PStr call_id) (PStr tool_id)
                        (PStr (rv_version (td_revision definition_))) (PDict native) (PStr key)
                        (rv_effect_class (td_revision definition_)))))))))
          | _ \<Rightarrow> Inl (runtime_exc ''unknown_tool''))
      | _ \<Rightarrow> Inl (runtime_exc ''not_tool_action''))"

section \<open>Permissions\<close>

record PermissionContext =
  px_allowed_tools :: "string list"
  px_catalog_digest :: string
  px_expected_catalog_digest :: string
  px_deadline_utc :: "string option"
  px_tainted :: bool

text \<open>
  \<open>passed d\<close> is the comparison of the clock with the deadline \<open>d\<close>: its outcome, or the exception of
  a timestamp that does not parse or has no time zone.
\<close>

definition deadline_passed :: "(string \<Rightarrow> agent_exc + bool) \<Rightarrow> string option \<Rightarrow> agent_exc + bool" where
  "deadline_passed passed deadline = (case deadline of None \<Rightarrow> Inr False | Some d \<Rightarrow> passed d)"

text \<open>\<open>DeterministicPermissionGate.authorize\<close>; every reason is a constant that \<open>AuthorizationResult\<close> accepts.\<close>

definition authorize ::
  "(string \<Rightarrow> agent_exc + bool) \<Rightarrow> CompiledToolCall \<Rightarrow> PermissionContext \<Rightarrow> agent_exc + AuthorizationResult" where
  "authorize passed call context =
     (let result = (\<lambda>decision reason. \<lparr>ar_decision = decision, ar_reason = reason, ar_policy_id = ''atomic-readonly.v1''\<rparr>) in
      if px_catalog_digest context \<noteq> px_expected_catalog_digest context then Inr (result AuthDeny ''catalog changed'')
      else rbind (deadline_passed passed (px_deadline_utc context)) (\<lambda>late.
        if late then Inr (result AuthDeny ''deadline expired'')
        else if px_tainted context then Inr (result AuthDeny ''tainted arguments'')
        else if cc_tool_id call \<notin> set (px_allowed_tools context) then Inr (result AuthDeny ''tool denied by scope'')
        else if cc_effect_class call \<noteq> ReadOnly
        then Inr (result AuthRequireApproval ''mutation requires bound one-shot approval'')
        else Inr (result AuthAllow ''read-only scope allowed'')))"

section \<open>Argument resolution\<close>

record ResolutionRequest =
  rq_tool_id :: string
  rq_semantic_schema :: payload
  rq_missing_slot :: string

record ResolutionResponse =
  rp_tool_id :: string
  rp_bindings :: "(string, pyval) odict"

definition mk_resolver :: "int \<Rightarrow> agent_exc + int" where
  "mk_resolver max_calls = (if max_calls < 0 then Inl (AgentPyExc (ValueError ''max_calls'')) else Inr max_calls)"

text \<open>
  \<open>BoundedArgumentResolver.resolve\<close>. The state is the number of remaining calls; \<open>port\<close> answers a
  request, raises, or returns something that is not a response (\<open>Inr None\<close>).
\<close>

definition resolve ::
  "(ResolutionRequest \<Rightarrow> agent_exc + ResolutionResponse option) \<Rightarrow> ResolutionRequest \<Rightarrow> int \<Rightarrow>
   (agent_exc + (string, pyval) odict) \<times> int" where
  "resolve port request remaining =
     (if remaining \<le> 0 then (Inl (runtime_exc ''resolver_exhausted''), remaining)
      else (case port request of
              Inl err \<Rightarrow> Inl err
            | Inr None \<Rightarrow> Inl (runtime_exc ''resolver_invalid'')
            | Inr (Some response) \<Rightarrow>
                if rp_tool_id response \<noteq> rq_tool_id request then Inl (runtime_exc ''tool_substitution'')
                else if dict_get (rp_bindings response) (rq_missing_slot request) = None
                then Inl (runtime_exc ''resolver_invalid'')
                else Inr (rp_bindings response),
            remaining - 1))"

section \<open>Text\<close>

fun py_join :: "string \<Rightarrow> string list \<Rightarrow> string" where
  "py_join sep [] = []"
| "py_join sep [x] = x"
| "py_join sep (x # xs) = x @ sep @ py_join sep xs"

fun py_in :: "string \<Rightarrow> string \<Rightarrow> bool" where
  "py_in p [] = (p = [])"
| "py_in p (c # cs) = (starts_with p (c # cs) \<or> py_in p cs)"

text \<open>
  \<open>str.splitlines\<close> on the UTF-8 encoding: the length of the line boundary at the front of a text
  (LF, CR, CR LF, VT, FF, FS, GS, RS, NEL, LS, PS), and the lines without their boundaries.
\<close>

definition line_break :: "string \<Rightarrow> nat" where
  "line_break s =
     (let bytes = map (of_char :: char \<Rightarrow> nat) (take 3 s) in
      if take 2 bytes = [13, 10] then 2
      else if bytes \<noteq> [] \<and> hd bytes \<in> {10, 11, 12, 13, 28, 29, 30} then 1
      else if take 2 bytes = [194, 133] then 2
      else if bytes = [226, 128, 168] \<or> bytes = [226, 128, 169] then 3
      else 0)"

function (sequential) splitlines_from :: "string \<Rightarrow> string \<Rightarrow> string list" where
  "splitlines_from cur [] = (if cur = [] then [] else [rev cur])"
| "splitlines_from cur (c # cs) =
     (if line_break (c # cs) = 0 then splitlines_from (c # cur) cs
      else rev cur # splitlines_from [] (drop (line_break (c # cs) - 1) cs))"
  by pat_completeness auto
termination by (relation "measure (\<lambda>(_, s). length s)") auto

definition splitlines :: "string \<Rightarrow> string list" where
  "splitlines s = splitlines_from [] s"

section \<open>Execution\<close>

record RawToolResult =
  rr_invocation_id :: string
  rr_status :: ToolInvocationLifecycle
  rr_payload :: string
  rr_summary :: string
  rr_side_effect_state :: SideEffectState
  rr_error_code :: "string option"
  rr_truncated :: bool

text \<open>An executor error: a runtime error with its code and message, or another exception.\<close>

datatype exec_error = ExecError string string | ExecPy py_exc

record executor =
  ex_timeout_ms :: int
  ex_result_byte_cap :: int
  ex_dispatch_count :: int
  ex_completed :: "(string, RawToolResult) odict"

definition mk_executor :: "int \<Rightarrow> int \<Rightarrow> agent_exc + executor" where
  "mk_executor timeout_ms result_byte_cap =
     (if timeout_ms \<le> 0 \<or> result_byte_cap \<le> 0 then Inl (AgentPyExc (ValueError ''executor limits''))
      else Inr \<lparr>ex_timeout_ms = timeout_ms, ex_result_byte_cap = result_byte_cap, ex_dispatch_count = 0,
                ex_completed = []\<rparr>)"

text \<open>
  What the executor sees of the world: the bytes of a file, the entries under a root (the parts of
  the path relative to it, whether it is a regular file and not a symbolic link, its text when it
  decodes), the cancellation token and the elapsed milliseconds at each point that reads them
  (0 before the dispatch, 1 after the tool, \<open>2 + i\<close> at the i-th entry of a search), and \<open>str\<close> on
  values that are not strings.
\<close>

record tree_entry =
  te_parts :: "string list"
  te_plain_file :: bool
  te_text :: "string option"

record exec_env =
  en_read :: "string \<Rightarrow> py_exc + string"
  en_tree :: "string \<Rightarrow> tree_entry list"
  en_cancelled :: "nat \<Rightarrow> bool"
  en_elapsed_ms :: "nat \<Rightarrow> rat"
  en_show :: "pyval \<Rightarrow> string"

definition py_str :: "(pyval \<Rightarrow> string) \<Rightarrow> pyval \<Rightarrow> string" where
  "py_str sh v = (case v of PStr s \<Rightarrow> s | _ \<Rightarrow> sh v)"

definition match_lines :: "string \<Rightarrow> string \<Rightarrow> string \<Rightarrow> string list" where
  "match_lines rel pattern text =
     map (\<lambda>nl. rel @ '':'' @ show_nat (fst nl) @ '':'' @ snd nl)
       (filter (\<lambda>nl. py_in pattern (snd nl)) (enumerate 1 (splitlines text)))"

fun search_entries :: "exec_env \<Rightarrow> int \<Rightarrow> string \<Rightarrow> nat \<Rightarrow> tree_entry list \<Rightarrow> exec_error + string list" where
  "search_entries env timeout pattern i [] = Inr []"
| "search_entries env timeout pattern i (e # es) =
     (if en_cancelled env (2 + i) then Inl (ExecError ''cancelled_post_dispatch'' ''search cancelled'')
      else if of_int timeout < en_elapsed_ms env (2 + i) then Inl (ExecError ''post_dispatch_timeout'' ''search timed out'')
      else rbind (search_entries env timeout pattern (Suc i) es) (\<lambda>rest.
        case te_text e of
          Some text \<Rightarrow>
            Inr ((if te_plain_file e then match_lines (py_join ''/'' (te_parts e)) pattern text else []) @ rest)
        | None \<Rightarrow> Inr rest))"

definition required_argument :: "(string, pyval) odict \<Rightarrow> string \<Rightarrow> exec_error + pyval" where
  "required_argument args k = (case dict_get args k of None \<Rightarrow> Inl (ExecPy (KeyErr k)) | Some v \<Rightarrow> Inr v)"

definition search :: "exec_env \<Rightarrow> int \<Rightarrow> (string, pyval) odict \<Rightarrow> exec_error + string \<times> nat" where
  "search env timeout args =
     rbind (required_argument args ''root'') (\<lambda>root.
     rbind (required_argument args ''pattern'') (\<lambda>pattern.
     rbind (search_entries env timeout (py_str (en_show env) pattern) 0
              (sort_key te_parts (en_tree env (py_str (en_show env) root)))) (\<lambda>lines.
       Inr (py_join [char_of (10 :: nat)] lines, length lines))))"

definition run_tool :: "exec_env \<Rightarrow> int \<Rightarrow> CompiledToolCall \<Rightarrow> exec_error + string \<times> string" where
  "run_tool env timeout call =
     (if cc_tool_id call = ''read_file'' then
        rbind (required_argument (cc_native_arguments call) ''path'') (\<lambda>path.
          case en_read env (py_str (en_show env) path) of
            Inl err \<Rightarrow> Inl (ExecPy err)
          | Inr bytes \<Rightarrow> Inr (bytes, ''read '' @ show_nat (length bytes) @ '' bytes''))
      else if cc_tool_id call = ''search_text'' then
        rbind (search env timeout (cc_native_arguments call)) (\<lambda>pc.
          Inr (fst pc, ''found '' @ show_nat (snd pc) @ '' matching lines''))
      else Inl (ExecError ''executor_unavailable'' ''tool is not executable''))"

definition execute :: "exec_env \<Rightarrow> CompiledToolCall \<Rightarrow> executor \<Rightarrow> (exec_error + RawToolResult) \<times> executor" where
  "execute env call x =
     (case dict_get (ex_completed x) (cc_idempotency_key call) of
        Some done_before \<Rightarrow> (Inr done_before, x)
      | None \<Rightarrow>
          if en_cancelled env 0
          then (Inl (ExecError ''cancelled_pre_dispatch'' ''tool was cancelled before dispatch''), x)
          else (let y = x\<lparr>ex_dispatch_count := ex_dispatch_count x + 1\<rparr> in
            case run_tool env (ex_timeout_ms x) call of
              Inl err \<Rightarrow> (Inl err, y)
            | Inr (bytes, summary) \<Rightarrow>
                if en_cancelled env 1
                then (Inl (ExecError ''cancelled_post_dispatch'' ''tool was cancelled after dispatch''), y)
                else if of_int (ex_timeout_ms x) < en_elapsed_ms env 1
                then (Inl (ExecError ''post_dispatch_timeout'' ''tool timed out after dispatch''), y)
                else (let raw = \<lparr>rr_invocation_id = cc_invocation_id call, rr_status = ToolSucceeded,
                        rr_payload = take (nat (ex_result_byte_cap x)) bytes, rr_summary = summary,
                        rr_side_effect_state = EffectNone, rr_error_code = None,
                        rr_truncated = (nat (ex_result_byte_cap x) < length bytes)\<rparr> in
                  (Inr raw, y\<lparr>ex_completed := dict_set (cc_idempotency_key call) raw (ex_completed y)\<rparr>))))"

section \<open>Normalisation\<close>

text \<open>
  The functions of the standard library that normalisation calls: strict UTF-8 decoding, the
  substitution of the secret pattern, decoding that drops a cut-off character, and \<open>json.dumps\<close>
  with default separators.
\<close>

record text_lib =
  tx_utf8 :: "string \<Rightarrow> bool"
  tx_redact :: "string \<Rightarrow> string"
  tx_ignore :: "string \<Rightarrow> string"
  tx_dumps :: "pyval \<Rightarrow> string"

text \<open>
  \<open>ImmutableArtifactStore\<close>: the files under the root, by the hexadecimal digest that names them.
  The temporary file and its atomic rename are one step; errors of the file system are not modelled.
\<close>

type_synonym artifacts = "(string, string) odict"

definition artifact_put :: "agent_lib \<Rightarrow> string \<Rightarrow> artifacts \<Rightarrow> (agent_exc + string \<times> string) \<times> artifacts" where
  "artifact_put lib bytes files =
     (let hex = lb_sha256 lib bytes;
          files' = (if dict_get files hex = None then dict_set hex bytes files else files) in
      (case dict_get files' hex of
         Some stored \<Rightarrow>
           if lb_sha256 lib stored \<noteq> hex then Inl (runtime_exc ''artifact_hash_mismatch'')
           else Inr (''artifact://sha256/'' @ hex, ''sha256:'' @ hex)
       | None \<Rightarrow> Inl (runtime_exc ''artifact_hash_mismatch''),
       files'))"

definition result_error :: "RawToolResult \<Rightarrow> agent_exc + AgentErrorInfo option" where
  "result_error raw =
     (if rr_status raw \<in> {ToolFailed, ToolUnknownOutcome} then
        rbind (mk_AgentErrorInfo
                 (PStr (case rr_error_code raw of None \<Rightarrow> ''tool_failed'' | Some c \<Rightarrow> if c = [] then ''tool_failed'' else c))
                 (PStr (rr_summary raw)) False
                 (if rr_status raw = ToolUnknownOutcome then RetryReconcileOnly else RetryNever)
                 (rr_side_effect_state raw)) (\<lambda>err. Inr (Some err))
      else Inr None)"

definition normalize ::
  "agent_lib \<Rightarrow> text_lib \<Rightarrow> nat \<Rightarrow> RawToolResult \<Rightarrow> string \<Rightarrow> string \<Rightarrow> artifacts \<Rightarrow>
   (agent_exc + ToolResultEnvelope) \<times> artifacts" where
  "normalize lib tx cap raw tool_id tool_version files =
     (if \<not> tx_utf8 tx (rr_payload raw) then (Inl (runtime_exc ''result_schema_invalid''), files)
      else (let bytes = tx_redact tx (rr_payload raw) in
        case artifact_put lib bytes files of
          (Inl err, files') \<Rightarrow> (Inl err, files')
        | (Inr (data_ref, data_hash), files') \<Rightarrow>
            (let bounded = take cap bytes;
                 summary = (if bounded = [] then rr_summary raw
                   else tx_dumps tx (PDict [(''summary'', PStr (rr_summary raw)), (''preview'', PStr (tx_ignore tx bounded))])) in
             (rbind (result_error raw) (\<lambda>err.
                mk_ToolResultEnvelope (PStr (rr_invocation_id raw)) (PStr tool_id) (PStr tool_version) (rr_status raw)
                  (PStr summary) (PStr data_ref) (PStr data_hash)
                  (rr_truncated raw \<or> length bounded < length bytes) (rr_side_effect_state raw) err
                  (PStr ''atomic_executor.v1'')),
              files'))))"

section \<open>Flow and acceptance\<close>

definition flow_decide :: "ToolResultEnvelope \<Rightarrow> bool \<Rightarrow> FlowTransition" where
  "flow_decide result verify =
     (if tr_status result = ToolUnknownOutcome
      then \<lparr>ft_policy = Handoff, ft_next_lifecycle = RunPaused, ft_reason = ''unknown outcome requires reconciliation''\<rparr>
      else if tr_status result = ToolFailed
      then \<lparr>ft_policy = ReplanWithObservation, ft_next_lifecycle = RunDeciding, ft_reason = ''tool failed''\<rparr>
      else if verify
      then \<lparr>ft_policy = VerifyThenReplan, ft_next_lifecycle = RunVerifying, ft_reason = ''deterministic verification required''\<rparr>
      else \<lparr>ft_policy = SynthesizeNoTools, ft_next_lifecycle = RunSynthesizing, ft_reason = ''bounded observation is ready''\<rparr>)"

record AcceptanceVerdict =
  av_accepted :: bool
  av_reason :: string

definition evaluate :: "ToolResultEnvelope \<Rightarrow> (string, string) odict \<Rightarrow> AcceptanceVerdict" where
  "evaluate result criteria =
     (if tr_status result \<noteq> ToolSucceeded \<or> tr_data_hash result = None
      then \<lparr>av_accepted = False, av_reason = ''tool result is not a verified success''\<rparr>
      else if dict_get criteria ''data_hash'' \<noteq> None \<and> dict_get criteria ''data_hash'' \<noteq> tr_data_hash result
      then \<lparr>av_accepted = False, av_reason = ''artifact hash does not match acceptance criteria''\<rparr>
      else if dict_get criteria ''tool_id'' \<noteq> None \<and> dict_get criteria ''tool_id'' \<noteq> Some (tr_tool_id result)
      then \<lparr>av_accepted = False, av_reason = ''tool does not match acceptance criteria''\<rparr>
      else \<lparr>av_accepted = True, av_reason = ''deterministic acceptance criteria passed''\<rparr>)"

section \<open>The built-in tools\<close>

definition readonly_tool ::
  "string \<Rightarrow> string list \<Rightarrow> string list \<Rightarrow> string \<Rightarrow> string \<Rightarrow> agent_exc + ToolDefinition" where
  "readonly_tool tool_id slots inputs compiler_revision description =
     rbind (mk_ToolRevision (PStr ''1'') (PDict [(''required'', PList (map PStr slots))])
              (PDict [(''required'', PList (map PStr inputs))]) (PDict [(''type'', PStr ''utf8_bytes'')])
              (PStr compiler_revision) ReadOnly (PStr ''atomic-readonly.v1'') (PStr ''allowlisted-ref.v1'')
              VerifyThenReplan (PInt 5000) (PInt 1048576) (PInt 4096) RetryTransient) (\<lambda>revision.
       mk_ToolDefinition (PStr tool_id) revision (PStr description))"

definition readonly_catalog :: "agent_lib \<Rightarrow> agent_exc + tool_catalog" where
  "readonly_catalog lib =
     rbind (readonly_tool ''read_file'' [''target_ref''] [''path'', ''ref''] ''read-file.v1''
              ''Read one task file selected through an allowlisted semantic ref.'') (\<lambda>read_file.
     rbind (readonly_tool ''search_text'' [''root_ref'', ''pattern''] [''root'', ''root_ref'', ''pattern''] ''search-text.v1''
              ''Search bounded text under an allowlisted root without a shell.'') (\<lambda>search_text.
       mk_catalog lib [read_file, search_text]))"

section \<open>Executions of one executor\<close>

text \<open>The executor of a service lives as long as the service: it starts fresh and executes calls.\<close>

inductive exec_step :: "executor \<Rightarrow> executor \<Rightarrow> bool" where
  "exec_step x (snd (execute env call x))"

definition fresh_executor :: "executor \<Rightarrow> bool" where
  "fresh_executor x \<longleftrightarrow> (\<exists>timeout cap. mk_executor timeout cap = Inr x)"

definition exec_inv :: "executor \<Rightarrow> bool" where
  "exec_inv x \<longleftrightarrow> distinct (dict_keys (ex_completed x)) \<and> int (length (ex_completed x)) \<le> ex_dispatch_count x \<and>
     (\<forall>raw\<in>set (dict_values (ex_completed x)). rr_status raw = ToolSucceeded \<and> int (length (rr_payload raw)) \<le> ex_result_byte_cap x)"

lemma execute_cases:
  obtains (cached) raw where "dict_get (ex_completed x) (cc_idempotency_key call) = Some raw" "execute env call x = (Inr raw, x)"
  | (cancelled) err where "dict_get (ex_completed x) (cc_idempotency_key call) = None" "execute env call x = (Inl err, x)"
  | (raised) err where "dict_get (ex_completed x) (cc_idempotency_key call) = None"
      "execute env call x = (Inl err, x\<lparr>ex_dispatch_count := ex_dispatch_count x + 1\<rparr>)"
  | (finished) raw bytes where "dict_get (ex_completed x) (cc_idempotency_key call) = None"
      "execute env call x = (Inr raw, x\<lparr>ex_dispatch_count := ex_dispatch_count x + 1,
         ex_completed := dict_set (cc_idempotency_key call) raw (ex_completed x)\<rparr>)"
      "rr_status raw = ToolSucceeded" "rr_payload raw = take (nat (ex_result_byte_cap x)) bytes"
proof (cases "dict_get (ex_completed x) (cc_idempotency_key call)")
  case None
  then show thesis
    by (cases "en_cancelled env 0"; cases "run_tool env (ex_timeout_ms x) call"; cases "en_cancelled env 1";
        cases "of_int (ex_timeout_ms x) < en_elapsed_ms env 1")
       (auto simp: execute_def Let_def split: prod.splits intro: cancelled raised finished [OF None])
next
  case (Some raw)
  then show thesis using cached by (simp add: execute_def)
qed

lemma exec_inv_step:
  assumes "exec_inv x" and "0 < ex_result_byte_cap x" and "exec_step x y"
  shows "exec_inv y \<and> 0 < ex_result_byte_cap y"
proof -
  obtain env call where y: "y = snd (execute env call x)" using assms(3) by (auto elim: exec_step.cases)
  show ?thesis
  proof (cases rule: execute_cases [of x call env])
    case (finished raw bytes)
    have "distinct (dict_keys (dict_set (cc_idempotency_key call) raw (ex_completed x)))"
      using assms(1) by (simp add: exec_inv_def distinct_update)
    then show ?thesis using assms finished by (auto simp: y exec_inv_def set_new_append)
  qed (use assms in \<open>auto simp: y exec_inv_def\<close>)
qed

interpretation exec_machine: invariant_system fresh_executor exec_step "\<lambda>x. exec_inv x \<and> 0 < ex_result_byte_cap x"
proof
  show "exec_inv s \<and> 0 < ex_result_byte_cap s" if "fresh_executor s" for s
    using that by (auto simp: fresh_executor_def mk_executor_def exec_inv_def split: if_splits)
  show "exec_inv t \<and> 0 < ex_result_byte_cap t" if "exec_inv s \<and> 0 < ex_result_byte_cap s" "exec_step s t" for s t
    using exec_inv_step that by blast
qed

lemma completed_kept:
  assumes "exec_step\<^sup>*\<^sup>* x y" and "dict_get (ex_completed x) k = Some raw"
  shows "dict_get (ex_completed y) k = Some raw"
  using assms
proof (induction rule: rtranclp_induct)
  case (step y z)
  then obtain env call where z: "z = snd (execute env call y)" by (auto elim: exec_step.cases)
  show ?case by (cases rule: execute_cases [of y call env]) (use step z in auto)
qed

text \<open>
  A tool runs at most once to completion per idempotency key, and its result is bounded. Once
  an executor has returned the result of a call, every later call with the same key, whatever else
  ran in between and whatever the file system, the clock and the cancellation token say, returns
  that result and changes nothing; completed results never outnumber dispatches, and each fits the
  byte cap.
\<close>

theorem execute_at_most_once:
  assumes "reach fresh_executor exec_step x" and "execute env call x = (Inr raw, y)" and "exec_step\<^sup>*\<^sup>* y z"
    and "cc_idempotency_key call' = cc_idempotency_key call"
  shows "execute env' call' z = (Inr raw, z) \<and> rr_status raw = ToolSucceeded \<and>
    int (length (rr_payload raw)) \<le> ex_result_byte_cap y \<and> int (length (ex_completed z)) \<le> ex_dispatch_count z"
proof -
  have xy: "exec_step x y" using exec_step.intros [of x env call] assms(2) by simp
  have y: "exec_inv y" using exec_machine.inv_step [OF exec_machine.inv_reach [OF assms(1)] xy] by simp
  have z: "exec_inv z" using exec_machine.inv_steps [OF assms(3)] exec_machine.inv_step [OF exec_machine.inv_reach [OF assms(1)] xy]
    by simp
  have get: "dict_get (ex_completed y) (cc_idempotency_key call) = Some raw"
    by (cases rule: execute_cases [of x call env]) (use assms(2) in auto)
  then have "raw \<in> set (dict_values (ex_completed y))" by (force dest: map_of_SomeD)
  then show ?thesis using y z completed_kept [OF assms(3) get] assms(4) by (auto simp: exec_inv_def execute_def)
qed

definition demo_call :: CompiledToolCall where
  "demo_call = \<lparr>cc_action_id = ''a'', cc_invocation_id = ''i'', cc_internal_call_id = ''c'', cc_tool_id = ''read_file'',
     cc_tool_version = ''1'', cc_native_arguments = [(''path'', PStr ''notes'')], cc_idempotency_key = ''k'', cc_effect_class = ReadOnly\<rparr>"

definition demo_env :: "string \<Rightarrow> exec_env" where
  "demo_env text = \<lparr>en_read = (\<lambda>_. Inr text), en_tree = (\<lambda>_. []), en_cancelled = (\<lambda>_. False), en_elapsed_ms = (\<lambda>_. 1),
     en_show = (\<lambda>_. [])\<rparr>"

definition demo_executor :: executor where
  "demo_executor = \<lparr>ex_timeout_ms = 5, ex_result_byte_cap = 4, ex_dispatch_count = 0, ex_completed = []\<rparr>"

definition demo_raw :: RawToolResult where
  "demo_raw = \<lparr>rr_invocation_id = ''i'', rr_status = ToolSucceeded, rr_payload = ''hell'', rr_summary = ''read 5 bytes'',
     rr_side_effect_state = EffectNone, rr_error_code = None, rr_truncated = True\<rparr>"

theorem execute_at_most_once_witness:
  "execute (demo_env ''changed'') demo_call (snd (execute (demo_env ''hello'') demo_call demo_executor)) =
     (Inr demo_raw, snd (execute (demo_env ''hello'') demo_call demo_executor))"
proof -
  have "reach fresh_executor exec_step demo_executor"
    unfolding fresh_executor_def [abs_def]
    by (rule reach_init, rule exI [of _ 5], rule exI [of _ 4]) (simp add: mk_executor_def demo_executor_def)
  moreover have "fst (execute (demo_env ''hello'') demo_call demo_executor) = Inr demo_raw" by code_simp
  then have "execute (demo_env ''hello'') demo_call demo_executor =
      (Inr demo_raw, snd (execute (demo_env ''hello'') demo_call demo_executor))" by (simp add: prod_eq_iff)
  ultimately show ?thesis using execute_at_most_once [of demo_executor "demo_env ''hello''" demo_call demo_raw] by blast
qed

end
