(* ===== verification/AgentScope.thy ===== *)
theory AgentScope
  imports AgentTools
begin

text \<open>
  \<open>agent_runtime/tool_adapters\<close>: the two adapters that turn a semantic hint into native arguments,
  and the path scope they resolve references in. A path is the list of its parts; making a path
  absolute, resolving it through the file system's links and printing it are the fields of
  \<open>path_lib\<close>.
\<close>

type_synonym path = "string list"

record path_lib =
  pl_absolute :: "path \<Rightarrow> path"
  pl_resolve :: "path \<Rightarrow> py_exc + path"
  pl_text :: "path \<Rightarrow> string"

record path_scope =
  ps_roots :: "(string, path) odict"
  ps_files :: "(string, path) odict"

definition is_relative_to :: "path \<Rightarrow> path \<Rightarrow> bool" where
  "is_relative_to p base \<longleftrightarrow> take (length base) p = base"

text \<open>\<open>AllowlistedPathScope._resolve\<close>\<close>

definition resolve_strict :: "path_lib \<Rightarrow> path \<Rightarrow> agent_exc + path" where
  "resolve_strict fs p = (case pl_resolve fs p of Inl err \<Rightarrow> Inl (AgentPyExc err) | Inr q \<Rightarrow> Inr q)"

definition resolve_in :: "path_lib \<Rightarrow> path \<Rightarrow> path \<Rightarrow> agent_exc + path" where
  "resolve_in fs candidate base =
     rbind (resolve_strict fs base) (\<lambda>resolved_root.
     rbind (resolve_strict fs candidate) (\<lambda>resolved.
       if is_relative_to resolved resolved_root then Inr resolved else Inl (runtime_exc ''scope_violation'')))"

text \<open>\<open>max(owners, key=...)\<close>: the first of the longest roots above the candidate.\<close>

definition owning_root :: "path_lib \<Rightarrow> path_scope \<Rightarrow> path \<Rightarrow> agent_exc + path" where
  "owning_root fs scope candidate =
     (case min_by (\<lambda>base. - int (length base))
             (filter (\<lambda>base. is_relative_to (pl_absolute fs candidate) (pl_absolute fs base)) (dict_values (ps_roots scope))) of
        None \<Rightarrow> Inl (runtime_exc ''scope_violation'')
      | Some base \<Rightarrow> Inr base)"

definition resolve_file :: "path_lib \<Rightarrow> path_scope \<Rightarrow> string \<Rightarrow> agent_exc + path" where
  "resolve_file fs scope ref =
     (case dict_get (ps_files scope) ref of
        None \<Rightarrow> Inl (runtime_exc ''scope_violation'')
      | Some candidate \<Rightarrow> rbind (owning_root fs scope candidate) (resolve_in fs candidate))"

definition resolve_root :: "path_lib \<Rightarrow> path_scope \<Rightarrow> string \<Rightarrow> agent_exc + path" where
  "resolve_root fs scope ref =
     (case dict_get (ps_roots scope) ref of
        None \<Rightarrow> Inl (runtime_exc ''scope_violation'')
      | Some candidate \<Rightarrow> resolve_in fs candidate candidate)"

definition adapter_of :: "agent_exc + (string, pyval) odict \<Rightarrow> adapter_result" where
  "adapter_of r = (case r of Inl err \<Rightarrow> AdapterRaised err | Inr native \<Rightarrow> Compiled native)"

definition read_file_adapter :: "path_lib \<Rightarrow> path_scope \<Rightarrow> string \<Rightarrow> (string, pyval) odict \<Rightarrow> adapter_result" where
  "read_file_adapter fs scope input_hint bindings =
     (case dict_get bindings input_hint of
        Some (PStr ref) \<Rightarrow>
          adapter_of (rbind (resolve_file fs scope ref) (\<lambda>p.
            Inr [(''path'', PStr (pl_text fs p)), (''ref'', PStr ref)]))
      | _ \<Rightarrow> MissingBinding)"

definition MAX_PATTERN_BYTES :: nat where "MAX_PATTERN_BYTES = 512"

definition search_text_adapter :: "path_lib \<Rightarrow> path_scope \<Rightarrow> string \<Rightarrow> (string, pyval) odict \<Rightarrow> adapter_result" where
  "search_text_adapter fs scope input_hint bindings =
     (case dict_get bindings input_hint of
        Some (PDict request) \<Rightarrow>
          (case (dict_item request ''root_ref'', dict_item request ''pattern'') of
             (PStr ref, PStr pattern) \<Rightarrow>
               if pattern = [] then MissingBinding
               else if MAX_PATTERN_BYTES < length pattern \<or> list_ex (\<lambda>c. (of_char c :: nat) < 32) pattern
               then AdapterRaised (runtime_exc ''invalid_arguments'')
               else adapter_of (rbind (resolve_root fs scope ref) (\<lambda>p.
                 Inr [(''root'', PStr (pl_text fs p)), (''root_ref'', PStr ref), (''pattern'', PStr pattern)]))
           | _ \<Rightarrow> MissingBinding)
      | _ \<Rightarrow> MissingBinding)"

definition scope_adapters :: "path_lib \<Rightarrow> path_scope \<Rightarrow> adapters" where
  "scope_adapters fs scope =
     [(''read_file'', read_file_adapter fs scope), (''search_text'', search_text_adapter fs scope)]"

section \<open>Confinement\<close>

text \<open>The resolved path lies under the resolution of one of the roots of the scope.\<close>

definition confined :: "path_lib \<Rightarrow> path_scope \<Rightarrow> path \<Rightarrow> bool" where
  "confined fs scope p \<longleftrightarrow>
     (\<exists>ref base q. (ref, base) \<in> set (ps_roots scope) \<and> pl_resolve fs base = Inr q \<and> is_relative_to p q)"

lemma resolve_in_Inr:
  "resolve_in fs candidate base = Inr p \<longleftrightarrow>
     (\<exists>q. pl_resolve fs base = Inr q \<and> pl_resolve fs candidate = Inr p \<and> is_relative_to p q)"
  by (auto simp: resolve_in_def resolve_strict_def split: sum.splits if_splits)

lemma owning_root_mem: "owning_root fs scope c = Inr base \<Longrightarrow> \<exists>ref. (ref, base) \<in> set (ps_roots scope)"
  by (force simp: owning_root_def split: option.splits dest: min_by_mem)

lemma resolve_file_confined: "resolve_file fs scope ref = Inr p \<Longrightarrow> confined fs scope p"
  unfolding resolve_file_def confined_def
  by (auto simp: resolve_in_Inr split: option.splits dest!: owning_root_mem)

lemma resolve_root_confined: "resolve_root fs scope ref = Inr p \<Longrightarrow> confined fs scope p"
  unfolding resolve_root_def confined_def
  by (auto simp: resolve_in_Inr split: option.splits dest!: map_of_SomeD)

lemma adapter_compiled [simp]: "adapter_of r = Compiled native \<longleftrightarrow> r = Inr native"
  by (cases r) (simp_all add: adapter_of_def)

lemma read_file_native:
  assumes "read_file_adapter fs scope hint bindings = Compiled native"
  shows "\<exists>p. confined fs scope p \<and> dict_get native ''path'' = Some (PStr (pl_text fs p))"
  using assms by (auto simp: read_file_adapter_def split: option.splits pyval.splits dest!: resolve_file_confined)

lemma search_text_native:
  assumes "search_text_adapter fs scope hint bindings = Compiled native"
  shows "\<exists>p pattern. confined fs scope p \<and> dict_get native ''root'' = Some (PStr (pl_text fs p)) \<and>
    dict_get native ''pattern'' = Some (PStr pattern) \<and> pattern \<noteq> [] \<and> length pattern \<le> MAX_PATTERN_BYTES"
  using assms
  by (auto simp: search_text_adapter_def split: option.splits pyval.splits if_splits dest!: resolve_root_confined)

lemma frozen_text:
  assumes "dict_get native k = Some (PStr s)"
  shows "dict_get (map (\<lambda>kv. (fst kv, freeze (snd kv))) native) k = Some (PStr s)"
  using assms by (induction native) (auto split: if_splits)

lemma compile_native:
  assumes "compile lib catalog adapters r t digest bindings intent = Inr call"
  shows "\<exists>adapter hint native. dict_get adapters (cc_tool_id call) = Some adapter \<and> adapter hint bindings = Compiled native \<and>
    cc_native_arguments call = map (\<lambda>kv. (fst kv, freeze (snd kv))) native"
  using assms unfolding compile_def
  by (auto simp: mk_CompiledToolCall_def mapping_field_def Let_def split: option.splits if_splits adapter_result.splits) blast


section \<open>A concrete scope\<close>

definition demo_paths :: path_lib where
  "demo_paths = \<lparr>pl_absolute = (\<lambda>p. p), pl_resolve = (\<lambda>p. Inr p), pl_text = concat\<rparr>"

definition demo_scope :: path_scope where
  "demo_scope = \<lparr>ps_roots = [(''r'', [''srv''])], ps_files = [(''f'', [''srv'', ''notes''])]\<rparr>"

definition demo_hash :: agent_lib where
  "demo_hash = \<lparr>lb_dumps = (\<lambda>_. ''j''), lb_decode = (\<lambda>_. None), lb_utc = (\<lambda>_. Some True), lb_sha256 = (\<lambda>_. ''0''),
     lb_attr = (\<lambda>_. False)\<rparr>"

definition demo_revision :: ToolRevision where
  "demo_revision = \<lparr>rv_version = ''1'', rv_semantic_schema = [], rv_native_input_schema = [], rv_native_output_schema = [],
     rv_compiler_revision = ''c'', rv_effect_class = ReadOnly, rv_permission_policy_id = ''p'', rv_scope_policy_id = ''s'',
     rv_default_flow_policy = VerifyThenReplan, rv_timeout_ms = 1, rv_result_byte_cap = 1, rv_result_token_cap = 1,
     rv_retry_scope = RetryNever\<rparr>"

definition demo_catalog :: tool_catalog where
  "demo_catalog = \<lparr>tc_tools = [(''read_file'', \<lparr>td_tool_id = ''read_file'', td_revision = demo_revision, td_description = ''d''\<rparr>)],
     tc_digest = ''sha256:0''\<rparr>"

definition demo_intent :: ToolIntent where
  "demo_intent = \<lparr>ti_action = CallTool, ti_tool_id = Some ''read_file'', ti_objective = Some ''look'',
     ti_input_hint = Some ''target_ref'', ti_message = None\<rparr>"

definition demo_compiled :: "agent_exc + CompiledToolCall" where
  "demo_compiled = compile demo_hash demo_catalog (scope_adapters demo_paths demo_scope) ''run'' ''t1'' (tc_digest demo_catalog)
     [(''target_ref'', PStr ''f'')] demo_intent"


end
