(* ===== verification/AgentService.thy ===== *)
theory AgentService
  imports AgentTools
begin

text \<open>
  \<open>agent_runtime/service.py\<close>: one turn of an agent run. The world is the event store, the executor
  and the artifact files; every step threads it and stops at the first exception, as the source
  does. The inference port, the clock, the tool adapters, the file system and the text functions of
  the standard library are the fields of \<open>agent_service\<close>.
\<close>

section \<open>State\<close>

record agent_world =
  aw_store :: event_store
  aw_executor :: executor
  aw_artifacts :: artifacts

record agent_service =
  sv_lib :: agent_lib
  sv_catalog :: tool_catalog
  sv_infer :: "DecisionRequest \<Rightarrow> agent_exc + DecisionResponse"
  sv_adapters :: adapters
  sv_text :: text_lib
  sv_env :: exec_env
  sv_observation_cap :: nat
  sv_now :: "int \<Rightarrow> string"
  sv_late_at_start :: "string \<Rightarrow> agent_exc + bool"
  sv_late_at_gate :: "string \<Rightarrow> agent_exc + bool"

record AtomicTask =
  tk_objective :: string
  tk_acceptance_criteria :: "string list"
  tk_state_refs :: "(string, string) odict"
  tk_bindings :: "(string, pyval) odict"
  tk_acceptance :: "(string, string) odict"

record TurnContext =
  tn_run_id :: string
  tn_turn_id :: string
  tn_inference_request_id :: string
  tn_inference_attempt_id :: string
  tn_role :: string
  tn_tenant_id :: string
  tn_deadline_utc :: "string option"

type_synonym 'a svc = "agent_world \<Rightarrow> (agent_exc + 'a) \<times> agent_world"

definition sbind :: "'a svc \<Rightarrow> ('a \<Rightarrow> 'b svc) \<Rightarrow> 'b svc" where
  "sbind m f w = (case m w of (Inl err, w') \<Rightarrow> (Inl err, w') | (Inr x, w') \<Rightarrow> f x w')"

definition lift :: "agent_exc + 'a \<Rightarrow> 'a svc" where
  "lift r w = (r, w)"

lemma sbind_Inr:
  "sbind m f w = (Inr y, w') \<longleftrightarrow> (\<exists>x w1. m w = (Inr x, w1) \<and> f x w1 = (Inr y, w'))"
  by (auto simp: sbind_def split: prod.splits sum.splits)

lemma lift_eq [simp]: "lift r w = (x, w') \<longleftrightarrow> r = x \<and> w' = w"
  by (auto simp: lift_def)

section \<open>Durable records\<close>

definition state_of :: "agent_service \<Rightarrow> string \<Rightarrow> AgentRunState svc" where
  "state_of sv run_id w =
     (rbind (load_events (sv_lib sv) run_id (aw_store w)) (replay (lb_attr (sv_lib sv)) run_id), w)"

definition store_append :: "agent_service \<Rightarrow> string \<Rightarrow> int \<Rightarrow> AgentEvent list \<Rightarrow> int svc" where
  "store_append sv run_id version events w =
     (let r = append_events (sv_lib sv) run_id version events (aw_store w) in (fst r, w\<lparr>aw_store := snd r\<rparr>))"

definition event_identity :: "AgentRunState \<Rightarrow> event_kind \<Rightarrow> payload \<Rightarrow> payload" where
  "event_identity s kind p = [(''run_id'', PStr (rs_run_id s)), (''sequence'', PInt (rs_version s + 1)),
     (''kind'', PStr (kind_name kind)), (''payload'', PDict p)]"

definition append_plain :: "agent_service \<Rightarrow> AgentRunState \<Rightarrow> event_kind \<Rightarrow> payload \<Rightarrow> AgentRunState svc" where
  "append_plain sv s kind p =
     sbind (lift (stable_id (sv_lib sv) ''evt'' (event_identity s kind p))) (\<lambda>event_id.
     sbind (lift (mk_AgentEvent (lb_dumps (sv_lib sv)) (lb_utc (sv_lib sv)) (PStr event_id) (kind_name kind) p
                    (sv_now sv (rs_version s + 1)) 1 None)) (\<lambda>e.
     sbind (store_append sv (rs_run_id s) (rs_version s) [e]) (\<lambda>_.
       state_of sv (rs_run_id s))))"

definition append_record :: "agent_service \<Rightarrow> AgentRunState \<Rightarrow> event_kind \<Rightarrow> payload \<Rightarrow> AgentRunState svc" where
  "append_record sv s kind p =
     sbind (lift (stable_id (sv_lib sv) ''rec'' (event_identity s kind p))) (\<lambda>record_id.
       append_plain sv s kind ([(''record_version'', PStr ''h1.v1''), (''record_id'', PStr record_id)] @ p))"

fun category_name :: "budget_category \<Rightarrow> string" where
  "category_name Turns = ''turns''"
| "category_name InferenceTokens = ''inference_tokens''"
| "category_name InferenceMs = ''inference_ms''"
| "category_name ToolCalls = ''tool_calls''"
| "category_name ToolAttempts = ''tool_attempts''"
| "category_name ResolverCalls = ''resolver_calls''"
| "category_name Retries = ''retries''"
| "category_name ResultBytes = ''result_bytes''"
| "category_name ContextBytes = ''context_bytes''"

definition consume_budget ::
  "agent_service \<Rightarrow> AgentRunState \<Rightarrow> string \<Rightarrow> budget_category \<Rightarrow> int \<Rightarrow> AgentRunState svc" where
  "consume_budget sv s scope category amount =
     (if get_budget category (rs_budgets s) < amount then lift (Inl (runtime_exc ''budget_exhausted''))
      else sbind (lift (stable_id (sv_lib sv) ''budget'' [(''run_id'', PStr (rs_run_id s)), (''namespace'', PStr scope),
                     (''category'', PStr (category_name category))])) (\<lambda>claim_id.
        append_plain sv s BudgetConsumed
          [(''claim_id'', PStr claim_id), (''category'', PStr (category_name category)), (''amount'', PInt amount)]))"

definition check_deadline :: "agent_service \<Rightarrow> string option \<Rightarrow> unit svc" where
  "check_deadline sv deadline =
     lift (rbind (deadline_passed (sv_late_at_start sv) deadline) (\<lambda>late.
       ensure (\<not> late) (runtime_exc ''deadline_exhausted'')))"

section \<open>Tool cards\<close>

definition continuation_byte :: "char \<Rightarrow> bool" where
  "continuation_byte c \<longleftrightarrow> 128 \<le> (of_char c :: nat) \<and> (of_char c :: nat) < 192"

function (sequential) code_points :: "string \<Rightarrow> string list" where
  "code_points [] = []"
| "code_points (c # cs) = (c # takeWhile continuation_byte cs) # code_points (dropWhile continuation_byte cs)"
  by pat_completeness auto
termination by (relation "measure length") (auto simp: length_dropWhile_le le_imp_less_Suc)

text \<open>\<open>tuple(v)\<close>\<close>

definition py_tuple :: "pyval \<Rightarrow> agent_exc + pyval list" where
  "py_tuple v =
     (case v of
        PTuple vs \<Rightarrow> Inr vs
      | PList vs \<Rightarrow> Inr vs
      | PDict kvs \<Rightarrow> Inr (map (PStr \<circ> fst) kvs)
      | PStr s \<Rightarrow> Inr (map PStr (code_points s))
      | _ \<Rightarrow> Inl (AgentPyExc (TypeError ''not iterable'')))"

definition tool_card :: "agent_service \<Rightarrow> ToolDefinition \<Rightarrow> agent_exc + SemanticToolCard" where
  "tool_card sv tool =
     (let rev = td_revision tool in
      rbind (py_tuple (case dict_get (rv_semantic_schema rev) ''required'' of None \<Rightarrow> PTuple [] | Some v \<Rightarrow> v)) (\<lambda>slots.
        Inr \<lparr>sc_tool_id = td_tool_id tool, sc_version = rv_version rev, sc_description = td_description tool,
             sc_input_slots = slots, sc_effect_class = effect_value (rv_effect_class rev),
             sc_result_shape = (case dict_get (rv_native_output_schema rev) ''type'' of
                None \<Rightarrow> ''object'' | Some v \<Rightarrow> py_str (en_show (sv_env sv)) v)\<rparr>))"

definition cards_of :: "agent_service \<Rightarrow> agent_exc + SemanticToolCard list" where
  "cards_of sv = rmap (tool_card sv) (catalog_all (sv_catalog sv))"

section \<open>A turn\<close>

record turn_decision =
  tq_cards :: "SemanticToolCard list"
  tq_request :: DecisionRequest
  tq_digest :: string
  tq_intent :: ToolIntent
  tq_response :: DecisionResponse

text \<open>The checks before inference, the context and the decision itself.\<close>

definition turn_decide :: "agent_service \<Rightarrow> TurnContext \<Rightarrow> AtomicTask \<Rightarrow> agent_exc + turn_decision" where
  "turn_decide sv turn task =
     rbind (cards_of sv) (\<lambda>cards.
     rbind (build_context (sv_lib sv) ''atomic-tool-decision.v1'' (tk_objective task) (tk_acceptance_criteria task)
              (tk_state_refs task) cards (tc_digest (sv_catalog sv))) (\<lambda>dx.
     (let request = \<lparr>dr_request_id = tn_inference_request_id turn, dr_attempt_id = tn_inference_attempt_id turn,
            dr_context = dx_context dx, dr_output_schema = dx_schema dx, dr_context_digest = dx_digest dx,
            dr_catalog_digest = tc_digest (sv_catalog sv)\<rparr> in
      rbind (decide (sv_lib sv) (sv_infer sv) request (tc_digest (sv_catalog sv))) (\<lambda>ir.
        Inr \<lparr>tq_cards = cards, tq_request = request, tq_digest = dx_digest dx, tq_intent = fst ir,
             tq_response = snd ir\<rparr>))))"

definition turn_start :: "agent_service \<Rightarrow> TurnContext \<Rightarrow> AgentRunState svc" where
  "turn_start sv turn =
     sbind (state_of sv (tn_run_id turn)) (\<lambda>s.
       if rs_lifecycle s \<noteq> RunDeciding then lift (Inl (runtime_exc ''illegal_state''))
       else sbind (check_deadline sv (tn_deadline_utc turn)) (\<lambda>_.
         if bd_turns (rs_budgets s) < 1 then lift (Inl (runtime_exc ''budget_exhausted''))
         else lift (Inr s)))"

text \<open>An amount of zero is not charged.\<close>

definition charge_unless_zero ::
  "agent_service \<Rightarrow> AgentRunState \<Rightarrow> string \<Rightarrow> budget_category \<Rightarrow> int \<Rightarrow> AgentRunState svc" where
  "charge_unless_zero sv s scope category amount =
     (if amount = 0 then lift (Inr s) else consume_budget sv s scope category amount)"

definition record_decision :: "agent_service \<Rightarrow> TurnContext \<Rightarrow> turn_decision \<Rightarrow> AgentRunState \<Rightarrow> AgentRunState svc" where
  "record_decision sv turn q s =
     (let response = tq_response q; attempt = dr_attempt_id (tq_request q); catalog = tc_digest (sv_catalog sv) in
      sbind (append_record sv s InferenceCompleted
         [(''request_id'', PStr (dr_request_id (tq_request q))), (''attempt_id'', PStr attempt),
          (''context_digest'', PStr (tq_digest q)), (''tool_catalog_digest'', PStr catalog),
          (''input_tokens'', PInt (dp_input_tokens response)), (''output_tokens'', PInt (dp_output_tokens response)),
          (''inference_ms'', PInt (dp_inference_ms response))]) (\<lambda>s.
      sbind (consume_budget sv s (tn_turn_id turn) Turns 1) (\<lambda>s.
      sbind (charge_unless_zero sv s attempt InferenceTokens (dp_input_tokens response + dp_output_tokens response)) (\<lambda>s.
      sbind (charge_unless_zero sv s attempt InferenceMs (dp_inference_ms response)) (\<lambda>s.
      append_record sv s DecisionRecorded
         [(''turn_id'', PStr (tn_turn_id turn)), (''action'', PStr (action_value (ti_action (tq_intent q)))),
          (''tool_id'', opt_str (ti_tool_id (tq_intent q))), (''input_hint'', opt_str (ti_input_hint (tq_intent q))),
          (''tool_catalog_digest'', PStr catalog), (''context_digest'', PStr (tq_digest q))])))))"

definition handle_non_tool ::
  "agent_service \<Rightarrow> AgentRunState \<Rightarrow> DecisionAction \<Rightarrow> string \<Rightarrow> AcceptanceVerdict svc" where
  "handle_non_tool sv s action message =
     (if action = AskUser then
        sbind (append_plain sv s RunTransition [(''target'', PStr ''waiting_user''), (''reason'', PStr message)]) (\<lambda>_.
          lift (Inr \<lparr>av_accepted = False, av_reason = ''waiting for user''\<rparr>))
      else if action = DecideBlocked then
        sbind (append_plain sv s RunTransition [(''target'', PStr ''blocked''), (''reason'', PStr message)]) (\<lambda>_.
          lift (Inr \<lparr>av_accepted = False, av_reason = ''model proposed blocked; code terminalized''\<rparr>))
      else
        (let verdict = \<lparr>av_accepted = False, av_reason = ''submit has no deterministic tool evidence''\<rparr> in
         sbind (append_record sv s AcceptanceDecided [(''accepted'', PBool False), (''authority'', PStr ''acceptance_gate''),
                  (''reason'', PStr (av_reason verdict))]) (\<lambda>s.
         sbind (append_plain sv s RunTransition [(''target'', PStr ''blocked''), (''authority'', PStr ''acceptance_gate'')]) (\<lambda>_.
           lift (Inr verdict)))))"

definition compiler_revision_of :: "agent_service \<Rightarrow> string \<Rightarrow> agent_exc + string" where
  "compiler_revision_of sv tool_id =
     (case catalog_get (sv_catalog sv) tool_id of
        None \<Rightarrow> Inl (AgentPyExc (KeyErr tool_id))
      | Some tool \<Rightarrow> Inr (rv_compiler_revision (td_revision tool)))"

definition invocation_to :: "agent_service \<Rightarrow> AgentRunState \<Rightarrow> string \<Rightarrow> string \<Rightarrow> AgentRunState svc" where
  "invocation_to sv s iid target =
     append_plain sv s ToolTransition [(''invocation_id'', PStr iid), (''target'', PStr target)]"

definition propose_call ::
  "agent_service \<Rightarrow> CompiledToolCall \<Rightarrow> AgentRunState \<Rightarrow> AgentRunState svc" where
  "propose_call sv call s =
     sbind (append_plain sv s RunTransition [(''target'', PStr ''waiting_tool'')]) (\<lambda>s.
     sbind (append_plain sv s ToolProposedEv [(''action_id'', PStr (cc_action_id call)),
              (''invocation_id'', PStr (cc_invocation_id call)), (''tool_catalog_digest'', PStr (tc_digest (sv_catalog sv)))]) (\<lambda>s.
     sbind (lift (arguments_digest (sv_lib sv) (cc_native_arguments call))) (\<lambda>args.
     sbind (lift (compiler_revision_of sv (cc_tool_id call))) (\<lambda>revision.
     sbind (append_record sv s ArgumentsCompiled [(''invocation_id'', PStr (cc_invocation_id call)),
              (''action_id'', PStr (cc_action_id call)), (''arguments_digest'', PStr args), (''compiler_revision'', PStr revision)]) (\<lambda>s.
       invocation_to sv s (cc_invocation_id call) ''args_ready'')))))"

definition gate_call ::
  "agent_service \<Rightarrow> TurnContext \<Rightarrow> turn_decision \<Rightarrow> CompiledToolCall \<Rightarrow> AgentRunState \<Rightarrow> AgentRunState svc" where
  "gate_call sv turn q call s =
     sbind (lift (authorize (sv_late_at_gate sv) call
              \<lparr>px_allowed_tools = map sc_tool_id (tq_cards q), px_catalog_digest = tc_digest (sv_catalog sv),
               px_expected_catalog_digest = dr_catalog_digest (tq_request q), px_deadline_utc = tn_deadline_utc turn,
               px_tainted = False\<rparr>)) (\<lambda>auth.
     sbind (lift (arguments_digest (sv_lib sv) (cc_native_arguments call))) (\<lambda>args.
     sbind (append_record sv s AuthorizationRecorded [(''invocation_id'', PStr (cc_invocation_id call)),
              (''decision'', PStr (auth_value (ar_decision auth))), (''policy_id'', PStr (ar_policy_id auth)),
              (''arguments_digest'', PStr args), (''idempotency_key'', PStr (cc_idempotency_key call))]) (\<lambda>s.
       if ar_decision auth = AuthAllow then invocation_to sv s (cc_invocation_id call) ''authorized''
       else if ar_decision auth = AuthRequireApproval
       then sbind (invocation_to sv s (cc_invocation_id call) ''waiting_approval'') (\<lambda>_. lift (Inl (runtime_exc ''approval_required'')))
       else sbind (invocation_to sv s (cc_invocation_id call) ''denied'') (\<lambda>_. lift (Inl (runtime_exc ''permission_denied''))))))"

definition dispatch_call :: "agent_service \<Rightarrow> CompiledToolCall \<Rightarrow> AgentRunState \<Rightarrow> AgentRunState svc" where
  "dispatch_call sv call s =
     sbind (consume_budget sv s (cc_invocation_id call) ToolCalls 1) (\<lambda>s.
     sbind (lift (stable_id (sv_lib sv) ''toolatt'' [(''invocation_id'', PStr (cc_invocation_id call)), (''attempt'', PInt 1)])) (\<lambda>attempt.
     sbind (append_record sv s DispatchStarted [(''invocation_id'', PStr (cc_invocation_id call)), (''attempt_id'', PStr attempt),
              (''idempotency_key'', PStr (cc_idempotency_key call)), (''effect_class'', PStr (effect_value (cc_effect_class call))),
              (''side_effect_state'', PStr (side_effect_value EffectNotDispatched))]) (\<lambda>s.
     sbind (invocation_to sv s (cc_invocation_id call) ''dispatched'') (\<lambda>s.
       consume_budget sv s (cc_invocation_id call) ToolAttempts 1))))"

text \<open>The executor; an error of the runtime becomes a failed or unknown result, others escape.\<close>

definition run_executor :: "agent_service \<Rightarrow> CompiledToolCall \<Rightarrow> RawToolResult svc" where
  "run_executor sv call w =
     (let r = execute (sv_env sv) call (aw_executor w) in
      ((case fst r of
          Inr raw \<Rightarrow> Inr raw
        | Inl (ExecPy err) \<Rightarrow> Inl (AgentPyExc err)
        | Inl (ExecError code message) \<Rightarrow>
            (let unknown = starts_with ''post_dispatch'' code in
             Inr \<lparr>rr_invocation_id = cc_invocation_id call,
                  rr_status = (if unknown then ToolUnknownOutcome else ToolFailed), rr_payload = [], rr_summary = message,
                  rr_side_effect_state = (if unknown then EffectUnknown else EffectNone), rr_error_code = Some code,
                  rr_truncated = False\<rparr>)),
       w\<lparr>aw_executor := snd r\<rparr>))"

definition normalize_result :: "agent_service \<Rightarrow> CompiledToolCall \<Rightarrow> RawToolResult \<Rightarrow> ToolResultEnvelope svc" where
  "normalize_result sv call raw w =
     (let r = normalize (sv_lib sv) (sv_text sv) (sv_observation_cap sv) raw (cc_tool_id call) (cc_tool_version call) (aw_artifacts w) in
      (fst r, w\<lparr>aw_artifacts := snd r\<rparr>))"

definition accept_result ::
  "agent_service \<Rightarrow> AtomicTask \<Rightarrow> CompiledToolCall \<Rightarrow> ToolResultEnvelope \<Rightarrow> AgentRunState \<Rightarrow> AgentRunState svc" where
  "accept_result sv task call result s =
     (let verdict = evaluate result (tk_acceptance task) in
      sbind (append_record sv s AcceptanceDecided [(''accepted'', PBool (av_accepted verdict)),
               (''authority'', PStr ''acceptance_gate''), (''invocation_id'', PStr (cc_invocation_id call)),
               (''reason'', PStr (av_reason verdict))]) (\<lambda>s.
        append_plain sv s RunTransition [(''target'', PStr (if av_accepted verdict then ''succeeded'' else ''blocked'')),
          (''authority'', PStr ''acceptance_gate'')]))"

definition record_outcome ::
  "agent_service \<Rightarrow> AtomicTask \<Rightarrow> CompiledToolCall \<Rightarrow> ToolResultEnvelope \<Rightarrow> AgentRunState \<Rightarrow> AgentRunState svc" where
  "record_outcome sv task call result s =
     (let transition = flow_decide result True in
     sbind (append_record sv s ResultRecorded [(''invocation_id'', PStr (cc_invocation_id call)),
              (''status'', PStr (tool_value (tr_status result))), (''data_ref'', opt_str (tr_data_ref result)),
              (''data_hash'', opt_str (tr_data_hash result)), (''truncated'', PBool (tr_truncated result)),
              (''side_effect_state'', PStr (side_effect_value (tr_side_effect_state result)))]) (\<lambda>s.
     sbind (invocation_to sv s (cc_invocation_id call) (tool_value (tr_status result))) (\<lambda>s.
     sbind (append_plain sv s RunTransition [(''target'', PStr ''observing'')]) (\<lambda>s.
     sbind (append_record sv s FlowDecided [(''invocation_id'', PStr (cc_invocation_id call)),
              (''policy'', PStr (policy_value (ft_policy transition))),
              (''target'', PStr (run_value (ft_next_lifecycle transition)))]) (\<lambda>s.
     sbind (append_plain sv s RunTransition [(''target'', PStr (run_value (ft_next_lifecycle transition)))]) (\<lambda>s.
       if ft_next_lifecycle transition = RunVerifying then accept_result sv task call result s
       else lift (Inr s)))))))"

definition finish_turn ::
  "agent_service \<Rightarrow> AtomicTask \<Rightarrow> CompiledToolCall \<Rightarrow> RawToolResult \<Rightarrow> AgentRunState \<Rightarrow> ToolResultEnvelope svc" where
  "finish_turn sv task call raw s =
     sbind (normalize_result sv call raw) (\<lambda>result.
     sbind (record_outcome sv task call result s) (\<lambda>_. lift (Inr result)))"

datatype turn_plan = CallReady CompiledToolCall AgentRunState | TurnOver AcceptanceVerdict

text \<open>The turn up to the line before the executor is called.\<close>

definition prepare_turn :: "agent_service \<Rightarrow> TurnContext \<Rightarrow> AtomicTask \<Rightarrow> turn_plan svc" where
  "prepare_turn sv turn task =
     sbind (turn_start sv turn) (\<lambda>s.
     sbind (lift (turn_decide sv turn task)) (\<lambda>q.
     sbind (record_decision sv turn q s) (\<lambda>s.
       if ti_action (tq_intent q) \<noteq> CallTool
       then sbind (handle_non_tool sv s (ti_action (tq_intent q))
                     (case ti_message (tq_intent q) of None \<Rightarrow> [] | Some m \<Rightarrow> m)) (\<lambda>v. lift (Inr (TurnOver v)))
       else
         sbind (lift (compile (sv_lib sv) (sv_catalog sv) (sv_adapters sv) (tn_run_id turn) (tn_turn_id turn)
                  (tc_digest (sv_catalog sv)) (tk_bindings task) (tq_intent q))) (\<lambda>call.
         sbind (propose_call sv call s) (\<lambda>s.
         sbind (gate_call sv turn q call s) (\<lambda>s.
         sbind (dispatch_call sv call s) (\<lambda>s.
           lift (Inr (CallReady call s)))))))))"

datatype turn_outcome = TurnResult ToolResultEnvelope | TurnVerdict AcceptanceVerdict

definition execute_turn :: "agent_service \<Rightarrow> TurnContext \<Rightarrow> AtomicTask \<Rightarrow> turn_outcome svc" where
  "execute_turn sv turn task =
     sbind (prepare_turn sv turn task) (\<lambda>plan.
       case plan of
         TurnOver verdict \<Rightarrow> lift (Inr (TurnVerdict verdict))
       | CallReady call s \<Rightarrow>
           sbind (run_executor sv call) (\<lambda>raw.
           sbind (finish_turn sv task call raw s) (\<lambda>result. lift (Inr (TurnResult result)))))"

definition recover :: "agent_service \<Rightarrow> string \<Rightarrow> string svc" where
  "recover sv run_id =
     sbind (state_of sv run_id) (\<lambda>s.
       lift (Inr (if \<not> rs_dispatched_invocations s \<subseteq> rs_terminal_results s then ''reconcile_only''
                  else if rs_lifecycle s \<in> {RunDeciding, RunReady} then ''safe_retry''
                  else ''terminal_or_paused'')))"

end
