(* ===== verification/AgentTurn.thy ===== *)
theory AgentTurn
  imports AgentService
begin

text \<open>
  What a turn of the agent service leaves behind. The rows of the event store are the durable log;
  the theorems say which records a turn writes, in which order, and that no tool is executed
  before the records that allow it are written.
\<close>

section \<open>A calculus of steps\<close>

text \<open>
  Steps that move the world along a preorder whatever their outcome, and steps whose successful
  outcome extends a trace. Both compose along \<^const>\<open>sbind\<close>.
\<close>

locale world_order =
  fixes R :: "agent_world \<Rightarrow> agent_world \<Rightarrow> bool"
  assumes refl: "R w w"
    and trans: "R u v \<Longrightarrow> R v w \<Longrightarrow> R u w"
begin

definition moves :: "'a svc \<Rightarrow> bool" where
  "moves m \<longleftrightarrow> (\<forall>w. R w (snd (m w)))"

lemma moves_lift [intro]: "moves (lift r)"
  by (simp add: moves_def lift_def refl)

lemma moves_sbind:
  assumes "moves m" and "\<And>x. moves (f x)"
  shows "moves (sbind m f)"
  unfolding moves_def
proof
  fix w
  have "R w (snd (m w))" "\<And>x v. R v (snd (f x v))" using assms by (simp_all add: moves_def)
  then show "R w (snd (sbind m f w))"
    by (cases "m w"; cases "fst (m w)") (auto simp: sbind_def intro: trans)
qed

lemma moves_if: "moves m \<Longrightarrow> moves n \<Longrightarrow> moves (if b then m else n)"
  by simp

lemma moves_result: "moves m \<Longrightarrow> m w = (x, w') \<Longrightarrow> R w w'"
  by (metis moves_def snd_conv)

end

locale trace_order =
  fixes L :: "'ev list \<Rightarrow> agent_world \<Rightarrow> agent_world \<Rightarrow> bool" and run :: string
  assumes none: "L [] w w"
    and join: "L es u v \<Longrightarrow> L fs v w \<Longrightarrow> L (es @ fs) u w"
begin

text \<open>A stage returns the state of the run it was given and writes \<open>es\<close>.\<close>

definition stage :: "'ev list \<Rightarrow> AgentRunState svc \<Rightarrow> bool" where
  "stage es m \<longleftrightarrow> (\<forall>w s w'. m w = (Inr s, w') \<longrightarrow> rs_run_id s = run \<and> L es w w')"

lemma stageI: "(\<And>w s w'. m w = (Inr s, w') \<Longrightarrow> rs_run_id s = run \<and> L es w w') \<Longrightarrow> stage es m"
  by (simp add: stage_def)

lemma stageD: "stage es m \<Longrightarrow> m w = (Inr s, w') \<Longrightarrow> rs_run_id s = run \<and> L es w w'"
  by (simp add: stage_def)

lemma stage_return: "rs_run_id s = run \<Longrightarrow> stage [] (lift (Inr s))"
  by (auto simp: stage_def none)

lemma stage_fail: "stage es (lift (Inl err))"
  by (simp add: stage_def)

lemma stage_lift: "(\<And>x. r = Inr x \<Longrightarrow> stage es (f x)) \<Longrightarrow> stage es (sbind (lift r) f)"
  by (auto simp: stage_def sbind_Inr)

lemma stage_sbind:
  assumes "stage es m" and "\<And>s. rs_run_id s = run \<Longrightarrow> stage fs (f s)"
  shows "stage (es @ fs) (sbind m f)"
  using assms join by (auto simp: stage_def sbind_Inr) blast+

lemma stage_then_fail: "stage es (sbind m (\<lambda>_. lift (Inl err)))"
  by (auto simp: stage_def sbind_Inr)

end

section \<open>Rows written by an append\<close>

text \<open>
  A pattern is a predicate on rows: \<open>plain_row\<close> for an event with the given payload, \<open>record_row\<close> for
  a record, whose payload is preceded by a version and a record id, and \<open>charge_row\<close> for the
  consumption of a budget under some claim.
\<close>

type_synonym row_pattern = "event_row \<Rightarrow> bool"

definition plain_row :: "agent_lib \<Rightarrow> string \<Rightarrow> event_kind \<Rightarrow> payload \<Rightarrow> row_pattern" where
  "plain_row lib r k p row \<longleftrightarrow>
     rw_run_id row = r \<and> rw_kind row = kind_name k \<and> rw_payload_json row = lb_dumps lib (PDict p)"

definition record_row :: "agent_lib \<Rightarrow> string \<Rightarrow> event_kind \<Rightarrow> payload \<Rightarrow> row_pattern" where
  "record_row lib r k p row \<longleftrightarrow>
     (\<exists>rid. plain_row lib r k ([(''record_version'', PStr ''h1.v1''), (''record_id'', PStr rid)] @ p) row)"

definition charge_row :: "agent_lib \<Rightarrow> string \<Rightarrow> budget_category \<Rightarrow> int \<Rightarrow> row_pattern" where
  "charge_row lib r c n row \<longleftrightarrow>
     (\<exists>claim. plain_row lib r BudgetConsumed
        [(''claim_id'', PStr claim), (''category'', PStr (category_name c)), (''amount'', PInt n)] row)"

definition logged :: "row_pattern list \<Rightarrow> agent_world \<Rightarrow> agent_world \<Rightarrow> bool" where
  "logged ps w w' \<longleftrightarrow>
     (\<exists>new. es_rows (aw_store w') = es_rows (aw_store w) @ new \<and> list_all2 (\<lambda>P row. P row) ps new) \<and>
     aw_executor w' = aw_executor w \<and> aw_artifacts w' = aw_artifacts w"

definition log_grows :: "agent_world \<Rightarrow> agent_world \<Rightarrow> bool" where
  "log_grows w w' \<longleftrightarrow> (\<exists>new. es_rows (aw_store w') = es_rows (aw_store w) @ new)"

definition no_tool :: "agent_world \<Rightarrow> agent_world \<Rightarrow> bool" where
  "no_tool w w' \<longleftrightarrow> log_grows w w' \<and> aw_executor w' = aw_executor w \<and> aw_artifacts w' = aw_artifacts w"

interpretation lg: world_order log_grows
  by unfold_locales (auto simp: log_grows_def)

interpretation nt: world_order no_tool
  by unfold_locales (auto simp: no_tool_def log_grows_def)

interpretation tl: trace_order logged r for r
proof
  show "logged [] w w" for w by (simp add: logged_def)
  show "logged (es @ fs) u w" if "logged es u v" "logged fs v w" for es fs u v w
    using that unfolding logged_def by (auto intro: list_all2_appendI)
qed

lemma append_rows: "\<exists>new. es_rows (snd (append_events lib r n evs st)) = es_rows st @ new"
  unfolding append_events_def
  by (auto dest: insert_rows_Some split: sum.splits if_splits option.splits agent_exc.splits)

lemma replay_run_id: "replay attr r es = Inr s \<Longrightarrow> rs_run_id s = r"
proof (induction rule: replay_induct)
  case (Created e s)
  then show ?case by (simp add: created_fields)
next
  case (Step es e s t)
  from Step.hyps(4) Step.IH show ?case
    by (cases rule: apply_event_kinds)
       (auto simp: run_transition_Inr tool_proposed_Inr tool_transition_Inr budget_consumed_Inr dest: h1_record_Inr)
qed

lemma state_of_run: "state_of sv r w = (Inr s, w') \<Longrightarrow> w' = w \<and> rs_run_id s = r"
  by (auto simp: state_of_def dest: replay_run_id)

lemma nt_state [intro]: "nt.moves (state_of sv r)"
  by (simp add: nt.moves_def state_of_def nt.refl)

lemma nt_append [intro]: "nt.moves (append_plain sv s k p)"
proof -
  have "nt.moves (store_append sv r n es)" for r n es
    using append_rows by (simp add: nt.moves_def store_append_def no_tool_def log_grows_def Let_def)
  then show ?thesis unfolding append_plain_def by (intro nt.moves_sbind nt.moves_lift nt_state)
qed

lemma nt_record [intro]: "nt.moves (append_record sv s k p)"
  unfolding append_record_def by (intro nt.moves_sbind nt.moves_lift nt_append)

lemma nt_consume [intro]: "nt.moves (consume_budget sv s scope c n)"
  unfolding consume_budget_def by (intro nt.moves_if nt.moves_sbind nt.moves_lift nt_append)

lemma stage_plain:
  assumes run: "rs_run_id s = r"
  shows "tl.stage r [plain_row (sv_lib sv) r k p] (append_plain sv s k p)"
proof (rule tl.stageI)
  fix w t w'
  assume "append_plain sv s k p w = (Inr t, w')"
  then obtain event_id e v w1 where
      e: "mk_AgentEvent (lb_dumps (sv_lib sv)) (lb_utc (sv_lib sv)) (PStr event_id) (kind_name k) p
            (sv_now sv (rs_version s + 1)) 1 None = Inr e"
    and w1: "store_append sv r (rs_version s) [e] w = (Inr v, w1)" and t: "state_of sv r w1 = (Inr t, w')"
    unfolding append_plain_def sbind_Inr using run by auto
  have ev: "ev_kind e = k" "ev_payload e = p"
    using e by (auto simp: mk_AgentEvent_def split: if_splits option.splits bool.splits)
  have "append_events (sv_lib sv) r (rs_version s) [e] (aw_store w) = (Inr v, aw_store w1)"
    using w1 by (auto simp: store_append_def Let_def prod_eq_iff)
  then obtain rows where rows: "rows_from (sv_lib sv) r (rs_version s + 1) [e] = Inr rows"
      "aw_store w1 = (aw_store w)\<lparr>es_rows := es_rows (aw_store w) @ rows\<rparr>"
    by (rule append_Inr)
  obtain row where "rows = [row]" "event_row_of (sv_lib sv) r (rs_version s + 1) e = Inr row" using rows(1) by auto
  then have "list_all2 (\<lambda>P row. P row) [plain_row (sv_lib sv) r k p] rows"
    using event_row_Inr [of "sv_lib sv" r "rs_version s + 1" e row] ev by (simp add: plain_row_def)
  moreover have "aw_executor w1 = aw_executor w" "aw_artifacts w1 = aw_artifacts w"
    using w1 by (auto simp: store_append_def Let_def)
  ultimately show "rs_run_id t = r \<and> logged [plain_row (sv_lib sv) r k p] w w'"
    using state_of_run [OF t] rows(2) by (simp add: logged_def)
qed

lemma logged_weaken:
  assumes "logged [P] w w'" and "\<And>row. P row \<Longrightarrow> Q row"
  shows "logged [Q] w w'"
proof -
  obtain new where new: "es_rows (aw_store w') = es_rows (aw_store w) @ new" "list_all2 (\<lambda>P row. P row) [P] new"
    and same: "aw_executor w' = aw_executor w" "aw_artifacts w' = aw_artifacts w"
    using assms(1) by (auto simp: logged_def)
  obtain row where "new = [row]" "P row" using new(2) by (auto simp: list_all2_Cons1)
  then show ?thesis using assms(2) new(1) same by (simp add: logged_def)
qed

lemma stage_weaken: "tl.stage r [P] m \<Longrightarrow> (\<And>row. P row \<Longrightarrow> Q row) \<Longrightarrow> tl.stage r [Q] m"
  unfolding tl.stage_def by (blast intro: logged_weaken)

lemma stage_record:
  assumes "rs_run_id s = r"
  shows "tl.stage r [record_row (sv_lib sv) r k p] (append_record sv s k p)"
  unfolding append_record_def
  by (rule tl.stage_lift, rule stage_weaken [OF stage_plain [OF assms]]) (auto simp: record_row_def)

lemma stage_consume:
  assumes "rs_run_id s = r"
  shows "tl.stage r [charge_row (sv_lib sv) r c n] (consume_budget sv s scope c n)"
proof (cases "get_budget c (rs_budgets s) < n")
  case True
  then show ?thesis by (simp add: consume_budget_def tl.stage_fail)
next
  case False
  then show ?thesis unfolding consume_budget_def if_not_P [OF False]
    by (intro tl.stage_lift stage_weaken [OF stage_plain [OF assms]]) (auto simp: charge_row_def)
qed

lemma stage_invocation:
  "rs_run_id s = r \<Longrightarrow>
     tl.stage r [plain_row (sv_lib sv) r ToolTransition [(''invocation_id'', PStr iid), (''target'', PStr target)]]
       (invocation_to sv s iid target)"
  unfolding invocation_to_def by (rule stage_plain)

section \<open>The stages of a turn\<close>

definition charge_log :: "agent_lib \<Rightarrow> string \<Rightarrow> budget_category \<Rightarrow> int \<Rightarrow> row_pattern list" where
  "charge_log lib r c n = (if n = 0 then [] else [charge_row lib r c n])"

lemma stage_charge:
  "rs_run_id s = r \<Longrightarrow> tl.stage r (charge_log (sv_lib sv) r c n) (charge_unless_zero sv s scope c n)"
  by (simp add: charge_log_def charge_unless_zero_def tl.stage_return stage_consume)

text \<open>The records of the decision, of the proposed call, of the authorization and of the dispatch.\<close>

definition decision_log :: "agent_service \<Rightarrow> string \<Rightarrow> string \<Rightarrow> turn_decision \<Rightarrow> row_pattern list" where
  "decision_log sv r turn_id q =
     (let response = tq_response q; lib = sv_lib sv; catalog = tc_digest (sv_catalog sv) in
      [record_row lib r InferenceCompleted
         [(''request_id'', PStr (dr_request_id (tq_request q))), (''attempt_id'', PStr (dr_attempt_id (tq_request q))),
          (''context_digest'', PStr (tq_digest q)), (''tool_catalog_digest'', PStr catalog),
          (''input_tokens'', PInt (dp_input_tokens response)), (''output_tokens'', PInt (dp_output_tokens response)),
          (''inference_ms'', PInt (dp_inference_ms response))]] @
      [charge_row lib r Turns 1] @
      charge_log lib r InferenceTokens (dp_input_tokens response + dp_output_tokens response) @
      charge_log lib r InferenceMs (dp_inference_ms response) @
      [record_row lib r DecisionRecorded
         [(''turn_id'', PStr turn_id), (''action'', PStr (action_value (ti_action (tq_intent q)))),
          (''tool_id'', opt_str (ti_tool_id (tq_intent q))), (''input_hint'', opt_str (ti_input_hint (tq_intent q))),
          (''tool_catalog_digest'', PStr catalog), (''context_digest'', PStr (tq_digest q))]])"

definition proposal_log :: "agent_service \<Rightarrow> string \<Rightarrow> CompiledToolCall \<Rightarrow> string \<Rightarrow> string \<Rightarrow> row_pattern list" where
  "proposal_log sv r call args revision =
     [plain_row (sv_lib sv) r RunTransition [(''target'', PStr ''waiting_tool'')]] @
     [plain_row (sv_lib sv) r ToolProposedEv [(''action_id'', PStr (cc_action_id call)),
        (''invocation_id'', PStr (cc_invocation_id call)), (''tool_catalog_digest'', PStr (tc_digest (sv_catalog sv)))]] @
     [record_row (sv_lib sv) r ArgumentsCompiled [(''invocation_id'', PStr (cc_invocation_id call)),
        (''action_id'', PStr (cc_action_id call)), (''arguments_digest'', PStr args), (''compiler_revision'', PStr revision)]] @
     [plain_row (sv_lib sv) r ToolTransition [(''invocation_id'', PStr (cc_invocation_id call)), (''target'', PStr ''args_ready'')]]"

definition authorization_log :: "agent_service \<Rightarrow> string \<Rightarrow> CompiledToolCall \<Rightarrow> string \<Rightarrow> row_pattern list" where
  "authorization_log sv r call args =
     [record_row (sv_lib sv) r AuthorizationRecorded [(''invocation_id'', PStr (cc_invocation_id call)),
        (''decision'', PStr ''allow''), (''policy_id'', PStr ''atomic-readonly.v1''),
        (''arguments_digest'', PStr args), (''idempotency_key'', PStr (cc_idempotency_key call))]] @
     [plain_row (sv_lib sv) r ToolTransition [(''invocation_id'', PStr (cc_invocation_id call)), (''target'', PStr ''authorized'')]]"

definition dispatch_log :: "agent_service \<Rightarrow> string \<Rightarrow> CompiledToolCall \<Rightarrow> string \<Rightarrow> row_pattern list" where
  "dispatch_log sv r call attempt =
     [charge_row (sv_lib sv) r ToolCalls 1] @
     [record_row (sv_lib sv) r DispatchStarted [(''invocation_id'', PStr (cc_invocation_id call)), (''attempt_id'', PStr attempt),
        (''idempotency_key'', PStr (cc_idempotency_key call)), (''effect_class'', PStr (effect_value (cc_effect_class call))),
        (''side_effect_state'', PStr ''not_dispatched'')]] @
     [plain_row (sv_lib sv) r ToolTransition [(''invocation_id'', PStr (cc_invocation_id call)), (''target'', PStr ''dispatched'')]] @
     [charge_row (sv_lib sv) r ToolAttempts 1]"

lemma decision_stage:
  assumes "rs_run_id s = r"
  shows "tl.stage r (decision_log sv r (tn_turn_id turn) q) (record_decision sv turn q s)"
  unfolding record_decision_def decision_log_def Let_def
  by (intro tl.stage_sbind stage_record stage_consume stage_charge assms)

lemma proposal_stage:
  assumes "propose_call sv call s w = (Inr t, w')" and "rs_run_id s = r"
  shows "rs_run_id t = r \<and> (\<exists>args revision. logged (proposal_log sv r call args revision) w w')"
proof -
  obtain args where args: "arguments_digest (sv_lib sv) (cc_native_arguments call) = Inr args"
    using assms(1) unfolding propose_call_def sbind_Inr by auto
  obtain revision where rev: "compiler_revision_of sv (cc_tool_id call) = Inr revision"
    using assms(1) unfolding propose_call_def sbind_Inr by auto
  have "tl.stage r (proposal_log sv r call args revision) (propose_call sv call s)"
    unfolding propose_call_def proposal_log_def
    by (intro tl.stage_sbind tl.stage_lift stage_plain assms(2))
       (auto simp: args rev intro!: tl.stage_sbind tl.stage_lift stage_plain stage_record stage_invocation)
  then show ?thesis using tl.stageD assms(1) by blast
qed

lemma authorize_allow:
  "authorize passed call ctx = Inr a \<and> ar_decision a = AuthAllow \<longleftrightarrow>
     px_catalog_digest ctx = px_expected_catalog_digest ctx \<and> deadline_passed passed (px_deadline_utc ctx) = Inr False \<and>
     \<not> px_tainted ctx \<and> cc_tool_id call \<in> set (px_allowed_tools ctx) \<and> cc_effect_class call = ReadOnly \<and>
     a = \<lparr>ar_decision = AuthAllow, ar_reason = ''read-only scope allowed'', ar_policy_id = ''atomic-readonly.v1''\<rparr>"
  by (cases "deadline_passed passed (px_deadline_utc ctx)") (auto simp: authorize_def Let_def)

lemma gate_stage:
  assumes "gate_call sv turn q call s w = (Inr t, w')" and run: "rs_run_id s = r"
  shows "rs_run_id t = r \<and> cc_effect_class call = ReadOnly \<and> cc_tool_id call \<in> set (map sc_tool_id (tq_cards q)) \<and>
    deadline_passed (sv_late_at_gate sv) (tn_deadline_utc turn) = Inr False \<and>
    (\<exists>args. logged (authorization_log sv r call args) w w')"
proof -
  let ?ctx = "\<lparr>px_allowed_tools = map sc_tool_id (tq_cards q), px_catalog_digest = tc_digest (sv_catalog sv),
    px_expected_catalog_digest = dr_catalog_digest (tq_request q), px_deadline_utc = tn_deadline_utc turn, px_tainted = False\<rparr>"
  obtain a args where a: "authorize (sv_late_at_gate sv) call ?ctx = Inr a" "ar_decision a = AuthAllow"
    and args: "arguments_digest (sv_lib sv) (cc_native_arguments call) = Inr args"
    using assms(1) unfolding gate_call_def sbind_Inr by (auto simp: sbind_Inr split: if_splits)
  note ok = authorize_allow [THEN iffD1, OF conjI [OF a]]
  have st: "tl.stage r (authorization_log sv r call args) (gate_call sv turn q call s)"
    unfolding gate_call_def authorization_log_def
    by (rule tl.stage_lift, rule tl.stage_lift, rule tl.stage_sbind)
       (use a args ok in \<open>auto intro!: stage_invocation intro: stage_record [OF run, where k = AuthorizationRecorded, THEN stage_weaken]\<close>)
  show ?thesis using ok tl.stageD [OF st assms(1)] by auto
qed

lemma dispatch_stage:
  assumes "dispatch_call sv call s w = (Inr t, w')" and "rs_run_id s = r"
  shows "rs_run_id t = r \<and> (\<exists>attempt. logged (dispatch_log sv r call attempt) w w')"
proof -
  obtain attempt where att:
    "stable_id (sv_lib sv) ''toolatt'' [(''invocation_id'', PStr (cc_invocation_id call)), (''attempt'', PInt 1)] = Inr attempt"
    using assms(1) unfolding dispatch_call_def sbind_Inr by auto
  have "tl.stage r (dispatch_log sv r call attempt) (dispatch_call sv call s)"
    unfolding dispatch_call_def dispatch_log_def
    by (rule tl.stage_sbind [OF stage_consume [OF assms(2)]], rule tl.stage_lift)
       (use att in \<open>auto intro!: tl.stage_sbind stage_record stage_invocation stage_consume
          simp del: append.simps simp: append_Cons [symmetric]\<close>)
  then show ?thesis using tl.stageD assms(1) by blast
qed

lemmas nt_intros = nt.moves_if nt.moves_sbind nt.moves_lift nt_state nt_append nt_record nt_consume

lemma nt_prepare: "nt.moves (prepare_turn sv turn task)"
proof -
  have "nt.moves (turn_start sv turn)" "nt.moves (record_decision sv turn q s)"
    "nt.moves (handle_non_tool sv s action message)" "nt.moves (propose_call sv call s)"
    "nt.moves (gate_call sv turn q call s)" "nt.moves (dispatch_call sv call s)" for q s action message call
    unfolding turn_start_def check_deadline_def record_decision_def charge_unless_zero_def handle_non_tool_def
      propose_call_def gate_call_def dispatch_call_def invocation_to_def Let_def
    by (intro nt_intros)+
  then show ?thesis unfolding prepare_turn_def by (intro nt_intros)
qed

lemma handle_non_tool_verdict: "handle_non_tool sv s action message w = (Inr v, w') \<Longrightarrow> \<not> av_accepted v"
  by (auto simp: handle_non_tool_def Let_def sbind_Inr split: if_splits)

lemma turn_start_Inr:
  assumes "turn_start sv turn w = (Inr s, w')"
  shows "w' = w \<and> rs_run_id s = tn_run_id turn \<and> rs_lifecycle s = RunDeciding \<and> 1 \<le> bd_turns (rs_budgets s) \<and>
    state_of sv (tn_run_id turn) w = (Inr s, w) \<and> deadline_passed (sv_late_at_start sv) (tn_deadline_utc turn) = Inr False"
proof -
  obtain s1 w1 where s1: "state_of sv (tn_run_id turn) w = (Inr s1, w1)"
    and rest: "(if rs_lifecycle s1 \<noteq> RunDeciding then lift (Inl (runtime_exc ''illegal_state''))
       else sbind (check_deadline sv (tn_deadline_utc turn)) (\<lambda>_.
         if bd_turns (rs_budgets s1) < 1 then lift (Inl (runtime_exc ''budget_exhausted'')) else lift (Inr s1))) w1 = (Inr s, w')"
    using assms unfolding turn_start_def sbind_Inr by blast
  show ?thesis using state_of_run [OF s1] s1 rest
    by (auto simp: sbind_Inr check_deadline_def split: if_splits)
qed

definition boundary_log ::
  "agent_service \<Rightarrow> TurnContext \<Rightarrow> turn_decision \<Rightarrow> CompiledToolCall \<Rightarrow> agent_world \<Rightarrow> agent_world \<Rightarrow> bool" where
  "boundary_log sv turn q call w w' \<longleftrightarrow>
     (\<exists>args revision args' attempt.
        logged (decision_log sv (tn_run_id turn) (tn_turn_id turn) q @
          proposal_log sv (tn_run_id turn) call args revision @
          authorization_log sv (tn_run_id turn) call args' @ dispatch_log sv (tn_run_id turn) call attempt) w w')"

lemma prepare_ready:
  assumes "prepare_turn sv turn task w = (Inr (CallReady call t), w')"
  shows "\<exists>q. turn_decide sv turn task = Inr q \<and>
    compile (sv_lib sv) (sv_catalog sv) (sv_adapters sv) (tn_run_id turn) (tn_turn_id turn)
       (tc_digest (sv_catalog sv)) (tk_bindings task) (tq_intent q) = Inr call \<and>
    cc_effect_class call = ReadOnly \<and> cc_tool_id call \<in> set (map sc_tool_id (tq_cards q)) \<and>
    deadline_passed (sv_late_at_gate sv) (tn_deadline_utc turn) = Inr False \<and> boundary_log sv turn q call w w' \<and>
    rs_run_id t = tn_run_id turn"
proof -
  let ?r = "tn_run_id turn"
  obtain s0 w0 q s1 w1 where s0: "turn_start sv turn w = (Inr s0, w0)" and q: "turn_decide sv turn task = Inr q"
    and s1: "record_decision sv turn q s0 w0 = (Inr s1, w1)" and tool: "ti_action (tq_intent q) = CallTool"
    and rest: "sbind (lift (compile (sv_lib sv) (sv_catalog sv) (sv_adapters sv) ?r (tn_turn_id turn)
                  (tc_digest (sv_catalog sv)) (tk_bindings task) (tq_intent q))) (\<lambda>call.
         sbind (propose_call sv call s1) (\<lambda>s.
         sbind (gate_call sv turn q call s) (\<lambda>s.
         sbind (dispatch_call sv call s) (\<lambda>s. lift (Inr (CallReady call s)))))) w1 = (Inr (CallReady call t), w')"
    using assms unfolding prepare_turn_def sbind_Inr [of "turn_start sv turn"] sbind_Inr [of "lift (turn_decide sv turn task)"]
      sbind_Inr [of "record_decision sv turn q s" for q s]
    by (auto simp: sbind_Inr split: if_splits)
  obtain s2 w2 s3 w3 where c: "compile (sv_lib sv) (sv_catalog sv) (sv_adapters sv) ?r (tn_turn_id turn)
                  (tc_digest (sv_catalog sv)) (tk_bindings task) (tq_intent q) = Inr call"
    and s2: "propose_call sv call s1 w1 = (Inr s2, w2)" and s3: "gate_call sv turn q call s2 w2 = (Inr s3, w3)"
    and t: "dispatch_call sv call s3 w3 = (Inr t, w')"
    using rest unfolding sbind_Inr by auto
  have w0: "w0 = w" "rs_run_id s0 = ?r" using turn_start_Inr [OF s0] by simp_all
  have l1: "rs_run_id s1 = ?r" "logged (decision_log sv ?r (tn_turn_id turn) q) w w1"
    using tl.stageD [OF decision_stage [OF w0(2)] s1] w0(1) by simp_all
  obtain args revision where l2: "rs_run_id s2 = ?r" "logged (proposal_log sv ?r call args revision) w1 w2"
    using proposal_stage [OF s2 l1(1)] by blast
  obtain args' where l3: "rs_run_id s3 = ?r" "logged (authorization_log sv ?r call args') w2 w3"
    and ok: "cc_effect_class call = ReadOnly" "cc_tool_id call \<in> set (map sc_tool_id (tq_cards q))"
      "deadline_passed (sv_late_at_gate sv) (tn_deadline_utc turn) = Inr False"
    using gate_stage [OF s3 l2(1)] by blast
  obtain attempt where l4: "rs_run_id t = ?r" "logged (dispatch_log sv ?r call attempt) w3 w'"
    using dispatch_stage [OF t l3(1)] by blast
  have "boundary_log sv turn q call w w'"
    unfolding boundary_log_def using tl.join [OF l1(2) tl.join [OF l2(2) tl.join [OF l3(2) l4(2)]]] by blast
  then show ?thesis using q c ok l4(1) by blast
qed

lemma compile_tool:
  assumes "compile lib catalog adapters r t digest bindings intent = Inr call"
  shows "\<exists>tool. catalog_get catalog (cc_tool_id call) = Some tool \<and> cc_effect_class call = rv_effect_class (td_revision tool) \<and>
    ti_tool_id intent = Some (cc_tool_id call) \<and> cc_tool_version call = rv_version (td_revision tool)"
  using assms unfolding compile_def
  by (auto simp: mk_CompiledToolCall_def Let_def split: option.splits if_splits adapter_result.splits)

text \<open>
  C5: The durable boundary before tool I/O. When the part of a turn before the executor succeeds with
  a call, the call is to a read-only tool of the catalog that the model was shown, the deadline had
  not passed at the gate, and the log has grown by exactly the records of the inference, the
  decision, the proposal, the compiled arguments, the allowing authorization, the dispatch and the
  charged budgets, in that order. In every other outcome (a verdict without a tool, or an
  exception) neither the executor nor the artifacts have been touched, the log has only grown, and
  a verdict is never an acceptance.
\<close>

theorem boundary_before_dispatch:
  "case prepare_turn sv turn task w of
     (Inr (CallReady call s), w') \<Rightarrow>
       (\<exists>q tool. turn_decide sv turn task = Inr q \<and> cc_tool_id call \<in> set (map sc_tool_id (tq_cards q)) \<and>
          catalog_get (sv_catalog sv) (cc_tool_id call) = Some tool \<and> rv_effect_class (td_revision tool) = ReadOnly \<and>
          deadline_passed (sv_late_at_gate sv) (tn_deadline_utc turn) = Inr False \<and> boundary_log sv turn q call w w')
   | (Inr (TurnOver verdict), w') \<Rightarrow> \<not> av_accepted verdict \<and> no_tool w w'
   | (Inl err, w') \<Rightarrow> no_tool w w'"
proof (cases "prepare_turn sv turn task w")
  case (Pair res w')
  have nt: "no_tool w w'" using nt.moves_result [OF nt_prepare Pair] .
  show ?thesis
  proof (cases res)
    case (Inl err)
    then show ?thesis using nt Pair by simp
  next
    case (Inr plan)
    show ?thesis
    proof (cases plan)
      case (CallReady call s)
      then show ?thesis using prepare_ready [of sv turn task w call s w'] compile_tool Pair Inr by fastforce
    next
      case (TurnOver v)
      then have "\<not> av_accepted v"
        using Pair Inr handle_non_tool_verdict unfolding prepare_turn_def by (auto simp: sbind_Inr split: if_splits)
      then show ?thesis using nt Pair Inr TurnOver by simp
    qed
  qed
qed

section \<open>After the tool\<close>

definition outcome_log ::
  "agent_service \<Rightarrow> string \<Rightarrow> AtomicTask \<Rightarrow> CompiledToolCall \<Rightarrow> ToolResultEnvelope \<Rightarrow> row_pattern list" where
  "outcome_log sv r task call result =
     (let lib = sv_lib sv; iid = PStr (cc_invocation_id call); transition = flow_decide result True;
          verdict = evaluate result (tk_acceptance task) in
      [record_row lib r ResultRecorded [(''invocation_id'', iid),
         (''status'', PStr (tool_value (tr_status result))), (''data_ref'', opt_str (tr_data_ref result)),
         (''data_hash'', opt_str (tr_data_hash result)), (''truncated'', PBool (tr_truncated result)),
         (''side_effect_state'', PStr (side_effect_value (tr_side_effect_state result)))]] @
      [plain_row lib r ToolTransition [(''invocation_id'', iid), (''target'', PStr (tool_value (tr_status result)))]] @
      [plain_row lib r RunTransition [(''target'', PStr ''observing'')]] @
      [record_row lib r FlowDecided [(''invocation_id'', iid), (''policy'', PStr (policy_value (ft_policy transition))),
         (''target'', PStr (run_value (ft_next_lifecycle transition)))]] @
      [plain_row lib r RunTransition [(''target'', PStr (run_value (ft_next_lifecycle transition)))]] @
      (if tr_status result \<in> {ToolSucceeded, ToolPartial} then
         [record_row lib r AcceptanceDecided [(''accepted'', PBool (av_accepted verdict)), (''authority'', PStr ''acceptance_gate''),
            (''invocation_id'', iid), (''reason'', PStr (av_reason verdict))]] @
         [plain_row lib r RunTransition [(''target'', PStr (if av_accepted verdict then ''succeeded'' else ''blocked'')),
            (''authority'', PStr ''acceptance_gate'')]]
       else []))"

lemma accept_stage:
  "rs_run_id s = r \<Longrightarrow>
     tl.stage r ([record_row (sv_lib sv) r AcceptanceDecided [(''accepted'', PBool (av_accepted (evaluate result (tk_acceptance task)))),
        (''authority'', PStr ''acceptance_gate''), (''invocation_id'', PStr (cc_invocation_id call)),
        (''reason'', PStr (av_reason (evaluate result (tk_acceptance task))))]] @
      [plain_row (sv_lib sv) r RunTransition
        [(''target'', PStr (if av_accepted (evaluate result (tk_acceptance task)) then ''succeeded'' else ''blocked'')),
         (''authority'', PStr ''acceptance_gate'')]]) (accept_result sv task call result s)"
  unfolding accept_result_def Let_def
  by (intro tl.stage_sbind stage_record stage_plain)

lemma normalize_status:
  assumes "normalize_result sv call raw w = (Inr result, w')"
  shows "tr_status result \<in> {ToolSucceeded, ToolPartial, ToolFailed, ToolUnknownOutcome}"
  using assms
  by (auto simp: normalize_result_def normalize_def Let_def mk_ToolResultEnvelope_def split: if_splits prod.splits sum.splits)

lemma outcome_stage:
  assumes run: "rs_run_id s = r" and status: "tr_status result \<in> {ToolSucceeded, ToolPartial, ToolFailed, ToolUnknownOutcome}"
  shows "tl.stage r (outcome_log sv r task call result) (record_outcome sv task call result s)"
proof -
  have verify: "ft_next_lifecycle (flow_decide result True) = RunVerifying \<longleftrightarrow> tr_status result \<in> {ToolSucceeded, ToolPartial}"
    using status by (auto simp: flow_decide_def)
  show ?thesis
  proof (cases "tr_status result \<in> {ToolSucceeded, ToolPartial}")
    case True
    show ?thesis unfolding record_outcome_def outcome_log_def Let_def verify if_P [OF True]
      by (intro accept_stage tl.stage_sbind stage_record stage_plain stage_invocation run)
  next
    case False
    show ?thesis unfolding record_outcome_def outcome_log_def Let_def verify if_not_P [OF False]
      by (intro tl.stage_sbind stage_record stage_plain stage_invocation tl.stage_return run)
  qed
qed

lemma finish_stage:
  assumes "finish_turn sv task call raw s w = (Inr result, w')" and "rs_run_id s = r"
  shows "\<exists>w1. normalize_result sv call raw w = (Inr result, w1) \<and> logged (outcome_log sv r task call result) w1 w'"
proof -
  obtain t w1 where n: "normalize_result sv call raw w = (Inr result, w1)"
    and t: "record_outcome sv task call result s w1 = (Inr t, w')"
    using assms(1) unfolding finish_turn_def sbind_Inr by auto
  show ?thesis using n tl.stageD [OF outcome_stage [OF assms(2) normalize_status [OF n]] t] by blast
qed

lemma lg_of_nt: "nt.moves m \<Longrightarrow> lg.moves m"
  by (simp add: nt.moves_def lg.moves_def no_tool_def)

lemma nt_outcome: "nt.moves (record_outcome sv task call result s)"
  unfolding record_outcome_def accept_result_def invocation_to_def Let_def by (intro nt_intros)

lemma lg_finish: "lg.moves (finish_turn sv task call raw s)"
proof -
  have "lg.moves (normalize_result sv call raw)"
    by (simp add: lg.moves_def normalize_result_def Let_def log_grows_def)
  then show ?thesis unfolding finish_turn_def by (intro lg.moves_sbind lg.moves_lift lg_of_nt [OF nt_outcome])
qed

text \<open>
  The outcome of a turn. A turn that returns a result went through the durable boundary, called
  the executor once on the boundary's call, and then logged exactly the result, the transition of
  the invocation, the flow decision and, for a finished tool, the verdict of the acceptance gate;
  the run is sent to succeeded exactly when that verdict accepts. A turn that returns a verdict has
  used no tool and accepts nothing. A turn that raises either used no tool or had written the
  boundary, whose records are still in the log.
\<close>

theorem turn_outcome_logged:
  "case execute_turn sv turn task w of
     (Inr (TurnResult result), w') \<Rightarrow>
       (\<exists>q call s raw w1 w2 w3. prepare_turn sv turn task w = (Inr (CallReady call s), w1) \<and> boundary_log sv turn q call w w1 \<and>
          run_executor sv call w1 = (Inr raw, w2) \<and> aw_executor w' = snd (execute (sv_env sv) call (aw_executor w)) \<and>
          normalize_result sv call raw w2 = (Inr result, w3) \<and> logged (outcome_log sv (tn_run_id turn) task call result) w3 w')
   | (Inr (TurnVerdict verdict), w') \<Rightarrow> \<not> av_accepted verdict \<and> no_tool w w'
   | (Inl err, w') \<Rightarrow> no_tool w w' \<or>
       (\<exists>q call s w1. prepare_turn sv turn task w = (Inr (CallReady call s), w1) \<and> boundary_log sv turn q call w w1 \<and> log_grows w1 w')"
proof (cases "prepare_turn sv turn task w")
  case prep: (Pair plan w1)
  have nt: "no_tool w w1" using nt.moves_result [OF nt_prepare prep] .
  show ?thesis
  proof (cases plan)
    case (Inl err)
    then show ?thesis using nt prep by (simp add: execute_turn_def sbind_def)
  next
    case plan: (Inr p)
    show ?thesis
    proof (cases p)
      case (TurnOver v)
      then have "\<not> av_accepted v" using prep plan handle_non_tool_verdict
        unfolding prepare_turn_def by (auto simp: sbind_Inr split: if_splits)
      then show ?thesis using prep plan TurnOver nt by (simp add: execute_turn_def sbind_def lift_def)
    next
      case ready: (CallReady call s)
      obtain q where q: "boundary_log sv turn q call w w1" "rs_run_id s = tn_run_id turn"
        using prepare_ready prep plan ready by blast
      obtain raw w2 where r: "run_executor sv call w1 = (raw, w2)" by (cases "run_executor sv call w1")
      have w2: "aw_store w2 = aw_store w1" "aw_executor w2 = snd (execute (sv_env sv) call (aw_executor w))"
        using r nt by (auto simp: run_executor_def Let_def no_tool_def)
      show ?thesis
      proof (cases raw)
        case (Inl err)
        have "log_grows w1 w2" using w2 by (simp add: log_grows_def)
        then show ?thesis using q prep plan ready r Inl by (auto simp: execute_turn_def sbind_def)
      next
        case raw: (Inr x)
        obtain res w' where f: "finish_turn sv task call x s w2 = (res, w')" by (cases "finish_turn sv task call x s w2")
        show ?thesis
        proof (cases res)
          case (Inl err)
          have "log_grows w1 w'" using lg.moves_result [OF lg_finish f] w2 by (simp add: log_grows_def)
          then show ?thesis using q prep plan ready r raw f Inl by (auto simp: execute_turn_def sbind_def)
        next
          case (Inr result)
          obtain w3 where n: "normalize_result sv call x w2 = (Inr result, w3)"
            and l: "logged (outcome_log sv (tn_run_id turn) task call result) w3 w'"
            using finish_stage f Inr q(2) by blast
          have "aw_executor w' = aw_executor w2" using n l by (auto simp: normalize_result_def Let_def logged_def)
          then show ?thesis using q prep plan ready r raw f Inr n l w2(2)
            by (auto simp: execute_turn_def sbind_def lift_def intro!: exI [of _ w3])
        qed
      qed
    qed
  qed
qed

section \<open>Recovery\<close>

text \<open>
  C34: Recovery is decided by the log. \<open>recover\<close> changes nothing; it answers \<open>reconcile_only\<close> exactly
  when some invocation of the loaded log was dispatched and has no result, and \<open>safe_retry\<close> only when
  every dispatched invocation has its result and the run is still ready or deciding.
\<close>

theorem recover_spec:
  "case recover sv r w of
     (Inl err, w') \<Rightarrow> w' = w
   | (Inr answer, w') \<Rightarrow> w' = w \<and>
       (\<exists>es s. load_events (sv_lib sv) r (aw_store w) = Inr es \<and> replay (lb_attr (sv_lib sv)) r es = Inr s \<and>
          (answer = ''reconcile_only'') = (\<exists>iid. list_ex (dispatches iid) es \<and> \<not> list_ex (has_result iid) es) \<and>
          (answer = ''safe_retry'') =
            ((\<nexists>iid. list_ex (dispatches iid) es \<and> \<not> list_ex (has_result iid) es) \<and> rs_lifecycle s \<in> {RunDeciding, RunReady}))"
proof (cases "rbind (load_events (sv_lib sv) r (aw_store w)) (replay (lb_attr (sv_lib sv)) r)")
  case (Inl err)
  then show ?thesis by (simp add: recover_def sbind_def state_of_def)
next
  case (Inr s)
  then obtain es where es: "load_events (sv_lib sv) r (aw_store w) = Inr es" "replay (lb_attr (sv_lib sv)) r es = Inr s" by auto
  have ex: "list_ex P xs \<longleftrightarrow> 0 < length (filter P xs)" for P :: "AgentEvent \<Rightarrow> bool" and xs
    by (induction xs) auto
  have "(iid \<in> rs_dispatched_invocations s) = list_ex (dispatches iid) es"
    "(iid \<in> rs_terminal_results s) = list_ex (has_result iid) es" for iid
    using replay_counts [OF es(2), of iid] by (auto simp: ex)
  then have "rs_dispatched_invocations s \<subseteq> rs_terminal_results s \<longleftrightarrow>
      (\<nexists>iid. list_ex (dispatches iid) es \<and> \<not> list_ex (has_result iid) es)" by auto
  then show ?thesis using es by (simp add: recover_def sbind_def state_of_def lift_def)
qed

end
