(* ===== verification/EventBuffer.thy ===== *)
theory EventBuffer
  imports Prelude "HOL-Library.Sublist"
begin

text \<open>
  \<open>model_worker/events.py\<close>: the events a worker streams for one request and the bounded buffer
  between the producer and a slow consumer. \<open>dumps\<close> is \<open>json.dumps\<close>, used only for the size of an
  event. Telemetry (progress and heartbeat) may be coalesced or dropped, everything else may not.
\<close>

section \<open>Events\<close>

datatype InferenceEventType = Started | Phase | FinalDelta | Progress | Heartbeat

datatype PublishResult = Enqueued | Coalesced | DroppedTelemetry | SlowConsumer | BufferClosed

datatype event_error = InvalidEvent | CorrelationMismatch | SequenceMismatch | EventPyExc py_exc

fun event_type_value :: "InferenceEventType \<Rightarrow> string" where
  "event_type_value Started = ''started''"
| "event_type_value Phase = ''phase''"
| "event_type_value FinalDelta = ''final_delta''"
| "event_type_value Progress = ''progress''"
| "event_type_value Heartbeat = ''heartbeat''"

definition event_types :: "InferenceEventType list" where
  "event_types = [Started, Phase, FinalDelta, Progress, Heartbeat]"

definition event_type_of :: "pyval \<Rightarrow> InferenceEventType option" where
  "event_type_of v = (case v of PStr s \<Rightarrow> List.find (\<lambda>t. event_type_value t = s) event_types | _ \<Rightarrow> None)"

lemma event_type_of_value [simp]: "event_type_of (PStr (event_type_value t)) = Some t"
  by (cases t) (simp_all add: event_type_of_def event_types_def)

definition EVENT_PROTOCOL_VERSION :: string where "EVENT_PROTOCOL_VERSION = ''inference-event.v1''"
definition IPC_PROTOCOL_VERSION :: string where "IPC_PROTOCOL_VERSION = ''model-worker-ipc.v1''"
definition MAX_CORRELATION_ID_BYTES :: nat where "MAX_CORRELATION_ID_BYTES = 128"
definition MAX_PHASE_BYTES :: nat where "MAX_PHASE_BYTES = 64"

definition validate_bounded_text :: "nat \<Rightarrow> pyval \<Rightarrow> event_error + string" where
  "validate_bounded_text max_bytes v =
     (case v of
        PStr s \<Rightarrow> if s = [] \<or> max_bytes < length s then Inl InvalidEvent
                  else if has_control s then Inl InvalidEvent else Inr s
      | _ \<Rightarrow> Inl InvalidEvent)"

definition validate_non_negative :: "pyval \<Rightarrow> event_error + int" where
  "validate_non_negative v = (case v of PInt i \<Rightarrow> if i < 0 then Inl InvalidEvent else Inr i | _ \<Rightarrow> Inl InvalidEvent)"

record InferenceEvent =
  ie_type :: InferenceEventType
  ie_request_id :: string
  ie_attempt_id :: string
  ie_sequence :: int
  ie_phase :: "string option"
  ie_tokens :: "int option"
  ie_delta :: "string option"
  ie_encoded_size :: nat

text \<open>The payload fields an event of each type carries, checked in the order of the source.\<close>

definition validate_payload ::
  "InferenceEventType \<Rightarrow> pyval \<Rightarrow> pyval \<Rightarrow> pyval \<Rightarrow> event_error + string option \<times> int option \<times> string option" where
  "validate_payload t phase tokens delta =
     (case t of
        Started \<Rightarrow>
          if phase \<noteq> PNone \<or> tokens \<noteq> PNone \<or> delta \<noteq> PNone then Inl InvalidEvent else Inr (None, None, None)
      | Phase \<Rightarrow>
          rbind (validate_bounded_text MAX_PHASE_BYTES phase) (\<lambda>p.
            if tokens \<noteq> PNone \<or> delta \<noteq> PNone then Inl InvalidEvent else Inr (Some p, None, None))
      | FinalDelta \<Rightarrow>
          (case delta of
             PStr d \<Rightarrow> if d = [] then Inl InvalidEvent
                       else if phase \<noteq> PNone \<or> tokens \<noteq> PNone then Inl InvalidEvent else Inr (None, None, Some d)
           | _ \<Rightarrow> Inl InvalidEvent)
      | Progress \<Rightarrow>
          rbind (validate_bounded_text MAX_PHASE_BYTES phase) (\<lambda>p.
          rbind (validate_non_negative tokens) (\<lambda>n.
            if delta \<noteq> PNone then Inl InvalidEvent else Inr (Some p, Some n, None)))
      | Heartbeat \<Rightarrow>
          rbind (validate_non_negative tokens) (\<lambda>n.
            if phase \<noteq> PNone \<or> delta \<noteq> PNone then Inl InvalidEvent else Inr (None, Some n, None)))"

definition event_dict ::
  "InferenceEventType \<Rightarrow> string \<Rightarrow> string \<Rightarrow> int \<Rightarrow> string option \<Rightarrow> int option \<Rightarrow> string option \<Rightarrow> (string, pyval) odict" where
  "event_dict t request_id attempt_id seq phase tokens delta =
     [(''protocol_version'', PStr EVENT_PROTOCOL_VERSION), (''type'', PStr (event_type_value t)),
      (''request_id'', PStr request_id), (''attempt_id'', PStr attempt_id), (''sequence'', PInt seq)] @
     (case t of
        Started \<Rightarrow> []
      | Phase \<Rightarrow> [(''phase'', opt_str phase)]
      | FinalDelta \<Rightarrow> [(''delta'', opt_str delta)]
      | Progress \<Rightarrow> [(''phase'', opt_str phase), (''tokens'', opt_int tokens)]
      | Heartbeat \<Rightarrow> [(''sampled_tokens'', opt_int tokens)])"

definition as_dict :: "InferenceEvent \<Rightarrow> (string, pyval) odict" where
  "as_dict e = event_dict (ie_type e) (ie_request_id e) (ie_attempt_id e) (ie_sequence e) (ie_phase e) (ie_tokens e) (ie_delta e)"

definition mk_InferenceEvent ::
  "(pyval \<Rightarrow> string) \<Rightarrow> InferenceEventType \<Rightarrow> pyval \<Rightarrow> pyval \<Rightarrow> pyval \<Rightarrow> pyval \<Rightarrow> pyval \<Rightarrow> pyval \<Rightarrow> event_error + InferenceEvent" where
  "mk_InferenceEvent dumps t request_id attempt_id seq phase tokens delta =
     rbind (validate_bounded_text MAX_CORRELATION_ID_BYTES request_id) (\<lambda>r.
     rbind (validate_bounded_text MAX_CORRELATION_ID_BYTES attempt_id) (\<lambda>a.
     rbind (validate_non_negative seq) (\<lambda>n.
     rbind (validate_payload t phase tokens delta) (\<lambda>(p, k, d).
       Inr \<lparr>ie_type = t, ie_request_id = r, ie_attempt_id = a, ie_sequence = n, ie_phase = p, ie_tokens = k, ie_delta = d,
            ie_encoded_size = length (dumps (PDict (event_dict t r a n p k d)))\<rparr>))))"

definition is_coalescible :: "InferenceEvent \<Rightarrow> bool" where
  "is_coalescible e \<longleftrightarrow> ie_type e \<in> {Progress, Heartbeat}"

fun payload_keys :: "InferenceEventType \<Rightarrow> string list" where
  "payload_keys Started = []"
| "payload_keys Phase = [''phase'']"
| "payload_keys FinalDelta = [''delta'']"
| "payload_keys Progress = [''phase'', ''tokens'']"
| "payload_keys Heartbeat = [''sampled_tokens'']"

definition from_ipc_frame :: "(pyval \<Rightarrow> string) \<Rightarrow> pyval \<Rightarrow> event_error + InferenceEvent" where
  "from_ipc_frame dumps frame =
     (case frame of
        PDict d \<Rightarrow>
          if dict_item d ''protocol_version'' \<noteq> PStr IPC_PROTOCOL_VERSION then Inl InvalidEvent
          else (case event_type_of (dict_item d ''type'') of
            None \<Rightarrow> Inl InvalidEvent
          | Some t \<Rightarrow>
              if set (dict_keys d) \<noteq>
                 set ([''protocol_version'', ''type'', ''request_id'', ''attempt_id'', ''sequence''] @ payload_keys t)
              then Inl InvalidEvent
              else mk_InferenceEvent dumps t (dict_item d ''request_id'') (dict_item d ''attempt_id'') (dict_item d ''sequence'')
                (dict_item d ''phase'')
                (case dict_get d ''tokens'' of None \<Rightarrow> dict_item d ''sampled_tokens'' | Some v \<Rightarrow> v)
                (dict_item d ''delta''))
      | _ \<Rightarrow> Inl InvalidEvent)"

section \<open>The buffer\<close>

record event_buffer =
  bf_request_id :: string
  bf_attempt_id :: string
  bf_max_events :: int
  bf_max_bytes :: int
  bf_next_sequence :: int
  bf_events :: "InferenceEvent list"
  bf_queued_bytes :: int
  bf_closed :: bool
  bf_slow_consumer :: bool
  bf_coalesced_total :: int
  bf_dropped_total :: int

definition mk_event_buffer :: "pyval \<Rightarrow> pyval \<Rightarrow> pyval \<Rightarrow> pyval \<Rightarrow> pyval \<Rightarrow> event_error + event_buffer" where
  "mk_event_buffer request_id attempt_id max_events max_bytes next_sequence =
     rbind (validate_bounded_text MAX_CORRELATION_ID_BYTES request_id) (\<lambda>r.
     rbind (validate_bounded_text MAX_CORRELATION_ID_BYTES attempt_id) (\<lambda>a.
       case positive_int_val max_events of
         None \<Rightarrow> Inl (EventPyExc (ValueError ''max_events''))
       | Some me \<Rightarrow>
           (case positive_int_val max_bytes of
              None \<Rightarrow> Inl (EventPyExc (ValueError ''max_bytes''))
            | Some mb \<Rightarrow>
                rbind (validate_non_negative next_sequence) (\<lambda>n.
                  Inr \<lparr>bf_request_id = r, bf_attempt_id = a, bf_max_events = me, bf_max_bytes = mb, bf_next_sequence = n,
                       bf_events = [], bf_queued_bytes = 0, bf_closed = False, bf_slow_consumer = False,
                       bf_coalesced_total = 0, bf_dropped_total = 0\<rparr>))))"

definition validate_stream_position :: "InferenceEvent \<Rightarrow> event_buffer \<Rightarrow> event_error + unit" where
  "validate_stream_position e b =
     (if ie_request_id e \<noteq> bf_request_id b \<or> ie_attempt_id e \<noteq> bf_attempt_id b then Inl CorrelationMismatch
      else if ie_sequence e \<noteq> bf_next_sequence b then Inl SequenceMismatch
      else Inr ())"

text \<open>\<open>deque.remove(queued)\<close> removes the first event equal to \<open>queued\<close>; the size is not compared.\<close>

definition same_event :: "InferenceEvent \<Rightarrow> InferenceEvent \<Rightarrow> bool" where
  "same_event a b \<longleftrightarrow> a\<lparr>ie_encoded_size := 0\<rparr> = b\<lparr>ie_encoded_size := 0\<rparr>"

fun remove_first :: "('a \<Rightarrow> bool) \<Rightarrow> 'a list \<Rightarrow> 'a list" where
  "remove_first P [] = []"
| "remove_first P (x # xs) = (if P x then xs else x # remove_first P xs)"

definition remove_older_telemetry :: "InferenceEvent \<Rightarrow> event_buffer \<Rightarrow> bool \<times> event_buffer" where
  "remove_older_telemetry e b =
     (case List.find (\<lambda>q. ie_type q = ie_type e) (bf_events b) of
        None \<Rightarrow> (False, b)
      | Some q \<Rightarrow> (True, b\<lparr>bf_events := remove_first (same_event q) (bf_events b),
                          bf_queued_bytes := bf_queued_bytes b - int (ie_encoded_size q)\<rparr>))"

definition fits :: "InferenceEvent \<Rightarrow> event_buffer \<Rightarrow> bool" where
  "fits e b \<longleftrightarrow> int (length (bf_events b)) < bf_max_events b \<and>
     bf_queued_bytes b + int (ie_encoded_size e) \<le> bf_max_bytes b"

definition publish_event :: "InferenceEvent \<Rightarrow> event_buffer \<Rightarrow> (event_error + PublishResult) \<times> event_buffer" where
  "publish_event e b =
     (if bf_closed b then (Inr BufferClosed, b)
      else case validate_stream_position e b of
        Inl err \<Rightarrow> (Inl err, b)
      | Inr _ \<Rightarrow>
          (let b1 = b\<lparr>bf_next_sequence := bf_next_sequence b + 1\<rparr> in
           if bf_slow_consumer b1 then (Inr SlowConsumer, b1)
           else (case (if is_coalescible e then remove_older_telemetry e b1 else (False, b1)) of
             (coalesced, b2) \<Rightarrow>
               if fits e b2 then
                 (Inr (if coalesced then Coalesced else Enqueued),
                  b2\<lparr>bf_events := bf_events b2 @ [e], bf_queued_bytes := bf_queued_bytes b2 + int (ie_encoded_size e),
                     bf_coalesced_total := bf_coalesced_total b2 + (if coalesced then 1 else 0)\<rparr>)
               else if is_coalescible e then
                 (Inr DroppedTelemetry, b2\<lparr>bf_dropped_total := bf_dropped_total b2 + 1\<rparr>)
               else (Inr SlowConsumer, b2\<lparr>bf_slow_consumer := True\<rparr>))))"

text \<open>
  \<open>get\<close> between two waits on the condition. \<open>MustWait\<close> is the call of \<open>wait\<close>; \<open>timed_out\<close> says
  that the deadline has passed.
\<close>

datatype get_outcome = Got InferenceEvent | GotNothing | MustWait

definition get_event :: "bool \<Rightarrow> event_buffer \<Rightarrow> get_outcome \<times> event_buffer" where
  "get_event timed_out b =
     (case bf_events b of
        e # es \<Rightarrow> (Got e, b\<lparr>bf_events := es, bf_queued_bytes := bf_queued_bytes b - int (ie_encoded_size e)\<rparr>)
      | [] \<Rightarrow> if bf_closed b \<or> bf_slow_consumer b \<or> timed_out then (GotNothing, b) else (MustWait, b))"

definition drain :: "event_buffer \<Rightarrow> InferenceEvent list \<times> event_buffer" where
  "drain b = (bf_events b, b\<lparr>bf_events := [], bf_queued_bytes := 0\<rparr>)"

definition close_buffer :: "event_buffer \<Rightarrow> event_buffer" where
  "close_buffer b = b\<lparr>bf_closed := True\<rparr>"

section \<open>Streams through the buffer\<close>

text \<open>
  A stream: the buffer, the events the producer has sent (published without finding the buffer
  closed) and the events the consumer has received.
\<close>

type_synonym stream_state = "event_buffer \<times> InferenceEvent list \<times> InferenceEvent list"

inductive stream_step :: "stream_state \<Rightarrow> stream_state \<Rightarrow> bool" where
  Publish: "publish_event e b = (Inr r, b') \<Longrightarrow> r \<noteq> BufferClosed \<Longrightarrow> stream_step (b, sent, got) (b', sent @ [e], got)"
| Refused: "publish_event e b = (r, b') \<Longrightarrow> r = Inr BufferClosed \<or> (\<exists>err. r = Inl err) \<Longrightarrow>
    stream_step (b, sent, got) (b', sent, got)"
| Get: "get_event timed_out b = (Got e, b') \<Longrightarrow> stream_step (b, sent, got) (b', sent, got @ [e])"
| Drain: "drain b = (es, b') \<Longrightarrow> stream_step (b, sent, got) (b', sent, got @ es)"
| Close: "stream_step (b, sent, got) (close_buffer b, sent, got)"

definition stream_init :: "stream_state \<Rightarrow> bool" where
  "stream_init st \<longleftrightarrow> (\<exists>r a me mb n b. mk_event_buffer r a me mb n = Inr b \<and> st = (b, [], []))"

abbreviation essential :: "InferenceEvent list \<Rightarrow> InferenceEvent list" where
  "essential es \<equiv> filter (\<lambda>e. \<not> is_coalescible e) es"

definition size_of :: "InferenceEvent list \<Rightarrow> int" where
  "size_of es = sum_list (map (int \<circ> ie_encoded_size) es)"

definition bounded :: "event_buffer \<Rightarrow> bool" where
  "bounded b \<longleftrightarrow> bf_queued_bytes b = size_of (bf_events b) \<and> bf_queued_bytes b \<le> bf_max_bytes b \<and>
     int (length (bf_events b)) \<le> bf_max_events b"

definition in_order :: "int \<Rightarrow> InferenceEvent list \<Rightarrow> bool" where
  "in_order n es \<longleftrightarrow> sorted_wrt (<) (map ie_sequence es) \<and> (\<forall>e\<in>set es. ie_sequence e < n)"

definition single_telemetry :: "InferenceEvent list \<Rightarrow> bool" where
  "single_telemetry es \<longleftrightarrow> (\<forall>t\<in>{Progress, Heartbeat}. length (filter (\<lambda>e. ie_type e = t) es) \<le> 1)"

definition stream_inv :: "stream_state \<Rightarrow> bool" where
  "stream_inv = (\<lambda>(b, sent, got).
     bounded b \<and> in_order (bf_next_sequence b) (got @ bf_events b) \<and> single_telemetry (bf_events b) \<and>
     prefix (essential (got @ bf_events b)) (essential sent) \<and>
     (bf_slow_consumer b \<or> essential (got @ bf_events b) = essential sent))"

lemma size_of_simps [simp]: "size_of [] = 0" "size_of (e # es) = int (ie_encoded_size e) + size_of es"
  "size_of (es @ fs) = size_of es + size_of fs"
  by (simp_all add: size_of_def)

lemma size_of_nonneg [simp]: "0 \<le> size_of es"
  by (induction es) simp_all

lemma in_order_Nil [simp]: "in_order n []"
  by (simp add: in_order_def)

lemma in_order_append: "in_order n (es @ fs) \<longleftrightarrow>
    in_order n es \<and> in_order n fs \<and> (\<forall>e\<in>set es. \<forall>f\<in>set fs. ie_sequence e < ie_sequence f)"
  by (auto simp: in_order_def sorted_wrt_append)

lemma in_order_mono: "in_order n es \<Longrightarrow> n \<le> m \<Longrightarrow> in_order m es"
  by (force simp: in_order_def)

lemma in_order_Cons: "in_order n (e # es) \<longleftrightarrow> in_order n [e] \<and> in_order n es \<and> (\<forall>f\<in>set es. ie_sequence e < ie_sequence f)"
  using in_order_append [of n "[e]" es] by simp

lemma single_telemetry_tail: "single_telemetry (e # es) \<Longrightarrow> single_telemetry es"
  by (auto simp: single_telemetry_def split: if_splits)

lemma remove_first_split: "(\<forall>y\<in>set ys. \<not> P y) \<Longrightarrow> P x \<Longrightarrow> remove_first P (ys @ x # zs) = ys @ zs"
  by (induction ys) auto

lemma find_split:
  "List.find P xs = Some x \<Longrightarrow> \<exists>ys zs. xs = ys @ x # zs \<and> P x \<and> (\<forall>y\<in>set ys. \<not> P y)"
proof (induction xs)
  case (Cons a xs)
  show ?case
  proof (cases "P a")
    case True
    then show ?thesis using Cons.prems by (intro exI [of _ "[]"] exI [of _ xs]) simp
  next
    case False
    then obtain ys zs where "xs = ys @ x # zs" "P x" "\<forall>y\<in>set ys. \<not> P y" using Cons by auto
    then show ?thesis using False by (intro exI [of _ "a # ys"] exI [of _ zs]) simp
  qed
qed simp

lemma remove_older_cases:
  obtains (none) "remove_older_telemetry e b = (False, b)" "\<forall>q\<in>set (bf_events b). ie_type q \<noteq> ie_type e"
  | (some) ys q zs where "bf_events b = ys @ q # zs" "ie_type q = ie_type e" "\<forall>y\<in>set ys. ie_type y \<noteq> ie_type e"
      "remove_older_telemetry e b = (True, b\<lparr>bf_events := ys @ zs, bf_queued_bytes := bf_queued_bytes b - int (ie_encoded_size q)\<rparr>)"
proof (cases "List.find (\<lambda>q. ie_type q = ie_type e) (bf_events b)")
  case None
  then have "\<forall>q\<in>set (bf_events b). ie_type q \<noteq> ie_type e" by (simp add: find_None_iff)
  then show thesis using none None by (simp add: remove_older_telemetry_def)
next
  case (Some q)
  then obtain ys zs where split: "bf_events b = ys @ q # zs" "ie_type q = ie_type e" "\<forall>y\<in>set ys. ie_type y \<noteq> ie_type e"
    using find_split [OF Some] by blast
  have type: "same_event q y \<Longrightarrow> ie_type y = ie_type q" for y
    by (cases q; cases y) (simp add: same_event_def)
  have "remove_first (same_event q) (bf_events b) = ys @ zs"
    unfolding split(1)
  proof (rule remove_first_split)
    show "\<forall>y\<in>set ys. \<not> same_event q y" using split(2,3) type by metis
    show "same_event q q" by (simp add: same_event_def)
  qed
  then show thesis using some [OF split] Some by (simp add: remove_older_telemetry_def)
qed

lemma coalesce_keeps:
  assumes "(if is_coalescible e then remove_older_telemetry e b else (False, b)) = (c, b2)"
    and inv: "bounded b" "single_telemetry (bf_events b)"
  shows "subseq (bf_events b2) (bf_events b)" "essential (bf_events b2) = essential (bf_events b)" "bounded b2"
    "single_telemetry (bf_events b2)" "is_coalescible e \<longrightarrow> (\<forall>q\<in>set (bf_events b2). ie_type q \<noteq> ie_type e)"
    "bf_next_sequence b2 = bf_next_sequence b" "bf_slow_consumer b2 = bf_slow_consumer b"
proof -
  have "subseq (bf_events b2) (bf_events b) \<and> essential (bf_events b2) = essential (bf_events b) \<and> bounded b2 \<and>
    single_telemetry (bf_events b2) \<and> (is_coalescible e \<longrightarrow> (\<forall>q\<in>set (bf_events b2). ie_type q \<noteq> ie_type e)) \<and>
    bf_next_sequence b2 = bf_next_sequence b \<and> bf_slow_consumer b2 = bf_slow_consumer b"
  proof (cases "is_coalescible e")
    case False
    then show ?thesis using assms by auto
  next
    case True
    show ?thesis
    proof (cases rule: remove_older_cases [of e b])
      case none
      then show ?thesis using assms True by auto
    next
      case (some ys q zs)
      have b2: "b2 = b\<lparr>bf_events := ys @ zs, bf_queued_bytes := bf_queued_bytes b - int (ie_encoded_size q)\<rparr>"
        using assms(1) some(4) True by simp
      have q: "is_coalescible q" using True some(2) by (simp add: is_coalescible_def)
      have "ie_type e \<in> {Progress, Heartbeat}" using True by (simp add: is_coalescible_def)
      then have "length (filter (\<lambda>x. ie_type x = ie_type e) (bf_events b)) \<le> 1" using inv(2) by (auto simp: single_telemetry_def)
      then have "filter (\<lambda>x. ie_type x = ie_type e) ys = [] \<and> filter (\<lambda>x. ie_type x = ie_type e) zs = []"
        using some(1,2) by simp
      then have gone: "\<forall>x\<in>set (ys @ zs). ie_type x \<noteq> ie_type e" by (auto simp: filter_empty_conv)
      have "single_telemetry (ys @ zs)"
        unfolding single_telemetry_def
      proof
        fix t assume "t \<in> {Progress, Heartbeat}"
        then have "length (filter (\<lambda>x. ie_type x = t) (ys @ q # zs)) \<le> 1" using inv(2) some(1) by (auto simp: single_telemetry_def)
        then show "length (filter (\<lambda>x. ie_type x = t) (ys @ zs)) \<le> 1" by (cases "ie_type q = t") simp_all
      qed
      moreover have "subseq (ys @ zs) (ys @ q # zs)" by (simp add: subseq_append' list_emb_Cons)
      moreover have "bounded b2" using inv(1) some(1) by (auto simp: bounded_def b2)
      ultimately show ?thesis using gone q by (simp add: b2 some(1))
    qed
  qed
  then show "subseq (bf_events b2) (bf_events b)" "essential (bf_events b2) = essential (bf_events b)" "bounded b2"
    "single_telemetry (bf_events b2)" "is_coalescible e \<longrightarrow> (\<forall>q\<in>set (bf_events b2). ie_type q \<noteq> ie_type e)"
    "bf_next_sequence b2 = bf_next_sequence b" "bf_slow_consumer b2 = bf_slow_consumer b" by simp_all
qed

lemma single_telemetry_snoc:
  assumes "single_telemetry es" and "is_coalescible e \<longrightarrow> (\<forall>q\<in>set es. ie_type q \<noteq> ie_type e)"
  shows "single_telemetry (es @ [e])"
  unfolding single_telemetry_def
proof
  fix t assume t: "t \<in> {Progress, Heartbeat}"
  show "length (filter (\<lambda>x. ie_type x = t) (es @ [e])) \<le> 1"
  proof (cases "ie_type e = t")
    case True
    then have "filter (\<lambda>x. ie_type x = t) es = []" using assms(2) t by (auto simp: is_coalescible_def filter_empty_conv)
    then show ?thesis using True by simp
  next
    case False
    then show ?thesis using assms(1) t by (auto simp: single_telemetry_def)
  qed
qed

text \<open>What one published event does to the queue: nothing, or telemetry of its type leaves and it enters.\<close>

lemma publish_queue:
  assumes "publish_event e b = (Inr r, b')" and "r \<noteq> BufferClosed" and inv: "bounded b" "single_telemetry (bf_events b)"
  obtains kept new where "ie_sequence e = bf_next_sequence b" "bf_next_sequence b' = bf_next_sequence b + 1"
    "bf_events b' = kept @ new" "subseq kept (bf_events b)" "essential kept = essential (bf_events b)"
    "new = [] \<or> new = [e] \<and> \<not> bf_slow_consumer b"
    "bf_slow_consumer b \<Longrightarrow> bf_slow_consumer b'" "essential new = essential [e] \<or> bf_slow_consumer b'"
    "bounded b'" "single_telemetry (bf_events b')"
proof -
  let ?b1 = "b\<lparr>bf_next_sequence := bf_next_sequence b + 1\<rparr>"
  have open_: "\<not> bf_closed b" "validate_stream_position e b = Inr ()" "ie_sequence e = bf_next_sequence b"
    using assms(1,2) by (auto simp: publish_event_def validate_stream_position_def split: if_splits)
  show thesis
  proof (cases "bf_slow_consumer b")
    case True
    then have "b' = ?b1" using assms(1) open_ by (simp add: publish_event_def Let_def)
    then show thesis using that [of "bf_events b" "[]"] open_(3) True inv by (simp add: bounded_def)
  next
    case False
    obtain c b2 where c: "(if is_coalescible e then remove_older_telemetry e ?b1 else (False, ?b1)) = (c, b2)"
      by (cases "if is_coalescible e then remove_older_telemetry e ?b1 else (False, ?b1)")
    have b1: "bounded ?b1" "single_telemetry (bf_events ?b1)" using inv by (simp_all add: bounded_def)
    note kept = coalesce_keeps [OF c b1]
    have r: "publish_event e b = (if fits e b2 then
                 (Inr (if c then Coalesced else Enqueued),
                  b2\<lparr>bf_events := bf_events b2 @ [e], bf_queued_bytes := bf_queued_bytes b2 + int (ie_encoded_size e),
                     bf_coalesced_total := bf_coalesced_total b2 + (if c then 1 else 0)\<rparr>)
               else if is_coalescible e then
                 (Inr DroppedTelemetry, b2\<lparr>bf_dropped_total := bf_dropped_total b2 + 1\<rparr>)
               else (Inr SlowConsumer, b2\<lparr>bf_slow_consumer := True\<rparr>))"
      using open_(1,2) False c by (simp add: publish_event_def Let_def)
    show thesis
    proof (cases "fits e b2")
      case True
      have b': "b' = b2\<lparr>bf_events := bf_events b2 @ [e], bf_queued_bytes := bf_queued_bytes b2 + int (ie_encoded_size e),
                     bf_coalesced_total := bf_coalesced_total b2 + (if c then 1 else 0)\<rparr>"
        using assms(1) r True by simp
      have "bounded b'" using kept(3) True by (auto simp: bounded_def b' fits_def)
      then show thesis using that [of "bf_events b2" "[e]"] kept open_(3) False single_telemetry_snoc by (simp add: b')
    next
      case nofit: False
      have b': "bf_events b' = bf_events b2" "bf_next_sequence b' = bf_next_sequence b2" "bounded b'"
        "is_coalescible e \<or> bf_slow_consumer b'"
        using assms(1) r nofit kept(3) by (auto simp: bounded_def split: if_splits)
      then show thesis using that [of "bf_events b2" "[]"] kept open_(3) False by auto
    qed
  qed
qed

lemma in_order_subseq: "subseq ks es \<Longrightarrow> in_order n es \<Longrightarrow> in_order n ks \<and> set ks \<subseteq> set es"
proof (induction rule: list_emb.induct)
  case (list_emb_Cons ks es e)
  then show ?case using in_order_Cons [of n e es] by auto
next
  case (list_emb_Cons2 x y ks es)
  then show ?case using in_order_Cons [of n y es] in_order_Cons [of n x ks] by auto
qed simp

lemma stream_publish:
  assumes inv: "stream_inv (b, sent, got)" and pub: "publish_event e b = (Inr r, b')" "r \<noteq> BufferClosed"
  shows "stream_inv (b', sent @ [e], got)"
proof -
  have b: "bounded b" "single_telemetry (bf_events b)" and ord: "in_order (bf_next_sequence b) (got @ bf_events b)"
    and pre: "prefix (essential (got @ bf_events b)) (essential sent)"
    and eq: "bf_slow_consumer b \<or> essential (got @ bf_events b) = essential sent"
    using inv by (auto simp: stream_inv_def)
  obtain kept new where seq: "ie_sequence e = bf_next_sequence b" "bf_next_sequence b' = bf_next_sequence b + 1"
    and q: "bf_events b' = kept @ new" "subseq kept (bf_events b)" "essential kept = essential (bf_events b)"
    and new: "new = [] \<or> new = [e] \<and> \<not> bf_slow_consumer b"
    and slow: "bf_slow_consumer b \<Longrightarrow> bf_slow_consumer b'" "essential new = essential [e] \<or> bf_slow_consumer b'"
    and b': "bounded b'" "single_telemetry (bf_events b')"
    using publish_queue [OF pub b] by blast
  have "subseq (got @ kept) (got @ bf_events b)" using q(2) by (simp add: list_emb_append_mono)
  then have kept: "in_order (bf_next_sequence b) (got @ kept)" using in_order_subseq ord by blast
  then have "in_order (bf_next_sequence b + 1) (got @ kept)" "\<forall>x\<in>set (got @ kept). ie_sequence x < bf_next_sequence b"
    by (rule in_order_mono) (simp, use kept in \<open>simp add: in_order_def\<close>)
  then have "in_order (bf_next_sequence b + 1) ((got @ kept) @ new)"
    using new seq(1) unfolding in_order_append by (auto simp: in_order_def)
  moreover have "prefix (essential (got @ kept @ new)) (essential (sent @ [e]))"
    using new
  proof
    assume "new = []"
    then show ?thesis using pre q(3) by (simp add: prefix_prefix)
  next
    assume "new = [e] \<and> \<not> bf_slow_consumer b"
    then show ?thesis using eq q(3) by simp
  qed
  moreover have "bf_slow_consumer b' \<or> essential (got @ kept @ new) = essential (sent @ [e])"
    using slow eq q(3) by auto
  ultimately show ?thesis using seq(2) q(1) b' by (simp add: stream_inv_def)
qed

lemma stream_inv_step:
  assumes "stream_inv st" and "stream_step st st'"
  shows "stream_inv st'"
  using assms(2,1)
proof cases
  case (Publish e b r b' sent got)
  then show ?thesis using assms(1) stream_publish by simp
next
  case (Refused e b r b' sent got)
  then have "b' = b"
    by (auto simp: publish_event_def Let_def split: if_splits sum.splits prod.splits)
  then show ?thesis using assms(1) Refused by simp
next
  case (Get timed_out b e b' sent got)
  obtain es where "bf_events b = e # es" "b' = b\<lparr>bf_events := es, bf_queued_bytes := bf_queued_bytes b - int (ie_encoded_size e)\<rparr>"
    using Get(3) by (auto simp: get_event_def split: list.splits if_splits)
  then show ?thesis using assms(1) Get(1,2) single_telemetry_tail [of e es]
    by (auto simp: stream_inv_def bounded_def)
next
  case (Drain b es b' sent got)
  then show ?thesis using assms(1) order_trans [OF size_of_nonneg, of "bf_events b" "bf_max_bytes b"]
    by (auto simp: stream_inv_def bounded_def single_telemetry_def drain_def)
next
  case (Close b sent got)
  then show ?thesis using assms(1) by (simp add: stream_inv_def bounded_def close_buffer_def)
qed

lemma mk_event_buffer_Inr:
  assumes "mk_event_buffer r a me mb n = Inr b"
  shows "bf_events b = [] \<and> bf_queued_bytes b = 0 \<and> 0 < bf_max_events b \<and> 0 < bf_max_bytes b \<and> \<not> bf_slow_consumer b"
  using assms by (cases "positive_int_val me"; cases "positive_int_val mb") (auto simp: mk_event_buffer_def)

interpretation stream_machine: invariant_system stream_init stream_step stream_inv
proof
  show "stream_inv st" if "stream_init st" for st
    using that by (auto simp: stream_init_def stream_inv_def bounded_def single_telemetry_def dest!: mk_event_buffer_Inr)
  show "stream_inv t" if "stream_inv s" "stream_step s t" for s t using stream_inv_step that by blast
qed

text \<open>
  C26: A stream loses no answer. Whatever the order of publishing, taking, draining and closing, the
  consumer receives events in strictly increasing sequence order, and the essential events
  (started, phase, final delta) it has received or will find in the buffer are exactly those sent,
  in order, until the buffer declares the consumer slow, and a prefix of them afterwards. The buffer
  never exceeds its event and byte limits, its byte count is exact, and it holds at most one event of
  each telemetry type.
\<close>

theorem stream_lossless:
  assumes "reach stream_init stream_step (b, sent, got)"
  shows "sorted_wrt (<) (map ie_sequence (got @ bf_events b)) \<and>
    prefix (essential (got @ bf_events b)) (essential sent) \<and>
    (\<not> bf_slow_consumer b \<longrightarrow> essential (got @ bf_events b) = essential sent) \<and>
    int (length (bf_events b)) \<le> bf_max_events b \<and> bf_queued_bytes b = size_of (bf_events b) \<and>
    bf_queued_bytes b \<le> bf_max_bytes b \<and> single_telemetry (bf_events b)"
  using stream_machine.inv_reach [OF assms] by (auto simp: stream_inv_def bounded_def in_order_def)

section \<open>A concrete stream\<close>

definition demo_event_of :: "InferenceEventType \<Rightarrow> int \<Rightarrow> InferenceEvent" where
  "demo_event_of t n = \<lparr>ie_type = t, ie_request_id = ''r'', ie_attempt_id = ''a'', ie_sequence = n, ie_phase = None,
     ie_tokens = None, ie_delta = None, ie_encoded_size = 10\<rparr>"

definition demo_buffer :: event_buffer where
  "demo_buffer = \<lparr>bf_request_id = ''r'', bf_attempt_id = ''a'', bf_max_events = 2, bf_max_bytes = 25, bf_next_sequence = 0,
     bf_events = [], bf_queued_bytes = 0, bf_closed = False, bf_slow_consumer = False, bf_coalesced_total = 0, bf_dropped_total = 0\<rparr>"

lemma demo_buffer_init: "reach stream_init stream_step (demo_buffer, [], [])"
proof (rule reach_init)
  have "mk_event_buffer (PStr ''r'') (PStr ''a'') (PInt 2) (PInt 25) (PInt 0) = Inr demo_buffer" by code_simp
  then show "stream_init (demo_buffer, [], [])" unfolding stream_init_def by blast
qed

definition demo_published :: event_buffer where
  "demo_published = demo_buffer\<lparr>bf_next_sequence := 3, bf_events := [demo_event_of Started 0, demo_event_of Heartbeat 2],
     bf_queued_bytes := 20, bf_coalesced_total := 1\<rparr>"

theorem stream_lossless_witness:
  "essential (bf_events demo_published) = essential [demo_event_of Started 0, demo_event_of Heartbeat 1, demo_event_of Heartbeat 2]"
proof -
  let ?p = "\<lambda>e b. snd (publish_event e b)"
  let ?b1 = "?p (demo_event_of Started 0) demo_buffer" and ?e0 = "demo_event_of Started 0"
    and ?e1 = "demo_event_of Heartbeat 1" and ?e2 = "demo_event_of Heartbeat 2"
  have "publish_event ?e0 demo_buffer = (Inr Enqueued, ?b1)" "publish_event ?e1 ?b1 = (Inr Enqueued, ?p ?e1 ?b1)"
    "publish_event ?e2 (?p ?e1 ?b1) = (Inr Coalesced, demo_published)" by code_simp+
  note p = stream_step.Publish [OF this(1)] stream_step.Publish [OF this(2)] stream_step.Publish [OF this(3)]
  have r1: "reach stream_init stream_step (?b1, [] @ [?e0], [])" by (rule reach_step [OF demo_buffer_init p(1)]) simp
  have r2: "reach stream_init stream_step (?p ?e1 ?b1, ([] @ [?e0]) @ [?e1], [])" by (rule reach_step [OF r1 p(2)]) simp
  have "reach stream_init stream_step (demo_published, (([] @ [?e0]) @ [?e1]) @ [?e2], [])" by (rule reach_step [OF r2 p(3)]) simp
  moreover have "\<not> bf_slow_consumer demo_published" by (simp add: demo_published_def demo_buffer_def)
  ultimately show ?thesis using stream_lossless [of demo_published] by fastforce
qed

end
