(* ===== verification/RequestRegistry.thy ===== *)
theory RequestRegistry
  imports Prelude "HOL-Library.Multiset"
begin

text \<open>
  \<open>model_worker/request_registry.py\<close>: the lifecycle of the requests of a worker. Records are shared
  objects: a caller keeps a record after the registry has dropped it, so the state has the records
  that exist, by request id, and the list of those that are registered. Each method is one step
  under the registry lock; observers run after it. Clock readings and uuids are arguments.
\<close>

section \<open>State\<close>

datatype Lifecycle = Received | Preflighted | Queued | Running | Completed | Failed | Cancelled | TimedOut

fun lifecycle_value :: "Lifecycle \<Rightarrow> string" where
  "lifecycle_value Received = ''RECEIVED''"
| "lifecycle_value Preflighted = ''PREFLIGHTED''"
| "lifecycle_value Queued = ''QUEUED''"
| "lifecycle_value Running = ''RUNNING''"
| "lifecycle_value Completed = ''COMPLETED''"
| "lifecycle_value Failed = ''FAILED''"
| "lifecycle_value Cancelled = ''CANCELLED''"
| "lifecycle_value TimedOut = ''TIMED_OUT''"

definition TERMINAL_SET :: "Lifecycle list" where
  "TERMINAL_SET = [Completed, Failed, Cancelled, TimedOut]"

fun allowed :: "Lifecycle \<Rightarrow> Lifecycle list" where
  "allowed Received = [Preflighted, Failed]"
| "allowed Preflighted = [Queued, Failed]"
| "allowed Queued = [Running, Cancelled, TimedOut, Failed]"
| "allowed Running = [Completed, Failed, Cancelled, TimedOut]"
| "allowed _ = []"

abbreviation terminal :: "Lifecycle \<Rightarrow> bool" where "terminal l \<equiv> l \<in> set TERMINAL_SET"

record 'v request_record =
  rc_request_id :: string
  rc_attempt_id :: string
  rc_request :: 'v
  rc_queue_deadline :: rat
  rc_execution_timeout :: rat
  rc_lifecycle :: Lifecycle
  rc_timestamps :: "(string, rat) odict"
  rc_cancel_event :: bool
  rc_result :: "'v option"
  rc_error :: "'v option"

text \<open>An observer is a function or a method bound to an object; methods are compared by both parts.\<close>

datatype observer = PlainObserver nat | BoundMethod nat nat

definition same_observer :: "observer \<Rightarrow> observer \<Rightarrow> bool" where
  "same_observer a b \<longleftrightarrow>
     (case (a, b) of
        (PlainObserver f, PlainObserver g) \<Rightarrow> f = g
      | (BoundMethod f x, BoundMethod g y) \<Rightarrow> f = g \<and> x = y
      | _ \<Rightarrow> False)"

record 'v request_registry =
  rg_objects :: "(string, 'v request_record) odict"
  rg_records :: "string list"
  rg_observers :: "observer list"
  rg_observer_failures :: int

definition empty_registry :: "'v request_registry" where
  "empty_registry = \<lparr>rg_objects = [], rg_records = [], rg_observers = [], rg_observer_failures = 0\<rparr>"

section \<open>Operations\<close>

definition registry_time :: "pyval \<Rightarrow> py_exc + rat" where
  "registry_time clock = (case finite_val clock of None \<Rightarrow> Inl (RuntimeErr ''registry clock'') | Some t \<Rightarrow> Inr t)"

definition add_terminal_observer :: "observer \<Rightarrow> 'v request_registry \<Rightarrow> bool \<times> 'v request_registry" where
  "add_terminal_observer ob g =
     (if list_ex (\<lambda>c. same_observer c ob) (rg_observers g) then (False, g)
      else (True, g\<lparr>rg_observers := rg_observers g @ [ob]\<rparr>))"

fun drop_observer :: "observer \<Rightarrow> observer list \<Rightarrow> bool \<times> observer list" where
  "drop_observer ob [] = (False, [])"
| "drop_observer ob (c # cs) =
     (if same_observer c ob then (True, cs) else (case drop_observer ob cs of (found, rest) \<Rightarrow> (found, c # rest)))"

definition remove_terminal_observer :: "observer \<Rightarrow> 'v request_registry \<Rightarrow> bool \<times> 'v request_registry" where
  "remove_terminal_observer ob g =
     (case drop_observer ob (rg_observers g) of (found, rest) \<Rightarrow> (found, g\<lparr>rg_observers := rest\<rparr>))"

definition create_record ::
  "pyval \<Rightarrow> string \<Rightarrow> string \<Rightarrow> 'v \<Rightarrow> int \<Rightarrow> int \<Rightarrow> 'v request_registry \<Rightarrow>
   (py_exc + 'v request_record) \<times> 'v request_registry" where
  "create_record clock request_id attempt_id request queue_timeout_ms execution_timeout_ms g =
     (case registry_time clock of
        Inl err \<Rightarrow> (Inl err, g)
      | Inr now \<Rightarrow>
          (let r = \<lparr>rc_request_id = request_id, rc_attempt_id = attempt_id, rc_request = request,
                 rc_queue_deadline = now + of_int queue_timeout_ms / 1000,
                 rc_execution_timeout = of_int execution_timeout_ms / 1000, rc_lifecycle = Received,
                 rc_timestamps = [(''RECEIVED'', now)], rc_cancel_event = False, rc_result = None, rc_error = None\<rparr> in
           (Inr r, g\<lparr>rg_objects := dict_set request_id r (rg_objects g),
                    rg_records := (if request_id \<in> set (rg_records g) then rg_records g
                                   else rg_records g @ [request_id])\<rparr>)))"

text \<open>
  \<open>_transition_locked\<close>: the lifecycle is assigned before the clock is read, so a clock that raises
  leaves a record with the new lifecycle and without its timestamp, result and notification.
\<close>

definition transition_locked ::
  "pyval \<Rightarrow> Lifecycle \<Rightarrow> 'v option \<Rightarrow> 'v option \<Rightarrow> 'v request_record \<Rightarrow> (py_exc + bool) \<times> 'v request_record" where
  "transition_locked clock target result error r =
     (if terminal (rc_lifecycle r) then (Inr False, r)
      else if target \<notin> set (allowed (rc_lifecycle r)) then (Inl (RuntimeErr ''invalid lifecycle transition''), r)
      else (let r1 = r\<lparr>rc_lifecycle := target\<rparr> in
        case registry_time clock of
          Inl err \<Rightarrow> (Inl err, r1)
        | Inr now \<Rightarrow>
            (Inr True, r1\<lparr>rc_timestamps := dict_set (lifecycle_value target) now (rc_timestamps r1),
                         rc_result := result, rc_error := error\<rparr>)))"

text \<open>The observers that a change to a terminal lifecycle hands out, and their delivery.\<close>

definition observers_for :: "(py_exc + bool) \<Rightarrow> Lifecycle \<Rightarrow> 'v request_registry \<Rightarrow> observer list" where
  "observers_for res target g = (if res = Inr True \<and> terminal target then rg_observers g else [])"

definition notify_terminal :: "(observer \<Rightarrow> bool) \<Rightarrow> observer list \<Rightarrow> 'v request_registry \<Rightarrow> 'v request_registry" where
  "notify_terminal raises obs g =
     g\<lparr>rg_observer_failures := rg_observer_failures g + int (length (filter raises obs))\<rparr>"

definition set_record :: "string \<Rightarrow> 'v request_record \<Rightarrow> 'v request_registry \<Rightarrow> 'v request_registry" where
  "set_record k r g = g\<lparr>rg_objects := dict_set k r (rg_objects g)\<rparr>"

text \<open>
  \<open>transition\<close>; the second component lists the observers it notifies. The caller holds the record, so
  the first case does not occur for a record that was created.
\<close>

definition transition ::
  "(observer \<Rightarrow> bool) \<Rightarrow> pyval \<Rightarrow> string \<Rightarrow> Lifecycle \<Rightarrow> 'v option \<Rightarrow> 'v option \<Rightarrow> 'v request_registry \<Rightarrow>
   (py_exc + bool) \<times> observer list \<times> 'v request_registry" where
  "transition raises clock k target result error g =
     (case dict_get (rg_objects g) k of
        None \<Rightarrow> (Inr False, [], g)
      | Some r \<Rightarrow>
          (case transition_locked clock target result error r of
             (res, r1) \<Rightarrow>
               (let obs = observers_for res target g in
                (res, obs, notify_terminal raises obs (set_record k r1 g)))))"

definition compare_and_transition ::
  "(observer \<Rightarrow> bool) \<Rightarrow> pyval \<Rightarrow> string \<Rightarrow> Lifecycle \<Rightarrow> Lifecycle \<Rightarrow> bool option \<Rightarrow> 'v option \<Rightarrow> 'v option \<Rightarrow>
   'v request_registry \<Rightarrow> (py_exc + bool) \<times> observer list \<times> 'v request_registry" where
  "compare_and_transition raises clock k expected target guard result error g =
     (case dict_get (rg_objects g) k of
        None \<Rightarrow> (Inr False, [], g)
      | Some r \<Rightarrow>
          if rc_lifecycle r \<noteq> expected then (Inr False, [], g)
          else if guard = Some False then (Inr False, [], g)
          else transition raises clock k target result error g)"

text \<open>\<open>cancel\<close>: only a queued request becomes terminal here; a running one sees its event.\<close>

definition cancel_request ::
  "(observer \<Rightarrow> bool) \<Rightarrow> pyval \<Rightarrow> 'v \<Rightarrow> string \<Rightarrow> 'v request_registry \<Rightarrow>
   (py_exc + bool) \<times> observer list \<times> 'v request_registry" where
  "cancel_request raises clock cancelled k g =
     (if k \<notin> set (rg_records g) then (Inr False, [], g)
      else case dict_get (rg_objects g) k of
        None \<Rightarrow> (Inr False, [], g)
      | Some r \<Rightarrow>
          if terminal (rc_lifecycle r) then (Inr False, [], g)
          else (let r1 = r\<lparr>rc_cancel_event := True\<rparr>; g1 = set_record k r1 g in
            if rc_lifecycle r1 \<noteq> Queued then (Inr True, [], g1)
            else (case transition raises clock k Cancelled None (Some cancelled) g1 of
              (Inl err, obs, g2) \<Rightarrow> (Inl err, obs, g2)
            | (Inr _, obs, g2) \<Rightarrow> (Inr True, obs, g2))))"

definition get_record :: "string \<Rightarrow> 'v request_registry \<Rightarrow> 'v request_record option" where
  "get_record k g = (if k \<in> set (rg_records g) then dict_get (rg_objects g) k else None)"

definition registry_snapshot :: "'v request_registry \<Rightarrow> 'v request_record list" where
  "registry_snapshot g = List.map_filter (\<lambda>k. dict_get (rg_objects g) k) (rg_records g)"

record RegistryPruneStats =
  pr_scanned :: int
  pr_terminal :: int
  pr_eligible :: int
  pr_removed :: int
  pr_remaining :: int
  pr_eligible_remaining :: int
  pr_max_records :: int
  pr_limit_reached :: bool

definition terminal_keys :: "'v request_registry \<Rightarrow> string list" where
  "terminal_keys g =
     filter (\<lambda>k. case dict_get (rg_objects g) k of None \<Rightarrow> False | Some r \<Rightarrow> terminal (rc_lifecycle r)) (rg_records g)"

definition terminal_at :: "'v request_registry \<Rightarrow> string \<Rightarrow> rat option" where
  "terminal_at g k =
     (case dict_get (rg_objects g) k of
        None \<Rightarrow> None
      | Some r \<Rightarrow> dict_get (rc_timestamps r) (lifecycle_value (rc_lifecycle r)))"

definition prune_candidates :: "rat \<Rightarrow> rat \<Rightarrow> 'v request_registry \<Rightarrow> (rat \<times> string) list" where
  "prune_candidates ttl current g =
     sort (List.map_filter (\<lambda>k. case terminal_at g k of
        None \<Rightarrow> None
      | Some t \<Rightarrow> if ttl \<le> current - t then Some (t, k) else None) (terminal_keys g))"

definition prune_terminal ::
  "pyval \<Rightarrow> pyval \<Rightarrow> pyval \<Rightarrow> pyval \<Rightarrow> 'v request_registry \<Rightarrow> (py_exc + RegistryPruneStats) \<times> 'v request_registry" where
  "prune_terminal clock ttl_seconds max_records now g =
     (case finite_val ttl_seconds of
        None \<Rightarrow> (Inl (ValueError ''ttl_seconds''), g)
      | Some ttl \<Rightarrow>
          if ttl < 0 then (Inl (ValueError ''ttl_seconds''), g)
          else case max_records of
            PInt limit \<Rightarrow>
              if limit < 0 then (Inl (ValueError ''max_records''), g)
              else (case (if now = PNone then registry_time clock
                          else (case finite_val now of None \<Rightarrow> Inl (ValueError ''now'') | Some t \<Rightarrow> Inr t)) of
                Inl err \<Rightarrow> (Inl err, g)
              | Inr current \<Rightarrow>
                  (let candidates = prune_candidates ttl current g;
                       victims = map snd (take (nat limit) candidates);
                       g1 = g\<lparr>rg_records := filter (\<lambda>k. k \<notin> set victims) (rg_records g)\<rparr>;
                       left = int (length candidates) - int (length victims) in
                   (Inr \<lparr>pr_scanned = int (length (rg_records g)), pr_terminal = int (length (terminal_keys g)),
                         pr_eligible = int (length candidates), pr_removed = int (length victims),
                         pr_remaining = int (length (rg_records g1)), pr_eligible_remaining = left,
                         pr_max_records = limit, pr_limit_reached = (0 < left \<and> limit \<le> int (length victims))\<rparr>,
                    g1)))
          | _ \<Rightarrow> (Inl (ValueError ''max_records''), g))"

section \<open>Histories\<close>

text \<open>The registry with the log of delivered notifications, under any sequence of calls.\<close>

type_synonym 'v history = "'v request_registry \<times> (string \<times> observer) list"

inductive registry_step :: "'v history \<Rightarrow> 'v history \<Rightarrow> bool" where
  Create: "dict_get (rg_objects g) k = None \<Longrightarrow> registry_step (g, hist) (snd (create_record clock k a q qt et g), hist)"
| Transition: "transition raises clock k target result error g = (res, obs, g') \<Longrightarrow>
    registry_step (g, hist) (g', hist @ map (Pair k) obs)"
| Compare: "compare_and_transition raises clock k expected target guard result error g = (res, obs, g') \<Longrightarrow>
    registry_step (g, hist) (g', hist @ map (Pair k) obs)"
| Cancel: "cancel_request raises clock c k g = (res, obs, g') \<Longrightarrow> registry_step (g, hist) (g', hist @ map (Pair k) obs)"
| Observe: "registry_step (g, hist) (snd (add_terminal_observer ob g), hist)"
| Unobserve: "registry_step (g, hist) (snd (remove_terminal_observer ob g), hist)"
| Prune: "registry_step (g, hist) (snd (prune_terminal clock ttl limit now g), hist)"

definition history_init :: "'v history \<Rightarrow> bool" where
  "history_init h \<longleftrightarrow> h = (empty_registry, [])"

definition finished :: "'v request_registry \<Rightarrow> string \<Rightarrow> bool" where
  "finished g k \<longleftrightarrow> (\<exists>r. dict_get (rg_objects g) k = Some r \<and> terminal (rc_lifecycle r))"

definition history_inv :: "'v history \<Rightarrow> bool" where
  "history_inv = (\<lambda>(g, hist). distinct (rg_records g) \<and> set (rg_records g) \<subseteq> set (dict_keys (rg_objects g)) \<and>
     distinct (rg_observers g) \<and> distinct hist \<and> (\<forall>k\<in>fst ` set hist. finished g k))"

lemma same_observer_eq [simp]: "same_observer = (=)"
  by (auto simp: same_observer_def fun_eq_iff split: observer.splits)

lemma drop_observer_distinct: "distinct obs \<Longrightarrow> distinct (snd (drop_observer ob obs)) \<and> set (snd (drop_observer ob obs)) \<subseteq> set obs"
  by (induction obs) (auto split: prod.splits)

text \<open>What a call on one record changes: at most that record, and terminal records not at all.\<close>

definition touches :: "string \<Rightarrow> 'v request_registry \<Rightarrow> observer list \<Rightarrow> 'v request_registry \<Rightarrow> bool" where
  "touches k g obs g' \<longleftrightarrow>
     rg_records g' = rg_records g \<and> rg_observers g' = rg_observers g \<and>
     set (dict_keys (rg_objects g')) = set (dict_keys (rg_objects g)) \<and>
     (\<forall>j. j \<noteq> k \<or> finished g j \<longrightarrow> dict_get (rg_objects g') j = dict_get (rg_objects g) j) \<and>
     (obs = [] \<or> obs = rg_observers g \<and> \<not> finished g k \<and> finished g' k)"

lemma touches_refl: "touches k g [] g"
  by (simp add: touches_def)

lemma transition_touches:
  assumes "transition raises clock k target result error g = (res, obs, g')"
  shows "touches k g obs g'"
proof (cases "dict_get (rg_objects g) k")
  case None
  then show ?thesis using assms by (simp add: transition_def touches_refl)
next
  case (Some r)
  obtain res1 r1 where t: "transition_locked clock target result error r = (res1, r1)" by fastforce
  have g': "res = res1" "obs = observers_for res1 target g" "rg_objects g' = dict_set k r1 (rg_objects g)"
    "rg_records g' = rg_records g" "rg_observers g' = rg_observers g"
    using assms Some t by (auto simp: transition_def Let_def notify_terminal_def set_record_def)
  have keys: "set (dict_keys (rg_objects g')) = set (dict_keys (rg_objects g))"
    using Some od.keys_set [of k r1 "rg_objects g"] od.keys_get [of k "rg_objects g"] by (auto simp: g')
  show ?thesis
  proof (cases "terminal (rc_lifecycle r)")
    case True
    then show ?thesis using t Some keys by (auto simp: transition_locked_def touches_def g' observers_for_def finished_def)
  next
    case False
    then have "res1 = Inr True \<Longrightarrow> rc_lifecycle r1 = target" "\<not> finished g k"
      using t Some by (auto simp: transition_locked_def Let_def finished_def split: if_splits sum.splits)
    then show ?thesis using keys by (auto simp: touches_def g' observers_for_def finished_def)
  qed
qed

lemma compare_touches:
  assumes "compare_and_transition raises clock k expected target guard result error g = (res, obs, g')"
  shows "touches k g obs g'"
  using assms transition_touches [of raises clock k target result error g]
  by (auto simp: compare_and_transition_def touches_refl split: option.splits if_splits)

lemma touches_trans:
  assumes "touches k g [] g1" and "touches k g1 obs g2" and "finished g1 k = finished g k"
  shows "touches k g obs g2"
proof -
  have "finished g j \<Longrightarrow> finished g1 j" for j using assms(1) by (auto simp: touches_def finished_def)
  then show ?thesis using assms by (auto simp: touches_def)
qed

lemma cancel_touches:
  assumes "cancel_request raises clock c k g = (res, obs, g')"
  shows "touches k g obs g'"
proof (cases "k \<in> set (rg_records g) \<and> (\<exists>r. dict_get (rg_objects g) k = Some r \<and> \<not> terminal (rc_lifecycle r))")
  case False
  then have "obs = [] \<and> g' = g" using assms by (auto simp: cancel_request_def split: if_splits option.splits)
  then show ?thesis by (simp add: touches_refl)
next
  case True
  then obtain r where r: "dict_get (rg_objects g) k = Some r" "\<not> terminal (rc_lifecycle r)" by blast
  let ?g1 = "set_record k (r\<lparr>rc_cancel_event := True\<rparr>) g"
  have t1: "touches k g [] ?g1" "finished ?g1 k = finished g k"
    using r od.keys_set [of k "r\<lparr>rc_cancel_event := True\<rparr>" "rg_objects g"] od.keys_get [of k "rg_objects g"]
    by (auto simp: touches_def set_record_def finished_def)
  have "obs = [] \<and> g' = ?g1 \<or> (\<exists>res'. transition raises clock k Cancelled None (Some c) ?g1 = (res', obs, g'))"
    using assms True r by (auto simp: cancel_request_def Let_def split: if_splits prod.splits sum.splits)
  then show ?thesis using t1 touches_trans [OF t1(1) transition_touches t1(2)] by blast
qed

lemma touches_inv:
  assumes "touches k g obs g'" and "history_inv (g, hist)"
  shows "history_inv (g', hist @ map (Pair k) obs)"
proof -
  have "finished g j \<Longrightarrow> finished g' j" for j using assms(1) by (auto simp: touches_def finished_def)
  moreover have "k \<notin> fst ` set hist" if "obs \<noteq> []" using assms that by (auto simp: touches_def history_inv_def)
  ultimately show ?thesis using assms by (auto simp: history_inv_def touches_def distinct_map inj_on_def)
qed

lemma create_frame:
  assumes "dict_get (rg_objects g) k = None" and "g' = snd (create_record clock k a q qt et g)"
  shows "rg_observers g' = rg_observers g \<and> (\<forall>j. finished g j \<longrightarrow> dict_get (rg_objects g') j = dict_get (rg_objects g) j)"
  using assms by (auto simp: create_record_def Let_def finished_def split: sum.splits)

lemma create_inv:
  assumes inv: "history_inv (g, hist)" and k: "dict_get (rg_objects g) k = None"
  shows "history_inv (snd (create_record clock k a q qt et g), hist)"
proof (cases "registry_time clock")
  case (Inl err)
  then show ?thesis using inv by (simp add: create_record_def)
next
  case (Inr now)
  let ?g' = "snd (create_record clock k a q qt et g)"
  have "\<forall>j. finished g j \<longrightarrow> finished ?g' j" using create_frame [OF k refl] by (metis finished_def)
  moreover have "rg_records ?g' = (if k \<in> set (rg_records g) then rg_records g else rg_records g @ [k])"
    "set (dict_keys (rg_objects ?g')) = insert k (set (dict_keys (rg_objects g)))" "rg_observers ?g' = rg_observers g"
    using Inr by (simp_all add: create_record_def Let_def od.keys_set del: set_map)
  ultimately show ?thesis using inv by (auto simp: history_inv_def)
qed

lemma prune_frame:
  "rg_objects (snd (prune_terminal clock ttl limit now g)) = rg_objects g \<and>
   rg_observers (snd (prune_terminal clock ttl limit now g)) = rg_observers g \<and>
   (\<exists>P. rg_records (snd (prune_terminal clock ttl limit now g)) = filter P (rg_records g))"
  by (auto simp: prune_terminal_def Let_def filter_True split: option.splits pyval.splits sum.splits
      intro: exI [of _ "\<lambda>_. True"])

text \<open>No step changes a finished record, forgets it, or notifies for it again.\<close>

lemma step_finished:
  assumes "registry_step (g, hist) (g', hist')" and "finished g k"
  shows "dict_get (rg_objects g') k = dict_get (rg_objects g) k \<and>
    filter (\<lambda>p. fst p = k) hist' = filter (\<lambda>p. fst p = k) hist"
proof -
  have other: "filter (\<lambda>p. fst p = k) (map (Pair j) obs) = []" if "touches j g obs g1" for j obs g1
    using that assms(2) by (cases "j = k") (auto simp: touches_def filter_empty_conv)
  have same: "dict_get (rg_objects g1) k = dict_get (rg_objects g) k" if "touches j g obs g1" for j obs g1
    using that assms(2) by (auto simp: touches_def)
  from assms(1) show ?thesis
  proof cases
    case (Create j clock a q qt et)
    then show ?thesis using create_frame [OF Create(3) refl] assms(2) by auto
  next
    case (Transition raises clock j target result error res obs)
    then show ?thesis using other [OF transition_touches] same [OF transition_touches] by simp
  next
    case (Compare raises clock j expected target guard result error res obs)
    then show ?thesis using other [OF compare_touches] same [OF compare_touches] by simp
  next
    case (Cancel raises clock c j res obs)
    then show ?thesis using other [OF cancel_touches] same [OF cancel_touches] by simp
  qed (auto simp: prune_frame add_terminal_observer_def remove_terminal_observer_def split: prod.splits)
qed

lemma history_inv_step:
  assumes "history_inv h" and "registry_step h h'"
  shows "history_inv h'"
  using assms(2)
proof cases
  case (Create g k hist clock a q qt et)
  then show ?thesis using create_inv [of g hist k] assms(1) by simp
next
  case (Observe g hist ob)
  then show ?thesis using assms(1)
    by (auto simp: history_inv_def add_terminal_observer_def finished_def list_ex_iff)
next
  case (Unobserve g hist ob)
  then show ?thesis using assms(1) drop_observer_distinct [of "rg_observers g" ob]
    by (auto simp: history_inv_def remove_terminal_observer_def finished_def split: prod.splits)
next
  case (Prune g hist clock ttl limit now)
  then show ?thesis using assms(1) prune_frame [of clock ttl limit now g]
    by (auto simp: history_inv_def finished_def)
next
  case (Transition raises clock k target result error g res obs g' hist)
  then show ?thesis using touches_inv [OF transition_touches] assms(1) by simp
next
  case (Compare raises clock k expected target guard result error g res obs g' hist)
  then show ?thesis using touches_inv [OF compare_touches] assms(1) by simp
next
  case (Cancel raises clock c k g res obs g' hist)
  then show ?thesis using touches_inv [OF cancel_touches] assms(1) by simp
qed

interpretation registry_machine: invariant_system history_init registry_step history_inv
proof
  show "history_inv h" if "history_init h" for h :: "'a history"
    using that by (simp add: history_init_def history_inv_def empty_registry_def)
  show "history_inv t" if "history_inv s" "registry_step s t" for s t :: "'a history"
    using history_inv_step that by blast
qed

lemma finished_forever:
  assumes "registry_step\<^sup>*\<^sup>* h h'" and "dict_get (rg_objects (fst h)) k = Some r" and "terminal (rc_lifecycle r)"
  shows "dict_get (rg_objects (fst h')) k = Some r \<and> filter (\<lambda>p. fst p = k) (snd h') = filter (\<lambda>p. fst p = k) (snd h)"
  using assms(1)
proof (induction rule: rtranclp_induct)
  case base
  then show ?case using assms by simp
next
  case (step h1 h2)
  then show ?case using assms(3) step_finished [of "fst h1" "snd h1" "fst h2" "snd h2" k] by (auto simp: finished_def)
qed

text \<open>
  A request terminates once. From any state the registry can reach, once a record is completed,
  failed, cancelled or timed out, no later call of any kind, by any thread, changes it or its
  timestamps, result and error, or notifies an observer for it again, even when the registry has
  pruned it; and no observer is ever notified twice for the same request.
\<close>

theorem terminal_once:
  assumes "reach history_init registry_step (g, hist)" and "dict_get (rg_objects g) k = Some r"
    and "terminal (rc_lifecycle r)" and "registry_step\<^sup>*\<^sup>* (g, hist) (g', hist')"
  shows "dict_get (rg_objects g') k = Some r \<and> distinct hist' \<and>
    filter (\<lambda>p. fst p = k) hist' = filter (\<lambda>p. fst p = k) hist"
  using finished_forever [OF assms(4), of k r] assms(2,3)
    registry_machine.inv_steps [OF assms(4) registry_machine.inv_reach [OF assms(1)]]
  by (simp add: history_inv_def)

section \<open>Pruning\<close>

definition eligible :: "rat \<Rightarrow> rat \<Rightarrow> 'v request_registry \<Rightarrow> rat \<Rightarrow> string \<Rightarrow> bool" where
  "eligible ttl current g t k \<longleftrightarrow>
     k \<in> set (rg_records g) \<and> finished g k \<and> terminal_at g k = Some t \<and> ttl \<le> current - t"

lemma set_map_filter: "x \<in> set (List.map_filter f xs) \<longleftrightarrow> (\<exists>y\<in>set xs. f y = Some x)"
  by (induction xs) (auto simp: map_filter_simps split: option.splits)

lemma candidates_set: "(t, k) \<in> set (prune_candidates ttl current g) \<longleftrightarrow> eligible ttl current g t k"
  by (auto simp: prune_candidates_def set_map_filter terminal_keys_def eligible_def finished_def
      split: option.splits if_splits)

lemma map_filter_keys_distinct:
  assumes "distinct ks" and "\<And>k p. f k = Some p \<Longrightarrow> snd p = k"
  shows "distinct (map snd (List.map_filter f ks))"
  using assms(1)
proof (induction ks)
  case (Cons k ks)
  have "snd ` set (List.map_filter f ks) \<subseteq> set ks"
  proof (clarsimp simp: set_map_filter)
    fix a b y assume "y \<in> set ks" "f y = Some (a, b)"
    then show "b \<in> set ks" using assms(2) [of y "(a, b)"] by simp
  qed
  then show ?case using Cons assms(2) by (auto simp: map_filter_simps split: option.splits)
qed (simp add: map_filter_simps)

lemma candidates_distinct:
  assumes "distinct (rg_records g)"
  shows "distinct (map snd (prune_candidates ttl current g))"
proof -
  let ?f = "\<lambda>k. case terminal_at g k of None \<Rightarrow> None | Some t \<Rightarrow> if ttl \<le> current - t then Some (t, k) else None"
  have "distinct (map snd (List.map_filter ?f (terminal_keys g)))"
    using assms by (intro map_filter_keys_distinct) (auto simp: terminal_keys_def split: option.splits if_splits)
  moreover have "mset (map snd (prune_candidates ttl current g)) = mset (map snd (List.map_filter ?f (terminal_keys g)))"
    by (simp add: prune_candidates_def)
  ultimately show ?thesis using mset_eq_imp_distinct_iff by blast
qed

lemma removed_length:
  assumes "distinct ks" and "distinct vs" and "set vs \<subseteq> set ks"
  shows "length (filter (\<lambda>k. k \<notin> set vs) ks) + length vs = length ks"
proof -
  have "length (filter (\<lambda>k. k \<notin> set vs) ks) = card (set ks - set vs)"
    using distinct_card [of "filter (\<lambda>k. k \<notin> set vs) ks"] assms(1) by (simp add: set_diff_eq)
  then show ?thesis using assms card_mono [OF _ assms(3)] by (simp add: card_Diff_subset distinct_card)
qed

text \<open>
  Pruning is bounded, oldest first and accounted for. In a reachable registry a successful prune
  removes at most the given number of records, each of them terminal for at least the time to live;
  it keeps every other record in order, an eligible record is kept only if no removed one is newer,
  and the counts of the statistics add up.
\<close>

theorem prune_oldest_first:
  assumes "reach history_init registry_step (g, hist)" and "prune_terminal clock (PFloat (Finite ttl)) (PInt limit) (PFloat (Finite current)) g = (Inr st, g')"
  shows "\<exists>victims. distinct victims \<and> rg_records g' = filter (\<lambda>k. k \<notin> set victims) (rg_records g) \<and>
    int (length victims) = pr_removed st \<and> pr_removed st \<le> limit \<and>
    (\<forall>v\<in>set victims. \<exists>t. eligible ttl current g t v \<and> (\<forall>k s. k \<notin> set victims \<and> eligible ttl current g s k \<longrightarrow> (t, v) \<le> (s, k))) \<and>
    pr_scanned st = pr_removed st + pr_remaining st \<and> pr_eligible st = pr_removed st + pr_eligible_remaining st \<and>
    pr_limit_reached st = (0 < pr_eligible_remaining st)"
proof -
  let ?C = "prune_candidates ttl current g"
  let ?V = "map snd (take (nat limit) ?C)"
  have d: "distinct (rg_records g)" using registry_machine.inv_reach [OF assms(1)] by (simp add: history_inv_def)
  have lim: "0 \<le> limit" using assms(2) by (auto simp: prune_terminal_def split: if_splits)
  have st: "g' = g\<lparr>rg_records := filter (\<lambda>k. k \<notin> set ?V) (rg_records g)\<rparr>"
    "pr_removed st = int (length ?V)" "pr_scanned st = int (length (rg_records g))" "pr_remaining st = int (length (rg_records g'))"
    "pr_eligible st = int (length ?C)" "pr_eligible_remaining st = int (length ?C) - int (length ?V)"
    "pr_limit_reached st = (0 < int (length ?C) - int (length ?V) \<and> limit \<le> int (length ?V))"
    using assms(2) by (auto simp: prune_terminal_def Let_def split: if_splits)
  have dV: "distinct ?V" using candidates_distinct [OF d, of ttl current] by (simp add: take_map [symmetric])
  have mem: "v \<in> set ?V \<Longrightarrow> \<exists>t. (t, v) \<in> set (take (nat limit) ?C)" for v by force
  have sub: "set ?V \<subseteq> set (rg_records g)" using candidates_set in_set_takeD by (fastforce simp: eligible_def)
  have older: "(t, v) \<le> (s, k)" if v: "(t, v) \<in> set (take (nat limit) ?C)" and k: "k \<notin> set ?V" "eligible ttl current g s k" for t v s k
  proof -
    have "(s, k) \<in> set (take (nat limit) ?C @ drop (nat limit) ?C)" using k(2) by (simp add: candidates_set)
    moreover have "(s, k) \<notin> set (take (nat limit) ?C)" using k(1) by (auto intro: rev_image_eqI)
    ultimately have "(s, k) \<in> set (drop (nat limit) ?C)" by (simp only: set_append Un_iff) simp
    moreover have "sorted (take (nat limit) ?C @ drop (nat limit) ?C)" by (simp add: prune_candidates_def)
    ultimately show ?thesis using v unfolding sorted_append by blast
  qed
  have oldest: "\<forall>v\<in>set ?V. \<exists>t. eligible ttl current g t v \<and> (\<forall>k s. k \<notin> set ?V \<and> eligible ttl current g s k \<longrightarrow> (t, v) \<le> (s, k))"
  proof
    fix v assume "v \<in> set ?V"
    then obtain t where t: "(t, v) \<in> set (take (nat limit) ?C)" using mem by blast
    then have "eligible ttl current g t v" using in_set_takeD [OF t] by (simp add: candidates_set)
    then show "\<exists>t. eligible ttl current g t v \<and> (\<forall>k s. k \<notin> set ?V \<and> eligible ttl current g s k \<longrightarrow> (t, v) \<le> (s, k))"
      using older [OF t] by blast
  qed
  have len: "length (filter (\<lambda>k. k \<notin> set ?V) (rg_records g)) + length ?V = length (rg_records g)"
    by (rule removed_length [OF d dV sub])
  have cap: "int (length ?V) \<le> limit" "0 < int (length ?C) - int (length ?V) \<Longrightarrow> int (length ?V) = limit"
    using lim by auto
  have kept: "rg_records g' = filter (\<lambda>k. k \<notin> set ?V) (rg_records g)" unfolding st(1) by simp
  have counts: "pr_scanned st = pr_removed st + pr_remaining st" "pr_eligible st = pr_removed st + pr_eligible_remaining st"
    "pr_limit_reached st = (0 < pr_eligible_remaining st)" "int (length ?V) = pr_removed st" "pr_removed st \<le> limit"
    using len cap unfolding st(2-7) kept by linarith+
  show ?thesis using dV kept oldest counts by blast
qed

section \<open>A concrete history\<close>

definition demo_steps :: "bool request_registry \<Rightarrow> bool request_registry" where
  "demo_steps g = snd (snd (transition (\<lambda>_. False) (PInt 5) ''r'' Failed None (Some True)
     (snd (create_record (PInt 3) ''r'' ''a'' True 1000 1000 (snd (add_terminal_observer (PlainObserver 0) g))))))"

definition demo_failed :: "bool request_registry" where
  "demo_failed = demo_steps empty_registry"

definition demo_record :: "bool request_record" where
  "demo_record = \<lparr>rc_request_id = ''r'', rc_attempt_id = ''a'', rc_request = True, rc_queue_deadline = 4, rc_execution_timeout = 1,
     rc_lifecycle = Failed, rc_timestamps = [(''RECEIVED'', 3), (''FAILED'', 5)], rc_cancel_event = False, rc_result = None,
     rc_error = Some True\<rparr>"

lemma demo_failed_record: "dict_get (rg_objects demo_failed) ''r'' = Some demo_record"
  by code_simp

lemma demo_failed_reach: "reach history_init registry_step (demo_failed, [(''r'', PlainObserver 0)])"
proof -
  let ?g1 = "snd (add_terminal_observer (PlainObserver 0) (empty_registry :: bool request_registry))"
  let ?g2 = "snd (create_record (PInt 3) ''r'' ''a'' True 1000 1000 ?g1)"
  have i: "reach history_init registry_step (empty_registry :: bool request_registry, [])"
    by (rule reach_init) (simp add: history_init_def)
  have r1: "reach history_init registry_step (?g1, [])"
    by (rule reach_step, rule i, rule Observe)
  have "dict_get (rg_objects ?g1) ''r'' = None" by code_simp
  then have c: "registry_step (?g1, []) (?g2, [])" by (rule Create)
  have r2: "reach history_init registry_step (?g2, [])" by (rule reach_step, rule r1, rule c)
  have "fst (snd (transition (\<lambda>_. False) (PInt 5) ''r'' Failed None (Some True) ?g2)) = [PlainObserver 0]" by code_simp
  then have "transition (\<lambda>_. False) (PInt 5) ''r'' Failed None (Some True) ?g2 =
      (fst (transition (\<lambda>_. False) (PInt 5) ''r'' Failed None (Some True) ?g2), [PlainObserver 0], demo_failed)"
    by (simp add: prod_eq_iff demo_failed_def demo_steps_def)
  then have t: "registry_step (?g2, []) (demo_failed, [] @ map (Pair ''r'') [PlainObserver 0])" by (rule Transition)
  have "reach history_init registry_step (demo_failed, [] @ map (Pair ''r'') [PlainObserver 0])"
    by (rule reach_step, rule r2, rule t)
  then show ?thesis by simp
qed

theorem terminal_once_witness:
  "dict_get (rg_objects (snd (snd (cancel_request (\<lambda>_. False) (PInt 6) False ''r'' demo_failed)))) ''r'' = Some demo_record"
proof -
  let ?c = "cancel_request (\<lambda>_. False) (PInt 6) False ''r'' demo_failed"
  have "registry_step (demo_failed, [(''r'', PlainObserver 0)])
      (snd (snd ?c), [(''r'', PlainObserver 0)] @ map (Pair ''r'') (fst (snd ?c)))"
    by (rule Cancel [of _ _ _ _ _ "fst ?c"]) simp
  then show ?thesis
    using terminal_once [OF demo_failed_reach demo_failed_record _ r_into_rtranclp] by (simp add: demo_record_def TERMINAL_SET_def)
qed

theorem prune_oldest_first_witness:
  "\<exists>victims. rg_records (snd (prune_terminal PNone (PFloat (Finite 1)) (PInt 4) (PFloat (Finite 9)) demo_failed)) =
     filter (\<lambda>k. k \<notin> set victims) (rg_records demo_failed) \<and> length victims = 1"
proof -
  let ?p = "prune_terminal PNone (PFloat (Finite 1)) (PInt 4) (PFloat (Finite 9)) demo_failed"
  have "case fst ?p of Inl _ \<Rightarrow> False | Inr st \<Rightarrow> pr_removed st = 1" by code_simp
  then obtain st where st: "fst ?p = Inr st" "pr_removed st = 1" by (auto split: sum.splits)
  then have "?p = (Inr st, snd ?p)" by (simp add: prod_eq_iff)
  from prune_oldest_first [OF demo_failed_reach this] obtain victims where
    v: "rg_records (snd ?p) = filter (\<lambda>k. k \<notin> set victims) (rg_records demo_failed)" "int (length victims) = pr_removed st"
    by blast
  have "length victims = 1" using v(2) st(2) by simp
  with v(1) show ?thesis by blast
qed

end
