(* ===== verification/Simulator.thy ===== *)
theory Simulator
  imports SequenceContracts
begin

text \<open>
  \<open>inference_runtime/simulator.py\<close>: the single-threaded reference scheduler. Its backend, its clock and
  its event sink are objects behind protocols; they are one \<^emph>\<open>world\<close> of functions over a state of
  their own, which may raise and may return anything their protocol type allows. The operations of the
  scheduler pass its state along and keep what they changed before an exception.
\<close>

section \<open>Errors and the world\<close>

datatype sim_exc =
    SimAdmission string string
  | SimInvariant string
  | SimConformance string
  | SimContract contract_error
  | SimPy py_exc

text \<open>
  The calls of the simulator. Where the code checks the type of an answer, an answer of another type
  is \<^const>\<open>None\<close>.
\<close>

record ('r, 'w) sim_world =
  sw_now :: "'w \<Rightarrow> (py_exc + pyval) \<times> 'w"
  sw_publish :: "SchedulerEvent \<Rightarrow> 'w \<Rightarrow> (py_exc + unit) \<times> 'w"
  sw_open :: "'r \<Rightarrow> SchedulingMetadata \<Rightarrow> 'w \<Rightarrow> (py_exc + SequenceHandle option) \<times> 'w"
  sw_prefill :: "SequenceHandle \<Rightarrow> int \<Rightarrow> 'w \<Rightarrow> (py_exc + PrefillOutcome option) \<times> 'w"
  sw_decode :: "SequenceHandle \<Rightarrow> int \<Rightarrow> 'w \<Rightarrow> (py_exc + DecodeOutcome option) \<times> 'w"
  sw_release :: "SequenceHandle \<Rightarrow> 'w \<Rightarrow> (py_exc + ReleaseOutcome option) \<times> 'w"

definition finite_non_negative :: "pyval \<Rightarrow> string \<Rightarrow> py_exc + rat" where
  "finite_non_negative v field =
     (case finite_val v of
        Some t \<Rightarrow> if t < 0 then Inl (ValueError field) else Inr t
      | None \<Rightarrow> Inl (ValueError field))"

lemma finite_non_negative_Inr: "finite_non_negative v f = Inr t \<longleftrightarrow> finite_val v = Some t \<and> 0 \<le> t"
  by (auto simp: finite_non_negative_def split: option.splits if_splits)

text \<open>The test clock: a sum that leaves the range of a float is infinite.\<close>

definition FLOAT_OVERFLOW :: rat where "FLOAT_OVERFLOW = 2 ^ 1024 - 2 ^ 970"

definition fake_clock :: "pyval \<Rightarrow> py_exc + rat" where
  "fake_clock initial = finite_non_negative initial ''initial''"

definition fake_advance :: "pyval \<Rightarrow> rat \<Rightarrow> py_exc + rat" where
  "fake_advance seconds now =
     rbind (finite_non_negative seconds ''seconds'') (\<lambda>delta.
       if FLOAT_OVERFLOW \<le> now + delta then Inl (ValueError ''advanced clock value must remain finite'')
       else Inr (now + delta))"

section \<open>Policy\<close>

record SchedulerPolicy =
  sp_service_class_priorities :: "(string \<times> int) list"
  sp_aging_interval :: rat

definition pair_val :: "pyval \<Rightarrow> (pyval \<times> pyval) option" where
  "pair_val v = (case v of PTuple [a, b] \<Rightarrow> Some (a, b) | _ \<Rightarrow> None)"

fun policy_items :: "nat \<Rightarrow> (string \<times> int) list \<Rightarrow> pyval list \<Rightarrow> py_exc + (string \<times> int) list" where
  "policy_items i seen [] = Inr seen"
| "policy_items i seen (item # items) =
     (case pair_val item of
        None \<Rightarrow> Inl (ValueError ''must be a pair'')
      | Some (name, priority) \<Rightarrow>
          (case name of
             PStr n \<Rightarrow>
               if n = [] \<or> list_ex (\<lambda>c. (of_char c :: nat) < 32) n then Inl (ValueError ''has an invalid class'')
               else if n \<in> fst ` set seen then Inl (ValueError ''service class priorities must be unique'')
               else (case priority of
                       PInt p \<Rightarrow> if 1000000 < \<bar>p\<bar> then Inl (ValueError ''has an invalid priority'')
                                 else policy_items (Suc i) (seen @ [(n, p)]) items
                     | _ \<Rightarrow> Inl (ValueError ''has an invalid priority''))
           | _ \<Rightarrow> Inl (ValueError ''has an invalid class'')))"

definition mk_SchedulerPolicy :: "pyval \<Rightarrow> pyval \<Rightarrow> py_exc + SchedulerPolicy" where
  "mk_SchedulerPolicy service_class_priorities aging_interval =
     (case service_class_priorities of
        PTuple items \<Rightarrow>
          if items = [] then Inl (ValueError ''service_class_priorities must be a non-empty tuple'')
          else rbind (policy_items 0 [] items) (\<lambda>priorities.
               rbind (finite_non_negative aging_interval ''aging_interval'') (\<lambda>interval.
               if interval = 0 then Inl (ValueError ''aging_interval must be positive'')
               else Inr \<lparr>sp_service_class_priorities = priorities, sp_aging_interval = interval\<rparr>))
      | _ \<Rightarrow> Inl (ValueError ''service_class_priorities must be a non-empty tuple''))"

definition priority_for :: "SchedulerPolicy \<Rightarrow> string \<Rightarrow> sim_exc + int" where
  "priority_for p service_class =
     (case dict_get (sp_service_class_priorities p) service_class of
        Some priority \<Rightarrow> Inr priority
      | None \<Rightarrow> Inl (SimAdmission ''unknown_service_class'' service_class))"

section \<open>State\<close>

datatype SimLifecycle = SimAdmitted | SimPrefilling | SimDecoding | SimTerminal

datatype SimTermination = SimCompleted | SimCancelled | SimDeadlineExceeded | SimBackendError

datatype TickAction = TickIdle | TickOpenSequence | TickPrefill | TickDecode | TickBackendFailed

fun termination_value :: "SimTermination \<Rightarrow> string" where
  "termination_value SimCompleted = ''completed''"
| "termination_value SimCancelled = ''cancelled''"
| "termination_value SimDeadlineExceeded = ''deadline_exceeded''"
| "termination_value SimBackendError = ''backend_error''"

record TickOutcome =
  to_at_monotonic :: rat
  to_action :: TickAction
  to_selected_request_id :: "string option"
  to_expired_request_ids :: "string list"

record 'r sim_entry =
  se_request :: 'r
  se_scheduling :: SchedulingMetadata
  se_order :: int
  se_admitted_at :: rat
  se_lifecycle :: SimLifecycle
  se_termination :: "SimTermination option"
  se_handle :: "SequenceHandle option"
  se_service_steps :: int
  se_release_attempted :: bool
  se_release_status :: "ReleaseStatus option"
  se_terminal_at :: "rat option"

record RequestSnapshot =
  rs_request_id :: string
  rs_lifecycle :: SimLifecycle
  rs_termination :: "SimTermination option"
  rs_handle :: "SequenceHandle option"
  rs_service_steps :: int
  rs_release_status :: "ReleaseStatus option"
  rs_admitted_at :: rat
  rs_terminal_at :: "rat option"

text \<open>
  \<open>si_releases\<close> records, for the specification, the requests for whose handle the backend's \<open>release\<close>
  was called.
\<close>

record ('r, 'w) simulator =
  si_entries :: "(string, 'r sim_entry) odict"
  si_next_order :: int
  si_world :: 'w
  si_releases :: "string list"

record ('r, 'w) sim_config =
  cf_world :: "('r, 'w) sim_world"
  cf_capabilities :: BackendCapabilities
  cf_policy :: SchedulerPolicy

type_synonym ('r, 'w, 'a) sim = "('r, 'w) simulator \<Rightarrow> (sim_exc + 'a) \<times> ('r, 'w) simulator"

definition sim_bind :: "('r, 'w, 'a) sim \<Rightarrow> ('a \<Rightarrow> ('r, 'w, 'b) sim) \<Rightarrow> ('r, 'w, 'b) sim" where
  "sim_bind m f s = (case m s of (Inl e, t) \<Rightarrow> (Inl e, t) | (Inr x, t) \<Rightarrow> f x t)"

definition sim_return :: "'a \<Rightarrow> ('r, 'w, 'a) sim" where "sim_return x s = (Inr x, s)"

definition sim_raise :: "sim_exc \<Rightarrow> ('r, 'w, 'a) sim" where "sim_raise e s = (Inl e, s)"

definition sim_lift :: "sim_exc + 'a \<Rightarrow> ('r, 'w, 'a) sim" where "sim_lift r s = (r, s)"

definition sim_call :: "('w \<Rightarrow> (py_exc + 'a) \<times> 'w) \<Rightarrow> ('r, 'w, 'a) sim" where
  "sim_call f s =
     (case f (si_world s) of
        (Inl e, w) \<Rightarrow> (Inl (SimPy e), s\<lparr>si_world := w\<rparr>)
      | (Inr x, w) \<Rightarrow> (Inr x, s\<lparr>si_world := w\<rparr>))"

definition set_entry :: "string \<Rightarrow> 'r sim_entry \<Rightarrow> ('r, 'w) simulator \<Rightarrow> ('r, 'w) simulator" where
  "set_entry k e s = s\<lparr>si_entries := dict_set k e (si_entries s)\<rparr>"

definition new_simulator :: "('r, 'w) sim_config \<Rightarrow> 'w \<Rightarrow> (sim_exc + ('r, 'w) simulator)" where
  "new_simulator cf w =
     (if \<not> bc_supports_sequence_steps (cf_capabilities cf)
      then Inl (SimConformance ''backend does not advertise sequence-step support'')
      else case sw_now (cf_world cf) w of
        (Inl e, _) \<Rightarrow> Inl (SimPy e)
      | (Inr v, w') \<Rightarrow>
          (case finite_non_negative v ''clock.now()'' of
             Inl e \<Rightarrow> Inl (SimPy e)
           | Inr _ \<Rightarrow> Inr \<lparr>si_entries = [], si_next_order = 0, si_world = w', si_releases = []\<rparr>))"

section \<open>Views and events\<close>

definition sim_now :: "('r, 'w) sim_config \<Rightarrow> ('r, 'w, rat) sim" where
  "sim_now cf =
     sim_bind (sim_call (sw_now (cf_world cf))) (\<lambda>v.
       case finite_non_negative v ''clock.now()'' of Inl e \<Rightarrow> sim_raise (SimPy e) | Inr t \<Rightarrow> sim_return t)"

definition active_entries :: "('r, 'w) simulator \<Rightarrow> 'r sim_entry list" where
  "active_entries s = filter (\<lambda>e. se_lifecycle e \<noteq> SimTerminal) (dict_values (si_entries s))"

definition request_ids :: "'r sim_entry list \<Rightarrow> string list" where
  "request_ids es = map (\<lambda>e. sm_request_id (se_scheduling e)) (sort_key se_order es)"

definition active_request_ids :: "('r, 'w) simulator \<Rightarrow> string list" where
  "active_request_ids s = request_ids (active_entries s)"

definition terminal_request_ids :: "('r, 'w) simulator \<Rightarrow> string list" where
  "terminal_request_ids s =
     map (\<lambda>e. sm_request_id (se_scheduling e))
       (filter (\<lambda>e. se_lifecycle e = SimTerminal) (sort_key se_order (dict_values (si_entries s))))"

definition snapshot_of :: "'r sim_entry \<Rightarrow> RequestSnapshot" where
  "snapshot_of e =
     \<lparr>rs_request_id = sm_request_id (se_scheduling e), rs_lifecycle = se_lifecycle e, rs_termination = se_termination e,
      rs_handle = se_handle e, rs_service_steps = se_service_steps e, rs_release_status = se_release_status e,
      rs_admitted_at = se_admitted_at e, rs_terminal_at = se_terminal_at e\<rparr>"

definition sim_snapshot :: "string \<Rightarrow> ('r, 'w, RequestSnapshot) sim" where
  "sim_snapshot k s =
     (case dict_get (si_entries s) k of
        None \<Rightarrow> (Inl (SimPy (KeyErr (''unknown request: '' @ k))), s)
      | Some e \<Rightarrow> (Inr (snapshot_of e), s))"

definition sim_publish ::
  "('r, 'w) sim_config \<Rightarrow> SchedulerEventKind \<Rightarrow> 'r sim_entry \<Rightarrow> pyval \<Rightarrow> pyval \<Rightarrow> ('r, 'w, unit) sim" where
  "sim_publish cf kind e tokens error_code =
     sim_bind (sim_now cf) (\<lambda>now.
       case mk_SchedulerEvent kind (PStr (sm_request_id (se_scheduling e))) (PFloat (Finite now)) (se_handle e) tokens error_code of
         Inl x \<Rightarrow> sim_raise (SimContract x)
       | Inr event \<Rightarrow> sim_call (sw_publish (cf_world cf) event))"

section \<open>The end of a request\<close>

definition release_confirmed :: "ReleaseStatus option \<Rightarrow> bool" where
  "release_confirmed x \<longleftrightarrow> x \<in> {Some Released, Some AlreadyReleased}"

definition sim_release :: "('r, 'w) sim_config \<Rightarrow> string \<Rightarrow> 'r sim_entry \<Rightarrow> ('r, 'w, bool) sim" where
  "sim_release cf k e s =
     (case se_handle e of
        None \<Rightarrow> (Inr True, s)
      | Some h \<Rightarrow>
          if se_release_attempted e then (Inr (release_confirmed (se_release_status e)), s)
          else
            (let e1 = e\<lparr>se_release_attempted := True\<rparr>; s1 = (set_entry k e1 s)\<lparr>si_releases := si_releases s @ [k]\<rparr> in
             case sw_release (cf_world cf) h (si_world s1) of
               (Inl _, w) \<Rightarrow> (Inr False, s1\<lparr>si_world := w\<rparr>)
             | (Inr None, w) \<Rightarrow> (Inr False, s1\<lparr>si_world := w\<rparr>)
             | (Inr (Some out), w) \<Rightarrow>
                 if ro_handle out \<noteq> h then (Inr False, s1\<lparr>si_world := w\<rparr>)
                 else
                   (let e2 = e1\<lparr>se_release_status := Some (ro_status out)\<rparr>; s2 = set_entry k e2 (s1\<lparr>si_world := w\<rparr>) in
                    if release_confirmed (Some (ro_status out))
                    then sim_bind (sim_publish cf EvSequenceReleased e2 PNone PNone) (\<lambda>_. sim_return True) s2
                    else (Inr False, s2))))"

text \<open>\<open>error_code or default\<close>.\<close>

definition code_or :: "string option \<Rightarrow> string \<Rightarrow> string" where
  "code_or c other = (case c of None \<Rightarrow> other | Some s \<Rightarrow> if s = [] then other else s)"

text \<open>What \<open>_terminalize\<close> does after the release: the verdict, the event and the time of the end.\<close>

definition end_verdict :: "'r sim_entry \<Rightarrow> bool \<Rightarrow> SimTermination \<Rightarrow> string option \<Rightarrow> SimTermination \<times> string option" where
  "end_verdict e confirmed termination error_code =
     (if se_handle e \<noteq> None \<and> \<not> confirmed then (SimBackendError, Some ''backend_release_failed'')
      else (termination, error_code))"

definition announce_end :: "('r, 'w) sim_config \<Rightarrow> 'r sim_entry \<Rightarrow> SimTermination \<Rightarrow> string option \<Rightarrow> ('r, 'w, bool) sim" where
  "announce_end cf e termination error_code =
     sim_bind
       (if termination = SimCompleted then sim_publish cf EvRequestCompleted e PNone PNone
        else sim_publish cf EvRequestFailed e PNone (PStr (code_or error_code (termination_value termination))))
       (\<lambda>_. sim_return True)"

definition sim_finish ::
  "('r, 'w) sim_config \<Rightarrow> string \<Rightarrow> 'r sim_entry \<Rightarrow> SimTermination \<Rightarrow> string option \<Rightarrow> ('r, 'w, bool) sim" where
  "sim_finish cf k e termination error_code s =
     (let e1 = e\<lparr>se_lifecycle := SimTerminal, se_termination := Some termination\<rparr> in
      sim_bind (sim_now cf) (\<lambda>now t.
        (let e2 = e1\<lparr>se_terminal_at := Some now\<rparr> in announce_end cf e2 termination error_code (set_entry k e2 t)))
        (set_entry k e1 s))"

definition sim_terminalize ::
  "('r, 'w) sim_config \<Rightarrow> string \<Rightarrow> SimTermination \<Rightarrow> string option \<Rightarrow> ('r, 'w, bool) sim" where
  "sim_terminalize cf k termination error_code s =
     (case dict_get (si_entries s) k of
        None \<Rightarrow> (Inr False, s)
      | Some e \<Rightarrow>
          if se_lifecycle e = SimTerminal then (Inr False, s)
          else sim_bind (sim_release cf k e) (\<lambda>confirmed t.
            case dict_get (si_entries t) k of
              None \<Rightarrow> (Inr False, t)
            | Some e1 \<Rightarrow>
                (case end_verdict e1 confirmed termination error_code of
                   (verdict, code) \<Rightarrow> sim_finish cf k e1 verdict code t)) s)"

section \<open>One backend action\<close>

definition open_check :: "('r, 'w) sim_config \<Rightarrow> ('r, 'w) simulator \<Rightarrow> string \<Rightarrow> SequenceHandle option \<Rightarrow> sim_exc + SequenceHandle" where
  "open_check cf s k answer =
     (case answer of
        None \<Rightarrow> Inl (SimInvariant ''open_sequence returned an invalid handle'')
      | Some h \<Rightarrow>
          if sh_backend h \<noteq> bc_backend (cf_capabilities cf)
          then Inl (SimInvariant ''sequence handle backend does not match capabilities'')
          else if sh_model h \<notin> set (bc_models (cf_capabilities cf))
          then Inl (SimInvariant ''sequence handle model does not match capabilities'')
          else if list_ex (\<lambda>(k', e). k' \<noteq> k \<and> se_lifecycle e \<noteq> SimTerminal \<and> se_handle e = Some h) (si_entries s)
          then Inl (SimInvariant ''backend reused an active sequence handle'')
          else Inr h)"

definition sim_open :: "('r, 'w) sim_config \<Rightarrow> string \<Rightarrow> 'r sim_entry \<Rightarrow> ('r, 'w, TickAction) sim" where
  "sim_open cf k e =
     sim_bind (sim_call (sw_open (cf_world cf) (se_request e) (se_scheduling e))) (\<lambda>answer s.
       case open_check cf s k answer of
         Inl x \<Rightarrow> (Inl x, s)
       | Inr h \<Rightarrow>
           (let e1 = e\<lparr>se_handle := Some h, se_lifecycle := SimPrefilling\<rparr> in
            sim_bind (sim_publish cf EvSequenceOpened e1 PNone PNone) (\<lambda>_. sim_return TickOpenSequence)
              (set_entry k e1 s)))"

definition require_handle :: "'r sim_entry \<Rightarrow> ('r, 'w, SequenceHandle) sim" where
  "require_handle e =
     (case se_handle e of
        None \<Rightarrow> sim_raise (SimInvariant ''sequence action requires a handle'')
      | Some h \<Rightarrow> sim_return h)"

definition require_budget :: "int option \<Rightarrow> string \<Rightarrow> ('r, 'w, int) sim" where
  "require_budget limit message = (case limit of None \<Rightarrow> sim_raise (SimInvariant message) | Some n \<Rightarrow> sim_return n)"

definition sim_prefill :: "('r, 'w) sim_config \<Rightarrow> string \<Rightarrow> 'r sim_entry \<Rightarrow> ('r, 'w, TickAction) sim" where
  "sim_prefill cf k e =
     sim_bind (require_handle e) (\<lambda>h.
     sim_bind (require_budget (bc_max_prefill_tokens_per_step (cf_capabilities cf)) ''backend omitted prefill step limit'') (\<lambda>budget.
     sim_bind (sim_call (sw_prefill (cf_world cf) h budget)) (\<lambda>answer.
     case answer of
       None \<Rightarrow> sim_raise (SimInvariant ''prefill returned a mismatched outcome'')
     | Some out \<Rightarrow>
         if po_handle out \<noteq> h then sim_raise (SimInvariant ''prefill returned a mismatched outcome'')
         else if budget < po_processed_tokens out then sim_raise (SimInvariant ''prefill exceeded its token budget'')
         else
           sim_bind (sim_publish cf EvPrefillCompleted e (PInt (po_processed_tokens out)) PNone) (\<lambda>_ s.
             (Inr TickPrefill,
              if po_status out = PrefillReady then set_entry k (e\<lparr>se_lifecycle := SimDecoding\<rparr>) s else s)))))"

definition sim_decode :: "('r, 'w) sim_config \<Rightarrow> string \<Rightarrow> 'r sim_entry \<Rightarrow> ('r, 'w, TickAction) sim" where
  "sim_decode cf k e =
     sim_bind (require_handle e) (\<lambda>h.
     sim_bind (require_budget (bc_max_decode_tokens_per_step (cf_capabilities cf)) ''backend omitted decode step limit'') (\<lambda>budget.
     sim_bind (sim_call (sw_decode (cf_world cf) h budget)) (\<lambda>answer.
     case answer of
       None \<Rightarrow> sim_raise (SimInvariant ''decode returned a mismatched outcome'')
     | Some out \<Rightarrow>
         if do_handle out \<noteq> h then sim_raise (SimInvariant ''decode returned a mismatched outcome'')
         else if budget < int (length (do_token_ids out)) then sim_raise (SimInvariant ''decode exceeded its token budget'')
         else
           sim_bind (sim_publish cf EvDecodeCompleted e (PInt (int (length (do_token_ids out)))) PNone) (\<lambda>_.
           sim_bind
             (case do_status out of
                DecodeFinished \<Rightarrow> sim_terminalize cf k SimCompleted None
              | DecodeFailed \<Rightarrow> sim_terminalize cf k SimBackendError (Some (code_or (do_error_code out) ''backend_decode_failed''))
              | DecodeProgressed \<Rightarrow> sim_return True)
             (\<lambda>_. sim_return TickDecode)))))"

definition sim_action :: "('r, 'w) sim_config \<Rightarrow> string \<Rightarrow> 'r sim_entry \<Rightarrow> ('r, 'w, TickAction) sim" where
  "sim_action cf k e =
     (case se_lifecycle e of
        SimAdmitted \<Rightarrow> sim_open cf k e
      | SimPrefilling \<Rightarrow> sim_prefill cf k e
      | SimDecoding \<Rightarrow> sim_decode cf k e
      | SimTerminal \<Rightarrow> sim_raise (SimInvariant ''terminal entry was selected''))"

definition count_step :: "string \<Rightarrow> ('r, 'w) simulator \<Rightarrow> ('r, 'w) simulator" where
  "count_step k s =
     (case dict_get (si_entries s) k of
        None \<Rightarrow> s
      | Some e \<Rightarrow> set_entry k (e\<lparr>se_service_steps := se_service_steps e + 1\<rparr>) s)"

text \<open>The handler of \<open>except Exception\<close> runs on the state that the failed action left behind.\<close>

definition sim_step :: "('r, 'w) sim_config \<Rightarrow> string \<Rightarrow> 'r sim_entry \<Rightarrow> ('r, 'w, TickAction) sim" where
  "sim_step cf k e s =
     (case sim_action cf k e s of
        (Inl _, t) \<Rightarrow>
          sim_bind (sim_terminalize cf k SimBackendError (Some ''backend_operation_failed'')) (\<lambda>_. sim_return TickBackendFailed) t
      | (Inr action, t) \<Rightarrow> (Inr action, count_step k t))"

section \<open>Operations\<close>

definition fresh_entry :: "'r \<Rightarrow> SchedulingMetadata \<Rightarrow> int \<Rightarrow> rat \<Rightarrow> 'r sim_entry" where
  "fresh_entry request m order now =
     \<lparr>se_request = request, se_scheduling = m, se_order = order, se_admitted_at = now,
      se_lifecycle = SimAdmitted, se_termination = None, se_handle = None, se_service_steps = 0,
      se_release_attempted = False, se_release_status = None, se_terminal_at = None\<rparr>"

definition admit_at :: "('r, 'w) sim_config \<Rightarrow> 'r \<Rightarrow> SchedulingMetadata \<Rightarrow> rat \<Rightarrow> ('r, 'w, RequestSnapshot) sim" where
  "admit_at cf request m now s =
     (let k = sm_request_id m; e = fresh_entry request m (si_next_order s) now in
      if (case sm_deadline_monotonic m of None \<Rightarrow> False | Some d \<Rightarrow> d \<le> now)
      then (Inl (SimAdmission ''deadline_elapsed'' k), s)
      else if bc_max_concurrent_requests (cf_capabilities cf) \<le> int (length (active_request_ids s))
      then (Inl (SimAdmission ''capacity'' k), s)
      else sim_bind (sim_publish cf EvAdmitted e PNone PNone) (\<lambda>_. sim_return (snapshot_of e))
             (set_entry k e (s\<lparr>si_next_order := si_next_order s + 1\<rparr>)))"

definition sim_admit :: "('r, 'w) sim_config \<Rightarrow> 'r \<Rightarrow> SchedulingMetadata \<Rightarrow> ('r, 'w, RequestSnapshot) sim" where
  "sim_admit cf request m s =
     (if dict_get (si_entries s) (sm_request_id m) \<noteq> None
      then (Inl (SimAdmission ''duplicate_request'' (sm_request_id m)), s)
      else sim_bind (sim_lift (priority_for (cf_policy cf) (sm_service_class m))) (\<lambda>_.
           sim_bind (sim_now cf) (admit_at cf request m)) s)"

definition sim_cancel :: "('r, 'w) sim_config \<Rightarrow> string \<Rightarrow> ('r, 'w, bool) sim" where
  "sim_cancel cf k s =
     (case dict_get (si_entries s) k of
        None \<Rightarrow> (Inr False, s)
      | Some e \<Rightarrow>
          if se_lifecycle e = SimTerminal then (Inr False, s)
          else sim_bind (sim_terminalize cf k SimCancelled (Some ''cancelled'')) (\<lambda>_. sim_return True) s)"

fun expire_entries :: "('r, 'w) sim_config \<Rightarrow> rat \<Rightarrow> 'r sim_entry list \<Rightarrow> ('r, 'w, string list) sim" where
  "expire_entries cf now [] = sim_return []"
| "expire_entries cf now (e # es) =
     (if (case sm_deadline_monotonic (se_scheduling e) of None \<Rightarrow> False | Some d \<Rightarrow> d \<le> now)
      then
        sim_bind (sim_terminalize cf (sm_request_id (se_scheduling e)) SimDeadlineExceeded (Some ''deadline_exceeded'')) (\<lambda>_.
        sim_bind (expire_entries cf now es) (\<lambda>ks. sim_return (sm_request_id (se_scheduling e) # ks)))
      else expire_entries cf now es)"

definition holds_handle :: "'r sim_entry \<Rightarrow> bool" where
  "holds_handle e \<longleftrightarrow> se_handle e \<noteq> None \<and> \<not> se_release_attempted e"

definition eligible_entries :: "('r, 'w) sim_config \<Rightarrow> ('r, 'w, 'r sim_entry list) sim" where
  "eligible_entries cf s =
     (let active_handles = int (length (filter holds_handle (active_entries s))) in
      case bc_max_concurrent_sequences (cf_capabilities cf) of
        None \<Rightarrow> (Inl (SimInvariant ''steppable backend omitted sequence capacity''), s)
      | Some capacity \<Rightarrow>
          (Inr (filter (\<lambda>e. se_lifecycle e \<noteq> SimAdmitted \<or> active_handles < capacity) (active_entries s)), s))"

definition truncate_rat :: "rat \<Rightarrow> int" where
  "truncate_rat x = (if 0 \<le> x then \<lfloor>x\<rfloor> else \<lceil>x\<rceil>)"

definition sim_selection_key :: "('r, 'w) sim_config \<Rightarrow> rat \<Rightarrow> 'r sim_entry \<Rightarrow> sim_exc + (rat \<times> etime \<times> int)" where
  "sim_selection_key cf now e =
     rbind (priority_for (cf_policy cf) (sm_service_class (se_scheduling e))) (\<lambda>base_priority.
       let age_quanta = truncate_rat ((now - se_admitted_at e) / sp_aging_interval (cf_policy cf));
           effective_score = of_int (base_priority + age_quanta) - of_int (se_service_steps e) / of_int (sm_weight (se_scheduling e)) in
       Inr (- effective_score, etime_of (sm_deadline_monotonic (se_scheduling e)), se_order e))"

definition select_entry :: "('r, 'w) sim_config \<Rightarrow> rat \<Rightarrow> 'r sim_entry list \<Rightarrow> sim_exc + 'r sim_entry option" where
  "select_entry cf now es =
     rbind (rmap (sim_selection_key cf now) es) (\<lambda>keys. Inr (map_option snd (min_by fst (zip keys es))))"

definition tick_serve :: "('r, 'w) sim_config \<Rightarrow> rat \<Rightarrow> string list \<Rightarrow> ('r, 'w, TickOutcome) sim" where
  "tick_serve cf now expired s =
     (case eligible_entries cf s of
        (Inl x, t) \<Rightarrow> (Inl x, t)
      | (Inr eligible, t) \<Rightarrow>
          (case select_entry cf now eligible of
             Inl x \<Rightarrow> (Inl x, t)
           | Inr None \<Rightarrow>
               (Inr \<lparr>to_at_monotonic = now, to_action = TickIdle, to_selected_request_id = None, to_expired_request_ids = expired\<rparr>, t)
           | Inr (Some e) \<Rightarrow>
               sim_bind (sim_step cf (sm_request_id (se_scheduling e)) e) (\<lambda>action.
                 sim_return \<lparr>to_at_monotonic = now, to_action = action,
                   to_selected_request_id = Some (sm_request_id (se_scheduling e)), to_expired_request_ids = expired\<rparr>) t))"

definition tick_at :: "('r, 'w) sim_config \<Rightarrow> rat \<Rightarrow> ('r, 'w, TickOutcome) sim" where
  "tick_at cf now s = sim_bind (expire_entries cf now (sort_key se_order (active_entries s))) (tick_serve cf now) s"

definition sim_tick :: "('r, 'w) sim_config \<Rightarrow> ('r, 'w, TickOutcome) sim" where
  "sim_tick cf = sim_bind (sim_now cf) (tick_at cf)"

end
