(* ===== verification/SimulatorMachine.thy ===== *)
theory SimulatorMachine
  imports Simulator
begin

text \<open>
  The invariant of the reference scheduler under every operation, whatever its backend, clock and sink
  do, and its termination with a backend that makes progress.
\<close>

section \<open>What a call changes\<close>

definition world_only :: "('r, 'w, 'a) sim \<Rightarrow> bool" where
  "world_only m \<longleftrightarrow> (\<forall>s. \<exists>w. snd (m s) = s\<lparr>si_world := w\<rparr>)"

lemma world_only_call: "world_only (sim_call f)"
  by (auto simp: world_only_def sim_call_def split: prod.splits sum.splits)

lemma same_world: "\<exists>w. s = s\<lparr>si_world := w\<rparr>" for s :: "('r, 'w) simulator"
  by (intro exI [of _ "si_world s"]) simp

lemma world_only_leaf: "world_only (sim_raise x)" "world_only (sim_return y)" "world_only (sim_lift r)"
  by (simp_all add: world_only_def sim_raise_def sim_return_def sim_lift_def same_world)

lemma world_only_bind:
  assumes "world_only m" and "\<And>x. world_only (f x)"
  shows "world_only (sim_bind m f)"
  unfolding world_only_def
proof
  fix s
  obtain r t where m: "m s = (r, t)" by (cases "m s") auto
  obtain w where t: "t = s\<lparr>si_world := w\<rparr>" using assms(1) m unfolding world_only_def by (metis snd_conv)
  show "\<exists>w. snd (sim_bind m f s) = s\<lparr>si_world := w\<rparr>"
  proof (cases r)
    case (Inl e)
    then show ?thesis using m t by (auto simp: sim_bind_def)
  next
    case (Inr x)
    obtain w' where "snd (f x t) = t\<lparr>si_world := w'\<rparr>" using assms(2) [of x] unfolding world_only_def by blast
    then show ?thesis using m t Inr by (auto simp: sim_bind_def)
  qed
qed

lemma world_only_now: "world_only (sim_now cf)"
  unfolding sim_now_def by (intro world_only_bind world_only_call) (simp add: world_only_leaf split: sum.splits)

lemma world_only_publish: "world_only (sim_publish cf kind e x y)"
  unfolding sim_publish_def
  by (intro world_only_bind world_only_now) (simp add: world_only_leaf world_only_call split: sum.splits)

lemma world_only_publish_then: "world_only (sim_bind (sim_publish cf kind e x y) (\<lambda>_. sim_return z))"
  by (intro world_only_bind world_only_publish world_only_leaf)

lemma world_only_announce: "world_only (announce_end cf e tn code)"
  by (simp add: announce_end_def world_only_publish_then)

lemma world_onlyE:
  assumes "world_only m" and "m s = (r, t)"
  obtains w where "t = s\<lparr>si_world := w\<rparr>"
  using assms unfolding world_only_def by (metis snd_conv)

lemma set_entry_simps [simp]:
  "si_entries (set_entry k e s) = dict_set k e (si_entries s)"
  "si_releases (set_entry k e s) = si_releases s" "si_world (set_entry k e s) = si_world s"
  "si_next_order (set_entry k e s) = si_next_order s"
  by (simp_all add: set_entry_def)

section \<open>The invariant\<close>

definition active :: "'r sim_entry \<Rightarrow> bool" where "active e \<longleftrightarrow> se_lifecycle e \<noteq> SimTerminal"

definition entry_ok :: "SchedulerPolicy \<Rightarrow> string \<Rightarrow> 'r sim_entry \<Rightarrow> bool" where
  "entry_ok p k e \<longleftrightarrow>
     sm_request_id (se_scheduling e) = k \<and> metadata_wf (se_scheduling e) \<and>
     sm_service_class (se_scheduling e) \<in> fst ` set (sp_service_class_priorities p) \<and>
     (se_lifecycle e = SimAdmitted \<longrightarrow> se_handle e = None) \<and>
     (se_lifecycle e \<in> {SimPrefilling, SimDecoding} \<longrightarrow> se_handle e \<noteq> None) \<and>
     (se_release_attempted e \<longrightarrow> se_handle e \<noteq> None) \<and>
     (se_lifecycle e = SimTerminal \<and> se_handle e \<noteq> None \<longrightarrow> se_release_attempted e) \<and>
     (se_termination e \<noteq> None \<longleftrightarrow> se_lifecycle e = SimTerminal) \<and>
     (se_termination e = Some SimCompleted \<longrightarrow> se_handle e \<noteq> None \<and> release_confirmed (se_release_status e))"

definition tally :: "('e \<Rightarrow> bool) \<Rightarrow> (string, 'e) odict \<Rightarrow> int" where
  "tally P d = sum_list (map (\<lambda>e. if P e then 1 else 0) (dict_values d))"

lemma tally_filter: "tally P d = int (length (filter P (dict_values d)))"
  by (induction d) (auto simp: tally_def)

lemma tally_set_old:
  assumes "distinct (dict_keys d)" and "dict_get d k = Some e"
  shows "tally P (dict_set k e' d) = tally P d - (if P e then 1 else 0) + (if P e' then 1 else 0)"
  unfolding tally_def by (rule sum_values_set_old [OF assms])

lemma tally_set_new: "dict_get d k = None \<Longrightarrow> tally P (dict_set k e' d) = tally P d + (if P e' then 1 else 0)"
  unfolding tally_def by (rule sum_values_set_new)

definition holding :: "'r sim_entry \<Rightarrow> bool" where "holding e \<longleftrightarrow> active e \<and> holds_handle e"

definition fits :: "int option \<Rightarrow> int \<Rightarrow> bool" where
  "fits limit n \<longleftrightarrow> (case limit of None \<Rightarrow> n = 0 | Some m \<Rightarrow> n \<le> m)"

definition released_ok :: "(string, 'r sim_entry) odict \<Rightarrow> string list \<Rightarrow> bool" where
  "released_ok d ks \<longleftrightarrow> distinct ks \<and>
     (\<forall>k. k \<in> set ks \<longleftrightarrow> (case dict_get d k of None \<Rightarrow> False | Some e \<Rightarrow> se_release_attempted e))"

definition sim_inv :: "('r, 'w) sim_config \<Rightarrow> ('r, 'w) simulator \<Rightarrow> bool" where
  "sim_inv cf s \<longleftrightarrow>
     distinct (dict_keys (si_entries s)) \<and>
     (\<forall>k e. dict_get (si_entries s) k = Some e \<longrightarrow> entry_ok (cf_policy cf) k e) \<and>
     released_ok (si_entries s) (si_releases s) \<and>
     fits (bc_max_concurrent_sequences (cf_capabilities cf)) (tally holding (si_entries s)) \<and>
     tally active (si_entries s) \<le> bc_max_concurrent_requests (cf_capabilities cf)"

lemma sim_inv_world [simp]: "sim_inv cf (s\<lparr>si_world := w\<rparr>) \<longleftrightarrow> sim_inv cf s"
  by (simp add: sim_inv_def)

lemma world_only_inv: "world_only m \<Longrightarrow> sim_inv cf s \<Longrightarrow> sim_inv cf (snd (m s))"
  by (cases "m s") (auto elim!: world_onlyE)

lemma sim_invD:
  assumes "sim_inv cf s"
  shows "distinct (dict_keys (si_entries s))" and "dict_get (si_entries s) k = Some e \<Longrightarrow> entry_ok (cf_policy cf) k e"
    and "released_ok (si_entries s) (si_releases s)"
    and "fits (bc_max_concurrent_sequences (cf_capabilities cf)) (tally holding (si_entries s))"
    and "tally active (si_entries s) \<le> bc_max_concurrent_requests (cf_capabilities cf)"
  using assms by (auto simp: sim_inv_def)

lemma fits_mono: "fits l n \<Longrightarrow> m \<le> n \<Longrightarrow> 0 \<le> m \<Longrightarrow> fits l m"
  by (auto simp: fits_def split: option.splits)

lemma tally_nonneg: "0 \<le> tally P d"
  by (simp add: tally_filter)

text \<open>Replacing an entry by one that holds no more than before.\<close>

lemma sim_inv_set:
  assumes inv: "sim_inv cf s" and get: "dict_get (si_entries s) k = Some e" and ok: "entry_ok (cf_policy cf) k e'"
    and "active e' \<Longrightarrow> active e" and "holding e' \<Longrightarrow> holding e"
    and "se_release_attempted e' = se_release_attempted e"
  shows "sim_inv cf (set_entry k e' s)"
proof -
  note I = sim_invD [OF inv]
  have "tally active (dict_set k e' (si_entries s)) \<le> tally active (si_entries s)"
    "tally holding (dict_set k e' (si_entries s)) \<le> tally holding (si_entries s)"
    using assms(4,5) by (auto simp: tally_set_old [OF I(1) get])
  moreover have "released_ok (dict_set k e' (si_entries s)) (si_releases s)"
    using I(3) get assms(6) by (auto simp: released_ok_def)
  ultimately show ?thesis
    using I ok fits_mono [OF I(4) _ tally_nonneg] by (auto simp: sim_inv_def distinct_update split: if_splits)
qed

text \<open>A release is attempted for an active entry that holds its handle.\<close>

lemma sim_inv_release:
  assumes inv: "sim_inv cf s" and get: "dict_get (si_entries s) k = Some e" and ok: "entry_ok (cf_policy cf) k e'"
    and "active e" and "se_release_attempted e'" and "\<not> se_release_attempted e"
  shows "sim_inv cf ((set_entry k e' s)\<lparr>si_releases := si_releases s @ [k]\<rparr>)"
proof -
  note I = sim_invD [OF inv]
  have "tally active (dict_set k e' (si_entries s)) \<le> tally active (si_entries s)"
    "tally holding (dict_set k e' (si_entries s)) \<le> tally holding (si_entries s)"
    using assms(4,5) by (auto simp: tally_set_old [OF I(1) get] holding_def holds_handle_def)
  moreover have "released_ok (dict_set k e' (si_entries s)) (si_releases s @ [k])"
    using I(3) get assms(5,6) by (auto simp: released_ok_def)
  ultimately show ?thesis
    using I ok fits_mono [OF I(4) _ tally_nonneg] by (auto simp: sim_inv_def distinct_update split: if_splits)
qed

section \<open>The end of a request\<close>

lemma sim_bind_cases:
  assumes "sim_bind m f s = (r, t)"
  obtains (raised) x where "m s = (Inl x, t)" and "r = Inl x" | (returned) y u where "m s = (Inr y, u)" and "f y u = (r, t)"
  using assms by (auto simp: sim_bind_def split: prod.splits sum.splits)

definition same_request :: "'r sim_entry \<Rightarrow> 'r sim_entry \<Rightarrow> bool" where
  "same_request e e' \<longleftrightarrow> se_scheduling e' = se_scheduling e \<and> se_handle e' = se_handle e \<and>
     se_lifecycle e' = se_lifecycle e \<and> se_termination e' = se_termination e"

lemma sim_release_effect:
  assumes inv: "sim_inv cf s" and get: "dict_get (si_entries s) k = Some e" and act: "active e"
    and call: "sim_release cf k e s = (r, t)"
  shows "sim_inv cf t \<and> (\<exists>e'. dict_get (si_entries t) k = Some e' \<and> same_request e e' \<and>
    (se_handle e \<noteq> None \<longrightarrow> se_release_attempted e') \<and>
    (\<forall>x. r = Inr x \<longrightarrow> x \<longrightarrow> se_handle e = None \<or> release_confirmed (se_release_status e')))"
proof -
  have ok: "entry_ok (cf_policy cf) k e" by (rule sim_invD(2) [OF inv get])
  show ?thesis
  proof (cases "se_handle e = None \<or> se_release_attempted e")
    case True
    then have "t = s" "\<forall>x. r = Inr x \<longrightarrow> x \<longrightarrow> se_handle e = None \<or> release_confirmed (se_release_status e)"
      using call by (auto simp: sim_release_def split: option.splits if_splits)
    then show ?thesis using True inv get by (auto simp: same_request_def)
  next
    case False
    then obtain h where h: "se_handle e = Some h" and new: "\<not> se_release_attempted e" by auto
    let ?e1 = "e\<lparr>se_release_attempted := True\<rparr>"
    let ?s1 = "(set_entry k ?e1 s)\<lparr>si_releases := si_releases s @ [k]\<rparr>"
    have ok1: "entry_ok (cf_policy cf) k ?e1" "entry_ok (cf_policy cf) k (?e1\<lparr>se_release_status := x\<rparr>)" for x
      using ok act h by (auto simp: entry_ok_def active_def)
    have s1: "sim_inv cf ?s1" by (rule sim_inv_release [OF inv get ok1(1) act]) (use new in auto)
    have s2: "sim_inv cf (set_entry k (?e1\<lparr>se_release_status := x\<rparr>) (?s1\<lparr>si_world := w\<rparr>))" for x w
      by (rule sim_inv_set [where e = ?e1]) (use s1 ok1 in \<open>auto simp: active_def holding_def holds_handle_def\<close>)
    obtain a w where a: "sw_release (cf_world cf) h (si_world ?s1) = (a, w)" by fastforce
    let ?e2 = "\<lambda>x. ?e1\<lparr>se_release_status := x\<rparr>"
    let ?s2 = "\<lambda>x. set_entry k (?e2 x) (?s1\<lparr>si_world := w\<rparr>)"
    let ?announce = "\<lambda>x. sim_bind (sim_publish cf EvSequenceReleased (?e2 x) PNone PNone) (\<lambda>_. sim_return True) (?s2 x)"
    consider
        (unknown) "r = Inr False" "t = ?s1\<lparr>si_world := w\<rparr>"
      | (refused) x where "r = Inr False" "t = ?s2 x"
      | (confirmed) x where "release_confirmed x" "?announce x = (r, t)"
    proof (cases "\<exists>out. a = Inr (Some out) \<and> ro_handle out = h")
      case True
      then obtain out where out: "a = Inr (Some out)" "ro_handle out = h" by blast
      have "(r, t) = (if release_confirmed (Some (ro_status out)) then ?announce (Some (ro_status out))
          else (Inr False, ?s2 (Some (ro_status out))))"
        unfolding call [symmetric] sim_release_def using h new a out by (simp add: Let_def)
      then show ?thesis using that(2,3) by (auto split: if_splits)
    next
      case False
      then have "(r, t) = (Inr False, ?s1\<lparr>si_world := w\<rparr>)"
        unfolding call [symmetric] sim_release_def using h new a by (auto simp: Let_def split: sum.splits option.splits)
      then show ?thesis using that(1) by simp
    qed
    then show ?thesis
    proof cases
      case unknown
      then show ?thesis using s1 by (simp add: same_request_def)
    next
      case refused
      then show ?thesis using s2 by (simp add: same_request_def)
    next
      case confirmed
      obtain w' where "t = (?s2 x)\<lparr>si_world := w'\<rparr>"
        using world_onlyE [OF world_only_publish_then confirmed(2)] by blast
      then show ?thesis using s2 confirmed(1) by (simp add: same_request_def)
    qed
  qed
qed

definition ended_entry :: "string \<Rightarrow> ('r, 'w) simulator \<Rightarrow> bool" where
  "ended_entry k s \<longleftrightarrow> (\<forall>e. dict_get (si_entries s) k = Some e \<longrightarrow> \<not> active e)"

lemma sim_finish_effect:
  assumes inv: "sim_inv cf s" and get: "dict_get (si_entries s) k = Some e"
    and ok: "\<And>x. entry_ok (cf_policy cf) k (e\<lparr>se_lifecycle := SimTerminal, se_termination := Some tn, se_terminal_at := x\<rparr>)"
    and call: "sim_finish cf k e tn code s = (r, t)"
  shows "sim_inv cf t \<and> ended_entry k t"
proof -
  let ?e1 = "e\<lparr>se_lifecycle := SimTerminal, se_termination := Some tn\<rparr>"
  let ?e2 = "\<lambda>n. ?e1\<lparr>se_terminal_at := n\<rparr>"
  have s2: "sim_inv cf (set_entry k (?e2 x) s) \<and> ended_entry k (set_entry k (?e2 x) s)" for x
    using sim_inv_set [OF inv get ok [of x]] by (simp add: active_def holding_def ended_entry_def)
  have e1: "?e1 = ?e2 (se_terminal_at e)" by simp
  from call have "sim_bind (sim_now cf) (\<lambda>now u. announce_end cf (?e2 (Some now)) tn code (set_entry k (?e2 (Some now)) u))
      (set_entry k ?e1 s) = (r, t)" by (simp add: sim_finish_def Let_def)
  then show ?thesis
  proof (cases rule: sim_bind_cases)
    case (raised x)
    then obtain w where "t = (set_entry k ?e1 s)\<lparr>si_world := w\<rparr>" using world_onlyE [OF world_only_now] by blast
    then show ?thesis using s2 [of "se_terminal_at e"] e1 by (simp add: ended_entry_def)
  next
    case (returned n u)
    obtain w where u: "u = (set_entry k ?e1 s)\<lparr>si_world := w\<rparr>" using world_onlyE [OF world_only_now returned(1)] by blast
    obtain w' where t: "t = (set_entry k (?e2 (Some n)) u)\<lparr>si_world := w'\<rparr>"
      using world_onlyE [OF world_only_announce returned(2)] by blast
    have "t = (set_entry k (?e2 (Some n)) s)\<lparr>si_world := w'\<rparr>" unfolding t u by (simp add: set_entry_def)
    then show ?thesis using s2 [of "Some n"] by (simp add: ended_entry_def)
  qed
qed

lemma sim_terminalize_effect:
  assumes inv: "sim_inv cf s" and call: "sim_terminalize cf k termination code s = (r, t)"
    and completed: "termination = SimCompleted \<Longrightarrow> \<exists>e h. dict_get (si_entries s) k = Some e \<and> se_handle e = Some h"
  shows "sim_inv cf t \<and> (\<forall>x. r = Inr x \<longrightarrow> ended_entry k t)"
proof (cases "\<exists>e. dict_get (si_entries s) k = Some e \<and> active e")
  case False
  then have "t = s" using call by (auto simp: sim_terminalize_def active_def split: option.splits if_splits)
  then show ?thesis using False inv by (auto simp: ended_entry_def)
next
  case True
  then obtain e where get: "dict_get (si_entries s) k = Some e" and act: "active e" by blast
  obtain r1 u where rel: "sim_release cf k e s = (r1, u)" by fastforce
  from sim_release_effect [OF inv get act rel] obtain e1 where u: "sim_inv cf u" "dict_get (si_entries u) k = Some e1"
    and e1: "same_request e e1" "se_handle e \<noteq> None \<longrightarrow> se_release_attempted e1"
      "\<And>x. r1 = Inr x \<Longrightarrow> x \<Longrightarrow> se_handle e = None \<or> release_confirmed (se_release_status e1)" by blast
  show ?thesis
  proof (cases r1)
    case (Inl x)
    then have "t = u" "r = Inl x" using call get act rel by (auto simp: sim_terminalize_def sim_bind_def active_def)
    then show ?thesis using u(1) by simp
  next
    case (Inr confirmed)
    obtain tn c where v: "end_verdict e1 confirmed termination code = (tn, c)" by fastforce
    then have call: "sim_finish cf k e1 tn c u = (r, t)"
      using call get act rel u(2) Inr by (simp add: sim_terminalize_def active_def sim_bind_def)
    have verdict: "se_handle e1 \<noteq> None \<and> release_confirmed (se_release_status e1)" if tn: "tn = SimCompleted"
    proof -
      have "termination = SimCompleted" "se_handle e1 = None \<or> confirmed"
        using v tn by (auto simp: end_verdict_def split: if_splits)
      moreover have "se_handle e \<noteq> None" using completed [OF calculation(1)] get by auto
      moreover have "se_handle e1 = se_handle e" using e1(1) by (simp add: same_request_def)
      ultimately show ?thesis using e1(3) [OF Inr] by auto
    qed
    have e1_ok: "entry_ok (cf_policy cf) k e1" by (rule sim_invD(2) [OF u])
    have attempted: "se_handle e1 \<noteq> None \<longrightarrow> se_release_attempted e1" using e1(1,2) by (simp add: same_request_def)
    have "entry_ok (cf_policy cf) k (e1\<lparr>se_lifecycle := SimTerminal, se_termination := Some tn, se_terminal_at := x\<rparr>)" for x
      using e1_ok attempted verdict by (simp add: entry_ok_def)
    from sim_finish_effect [OF u this call] show ?thesis by blast
  qed
qed

section \<open>Backend actions\<close>

lemma sim_inv_open:
  assumes inv: "sim_inv cf s" and get: "dict_get (si_entries s) k = Some e" and new: "se_lifecycle e = SimAdmitted"
    and room: "bc_max_concurrent_sequences (cf_capabilities cf) = Some cap" "tally holding (si_entries s) < cap"
  shows "sim_inv cf (set_entry k (e\<lparr>se_handle := Some h, se_lifecycle := SimPrefilling\<rparr>) s)"
proof -
  note I = sim_invD [OF inv]
  let ?e = "e\<lparr>se_handle := Some h, se_lifecycle := SimPrefilling\<rparr>"
  have ok: "entry_ok (cf_policy cf) k e" by (rule I(2) [OF get])
  then have idle: "se_handle e = None" "\<not> se_release_attempted e" using new by (auto simp: entry_ok_def)
  have "tally active (dict_set k ?e (si_entries s)) = tally active (si_entries s)"
    "tally holding (dict_set k ?e (si_entries s)) = tally holding (si_entries s) + 1"
    using idle new by (simp_all add: tally_set_old [OF I(1) get] active_def holding_def holds_handle_def)
  moreover have "released_ok (dict_set k ?e (si_entries s)) (si_releases s)"
    using I(3) get by (auto simp: released_ok_def)
  moreover have "entry_ok (cf_policy cf) k ?e" using ok new idle by (simp add: entry_ok_def)
  ultimately have "\<forall>j x. dict_get (dict_set k ?e (si_entries s)) j = Some x \<longrightarrow> entry_ok (cf_policy cf) j x"
    "fits (bc_max_concurrent_sequences (cf_capabilities cf)) (tally holding (dict_set k ?e (si_entries s)))"
    "tally active (dict_set k ?e (si_entries s)) \<le> bc_max_concurrent_requests (cf_capabilities cf)"
    "released_ok (dict_set k ?e (si_entries s)) (si_releases s)"
    using I(2,5) room by (simp_all add: fits_def)
  then show ?thesis using distinct_update [OF I(1)] by (simp add: sim_inv_def)
qed

lemma sim_open_inv:
  assumes inv: "sim_inv cf s" and get: "dict_get (si_entries s) k = Some e" and new: "se_lifecycle e = SimAdmitted"
    and room: "bc_max_concurrent_sequences (cf_capabilities cf) = Some cap" "tally holding (si_entries s) < cap"
    and call: "sim_open cf k e s = (r, t)"
  shows "sim_inv cf t"
  using call unfolding sim_open_def
proof (cases rule: sim_bind_cases)
  case (raised x)
  obtain w where "t = s\<lparr>si_world := w\<rparr>" using world_onlyE [OF world_only_call raised(1)] by blast
  then show ?thesis using inv by simp
next
  case (returned answer u)
  obtain w where u: "u = s\<lparr>si_world := w\<rparr>" using world_onlyE [OF world_only_call returned(1)] by blast
  show ?thesis
  proof (cases "open_check cf u k answer")
    case (Inl x)
    then have "t = u" using returned(2) by simp
    then show ?thesis using u inv by simp
  next
    case (Inr h)
    let ?e = "e\<lparr>se_handle := Some h, se_lifecycle := SimPrefilling\<rparr>"
    have "sim_bind (sim_publish cf EvSequenceOpened ?e PNone PNone) (\<lambda>_. sim_return TickOpenSequence) (set_entry k ?e u) = (r, t)"
      using returned(2) Inr by (simp add: Let_def)
    then obtain w' where "t = (set_entry k ?e u)\<lparr>si_world := w'\<rparr>" by (rule world_onlyE [OF world_only_publish_then])
    moreover have "sim_inv cf (set_entry k ?e u)"
      by (rule sim_inv_open [OF _ _ new room(1)]) (simp_all add: u inv get room(2))
    ultimately show ?thesis by simp
  qed
qed

lemma sim_bind_raise [simp]: "sim_bind (sim_raise x) f s = (Inl x, s)" "sim_bind (sim_return y) f s = f y s"
  "sim_raise x s = (Inl x, s)" "sim_return y s = (Inr y, s)"
  by (simp_all add: sim_bind_def sim_raise_def sim_return_def)

text \<open>The calls before the entry is touched again: the answer, checked and announced.\<close>

lemma world_only_cases:
  assumes "world_only m" and "sim_bind m f s = (r, t)"
  obtains (raised) x w where "r = Inl x" and "t = s\<lparr>si_world := w\<rparr>"
  | (returned) y w where "m s = (Inr y, s\<lparr>si_world := w\<rparr>)" and "f y (s\<lparr>si_world := w\<rparr>) = (r, t)"
  using assms(2)
proof (cases rule: sim_bind_cases)
  case (raised x)
  then show ?thesis using that(1) world_onlyE [OF assms(1) raised(1)] by blast
next
  case (returned y u)
  then show ?thesis using that(2) world_onlyE [OF assms(1) returned(1)] by blast
qed

lemma sim_prefill_inv:
  assumes inv: "sim_inv cf s" and get: "dict_get (si_entries s) k = Some e" and pre: "se_lifecycle e = SimPrefilling"
    and call: "sim_prefill cf k e s = (r, t)"
  shows "sim_inv cf t"
proof -
  have ready: "sim_inv cf (set_entry k (e\<lparr>se_lifecycle := SimDecoding\<rparr>) (s\<lparr>si_world := w\<rparr>))" for w
    by (rule sim_inv_set [where e = e])
      (use inv get pre sim_invD(2) [OF inv get] in \<open>auto simp: entry_ok_def active_def holding_def holds_handle_def\<close>)
  have none: "sim_inv cf (s\<lparr>si_world := w\<rparr>)" for w using inv by simp
  show ?thesis
  proof (cases "se_handle e")
    case None
    then show ?thesis using call inv by (simp add: sim_prefill_def require_handle_def)
  next
    case (Some h)
    show ?thesis
    proof (cases "bc_max_prefill_tokens_per_step (cf_capabilities cf)")
      case None
      then show ?thesis using call inv Some by (simp add: sim_prefill_def require_handle_def require_budget_def)
    next
      case (Some budget)
      let ?rest = "\<lambda>answer. case answer of
         None \<Rightarrow> sim_raise (SimInvariant ''prefill returned a mismatched outcome'')
       | Some out \<Rightarrow>
           if po_handle out \<noteq> h then sim_raise (SimInvariant ''prefill returned a mismatched outcome'')
           else if budget < po_processed_tokens out then sim_raise (SimInvariant ''prefill exceeded its token budget'')
           else
             sim_bind (sim_publish cf EvPrefillCompleted e (PInt (po_processed_tokens out)) PNone) (\<lambda>_ s.
               (Inr TickPrefill,
                if po_status out = PrefillReady then set_entry k (e\<lparr>se_lifecycle := SimDecoding\<rparr>) s else s))"
      have "sim_bind (sim_call (sw_prefill (cf_world cf) h budget)) ?rest s = (r, t)"
        using call Some \<open>se_handle e = Some h\<close> by (simp add: sim_prefill_def require_handle_def require_budget_def)
      from world_only_call this show ?thesis
      proof (cases rule: world_only_cases)
        case (raised x w)
        then show ?thesis using none by simp
      next
        case (returned answer w)
        show ?thesis
        proof (cases "\<exists>out. answer = Some out \<and> po_handle out = h \<and> \<not> budget < po_processed_tokens out")
          case False
          then have "t = s\<lparr>si_world := w\<rparr>" using returned(2) by (auto split: option.splits if_splits)
          then show ?thesis using none by simp
        next
          case True
          then obtain out where out: "answer = Some out" "po_handle out = h" "\<not> budget < po_processed_tokens out" by blast
          have "sim_bind (sim_publish cf EvPrefillCompleted e (PInt (po_processed_tokens out)) PNone) (\<lambda>_ s.
               (Inr TickPrefill,
                if po_status out = PrefillReady then set_entry k (e\<lparr>se_lifecycle := SimDecoding\<rparr>) s else s)) (s\<lparr>si_world := w\<rparr>) = (r, t)"
            using returned(2) out by simp
          from world_only_publish this show ?thesis
          proof (cases rule: world_only_cases)
            case (raised x w')
            then show ?thesis using none by simp
          next
            case (returned y w')
            then show ?thesis using none ready by (auto split: if_splits)
          qed
        qed
      qed
    qed
  qed
qed

lemma sim_decode_inv:
  assumes inv: "sim_inv cf s" and get: "dict_get (si_entries s) k = Some e" and call: "sim_decode cf k e s = (r, t)"
  shows "sim_inv cf t"
proof (cases "\<exists>h budget. se_handle e = Some h \<and> bc_max_decode_tokens_per_step (cf_capabilities cf) = Some budget")
  case False
  then show ?thesis using call inv
    by (auto simp: sim_decode_def require_handle_def require_budget_def split: option.splits)
next
  case True
  then obtain h budget where h: "se_handle e = Some h" "bc_max_decode_tokens_per_step (cf_capabilities cf) = Some budget" by blast
  have none: "sim_inv cf (s\<lparr>si_world := w\<rparr>)" for w using inv by simp
  have terminalize: "sim_inv cf t" if "sim_terminalize cf k tn c (s\<lparr>si_world := w\<rparr>) = (r', t)" for tn c w r' t
    using sim_terminalize_effect [OF none that] get h by simp
  let ?settle = "\<lambda>out. case do_status out of
          DecodeFinished \<Rightarrow> sim_terminalize cf k SimCompleted None
        | DecodeFailed \<Rightarrow> sim_terminalize cf k SimBackendError (Some (code_or (do_error_code out) ''backend_decode_failed''))
        | DecodeProgressed \<Rightarrow> sim_return True"
  let ?rest = "\<lambda>answer. case answer of
         None \<Rightarrow> sim_raise (SimInvariant ''decode returned a mismatched outcome'')
       | Some out \<Rightarrow>
           if do_handle out \<noteq> h then sim_raise (SimInvariant ''decode returned a mismatched outcome'')
           else if budget < int (length (do_token_ids out)) then sim_raise (SimInvariant ''decode exceeded its token budget'')
           else
             sim_bind (sim_publish cf EvDecodeCompleted e (PInt (int (length (do_token_ids out)))) PNone) (\<lambda>_.
             sim_bind (?settle out) (\<lambda>_. sim_return TickDecode))"
  have "sim_bind (sim_call (sw_decode (cf_world cf) h budget)) ?rest s = (r, t)"
    using call h by (simp add: sim_decode_def require_handle_def require_budget_def)
  from world_only_call this show ?thesis
  proof (cases rule: world_only_cases)
    case (raised x w)
    then show ?thesis using none by simp
  next
    case (returned answer w)
    show ?thesis
    proof (cases "\<exists>out. answer = Some out \<and> do_handle out = h \<and> \<not> budget < int (length (do_token_ids out))")
      case False
      then have "t = s\<lparr>si_world := w\<rparr>" using returned(2) by (auto split: option.splits if_splits)
      then show ?thesis using none by simp
    next
      case True
      then obtain out where out: "answer = Some out" "do_handle out = h" "\<not> budget < int (length (do_token_ids out))" by blast
      have "sim_bind (sim_publish cf EvDecodeCompleted e (PInt (int (length (do_token_ids out)))) PNone) (\<lambda>_.
             sim_bind (?settle out) (\<lambda>_. sim_return TickDecode)) (s\<lparr>si_world := w\<rparr>) = (r, t)"
        using returned(2) out by simp
      from world_only_publish this show ?thesis
      proof (cases rule: world_only_cases)
        case (raised x w')
        then show ?thesis using none by simp
      next
        case (returned y w')
        from returned(2) have "t = snd (?settle out (s\<lparr>si_world := w'\<rparr>))"
          by (auto simp: sim_bind_def split: prod.splits sum.splits)
        then show ?thesis using terminalize none by (auto split: DecodeStatus.splits) (metis prod.collapse)+
      qed
    qed
  qed
qed

lemma count_step_inv:
  assumes "sim_inv cf s"
  shows "sim_inv cf (count_step k s)"
proof (cases "dict_get (si_entries s) k")
  case None
  then show ?thesis using assms by (simp add: count_step_def)
next
  case (Some e)
  have "sim_inv cf (set_entry k (e\<lparr>se_service_steps := n\<rparr>) s)" for n
    by (rule sim_inv_set [OF assms Some])
      (use sim_invD(2) [OF assms Some] in \<open>simp_all add: entry_ok_def active_def holding_def holds_handle_def\<close>)
  then show ?thesis using Some by (simp add: count_step_def)
qed

lemma sim_step_inv:
  assumes inv: "sim_inv cf s" and get: "dict_get (si_entries s) k = Some e"
    and room: "se_lifecycle e = SimAdmitted \<Longrightarrow>
      \<exists>cap. bc_max_concurrent_sequences (cf_capabilities cf) = Some cap \<and> tally holding (si_entries s) < cap"
    and call: "sim_step cf k e s = (r, t)"
  shows "sim_inv cf t"
proof -
  obtain a u where act: "sim_action cf k e s = (a, u)" by fastforce
  have u: "sim_inv cf u"
  proof (cases "se_lifecycle e")
    case SimAdmitted
    then show ?thesis using act room sim_open_inv [OF inv get SimAdmitted] by (auto simp: sim_action_def)
  next
    case SimPrefilling
    then show ?thesis using act sim_prefill_inv [OF inv get SimPrefilling] by (auto simp: sim_action_def)
  next
    case SimDecoding
    then show ?thesis using act sim_decode_inv [OF inv get] by (auto simp: sim_action_def)
  next
    case SimTerminal
    then show ?thesis using act inv by (simp add: sim_action_def)
  qed
  show ?thesis
  proof (cases a)
    case (Inl x)
    then have "t = snd (sim_terminalize cf k SimBackendError (Some ''backend_operation_failed'') u)"
      using call act by (auto simp: sim_step_def sim_bind_def split: prod.splits sum.splits)
    then show ?thesis using sim_terminalize_effect [OF u, of k SimBackendError] by (metis SimTermination.distinct(5) prod.collapse)
  next
    case (Inr action)
    then have "t = count_step k u" using call act by (simp add: sim_step_def)
    then show ?thesis using count_step_inv [OF u] by simp
  qed
qed

section \<open>Operations\<close>

lemma sim_cancel_inv:
  assumes inv: "sim_inv cf s" and call: "sim_cancel cf k s = (r, t)"
  shows "sim_inv cf t"
proof -
  have "t = s \<or> t = snd (sim_terminalize cf k SimCancelled (Some ''cancelled'') s)"
    using call by (auto simp: sim_cancel_def sim_bind_def split: option.splits if_splits prod.splits sum.splits)
  then show ?thesis using inv sim_terminalize_effect [OF inv, of k SimCancelled] by (metis SimTermination.distinct(1) prod.collapse)
qed

lemma expire_entries_inv:
  assumes "sim_inv cf s" and "expire_entries cf now es s = (r, t)"
  shows "sim_inv cf t"
  using assms
proof (induction es arbitrary: s r t)
  case Nil
  then show ?case by simp
next
  case (Cons e es)
  show ?case
  proof (cases "case sm_deadline_monotonic (se_scheduling e) of None \<Rightarrow> False | Some d \<Rightarrow> d \<le> now")
    case False
    then have "expire_entries cf now es s = (r, t)" using Cons.prems(2) by simp
    then show ?thesis by (rule Cons.IH [OF Cons.prems(1)])
  next
    case True
    let ?k = "sm_request_id (se_scheduling e)"
    obtain a u where fin: "sim_terminalize cf ?k SimDeadlineExceeded (Some ''deadline_exceeded'') s = (a, u)" by fastforce
    have u: "sim_inv cf u" using sim_terminalize_effect [OF Cons.prems(1) fin] by simp
    show ?thesis
    proof (cases a)
      case (Inl x)
      then show ?thesis using Cons.prems(2) True fin u by (simp add: sim_bind_def)
    next
      case (Inr x)
      obtain b v where rest: "expire_entries cf now es u = (b, v)" by fastforce
      then have "t = v" using Cons.prems(2) True fin Inr by (cases b) (simp_all add: sim_bind_def)
      then show ?thesis using Cons.IH [OF u rest] by simp
    qed
  qed
qed

lemma active_tally: "int (length (active_entries s)) = tally active (si_entries s)"
  unfolding active_entries_def tally_filter active_def [abs_def] by simp

lemma holding_tally: "int (length (filter holds_handle (active_entries s))) = tally holding (si_entries s)"
  unfolding active_entries_def tally_filter holding_def [abs_def] active_def filter_filter by (simp add: conj_commute)

lemma sim_inv_admit:
  assumes inv: "sim_inv cf s" and new: "dict_get (si_entries s) k = None" and ok: "entry_ok (cf_policy cf) k e"
    and e: "se_lifecycle e = SimAdmitted" and room: "tally active (si_entries s) < bc_max_concurrent_requests (cf_capabilities cf)"
  shows "sim_inv cf (set_entry k e (s\<lparr>si_next_order := n\<rparr>))"
proof -
  note I = sim_invD [OF inv]
  have idle: "se_handle e = None" "\<not> se_release_attempted e" using ok e by (auto simp: entry_ok_def)
  have "tally active (dict_set k e (si_entries s)) = tally active (si_entries s) + 1"
    "tally holding (dict_set k e (si_entries s)) = tally holding (si_entries s)"
    using idle e by (simp_all add: tally_set_new [OF new] active_def holding_def holds_handle_def)
  moreover have "released_ok (dict_set k e (si_entries s)) (si_releases s)"
    using I(3) new idle by (auto simp: released_ok_def)
  moreover have "\<forall>j x. dict_get (dict_set k e (si_entries s)) j = Some x \<longrightarrow> entry_ok (cf_policy cf) j x"
    using I(2) ok by simp
  ultimately show ?thesis using I(4) room distinct_update [OF I(1)] by (simp add: sim_inv_def)
qed

lemma priority_for_Inr: "priority_for p c = Inr x \<Longrightarrow> c \<in> fst ` set (sp_service_class_priorities p)"
  by (force simp: priority_for_def split: option.splits dest: map_of_SomeD)

lemma admit_at_inv:
  assumes inv: "sim_inv cf s" and ok: "entry_ok (cf_policy cf) (sm_request_id m) (fresh_entry request m (si_next_order s) now)"
    and new: "dict_get (si_entries s) (sm_request_id m) = None" and call: "admit_at cf request m now s = (r, t)"
  shows "sim_inv cf t"
proof -
  let ?e = "fresh_entry request m (si_next_order s) now"
  let ?v = "set_entry (sm_request_id m) ?e (s\<lparr>si_next_order := si_next_order s + 1\<rparr>)"
  have "t = s \<or> int (length (active_entries s)) < bc_max_concurrent_requests (cf_capabilities cf) \<and>
      sim_bind (sim_publish cf EvAdmitted ?e PNone PNone) (\<lambda>_. sim_return (snapshot_of ?e)) ?v = (r, t)"
    using call by (auto simp: admit_at_def Let_def active_request_ids_def request_ids_def split: if_splits)
  then show ?thesis
  proof (elim disjE conjE)
    assume "t = s"
    then show ?thesis using inv by simp
  next
    assume room: "int (length (active_entries s)) < bc_max_concurrent_requests (cf_capabilities cf)"
      and pub: "sim_bind (sim_publish cf EvAdmitted ?e PNone PNone) (\<lambda>_. sim_return (snapshot_of ?e)) ?v = (r, t)"
    have "sim_inv cf ?v" by (rule sim_inv_admit [OF inv new ok]) (use room in \<open>simp_all add: fresh_entry_def active_tally\<close>)
    moreover obtain w where "t = ?v\<lparr>si_world := w\<rparr>" using world_onlyE [OF world_only_publish_then pub] by blast
    ultimately show ?thesis by simp
  qed
qed

lemma sim_admit_inv:
  assumes inv: "sim_inv cf s" and m: "metadata_wf m" and call: "sim_admit cf request m s = (r, t)"
  shows "sim_inv cf t"
proof (cases "dict_get (si_entries s) (sm_request_id m)")
  case (Some e)
  then show ?thesis using call inv by (simp add: sim_admit_def)
next
  case None
  show ?thesis
  proof (cases "priority_for (cf_policy cf) (sm_service_class m)")
    case (Inl x)
    then show ?thesis using call None inv by (simp add: sim_admit_def sim_bind_def sim_lift_def)
  next
    case (Inr x)
    then have "sim_bind (sim_now cf) (admit_at cf request m) s = (r, t)"
      using call None by (simp add: sim_admit_def sim_bind_def [of "sim_lift y" for y] sim_lift_def)
    from world_only_now this show ?thesis
    proof (cases rule: world_only_cases)
      case (raised y w)
      then show ?thesis using inv by simp
    next
      case (returned now w)
      have "entry_ok (cf_policy cf) (sm_request_id m) (fresh_entry request m n now)" for n
        using m priority_for_Inr [OF Inr] by (simp add: entry_ok_def fresh_entry_def)
      then show ?thesis using admit_at_inv [OF _ _ _ returned(2)] inv None by simp
    qed
  qed
qed

text \<open>Values of the table are the entries of their keys.\<close>

lemma active_entry_get:
  assumes inv: "sim_inv cf s" and mem: "e \<in> set (active_entries s)"
  shows "dict_get (si_entries s) (sm_request_id (se_scheduling e)) = Some e"
proof -
  obtain k where k: "dict_get (si_entries s) k = Some e"
    using mem values_of_get [OF sim_invD(1) [OF inv]] by (auto simp: active_entries_def)
  then show ?thesis using sim_invD(2) [OF inv k] by (simp add: entry_ok_def)
qed

lemma select_entry_mem:
  assumes "select_entry cf now es = Inr (Some e)"
  shows "e \<in> set es"
proof -
  obtain keys where keys: "rmap (sim_selection_key cf now) es = Inr keys" and "map_option snd (min_by fst (zip keys es)) = Some e"
    using assms by (auto simp: select_entry_def)
  then obtain p where "min_by fst (zip keys es) = Some p" "snd p = e" by (cases "min_by fst (zip keys es)") auto
  then show ?thesis using min_by_mem [of fst "zip keys es" p] by (cases p) (auto dest: set_zip_rightD)
qed

lemma eligible_entries_state: "snd (eligible_entries cf s) = s"
  by (simp add: eligible_entries_def Let_def split: option.splits)

lemma eligible_room:
  assumes "eligible_entries cf s = (Inr es, u)" and "e \<in> set es"
  shows "e \<in> set (active_entries s)" and "se_lifecycle e = SimAdmitted \<Longrightarrow>
    \<exists>cap. bc_max_concurrent_sequences (cf_capabilities cf) = Some cap \<and> tally holding (si_entries s) < cap"
  using assms by (auto simp: eligible_entries_def Let_def holding_tally split: option.splits)

lemma tick_serve_inv:
  assumes inv: "sim_inv cf s" and call: "tick_serve cf now expired s = (r, t)"
  shows "sim_inv cf t"
proof -
  obtain b where el: "eligible_entries cf s = (b, s)" using eligible_entries_state [of cf s] by (metis prod.collapse)
  show ?thesis
  proof (cases "\<exists>es e. b = Inr es \<and> select_entry cf now es = Inr (Some e)")
    case False
    then have "t = s" using call el by (auto simp: tick_serve_def split: sum.splits option.splits)
    then show ?thesis using inv by simp
  next
    case True
    then obtain es e where es: "b = Inr es" "select_entry cf now es = Inr (Some e)" by blast
    let ?k = "sm_request_id (se_scheduling e)"
    note room = eligible_room [OF el [unfolded es(1)] select_entry_mem [OF es(2)]]
    obtain c v where step: "sim_step cf ?k e s = (c, v)" by fastforce
    have "t = v" using call el es step by (cases c) (simp_all add: tick_serve_def sim_bind_def sim_return_def)
    then show ?thesis using sim_step_inv [OF inv active_entry_get [OF inv room(1)] room(2) step] by simp
  qed
qed

lemma tick_at_inv:
  assumes inv: "sim_inv cf s" and call: "tick_at cf now s = (r, t)"
  shows "sim_inv cf t"
  using call unfolding tick_at_def
proof (cases rule: sim_bind_cases)
  case (raised x)
  then show ?thesis using expire_entries_inv [OF inv] by blast
next
  case (returned expired u)
  then show ?thesis using expire_entries_inv [OF inv returned(1)] tick_serve_inv by blast
qed

lemma sim_tick_inv:
  assumes inv: "sim_inv cf s" and call: "sim_tick cf s = (r, t)"
  shows "sim_inv cf t"
proof -
  have "sim_bind (sim_now cf) (tick_at cf) s = (r, t)" using call by (simp add: sim_tick_def)
  from world_only_now this show ?thesis
  proof (cases rule: world_only_cases)
    case (raised x w)
    then show ?thesis using inv by simp
  next
    case (returned now w)
    then show ?thesis using tick_at_inv [OF _ returned(2)] inv by simp
  qed
qed

section \<open>The machine\<close>

text \<open>
  The simulator is called serially; between two calls the world may change in any way.
\<close>

inductive sim_move :: "('r, 'w) sim_config \<Rightarrow> ('r, 'w) simulator \<Rightarrow> ('r, 'w) simulator \<Rightarrow> bool"
  for cf :: "('r, 'w) sim_config" where
  move_admit: "metadata_wf m \<Longrightarrow> sim_move cf s (snd (sim_admit cf request m s))"
| move_cancel: "sim_move cf s (snd (sim_cancel cf k s))"
| move_tick: "sim_move cf s (snd (sim_tick cf s))"
| move_world: "sim_move cf s (s\<lparr>si_world := w\<rparr>)"

definition sim_start :: "('r, 'w) sim_config \<Rightarrow> ('r, 'w) simulator \<Rightarrow> bool" where
  "sim_start cf s \<longleftrightarrow> capabilities_wf (cf_capabilities cf) \<and> (\<exists>w. new_simulator cf w = Inr s)"

lemma capabilities_room:
  assumes "capabilities_wf c" and "bc_supports_sequence_steps c"
  shows "\<exists>cap. bc_max_concurrent_sequences c = Some cap \<and> 0 < cap" and "0 < bc_max_concurrent_requests c"
  using assms by (auto simp: capabilities_wf_def coherent_steps_def)

lemma sim_start_inv:
  assumes "sim_start cf s"
  shows "sim_inv cf s"
proof -
  obtain w where c: "capabilities_wf (cf_capabilities cf)" and new: "new_simulator cf w = Inr s"
    using assms by (auto simp: sim_start_def)
  have steps: "bc_supports_sequence_steps (cf_capabilities cf)" and "si_entries s = []" "si_releases s = []"
    using new by (auto simp: new_simulator_def split: if_splits prod.splits sum.splits)
  then show ?thesis using capabilities_room [OF c steps] by (auto simp: sim_inv_def tally_def released_ok_def fits_def)
qed

lemma sim_move_inv: "sim_move cf s t \<Longrightarrow> sim_inv cf s \<Longrightarrow> sim_inv cf t"
  by (induction rule: sim_move.induct) (metis sim_admit_inv sim_cancel_inv sim_tick_inv sim_inv_world prod.collapse)+

interpretation simulator_machine: invariant_system "sim_start cf" "sim_move cf" "sim_inv cf"
  by unfold_locales (auto intro: sim_start_inv sim_move_inv)

end
