(* ===== verification/SimulatorProgress.thy ===== *)
theory SimulatorProgress
  imports SimulatorMachine
begin

text \<open>
  Termination of the reference scheduler: with a clock and a sink that answer and a backend whose
  sequences have bounded work, ticking ends every request.
\<close>

section \<open>A backend that makes progress\<close>

definition calm :: "('w \<Rightarrow> SequenceHandle \<Rightarrow> nat) \<Rightarrow> 'w \<Rightarrow> 'w \<Rightarrow> bool" where
  "calm work w w' \<longleftrightarrow> (\<forall>h. work w' h \<le> work w h)"

text \<open>
  \<open>work w h\<close> bounds the prompt and output tokens the backend still has to process for \<open>h\<close>: a prefill that
  returns an outcome consumes prompt, a decode that goes on produces a token, and no other call adds work.
  Opening a sequence may set its work to anything. Every call may still fail where it is a backend's.
\<close>

definition progressing :: "('r, 'w) sim_config \<Rightarrow> ('w \<Rightarrow> SequenceHandle \<Rightarrow> nat) \<Rightarrow> bool" where
  "progressing cf work \<longleftrightarrow>
     (\<forall>w. \<exists>t w'. sw_now (cf_world cf) w = (Inr (PFloat (Finite t)), w') \<and> 0 \<le> t \<and> calm work w w') \<and>
     (\<forall>e w. \<exists>w'. sw_publish (cf_world cf) e w = (Inr (), w') \<and> calm work w w') \<and>
     (\<forall>h w. calm work w (snd (sw_release (cf_world cf) h w))) \<and>
     (\<forall>h n w. calm work w (snd (sw_prefill (cf_world cf) h n w)) \<and>
        (\<forall>out. fst (sw_prefill (cf_world cf) h n w) = Inr (Some out) \<longrightarrow>
           work (snd (sw_prefill (cf_world cf) h n w)) h < work w h)) \<and>
     (\<forall>h n w. calm work w (snd (sw_decode (cf_world cf) h n w)) \<and>
        (\<forall>out. fst (sw_decode (cf_world cf) h n w) = Inr (Some out) \<and> do_status out = DecodeProgressed \<longrightarrow>
           work (snd (sw_decode (cf_world cf) h n w)) h < work w h))"

lemma progressingD:
  assumes "progressing cf work"
  shows "\<exists>t w'. sw_now (cf_world cf) w = (Inr (PFloat (Finite t)), w') \<and> 0 \<le> t \<and> calm work w w'"
    and "\<exists>w'. sw_publish (cf_world cf) e w = (Inr (), w') \<and> calm work w w'"
    and "sw_release (cf_world cf) h w = (a, w') \<Longrightarrow> calm work w w'"
    and "sw_prefill (cf_world cf) h n w = (b, w') \<Longrightarrow> calm work w w'"
    and "sw_prefill (cf_world cf) h n w = (Inr (Some p), w') \<Longrightarrow> work w' h < work w h"
    and "sw_decode (cf_world cf) h n w = (c, w') \<Longrightarrow> calm work w w'"
    and "sw_decode (cf_world cf) h n w = (Inr (Some d), w') \<Longrightarrow> do_status d = DecodeProgressed \<Longrightarrow> work w' h < work w h"
  using assms unfolding progressing_def by (blast, blast, metis snd_conv, metis snd_conv, metis fst_conv snd_conv,
      metis snd_conv, metis fst_conv snd_conv)

lemma calm_refl [simp]: "calm work w w"
  by (simp add: calm_def)

lemma calm_trans: "calm work u v \<Longrightarrow> calm work v w \<Longrightarrow> calm work u w"
  by (meson calm_def order_trans)

section \<open>Calls that return\<close>

lemma sim_now_ok:
  assumes "progressing cf work"
  shows "\<exists>t w. sim_now cf s = (Inr t, s\<lparr>si_world := w\<rparr>) \<and> 0 \<le> t \<and> calm work (si_world s) w"
proof -
  obtain t w where "sw_now (cf_world cf) (si_world s) = (Inr (PFloat (Finite t)), w)" "0 \<le> t" "calm work (si_world s) w"
    using progressingD(1) [OF assms] by blast
  then show ?thesis by (auto simp: sim_now_def sim_bind_def sim_call_def finite_non_negative_def)
qed

definition event_args :: "SchedulerEventKind \<Rightarrow> SequenceHandle option \<Rightarrow> pyval \<Rightarrow> pyval \<Rightarrow> bool" where
  "event_args kind h tokens code \<longleftrightarrow>
     (kind \<in> sequence_event_kinds \<longrightarrow> h \<noteq> None) \<and>
     (if kind \<in> token_event_kinds then \<exists>n. tokens = PInt n \<and> 0 \<le> n else tokens = PNone) \<and>
     (if kind = EvRequestFailed then \<exists>c. code = PStr c \<and> id_ok 128 c else code = PNone)"

lemma sim_publish_ok:
  assumes "progressing cf work" and "id_ok 256 (sm_request_id (se_scheduling e))" and "event_args kind (se_handle e) x y"
  shows "\<exists>w. sim_publish cf kind e x y s = (Inr (), s\<lparr>si_world := w\<rparr>) \<and> calm work (si_world s) w"
proof -
  obtain t w where now: "sim_now cf s = (Inr t, s\<lparr>si_world := w\<rparr>)" "0 \<le> t" "calm work (si_world s) w"
    using sim_now_ok [OF assms(1)] by blast
  obtain ev where ev: "mk_SchedulerEvent kind (PStr (sm_request_id (se_scheduling e))) (PFloat (Finite t)) (se_handle e) x y = Inr ev"
    using assms(2,3) now(2) by (cases "kind = EvRequestFailed")
      (auto simp: mk_SchedulerEvent_def field_Inr event_args_def contract_limits split: if_splits)
  obtain w' where "sw_publish (cf_world cf) ev w = (Inr (), w')" "calm work w w'" using progressingD(2) [OF assms(1)] by blast
  then show ?thesis using now ev by (auto simp: sim_publish_def sim_bind_def sim_call_def intro: calm_trans)
qed

text \<open>Whatever it returns, publishing is calm.\<close>

lemma sim_publish_calm:
  assumes "progressing cf work" and "sim_publish cf kind e x y s = (r, t)"
  shows "\<exists>w. t = s\<lparr>si_world := w\<rparr> \<and> calm work (si_world s) w"
proof -
  obtain n w where now: "sim_now cf s = (Inr n, s\<lparr>si_world := w\<rparr>)" "calm work (si_world s) w"
    using sim_now_ok [OF assms(1)] by blast
  show ?thesis
  proof (cases "mk_SchedulerEvent kind (PStr (sm_request_id (se_scheduling e))) (PFloat (Finite n)) (se_handle e) x y")
    case (Inl a)
    then show ?thesis using assms(2) now by (auto simp: sim_publish_def sim_bind_def sim_raise_def)
  next
    case (Inr ev)
    obtain w' where "sw_publish (cf_world cf) ev w = (Inr (), w')" "calm work w w'" using progressingD(2) [OF assms(1)] by blast
    then show ?thesis using assms(2) now Inr by (auto simp: sim_publish_def sim_bind_def sim_call_def intro: calm_trans)
  qed
qed

section \<open>The end of a request\<close>

definition named_ok :: "'r sim_entry \<Rightarrow> bool" where
  "named_ok e \<longleftrightarrow> id_ok 256 (sm_request_id (se_scheduling e))"

lemma sim_inv_named: "sim_inv cf s \<Longrightarrow> dict_get (si_entries s) k = Some e \<Longrightarrow> named_ok e"
  using sim_invD(2) [of cf s k e] unfolding entry_ok_def metadata_wf_def named_ok_def by blast

lemma sim_release_returns:
  assumes pr: "progressing cf work" and get: "dict_get (si_entries s) k = Some e" and nm: "named_ok e"
  shows "\<exists>b t e'. sim_release cf k e s = (Inr b, t) \<and> si_entries t = dict_set k e' (si_entries s) \<and>
    same_request e e' \<and> calm work (si_world s) (si_world t)"
proof (cases "se_handle e = None \<or> se_release_attempted e")
  case True
  then have "\<exists>b. sim_release cf k e s = (Inr b, s)" by (auto simp: sim_release_def split: option.splits)
  moreover have "si_entries s = dict_set k e (si_entries s)" using get by (simp add: update_triv)
  ultimately show ?thesis by (metis calm_refl same_request_def)
next
  case False
  then obtain h where h: "se_handle e = Some h" and new: "\<not> se_release_attempted e" by auto
  let ?e1 = "e\<lparr>se_release_attempted := True\<rparr>"
  let ?s1 = "(set_entry k ?e1 s)\<lparr>si_releases := si_releases s @ [k]\<rparr>"
  obtain a w where a: "sw_release (cf_world cf) h (si_world ?s1) = (a, w)" by fastforce
  have w: "calm work (si_world s) w" using progressingD(3) [OF pr a] by simp
  let ?e2 = "\<lambda>x. ?e1\<lparr>se_release_status := x\<rparr>"
  let ?s2 = "\<lambda>x. set_entry k (?e2 x) (?s1\<lparr>si_world := w\<rparr>)"
  show ?thesis
  proof (cases "\<exists>out. a = Inr (Some out) \<and> ro_handle out = h")
    case False
    then have "sim_release cf k e s = (Inr False, ?s1\<lparr>si_world := w\<rparr>)"
      using h new a by (auto simp: sim_release_def Let_def split: sum.splits option.splits)
    then show ?thesis using w by (intro exI [of _ False] exI [of _ "?s1\<lparr>si_world := w\<rparr>"] exI [of _ ?e1]) (simp add: same_request_def)
  next
    case True
    then obtain out where out: "a = Inr (Some out)" "ro_handle out = h" by blast
    let ?x = "Some (ro_status out)"
    show ?thesis
    proof (cases "release_confirmed ?x")
      case False
      then have "sim_release cf k e s = (Inr False, ?s2 ?x)"
        using h new a out by (simp add: sim_release_def Let_def)
      then show ?thesis using w by (intro exI [of _ False] exI [of _ "?s2 ?x"] exI [of _ "?e2 ?x"]) (simp add: same_request_def)
    next
      case True
      have "event_args EvSequenceReleased (se_handle (?e2 ?x)) PNone PNone"
        using h by (simp add: event_args_def token_event_kinds_def)
      moreover have "id_ok 256 (sm_request_id (se_scheduling (?e2 ?x)))" using nm by (simp add: named_ok_def)
      ultimately obtain w' where pub: "sim_publish cf EvSequenceReleased (?e2 ?x) PNone PNone (?s2 ?x) = (Inr (), (?s2 ?x)\<lparr>si_world := w'\<rparr>)"
          and w': "calm work w w'"
        using sim_publish_ok [OF pr, of "?e2 ?x" EvSequenceReleased PNone PNone "?s2 ?x"] by auto
      have "sim_release cf k e s = sim_bind (sim_publish cf EvSequenceReleased (?e2 ?x) PNone PNone) (\<lambda>_. sim_return True) (?s2 ?x)"
        using h new a out True by (simp add: sim_release_def Let_def)
      also have "\<dots> = (Inr True, (?s2 ?x)\<lparr>si_world := w'\<rparr>)" using pub by (simp add: sim_bind_def)
      finally show ?thesis using calm_trans [OF w w']
        by (intro exI [of _ True] exI [of _ "(?s2 ?x)\<lparr>si_world := w'\<rparr>"] exI [of _ "?e2 ?x"]) (simp add: same_request_def)
    qed
  qed
qed

text \<open>The codes that the simulator itself passes are valid error codes.\<close>

definition good_code :: "string option \<Rightarrow> bool" where
  "good_code c \<longleftrightarrow> (\<forall>x. c = Some x \<longrightarrow> x = [] \<or> id_ok 128 x)"

lemma good_code_or: "good_code c \<Longrightarrow> id_ok 128 (code_or c (termination_value tn))"
  by (cases tn) (auto simp: good_code_def code_or_def id_ok_def has_control_def split: option.splits)

lemma sim_finish_entries:
  assumes pr: "progressing cf work" and nm: "named_ok e"
  shows "\<exists>r t e'. sim_finish cf k e tn code s = (r, t) \<and> si_entries t = dict_set k e' (si_entries s) \<and>
    se_lifecycle e' = SimTerminal \<and> calm work (si_world s) (si_world t) \<and> (good_code code \<longrightarrow> r = Inr True)"
proof -
  let ?e1 = "e\<lparr>se_lifecycle := SimTerminal, se_termination := Some tn\<rparr>"
  obtain n w where now: "sim_now cf (set_entry k ?e1 s) = (Inr n, (set_entry k ?e1 s)\<lparr>si_world := w\<rparr>)" "calm work (si_world s) w"
    using sim_now_ok [OF pr, of "set_entry k ?e1 s"] by auto
  let ?e2 = "?e1\<lparr>se_terminal_at := Some n\<rparr>"
  let ?u = "set_entry k ?e2 ((set_entry k ?e1 s)\<lparr>si_world := w\<rparr>)"
  let ?kind = "if tn = SimCompleted then EvRequestCompleted else EvRequestFailed"
  let ?code = "if tn = SimCompleted then PNone else PStr (code_or code (termination_value tn))"
  have fin: "sim_finish cf k e tn code s = sim_bind (sim_publish cf ?kind ?e2 PNone ?code) (\<lambda>_. sim_return True) ?u"
    unfolding sim_finish_def Let_def sim_bind_def [of "sim_now cf"] now(1) by (simp add: announce_end_def)
  obtain a v where pub: "sim_publish cf ?kind ?e2 PNone ?code ?u = (a, v)" by fastforce
  obtain w' where v: "v = ?u\<lparr>si_world := w'\<rparr>" "calm work w w'"
    using sim_publish_calm [OF pr pub] by auto
  have "a = Inr ()" if "good_code code"
  proof -
    have "event_args ?kind (se_handle ?e2) PNone ?code"
      using good_code_or [OF that] by (simp add: event_args_def token_event_kinds_def sequence_event_kinds_def)
    moreover have "id_ok 256 (sm_request_id (se_scheduling ?e2))" using nm by (simp add: named_ok_def)
    ultimately show ?thesis using sim_publish_ok [OF pr, of ?e2 ?kind PNone ?code ?u] pub by auto
  qed
  then have "good_code code \<longrightarrow> fst (sim_finish cf k e tn code s) = Inr True" using fin pub by (simp add: sim_bind_def)
  moreover have "snd (sim_finish cf k e tn code s) = v" using fin pub by (cases a) (simp_all add: sim_bind_def)
  ultimately show ?thesis using v calm_trans [OF now(2)]
    by (intro exI [of _ "fst (sim_finish cf k e tn code s)"] exI [of _ v] exI [of _ ?e2]) (simp add: prod_eq_iff)
qed

lemma sim_terminalize_entries:
  assumes pr: "progressing cf work" and get: "dict_get (si_entries s) k = Some e" and nm: "named_ok e" and act: "active e"
  shows "\<exists>r t e'. sim_terminalize cf k tn code s = (r, t) \<and> si_entries t = dict_set k e' (si_entries s) \<and>
    se_lifecycle e' = SimTerminal \<and> calm work (si_world s) (si_world t) \<and> (good_code code \<longrightarrow> r = Inr True)"
proof -
  obtain b u e1 where rel: "sim_release cf k e s = (Inr b, u)" "si_entries u = dict_set k e1 (si_entries s)"
      "same_request e e1" "calm work (si_world s) (si_world u)"
    using sim_release_returns [OF pr get nm] by blast
  obtain v c where verdict: "end_verdict e1 b tn code = (v, c)" by fastforce
  have ends: "sim_terminalize cf k tn code s = sim_finish cf k e1 v c u"
    using get act rel(1,2) verdict by (simp add: sim_terminalize_def active_def sim_bind_def)
  have "named_ok e1" using nm rel(3) by (simp add: named_ok_def same_request_def)
  from sim_finish_entries [OF pr this, of k v c u] obtain r t e2 where fin: "sim_finish cf k e1 v c u = (r, t)"
      "si_entries t = dict_set k e2 (si_entries u)" "se_lifecycle e2 = SimTerminal" "calm work (si_world u) (si_world t)"
      "good_code c \<longrightarrow> r = Inr True" by blast
  have "good_code code \<longrightarrow> good_code c"
    using verdict by (auto simp: end_verdict_def good_code_def id_ok_def has_control_def split: if_splits)
  then show ?thesis using ends fin rel(2) calm_trans [OF rel(4) fin(4)]
    by (intro exI [of _ r] exI [of _ t] exI [of _ e2]) simp
qed

section \<open>One action\<close>

definition admitted :: "'r sim_entry \<Rightarrow> bool" where "admitted e \<longleftrightarrow> se_lifecycle e = SimAdmitted"

text \<open>The work left for an entry that has its sequence.\<close>

definition busy_work :: "('w \<Rightarrow> SequenceHandle \<Rightarrow> nat) \<Rightarrow> 'w \<Rightarrow> 'r sim_entry \<Rightarrow> int" where
  "busy_work work w e =
     (if se_lifecycle e \<in> {SimPrefilling, SimDecoding} then 1 + (case se_handle e of None \<Rightarrow> 0 | Some h \<Rightarrow> int (work w h)) else 0)"

text \<open>
  What an action does to its entry: it fails and leaves the entry or has ended it, or it succeeds and
  takes the entry a step further.
\<close>

definition stepped :: "('w \<Rightarrow> SequenceHandle \<Rightarrow> nat) \<Rightarrow> 'w \<Rightarrow> 'w \<Rightarrow> 'r sim_entry \<Rightarrow> 'r sim_entry \<Rightarrow> bool" where
  "stepped work w w' e e1 \<longleftrightarrow> \<not> admitted e1 \<and> (admitted e \<or> calm work w w' \<and> busy_work work w' e1 < busy_work work w e)"

definition acted ::
  "('w \<Rightarrow> SequenceHandle \<Rightarrow> nat) \<Rightarrow> string \<Rightarrow> 'r sim_entry \<Rightarrow> ('r, 'w) simulator \<Rightarrow> (sim_exc + TickAction) \<Rightarrow> ('r, 'w) simulator \<Rightarrow> bool" where
  "acted work k e s a u \<longleftrightarrow> (\<exists>e1. si_entries u = dict_set k e1 (si_entries s) \<and>
     (if \<exists>x. a = Inl x then (e1 = e \<or> se_lifecycle e1 = SimTerminal) \<and> (admitted e \<or> calm work (si_world s) (si_world u))
      else stepped work (si_world s) (si_world u) e e1))"

lemma acted_fails:
  assumes "dict_get (si_entries s) k = Some e" and "admitted e \<or> calm work (si_world s) w"
  shows "acted work k e s (Inl x) (s\<lparr>si_world := w\<rparr>)"
  using assms by (auto simp: acted_def update_triv intro!: exI [of _ e])

lemma sim_open_acts:
  assumes pr: "progressing cf work" and get: "dict_get (si_entries s) k = Some e" and nm: "named_ok e" and adm: "admitted e"
    and call: "sim_open cf k e s = (a, u)"
  shows "acted work k e s a u"
proof -
  obtain b w where opens: "sw_open (cf_world cf) (se_request e) (se_scheduling e) (si_world s) = (b, w)" by fastforce
  show ?thesis
  proof (cases "\<exists>answer h. b = Inr answer \<and> open_check cf (s\<lparr>si_world := w\<rparr>) k answer = Inr h")
    case False
    then have "\<exists>x. (a, u) = (Inl x, s\<lparr>si_world := w\<rparr>)"
      using call opens by (auto simp: sim_open_def sim_bind_def sim_call_def split: sum.splits)
    then show ?thesis using acted_fails [OF get] adm by auto
  next
    case True
    then obtain answer h where b: "b = Inr answer" "open_check cf (s\<lparr>si_world := w\<rparr>) k answer = Inr h" by blast
    let ?e = "e\<lparr>se_handle := Some h, se_lifecycle := SimPrefilling\<rparr>"
    let ?u = "set_entry k ?e (s\<lparr>si_world := w\<rparr>)"
    have "event_args EvSequenceOpened (se_handle ?e) PNone PNone" by (simp add: event_args_def token_event_kinds_def)
    moreover have "id_ok 256 (sm_request_id (se_scheduling ?e))" using nm by (simp add: named_ok_def)
    ultimately obtain w' where "sim_publish cf EvSequenceOpened ?e PNone PNone ?u = (Inr (), ?u\<lparr>si_world := w'\<rparr>)"
      using sim_publish_ok [OF pr, of ?e EvSequenceOpened PNone PNone ?u] by auto
    then have "(a, u) = (Inr TickOpenSequence, ?u\<lparr>si_world := w'\<rparr>)"
      using call opens b by (simp add: sim_open_def sim_bind_def sim_call_def sim_return_def Let_def)
    then show ?thesis using adm by (auto simp: acted_def stepped_def admitted_def intro!: exI [of _ ?e])
  qed
qed

lemma sim_prefill_acts:
  assumes pr: "progressing cf work" and get: "dict_get (si_entries s) k = Some e" and pre: "se_lifecycle e = SimPrefilling"
    and call: "sim_prefill cf k e s = (a, u)"
  shows "acted work k e s a u"
proof -
  have fails: "acted work k e s (Inl x) (s\<lparr>si_world := w\<rparr>)" if "calm work (si_world s) w" for x w
    by (rule acted_fails [OF get]) (use that in simp)
  have same: "acted work k e s (Inl x) s" for x using fails [of "si_world s" x] by simp
  show ?thesis
  proof (cases "\<exists>h budget. se_handle e = Some h \<and> bc_max_prefill_tokens_per_step (cf_capabilities cf) = Some budget")
    case False
    then have "\<exists>x. (a, u) = (Inl x, s)"
      using call by (auto simp: sim_prefill_def require_handle_def require_budget_def split: option.splits)
    then show ?thesis using same by auto
  next
    case True
    then obtain h budget where h: "se_handle e = Some h" "bc_max_prefill_tokens_per_step (cf_capabilities cf) = Some budget" by blast
    obtain b w where step: "sw_prefill (cf_world cf) h budget (si_world s) = (b, w)" by fastforce
    have w: "calm work (si_world s) w" by (rule progressingD(4) [OF pr step])
    show ?thesis
    proof (cases "\<exists>out. b = Inr (Some out) \<and> po_handle out = h \<and> \<not> budget < po_processed_tokens out")
      case False
      then have "\<exists>x. (a, u) = (Inl x, s\<lparr>si_world := w\<rparr>)"
        using call h step by (auto simp: sim_prefill_def require_handle_def require_budget_def sim_bind_def [of "sim_call f" for f]
            sim_call_def split: sum.splits option.splits if_splits)
      then show ?thesis using fails [OF w] by auto
    next
      case True
      then obtain out where out: "b = Inr (Some out)" "po_handle out = h" "\<not> budget < po_processed_tokens out" by blast
      obtain c v where pub: "sim_publish cf EvPrefillCompleted e (PInt (po_processed_tokens out)) PNone (s\<lparr>si_world := w\<rparr>) = (c, v)"
        by fastforce
      then obtain w' where v: "v = s\<lparr>si_world := w'\<rparr>" "calm work w w'" using sim_publish_calm [OF pr pub] by auto
      have w': "calm work (si_world s) w'" by (rule calm_trans [OF w v(2)])
      have less: "work w' h < work (si_world s) h"
        using progressingD(5) [OF pr step [unfolded out(1)]] v(2) by (auto simp: calm_def intro: le_less_trans)
      let ?e1 = "if po_status out = PrefillReady then e\<lparr>se_lifecycle := SimDecoding\<rparr> else e"
      have "(a, u) = (case c of Inl x \<Rightarrow> (Inl x, v) | Inr _ \<Rightarrow> (Inr TickPrefill, if po_status out = PrefillReady then set_entry k ?e1 v else v))"
        using call h step out pub by (auto simp: sim_prefill_def require_handle_def require_budget_def sim_bind_def [of "sim_call f" for f]
            sim_call_def sim_bind_def [of "sim_publish cf kd x y z" for kd x y z] split: sum.splits)
      moreover have "acted work k e s (Inr TickPrefill) (if po_status out = PrefillReady then set_entry k ?e1 v else v)"
        using v(1) w' less pre h get
        by (auto simp: acted_def stepped_def admitted_def busy_work_def update_triv intro!: exI [of _ ?e1])
      ultimately show ?thesis using fails [OF w'] v(1) by (cases c) auto
    qed
  qed
qed

lemma sim_decode_acts:
  assumes pr: "progressing cf work" and get: "dict_get (si_entries s) k = Some e" and dec: "se_lifecycle e = SimDecoding"
    and nm: "named_ok e" and call: "sim_decode cf k e s = (a, u)"
  shows "acted work k e s a u"
proof -
  have fails: "acted work k e s (Inl x) (s\<lparr>si_world := w\<rparr>)" if "calm work (si_world s) w" for x w
    by (rule acted_fails [OF get]) (use that in simp)
  have same: "acted work k e s (Inl x) s" for x using fails [of "si_world s" x] by simp
  show ?thesis
  proof (cases "\<exists>h budget. se_handle e = Some h \<and> bc_max_decode_tokens_per_step (cf_capabilities cf) = Some budget")
    case False
    then have "\<exists>x. (a, u) = (Inl x, s)"
      using call by (auto simp: sim_decode_def require_handle_def require_budget_def split: option.splits)
    then show ?thesis using same by auto
  next
    case True
    then obtain h budget where h: "se_handle e = Some h" "bc_max_decode_tokens_per_step (cf_capabilities cf) = Some budget" by blast
    obtain b w where step: "sw_decode (cf_world cf) h budget (si_world s) = (b, w)" by fastforce
    have w: "calm work (si_world s) w" by (rule progressingD(6) [OF pr step])
    show ?thesis
    proof (cases "\<exists>out. b = Inr (Some out) \<and> do_handle out = h \<and> \<not> budget < int (length (do_token_ids out))")
      case False
      then have "\<exists>x. (a, u) = (Inl x, s\<lparr>si_world := w\<rparr>)"
        using call h step by (auto simp: sim_decode_def require_handle_def require_budget_def sim_bind_def [of "sim_call f" for f]
            sim_call_def split: sum.splits option.splits if_splits)
      then show ?thesis using fails [OF w] by auto
    next
      case True
      then obtain out where out: "b = Inr (Some out)" "do_handle out = h" "\<not> budget < int (length (do_token_ids out))" by blast
      let ?n = "PInt (int (length (do_token_ids out)))"
      obtain c v where pub: "sim_publish cf EvDecodeCompleted e ?n PNone (s\<lparr>si_world := w\<rparr>) = (c, v)" by fastforce
      then obtain w' where v: "v = s\<lparr>si_world := w'\<rparr>" "calm work w w'" using sim_publish_calm [OF pr pub] by auto
      have w': "calm work (si_world s) w'" by (rule calm_trans [OF w v(2)])
      define settle where "settle = (case do_status out of
          DecodeFinished \<Rightarrow> sim_terminalize cf k SimCompleted None
        | DecodeFailed \<Rightarrow> sim_terminalize cf k SimBackendError (Some (code_or (do_error_code out) ''backend_decode_failed''))
        | DecodeProgressed \<Rightarrow> sim_return True)"
      have eq: "(a, u) = (case c of Inl x \<Rightarrow> (Inl x, v) | Inr _ \<Rightarrow> sim_bind settle (\<lambda>_. sim_return TickDecode) v)"
        unfolding settle_def
        using call h step out pub by (auto simp: sim_decode_def require_handle_def require_budget_def sim_bind_def [of "sim_call f" for f]
            sim_call_def sim_bind_def [of "sim_publish cf kd x y z" for kd x y z] split: sum.splits)
      show ?thesis
      proof (cases c)
        case (Inl x)
        then show ?thesis using eq fails [OF w'] v(1) by simp
      next
        case (Inr x)
        then have eq: "(a, u) = sim_bind settle (\<lambda>_. sim_return TickDecode) v" using eq by simp
        show ?thesis
        proof (cases "do_status out = DecodeProgressed")
          case True
          have "work w' h < work (si_world s) h"
            using progressingD(7) [OF pr step [unfolded out(1)] True] v(2) by (auto simp: calm_def intro: le_less_trans)
          then show ?thesis using eq True v(1) w' dec h get
            by (auto simp: settle_def acted_def stepped_def admitted_def busy_work_def update_triv intro!: exI [of _ e])
        next
          case False
          obtain tn code where settle: "settle = sim_terminalize cf k tn code" using False by (cases "do_status out") (auto simp: settle_def)
          have "dict_get (si_entries v) k = Some e" "active e" using v(1) get dec by (simp_all add: active_def)
          from sim_terminalize_entries [OF pr this(1) nm this(2), of tn code] obtain r t e2 where
            ends: "sim_terminalize cf k tn code v = (r, t)" "si_entries t = dict_set k e2 (si_entries v)"
              "se_lifecycle e2 = SimTerminal" "calm work (si_world v) (si_world t)" by blast
          have "calm work (si_world s) (si_world t)" using calm_trans [OF w'] ends(4) v(1) by simp
          moreover have "u = t" "(\<exists>x. a = Inl x) \<or> a = Inr TickDecode"
            using eq ends(1) by (cases r; simp add: settle sim_bind_def sim_return_def)+
          ultimately show ?thesis using ends(2,3) v(1) dec
            by (auto simp: acted_def stepped_def admitted_def busy_work_def split: option.splits intro!: exI [of _ e2])
        qed
      qed
    qed
  qed
qed

lemma sim_step_acts:
  assumes pr: "progressing cf work" and get: "dict_get (si_entries s) k = Some e" and nm: "named_ok e" and act: "active e"
  shows "\<exists>x t e2. sim_step cf k e s = (Inr x, t) \<and> si_entries t = dict_set k e2 (si_entries s) \<and>
    stepped work (si_world s) (si_world t) e e2"
proof -
  obtain a u where call: "sim_action cf k e s = (a, u)" by fastforce
  have "acted work k e s a u"
  proof (cases "se_lifecycle e")
    case SimAdmitted
    then show ?thesis using sim_open_acts [OF pr get nm] call by (simp add: sim_action_def admitted_def)
  next
    case SimPrefilling
    then show ?thesis using sim_prefill_acts [OF pr get] call by (simp add: sim_action_def)
  next
    case SimDecoding
    then show ?thesis using sim_decode_acts [OF pr get _ nm] call by (simp add: sim_action_def)
  next
    case SimTerminal
    then show ?thesis using act by (simp add: active_def)
  qed
  then obtain e1 where e1: "si_entries u = dict_set k e1 (si_entries s)"
      "if \<exists>x. a = Inl x then (e1 = e \<or> se_lifecycle e1 = SimTerminal) \<and> (admitted e \<or> calm work (si_world s) (si_world u))
       else stepped work (si_world s) (si_world u) e e1" by (auto simp: acted_def)
  have left: "0 < busy_work work (si_world s) e" if "\<not> admitted e"
    using act that by (cases "se_lifecycle e") (auto simp: active_def admitted_def busy_work_def split: option.splits)
  show ?thesis
  proof (cases a)
    case (Inr x)
    let ?t = "count_step k u" and ?e2 = "e1\<lparr>se_service_steps := se_service_steps e1 + 1\<rparr>"
    have "sim_step cf k e s = (Inr x, ?t)" using call Inr by (simp add: sim_step_def)
    moreover have "si_entries ?t = dict_set k ?e2 (si_entries s)" "si_world ?t = si_world u"
      using e1(1) by (simp_all add: count_step_def)
    moreover have "busy_work work (si_world u) ?e2 = busy_work work (si_world u) e1" "admitted ?e2 = admitted e1"
      by (simp_all add: busy_work_def admitted_def)
    then have "stepped work (si_world s) (si_world u) e ?e2" using e1(2) Inr by (simp add: stepped_def)
    ultimately show ?thesis by metis
  next
    case (Inl x)
    then have e1': "e1 = e \<or> se_lifecycle e1 = SimTerminal" "admitted e \<or> calm work (si_world s) (si_world u)" using e1(2) by auto
    let ?stop = "sim_terminalize cf k SimBackendError (Some ''backend_operation_failed'') u"
    have step: "sim_step cf k e s = sim_bind (\<lambda>s. ?stop) (\<lambda>_. sim_return TickBackendFailed) u"
      using call Inl by (simp add: sim_step_def sim_bind_def)
    have "\<exists>b t e2. ?stop = (Inr b, t) \<and> si_entries t = dict_set k e2 (si_entries s) \<and> se_lifecycle e2 = SimTerminal \<and>
        calm work (si_world u) (si_world t)"
    proof (cases "se_lifecycle e1 = SimTerminal")
      case True
      then show ?thesis using e1(1) by (intro exI [of _ False] exI [of _ u] exI [of _ e1]) (simp add: sim_terminalize_def)
    next
      case False
      then have "e1 = e" using e1'(1) by simp
      then have "dict_get (si_entries u) k = Some e" using e1(1) by simp
      from sim_terminalize_entries [OF pr this nm act, of SimBackendError "Some ''backend_operation_failed''"]
      obtain t e2 where "?stop = (Inr True, t)" "si_entries t = dict_set k e2 (si_entries u)" "se_lifecycle e2 = SimTerminal"
          "calm work (si_world u) (si_world t)"
        by (auto simp: good_code_def id_ok_def has_control_def)
      then show ?thesis using e1(1) by auto
    qed
    then obtain b t e2 where ends: "?stop = (Inr b, t)" "si_entries t = dict_set k e2 (si_entries s)" "se_lifecycle e2 = SimTerminal"
        "calm work (si_world u) (si_world t)" by blast
    have "stepped work (si_world s) (si_world t) e e2"
    proof (cases "admitted e")
      case True
      then show ?thesis using ends(3) by (simp add: stepped_def admitted_def)
    next
      case False
      then have "calm work (si_world s) (si_world u)" using e1'(2) by simp
      then have "calm work (si_world s) (si_world t)" using ends(4) by (rule calm_trans)
      then show ?thesis using left [OF False] ends(3) False
        by (simp add: stepped_def admitted_def busy_work_def [of work "si_world t"])
    qed
    moreover have "sim_step cf k e s = (Inr TickBackendFailed, t)" using step ends(1) by (simp add: sim_bind_def sim_return_def)
    ultimately show ?thesis using ends(2) by blast
  qed
qed

section \<open>The measure\<close>

text \<open>Requests that wait for a sequence, then the work of those that have one.\<close>

definition waiting :: "('r, 'w) simulator \<Rightarrow> int" where "waiting s = tally admitted (si_entries s)"

definition busy :: "('w \<Rightarrow> SequenceHandle \<Rightarrow> nat) \<Rightarrow> ('r, 'w) simulator \<Rightarrow> int" where
  "busy work s = sum_list (map (busy_work work (si_world s)) (dict_values (si_entries s)))"

definition rank :: "('w \<Rightarrow> SequenceHandle \<Rightarrow> nat) \<Rightarrow> ('r, 'w) simulator \<Rightarrow> nat \<times> nat" where
  "rank work s = (nat (waiting s), nat (busy work s))"

lemma busy_work_mono: "calm work w w' \<Longrightarrow> busy_work work w' e \<le> busy_work work w e"
  by (auto simp: busy_work_def calm_def split: option.splits)

lemma busy_work_nonneg: "0 \<le> busy_work work w e"
  by (auto simp: busy_work_def split: option.splits)

lemma busy_nonneg: "0 \<le> busy work s"
  unfolding busy_def by (rule sum_list_nonneg) (auto simp: busy_work_nonneg)

lemma waiting_set:
  assumes "distinct (dict_keys (si_entries s))" and "dict_get (si_entries s) k = Some e" and "si_entries t = dict_set k e2 (si_entries s)"
  shows "waiting t = waiting s - of_bool (admitted e) + of_bool (admitted e2)"
  using tally_set_old [OF assms(1,2), of admitted e2] assms(3) by (simp add: waiting_def)

lemma busy_set:
  assumes "distinct (dict_keys (si_entries s))" and "dict_get (si_entries s) k = Some e" and "si_entries t = dict_set k e2 (si_entries s)"
    and "calm work (si_world s) (si_world t)"
  shows "busy work t \<le> busy work s - busy_work work (si_world s) e + busy_work work (si_world t) e2"
proof -
  let ?f = "busy_work work (si_world s)" and ?g = "busy_work work (si_world t)" and ?d = "si_entries s"
  have "sum_list (map ?g (dict_values (dict_pop k ?d))) \<le> sum_list (map ?f (dict_values (dict_pop k ?d)))"
    by (rule sum_list_mono) (rule busy_work_mono [OF assms(4)])
  then show ?thesis
    using sum_values_pop [OF assms(1,2), of ?f] sum_values_pop [OF assms(1,2), of ?g] sum_values_set_old [OF assms(1,2), of ?g e2]
    by (simp add: busy_def assms(3))
qed

lemma rank_step:
  assumes "distinct (dict_keys (si_entries s))" and "dict_get (si_entries s) k = Some e" and "si_entries t = dict_set k e2 (si_entries s)"
    and "stepped work (si_world s) (si_world t) e e2"
  shows "(rank work t, rank work s) \<in> less_than <*lex*> less_than"
proof (cases "admitted e")
  case True
  then have "waiting t = waiting s - 1" using waiting_set [OF assms(1-3)] assms(4) by (simp add: stepped_def)
  moreover have "0 \<le> waiting t" by (simp add: waiting_def tally_nonneg)
  ultimately show ?thesis by (simp add: rank_def)
next
  case False
  then have *: "calm work (si_world s) (si_world t)" "busy_work work (si_world t) e2 < busy_work work (si_world s) e" "\<not> admitted e2"
    using assms(4) by (auto simp: stepped_def)
  then have "waiting t = waiting s" using False waiting_set [OF assms(1-3)] by simp
  moreover have "busy work t < busy work s" using busy_set [OF assms(1-3) *(1)] *(2) by simp
  ultimately show ?thesis using busy_nonneg [of work t] by (simp add: rank_def)
qed

definition no_more :: "('w \<Rightarrow> SequenceHandle \<Rightarrow> nat) \<Rightarrow> ('r, 'w) simulator \<Rightarrow> ('r, 'w) simulator \<Rightarrow> bool" where
  "no_more work s t \<longleftrightarrow> waiting t \<le> waiting s \<and> busy work t \<le> busy work s"

lemma no_more_rank:
  assumes "no_more work s t" and "(rank work u, rank work t) \<in> less_than <*lex*> less_than"
  shows "(rank work u, rank work s) \<in> less_than <*lex*> less_than"
  using assms by (auto simp: no_more_def rank_def)

lemma no_more_trans: "no_more work s t \<Longrightarrow> no_more work t u \<Longrightarrow> no_more work s u"
  by (simp add: no_more_def)

lemma no_more_world: "calm work (si_world s) w \<Longrightarrow> no_more work s (s\<lparr>si_world := w\<rparr>)"
  by (auto simp: no_more_def waiting_def busy_def intro!: sum_list_mono busy_work_mono)

lemma sim_terminalize_no_more:
  assumes pr: "progressing cf work" and inv: "sim_inv cf s" and code: "good_code code"
  shows "\<exists>b t. sim_terminalize cf k tn code s = (Inr b, t) \<and> no_more work s t"
proof (cases "\<exists>e. dict_get (si_entries s) k = Some e \<and> active e")
  case False
  then have "sim_terminalize cf k tn code s = (Inr False, s)" by (auto simp: sim_terminalize_def active_def split: option.splits)
  then show ?thesis by (intro exI [of _ False] exI [of _ s]) (simp add: no_more_def)
next
  case True
  then obtain e where e: "dict_get (si_entries s) k = Some e" "active e" by blast
  from sim_terminalize_entries [OF pr e(1) sim_inv_named [OF inv e(1)] e(2), of tn code] code
  obtain t e2 where t: "sim_terminalize cf k tn code s = (Inr True, t)" "si_entries t = dict_set k e2 (si_entries s)"
      "se_lifecycle e2 = SimTerminal" "calm work (si_world s) (si_world t)" by blast
  have "no_more work s t"
    using waiting_set [OF sim_invD(1) [OF inv] e(1) t(2)] busy_set [OF sim_invD(1) [OF inv] e(1) t(2,4)] t(3)
      busy_work_nonneg [of work "si_world s" e] by (simp add: no_more_def admitted_def busy_work_def [of work "si_world t" e2])
  then show ?thesis using t(1) by blast
qed

lemma expire_entries_no_more:
  assumes pr: "progressing cf work" and inv: "sim_inv cf s"
  shows "\<exists>ks t. expire_entries cf now es s = (Inr ks, t) \<and> no_more work s t"
  using inv
proof (induction es arbitrary: s)
  case Nil
  then show ?case by (simp add: no_more_def)
next
  case (Cons e es)
  show ?case
  proof (cases "case sm_deadline_monotonic (se_scheduling e) of None \<Rightarrow> False | Some d \<Rightarrow> d \<le> now")
    case False
    then have "expire_entries cf now (e # es) s = expire_entries cf now es s" by simp
    then show ?thesis using Cons.IH [OF Cons.prems] by simp
  next
    case True
    let ?k = "sm_request_id (se_scheduling e)"
    have "good_code (Some ''deadline_exceeded'')" by (simp add: good_code_def id_ok_def has_control_def)
    from sim_terminalize_no_more [OF pr Cons.prems this]
    obtain b u where u: "sim_terminalize cf ?k SimDeadlineExceeded (Some ''deadline_exceeded'') s = (Inr b, u)" "no_more work s u" by blast
    have "sim_inv cf u" using sim_terminalize_effect [OF Cons.prems u(1)] by simp
    from Cons.IH [OF this] obtain ks t where "expire_entries cf now es u = (Inr ks, t)" "no_more work u t" by blast
    then show ?thesis using True u no_more_trans [OF u(2)] by (simp add: sim_bind_def sim_return_def)
  qed
qed

section \<open>Ticks\<close>

lemma eligible_nonempty:
  assumes inv: "sim_inv cf s" and cap: "bc_max_concurrent_sequences (cf_capabilities cf) = Some cap" "0 < cap"
  shows "\<exists>es. eligible_entries cf s = (Inr es, s) \<and> set es \<subseteq> set (active_entries s) \<and> (active_entries s \<noteq> [] \<longrightarrow> es \<noteq> [])"
proof -
  let ?es = "filter (\<lambda>e. se_lifecycle e \<noteq> SimAdmitted \<or> tally holding (si_entries s) < cap) (active_entries s)"
  have "eligible_entries cf s = (Inr ?es, s)" using cap by (simp add: eligible_entries_def Let_def holding_tally)
  moreover have "?es \<noteq> []" if ne: "active_entries s \<noteq> []"
  proof (cases "\<exists>e\<in>set (active_entries s). se_lifecycle e \<noteq> SimAdmitted")
    case True
    then show ?thesis by (auto simp: filter_empty_conv)
  next
    case False
    have "\<not> holds_handle e" if "e \<in> set (active_entries s)" for e
      using sim_invD(2) [OF inv active_entry_get [OF inv that]] False that by (auto simp: entry_ok_def holds_handle_def)
    then have "filter holds_handle (active_entries s) = []" by (simp add: filter_empty_conv)
    then have "tally holding (si_entries s) = 0" using holding_tally [of s] by simp
    then show ?thesis using ne cap(2) by simp
  qed
  ultimately show ?thesis by auto
qed

lemma priority_for_known: "c \<in> fst ` set (sp_service_class_priorities p) \<Longrightarrow> \<exists>x. priority_for p c = Inr x"
  by (auto simp: priority_for_def map_of_eq_None_iff split: option.splits)

lemma select_entry_total:
  assumes inv: "sim_inv cf s" and "set es \<subseteq> set (active_entries s)"
  shows "\<exists>x. select_entry cf now es = Inr x \<and> (es \<noteq> [] \<longrightarrow> x \<noteq> None)"
proof -
  have "\<exists>y. sim_selection_key cf now e = Inr y" if "e \<in> set es" for e
  proof -
    have "e \<in> set (active_entries s)" using assms(2) that by blast
    then have "entry_ok (cf_policy cf) (sm_request_id (se_scheduling e)) e" using sim_invD(2) [OF inv active_entry_get [OF inv]] by blast
    then show ?thesis using priority_for_known by (auto simp: sim_selection_key_def entry_ok_def Let_def)
  qed
  then have "\<exists>ys. rmap (sim_selection_key cf now) es = Inr ys \<and> length ys = length es"
  proof (induction es)
    case Nil
    then show ?case by simp
  next
    case (Cons e es)
    obtain y where y: "sim_selection_key cf now e = Inr y" using Cons.prems [of e] by auto
    obtain ys where "rmap (sim_selection_key cf now) es = Inr ys" "length ys = length es" using Cons by auto
    then show ?case using y by (intro exI [of _ "y # ys"]) simp
  qed
  then obtain ys where ys: "rmap (sim_selection_key cf now) es = Inr ys" "length ys = length es" by blast
  have "zip ys es = [] \<longleftrightarrow> es = []" using ys(2) by (cases ys; cases es) simp_all
  then have "\<exists>p. min_by fst (zip ys es) = Some p" if "es \<noteq> []" using that by (intro min_by_nonempty) simp
  then show ?thesis using ys(1) by (cases "es = []") (auto simp: select_entry_def)
qed

text \<open>A tick returns; either no request is active any more or the measure has gone down.\<close>

lemma sim_tick_progress:
  assumes pr: "progressing cf work" and inv: "sim_inv cf s"
    and cap: "bc_max_concurrent_sequences (cf_capabilities cf) = Some cap" "0 < cap"
  shows "\<exists>out t. sim_tick cf s = (Inr out, t) \<and> sim_inv cf t \<and>
    (if to_selected_request_id out = None then active_entries t = [] else (rank work t, rank work s) \<in> less_than <*lex*> less_than)"
proof -
  obtain now w where now: "sim_now cf s = (Inr now, s\<lparr>si_world := w\<rparr>)" "calm work (si_world s) w"
    using sim_now_ok [OF pr] by blast
  let ?s = "s\<lparr>si_world := w\<rparr>"
  have inv1: "sim_inv cf ?s" using inv by simp
  obtain ks u where exp: "expire_entries cf now (sort_key se_order (active_entries ?s)) ?s = (Inr ks, u)" "no_more work ?s u"
    using expire_entries_no_more [OF pr inv1] by blast
  have u: "sim_inv cf u" by (rule expire_entries_inv [OF inv1 exp(1)])
  have down: "no_more work s u" by (rule no_more_trans [OF no_more_world [OF now(2)] exp(2)])
  obtain es where es: "eligible_entries cf u = (Inr es, u)" "set es \<subseteq> set (active_entries u)" "active_entries u \<noteq> [] \<longrightarrow> es \<noteq> []"
    using eligible_nonempty [OF u cap] by blast
  obtain x where x: "select_entry cf now es = Inr x" "es \<noteq> [] \<longrightarrow> x \<noteq> None" using select_entry_total [OF u es(2)] by blast
  have tick: "sim_tick cf s = tick_serve cf now ks u" using now exp by (simp add: sim_tick_def tick_at_def sim_bind_def)
  show ?thesis
  proof (cases x)
    case None
    then have "sim_tick cf s = (Inr \<lparr>to_at_monotonic = now, to_action = TickIdle, to_selected_request_id = None, to_expired_request_ids = ks\<rparr>, u)"
      using tick es(1) x(1) by (simp add: tick_serve_def)
    moreover have "active_entries u = []" using None x(2) es(3) by auto
    ultimately show ?thesis using u by simp
  next
    case (Some e)
    let ?k = "sm_request_id (se_scheduling e)"
    have e: "e \<in> set (active_entries u)" using select_entry_mem [of cf now es e] x(1) Some es(2) by auto
    have get: "dict_get (si_entries u) ?k = Some e" by (rule active_entry_get [OF u e])
    have act: "active e" using e by (simp add: active_entries_def active_def)
    from sim_step_acts [OF pr get sim_inv_named [OF u get] act] obtain a t e2 where
      step: "sim_step cf ?k e u = (Inr a, t)" "si_entries t = dict_set ?k e2 (si_entries u)" "stepped work (si_world u) (si_world t) e e2" by blast
    have run: "sim_tick cf s = (Inr \<lparr>to_at_monotonic = now, to_action = a, to_selected_request_id = Some ?k, to_expired_request_ids = ks\<rparr>, t)"
      using tick es(1) x(1) Some step(1) by (simp add: tick_serve_def sim_bind_def sim_return_def)
    have "(rank work t, rank work s) \<in> less_than <*lex*> less_than"
      by (rule no_more_rank [OF down rank_step [OF sim_invD(1) [OF u] get step(2,3)]])
    then show ?thesis using run sim_tick_inv [OF inv run] by simp
  qed
qed

section \<open>Properties\<close>

lemma reach_capacity:
  assumes "reach (sim_start cf) (sim_move cf) s"
  shows "\<exists>cap. bc_max_concurrent_sequences (cf_capabilities cf) = Some cap \<and> 0 < cap"
  using assms
proof (induction rule: reach.induct)
  case (reach_init s)
  then obtain w where "capabilities_wf (cf_capabilities cf)" "new_simulator cf w = Inr s" by (auto simp: sim_start_def)
  moreover from this have "bc_supports_sequence_steps (cf_capabilities cf)"
    by (auto simp: new_simulator_def split: if_splits prod.splits sum.splits)
  ultimately show ?case using capabilities_room(1) by blast
qed

text \<open>
  C19: Every sequence is released once. Whatever the backend, the clock and the sink do, the backend's \<open>release\<close> is
  called at most once for a request, and it has been called for every ended request that had a sequence; a request counts as
  completed only if the backend confirmed the release; and the sequences held and the requests active never exceed the
  backend's declared limits.
\<close>

theorem sequences_released_once:
  assumes "reach (sim_start cf) (sim_move cf) s"
  shows "distinct (si_releases s) \<and>
    (\<forall>k e. dict_get (si_entries s) k = Some e \<longrightarrow>
      (se_lifecycle e = SimTerminal \<and> se_handle e \<noteq> None \<longrightarrow> k \<in> set (si_releases s)) \<and>
      (k \<in> set (si_releases s) \<longrightarrow> se_handle e \<noteq> None) \<and>
      (se_termination e = Some SimCompleted \<longrightarrow> release_confirmed (se_release_status e))) \<and>
    (\<exists>cap. bc_max_concurrent_sequences (cf_capabilities cf) = Some cap \<and>
      int (length (filter holds_handle (active_entries s))) \<le> cap) \<and>
    int (length (active_request_ids s)) \<le> bc_max_concurrent_requests (cf_capabilities cf)"
proof -
  note I = sim_invD [OF simulator_machine.inv_reach [OF assms]]
  obtain cap where cap: "bc_max_concurrent_sequences (cf_capabilities cf) = Some cap" using reach_capacity [OF assms] by blast
  have "int (length (filter holds_handle (active_entries s))) \<le> cap" using I(4) cap by (simp add: fits_def holding_tally)
  moreover have "int (length (active_request_ids s)) \<le> bc_max_concurrent_requests (cf_capabilities cf)"
    using I(5) active_tally [of s] by (simp add: active_request_ids_def request_ids_def)
  moreover have "(se_lifecycle e = SimTerminal \<and> se_handle e \<noteq> None \<longrightarrow> k \<in> set (si_releases s)) \<and>
      (k \<in> set (si_releases s) \<longrightarrow> se_handle e \<noteq> None) \<and>
      (se_termination e = Some SimCompleted \<longrightarrow> release_confirmed (se_release_status e))"
    if "dict_get (si_entries s) k = Some e" for k e
    using I(2) [OF that] I(3) that by (auto simp: entry_ok_def released_ok_def)
  ultimately show ?thesis using I(3) cap by (simp add: released_ok_def)
qed

definition after_ticks :: "('r, 'w) sim_config \<Rightarrow> nat \<Rightarrow> ('r, 'w) simulator \<Rightarrow> ('r, 'w) simulator" where
  "after_ticks cf n s = ((\<lambda>u. snd (sim_tick cf u)) ^^ n) s"

lemma ticks_end:
  assumes pr: "progressing cf work" and cap: "bc_max_concurrent_sequences (cf_capabilities cf) = Some cap" "0 < cap"
    and inv: "sim_inv cf s"
  shows "\<exists>n. sim_inv cf (after_ticks cf n s) \<and> active_entries (after_ticks cf n s) = []"
  using inv
proof (induction "rank work s" arbitrary: s rule: wf_induct_rule [OF wf_lex_prod [OF wf_less_than wf_less_than]])
  case (1 s)
  from sim_tick_progress [OF pr 1(2) cap] obtain out t where t: "sim_tick cf s = (Inr out, t)" "sim_inv cf t"
    "if to_selected_request_id out = None then active_entries t = [] else (rank work t, rank work s) \<in> less_than <*lex*> less_than" by blast
  have later: "after_ticks cf (Suc n) s = after_ticks cf n t" for n
    by (simp add: after_ticks_def funpow_Suc_right t(1) del: funpow.simps)
  show ?case
  proof (cases "to_selected_request_id out = None")
    case True
    then show ?thesis using t later [of 0] by (intro exI [of _ "Suc 0"]) (simp add: after_ticks_def)
  next
    case False
    then obtain n where "sim_inv cf (after_ticks cf n t)" "active_entries (after_ticks cf n t) = []"
      using 1(1) [OF _ t(2)] t(3) by auto
    then show ?thesis using later [of n] by (intro exI [of _ "Suc n"]) simp
  qed
qed

text \<open>
  C4: The scheduler terminates. With a clock and a sink that answer and a backend whose sequences have bounded work, a tick always
  returns, and after finitely many ticks every admitted request has ended and every sequence that was opened has been given back,
  however requests were admitted and cancelled before. No request starves and none blocks another.
\<close>

theorem ticking_terminates:
  assumes "progressing cf work" and "reach (sim_start cf) (sim_move cf) s"
  shows "(\<exists>out t. sim_tick cf s = (Inr out, t)) \<and>
    (\<exists>n. \<forall>k e. dict_get (si_entries (after_ticks cf n s)) k = Some e \<longrightarrow>
      se_lifecycle e = SimTerminal \<and> (se_handle e \<noteq> None \<longrightarrow> k \<in> set (si_releases (after_ticks cf n s))))"
proof -
  have inv: "sim_inv cf s" by (rule simulator_machine.inv_reach [OF assms(2)])
  obtain cap where cap: "bc_max_concurrent_sequences (cf_capabilities cf) = Some cap" "0 < cap" using reach_capacity [OF assms(2)] by blast
  obtain n where n: "sim_inv cf (after_ticks cf n s)" "active_entries (after_ticks cf n s) = []" using ticks_end [OF assms(1) cap inv] by blast
  have "se_lifecycle e = SimTerminal \<and> (se_handle e \<noteq> None \<longrightarrow> k \<in> set (si_releases (after_ticks cf n s)))"
    if get: "dict_get (si_entries (after_ticks cf n s)) k = Some e" for k e
  proof -
    have "e \<in> set (dict_values (si_entries (after_ticks cf n s)))" using get by (force dest: map_of_SomeD)
    then have "se_lifecycle e = SimTerminal" using n(2) by (auto simp: active_entries_def filter_empty_conv)
    then show ?thesis using sim_invD(2) [OF n(1) get] sim_invD(3) [OF n(1)] get by (auto simp: entry_ok_def released_ok_def)
  qed
  then show ?thesis using sim_tick_progress [OF assms(1) inv cap] by blast
qed

section \<open>A concrete run\<close>

definition demo_handle :: SequenceHandle where
  "demo_handle = \<lparr>sh_backend = ''b'', sh_model = ''m'', sh_sequence = ''0'', sh_generation = 1\<rparr>"

definition demo_world :: "(unit, nat) sim_world" where
  "demo_world =
     \<lparr>sw_now = \<lambda>w. (Inr (PFloat (Finite 0)), w), sw_publish = \<lambda>e w. (Inr (), w),
      sw_open = \<lambda>r m w. (Inr (Some demo_handle), 2),
      sw_prefill = \<lambda>h n w. if w = 0 then (Inr None, w)
        else (Inr (Some \<lparr>po_handle = h, po_status = PrefillReady, po_processed_tokens = 1, po_remaining_tokens = 0\<rparr>), w - 1),
      sw_decode = \<lambda>h n w. if w = 0
        then (Inr (Some \<lparr>do_handle = h, do_status = DecodeFailed, do_token_ids = [], do_text_delta = [], do_finish_reason = None,
                do_completion = None, do_error_code = Some ''stopped''\<rparr>), w)
        else (Inr (Some \<lparr>do_handle = h, do_status = DecodeProgressed, do_token_ids = [7], do_text_delta = ''a'', do_finish_reason = None,
                do_completion = None, do_error_code = None\<rparr>), w - 1),
      sw_release = \<lambda>h w. (Inr (Some \<lparr>ro_handle = h, ro_status = Released, ro_released_bytes = 0\<rparr>), w)\<rparr>"

definition demo_caps :: BackendCapabilities where
  "demo_caps =
     \<lparr>bc_backend = ''b'', bc_models = [''m''], bc_supports_full_request = False, bc_supports_sequence_steps = True,
      bc_supports_streaming = True, bc_supports_cancellation = True, bc_supports_chunked_prefill = True,
      bc_supports_decode_batching = False, bc_supports_continuous_batching = False, bc_supports_prefix_cache = False,
      bc_supports_session_cache = False, bc_supports_explicit_release = True, bc_max_context_tokens = 16,
      bc_max_output_tokens = 8, bc_max_concurrent_requests = 2, bc_max_concurrent_sequences = Some 1,
      bc_max_prefill_tokens_per_step = Some 4, bc_max_decode_tokens_per_step = Some 1, bc_max_sequences_per_step = Some 1\<rparr>"

definition demo_cf :: "(unit, nat) sim_config" where
  "demo_cf = \<lparr>cf_world = demo_world, cf_capabilities = demo_caps,
     cf_policy = \<lparr>sp_service_class_priorities = [(''c'', 1)], sp_aging_interval = 1\<rparr>\<rparr>"

definition demo_metadata :: SchedulingMetadata where
  "demo_metadata = \<lparr>sm_request_id = ''r'', sm_workflow_id = ''w'', sm_agent_id = ''a'', sm_service_class = ''c'', sm_weight = 1,
     sm_deadline_monotonic = None, sm_cache_scope = None, sm_session_cache = None\<rparr>"

definition demo_fresh :: "(unit, nat) simulator" where
  "demo_fresh = \<lparr>si_entries = [], si_next_order = 0, si_world = 0, si_releases = []\<rparr>"

definition demo_admitted :: "(unit, nat) simulator" where
  "demo_admitted = snd (sim_admit demo_cf () demo_metadata demo_fresh)"

definition demo_cancelled :: "(unit, nat) simulator" where
  "demo_cancelled = snd (sim_cancel demo_cf ''r'' (snd (sim_tick demo_cf demo_admitted)))"

lemma demo_sim_start: "sim_start demo_cf demo_fresh"
proof -
  have "capabilities_wf demo_caps"
    by (simp add: capabilities_wf_def coherent_steps_def demo_caps_def id_ok_def has_control_def)
  moreover have "new_simulator demo_cf 0 = Inr demo_fresh"
    by (simp add: new_simulator_def demo_cf_def demo_caps_def demo_world_def finite_non_negative_def demo_fresh_def)
  ultimately show ?thesis by (auto simp: sim_start_def demo_cf_def)
qed

lemma demo_admitted_reach: "reach (sim_start demo_cf) (sim_move demo_cf) demo_admitted"
  unfolding demo_admitted_def
  by (rule reach_step, rule reach_init, rule demo_sim_start, rule move_admit)
    (simp add: metadata_wf_def demo_metadata_def id_ok_def has_control_def)

lemma demo_cancelled_reach: "reach (sim_start demo_cf) (sim_move demo_cf) demo_cancelled"
  unfolding demo_cancelled_def
  by (rule reach_step, rule reach_step, rule demo_admitted_reach, rule move_tick, rule move_cancel)

lemma demo_progressing: "progressing demo_cf (\<lambda>w h. w)"
  by (auto simp: progressing_def demo_cf_def demo_world_def calm_def)

theorem sequences_released_once_witness:
  "si_releases demo_cancelled = [''r''] \<and> distinct (si_releases demo_cancelled) \<and> int (length (active_request_ids demo_cancelled)) \<le> 2"
proof -
  have "si_releases demo_cancelled = [''r'']" by code_simp
  moreover have "bc_max_concurrent_requests (cf_capabilities demo_cf) = 2" by (simp add: demo_cf_def demo_caps_def)
  ultimately show ?thesis using sequences_released_once [OF demo_cancelled_reach] by simp
qed

theorem ticking_terminates_witness:
  "map (\<lambda>(k, e). se_lifecycle e) (si_entries demo_admitted) = [SimAdmitted] \<and> (\<exists>out t. sim_tick demo_cf demo_admitted = (Inr out, t))"
proof -
  have "map (\<lambda>(k, e). se_lifecycle e) (si_entries demo_admitted) = [SimAdmitted]" by code_simp
  then show ?thesis using ticking_terminates [OF demo_progressing demo_admitted_reach] by blast
qed

end
