(* ===== verification/StructuredOutput.thy ===== *)
theory StructuredOutput
  imports Prelude
begin

text \<open>
  \<open>model_worker/errors.py\<close> and \<open>model_worker/output_contract/\<close>: the table of worker errors, the
  structured-output contract parsed from a JSON schema, the grammar that is compiled from it and
  the validator of the final output. The text of error messages is kept only in the details.
  \<open>quote\<close> is \<open>repr\<close> of a \<open>str\<close>, which depends on the Unicode database.
\<close>

section \<open>Worker errors\<close>

definition ERROR_HTTP_STATUS :: "(string, int) odict" where
  "ERROR_HTTP_STATUS =
     [(''invalid_request'', 400), (''request_too_large'', 413), (''unsupported_contract'', 422),
      (''context_overflow'', 422), (''queue_full'', 429), (''slow_consumer'', 429),
      (''queue_timeout'', 408), (''cancelled'', 409), (''deadline_exceeded'', 504),
      (''protocol_violation'', 422), (''output_invalid'', 422), (''decode_failed'', 502),
      (''worker_crashed'', 502), (''worker_not_ready'', 503), (''shutdown'', 503)]"

definition RETRYABLE :: "string list" where
  "RETRYABLE =
     [''queue_full'', ''queue_timeout'', ''slow_consumer'', ''deadline_exceeded'', ''decode_failed'',
      ''worker_crashed'', ''worker_not_ready'', ''shutdown'']"

record ErrorDetail =
  ed_path :: string
  ed_message :: string

record WorkerError =
  we_code :: string
  we_details :: "ErrorDetail list"

datatype worker_exc = WErr WorkerError | WPy py_exc

definition mk_WorkerError :: "string \<Rightarrow> ErrorDetail list \<Rightarrow> worker_exc" where
  "mk_WorkerError code details =
     (case dict_get ERROR_HTTP_STATUS code of
        None \<Rightarrow> WPy (ValueError ''unknown worker error code'')
      | Some _ \<Rightarrow> WErr \<lparr>we_code = code, we_details = details\<rparr>)"

definition worker_http_status :: "WorkerError \<Rightarrow> py_exc + int" where
  "worker_http_status e =
     (case dict_get ERROR_HTTP_STATUS (we_code e) of
        None \<Rightarrow> Inl (KeyErr (we_code e))
      | Some st \<Rightarrow> Inr st)"

definition worker_retryable :: "WorkerError \<Rightarrow> bool" where
  "worker_retryable e \<longleftrightarrow> we_code e \<in> set RETRYABLE"

definition worker_error_dict :: "string \<Rightarrow> WorkerError \<Rightarrow> (string, pyval) odict" where
  "worker_error_dict message e =
     [(''code'', PStr (we_code e)), (''message'', PStr message), (''retryable'', PBool (worker_retryable e)),
      (''details'', PList (map (\<lambda>d. PDict [(''path'', PStr (ed_path d)), (''message'', PStr (ed_message d))]) (we_details e)))]"

section \<open>Contracts\<close>

record PrimitiveRule =
  pr_name :: string
  pr_types :: "string list"
  pr_enum :: "pyval list option"

record ContractAST =
  ca_version :: string
  ca_properties :: "PrimitiveRule list"

definition SUPPORTED_TYPES :: "string list" where
  "SUPPORTED_TYPES = [''string'', ''integer'', ''boolean'', ''null'']"

definition ROOT_KEYS :: "string list" where
  "ROOT_KEYS = [''type'', ''properties'', ''required'', ''additionalProperties'']"

definition PROPERTY_KEYS :: "string list" where
  "PROPERTY_KEYS = [''type'', ''enum'']"

definition contract_fail :: "string \<Rightarrow> string \<Rightarrow> worker_exc" where
  "contract_fail path message = mk_WorkerError ''unsupported_contract'' [\<lparr>ed_path = path, ed_message = message\<rparr>]"

text \<open>The check of one value against one type name; booleans are not integers.\<close>

fun type_matches :: "pyval \<Rightarrow> string \<Rightarrow> bool" where
  "type_matches (PStr _) t = (t = ''string'')"
| "type_matches (PInt _) t = (t = ''integer'')"
| "type_matches (PBool _) t = (t = ''boolean'')"
| "type_matches PNone t = (t = ''null'')"
| "type_matches _ t = False"

fun str_items :: "pyval list \<Rightarrow> string list option" where
  "str_items [] = Some []"
| "str_items (PStr s # vs) = map_option (\<lambda>ss. s # ss) (str_items vs)"
| "str_items (_ # vs) = None"

definition non_finite :: "pyval \<Rightarrow> bool" where
  "non_finite v = (case v of PFloat x \<Rightarrow> (case x of Finite _ \<Rightarrow> False | _ \<Rightarrow> True) | _ \<Rightarrow> False)"

text \<open>\<open>repr\<close> of the values that reach it: every enum value has already matched a primitive type.\<close>

fun scalar_repr :: "(string \<Rightarrow> string) \<Rightarrow> pyval \<Rightarrow> string" where
  "scalar_repr quote (PStr s) = quote s"
| "scalar_repr quote (PInt i) = show_int i"
| "scalar_repr quote (PBool b) = (if b then ''True'' else ''False'')"
| "scalar_repr quote _ = ''None''"

definition least_key :: "string list \<Rightarrow> string" where
  "least_key ks = (case min_by id ks of None \<Rightarrow> [] | Some k \<Rightarrow> k)"

definition rule_types :: "string \<Rightarrow> (string, pyval) odict \<Rightarrow> worker_exc + string list" where
  "rule_types path spec =
     rbind
       (case dict_item spec ''type'' of
          PStr t \<Rightarrow> Inr [t]
        | PList vs \<Rightarrow>
            (case str_items vs of
               Some ts \<Rightarrow> if ts \<noteq> [] then Inr ts else Inl (contract_fail (path @ ''.type'') ''type is required'')
             | None \<Rightarrow> Inl (contract_fail (path @ ''.type'') ''type is required''))
        | _ \<Rightarrow> Inl (contract_fail (path @ ''.type'') ''type is required''))
       (\<lambda>ts.
          if \<not> (distinct ts \<and> set ts \<subseteq> set SUPPORTED_TYPES) then
            Inl (contract_fail (path @ ''.type'') ''duplicate or unsupported type'')
          else if 2 < length ts \<or> length ts = 2 \<and> ''null'' \<notin> set ts then
            Inl (contract_fail (path @ ''.type'') ''only a primitive optionally unioned with null is supported'')
          else Inr ts)"

fun check_enum :: "string \<Rightarrow> string list \<Rightarrow> pyval list \<Rightarrow> worker_exc + unit" where
  "check_enum path ts [] = Inr ()"
| "check_enum path ts (v # vs) =
     (if non_finite v then Inl (contract_fail path ''non-finite enum value'')
      else if \<not> list_ex (type_matches v) ts then Inl (contract_fail path ''enum value does not match declared type'')
      else check_enum path ts vs)"

definition rule_enum ::
  "(string \<Rightarrow> string) \<Rightarrow> string \<Rightarrow> string list \<Rightarrow> (string, pyval) odict \<Rightarrow> worker_exc + pyval list option" where
  "rule_enum quote path ts spec =
     (case dict_get spec ''enum'' of
        None \<Rightarrow> Inr None
      | Some (PList vs) \<Rightarrow>
          if vs = [] then Inl (contract_fail (path @ ''.enum'') ''enum must be non-empty'')
          else
            rbind (check_enum (path @ ''.enum'') ts vs) (\<lambda>_.
              if \<not> distinct (map (scalar_repr quote) vs) then Inl (contract_fail (path @ ''.enum'') ''duplicate enum value'')
              else Inr (Some vs))
      | Some _ \<Rightarrow> Inl (contract_fail (path @ ''.enum'') ''enum must be non-empty''))"

definition parse_rule :: "(string \<Rightarrow> string) \<Rightarrow> string \<times> pyval \<Rightarrow> worker_exc + PrimitiveRule" where
  "parse_rule quote np =
     (let name = fst np; path = ''$.properties.'' @ name in
      case snd np of
        PDict spec \<Rightarrow>
          if name = [] then Inl (contract_fail path ''property name and rule must be valid'')
          else if \<not> set (dict_keys spec) \<subseteq> set PROPERTY_KEYS then
            Inl (contract_fail path ''unsupported property keyword'')
          else
            rbind (rule_types path spec) (\<lambda>ts.
              rbind (rule_enum quote path ts spec) (\<lambda>en.
                Inr \<lparr>pr_name = name, pr_types = ts, pr_enum = en\<rparr>))
      | _ \<Rightarrow> Inl (contract_fail path ''property name and rule must be valid''))"

definition parse_contract :: "(string \<Rightarrow> string) \<Rightarrow> int \<Rightarrow> pyval \<Rightarrow> worker_exc + ContractAST" where
  "parse_contract quote max_properties schema =
     (case schema of
        PDict rt \<Rightarrow>
          let unknown = filter (\<lambda>k. k \<notin> set ROOT_KEYS) (dict_keys rt) in
          if unknown \<noteq> [] then
            Inl (contract_fail (''$.'' @ least_key unknown) ''unsupported schema keyword'')
          else if dict_item rt ''type'' \<noteq> PStr ''object'' \<or> dict_item rt ''additionalProperties'' \<noteq> PBool False then
            Inl (contract_fail ''$'' ''root must be object with additionalProperties=false'')
          else
            (case dict_item rt ''properties'' of
               PDict props \<Rightarrow>
                 if props = [] \<or> max_properties < int (length props) then
                   Inl (contract_fail ''$.properties'' ''properties must be a bounded non-empty object'')
                 else
                   (case dict_item rt ''required'' of
                      PList vs \<Rightarrow>
                        (case str_items vs of
                           None \<Rightarrow> Inl (contract_fail ''$.required'' ''required must contain unique strings'')
                         | Some names \<Rightarrow>
                             if \<not> distinct names then
                               Inl (contract_fail ''$.required'' ''required must contain unique strings'')
                             else if names \<noteq> dict_keys props then
                               Inl (contract_fail ''$.required'' ''all properties must be required in canonical property order'')
                             else
                               rbind (rmap (parse_rule quote) props) (\<lambda>rules.
                                 Inr \<lparr>ca_version = ''structured-output.v1'', ca_properties = rules\<rparr>))
                    | _ \<Rightarrow> Inl (contract_fail ''$.required'' ''required must contain unique strings''))
             | _ \<Rightarrow> Inl (contract_fail ''$.properties'' ''properties must be a bounded non-empty object''))
      | _ \<Rightarrow> Inl (contract_fail ''$'' ''schema must be an object''))"

section \<open>Validation of the output\<close>

text \<open>Python's \<open>==\<close>: numbers compare by value across types, dictionaries regardless of order.\<close>

fun number_of :: "pyval \<Rightarrow> pyfloat option" where
  "number_of (PBool b) = Some (Finite (of_bool b))"
| "number_of (PInt i) = Some (Finite (of_int i))"
| "number_of (PFloat x) = Some x"
| "number_of _ = None"

fun py_eq :: "pyval \<Rightarrow> pyval \<Rightarrow> bool"
  and py_eq_items :: "pyval list \<Rightarrow> pyval list \<Rightarrow> bool"
  and py_eq_entries :: "(string \<times> pyval) list \<Rightarrow> (string \<times> pyval) list \<Rightarrow> bool" where
  "py_eq PNone PNone = True"
| "py_eq (PStr s) (PStr t) = (s = t)"
| "py_eq (PList xs) (PList ys) = py_eq_items xs ys"
| "py_eq (PTuple xs) (PTuple ys) = py_eq_items xs ys"
| "py_eq (PDict ps) (PDict qs) = (length ps = length qs \<and> py_eq_entries ps qs)"
| "py_eq x y =
     (case (number_of x, number_of y) of
        (Some a, Some b) \<Rightarrow> a = b \<and> a \<noteq> NaN
      | _ \<Rightarrow> False)"
| "py_eq_items [] [] = True"
| "py_eq_items (x # xs) (y # ys) = (py_eq x y \<and> py_eq_items xs ys)"
| "py_eq_items _ _ = False"
| "py_eq_entries [] qs = True"
| "py_eq_entries ((k, v) # ps) qs =
     (case map_of qs k of None \<Rightarrow> False | Some w \<Rightarrow> py_eq v w \<and> py_eq_entries ps qs)"

definition rule_matches :: "pyval \<Rightarrow> PrimitiveRule \<Rightarrow> bool" where
  "rule_matches v r \<longleftrightarrow>
     list_ex (type_matches v) (pr_types r) \<and>
     (case pr_enum r of None \<Rightarrow> True | Some vs \<Rightarrow> list_ex (py_eq v) vs)"

definition validate_output :: "pyval \<Rightarrow> ContractAST \<Rightarrow> ErrorDetail list" where
  "validate_output v contract =
     (case v of
        PDict kvs \<Rightarrow>
          if dict_keys kvs \<noteq> map pr_name (ca_properties contract) then
            [\<lparr>ed_path = ''$'', ed_message = ''output keys must exactly match canonical contract order''\<rparr>]
          else
            map (\<lambda>r. \<lparr>ed_path = ''$.'' @ pr_name r, ed_message = ''value violates type or enum''\<rparr>)
              (filter (\<lambda>r. \<not> rule_matches (dict_item kvs (pr_name r)) r) (ca_properties contract))
      | _ \<Rightarrow> [\<lparr>ed_path = ''$'', ed_message = ''output must be an object''\<rparr>])"

section \<open>Well-formed contracts\<close>

definition wf_types :: "string list \<Rightarrow> bool" where
  "wf_types ts \<longleftrightarrow> ts \<noteq> [] \<and> distinct ts \<and> set ts \<subseteq> set SUPPORTED_TYPES \<and> length ts \<le> 2 \<and>
     (length ts = 2 \<longrightarrow> ''null'' \<in> set ts)"

definition wf_rule :: "PrimitiveRule \<Rightarrow> bool" where
  "wf_rule r \<longleftrightarrow> pr_name r \<noteq> [] \<and> wf_types (pr_types r) \<and>
     (\<forall>vs. pr_enum r = Some vs \<longrightarrow> vs \<noteq> [] \<and> distinct vs \<and> (\<forall>v\<in>set vs. list_ex (type_matches v) (pr_types r)))"

definition wf_contract :: "int \<Rightarrow> ContractAST \<Rightarrow> bool" where
  "wf_contract n c \<longleftrightarrow> ca_version c = ''structured-output.v1'' \<and> ca_properties c \<noteq> [] \<and>
     int (length (ca_properties c)) \<le> n \<and> distinct (map pr_name (ca_properties c)) \<and> list_all wf_rule (ca_properties c)"

text \<open>What a value must be, stated without Python's equality.\<close>

definition conforms :: "pyval \<Rightarrow> PrimitiveRule \<Rightarrow> bool" where
  "conforms v r \<longleftrightarrow> list_ex (type_matches v) (pr_types r) \<and> (\<forall>vs. pr_enum r = Some vs \<longrightarrow> v \<in> set vs)"

definition rule_schema :: "PrimitiveRule \<Rightarrow> pyval" where
  "rule_schema r = PDict ((''type'', PList (map PStr (pr_types r))) #
     (case pr_enum r of None \<Rightarrow> [] | Some vs \<Rightarrow> [(''enum'', PList vs)]))"

definition contract_schema :: "ContractAST \<Rightarrow> pyval" where
  "contract_schema c =
     PDict [(''type'', PStr ''object''), (''properties'', PDict (map (\<lambda>r. (pr_name r, rule_schema r)) (ca_properties c))),
            (''required'', PList (map (\<lambda>r. PStr (pr_name r)) (ca_properties c))), (''additionalProperties'', PBool False)]"

section \<open>Parsing\<close>

lemma str_items_Some: "str_items vs = Some ss \<longleftrightarrow> vs = map PStr ss"
proof (induction vs arbitrary: ss)
  case Nil
  then show ?case by auto
next
  case (Cons v vs)
  show ?case by (cases v) (auto simp: Cons.IH)
qed

lemma str_items_map [simp]: "str_items (map PStr ss) = Some ss"
  by (simp add: str_items_Some)

lemma check_enum_Inr:
  "check_enum p ts vs = Inr u \<longleftrightarrow> (\<forall>v\<in>set vs. \<not> non_finite v \<and> list_ex (type_matches v) ts)"
  by (induction vs) auto

lemma matches_finite: "type_matches v t \<Longrightarrow> \<not> non_finite v"
  by (cases v) (auto simp: non_finite_def)

lemma check_enum_ok: "check_enum p ts vs = Inr u \<longleftrightarrow> (\<forall>v\<in>set vs. list_ex (type_matches v) ts)"
  by (auto simp: check_enum_Inr list_ex_iff dest: matches_finite)

lemma rule_types_Inr:
  "rule_types p spec = Inr ts \<longleftrightarrow>
     wf_types ts \<and> (dict_item spec ''type'' = PList (map PStr ts) \<or> (\<exists>t. ts = [t] \<and> dict_item spec ''type'' = PStr t))"
  by (cases "dict_item spec ''type''")
    (auto simp: rule_types_def wf_types_def str_items_Some split: option.splits if_splits)

lemma rule_enum_Inr:
  "rule_enum q p ts spec = Inr en \<longleftrightarrow>
     (case en of None \<Rightarrow> dict_get spec ''enum'' = None
      | Some vs \<Rightarrow> dict_get spec ''enum'' = Some (PList vs) \<and> vs \<noteq> [] \<and> (\<forall>v\<in>set vs. list_ex (type_matches v) ts) \<and>
          distinct (map (scalar_repr q) vs))"
  by (auto simp: rule_enum_def check_enum_ok split: option.splits pyval.splits if_splits)

lemma parse_rule_wf:
  assumes "parse_rule q (n, v) = Inr r"
  shows "pr_name r = n \<and> wf_rule r"
  using assms
  by (auto simp: parse_rule_def Let_def wf_rule_def rule_types_Inr rule_enum_Inr distinct_map split: pyval.splits if_splits)

lemma parse_contract_cases:
  assumes "parse_contract q n schema = Inr c"
  obtains rt props rules where "schema = PDict rt" "dict_item rt ''properties'' = PDict props" "props \<noteq> []"
    "int (length props) \<le> n" "distinct (dict_keys props)" "rmap (parse_rule q) props = Inr rules"
    "c = \<lparr>ca_version = ''structured-output.v1'', ca_properties = rules\<rparr>"
  using assms by (auto simp: parse_contract_def Let_def split: pyval.splits option.splits if_splits)

lemma parse_rules_wf:
  "rmap (parse_rule q) props = Inr rules \<Longrightarrow> map pr_name rules = dict_keys props \<and> list_all wf_rule rules"
proof (induction props arbitrary: rules)
  case Nil
  then show ?case by simp
next
  case (Cons p props)
  obtain n v where p: "p = (n, v)" by (cases p)
  from Cons.prems obtain r rs where "parse_rule q (n, v) = Inr r" "rmap (parse_rule q) props = Inr rs" "rules = r # rs"
    by (auto simp: p)
  with Cons.IH [of rs] parse_rule_wf show ?case by (simp add: p)
qed

lemma parse_contract_wf:
  assumes "parse_contract q n schema = Inr c"
  shows "wf_contract n c"
  using assms
proof (rule parse_contract_cases)
  fix rt props rules
  assume *: "props \<noteq> []" "int (length props) \<le> n" "distinct (dict_keys props)" "rmap (parse_rule q) props = Inr rules"
    "c = \<lparr>ca_version = ''structured-output.v1'', ca_properties = rules\<rparr>"
  note rules = parse_rules_wf [OF *(4)]
  then have "length rules = length props" by (metis length_map)
  with * rules show ?thesis by (auto simp: wf_contract_def)
qed

section \<open>The printed form of scalars\<close>

definition digits :: "string" where "digits = ''0123456789''"

lemma digit_char_upto: "d < 10 \<Longrightarrow> digit_char d = digits ! d"
proof -
  assume "d < 10"
  then have "d \<in> {0,1,2,3,4,5,6,7,8,9}" by auto
  then show ?thesis by (auto simp: digit_char_def digits_def char_of_def bit_Suc_0_iff)
qed

lemma digit_char_inj: "d < 10 \<Longrightarrow> e < 10 \<Longrightarrow> digit_char d = digit_char e \<longleftrightarrow> d = e"
proof -
  assume "d < 10" "e < 10"
  moreover have "distinct digits" by (simp add: digits_def)
  ultimately show ?thesis by (simp add: digit_char_upto nth_eq_iff_index_eq digits_def)
qed

lemma show_nat_nonempty [simp]: "show_nat n \<noteq> []"
  by (subst show_nat.simps) simp

lemma show_nat_digits: "set (show_nat n) \<subseteq> set digits"
proof (induction n rule: show_nat.induct)
  case (1 n)
  have d: "digit_char k \<in> set digits" if "k < 10" for k
  proof -
    have "digits ! k \<in> set digits" using that by (intro nth_mem) (simp add: digits_def)
    then show ?thesis using that by (simp add: digit_char_upto)
  qed
  show ?case
  proof (cases "n < 10")
    case True
    then show ?thesis using d by (subst show_nat.simps) simp
  next
    case False
    then show ?thesis using d [of "n mod 10"] 1 by (subst show_nat.simps) auto
  qed
qed

lemma show_nat_inj: "show_nat m = show_nat n \<Longrightarrow> m = n"
proof (induction m arbitrary: n rule: show_nat.induct)
  case (1 m)
  have long: "show_nat k = show_nat (k div 10) @ [digit_char (k mod 10)]" if "\<not> k < 10" for k
    using that by (subst show_nat.simps) simp
  have short: "show_nat k = [digit_char k]" if "k < 10" for k
    using that by (subst show_nat.simps) simp
  show ?case
  proof (cases "m < 10"; cases "n < 10")
    assume "m < 10" "n < 10"
    then show ?thesis using 1(2) by (simp add: short digit_char_inj)
  next
    assume "m < 10" "\<not> n < 10"
    then show ?thesis using 1(2) show_nat_nonempty [of "n div 10", symmetric] by (simp add: short long)
  next
    assume "\<not> m < 10" "n < 10"
    then show ?thesis using 1(2) by (simp add: short long)
  next
    assume *: "\<not> m < 10" "\<not> n < 10"
    then have "show_nat (m div 10) = show_nat (n div 10)" "digit_char (m mod 10) = digit_char (n mod 10)"
      using 1(2) by (simp_all add: long)
    with 1(1) [OF *(1), of "n div 10"] have "m div 10 = n div 10" "m mod 10 = n mod 10"
      by (simp_all add: digit_char_inj)
    then show ?thesis by (metis div_mult_mod_eq)
  qed
qed

lemma hd_show_nat: "hd (show_nat n) \<in> set digits"
  using show_nat_digits [of n] hd_in_set [of "show_nat n"] by auto

lemma show_int_inj: "show_int i = show_int j \<longleftrightarrow> i = j"
proof -
  have no: "show_nat k \<noteq> CHR ''-'' # xs" for k xs
    using hd_show_nat [of k] by (auto simp: digits_def)
  show ?thesis
    using no [of "nat i"] no [of "nat j"] show_nat_inj [of "nat i" "nat j"] show_nat_inj [of "nat (- i)" "nat (- j)"]
      no [THEN not_sym, of _ "nat i"] no [THEN not_sym, of _ "nat j"]
    by (auto simp: show_int_def)
qed

definition repr_quotes :: "(string \<Rightarrow> string) \<Rightarrow> bool" where
  "repr_quotes q \<longleftrightarrow> inj q \<and> (\<forall>s. \<exists>t. q s = CHR 0x27 # t \<or> q s = CHR 0x22 # t)"

lemma show_int_hd: "\<exists>c t. show_int i = c # t \<and> c \<in> insert (CHR ''-'') (set digits)"
  using hd_show_nat [of "nat i"] show_nat_nonempty [of "nat i"]
  by (cases "show_nat (nat i)") (auto simp: show_int_def)

lemma scalar_repr_inj:
  assumes "repr_quotes q" and "type_matches v t" and "type_matches w u" and "scalar_repr q v = scalar_repr q w"
  shows "v = w"
proof -
  have inj: "q s = q s' \<longleftrightarrow> s = s'" for s s' using assms(1) by (auto simp: repr_quotes_def inj_eq)
  have qh: "\<exists>t. q s = CHR 0x27 # t \<or> q s = CHR 0x22 # t" for s using assms(1) by (simp add: repr_quotes_def)
  have qi: "q s \<noteq> show_int i" for s i
    using qh [of s] show_int_hd [of i] by (auto simp: digits_def)
  have qc: "q s \<noteq> CHR ''T'' # x" "q s \<noteq> CHR ''F'' # x" "q s \<noteq> CHR ''N'' # x" for s x
    using qh [of s] by auto
  have ic: "show_int i \<noteq> CHR ''T'' # x" "show_int i \<noteq> CHR ''F'' # x" "show_int i \<noteq> CHR ''N'' # x" for i x
    using show_int_hd [of i] by (auto simp: digits_def)
  note ne = qi qi [symmetric] qc qc [symmetric] ic ic [symmetric]
  show ?thesis
    using assms(2-4) by (cases v; cases w) (auto simp: inj show_int_inj ne split: if_splits)
qed

section \<open>Round trip\<close>

lemma enum_reprs_distinct:
  assumes "repr_quotes q" and "\<forall>v\<in>set vs. list_ex (type_matches v) ts" and "distinct vs"
  shows "distinct (map (scalar_repr q) vs)"
proof -
  have "inj_on (scalar_repr q) (set vs)"
  proof (rule inj_onI)
    fix v w assume *: "v \<in> set vs" "w \<in> set vs" "scalar_repr q v = scalar_repr q w"
    then obtain t u where "type_matches v t" "type_matches w u"
      using assms(2) by (metis list_ex_iff)
    from scalar_repr_inj [OF assms(1) this *(3)] show "v = w" .
  qed
  with assms(3) show ?thesis by (simp add: distinct_map)
qed

lemma parse_rule_schema:
  assumes "repr_quotes q" and "wf_rule r"
  shows "parse_rule q (pr_name r, rule_schema r) = Inr r"
proof -
  let ?spec = "(''type'', PList (map PStr (pr_types r))) # (case pr_enum r of None \<Rightarrow> [] | Some vs \<Rightarrow> [(''enum'', PList vs)])"
  have types: "rule_types p ?spec = Inr (pr_types r)" for p
    using assms(2) by (simp add: rule_types_Inr wf_rule_def dict_item_def)
  have enum: "rule_enum q p (pr_types r) ?spec = Inr (pr_enum r)" for p
    using assms(2) enum_reprs_distinct [OF assms(1), of _ "pr_types r"]
    by (auto simp: rule_enum_Inr wf_rule_def split: option.splits)
  have keys: "set (dict_keys ?spec) \<subseteq> set PROPERTY_KEYS"
    by (auto simp: PROPERTY_KEYS_def split: option.splits)
  have "pr_name r \<noteq> []" using assms(2) by (simp add: wf_rule_def)
  with types enum keys show ?thesis by (simp add: parse_rule_def rule_schema_def Let_def)
qed

lemma parse_contract_schema:
  assumes "repr_quotes q" and "wf_contract n c"
  shows "parse_contract q n (contract_schema c) = Inr c"
proof -
  let ?ps = "ca_properties c"
  have rules: "rmap (parse_rule q) (map (\<lambda>r. (pr_name r, rule_schema r)) ?ps) = Inr ?ps"
    using assms(2) by (intro rmap_map_id parse_rule_schema [OF assms(1)]) (auto simp: wf_contract_def list_all_iff)
  have names: "str_items (map (\<lambda>r. PStr (pr_name r)) ?ps) = Some (map pr_name ?ps)"
    by (simp add: str_items_Some)
  show ?thesis
    using assms(2) rules names
    by (simp add: parse_contract_def contract_schema_def dict_item_def ROOT_KEYS_def wf_contract_def o_def)
qed


section \<open>Validation\<close>

lemma rule_types_primitive:
  assumes "wf_types ts" and "t \<in> set ts" and "u \<in> set ts" and "t \<noteq> ''null''" and "u \<noteq> ''null''"
  shows "t = u"
proof -
  have "length ts = 1 \<or> length ts = 2"
    using assms(1) by (cases "length ts") (auto simp: wf_types_def le_Suc_eq numeral_2_eq_2)
  then show ?thesis
  proof
    assume "length ts = 1"
    then obtain a where "ts = [a]" by (auto simp: length_Suc_conv)
    with assms show ?thesis by simp
  next
    assume "length ts = 2"
    then obtain a b where "ts = [a, b]" by (auto simp: length_Suc_conv numeral_2_eq_2)
    with assms show ?thesis by (auto simp: wf_types_def)
  qed
qed

lemma py_eq_typed:
  assumes "wf_types ts" and "list_ex (type_matches v) ts" and "list_ex (type_matches w) ts"
  shows "py_eq v w \<longleftrightarrow> v = w"
  using assms rule_types_primitive [OF assms(1), of "''integer''" "''boolean''"]
  by (cases v; cases w) (auto simp: list_ex_iff)

lemma rule_matches_conforms:
  assumes "wf_rule r"
  shows "rule_matches v r \<longleftrightarrow> conforms v r"
proof (cases "list_ex (type_matches v) (pr_types r)")
  case True
  have "list_ex (py_eq v) vs \<longleftrightarrow> v \<in> set vs" if "pr_enum r = Some vs" for vs
  proof -
    have "py_eq v w \<longleftrightarrow> v = w" if "w \<in> set vs" for w
      using assms True that \<open>pr_enum r = Some vs\<close> by (intro py_eq_typed) (auto simp: wf_rule_def)
    then show ?thesis by (auto simp: list_ex_iff)
  qed
  with True show ?thesis by (auto simp: rule_matches_def conforms_def split: option.splits)
qed (simp add: rule_matches_def conforms_def)

lemma dict_item_zip:
  assumes "distinct ks" and "length ks = length vs" and "i < length ks"
  shows "dict_item (zip ks vs) (ks ! i) = vs ! i"
  using assms by (simp add: dict_item_def map_of_zip_nth)

text \<open>
  C16: The validator is exact. Against a parsed contract, an output is accepted precisely when it is
  an object with the contract's properties as keys, in the canonical order, each value being of a
  declared type and, where an enum is declared, identical to one of its members. Python's equality of
  booleans, integers and floats cannot let a value of another type through.
\<close>

theorem validate_exact:
  assumes "parse_contract q n schema = Inr c"
  shows "validate_output v c = [] \<longleftrightarrow>
    (\<exists>vs. v = PDict (zip (map pr_name (ca_properties c)) vs) \<and> list_all2 conforms vs (ca_properties c))"
proof -
  let ?ps = "ca_properties c"
  have wf: "list_all wf_rule ?ps" and dist: "distinct (map pr_name ?ps)"
    using parse_contract_wf [OF assms] by (auto simp: wf_contract_def)
  have m: "rule_matches x r \<longleftrightarrow> conforms x r" if "r \<in> set ?ps" for x r
    using wf that by (auto simp: list_all_iff intro!: rule_matches_conforms)
  have all: "(\<forall>r\<in>set ?ps. rule_matches (dict_item (zip (map pr_name ?ps) vs) (pr_name r)) r) \<longleftrightarrow> list_all2 conforms vs ?ps"
    if len: "length vs = length ?ps" for vs
  proof -
    have "dict_item (zip (map pr_name ?ps) vs) (pr_name (?ps ! i)) = vs ! i" if "i < length ?ps" for i
      using dict_item_zip [OF dist, of vs i] len that by simp
    then show ?thesis using len m by (auto simp: all_set_conv_all_nth list_all2_conv_all_nth)
  qed
  show ?thesis
  proof (cases v)
    case (PDict kvs)
    show ?thesis
    proof (cases "dict_keys kvs = map pr_name ?ps")
      case True
      then have z: "kvs = zip (map pr_name ?ps) (map snd kvs)" by (metis zip_map_fst_snd)
      have len: "length (map snd kvs) = length ?ps" using True by (metis length_map)
      have "validate_output v c = [] \<longleftrightarrow> list_all2 conforms (map snd kvs) ?ps"
        using all [OF len] True z by (auto simp: validate_output_def PDict filter_empty_conv)
      moreover have "vs = map snd kvs" if "kvs = zip (map pr_name ?ps) vs" "length vs = length ?ps" for vs
        using that by simp
      ultimately show ?thesis using PDict z by (metis list_all2_lengthD pyval.inject(7))
    next
      case False
      have "kvs \<noteq> zip (map pr_name ?ps) vs" if "list_all2 conforms vs ?ps" for vs
        using False list_all2_lengthD [OF that] by auto
      with False PDict show ?thesis by (auto simp: validate_output_def)
    qed
  qed (auto simp: validate_output_def)
qed

end
