(* ===== verification/Grammar.thy ===== *)
theory Grammar
  imports StructuredOutput
begin

text \<open>
  \<open>model_worker/output_contract/gbnf.py\<close>: the decoding grammar compiled from a contract, as the
  text the source writes. Names and enum values come from the client's schema; the lemmas show that
  they stay inside their own literals. \<open>other\<close> is \<open>json.dumps\<close> on values that are not primitive,
  which a parsed contract does not hold.
\<close>

section \<open>JSON text of strings and primitive values\<close>

definition dq :: char where "dq = CHR 0x22"
definition bs :: char where "bs = CHR 0x5C"
definition nl :: char where "nl = CHR 0x0A"

definition hex_char :: "nat \<Rightarrow> char" where
  "hex_char n = (if n < 10 then char_of (48 + n) else char_of (87 + n))"

definition json_char :: "char \<Rightarrow> string" where
  "json_char c =
     (if c = dq then [bs, dq]
      else if c = bs then [bs, bs]
      else if c = nl then [bs, CHR ''n'']
      else if c = CHR 0x0D then [bs, CHR ''r'']
      else if c = CHR 0x09 then [bs, CHR ''t'']
      else if c = CHR 0x0C then [bs, CHR ''f'']
      else if c = CHR 0x08 then [bs, CHR ''b'']
      else if (of_char c :: nat) < 32 then
        [bs, CHR ''u'', CHR ''0'', CHR ''0'', hex_char (of_char c div 16), hex_char (of_char c mod 16)]
      else [c])"

definition json_str :: "string \<Rightarrow> string" where
  "json_str s = dq # concat (map json_char s) @ [dq]"

fun dumps_scalar :: "(pyval \<Rightarrow> string) \<Rightarrow> pyval \<Rightarrow> string" where
  "dumps_scalar other (PStr s) = json_str s"
| "dumps_scalar other (PInt i) = show_int i"
| "dumps_scalar other (PBool b) = (if b then ''true'' else ''false'')"
| "dumps_scalar other PNone = ''null''"
| "dumps_scalar other v = other v"

section \<open>The compiler\<close>

fun join :: "string \<Rightarrow> string list \<Rightarrow> string" where
  "join sep [] = []"
| "join sep [x] = x"
| "join sep (x # y # xs) = x @ sep @ join sep (y # xs)"

definition quoted :: "string \<Rightarrow> string" where
  "quoted s = [dq] @ s @ [dq]"

definition gbnf_terminal :: "string \<Rightarrow> string" where
  "gbnf_terminal s = json_str s"

definition type_expr :: "string \<Rightarrow> string" where
  "type_expr t =
     (if t = ''string'' then ''json-string''
      else if t = ''integer'' then ''json-integer''
      else if t = ''boolean'' then ''('' @ quoted ''true'' @ '' | '' @ quoted ''false'' @ '')''
      else quoted ''null'')"

definition value_expr :: "(pyval \<Rightarrow> string) \<Rightarrow> PrimitiveRule \<Rightarrow> string" where
  "value_expr other r =
     (case pr_enum r of
        Some vs \<Rightarrow> join '' | '' (map (\<lambda>v. gbnf_terminal (dumps_scalar other v)) vs)
      | None \<Rightarrow>
          (let opts = map type_expr (pr_types r) in
           if length opts = 1 then opts ! 0 else ''('' @ join '' | '' opts @ '')''))"

text \<open>
  \<open>re.sub\<close> replaces one code point by one dash: a byte that continues a code point is dropped with it.
\<close>

definition continuation :: "char \<Rightarrow> bool" where
  "continuation c \<longleftrightarrow> 128 \<le> (of_char c :: nat) \<and> (of_char c :: nat) < 192"

definition alnum :: "char \<Rightarrow> bool" where
  "alnum c \<longleftrightarrow> (let n = (of_char c :: nat) in 48 \<le> n \<and> n \<le> 57 \<or> 65 \<le> n \<and> n \<le> 90 \<or> 97 \<le> n \<and> n \<le> 122)"

definition lower_char :: "char \<Rightarrow> char" where
  "lower_char c = (let n = (of_char c :: nat) in if 65 \<le> n \<and> n \<le> 90 then char_of (n + 32) else c)"

definition strip_dashes :: "string \<Rightarrow> string" where
  "strip_dashes s = rev (dropWhile (\<lambda>c. c = CHR ''-'') (rev (dropWhile (\<lambda>c. c = CHR ''-'') s)))"

definition field_slug :: "string \<Rightarrow> string" where
  "field_slug name =
     (let replaced = map (\<lambda>c. if alnum c \<or> c = CHR ''-'' then c else CHR ''-'') (filter (\<lambda>c. \<not> continuation c) name);
          slug = map lower_char (strip_dashes replaced) in
      if slug = [] then ''field'' else slug)"

definition rule_name :: "nat \<Rightarrow> PrimitiveRule \<Rightarrow> string" where
  "rule_name index r = ''value-'' @ show_nat index @ ''-'' @ field_slug (pr_name r)"

definition member_text :: "nat \<Rightarrow> PrimitiveRule \<Rightarrow> string" where
  "member_text index r =
     gbnf_terminal (json_str (pr_name r)) @ '' ws '' @ quoted '':'' @ '' ws '' @ rule_name index r"

definition rule_text :: "(pyval \<Rightarrow> string) \<Rightarrow> nat \<Rightarrow> PrimitiveRule \<Rightarrow> string" where
  "rule_text other index r = rule_name index r @ '' ::= '' @ value_expr other r"

definition root_text :: "PrimitiveRule list \<Rightarrow> string" where
  "root_text rules =
     ''root ::= '' @ quoted ''{'' @ '' ws '' @
     join ('' '' @ quoted '','' @ '' ws '') (map (\<lambda>(i, r). member_text i r) (enumerate 0 rules)) @
     '' '' @ quoted ''}'' @ '' ws''"

definition common_rules :: "string list" where
  "common_rules =
     [''json-integer ::= '' @ quoted ''-'' @ ''? ('' @ quoted ''0'' @ '' | [1-9] [0-9]*)'',
      ''json-string ::= '' @ quoted [bs, dq] @ '' json-char* '' @ quoted [bs, dq],
      ''json-char ::= [^'' @ [dq, bs, bs, bs] @ ''x7F'' @ [bs] @ ''x00-'' @ [bs] @ ''x1F] | '' @ quoted [bs, bs] @
        '' (['' @ [dq, bs, bs] @ ''/bfnrt] | '' @ quoted ''u'' @ '' [0-9a-fA-F]{4})'',
      ''ws ::= [ '' @ [bs] @ ''t'' @ [bs] @ ''n'' @ [bs] @ ''r]*'']"

definition compile_gbnf :: "(pyval \<Rightarrow> string) \<Rightarrow> ContractAST \<Rightarrow> string" where
  "compile_gbnf other c =
     (let rules = ca_properties c in
      join [nl] (root_text rules # map (\<lambda>(i, r). rule_text other i r) (enumerate 0 rules) @ common_rules @ [[]]))"

section \<open>Reading the grammar back\<close>

text \<open>
  What the consumer of the grammar does with a literal and with lines: a literal ends at the first
  quote that no backslash precedes, and the only escapes needed here are those of backslash and quote.
\<close>

fun read_literal :: "string \<Rightarrow> (string \<times> string) option" where
  "read_literal [] = None"
| "read_literal (c # cs) =
     (if c = dq then Some ([], cs)
      else if c = bs then
        (case cs of
           d # ds \<Rightarrow> if d = bs \<or> d = dq then map_option (\<lambda>(s, r). (d # s, r)) (read_literal ds) else None
         | [] \<Rightarrow> None)
      else map_option (\<lambda>(s, r). (c # s, r)) (read_literal cs))"

fun split_lines :: "string \<Rightarrow> string list" where
  "split_lines [] = [[]]"
| "split_lines (c # cs) =
     (if c = nl then [] # split_lines cs
      else (case split_lines cs of [] \<Rightarrow> [[c]] | l # ls \<Rightarrow> (c # l) # ls))"

definition hex_val :: "char \<Rightarrow> nat" where
  "hex_val c = (let n = (of_char c :: nat) in if n < 58 then n - 48 else n - 87)"

text \<open>A reader of JSON string text, for the escapes the printer emits.\<close>

fun json_read :: "string \<Rightarrow> (string \<times> string) option" where
  "json_read [] = None"
| "json_read (c # cs) =
     (if c = dq then Some ([], cs)
      else if c = bs then
        (case cs of
           d # ds \<Rightarrow>
             (if d = bs \<or> d = dq then map_option (\<lambda>(s, r). (d # s, r)) (json_read ds)
              else if d = CHR ''n'' then map_option (\<lambda>(s, r). (nl # s, r)) (json_read ds)
              else if d = CHR ''r'' then map_option (\<lambda>(s, r). (CHR 0x0D # s, r)) (json_read ds)
              else if d = CHR ''t'' then map_option (\<lambda>(s, r). (CHR 0x09 # s, r)) (json_read ds)
              else if d = CHR ''f'' then map_option (\<lambda>(s, r). (CHR 0x0C # s, r)) (json_read ds)
              else if d = CHR ''b'' then map_option (\<lambda>(s, r). (CHR 0x08 # s, r)) (json_read ds)
              else if d = CHR ''u'' then
                (case ds of
                   _ # _ # h # k # es \<Rightarrow>
                     map_option (\<lambda>(s, r). (char_of (16 * hex_val h + hex_val k) # s, r)) (json_read es)
                 | _ \<Rightarrow> None)
              else None)
         | [] \<Rightarrow> None)
      else map_option (\<lambda>(s, r). (c # s, r)) (json_read cs))"

section \<open>Literals\<close>

definition printable :: "string \<Rightarrow> bool" where
  "printable s \<longleftrightarrow> (\<forall>c\<in>set s. 32 \<le> (of_char c :: nat))"

lemmas char_defs = dq_def bs_def nl_def

lemma hex_val_char: "n < 16 \<Longrightarrow> hex_val (hex_char n) = n"
  by (auto simp: hex_val_def hex_char_def Let_def of_char_of)

lemma json_char_cases:
  obtains (plain) "json_char c = [c]" "c \<noteq> dq" "c \<noteq> bs" "32 \<le> (of_char c :: nat)"
  | (quote) "c = dq \<or> c = bs" "json_char c = [bs, c]"
  | (short) d where "json_char c = [bs, d]" "(c, d) \<in> {(nl, CHR ''n''), (CHR 0x0D, CHR ''r''), (CHR 0x09, CHR ''t''),
      (CHR 0x0C, CHR ''f''), (CHR 0x08, CHR ''b'')}"
  | (long) "json_char c = [bs, CHR ''u'', CHR ''0'', CHR ''0'', hex_char (of_char c div 16), hex_char (of_char c mod 16)]"
      "(of_char c :: nat) < 32"
proof -
  let ?short = "{(nl, CHR ''n''), (CHR 0x0D, CHR ''r''), (CHR 0x09, CHR ''t''), (CHR 0x0C, CHR ''f''), (CHR 0x08, CHR ''b'')}"
  consider "c = dq \<or> c = bs" | d where "(c, d) \<in> ?short"
    | "\<forall>d. (c, d) \<notin> ?short" "c \<noteq> dq" "c \<noteq> bs" "(of_char c :: nat) < 32"
    | "\<forall>d. (c, d) \<notin> ?short" "c \<noteq> dq" "c \<noteq> bs" "32 \<le> (of_char c :: nat)"
    by (meson linorder_not_less)
  then show thesis
  proof cases
    case 1
    then show ?thesis by (intro quote) (auto simp: json_char_def)
  next
    case (2 d)
    then have "json_char c = [bs, d]" by (auto simp: json_char_def char_defs)
    from this 2 show ?thesis by (rule short)
  next
    case 3
    then show ?thesis by (intro long) (auto simp: json_char_def)
  next
    case 4
    then show ?thesis by (intro plain) (auto simp: json_char_def)
  qed
qed

lemma hex_char_printable: "n < 16 \<Longrightarrow> 32 \<le> (of_char (hex_char n) :: nat)"
  by (auto simp: hex_char_def of_char_of)

lemma json_char_printable: "printable (json_char c)"
proof (cases c rule: json_char_cases)
  case long
  then show ?thesis by (simp add: printable_def bs_def hex_char_printable)
qed (auto simp: printable_def char_defs)

lemma json_str_printable: "printable (json_str s)"
  using json_char_printable by (auto simp: json_str_def printable_def dq_def)

lemma char_16: "(of_char c :: nat) < 32 \<Longrightarrow> char_of (16 * hex_val (hex_char (of_char c div 16)) + hex_val (hex_char (of_char c mod 16))) = c"
proof -
  assume "(of_char c :: nat) < 32"
  then have "(of_char c :: nat) div 16 < 16" by simp
  then show ?thesis by (simp add: hex_val_char)
qed

lemma json_read_char: "json_read (json_char c @ t) = map_option (\<lambda>(s, r). (c # s, r)) (json_read t)"
proof (cases c rule: json_char_cases)
  case long
  then show ?thesis using char_16 [of c] by (simp add: char_defs)
qed (auto simp: char_defs)

lemma json_read_text: "json_read (concat (map json_char s) @ dq # r) = Some (s, r)"
proof (induction s)
  case Nil
  then show ?case by simp
next
  case (Cons c s)
  then show ?case using json_read_char [of c "concat (map json_char s) @ dq # r"] by simp
qed

lemma json_str_read: "json_read (tl (json_str s) @ r) = Some (s, r)"
  using json_read_text [of s r] by (simp add: json_str_def)

lemma read_literal_char:
  "32 \<le> (of_char c :: nat) \<Longrightarrow> read_literal (json_char c @ t) = map_option (\<lambda>(s, r). (c # s, r)) (read_literal t)"
  by (cases c rule: json_char_cases) (auto simp: char_defs)

lemma literal_read: "printable s \<Longrightarrow> read_literal (tl (gbnf_terminal s) @ r) = Some (s, r)"
proof -
  assume "printable s"
  then have "read_literal (concat (map json_char s) @ dq # r) = Some (s, r)"
  proof (induction s)
    case Nil
    then show ?case by simp
  next
    case (Cons c s)
    then show ?case using read_literal_char [of c "concat (map json_char s) @ dq # r"] by (simp add: printable_def)
  qed
  then show ?thesis by (simp add: gbnf_terminal_def json_str_def)
qed

lemma dumps_printable: "type_matches v t \<Longrightarrow> printable (dumps_scalar other v)"
proof (cases v)
  case (PInt i)
  have "c \<in> insert (CHR ''-'') (set digits)" if "c \<in> set (show_int i)" for c
    using that show_nat_digits [of "nat i"] show_nat_digits [of "nat (- i)"] by (auto simp: show_int_def split: if_splits)
  then show ?thesis by (force simp: PInt printable_def digits_def)
next
  case (PStr s)
  then show ?thesis by (simp add: json_str_printable)
qed (auto simp: printable_def)

section \<open>Rule names and lines\<close>

lemma show_nat_dash_inj: "show_nat i @ CHR ''-'' # x = show_nat j @ CHR ''-'' # y \<Longrightarrow> i = j"
proof -
  assume eq: "show_nat i @ CHR ''-'' # x = show_nat j @ CHR ''-'' # y"
  have "takeWhile (\<lambda>c. c \<in> set digits) (show_nat k @ CHR ''-'' # z) = show_nat k" for k z
  proof -
    have "CHR ''-'' \<notin> set digits" by (simp add: digits_def)
    moreover have "c \<in> set digits" if "c \<in> set (show_nat k)" for c using show_nat_digits [of k] that by blast
    ultimately show ?thesis by (simp add: takeWhile_append2)
  qed
  with eq have "show_nat i = show_nat j" by metis
  then show ?thesis by (rule show_nat_inj)
qed

lemma rule_name_inj: "rule_name i r = rule_name j r' \<Longrightarrow> i = j"
  using show_nat_dash_inj [of i "field_slug (pr_name r)" j "field_slug (pr_name r')"] by (simp add: rule_name_def)

definition name_char :: "char \<Rightarrow> bool" where
  "name_char c \<longleftrightarrow> c = CHR ''-'' \<or> (let n = (of_char c :: nat) in 48 \<le> n \<and> n \<le> 57 \<or> 97 \<le> n \<and> n \<le> 122)"

lemma lower_alnum: "alnum c \<or> c = CHR ''-'' \<Longrightarrow> name_char (lower_char c)"
  by (auto simp: alnum_def name_char_def lower_char_def Let_def of_char_of)

lemma strip_dashes_subset: "set (strip_dashes s) \<subseteq> set s"
proof -
  have "set (dropWhile P xs) \<subseteq> set xs" for P and xs :: string by (auto dest: set_dropWhileD)
  then show ?thesis unfolding strip_dashes_def by (metis (no_types, lifting) order_trans set_rev)
qed

lemma field_slug_chars: "\<forall>c\<in>set (field_slug n). name_char c"
proof -
  let ?r = "map (\<lambda>c. if alnum c \<or> c = CHR ''-'' then c else CHR ''-'') (filter (\<lambda>c. \<not> continuation c) n)"
  have "alnum c \<or> c = CHR ''-''" if "c \<in> set (strip_dashes ?r)" for c
    using strip_dashes_subset that by fastforce
  then have "\<forall>c\<in>set (map lower_char (strip_dashes ?r)). name_char c"
    using lower_alnum by auto
  moreover have "\<forall>c\<in>set ''field''. name_char c" by (simp add: name_char_def)
  ultimately show ?thesis by (simp add: field_slug_def Let_def)
qed

lemma digit_name_char: "c \<in> set digits \<Longrightarrow> name_char c"
  by (auto simp: digits_def name_char_def)

lemma rule_name_chars: "\<forall>c\<in>set (rule_name i r). name_char c"
proof -
  have "\<forall>c\<in>set ''value-''. name_char c" by (simp add: name_char_def)
  moreover have "\<forall>c\<in>set (show_nat i). name_char c" using show_nat_digits [of i] digit_name_char by auto
  ultimately show ?thesis using field_slug_chars [of "pr_name r"] by (auto simp: rule_name_def name_char_def)
qed

lemma split_lines_append: "nl \<notin> set x \<Longrightarrow> split_lines (x @ nl # y) = x # split_lines y"
  by (induction x) auto

lemma split_lines_one: "nl \<notin> set x \<Longrightarrow> split_lines x = [x]"
  by (induction x) auto

lemma split_join: "xs \<noteq> [] \<Longrightarrow> \<forall>x\<in>set xs. nl \<notin> set x \<Longrightarrow> split_lines (join [nl] xs) = xs"
proof (induction xs rule: induct_list012)
  case (2 x)
  then show ?case by (simp add: split_lines_one)
next
  case (3 x y zs)
  then show ?case by (simp add: split_lines_append)
qed simp

lemma printable_nl: "printable s \<Longrightarrow> nl \<notin> set s"
  by (auto simp: printable_def nl_def)

lemma printable_simps [simp]:
  "printable []"
  "printable (c # s) \<longleftrightarrow> 32 \<le> (of_char c :: nat) \<and> printable s"
  "printable (x @ y) \<longleftrightarrow> printable x \<and> printable y"
  by (auto simp: printable_def)

lemma printable_join: "printable sep \<Longrightarrow> \<forall>x\<in>set xs. printable x \<Longrightarrow> printable (join sep xs)"
  by (induction sep xs rule: join.induct) simp_all

lemma printable_quoted: "printable s \<Longrightarrow> printable (quoted s)"
  by (simp add: quoted_def dq_def)

lemma name_printable: "printable (rule_name i r)"
  using rule_name_chars [of i r] by (force simp: printable_def name_char_def Let_def)

lemma printable_literals [simp]:
  "printable '' ws ''" "printable '' ::= ''" "printable ''root ::= ''" "printable '' | ''" "printable '' ''"
  by simp_all

lemma terminal_printable: "printable (gbnf_terminal s)"
  by (simp add: gbnf_terminal_def json_str_printable)

lemma type_expr_printable: "printable (type_expr t)"
  by (simp add: type_expr_def printable_quoted)

lemma value_expr_printable: "printable (value_expr other r)"
  by (auto simp: value_expr_def Let_def terminal_printable type_expr_printable length_Suc_conv
      intro!: printable_join split: option.splits)

lemma root_text_printable: "printable (root_text rules)"
proof -
  have m: "\<forall>x\<in>set (map (\<lambda>(i, r). member_text i r) (enumerate 0 rules)). printable x"
    by (auto simp: member_text_def terminal_printable printable_quoted name_printable)
  have sep: "printable ('' '' @ quoted '','' @ '' ws '')" by (simp add: printable_quoted)
  show ?thesis unfolding root_text_def using printable_join [OF sep m] by (simp add: printable_quoted)
qed

lemma common_printable: "x \<in> set common_rules \<Longrightarrow> printable x"
  by (auto simp: common_rules_def quoted_def char_defs)

lemma compile_lines:
  "split_lines (compile_gbnf other c) =
     root_text (ca_properties c) # map (\<lambda>(i, r). rule_text other i r) (enumerate 0 (ca_properties c)) @ common_rules @ [[]]"
proof -
  let ?ls = "root_text (ca_properties c) # map (\<lambda>(i, r). rule_text other i r) (enumerate 0 (ca_properties c)) @ common_rules @ [[]]"
  have "\<forall>x\<in>set ?ls. printable x"
    by (auto simp: root_text_printable rule_text_def name_printable value_expr_printable common_printable)
  then have "\<forall>x\<in>set ?ls. nl \<notin> set x" using printable_nl by blast
  then show ?thesis using split_join [of ?ls] by (simp add: compile_gbnf_def Let_def)
qed

lemma rule_names_distinct: "distinct (map (\<lambda>(i, r). rule_name i r) (enumerate k rules))"
proof (induction rules arbitrary: k)
  case Nil
  then show ?case by simp
next
  case (Cons r rules)
  have "rule_name k r \<noteq> rule_name i r'" if "(i, r') \<in> set (enumerate (Suc k) rules)" for i r'
    using that rule_name_inj by (fastforce simp: in_set_enumerate_eq)
  with Cons show ?case by auto
qed


section \<open>A concrete contract\<close>

definition demo_rule :: PrimitiveRule where
  "demo_rule = \<lparr>pr_name = ''a'', pr_types = [''integer'', ''null''], pr_enum = Some [PInt 1, PNone]\<rparr>"

definition demo_contract :: ContractAST where
  "demo_contract = \<lparr>ca_version = ''structured-output.v1'', ca_properties = [demo_rule]\<rparr>"

definition demo_quote :: "string \<Rightarrow> string" where
  "demo_quote s = CHR 0x27 # s"

lemma demo_quotes: "repr_quotes demo_quote"
  by (auto simp: repr_quotes_def demo_quote_def inj_def)

lemma demo_wf: "wf_contract 64 demo_contract"
  by (simp add: wf_contract_def demo_contract_def demo_rule_def wf_rule_def wf_types_def SUPPORTED_TYPES_def)

lemma demo_parse: "parse_contract demo_quote 64 (contract_schema demo_contract) = Inr demo_contract"
  by (rule parse_contract_schema [OF demo_quotes demo_wf])


theorem validate_exact_witness:
  "validate_output (PDict [(''a'', PInt 1)]) demo_contract = [] \<and> validate_output (PDict [(''a'', PBool True)]) demo_contract \<noteq> []"
proof -
  have "PDict [(''a'', PInt 1)] = PDict (zip (map pr_name (ca_properties demo_contract)) [PInt 1]) \<and>
      list_all2 conforms [PInt 1] (ca_properties demo_contract)"
    by (simp add: demo_contract_def demo_rule_def conforms_def)
  moreover have "\<not> list_all2 conforms vs (ca_properties demo_contract)"
    if "PDict [(''a'', PBool True)] = PDict (zip (map pr_name (ca_properties demo_contract)) vs)" for vs
    using that by (cases vs) (auto simp: demo_contract_def demo_rule_def conforms_def)
  ultimately show ?thesis unfolding validate_exact [OF demo_parse] by blast
qed


end
