(* ===== verification/WorkerRequest.thy ===== *)
theory WorkerRequest
  imports Grammar AgentContracts
begin

text \<open>
  \<open>model_worker/strict_json.py\<close> and \<open>contracts.py\<close>: from the bytes of a request body to the parsed
  request, and the payload of a result. Arguments stand for the standard
  library: \<open>decode\<close> is the tokenizer of \<open>json.loads\<close> (\<open>None\<close> where it raises a decode error), \<open>dumps\<close>
  is \<open>json.dumps\<close> of a schema, \<open>sha\<close> is SHA-256 in hexadecimal. A \<open>str\<close> with lone surrogates is
  represented by its \<open>surrogatepass\<close> encoding. The recursion limit of the interpreter is not modelled.
\<close>

section \<open>Strict JSON\<close>

definition byte_in :: "nat \<Rightarrow> nat \<Rightarrow> char \<Rightarrow> bool" where
  "byte_in a b c \<longleftrightarrow> a \<le> (of_char c :: nat) \<and> (of_char c :: nat) \<le> b"

text \<open>The strict UTF-8 decoder: no overlong forms, no surrogates, nothing above U+10FFFF.\<close>

fun utf8_step :: "string \<Rightarrow> string option" where
  "utf8_step (a # s) =
     (if byte_in 0 0x7F a then Some s
      else if byte_in 0xC2 0xDF a then
        (case s of b # t \<Rightarrow> if continuation b then Some t else None | _ \<Rightarrow> None)
      else if byte_in 0xE0 0xEF a then
        (case s of
           b # c # t \<Rightarrow>
             if continuation b \<and> continuation c \<and> (of_char a = (0xE0 :: nat) \<longrightarrow> byte_in 0xA0 0xBF b) \<and>
                (of_char a = (0xED :: nat) \<longrightarrow> byte_in 0x80 0x9F b) then Some t else None
         | _ \<Rightarrow> None)
      else if byte_in 0xF0 0xF4 a then
        (case s of
           b # c # d # t \<Rightarrow>
             if continuation b \<and> continuation c \<and> continuation d \<and> (of_char a = (0xF0 :: nat) \<longrightarrow> byte_in 0x90 0xBF b) \<and>
                (of_char a = (0xF4 :: nat) \<longrightarrow> byte_in 0x80 0x8F b) then Some t else None
         | _ \<Rightarrow> None)
      else None)"
| "utf8_step [] = None"

lemma utf8_step_shorter: "utf8_step s = Some t \<Longrightarrow> length t < length s"
  by (cases s) (auto split: if_splits list.splits)

function valid_utf8 :: "string \<Rightarrow> bool" where
  "valid_utf8 s = (s = [] \<or> (case utf8_step s of None \<Rightarrow> False | Some t \<Rightarrow> valid_utf8 t))"
  by pat_completeness auto
termination
  by (relation "measure length") (auto dest: utf8_step_shorter)

declare valid_utf8.simps [simp del]

definition lone_surrogate :: "string \<Rightarrow> bool" where
  "lone_surrogate s \<longleftrightarrow> list_ex (\<lambda>(a, b). of_char a = (0xED :: nat) \<and> byte_in 0xA0 0xBF b) (zip s (tl s))"

fun has_unpaired_surrogate :: "pyval \<Rightarrow> bool" where
  "has_unpaired_surrogate (PStr s) = lone_surrogate s"
| "has_unpaired_surrogate (PList vs) = list_ex has_unpaired_surrogate vs"
| "has_unpaired_surrogate (PDict kvs) =
     list_ex (\<lambda>kv. lone_surrogate (fst kv) \<or> has_unpaired_surrogate (snd kv)) kvs"
| "has_unpaired_surrogate _ = False"

datatype json_input = JsonBytes string | JsonText string

definition strict_loads :: "(string \<Rightarrow> json_node option) \<Rightarrow> int option \<Rightarrow> json_input \<Rightarrow> worker_exc + pyval" where
  "strict_loads decode too_large data =
     (let bad = Inl (mk_WorkerError ''invalid_request'' []) in
      case (case data of JsonBytes b \<Rightarrow> Some b | JsonText s \<Rightarrow> if lone_surrogate s then None else Some s) of
        None \<Rightarrow> bad
      | Some raw \<Rightarrow>
          if (case too_large of None \<Rightarrow> False | Some limit \<Rightarrow> limit < int (length raw)) then
            Inl (mk_WorkerError ''request_too_large'' [])
          else if \<not> valid_utf8 raw then bad
          else
            (case decode raw of
               None \<Rightarrow> bad
             | Some node \<Rightarrow>
                 (case strict_value node of
                    None \<Rightarrow> bad
                  | Some v \<Rightarrow> if has_unpaired_surrogate v then bad else Inr v)))"

section \<open>Requests\<close>

definition PROTOCOL_VERSION :: string where "PROTOCOL_VERSION = ''model-worker.v1''"

definition ALLOWED_ROLES :: "string list" where
  "ALLOWED_ROLES = [''system'', ''user'', ''assistant'']"

abbreviation invalid_request :: "worker_exc" where
  "invalid_request \<equiv> mk_WorkerError ''invalid_request'' []"

definition exact_object :: "string \<Rightarrow> string list \<Rightarrow> string list \<Rightarrow> pyval \<Rightarrow> worker_exc + (string, pyval) odict" where
  "exact_object path allowed required v =
     (case v of
        PDict d \<Rightarrow>
          let unknown = sort (filter (\<lambda>k. k \<notin> set allowed) (dict_keys d));
              missing = sort (filter (\<lambda>k. k \<notin> set (dict_keys d)) required);
              details = map (\<lambda>k. \<lparr>ed_path = path @ ''.'' @ k, ed_message = ''unknown field''\<rparr>) unknown @
                map (\<lambda>k. \<lparr>ed_path = path @ ''.'' @ k, ed_message = ''required field missing''\<rparr>) missing in
          if details \<noteq> [] then Inl (mk_WorkerError ''invalid_request'' details) else Inr d
      | _ \<Rightarrow> Inl invalid_request)"

definition strict_int :: "int \<Rightarrow> pyval \<Rightarrow> worker_exc + int" where
  "strict_int low v = (case v of PInt i \<Rightarrow> if i < low then Inl invalid_request else Inr i | _ \<Rightarrow> Inl invalid_request)"

fun hashable :: "pyval \<Rightarrow> bool" where
  "hashable (PList _) = False"
| "hashable (PDict _) = False"
| "hashable (PTuple vs) = list_all hashable vs"
| "hashable _ = True"

record Message =
  ms_role :: string
  ms_content :: string

record OutputContract =
  oc_version :: string
  oc_schema :: "(string, pyval) odict"
  oc_instructions :: string

record Limits =
  lm_reasoning_tokens :: int
  lm_final_tokens :: int
  lm_total_tokens :: int
  lm_queue_timeout_ms :: int
  lm_execution_timeout_ms :: int

record StreamOptions =
  so_enabled :: bool
  so_include_reasoning :: bool

record GenerateRequest =
  gr_protocol_version :: string
  gr_model_id :: string
  gr_messages :: "Message list"
  gr_output_contract :: OutputContract
  gr_limits :: Limits
  gr_stream :: StreamOptions
  gr_client_request_id :: "string option"

definition nonempty_text :: "pyval \<Rightarrow> worker_exc + string" where
  "nonempty_text v = (case v of PStr s \<Rightarrow> if s = [] then Inl invalid_request else Inr s | _ \<Rightarrow> Inl invalid_request)"

text \<open>A role that cannot be hashed (an array or an object) makes the membership test raise.\<close>

definition parse_message :: "nat \<Rightarrow> pyval \<Rightarrow> worker_exc + Message" where
  "parse_message index item =
     rbind (exact_object (''$.messages['' @ show_nat index @ '']'') [''role'', ''content''] [''role'', ''content''] item) (\<lambda>obj.
       let role = dict_item obj ''role'' in
       if \<not> hashable role then Inl (WPy (TypeError ''unhashable type''))
       else case role of
         PStr r \<Rightarrow>
           if r \<notin> set ALLOWED_ROLES then Inl invalid_request
           else rbind (nonempty_text (dict_item obj ''content'')) (\<lambda>c. Inr \<lparr>ms_role = r, ms_content = c\<rparr>)
       | _ \<Rightarrow> Inl invalid_request)"

definition parse_messages :: "pyval \<Rightarrow> worker_exc + Message list" where
  "parse_messages v =
     (case v of
        PList items \<Rightarrow>
          if items = [] then Inl invalid_request
          else rmap (\<lambda>(i, item). parse_message i item) (enumerate 0 items)
      | _ \<Rightarrow> Inl invalid_request)"

definition parse_output_contract :: "pyval \<Rightarrow> worker_exc + OutputContract" where
  "parse_output_contract v =
     rbind (exact_object ''$.output_contract'' [''version'', ''schema'', ''instructions''] [''version'', ''schema''] v) (\<lambda>c.
       case (dict_item c ''version'', dict_item c ''schema'') of
         (PStr ver, PDict schema) \<Rightarrow>
           if ver \<noteq> ''structured-output.v1'' then Inl invalid_request
           else (case (case dict_get c ''instructions'' of None \<Rightarrow> PStr [] | Some x \<Rightarrow> x) of
             PStr ins \<Rightarrow> Inr \<lparr>oc_version = ver, oc_schema = schema, oc_instructions = ins\<rparr>
           | _ \<Rightarrow> Inl invalid_request)
       | _ \<Rightarrow> Inl invalid_request)"

definition LIMIT_NAMES :: "string list" where
  "LIMIT_NAMES = [''reasoning_tokens'', ''final_tokens'', ''total_tokens'', ''queue_timeout_ms'', ''execution_timeout_ms'']"

definition parse_limits :: "pyval \<Rightarrow> worker_exc + Limits" where
  "parse_limits v =
     rbind (exact_object ''$.limits'' LIMIT_NAMES LIMIT_NAMES v) (\<lambda>raw.
       rbind (rmap (\<lambda>kv. rbind (strict_int 1 (snd kv)) (\<lambda>i. Inr (fst kv, i))) raw) (\<lambda>ints.
         let val = (\<lambda>k. case dict_get ints k of None \<Rightarrow> 0 | Some i \<Rightarrow> i);
             l = \<lparr>lm_reasoning_tokens = val ''reasoning_tokens'', lm_final_tokens = val ''final_tokens'',
                  lm_total_tokens = val ''total_tokens'', lm_queue_timeout_ms = val ''queue_timeout_ms'',
                  lm_execution_timeout_ms = val ''execution_timeout_ms''\<rparr> in
         if lm_total_tokens l < lm_reasoning_tokens l \<or> lm_total_tokens l < lm_final_tokens l \<or>
            lm_reasoning_tokens l + lm_final_tokens l < lm_total_tokens l then Inl invalid_request
         else Inr l))"

definition stream_flag :: "(string, pyval) odict \<Rightarrow> string \<Rightarrow> worker_exc + bool" where
  "stream_flag d name =
     (case dict_get d name of None \<Rightarrow> Inr False | Some (PBool b) \<Rightarrow> Inr b | Some _ \<Rightarrow> Inl invalid_request)"

definition parse_stream :: "pyval \<Rightarrow> worker_exc + StreamOptions" where
  "parse_stream v =
     rbind (exact_object ''$.stream'' [''enabled'', ''include_reasoning''] [] v) (\<lambda>d.
       rbind (stream_flag d ''enabled'') (\<lambda>e.
         rbind (stream_flag d ''include_reasoning'') (\<lambda>r.
           Inr \<lparr>so_enabled = e, so_include_reasoning = r\<rparr>)))"

definition parse_client_id :: "pyval \<Rightarrow> worker_exc + string option" where
  "parse_client_id v =
     rbind (exact_object ''$.metadata'' [''client_request_id''] [] v) (\<lambda>d.
       case dict_item d ''client_request_id'' of
         PNone \<Rightarrow> Inr None
       | PStr s \<Rightarrow> Inr (Some s)
       | _ \<Rightarrow> Inl invalid_request)"

definition or_empty :: "(string, pyval) odict \<Rightarrow> string \<Rightarrow> pyval" where
  "or_empty d k = (case dict_get d k of None \<Rightarrow> PDict [] | Some v \<Rightarrow> v)"

definition parse_request :: "pyval \<Rightarrow> worker_exc + GenerateRequest" where
  "parse_request v =
     rbind (exact_object ''$''
         [''protocol_version'', ''model_id'', ''messages'', ''output_contract'', ''limits'', ''stream'', ''metadata'']
         [''protocol_version'', ''model_id'', ''messages'', ''output_contract'', ''limits''] v) (\<lambda>body.
       if dict_item body ''protocol_version'' \<noteq> PStr PROTOCOL_VERSION then Inl invalid_request
       else
         rbind (nonempty_text (dict_item body ''model_id'')) (\<lambda>model_id.
         rbind (parse_messages (dict_item body ''messages'')) (\<lambda>messages.
         rbind (parse_output_contract (dict_item body ''output_contract'')) (\<lambda>contract.
         rbind (parse_limits (dict_item body ''limits'')) (\<lambda>limits.
         rbind (parse_stream (or_empty body ''stream'')) (\<lambda>stream.
         rbind (parse_client_id (or_empty body ''metadata'')) (\<lambda>client.
           Inr \<lparr>gr_protocol_version = PROTOCOL_VERSION, gr_model_id = model_id, gr_messages = messages,
                gr_output_contract = contract, gr_limits = limits, gr_stream = stream,
                gr_client_request_id = client\<rparr>)))))))"

record GenerateResult =
  rs_request_id :: string
  rs_attempt_id :: string
  rs_termination :: string
  rs_protocol_valid :: bool
  rs_output_valid :: bool
  rs_output :: pyval
  rs_usage :: "(string, pyval) odict"
  rs_timing :: "(string, pyval) odict"
  rs_model :: "(string, pyval) odict"
  rs_error :: "(string, pyval) odict option"

definition result_dict :: "GenerateResult \<Rightarrow> worker_exc + (string, pyval) odict" where
  "result_dict r =
     (if rs_termination r = ''completed'' \<and> \<not> (rs_protocol_valid r \<and> rs_output_valid r) then
        Inl (WPy (ValueError ''completed requires protocol_valid and output_valid''))
      else Inr
        [(''protocol_version'', PStr PROTOCOL_VERSION), (''request_id'', PStr (rs_request_id r)),
         (''attempt_id'', PStr (rs_attempt_id r)), (''termination'', PStr (rs_termination r)),
         (''protocol_valid'', PBool (rs_protocol_valid r)), (''output_valid'', PBool (rs_output_valid r)),
         (''output'', rs_output r), (''usage'', PDict (rs_usage r)), (''timing'', PDict (rs_timing r)),
         (''model'', PDict (rs_model r)), (''error'', case rs_error r of None \<Rightarrow> PNone | Some e \<Rightarrow> PDict e)])"

end
