(* ===== verification/Preflight.thy ===== *)
theory Preflight
  imports WorkerRequest
begin

text \<open>
  \<open>model_worker/manifest.py\<close>, \<open>prompt.py\<close> and \<open>preflight.py\<close>: the manifest of the resident model,
  the envelope it imposes on requests, the prompt built for the model and the preflight of a request.
  \<open>load_manifest\<close> does not check the \<open>limits\<close> table: a missing limit raises \<open>KeyError\<close> when it is
  read and one that is not an integer is taken to raise \<open>TypeError\<close> (floats as limits are not modelled).
\<close>

section \<open>Manifest\<close>

record ModelManifest =
  mm_path :: string
  mm_raw :: "(string, pyval) odict"
  mm_digest :: string

definition REQUIRED_TOP :: "string list" where
  "REQUIRED_TOP =
     [''manifest_version'', ''id'', ''gguf_path'', ''gguf_sha256'', ''runtime_build'', ''runtime'', ''context'',
      ''gpu'', ''sampling'', ''reasoning'', ''limits'']"

abbreviation not_ready :: "worker_exc" where
  "not_ready \<equiv> mk_WorkerError ''worker_not_ready'' []"

fun py_truth :: "pyval \<Rightarrow> bool" where
  "py_truth PNone = False"
| "py_truth (PBool b) = b"
| "py_truth (PInt i) = (i \<noteq> 0)"
| "py_truth (PFloat x) = (x \<noteq> Finite 0)"
| "py_truth (PStr s) = (s \<noteq> [])"
| "py_truth (PList vs) = (vs \<noteq> [])"
| "py_truth (PTuple vs) = (vs \<noteq> [])"
| "py_truth (PDict kvs) = (kvs \<noteq> [])"

definition context_int :: "(string, pyval) odict \<Rightarrow> string \<Rightarrow> int" where
  "context_int c k = (case dict_item c k of PInt i \<Rightarrow> i | _ \<Rightarrow> 0)"

definition verify_sha ::
  "(string \<Rightarrow> string option) \<Rightarrow> (string \<Rightarrow> string) \<Rightarrow> string \<Rightarrow> pyval \<Rightarrow> worker_exc + unit" where
  "verify_sha files sha path expected =
     (case files path of
        None \<Rightarrow> Inl not_ready
      | Some bytes \<Rightarrow> ensure (expected = PStr (''sha256:'' @ sha bytes)) not_ready)"

definition path_of :: "pyval \<Rightarrow> worker_exc + string" where
  "path_of v = (case v of PStr s \<Rightarrow> Inr s | _ \<Rightarrow> Inl (WPy (TypeError ''path'')))"

definition verify_manifest_files ::
  "(string \<Rightarrow> string option) \<Rightarrow> (string \<Rightarrow> string) \<Rightarrow> (string \<Rightarrow> string \<Rightarrow> string) \<Rightarrow> string \<Rightarrow>
   (string, pyval) odict \<Rightarrow> worker_exc + unit" where
  "verify_manifest_files files sha path_join default_library data =
     (case dict_item data ''runtime'' of
        PDict runtime \<Rightarrow>
          let library = (case dict_get runtime ''library'' of None \<Rightarrow> PStr default_library | Some v \<Rightarrow> v);
              library_sha = (case dict_get runtime ''library_sha256'' of
                  None \<Rightarrow> dict_item runtime ''llama_dll_sha256'' | Some v \<Rightarrow> v) in
          rbind (path_of (dict_item data ''gguf_path'')) (\<lambda>model.
          rbind (verify_sha files sha model (dict_item data ''gguf_sha256'')) (\<lambda>_.
            case dict_get runtime ''directory'' of
              None \<Rightarrow> Inl (WPy (KeyErr ''directory''))
            | Some d \<Rightarrow>
                rbind (path_of d) (\<lambda>dir.
                rbind (path_of library) (\<lambda>lib.
                  verify_sha files sha (path_join dir lib) library_sha))))
      | _ \<Rightarrow> Inl (WPy (AttributeErr ''get'')))"

definition check_manifest :: "(string, pyval) odict \<Rightarrow> worker_exc + unit" where
  "check_manifest data =
     rbind (ensure (set (dict_keys data) = set REQUIRED_TOP) not_ready) (\<lambda>_.
     rbind (ensure (dict_item data ''manifest_version'' = PStr ''model-manifest.v1'' \<and>
                    dict_item data ''runtime_build'' = PStr ''b10012'') not_ready) (\<lambda>_.
     rbind (case dict_item data ''id'' of PStr s \<Rightarrow> ensure (s \<noteq> []) not_ready | _ \<Rightarrow> Inl not_ready) (\<lambda>_.
     rbind (case dict_item data ''context'' of
              PDict c \<Rightarrow>
                if \<not> list_all (\<lambda>k. positive_int_val (dict_item c k) \<noteq> None)
                     [''n_ctx'', ''n_batch'', ''n_ubatch'', ''training_context''] then Inl not_ready
                else if context_int c ''n_batch'' < context_int c ''n_ubatch'' \<or>
                        context_int c ''n_ctx'' < context_int c ''n_batch'' then Inl not_ready
                else ensure (\<not> (context_int c ''training_context'' < context_int c ''n_ctx'' \<and>
                              \<not> py_truth (dict_item c ''rope_scaling''))) not_ready
            | _ \<Rightarrow> Inl not_ready) (\<lambda>_.
     rbind (ensure (py_eq (dict_item data ''sampling'') (PDict [(''profile'', PStr ''greedy-v1'')])) not_ready) (\<lambda>_.
     case dict_item data ''reasoning'' of
       PDict r \<Rightarrow>
         if dict_item r ''mode'' \<noteq> PStr ''required_marker_sequence'' then Inl not_ready
         else if \<not> list_all (\<lambda>k. case dict_item r k of PStr s \<Rightarrow> s \<noteq> [] | _ \<Rightarrow> False) [''start_text'', ''end_text''] then
           Inl not_ready
         else ensure (dict_item r ''require_start'' = PBool True) not_ready
     | _ \<Rightarrow> Inl not_ready)))))"

definition load_manifest ::
  "(string \<Rightarrow> json_node option) \<Rightarrow> (pyval \<Rightarrow> string) \<Rightarrow> (string \<Rightarrow> string) \<Rightarrow> (string \<Rightarrow> string option) \<Rightarrow>
   (string \<Rightarrow> string \<Rightarrow> string) \<Rightarrow> string \<Rightarrow> bool \<Rightarrow> string \<Rightarrow> string \<Rightarrow> worker_exc + ModelManifest" where
  "load_manifest decode dumps sha files path_join default_library verify_files path raw_bytes =
     rbind (strict_loads decode None (JsonBytes raw_bytes)) (\<lambda>v.
       case v of
         PDict data \<Rightarrow>
           rbind (check_manifest data) (\<lambda>_.
           rbind (if verify_files then verify_manifest_files files sha path_join default_library data else Inr ()) (\<lambda>_.
             Inr \<lparr>mm_path = path, mm_raw = data, mm_digest = ''sha256:'' @ sha (dumps v)\<rparr>))
       | _ \<Rightarrow> Inl not_ready)"

definition manifest_text :: "ModelManifest \<Rightarrow> string \<Rightarrow> string \<Rightarrow> string" where
  "manifest_text m table k =
     (case dict_item (mm_raw m) table of
        PDict d \<Rightarrow> (case dict_item d k of PStr s \<Rightarrow> s | _ \<Rightarrow> []) | _ \<Rightarrow> [])"

definition verify_capabilities ::
  "ModelManifest \<Rightarrow> bool \<Rightarrow> int \<Rightarrow> (string \<Rightarrow> int list) \<Rightarrow> worker_exc + (int list \<times> int list)" where
  "verify_capabilities m has_chat_template model_context tokenize =
     (if \<not> has_chat_template then Inl not_ready
      else if model_context <
           (case dict_item (mm_raw m) ''context'' of PDict c \<Rightarrow> context_int c ''n_ctx'' | _ \<Rightarrow> 0) then Inl not_ready
      else
        (let start = tokenize (manifest_text m ''reasoning'' ''start_text'');
             end_marker = tokenize (manifest_text m ''reasoning'' ''end_text'') in
         if start = [] \<or> end_marker = [] \<or> start = end_marker then Inl not_ready else Inr (start, end_marker)))"

definition manifest_limit :: "ModelManifest \<Rightarrow> string \<Rightarrow> worker_exc + int" where
  "manifest_limit m name =
     (case dict_item (mm_raw m) ''limits'' of
        PDict d \<Rightarrow>
          (case dict_get d name of
             None \<Rightarrow> Inl (WPy (KeyErr name))
           | Some (PInt i) \<Rightarrow> Inr i
           | Some (PBool b) \<Rightarrow> Inr (of_bool b)
           | Some _ \<Rightarrow> Inl (WPy (TypeError name)))
      | _ \<Rightarrow> Inl (WPy (TypeError ''limits'')))"

section \<open>Envelope\<close>

abbreviation too_large_error :: "worker_exc" where
  "too_large_error \<equiv> mk_WorkerError ''request_too_large'' []"

definition within_limit :: "ModelManifest \<Rightarrow> string \<Rightarrow> int \<Rightarrow> worker_exc \<Rightarrow> worker_exc + unit" where
  "within_limit m name actual err = rbind (manifest_limit m name) (\<lambda>limit. ensure (actual \<le> limit) err)"

fun message_sizes :: "ModelManifest \<Rightarrow> int \<Rightarrow> Message list \<Rightarrow> worker_exc + int" where
  "message_sizes m sum_bytes [] = Inr sum_bytes"
| "message_sizes m sum_bytes (x # xs) =
     (let size = int (length (ms_content x)) in
      rbind (within_limit m ''message_bytes'' size too_large_error) (\<lambda>_. message_sizes m (sum_bytes + size) xs))"

definition enforce_message_envelope :: "Message list \<Rightarrow> ModelManifest \<Rightarrow> worker_exc + unit" where
  "enforce_message_envelope messages m =
     rbind (within_limit m ''max_messages'' (int (length messages)) too_large_error) (\<lambda>_.
     rbind (message_sizes m 0 messages) (\<lambda>sum_bytes. within_limit m ''input_bytes'' sum_bytes too_large_error))"

definition enforce_request_envelope :: "(pyval \<Rightarrow> string) \<Rightarrow> GenerateRequest \<Rightarrow> ModelManifest \<Rightarrow> worker_exc + unit" where
  "enforce_request_envelope dumps r m =
     (if dict_item (mm_raw m) ''id'' \<noteq> PStr (gr_model_id r) then Inl invalid_request
      else
        rbind (enforce_message_envelope (gr_messages r) m) (\<lambda>_.
        rbind (within_limit m ''instructions_bytes'' (int (length (oc_instructions (gr_output_contract r)))) too_large_error) (\<lambda>_.
        rbind (within_limit m ''schema_bytes'' (int (length (dumps (PDict (oc_schema (gr_output_contract r)))))) too_large_error) (\<lambda>_.
        rbind (case gr_client_request_id r of
                 None \<Rightarrow> Inr ()
               | Some s \<Rightarrow> if s = [] then Inr ()
                   else within_limit m ''client_request_id_bytes'' (int (length s)) too_large_error) (\<lambda>_.
        rbind (within_limit m ''max_reasoning_tokens'' (lm_reasoning_tokens (gr_limits r)) invalid_request) (\<lambda>_.
        rbind (within_limit m ''max_final_tokens'' (lm_final_tokens (gr_limits r)) invalid_request) (\<lambda>_.
          within_limit m ''max_total_tokens'' (lm_total_tokens (gr_limits r)) invalid_request)))))))"

section \<open>Prompt\<close>

definition PROMPT_CONTRACT_VERSION :: string where "PROMPT_CONTRACT_VERSION = ''model-worker-prompt.v1''"
definition BEGIN_CONTRACT :: string where "BEGIN_CONTRACT = ''<model-worker-output-contract-v1>''"
definition END_CONTRACT :: string where "END_CONTRACT = ''</model-worker-output-contract-v1>''"

definition contract_instruction :: "GenerateRequest \<Rightarrow> string list \<Rightarrow> string" where
  "contract_instruction r names =
     (let ins = oc_instructions (gr_output_contract r) in
      join [nl]
        ([BEGIN_CONTRACT, ''Return exactly one JSON object matching structured-output.v1.'',
          ''Canonical fields: '' @ join '', '' names @ ''.''] @
         (if ins = [] then [] else [''Field semantics:'', ins]) @ [END_CONTRACT]))"

definition build_model_messages :: "GenerateRequest \<Rightarrow> string list \<Rightarrow> Message list" where
  "build_model_messages r names = \<lparr>ms_role = ''system'', ms_content = contract_instruction r names\<rparr> # gr_messages r"

text \<open>The canonical JSON text that is hashed: sorted keys, no spaces.\<close>

definition message_json :: "Message \<Rightarrow> string" where
  "message_json x =
     ''{'' @ json_str ''content'' @ '':'' @ json_str (ms_content x) @ '','' @ json_str ''role'' @ '':'' @ json_str (ms_role x) @ ''}''"

definition prompt_json :: "Message list \<Rightarrow> string" where
  "prompt_json xs =
     ''{'' @ json_str ''messages'' @ '':['' @ join '','' (map message_json xs) @ ''],'' @
     json_str ''version'' @ '':'' @ json_str PROMPT_CONTRACT_VERSION @ ''}''"

definition model_prompt_hash :: "(string \<Rightarrow> string) \<Rightarrow> Message list \<Rightarrow> string" where
  "model_prompt_hash sha xs = ''sha256:'' @ sha (prompt_json xs)"

section \<open>Preflight\<close>

record PreflightedRequest =
  pf_request :: GenerateRequest
  pf_contract :: ContractAST
  pf_grammar :: string
  pf_model_messages :: "Message list"
  pf_prompt_hash :: string
  pf_prompt_version :: string

definition preflight ::
  "(string \<Rightarrow> string) \<Rightarrow> (pyval \<Rightarrow> string) \<Rightarrow> (string \<Rightarrow> string) \<Rightarrow> pyval \<Rightarrow> ModelManifest \<Rightarrow> worker_exc + PreflightedRequest" where
  "preflight quote dumps sha v m =
     rbind (parse_request v) (\<lambda>r.
     rbind (enforce_request_envelope dumps r m) (\<lambda>_.
     rbind (manifest_limit m ''max_properties'') (\<lambda>max_properties.
     rbind (parse_contract quote max_properties (PDict (oc_schema (gr_output_contract r)))) (\<lambda>c.
       let grammar = compile_gbnf dumps c;
           messages = build_model_messages r (map pr_name (ca_properties c)) in
       rbind (enforce_message_envelope messages m) (\<lambda>_.
         Inr \<lparr>pf_request = r, pf_contract = c, pf_grammar = grammar, pf_model_messages = messages,
              pf_prompt_hash = model_prompt_hash sha messages, pf_prompt_version = PROMPT_CONTRACT_VERSION\<rparr>)))))"

section \<open>Errors of the preflight\<close>

definition fails_only :: "('e \<Rightarrow> bool) \<Rightarrow> 'e + 'a \<Rightarrow> bool" where
  "fails_only P r \<longleftrightarrow> (case r of Inl e \<Rightarrow> P e | Inr _ \<Rightarrow> True)"

lemma fails_only_simps [simp]: "fails_only P (Inl e) = P e" "fails_only P (Inr x)"
  by (simp_all add: fails_only_def)

lemma fails_only_bind: "fails_only P r \<Longrightarrow> (\<And>x. r = Inr x \<Longrightarrow> fails_only P (f x)) \<Longrightarrow> fails_only P (rbind r f)"
  by (cases r) auto

lemma fails_only_ensure: "P e \<Longrightarrow> fails_only P (ensure b e)"
  by (simp add: ensure_def)

lemma fails_only_rmap: "(\<And>x. x \<in> set xs \<Longrightarrow> fails_only P (f x)) \<Longrightarrow> fails_only P (rmap f xs)"
  by (induction xs) (auto intro!: fails_only_bind)

lemma rbind_InrE:
  assumes "rbind r f = Inr y"
  obtains x where "r = Inr x" "f x = Inr y"
  using assms by auto

definition client_codes :: "string list" where
  "client_codes = [''invalid_request'', ''request_too_large'', ''unsupported_contract'']"

definition client_error :: "worker_exc \<Rightarrow> bool" where
  "client_error x = (case x of WErr e \<Rightarrow> we_code e \<in> set client_codes | WPy _ \<Rightarrow> False)"

lemma client_error_codes [simp]:
  "client_error (mk_WorkerError ''invalid_request'' ds)" "client_error (mk_WorkerError ''request_too_large'' ds)"
  "client_error (mk_WorkerError ''unsupported_contract'' ds)" "client_error (contract_fail p msg)"
  by (simp_all add: client_error_def mk_WorkerError_def ERROR_HTTP_STATUS_def client_codes_def contract_fail_def)

definition manifest_readable :: "ModelManifest \<Rightarrow> bool" where
  "manifest_readable m \<longleftrightarrow>
     list_all (\<lambda>k. case manifest_limit m k of Inl _ \<Rightarrow> False | Inr _ \<Rightarrow> True)
       [''max_messages'', ''message_bytes'', ''input_bytes'', ''instructions_bytes'', ''schema_bytes'',
        ''client_request_id_bytes'', ''max_reasoning_tokens'', ''max_final_tokens'', ''max_total_tokens'', ''max_properties'']"

definition unhashable_role :: "pyval \<Rightarrow> bool" where
  "unhashable_role v \<longleftrightarrow> (\<exists>body items item obj. v = PDict body \<and> dict_item body ''messages'' = PList items \<and>
     item \<in> set items \<and> item = PDict obj \<and> \<not> hashable (dict_item obj ''role''))"

text \<open>The predicate a failure of a step satisfies, given the manifest and the body.\<close>

definition expected_failure :: "pyval \<Rightarrow> ModelManifest \<Rightarrow> worker_exc \<Rightarrow> bool" where
  "expected_failure v m x \<longleftrightarrow> client_error x \<or> (\<exists>p. x = WPy p) \<and> (unhashable_role v \<or> \<not> manifest_readable m)"

lemma expected_client: "client_error x \<Longrightarrow> expected_failure v m x"
  by (simp add: expected_failure_def)

lemma expected_type_error: "unhashable_role v \<Longrightarrow> expected_failure v m (WPy p)"
  by (simp add: expected_failure_def)

lemma exact_object_fails: "fails_only (expected_failure v m) (exact_object p al re x)"
  by (auto simp: exact_object_def Let_def expected_client split: pyval.splits)

lemma exact_object_Inr: "exact_object p al re x = Inr d \<longleftrightarrow>
    x = PDict d \<and> set (dict_keys d) \<subseteq> set al \<and> set re \<subseteq> set (dict_keys d)"
proof -
  have [simp]: "sort xs = [] \<longleftrightarrow> xs = []" for xs :: "string list" by (metis length_0_conv length_sort)
  show ?thesis by (cases x) (auto simp: exact_object_def Let_def filter_empty_conv)
qed

lemma nonempty_text_fails: "fails_only (expected_failure v m) (nonempty_text x)"
  by (auto simp: nonempty_text_def expected_client split: pyval.splits)

lemma parse_message_fails:
  assumes "hashable (case item of PDict d \<Rightarrow> dict_item d ''role'' | _ \<Rightarrow> PNone) \<or> unhashable_role v"
  shows "fails_only (expected_failure v m) (parse_message i item)"
  unfolding parse_message_def
proof (rule fails_only_bind)
  fix obj assume "exact_object (''$.messages['' @ show_nat i @ '']'') [''role'', ''content''] [''role'', ''content''] item = Inr obj"
  then have item: "item = PDict obj" by (simp add: exact_object_Inr)
  show "fails_only (expected_failure v m) (let role = dict_item obj ''role'' in
       if \<not> hashable role then Inl (WPy (TypeError ''unhashable type''))
       else case role of
         PStr r \<Rightarrow>
           if r \<notin> set ALLOWED_ROLES then Inl invalid_request
           else rbind (nonempty_text (dict_item obj ''content'')) (\<lambda>c. Inr \<lparr>ms_role = r, ms_content = c\<rparr>)
       | _ \<Rightarrow> Inl invalid_request)"
    using assms by (auto simp: item Let_def expected_client expected_type_error
      intro!: fails_only_bind nonempty_text_fails split: pyval.split)
qed (rule exact_object_fails)

lemma parse_messages_fails:
  assumes "v = PDict body" and "x = dict_item body ''messages''"
  shows "fails_only (expected_failure v m) (parse_messages x)"
proof (cases x)
  case (PList items)
  have "fails_only (expected_failure v m) (parse_message i item)" if "(i, item) \<in> set (enumerate 0 items)" for i item
  proof (rule parse_message_fails)
    have "item \<in> set items" using that by (auto simp: in_set_enumerate_eq)
    moreover have "\<exists>d. item = PDict d \<and> \<not> hashable (dict_item d ''role'')"
      if "\<not> hashable (case item of PDict d \<Rightarrow> dict_item d ''role'' | _ \<Rightarrow> PNone)"
      using that by (cases item) auto
    ultimately show "hashable (case item of PDict d \<Rightarrow> dict_item d ''role'' | _ \<Rightarrow> PNone) \<or> unhashable_role v"
      using assms PList unfolding unhashable_role_def by metis
  qed
  then show ?thesis by (auto simp: parse_messages_def PList expected_client intro!: fails_only_rmap)
qed (auto simp: parse_messages_def expected_client)

lemma parse_output_contract_fails: "fails_only (expected_failure v m) (parse_output_contract x)"
  unfolding parse_output_contract_def
  by (rule fails_only_bind, rule exact_object_fails) (auto simp: expected_client split: pyval.split option.split)

lemma strict_int_fails: "fails_only (expected_failure v m) (strict_int low x)"
  by (auto simp: strict_int_def expected_client split: pyval.splits)

lemma parse_limits_fails: "fails_only (expected_failure v m) (parse_limits x)"
  unfolding parse_limits_def
  by (intro fails_only_bind exact_object_fails fails_only_rmap strict_int_fails) (auto simp: expected_client Let_def)

lemma parse_stream_fails: "fails_only (expected_failure v m) (parse_stream x)"
  unfolding parse_stream_def stream_flag_def
  by (intro fails_only_bind exact_object_fails) (auto simp: expected_client split: pyval.splits option.splits)

lemma parse_client_id_fails: "fails_only (expected_failure v m) (parse_client_id x)"
  unfolding parse_client_id_def
  by (intro fails_only_bind exact_object_fails) (auto simp: expected_client split: pyval.splits)

lemma parse_request_fails: "fails_only (expected_failure v m) (parse_request v)"
  unfolding parse_request_def
proof (rule fails_only_bind [OF exact_object_fails])
  fix body assume "exact_object ''$''
         [''protocol_version'', ''model_id'', ''messages'', ''output_contract'', ''limits'', ''stream'', ''metadata'']
         [''protocol_version'', ''model_id'', ''messages'', ''output_contract'', ''limits''] v = Inr body"
  then have v: "v = PDict body" by (simp add: exact_object_Inr)
  note fails = nonempty_text_fails parse_messages_fails [OF v refl] parse_output_contract_fails parse_limits_fails
    parse_stream_fails parse_client_id_fails
  show "fails_only (expected_failure v m)
    (if dict_item body ''protocol_version'' \<noteq> PStr PROTOCOL_VERSION then Inl invalid_request
       else
         rbind (nonempty_text (dict_item body ''model_id'')) (\<lambda>model_id.
         rbind (parse_messages (dict_item body ''messages'')) (\<lambda>messages.
         rbind (parse_output_contract (dict_item body ''output_contract'')) (\<lambda>contract.
         rbind (parse_limits (dict_item body ''limits'')) (\<lambda>limits.
         rbind (parse_stream (or_empty body ''stream'')) (\<lambda>stream.
         rbind (parse_client_id (or_empty body ''metadata'')) (\<lambda>client.
           Inr \<lparr>gr_protocol_version = PROTOCOL_VERSION, gr_model_id = model_id, gr_messages = messages,
                gr_output_contract = contract, gr_limits = limits, gr_stream = stream,
                gr_client_request_id = client\<rparr>)))))))"
    by (auto simp: expected_client intro!: fails_only_bind fails)
qed

lemma manifest_limit_fails:
  assumes "k \<in> set [''max_messages'', ''message_bytes'', ''input_bytes'', ''instructions_bytes'', ''schema_bytes'',
        ''client_request_id_bytes'', ''max_reasoning_tokens'', ''max_final_tokens'', ''max_total_tokens'', ''max_properties'']"
  shows "fails_only (expected_failure v m) (manifest_limit m k)"
proof (cases "manifest_limit m k")
  case (Inl e)
  then have "\<not> manifest_readable m" using assms by (auto simp: manifest_readable_def list_all_iff)
  moreover have "\<exists>p. e = WPy p" using Inl by (auto simp: manifest_limit_def split: pyval.splits option.splits)
  ultimately show ?thesis by (simp add: Inl expected_failure_def)
qed simp

lemma within_limit_fails:
  assumes "client_error err"
    and "k \<in> set [''max_messages'', ''message_bytes'', ''input_bytes'', ''instructions_bytes'', ''schema_bytes'',
        ''client_request_id_bytes'', ''max_reasoning_tokens'', ''max_final_tokens'', ''max_total_tokens'', ''max_properties'']"
  shows "fails_only (expected_failure v m) (within_limit m k n err)"
  unfolding within_limit_def
  by (intro fails_only_bind manifest_limit_fails [OF assms(2)] fails_only_ensure expected_client assms(1))

lemma message_sizes_fails: "fails_only (expected_failure v m) (message_sizes m n xs)"
  by (induction xs arbitrary: n) (auto simp: Let_def intro!: fails_only_bind within_limit_fails)

lemma message_envelope_fails: "fails_only (expected_failure v m) (enforce_message_envelope xs m)"
  unfolding enforce_message_envelope_def
  by (intro fails_only_bind within_limit_fails message_sizes_fails) simp_all

lemma request_envelope_fails: "fails_only (expected_failure v m) (enforce_request_envelope dumps r m)"
  unfolding enforce_request_envelope_def
  by (auto simp: expected_client intro!: fails_only_bind within_limit_fails message_envelope_fails split: option.splits)

lemma check_enum_fails: "fails_only (expected_failure v m) (check_enum p ts vs)"
  by (induction vs) (auto simp: expected_client)

lemma parse_rule_fails: "fails_only (expected_failure v m) (parse_rule q np)"
proof -
  have types: "fails_only (expected_failure v m) (rule_types p spec)" for p spec
    unfolding rule_types_def
    by (intro fails_only_bind) (auto simp: expected_client split: pyval.splits option.splits)
  have enum: "fails_only (expected_failure v m) (rule_enum q p ts spec)" for p ts spec
    by (auto simp: rule_enum_def expected_client intro!: fails_only_bind check_enum_fails split: option.splits pyval.splits)
  show ?thesis
    by (auto simp: parse_rule_def Let_def expected_client intro!: fails_only_bind types enum split: pyval.splits)
qed

lemma parse_contract_fails: "fails_only (expected_failure v m) (parse_contract q n schema)"
  by (auto simp: parse_contract_def Let_def expected_client intro!: fails_only_bind fails_only_rmap parse_rule_fails
      split: pyval.splits option.splits)

text \<open>
  C29: A refused request gets a client error. Whatever the body, the preflight either prepares the
  request or refuses it with one of the three client codes, which are answered with status 400, 413 or
  422 and are not retryable. The only other exceptions come from a message whose role cannot be hashed
  and from a manifest whose limits table is incomplete.
\<close>

theorem preflight_errors:
  "case preflight quote dumps sha v m of
     Inl (WErr e) \<Rightarrow> we_code e \<in> {''invalid_request'', ''request_too_large'', ''unsupported_contract''} \<and>
       \<not> worker_retryable e \<and> worker_http_status e \<in> {Inr 400, Inr 413, Inr 422}
   | Inl (WPy _) \<Rightarrow> unhashable_role v \<or> \<not> manifest_readable m
   | Inr _ \<Rightarrow> True"
proof -
  have "fails_only (expected_failure v m) (preflight quote dumps sha v m)"
    unfolding preflight_def Let_def
    by (intro fails_only_bind parse_request_fails request_envelope_fails manifest_limit_fails parse_contract_fails
        message_envelope_fails) simp_all
  then show ?thesis
    by (auto simp: fails_only_def expected_failure_def client_error_def client_codes_def worker_retryable_def RETRYABLE_def
        worker_http_status_def ERROR_HTTP_STATUS_def split: sum.splits worker_exc.splits)
qed

section \<open>What a prepared request guarantees\<close>

definition fits_limit :: "ModelManifest \<Rightarrow> string \<Rightarrow> int \<Rightarrow> bool" where
  "fits_limit m k n \<longleftrightarrow> (\<exists>l. manifest_limit m k = Inr l \<and> n \<le> l)"

lemma within_limit_Inr [simp]: "within_limit m k n err = Inr u \<longleftrightarrow> fits_limit m k n"
  by (auto simp: within_limit_def fits_limit_def)

definition content_bytes :: "Message list \<Rightarrow> int" where
  "content_bytes xs = sum_list (map (\<lambda>x. int (length (ms_content x))) xs)"

definition fits_envelope :: "ModelManifest \<Rightarrow> Message list \<Rightarrow> bool" where
  "fits_envelope m xs \<longleftrightarrow> fits_limit m ''max_messages'' (int (length xs)) \<and>
     (\<forall>x\<in>set xs. fits_limit m ''message_bytes'' (int (length (ms_content x)))) \<and>
     fits_limit m ''input_bytes'' (content_bytes xs)"

lemma message_sizes_Inr: "message_sizes m n xs = Inr k \<longleftrightarrow>
    (\<forall>x\<in>set xs. fits_limit m ''message_bytes'' (int (length (ms_content x)))) \<and> k = n + content_bytes xs"
  by (induction xs arbitrary: n) (auto simp: Let_def content_bytes_def)

lemma message_envelope_Inr: "enforce_message_envelope xs m = Inr u \<longleftrightarrow> fits_envelope m xs"
  by (auto simp: enforce_message_envelope_def fits_envelope_def message_sizes_Inr)

definition wf_limits :: "Limits \<Rightarrow> bool" where
  "wf_limits l \<longleftrightarrow> 1 \<le> lm_reasoning_tokens l \<and> 1 \<le> lm_final_tokens l \<and> 1 \<le> lm_queue_timeout_ms l \<and>
     1 \<le> lm_execution_timeout_ms l \<and> lm_reasoning_tokens l \<le> lm_total_tokens l \<and> lm_final_tokens l \<le> lm_total_tokens l \<and>
     lm_total_tokens l \<le> lm_reasoning_tokens l + lm_final_tokens l"

lemma limits_values:
  assumes "rmap (\<lambda>kv. rbind (strict_int 1 (snd kv)) (\<lambda>i. Inr (fst kv, i))) raw = Inr ints"
  shows "dict_keys ints = dict_keys raw" and "\<forall>i\<in>snd ` set ints. 1 \<le> i"
  using assms
proof (induction raw arbitrary: ints)
  case (Cons kv raw)
  { case 1 with Cons.IH show ?case by (auto simp: rbind_def split: sum.splits) }
  { case 2 with Cons.IH show ?case by (fastforce simp: strict_int_def split: pyval.splits if_splits) }
qed auto

lemma parse_limits_wf:
  assumes "parse_limits v = Inr l"
  shows "wf_limits l"
proof -
  obtain raw ints where raw: "exact_object ''$.limits'' LIMIT_NAMES LIMIT_NAMES v = Inr raw"
    and ints: "rmap (\<lambda>kv. rbind (strict_int 1 (snd kv)) (\<lambda>i. Inr (fst kv, i))) raw = Inr ints"
    and l: "(let val = (\<lambda>k. case dict_get ints k of None \<Rightarrow> 0 | Some i \<Rightarrow> i);
             l = \<lparr>lm_reasoning_tokens = val ''reasoning_tokens'', lm_final_tokens = val ''final_tokens'',
                  lm_total_tokens = val ''total_tokens'', lm_queue_timeout_ms = val ''queue_timeout_ms'',
                  lm_execution_timeout_ms = val ''execution_timeout_ms''\<rparr> in
         if lm_total_tokens l < lm_reasoning_tokens l \<or> lm_total_tokens l < lm_final_tokens l \<or>
            lm_reasoning_tokens l + lm_final_tokens l < lm_total_tokens l then Inl invalid_request
         else Inr l) = (Inr l :: worker_exc + Limits)"
    using assms by (auto simp: parse_limits_def)
  have val: "\<exists>i. dict_get ints k = Some i \<and> 1 \<le> i" if "k \<in> set LIMIT_NAMES" for k
  proof -
    have "k \<in> set (dict_keys ints)"
      using raw that limits_values(1) [OF ints] by (auto simp: exact_object_Inr)
    then obtain i where "dict_get ints k = Some i" by (cases "dict_get ints k") (auto simp: map_of_eq_None_iff)
    moreover from this have "i \<in> snd ` set ints" by (force dest: map_of_SomeD)
    ultimately show ?thesis using limits_values(2) [OF ints] by blast
  qed
  show ?thesis
    using l val [of "''reasoning_tokens''"] val [of "''final_tokens''"] val [of "''queue_timeout_ms''"]
      val [of "''execution_timeout_ms''"]
    by (auto simp: Let_def wf_limits_def LIMIT_NAMES_def split: if_splits)
qed

lemma parse_messages_wf:
  assumes "parse_messages v = Inr xs"
  shows "xs \<noteq> [] \<and> (\<forall>x\<in>set xs. ms_role x \<in> set ALLOWED_ROLES \<and> ms_content x \<noteq> [])"
proof -
  obtain items where v: "items \<noteq> []" "rmap (\<lambda>(i, item). parse_message i item) (enumerate 0 items) = Inr xs"
    using assms by (auto simp: parse_messages_def split: pyval.splits if_splits)
  then have all: "list_all2 (\<lambda>p x. parse_message (fst p) (snd p) = Inr x) (enumerate 0 items) xs"
    by (simp add: rmap_eq_Inr case_prod_unfold)
  have one: "ms_role x \<in> set ALLOWED_ROLES \<and> ms_content x \<noteq> []" if "parse_message i item = Inr x" for i item x
    using that by (auto simp: parse_message_def Let_def nonempty_text_def split: if_splits pyval.splits)
  have "xs \<noteq> []" using v(1) list_all2_lengthD [OF all] by auto
  moreover have "\<forall>x\<in>set xs. ms_role x \<in> set ALLOWED_ROLES \<and> ms_content x \<noteq> []"
  proof
    fix x assume "x \<in> set xs"
    then obtain i where "i < length xs" "x = xs ! i" by (auto simp: in_set_conv_nth)
    with list_all2_nthD2 [OF all, of i]
    have "parse_message (fst (enumerate 0 items ! i)) (snd (enumerate 0 items ! i)) = Inr x" by simp
    then show "ms_role x \<in> set ALLOWED_ROLES \<and> ms_content x \<noteq> []" by (rule one)
  qed
  ultimately show ?thesis by simp
qed

lemma parse_request_wf:
  assumes "parse_request v = Inr r"
  shows "wf_limits (gr_limits r) \<and> gr_model_id r \<noteq> [] \<and> gr_messages r \<noteq> [] \<and>
    (\<forall>x\<in>set (gr_messages r). ms_role x \<in> set ALLOWED_ROLES \<and> ms_content x \<noteq> [])"
proof -
  obtain body mid ms c l st cl where "nonempty_text (dict_item body ''model_id'') = Inr mid"
    "parse_messages (dict_item body ''messages'') = Inr ms" "parse_limits (dict_item body ''limits'') = Inr l"
    "r = \<lparr>gr_protocol_version = PROTOCOL_VERSION, gr_model_id = mid, gr_messages = ms, gr_output_contract = c,
        gr_limits = l, gr_stream = st, gr_client_request_id = cl\<rparr>"
    using assms unfolding parse_request_def
    by (elim rbind_InrE) (auto split: if_splits elim!: rbind_InrE)
  moreover from this(1) have "mid \<noteq> []" by (auto simp: nonempty_text_def split: pyval.splits if_splits)
  ultimately show ?thesis using parse_limits_wf parse_messages_wf by auto
qed


section \<open>The prompt hash\<close>

lemma json_str_prefix:
  assumes "json_str s @ x = json_str t @ y"
  shows "s = t \<and> x = y"
proof -
  have "tl (json_str s @ x) = tl (json_str t @ y)" using assms by simp
  then have "json_read (tl (json_str s) @ x) = json_read (tl (json_str t) @ y)" by (simp add: json_str_def)
  then show ?thesis by (simp add: json_str_read)
qed

lemma message_json_prefix:
  assumes "message_json a @ x = message_json b @ y"
  shows "a = b \<and> x = y"
proof -
  have "json_str (ms_content a) @ '','' @ json_str ''role'' @ '':'' @ json_str (ms_role a) @ ''}'' @ x =
      json_str (ms_content b) @ '','' @ json_str ''role'' @ '':'' @ json_str (ms_role b) @ ''}'' @ y"
    using assms by (simp add: message_json_def)
  from json_str_prefix [OF this] have "ms_content a = ms_content b"
    and "json_str (ms_role a) @ ''}'' @ x = json_str (ms_role b) @ ''}'' @ y" by simp_all
  with json_str_prefix [OF this(2)] show ?thesis by simp
qed

lemma messages_json_prefix:
  "join '','' (map message_json xs) @ '']'' @ u = join '','' (map message_json ys) @ '']'' @ w \<Longrightarrow> xs = ys"
proof (induction xs arbitrary: ys rule: induct_list012)
  case 1
  show ?case
  proof (cases ys)
    case (Cons b zs)
    with 1 show ?thesis by (cases zs) (simp_all add: message_json_def)
  qed simp
next
  case (2 a)
  show ?case
  proof (cases ys)
    case Nil
    with 2 show ?thesis by (simp add: message_json_def)
  next
    case (Cons b zs)
    show ?thesis
    proof (cases zs)
      case Nil
      with 2 Cons message_json_prefix [of a "'']'' @ u" b "'']'' @ w"] show ?thesis by simp
    next
      case (Cons c cs)
      with 2 \<open>ys = b # zs\<close> message_json_prefix [of a "'']'' @ u" b "'','' @ join '','' (map message_json zs) @ '']'' @ w"]
      show ?thesis by simp
    qed
  qed
next
  case (3 a b xs)
  show ?case
  proof (cases ys)
    case Nil
    with 3 show ?thesis by (simp add: message_json_def)
  next
    case (Cons c zs)
    show ?thesis
    proof (cases zs)
      case Nil
      with 3 Cons message_json_prefix [of a "'','' @ join '','' (map message_json (b # xs)) @ '']'' @ u" c "'']'' @ w"]
      show ?thesis by simp
    next
      case (Cons d ds)
      with 3(3) \<open>ys = c # zs\<close>
        message_json_prefix [of a "'','' @ join '','' (map message_json (b # xs)) @ '']'' @ u" c
          "'','' @ join '','' (map message_json zs) @ '']'' @ w"]
      have "a = c" "join '','' (map message_json (b # xs)) @ '']'' @ u = join '','' (map message_json zs) @ '']'' @ w"
        by simp_all
      with 3(2) [of zs] \<open>ys = c # zs\<close> show ?thesis by simp
    qed
  qed
qed

text \<open>
  The prompt hash identifies the prompt. The canonical text that is hashed is injective:
  two lists of messages with the same text are the same messages, in order, with the same roles, so
  no content can imitate another conversation.
\<close>

theorem prompt_json_injective:
  "prompt_json xs = prompt_json ys \<longleftrightarrow> xs = ys"
  using messages_json_prefix [where xs = xs and ys = ys] by (auto simp: prompt_json_def)

section \<open>A concrete request\<close>

definition demo_body :: pyval where
  "demo_body = PDict
     [(''protocol_version'', PStr PROTOCOL_VERSION), (''model_id'', PStr ''m''),
      (''messages'', PList [PDict [(''role'', PStr ''user''), (''content'', PStr ''q'')]]),
      (''output_contract'', PDict [(''version'', PStr ''structured-output.v1''), (''schema'', contract_schema demo_contract)]),
      (''limits'', PDict (map (\<lambda>k. (k, PInt (if k = ''total_tokens'' then 2 else 1))) LIMIT_NAMES))]"

definition demo_manifest :: ModelManifest where
  "demo_manifest = \<lparr>mm_path = [], mm_raw = [(''id'', PStr ''m''), (''limits'', PDict (map (\<lambda>k. (k, PInt 1000))
     [''max_messages'', ''message_bytes'', ''input_bytes'', ''instructions_bytes'', ''schema_bytes'',
      ''client_request_id_bytes'', ''max_reasoning_tokens'', ''max_final_tokens'', ''max_total_tokens'', ''max_properties'']))],
     mm_digest = []\<rparr>"

definition demo_preflight :: "worker_exc + PreflightedRequest" where
  "demo_preflight = preflight demo_quote (\<lambda>v. []) (\<lambda>s. []) demo_body demo_manifest"

lemma demo_preflight_ok: "case demo_preflight of Inl _ \<Rightarrow> False | Inr _ \<Rightarrow> True"
  by code_simp


theorem preflight_errors_witness:
  "\<exists>e. preflight demo_quote (\<lambda>v. []) (\<lambda>s. []) PNone demo_manifest = Inl (WErr e) \<and>
    we_code e \<in> {''invalid_request'', ''request_too_large'', ''unsupported_contract''} \<and> worker_http_status e \<in> {Inr 400, Inr 413, Inr 422}"
proof -
  have "case preflight demo_quote (\<lambda>v. []) (\<lambda>s. []) PNone demo_manifest of Inl (WErr e) \<Rightarrow> True | _ \<Rightarrow> False"
    by code_simp
  then show ?thesis
    using preflight_errors [where quote = demo_quote and dumps = "\<lambda>v. []" and sha = "\<lambda>s. []" and v = PNone and m = demo_manifest] by (auto split: sum.splits worker_exc.splits)
qed

end
