(* ===== verification/RuntimeManifest.thy ===== *)
theory RuntimeManifest
  imports Preflight SequenceContracts
begin

text \<open>
  \<open>inference_runtime/runtime_manifest.py\<close>: the manifest of the runtime, and the capabilities that the adapter of
  \<open>adapters/llama_cpp.py\<close> derives from it. Reading files, resolving paths, SHA-256 and the text of JSON are
  arguments.
\<close>

section \<open>Manifest\<close>

definition RUNTIME_MANIFEST_VERSION :: string where "RUNTIME_MANIFEST_VERSION = ''inference-runtime.v1''"

definition TOP_LEVEL :: "string list" where
  "TOP_LEVEL = [''runtime_manifest_version'', ''backend_id'', ''model_manifest'', ''model_manifest_digest'', ''scheduler'', ''cache'']"

definition SCHEDULER_KEYS :: "string list" where
  "SCHEDULER_KEYS = [''max_sequences'', ''cpu_threads'', ''kv_tokens'', ''prefill_chunk_tokens'', ''max_decode_batch'',
     ''decode_quantum_tokens'', ''tick_token_budget'']"

definition CACHE_KEYS :: "string list" where
  "CACHE_KEYS = [''enabled'', ''byte_budget'', ''max_entries'', ''ttl_seconds'']"

record RuntimeSchedulerConfig =
  rc_max_sequences :: int
  rc_cpu_threads :: int
  rc_kv_tokens :: int
  rc_prefill_chunk_tokens :: int
  rc_max_decode_batch :: int
  rc_decode_quantum_tokens :: int
  rc_tick_token_budget :: int

record RuntimeCacheConfig =
  rk_enabled :: bool
  rk_byte_budget :: int
  rk_max_entries :: int
  rk_ttl_seconds :: int

record InferenceRuntimeManifest =
  im_path :: string
  im_raw :: "(string, pyval) odict"
  im_digest :: string
  im_backend_id :: string
  im_model_manifest :: ModelManifest
  im_scheduler :: RuntimeSchedulerConfig
  im_cache :: RuntimeCacheConfig

definition exact_fields :: "pyval \<Rightarrow> string list \<Rightarrow> worker_exc + (string, pyval) odict" where
  "exact_fields v expected =
     (case v of
        PDict d \<Rightarrow> if set (dict_keys d) \<noteq> set expected then Inl not_ready else Inr d
      | _ \<Rightarrow> Inl not_ready)"

definition bounded_id :: "pyval \<Rightarrow> worker_exc + string" where
  "bounded_id v =
     (case v of
        PStr s \<Rightarrow> if s = [] \<or> 128 < length s \<or> has_control s then Inl not_ready else Inr s
      | _ \<Rightarrow> Inl not_ready)"

text \<open>\<open>value > maximum\<close> where the maximum comes from the model manifest and may be of any type.\<close>

definition exceeds :: "int \<Rightarrow> pyval \<Rightarrow> worker_exc + bool" where
  "exceeds i v =
     (case v of
        PInt m \<Rightarrow> Inr (m < i)
      | PBool b \<Rightarrow> Inr (of_bool b < i)
      | PFloat (Finite r) \<Rightarrow> Inr (r < of_int i)
      | PFloat NegInf \<Rightarrow> Inr True
      | PFloat _ \<Rightarrow> Inr False
      | _ \<Rightarrow> Inl (WPy (TypeError ''not supported between instances'')))"

definition bounded_positive :: "pyval \<Rightarrow> pyval \<Rightarrow> worker_exc + int" where
  "bounded_positive v maximum =
     (case v of
        PInt i \<Rightarrow> if i \<le> 0 then Inl not_ready else rbind (exceeds i maximum) (\<lambda>over. if over then Inl not_ready else Inr i)
      | _ \<Rightarrow> Inl not_ready)"

definition table_item :: "ModelManifest \<Rightarrow> string \<Rightarrow> string \<Rightarrow> worker_exc + pyval" where
  "table_item m table name =
     (case dict_item (mm_raw m) table of
        PDict d \<Rightarrow> (case dict_get d name of None \<Rightarrow> Inl (WPy (KeyErr name)) | Some v \<Rightarrow> Inr v)
      | _ \<Rightarrow> Inl (WPy (TypeError table)))"

definition scheduler_config :: "ModelManifest \<Rightarrow> (string, pyval) odict \<Rightarrow> worker_exc + RuntimeSchedulerConfig" where
  "scheduler_config model raw =
     rbind (bounded_positive (dict_item raw ''max_sequences'') (PInt 256)) (\<lambda>max_sequences.
     rbind (bounded_positive (dict_item raw ''cpu_threads'') (PInt 256)) (\<lambda>cpu_threads.
     rbind (bounded_positive (dict_item raw ''kv_tokens'') (PInt 1048576)) (\<lambda>kv_tokens.
     rbind (table_item model ''context'' ''n_batch'') (\<lambda>n_batch.
     rbind (bounded_positive (dict_item raw ''prefill_chunk_tokens'') n_batch) (\<lambda>prefill_chunk.
     rbind (bounded_positive (dict_item raw ''max_decode_batch'') (PInt max_sequences)) (\<lambda>decode_batch.
     rbind (table_item model ''limits'' ''max_total_tokens'') (\<lambda>max_total.
     rbind (bounded_positive (dict_item raw ''decode_quantum_tokens'') max_total) (\<lambda>decode_quantum.
     rbind (bounded_positive (dict_item raw ''tick_token_budget'') n_batch) (\<lambda>tick_budget.
     rbind (ensure (max_sequences * 2 \<le> kv_tokens) not_ready) (\<lambda>_.
     rbind (ensure (decode_batch * decode_quantum \<le> tick_budget) not_ready) (\<lambda>_.
     rbind (ensure (prefill_chunk \<le> tick_budget) not_ready) (\<lambda>_.
       Inr \<lparr>rc_max_sequences = max_sequences, rc_cpu_threads = cpu_threads, rc_kv_tokens = kv_tokens,
            rc_prefill_chunk_tokens = prefill_chunk, rc_max_decode_batch = decode_batch,
            rc_decode_quantum_tokens = decode_quantum, rc_tick_token_budget = tick_budget\<rparr>))))))))))))"

definition runtime_cache_config :: "(string, pyval) odict \<Rightarrow> worker_exc + RuntimeCacheConfig" where
  "runtime_cache_config raw =
     rbind (case dict_item raw ''enabled'' of PBool b \<Rightarrow> Inr b | _ \<Rightarrow> Inl not_ready) (\<lambda>enabled.
     rbind (bounded_positive (dict_item raw ''byte_budget'') (PInt (64 * 1024 ^ 3))) (\<lambda>byte_budget.
     rbind (bounded_positive (dict_item raw ''max_entries'') (PInt 65536)) (\<lambda>max_entries.
     rbind (bounded_positive (dict_item raw ''ttl_seconds'') (PInt 31536000)) (\<lambda>ttl_seconds.
       Inr \<lparr>rk_enabled = enabled, rk_byte_budget = byte_budget, rk_max_entries = max_entries, rk_ttl_seconds = ttl_seconds\<rparr>))))"

text \<open>
  \<open>files\<close> reads a file, \<open>resolve\<close> is \<open>Path.resolve\<close>, \<open>relative\<close> joins a path that is not absolute with the
  directory of the manifest and leaves an absolute one alone.
\<close>

definition load_inference_runtime_manifest ::
  "(string \<Rightarrow> json_node option) \<Rightarrow> (pyval \<Rightarrow> string) \<Rightarrow> (string \<Rightarrow> string) \<Rightarrow> (string \<Rightarrow> string option) \<Rightarrow>
   (string \<Rightarrow> string \<Rightarrow> string) \<Rightarrow> string \<Rightarrow> (string \<Rightarrow> string) \<Rightarrow> (string \<Rightarrow> string \<Rightarrow> string) \<Rightarrow> bool \<Rightarrow> string \<Rightarrow>
   worker_exc + InferenceRuntimeManifest" where
  "load_inference_runtime_manifest decode dumps sha files path_join default_library resolve relative verify_model_files path =
     (let resolved = resolve path in
      case files resolved of
        None \<Rightarrow> Inl not_ready
      | Some raw_bytes \<Rightarrow>
          rbind (strict_loads decode None (JsonBytes raw_bytes)) (\<lambda>v.
          rbind (exact_fields v TOP_LEVEL) (\<lambda>data.
          rbind (ensure (dict_item data ''runtime_manifest_version'' = PStr RUNTIME_MANIFEST_VERSION) not_ready) (\<lambda>_.
          rbind (bounded_id (dict_item data ''backend_id'')) (\<lambda>backend_id.
          rbind (case dict_item data ''model_manifest'' of
                   PStr s \<Rightarrow> if s = [] then Inl not_ready else Inr s | _ \<Rightarrow> Inl not_ready) (\<lambda>model_value.
          let model_path = resolve (relative resolved model_value) in
          case files model_path of
            None \<Rightarrow> Inl (WPy (OSErr model_path))
          | Some model_bytes \<Rightarrow>
              rbind (load_manifest decode dumps sha files path_join default_library verify_model_files model_path model_bytes) (\<lambda>model.
              rbind (ensure (dict_item data ''model_manifest_digest'' = PStr (mm_digest model)) not_ready) (\<lambda>_.
              rbind (exact_fields (dict_item data ''scheduler'') SCHEDULER_KEYS) (\<lambda>scheduler_raw.
              rbind (scheduler_config model scheduler_raw) (\<lambda>scheduler.
              rbind (exact_fields (dict_item data ''cache'') CACHE_KEYS) (\<lambda>cache_raw.
              rbind (runtime_cache_config cache_raw) (\<lambda>cache.
                Inr \<lparr>im_path = resolved, im_raw = data, im_digest = ''sha256:'' @ sha (dumps v), im_backend_id = backend_id,
                     im_model_manifest = model, im_scheduler = scheduler, im_cache = cache\<rparr>))))))))))))"

section \<open>The capabilities of the adapter\<close>

text \<open>\<open>min(a, b)\<close> where \<open>a\<close> may be of any type and \<open>b\<close> is an integer.\<close>

definition min_with :: "pyval \<Rightarrow> int \<Rightarrow> worker_exc + pyval" where
  "min_with v n =
     (case v of
        PInt i \<Rightarrow> Inr (PInt (min i n))
      | PBool b \<Rightarrow> Inr (if n < of_bool b then PInt n else v)
      | PFloat (Finite r) \<Rightarrow> Inr (if of_int n < r then PInt n else v)
      | PFloat PosInf \<Rightarrow> Inr (PInt n)
      | PFloat _ \<Rightarrow> Inr v
      | _ \<Rightarrow> Inl (WPy (TypeError ''not supported between instances'')))"

definition sequence_context :: "InferenceRuntimeManifest \<Rightarrow> int" where
  "sequence_context m =
     (let n_ctx = (case dict_item (mm_raw (im_model_manifest m)) ''context'' of PDict c \<Rightarrow> context_int c ''n_ctx'' | _ \<Rightarrow> 0) in
      min n_ctx (rc_kv_tokens (im_scheduler m) div rc_max_sequences (im_scheduler m)))"

datatype setup_exc = SetupWorker worker_exc | SetupContract contract_error

definition capability_arguments :: "InferenceRuntimeManifest \<Rightarrow> pyval \<Rightarrow> capabilities_args" where
  "capability_arguments m max_output =
     (let s = im_scheduler m in
      \<lparr>bc_backend = PStr (im_backend_id m), bc_models = PTuple [dict_item (mm_raw (im_model_manifest m)) ''id''],
       bc_supports_full_request = PBool False, bc_supports_sequence_steps = PBool True,
       bc_supports_streaming = PBool True, bc_supports_cancellation = PBool True,
       bc_supports_chunked_prefill = PBool True, bc_supports_decode_batching = PBool True,
       bc_supports_continuous_batching = PBool True, bc_supports_prefix_cache = PBool (rk_enabled (im_cache m)),
       bc_supports_session_cache = PBool (rk_enabled (im_cache m)), bc_supports_explicit_release = PBool True,
       bc_max_context_tokens = PInt (sequence_context m), bc_max_output_tokens = max_output,
       bc_max_concurrent_requests = PInt (rc_max_sequences s), bc_max_concurrent_sequences = PInt (rc_max_sequences s),
       bc_max_prefill_tokens_per_step = PInt (rc_prefill_chunk_tokens s),
       bc_max_decode_tokens_per_step = PInt (rc_decode_quantum_tokens s),
       bc_max_sequences_per_step = PInt (rc_max_decode_batch s)\<rparr>)"

definition adapter_capabilities :: "InferenceRuntimeManifest \<Rightarrow> setup_exc + BackendCapabilities" where
  "adapter_capabilities m =
     (case rbind (table_item (im_model_manifest m) ''limits'' ''max_total_tokens'') (\<lambda>v. min_with v (sequence_context m)) of
        Inl x \<Rightarrow> Inl (SetupWorker x)
      | Inr max_output \<Rightarrow>
          (case mk_BackendCapabilities (capability_arguments m max_output) of
             Inl x \<Rightarrow> Inl (SetupContract x)
           | Inr c \<Rightarrow> Inr c))"

section \<open>What a loaded manifest guarantees\<close>

lemma bounded_positive_Inr: "bounded_positive v m = Inr i \<longleftrightarrow> v = PInt i \<and> 0 < i \<and> exceeds i m = Inr False"
  by (auto simp: bounded_positive_def split: pyval.splits if_splits)

lemma exceeds_int [simp]: "exceeds i (PInt m) = Inr (m < i)"
  by (simp add: exceeds_def)

definition scheduler_ok :: "RuntimeSchedulerConfig \<Rightarrow> bool" where
  "scheduler_ok c \<longleftrightarrow>
     0 < rc_max_sequences c \<and> rc_max_sequences c \<le> 256 \<and> 0 < rc_cpu_threads c \<and> rc_cpu_threads c \<le> 256 \<and>
     rc_max_sequences c * 2 \<le> rc_kv_tokens c \<and> rc_kv_tokens c \<le> 1048576 \<and>
     0 < rc_prefill_chunk_tokens c \<and> rc_prefill_chunk_tokens c \<le> rc_tick_token_budget c \<and>
     0 < rc_max_decode_batch c \<and> rc_max_decode_batch c \<le> rc_max_sequences c \<and> 0 < rc_decode_quantum_tokens c \<and>
     rc_max_decode_batch c * rc_decode_quantum_tokens c \<le> rc_tick_token_budget c"

lemma scheduler_config_ok: "scheduler_config model raw = Inr c \<Longrightarrow> scheduler_ok c"
  by (auto simp: scheduler_config_def bounded_positive_Inr scheduler_ok_def)

lemma bounded_id_Inr: "bounded_id v = Inr s \<longleftrightarrow> v = PStr s \<and> id_ok 128 s"
  by (auto simp: bounded_id_def id_ok_def split: pyval.splits if_splits)

definition model_ok :: "ModelManifest \<Rightarrow> bool" where
  "model_ok m \<longleftrightarrow> (\<exists>s. dict_item (mm_raw m) ''id'' = PStr s \<and> s \<noteq> []) \<and>
     (\<exists>c. dict_item (mm_raw m) ''context'' = PDict c \<and> 0 < context_int c ''n_ctx'')"

lemma check_manifest_ok:
  assumes "check_manifest data = Inr ()"
  shows "(\<exists>s. dict_item data ''id'' = PStr s \<and> s \<noteq> []) \<and>
    (\<exists>c. dict_item data ''context'' = PDict c \<and> 0 < context_int c ''n_ctx'')"
proof -
  have "(case dict_item data ''id'' of PStr s \<Rightarrow> ensure (s \<noteq> []) not_ready | _ \<Rightarrow> Inl not_ready) = Inr ()"
    using assms by (auto simp: check_manifest_def)
  then have id: "\<exists>s. dict_item data ''id'' = PStr s \<and> s \<noteq> []" by (auto split: pyval.splits)
  obtain c where c: "dict_item data ''context'' = PDict c" "positive_int_val (dict_item c ''n_ctx'') \<noteq> None"
    using assms by (auto simp: check_manifest_def split: pyval.splits if_splits)
  then have "0 < context_int c ''n_ctx''" by (auto simp: context_int_def split: pyval.splits)
  with id c(1) show ?thesis by blast
qed

lemma load_manifest_ok:
  assumes "load_manifest decode dumps sha files path_join default_library verify path bytes = Inr m"
  shows "model_ok m"
proof -
  obtain v where "strict_loads decode None (JsonBytes bytes) = Inr v" using assms by (auto simp: load_manifest_def)
  then obtain data where "check_manifest data = Inr ()" "mm_raw m = data"
    using assms by (cases v) (auto simp: load_manifest_def)
  then show ?thesis using check_manifest_ok by (simp add: model_ok_def)
qed

lemma load_inference_runtime_manifest_ok:
  assumes "load_inference_runtime_manifest decode dumps sha files path_join lib resolve relative verify path = Inr m"
  shows "scheduler_ok (im_scheduler m)" and "id_ok 128 (im_backend_id m)" and "model_ok (im_model_manifest m)"
proof -
  show "id_ok 128 (im_backend_id m)"
    using assms by (auto simp: load_inference_runtime_manifest_def Let_def bounded_id_Inr split: option.splits)
  show "scheduler_ok (im_scheduler m)"
    using assms by (auto simp: load_inference_runtime_manifest_def Let_def split: option.splits) (erule scheduler_config_ok)
  show "model_ok (im_model_manifest m)"
    using assms by (auto simp: load_inference_runtime_manifest_def Let_def split: option.splits) (erule load_manifest_ok)
qed

lemma sequence_context_pos:
  assumes "scheduler_ok (im_scheduler m)" and "model_ok (im_model_manifest m)"
  shows "0 < sequence_context m"
proof -
  have "1 \<le> rc_kv_tokens (im_scheduler m) div rc_max_sequences (im_scheduler m)"
    using assms(1) by (auto simp: scheduler_ok_def pos_imp_zdiv_pos_iff int_one_le_iff_zero_less)
  then show ?thesis using assms(2) by (auto simp: sequence_context_def model_ok_def)
qed

lemma min_with_le: "min_with v n = Inr (PInt i) \<Longrightarrow> i \<le> n"
  by (auto simp: min_with_def split: pyval.splits pyfloat.splits if_splits)

definition derived_capabilities :: "InferenceRuntimeManifest \<Rightarrow> string \<Rightarrow> int \<Rightarrow> BackendCapabilities" where
  "derived_capabilities m model n =
     (let s = im_scheduler m in
      \<lparr>bc_backend = im_backend_id m, bc_models = [model], bc_supports_full_request = False, bc_supports_sequence_steps = True,
       bc_supports_streaming = True, bc_supports_cancellation = True, bc_supports_chunked_prefill = True,
       bc_supports_decode_batching = True, bc_supports_continuous_batching = True, bc_supports_prefix_cache = rk_enabled (im_cache m),
       bc_supports_session_cache = rk_enabled (im_cache m), bc_supports_explicit_release = True,
       bc_max_context_tokens = sequence_context m, bc_max_output_tokens = n, bc_max_concurrent_requests = rc_max_sequences s,
       bc_max_concurrent_sequences = Some (rc_max_sequences s), bc_max_prefill_tokens_per_step = Some (rc_prefill_chunk_tokens s),
       bc_max_decode_tokens_per_step = Some (rc_decode_quantum_tokens s), bc_max_sequences_per_step = Some (rc_max_decode_batch s)\<rparr>)"

lemma capabilities_as_args_inj: "capabilities_as_args c = capabilities_as_args c' \<Longrightarrow> c = c'"
  by (cases c; cases c') (simp add: capabilities_as_args_def)

lemma capability_arguments_derived:
  "dict_item (mm_raw (im_model_manifest m)) ''id'' = PStr model \<Longrightarrow>
    capability_arguments m (PInt n) = capabilities_as_args (derived_capabilities m model n)"
  by (simp add: capability_arguments_def capabilities_as_args_def derived_capabilities_def Let_def)

lemma capability_arguments_eq:
  "capability_arguments m v = capabilities_as_args c \<longleftrightarrow>
     (\<exists>model n. dict_item (mm_raw (im_model_manifest m)) ''id'' = PStr model \<and> v = PInt n \<and> c = derived_capabilities m model n)"
proof
  assume *: "capability_arguments m v = capabilities_as_args c"
  have "bc_models (capability_arguments m v) = bc_models (capabilities_as_args c)"
    and v: "bc_max_output_tokens (capability_arguments m v) = bc_max_output_tokens (capabilities_as_args c)" using * by simp_all
  then have "PTuple [dict_item (mm_raw (im_model_manifest m)) ''id''] = PTuple (map PStr (bc_models c))" "v = PInt (bc_max_output_tokens c)"
    by (simp_all add: capability_arguments_def capabilities_as_args_def Let_def)
  then obtain model where model: "dict_item (mm_raw (im_model_manifest m)) ''id'' = PStr model" and v: "v = PInt (bc_max_output_tokens c)"
    by (cases "bc_models c") auto
  then have "capabilities_as_args c = capabilities_as_args (derived_capabilities m model (bc_max_output_tokens c))"
    using * capability_arguments_derived [OF model] by simp
  then show "\<exists>model n. dict_item (mm_raw (im_model_manifest m)) ''id'' = PStr model \<and> v = PInt n \<and> c = derived_capabilities m model n"
    using model v capabilities_as_args_inj by blast
qed (auto simp: capability_arguments_derived)

lemma derived_capabilities_wf:
  assumes "scheduler_ok (im_scheduler m)" and "id_ok 128 (im_backend_id m)" and "n \<le> sequence_context m"
  shows "capabilities_wf (derived_capabilities m model n) \<longleftrightarrow>
    id_ok 256 model \<and> rc_prefill_chunk_tokens (im_scheduler m) \<le> sequence_context m \<and>
    rc_decode_quantum_tokens (im_scheduler m) \<le> n \<and> 2 \<le> rc_max_decode_batch (im_scheduler m)"
  using assms by (auto simp: capabilities_wf_def coherent_steps_def derived_capabilities_def Let_def scheduler_ok_def id_ok_def)


section \<open>A concrete manifest\<close>

text \<open>One sequence decodes at a time: the loader accepts the manifest.\<close>

definition demo_model_node :: json_node where
  "demo_model_node = JObj [(''manifest_version'', JStr ''model-manifest.v1''), (''id'', JStr ''m''), (''gguf_path'', JStr ''g''),
     (''gguf_sha256'', JStr ''d''), (''runtime_build'', JStr ''b10012''), (''runtime'', JNull),
     (''context'', JObj [(''n_ctx'', JInt 4), (''n_batch'', JInt 2), (''n_ubatch'', JInt 1), (''training_context'', JInt 8)]),
     (''gpu'', JNull), (''sampling'', JObj [(''profile'', JStr ''greedy-v1'')]),
     (''reasoning'', JObj [(''mode'', JStr ''required_marker_sequence''), (''start_text'', JStr ''b''), (''end_text'', JStr ''e''),
        (''require_start'', JBool True)]),
     (''limits'', JObj [(''max_total_tokens'', JInt 4)])]"

definition demo_runtime_node :: json_node where
  "demo_runtime_node = JObj [(''runtime_manifest_version'', JStr ''inference-runtime.v1''), (''backend_id'', JStr ''b''),
     (''model_manifest'', JStr ''m''), (''model_manifest_digest'', JStr ''sha256:''),
     (''scheduler'', JObj [(''max_sequences'', JInt 2), (''cpu_threads'', JInt 1), (''kv_tokens'', JInt 8),
        (''prefill_chunk_tokens'', JInt 1), (''max_decode_batch'', JInt 1), (''decode_quantum_tokens'', JInt 1),
        (''tick_token_budget'', JInt 1)]),
     (''cache'', JObj [(''enabled'', JBool True), (''byte_budget'', JInt 1), (''max_entries'', JInt 1), (''ttl_seconds'', JInt 1)])]"

definition demo_load :: "worker_exc + InferenceRuntimeManifest" where
  "demo_load = load_inference_runtime_manifest
     (\<lambda>raw. if raw = ''m'' then Some demo_model_node else if raw = ''r'' then Some demo_runtime_node else None)
     (\<lambda>_. []) (\<lambda>_. []) Some (\<lambda>_ s. s) [] (\<lambda>s. s) (\<lambda>_ s. s) False ''r''"

lemma demo_load_ok: "case demo_load of Inr m \<Rightarrow> rc_max_decode_batch (im_scheduler m) = 1 | _ \<Rightarrow> False"
  by code_simp


end
