(* ===== verification/LlamaBackend.thy ===== *)
theory LlamaBackend
  imports RuntimeManifest
begin

text \<open>
  \<open>inference_runtime/adapters/llama_cpp.py\<close>: the process adapter of the native multi-sequence runtime. It starts the
  process on demand, exchanges one line per command, keeps the table from public handles to the runtime's own
  handles, and kills the process when the protocol is violated. What the operating system and the pipe do in
  one call is a record, the \<^emph>\<open>surroundings\<close> of the call: whether the process lives, what starting one yields, what a write and
  a read give, and whether killing it succeeds.
\<close>

section \<open>State\<close>

definition RUNTIME_IPC_VERSION :: string where "RUNTIME_IPC_VERSION = ''inference-runtime-ipc.v1''"

datatype llama_exc =
    BackendCommandError string
  | BackendWorker worker_exc
  | BackendContract contract_error
  | BackendPy py_exc

datatype backend_status = BackendStopped | BackendStarting | BackendReady | BackendDegraded | BackendDraining

datatype read_outcome = ReadTimeout | ReadFailed | ReadLine string

datatype write_outcome = WriteOk | WritePipeError | WriteValueError

record surroundings =
  su_alive :: bool
  su_spawns :: bool
  su_ready :: read_outcome
  su_write :: write_outcome
  su_reply :: read_outcome
  su_killed :: bool

record llama_config =
  lc_backend_id :: string
  lc_model_id :: string
  lc_model_digest :: string
  lc_scheduler :: RuntimeSchedulerConfig
  lc_cache :: RuntimeCacheConfig
  lc_capabilities :: BackendCapabilities
  lc_released_capacity :: nat
  lc_gguf_sha256 :: pyval
  lc_executable_digest :: string
  lc_runtime_digest :: string
  lc_sha :: "string \<Rightarrow> string"
  lc_int_of_str :: "string \<Rightarrow> int option"
  lc_str :: "pyval \<Rightarrow> string"

text \<open>
  The commands of the protocol, with the native handles they carry. The last four fields of the state are kept for
  the specification: how many processes were started (they are numbered in this order), which of them run, which
  commands were written to which process under which command id, and which native handles a process returned.
\<close>

datatype llama_cmd =
    OpenCmd string string pyval
  | PrefillCmd "(pyval \<times> int) list"
  | DecodeCmd "(pyval \<times> int) list"
  | ReleaseCmd pyval
  | CacheStatsCmd
  | CacheClearCmd
  | ShutdownCmd

fun cmd_handles :: "llama_cmd \<Rightarrow> pyval list" where
  "cmd_handles (PrefillCmd steps) = map fst steps"
| "cmd_handles (DecodeCmd steps) = map fst steps"
| "cmd_handles (ReleaseCmd native) = [native]"
| "cmd_handles _ = []"

record llama_state =
  ll_process :: "nat option"
  ll_command_id :: int
  ll_generation :: int
  ll_status :: backend_status
  ll_active :: "(SequenceHandle, pyval) odict"
  ll_reserved :: "(SequenceHandle, int) odict"
  ll_released :: "(SequenceHandle, pyval) odict"
  ll_spawned :: nat
  ll_live :: "nat list"
  ll_sent :: "(nat \<times> int \<times> llama_cmd) list"
  ll_opened :: "(nat \<times> pyval) list"

definition new_llama :: llama_state where
  "new_llama = \<lparr>ll_process = None, ll_command_id = 0, ll_generation = 0, ll_status = BackendStopped, ll_active = [],
     ll_reserved = [], ll_released = [], ll_spawned = 0, ll_live = [], ll_sent = [], ll_opened = []\<rparr>"

text \<open>
  The constructor: positive timeouts, a positive capacity, an executable that exists (\<open>executable\<close> is what it
  contains), the manifest and its capabilities.
\<close>

definition mk_llama_config ::
  "rat \<Rightarrow> rat \<Rightarrow> rat \<Rightarrow> pyval \<Rightarrow> string option \<Rightarrow> worker_exc + InferenceRuntimeManifest \<Rightarrow> (string \<Rightarrow> string) \<Rightarrow>
   (string \<Rightarrow> int option) \<Rightarrow> (pyval \<Rightarrow> string) \<Rightarrow> llama_exc + llama_config" where
  "mk_llama_config startup_timeout command_timeout shutdown_timeout released_handle_capacity executable loaded sha int_of_str str_of =
     (if min startup_timeout (min command_timeout shutdown_timeout) \<le> 0 then Inl (BackendPy (ValueError ''timeouts''))
      else case positive_int_val released_handle_capacity of
        None \<Rightarrow> Inl (BackendPy (ValueError ''released_handle_capacity''))
      | Some capacity \<Rightarrow>
          (case executable of None \<Rightarrow> Inl (BackendPy (OSErr ''executable'')) | Some bytes \<Rightarrow>
          (case loaded of
            Inl x \<Rightarrow> Inl (BackendWorker x)
          | Inr m \<Rightarrow>
              (case adapter_capabilities m of
                 Inl (SetupWorker x) \<Rightarrow> Inl (BackendWorker x)
               | Inl (SetupContract x) \<Rightarrow> Inl (BackendContract x)
               | Inr c \<Rightarrow>
                   Inr \<lparr>lc_backend_id = im_backend_id m,
                        lc_model_id = (case dict_item (mm_raw (im_model_manifest m)) ''id'' of PStr s \<Rightarrow> s | _ \<Rightarrow> []),
                        lc_model_digest = mm_digest (im_model_manifest m), lc_scheduler = im_scheduler m, lc_cache = im_cache m,
                        lc_capabilities = c, lc_released_capacity = nat capacity,
                        lc_gguf_sha256 = dict_item (mm_raw (im_model_manifest m)) ''gguf_sha256'',
                        lc_executable_digest = ''sha256:'' @ sha bytes, lc_runtime_digest = im_digest m, lc_sha = sha,
                        lc_int_of_str = int_of_str, lc_str = str_of\<rparr>))))"

section \<open>The process\<close>

definition clear_tables :: "llama_state \<Rightarrow> llama_state" where
  "clear_tables s = s\<lparr>ll_active := [], ll_reserved := [], ll_released := []\<rparr>"

text \<open>A process that ended by itself no longer runs.\<close>

definition reap :: "surroundings \<Rightarrow> llama_state \<Rightarrow> llama_state" where
  "reap env s =
     (case ll_process s of
        Some p \<Rightarrow> if su_alive env then s else s\<lparr>ll_live := removeAll p (ll_live s)\<rparr>
      | None \<Rightarrow> s)"

definition terminate_process :: "surroundings \<Rightarrow> nat \<Rightarrow> llama_state \<Rightarrow> llama_state" where
  "terminate_process env p s = (if su_killed env then s\<lparr>ll_live := removeAll p (ll_live s)\<rparr> else s)"

definition fail_process :: "surroundings \<Rightarrow> nat \<Rightarrow> llama_state \<Rightarrow> llama_state" where
  "fail_process env p s =
     (clear_tables ((terminate_process env p s)\<lparr>ll_process := (if ll_process s = Some p then None else ll_process s)\<rparr>))
       \<lparr>ll_status := BackendDegraded\<rparr>"

text \<open>\<open>_protocol_failure\<close>; the caller raises \<open>protocol_violation\<close>.\<close>

abbreviation protocol_violation :: llama_exc where "protocol_violation \<equiv> BackendCommandError ''protocol_violation''"

definition protocol_failure :: "surroundings \<Rightarrow> llama_state \<Rightarrow> llama_state" where
  "protocol_failure env s = (case ll_process s of None \<Rightarrow> s | Some p \<Rightarrow> fail_process env p s)"

definition supervisor_status :: "bool \<Rightarrow> llama_state \<Rightarrow> backend_status \<times> llama_state" where
  "supervisor_status alive s =
     (let t = (if ll_status s = BackendReady \<and> (ll_process s = None \<or> \<not> alive) then s\<lparr>ll_status := BackendDegraded\<rparr> else s) in
      (ll_status t, t))"

definition live_process_id :: "bool \<Rightarrow> llama_state \<Rightarrow> nat option" where
  "live_process_id alive s = (if alive then ll_process s else None)"

definition READY_KEYS :: "string list" where
  "READY_KEYS = [''protocol_version'', ''type'', ''sequence'', ''backend_id'', ''model_id'', ''model_manifest_digest'',
     ''max_sequences'', ''cpu_threads'', ''kv_tokens'', ''sequence_context_tokens'', ''prefill_chunk_tokens'',
     ''max_decode_batch'', ''decode_quantum_tokens'', ''tick_token_budget'', ''cache'']"

definition verify_ready :: "llama_config \<Rightarrow> pyval \<Rightarrow> llama_exc + unit" where
  "verify_ready cfg ready =
     (case ready of
        PDict d \<Rightarrow>
          ensure (set (dict_keys d) = set READY_KEYS \<and>
            list_all (\<lambda>(k, v). py_eq (dict_item d k) v)
              [(''protocol_version'', PStr RUNTIME_IPC_VERSION), (''type'', PStr ''ready''), (''sequence'', PInt 0),
               (''backend_id'', PStr (lc_backend_id cfg)), (''model_id'', PStr (lc_model_id cfg)),
               (''model_manifest_digest'', PStr (lc_model_digest cfg)),
               (''max_sequences'', PInt (rc_max_sequences (lc_scheduler cfg))),
               (''cpu_threads'', PInt (rc_cpu_threads (lc_scheduler cfg))),
               (''kv_tokens'', PInt (rc_kv_tokens (lc_scheduler cfg))),
               (''sequence_context_tokens'', PInt (bc_max_context_tokens (lc_capabilities cfg))),
               (''prefill_chunk_tokens'', PInt (rc_prefill_chunk_tokens (lc_scheduler cfg))),
               (''max_decode_batch'', PInt (rc_max_decode_batch (lc_scheduler cfg))),
               (''decode_quantum_tokens'', PInt (rc_decode_quantum_tokens (lc_scheduler cfg))),
               (''tick_token_budget'', PInt (rc_tick_token_budget (lc_scheduler cfg))),
               (''cache'', PDict [(''enabled'', PBool (rk_enabled (lc_cache cfg))), (''byte_budget'', PInt (rk_byte_budget (lc_cache cfg))),
                  (''max_entries'', PInt (rk_max_entries (lc_cache cfg))), (''ttl_seconds'', PInt (rk_ttl_seconds (lc_cache cfg)))])])
            (BackendCommandError ''worker_not_ready'')
      | _ \<Rightarrow> Inl (BackendCommandError ''worker_not_ready''))"

definition read_line :: "read_outcome \<Rightarrow> llama_exc + string" where
  "read_line r =
     (case r of
        ReadTimeout \<Rightarrow> Inl (BackendCommandError ''worker_timeout'')
      | ReadFailed \<Rightarrow> Inl (BackendCommandError ''worker_crashed'')
      | ReadLine s \<Rightarrow> if s = [] then Inl (BackendCommandError ''worker_crashed'') else Inr s)"

definition read_json :: "(string \<Rightarrow> json_node option) \<Rightarrow> read_outcome \<Rightarrow> llama_exc + pyval" where
  "read_json decode r =
     rbind (read_line r) (\<lambda>line. case strict_loads decode None (JsonText line) of Inl x \<Rightarrow> Inl (BackendWorker x) | Inr v \<Rightarrow> Inr v)"

definition llama_start :: "llama_config \<Rightarrow> (string \<Rightarrow> json_node option) \<Rightarrow> surroundings \<Rightarrow> llama_state \<Rightarrow> (llama_exc + unit) \<times> llama_state" where
  "llama_start cfg decode env s =
     (if ll_process s \<noteq> None \<and> su_alive env \<and> ll_status s = BackendReady then (Inr (), s)
      else
        (let s1 = (reap env s)\<lparr>ll_status := BackendStarting\<rparr>; p = ll_spawned s in
         if \<not> su_spawns env then
           (Inl (BackendPy (OSErr ''Popen'')), s1\<lparr>ll_process := None, ll_status := BackendDegraded\<rparr>)
         else
             (let s2 = s1\<lparr>ll_spawned := Suc p, ll_live := ll_live s1 @ [p]\<rparr> in
              case rbind (read_json decode (su_ready env)) (verify_ready cfg) of
                Inl x \<Rightarrow> (Inl x, (terminate_process env p s2)\<lparr>ll_process := None, ll_status := BackendDegraded\<rparr>)
              | Inr _ \<Rightarrow>
                  (Inr (), (clear_tables s2)\<lparr>ll_process := Some p, ll_generation := ll_generation s2 + 1, ll_command_id := 0,
                     ll_status := BackendReady\<rparr>))))"

section \<open>Commands\<close>

definition fatal_codes :: "string list" where
  "fatal_codes = [''worker_crashed'', ''worker_timeout'', ''protocol_violation'']"

definition check_response :: "llama_config \<Rightarrow> int \<Rightarrow> pyval \<Rightarrow> llama_exc + (string, pyval) odict" where
  "check_response cfg command_id v =
     (case v of
        PDict d \<Rightarrow>
          if \<not> py_eq (dict_item d ''protocol_version'') (PStr RUNTIME_IPC_VERSION) \<or>
             \<not> py_eq (dict_item d ''command_id'') (PInt command_id) then Inl protocol_violation
          else (case dict_item d ''type'' of
            PStr t \<Rightarrow>
              if t = ''command_error'' then
                if set (dict_keys d) \<noteq> {''protocol_version'', ''type'', ''command_id'', ''error_code'', ''detail''} then Inl protocol_violation
                else Inl (BackendCommandError (case dict_item d ''error_code'' of PStr c \<Rightarrow> c | x \<Rightarrow> lc_str cfg x))
              else Inr d
          | _ \<Rightarrow> Inl protocol_violation)
      | _ \<Rightarrow> Inl protocol_violation)"

text \<open>The next command id, and the command written under it to the process \<open>p\<close>.\<close>

definition sent_to :: "nat \<Rightarrow> llama_cmd \<Rightarrow> llama_state \<Rightarrow> llama_state" where
  "sent_to p cmd s = s\<lparr>ll_command_id := ll_command_id s + 1, ll_sent := ll_sent s @ [(p, ll_command_id s + 1, cmd)]\<rparr>"

definition llama_command ::
  "llama_config \<Rightarrow> (string \<Rightarrow> json_node option) \<Rightarrow> surroundings \<Rightarrow> llama_cmd \<Rightarrow> llama_state \<Rightarrow>
   (llama_exc + (string, pyval) odict) \<times> llama_state" where
  "llama_command cfg decode env cmd s =
     (case llama_start cfg decode env s of
        (Inl x, s1) \<Rightarrow> (Inl x, s1)
      | (Inr _, s1) \<Rightarrow>
          (let s2 = sent_to (the (ll_process s1)) cmd s1; command_id = ll_command_id s2 in
           if su_write env \<noteq> WriteOk then (Inl (BackendCommandError ''worker_crashed''), protocol_failure env s2)
           else (case rbind (read_json decode (su_reply env)) (check_response cfg command_id) of
             Inr d \<Rightarrow> (Inr d, s2)
           | Inl (BackendCommandError code) \<Rightarrow>
               (Inl (BackendCommandError code), if code \<in> set fatal_codes then protocol_failure env s2 else s2)
           | Inl x \<Rightarrow> (Inl x, s2))))"

section \<open>Opening a sequence\<close>

definition native_handle :: "llama_config \<Rightarrow> pyval \<Rightarrow> SequenceHandle option" where
  "native_handle cfg v =
     (case v of
        PDict d \<Rightarrow>
          if set (dict_keys d) \<noteq> {''backend'', ''model'', ''sequence'', ''generation''} then None
          else (case mk_SequenceHandle (dict_item d ''backend'') (dict_item d ''model'') (dict_item d ''sequence'') (dict_item d ''generation'') of
            Inl _ \<Rightarrow> None
          | Inr h \<Rightarrow> if sh_backend h \<noteq> lc_backend_id cfg \<or> sh_model h \<noteq> lc_model_id cfg then None else Some h)
      | _ \<Rightarrow> None)"

record opened =
  op_native :: SequenceHandle
  op_raw :: pyval
  op_reserved :: pyval

definition OPENED_KEYS :: "string list" where
  "OPENED_KEYS = [''protocol_version'', ''type'', ''command_id'', ''handle'', ''prompt_tokens'', ''reserved_tokens'',
     ''cache_hit'', ''cached_prompt_tokens'']"

text \<open>
  The request that the runtime gets: the preflighted request and the cache scopes as dicts, and the
  digests that keep the caches of different models, templates and executables apart.
\<close>

record open_request =
  oq_request_id :: string
  oq_attempt_id :: string
  oq_request :: pyval
  oq_grammar :: pyval
  oq_model_messages :: "pyval list"
  oq_prompt_hash :: string
  oq_prompt_version :: string
  oq_cache_scope :: pyval
  oq_session_cache :: pyval

definition open_envelope :: "llama_config \<Rightarrow> open_request \<Rightarrow> pyval" where
  "open_envelope cfg q =
     PDict [(''request'', oq_request q), (''grammar'', oq_grammar q), (''model_messages'', PList (oq_model_messages q)),
       (''prompt_hash'', PStr (oq_prompt_hash q)), (''prompt_version'', PStr (oq_prompt_version q)),
       (''cache_scope'', oq_cache_scope q), (''session_cache'', oq_session_cache q),
       (''cache_namespace'', PDict [(''model_digest'', PStr (lc_model_digest cfg)),
          (''template_digest'', PStr (''sha256:'' @ lc_sha cfg (oq_prompt_version q))),
          (''tokenizer_digest'', lc_gguf_sha256 cfg), (''adapter_digest'', PStr (lc_executable_digest cfg)),
          (''context_digest'', PStr (lc_runtime_digest cfg))])]"

text \<open>\<open>open_sequence\<close> takes the lock twice: for the command, and to enter the handle in the tables.\<close>

definition open_exchange ::
  "llama_config \<Rightarrow> (string \<Rightarrow> json_node option) \<Rightarrow> surroundings \<Rightarrow> open_request \<Rightarrow> llama_state \<Rightarrow> (llama_exc + opened) \<times> llama_state" where
  "open_exchange cfg decode env q s =
     (case llama_command cfg decode env (OpenCmd (oq_request_id q) (oq_attempt_id q) (open_envelope cfg q)) s of
        (Inl x, s1) \<Rightarrow> (Inl x, s1)
      | (Inr d, s1) \<Rightarrow>
          if set (dict_keys d) \<noteq> set OPENED_KEYS \<or> dict_item d ''type'' \<noteq> PStr ''sequence_opened''
          then (Inl protocol_violation, protocol_failure env s1)
          else (case native_handle cfg (dict_item d ''handle'') of
            None \<Rightarrow> (Inl protocol_violation, protocol_failure env s1)
          | Some h \<Rightarrow>
              (Inr \<lparr>op_native = h, op_raw = dict_item d ''handle'', op_reserved = dict_item d ''reserved_tokens''\<rparr>,
               s1\<lparr>ll_opened := ll_opened s1 @ [(the (ll_process s1), dict_item d ''handle'')]\<rparr>)))"

text \<open>\<open>int(value)\<close>.\<close>

definition truncated :: "rat \<Rightarrow> int" where "truncated x = (if 0 \<le> x then \<lfloor>x\<rfloor> else \<lceil>x\<rceil>)"

definition py_int :: "llama_config \<Rightarrow> pyval \<Rightarrow> llama_exc + int" where
  "py_int cfg v =
     (case v of
        PInt i \<Rightarrow> Inr i
      | PBool b \<Rightarrow> Inr (of_bool b)
      | PFloat (Finite r) \<Rightarrow> Inr (truncated r)
      | PFloat NaN \<Rightarrow> Inl (BackendPy (ValueError ''int''))
      | PFloat _ \<Rightarrow> Inl (BackendPy (OverflowErr ''int''))
      | PStr s \<Rightarrow> (case lc_int_of_str cfg s of Some i \<Rightarrow> Inr i | None \<Rightarrow> Inl (BackendPy (ValueError ''int'')))
      | _ \<Rightarrow> Inl (BackendPy (TypeError ''int'')))"

definition public_handle :: "int \<Rightarrow> SequenceHandle \<Rightarrow> SequenceHandle" where
  "public_handle generation h = h\<lparr>sh_generation := Bit_Operations.or (push_bit 32 generation) (sh_generation h)\<rparr>"

definition open_commit :: "llama_config \<Rightarrow> surroundings \<Rightarrow> opened \<Rightarrow> llama_state \<Rightarrow> (llama_exc + SequenceHandle) \<times> llama_state" where
  "open_commit cfg env opened s =
     (let public = public_handle (ll_generation s) (op_native opened) in
      if dict_get (ll_active s) public \<noteq> None then (Inl protocol_violation, protocol_failure env s)
      else
        (let s1 = s\<lparr>ll_active := dict_set public (op_raw opened) (ll_active s)\<rparr> in
         case py_int cfg (op_reserved opened) of
           Inl x \<Rightarrow> (Inl x, s1)
         | Inr n \<Rightarrow> (Inr public, s1\<lparr>ll_reserved := dict_set public n (ll_reserved s1)\<rparr>)))"

definition open_sequence ::
  "llama_config \<Rightarrow> (string \<Rightarrow> json_node option) \<Rightarrow> surroundings \<Rightarrow> open_request \<Rightarrow> llama_state \<Rightarrow>
   (llama_exc + SequenceHandle) \<times> llama_state" where
  "open_sequence cfg decode env q s =
     (case open_exchange cfg decode env q s of
        (Inl x, s1) \<Rightarrow> (Inl x, s1)
      | (Inr opened, s1) \<Rightarrow> open_commit cfg env opened s1)"

definition reservation_tokens :: "SequenceHandle \<Rightarrow> llama_state \<Rightarrow> llama_exc + int" where
  "reservation_tokens h s =
     (case dict_get (ll_reserved s) h of None \<Rightarrow> Inl (BackendCommandError ''stale_handle'') | Some n \<Rightarrow> Inr n)"

section \<open>Batches\<close>

definition native_steps :: "SequenceStep list \<Rightarrow> llama_state \<Rightarrow> llama_exc + (pyval \<times> int) list" where
  "native_steps steps s =
     rmap (\<lambda>step. case dict_get (ll_active s) (st_handle step) of
             None \<Rightarrow> Inl (BackendCommandError ''stale_handle'')
           | Some raw \<Rightarrow> Inr (raw, st_token_budget step)) steps"

definition batch_checks :: "llama_config \<Rightarrow> int option \<Rightarrow> SequenceStep list \<Rightarrow> llama_exc + unit" where
  "batch_checks cfg per_step steps =
     (case validate_sequence_batch steps (opt_int (bc_max_sequences_per_step (lc_capabilities cfg))) (opt_int per_step) of
        Inl x \<Rightarrow> Inl (BackendContract x)
      | Inr _ \<Rightarrow> ensure (sum_list (map st_token_budget steps) \<le> rc_tick_token_budget (lc_scheduler cfg))
                   (BackendPy (ValueError ''batch exceeds tick token budget'')))"

text \<open>\<open>native != self._active.get(public)\<close>.\<close>

definition correlates :: "llama_state \<Rightarrow> SequenceHandle \<Rightarrow> pyval \<Rightarrow> bool" where
  "correlates s public native \<longleftrightarrow> py_eq native (case dict_get (ll_active s) public of None \<Rightarrow> PNone | Some raw \<Rightarrow> raw)"

definition prefill_status_of :: "pyval \<Rightarrow> PrefillStatus option" where
  "prefill_status_of v =
     (if v = PStr ''partial'' then Some PrefillPartial else if v = PStr ''ready'' then Some PrefillReady else None)"

definition native_prefill_outcome :: "llama_state \<Rightarrow> SequenceHandle \<Rightarrow> pyval \<Rightarrow> llama_exc + PrefillOutcome" where
  "native_prefill_outcome s public v =
     (case v of
        PDict d \<Rightarrow>
          if set (dict_keys d) \<noteq> {''handle'', ''status'', ''processed_tokens'', ''remaining_tokens''} \<or>
             \<not> correlates s public (dict_item d ''handle'') then Inl protocol_violation
          else (case prefill_status_of (dict_item d ''status'') of
            None \<Rightarrow> Inl protocol_violation
          | Some status \<Rightarrow>
              (case mk_PrefillOutcome public status (dict_item d ''processed_tokens'') (dict_item d ''remaining_tokens'') of
                 Inl _ \<Rightarrow> Inl protocol_violation
               | Inr out \<Rightarrow> Inr out))
      | _ \<Rightarrow> Inl protocol_violation)"

text \<open>
  The response to a batch: its type and fields, one outcome per step, each read with \<open>parse\<close>. A protocol
  violation fails the process; another exception escapes.
\<close>

definition batch_response ::
  "(SequenceHandle \<Rightarrow> pyval \<Rightarrow> llama_exc + 'o) \<Rightarrow> string \<Rightarrow> SequenceStep list \<Rightarrow> (string, pyval) odict \<Rightarrow> llama_exc + 'o list" where
  "batch_response parse type_name steps d =
     (if dict_item d ''type'' \<noteq> PStr type_name \<or> set (dict_keys d) \<noteq> {''protocol_version'', ''type'', ''command_id'', ''outcomes''}
      then Inl protocol_violation
      else (case dict_item d ''outcomes'' of
        PList vs \<Rightarrow>
          if length vs \<noteq> length steps then Inl protocol_violation
          else rmap (\<lambda>(step, v). parse (st_handle step) v) (zip steps vs)
      | _ \<Rightarrow> Inl protocol_violation))"

definition run_batch ::
  "llama_config \<Rightarrow> (string \<Rightarrow> json_node option) \<Rightarrow> surroundings \<Rightarrow> int option \<Rightarrow>
   (llama_state \<Rightarrow> SequenceHandle \<Rightarrow> pyval \<Rightarrow> llama_exc + 'o) \<Rightarrow> ((pyval \<times> int) list \<Rightarrow> llama_cmd) \<Rightarrow> string \<Rightarrow>
   SequenceStep list \<Rightarrow> llama_state \<Rightarrow> (llama_exc + 'o list) \<times> llama_state" where
  "run_batch cfg decode env per_step parse cmd type_name steps s =
     (case rbind (batch_checks cfg per_step steps) (\<lambda>_. native_steps steps s) of
        Inl x \<Rightarrow> (Inl x, s)
      | Inr natives \<Rightarrow>
          (case llama_command cfg decode env (cmd natives) s of
             (Inl x, s1) \<Rightarrow> (Inl x, s1)
           | (Inr d, s1) \<Rightarrow>
               (case batch_response (parse s1) type_name steps d of
                  Inl x \<Rightarrow> (Inl x, if x = protocol_violation then protocol_failure env s1 else s1)
                | Inr outs \<Rightarrow> (Inr outs, s1))))"

definition prefill_batch ::
  "llama_config \<Rightarrow> (string \<Rightarrow> json_node option) \<Rightarrow> surroundings \<Rightarrow> SequenceStep list \<Rightarrow> llama_state \<Rightarrow>
   (llama_exc + PrefillOutcome list) \<times> llama_state" where
  "prefill_batch cfg decode env =
     run_batch cfg decode env (bc_max_prefill_tokens_per_step (lc_capabilities cfg)) native_prefill_outcome PrefillCmd ''prefill_completed''"

section \<open>Decode outcomes\<close>

text \<open>\<open>tuple(value)\<close> and \<open>dict(value)\<close>; \<^const>\<open>None\<close> is their \<open>TypeError\<close> or \<open>ValueError\<close>.\<close>

fun utf8_characters :: "string \<Rightarrow> string list" where
  "utf8_characters [] = []"
| "utf8_characters (c # cs) =
     (case utf8_characters cs of
        [] \<Rightarrow> [[c]]
      | p # ps \<Rightarrow>
          (case p of
             [] \<Rightarrow> [c] # ps
           | b # _ \<Rightarrow> if 128 \<le> (of_char b :: nat) \<and> (of_char b :: nat) < 192 then (c # p) # ps else [c] # p # ps))"

definition native_tuple :: "pyval \<Rightarrow> pyval list option" where
  "native_tuple v =
     (case v of
        PList vs \<Rightarrow> Some vs
      | PTuple vs \<Rightarrow> Some vs
      | PStr s \<Rightarrow> Some (map PStr (utf8_characters s))
      | PDict d \<Rightarrow> Some (map PStr (dict_keys d))
      | _ \<Rightarrow> None)"

fun dict_of_pairs :: "pyval list \<Rightarrow> (string, pyval) odict \<Rightarrow> (string, pyval) odict option" where
  "dict_of_pairs [] d = Some d"
| "dict_of_pairs (v # vs) d =
     (case native_tuple v of
        Some [PStr k, x] \<Rightarrow> dict_of_pairs vs (dict_set k x d)
      | _ \<Rightarrow> None)"

definition py_dict_of :: "pyval \<Rightarrow> (string, pyval) odict option" where
  "py_dict_of v =
     (case v of PDict d \<Rightarrow> Some d | _ \<Rightarrow> (case native_tuple v of None \<Rightarrow> None | Some vs \<Rightarrow> dict_of_pairs vs []))"

definition COMPLETION_REQUIRED :: "string list" where
  "COMPLETION_REQUIRED = [''final_text'', ''prompt_tokens'', ''reasoning_tokens'', ''final_tokens'', ''sampled_tokens'',
     ''prompt_decode_ms'', ''generation_ms'']"

definition COMPLETION_OPTIONAL :: "(string \<times> pyval) list" where
  "COMPLETION_OPTIONAL = [(''cached_prompt_tokens'', PInt 0), (''cache_hit'', PBool False), (''first_sample_ms'', PFloat (Finite 0)),
     (''first_final_ms'', PFloat (Finite 0)), (''sample_itl_ms'', PTuple []), (''final_itl_ms'', PTuple []),
     (''grammar_engine'', PStr ''unknown''), (''cache_match'', PStr ''unknown''), (''session_id'', PNone),
     (''session_parent_generation'', PNone), (''session_generation'', PNone), (''session_copy_on_write'', PBool False)]"

text \<open>\<open>SequenceCompletion(**payload)\<close>: the keywords must be the fields, those without default present.\<close>

definition completion_arguments :: "(string, pyval) odict \<Rightarrow> completion_args option" where
  "completion_arguments d =
     (if \<not> set (dict_keys d) \<subseteq> set (COMPLETION_REQUIRED @ map fst COMPLETION_OPTIONAL) \<or>
         \<not> set COMPLETION_REQUIRED \<subseteq> set (dict_keys d) then None
      else
        (let get = (\<lambda>k. case dict_get d k of Some v \<Rightarrow> v | None \<Rightarrow> dict_item COMPLETION_OPTIONAL k) in
         Some \<lparr>co_final_text = get ''final_text'', co_prompt_tokens = get ''prompt_tokens'',
           co_reasoning_tokens = get ''reasoning_tokens'', co_final_tokens = get ''final_tokens'',
           co_sampled_tokens = get ''sampled_tokens'', co_prompt_decode_ms = get ''prompt_decode_ms'',
           co_generation_ms = get ''generation_ms'', co_cached_prompt_tokens = get ''cached_prompt_tokens'',
           co_cache_hit = get ''cache_hit'', co_first_sample_ms = get ''first_sample_ms'', co_first_final_ms = get ''first_final_ms'',
           co_sample_itl_ms = get ''sample_itl_ms'', co_final_itl_ms = get ''final_itl_ms'', co_grammar_engine = get ''grammar_engine'',
           co_cache_match = get ''cache_match'', co_session_id = get ''session_id'',
           co_session_parent_generation = get ''session_parent_generation'', co_session_generation = get ''session_generation'',
           co_session_copy_on_write = get ''session_copy_on_write''\<rparr>))"

fun tuple_items :: "string list \<Rightarrow> (string, pyval) odict \<Rightarrow> (string, pyval) odict option" where
  "tuple_items [] d = Some d"
| "tuple_items (k # ks) d =
     (case dict_get d k of
        None \<Rightarrow> tuple_items ks d
      | Some v \<Rightarrow> (case native_tuple v of None \<Rightarrow> None | Some vs \<Rightarrow> tuple_items ks (dict_set k (PTuple vs) d)))"

definition decode_completion :: "pyval \<Rightarrow> SequenceCompletion option" where
  "decode_completion v =
     (case py_dict_of v of
        None \<Rightarrow> None
      | Some d \<Rightarrow>
          (case tuple_items [''sample_itl_ms'', ''final_itl_ms''] d of
             None \<Rightarrow> None
           | Some d1 \<Rightarrow>
               (case completion_arguments d1 of
                  None \<Rightarrow> None
                | Some args \<Rightarrow> (case mk_SequenceCompletion args of Inl _ \<Rightarrow> None | Inr c \<Rightarrow> Some c))))"

definition finish_reason_of :: "pyval \<Rightarrow> FinishReason option" where
  "finish_reason_of v =
     (if v = PStr ''stop'' then Some FinishStop else if v = PStr ''length'' then Some FinishLength
      else if v = PStr ''cancelled'' then Some FinishCancelled else None)"

definition decode_keys :: "string \<Rightarrow> string set option" where
  "decode_keys status =
     (let common = {''handle'', ''status'', ''token_ids'', ''text_delta''} in
      if status = ''progressed'' then Some common
      else if status = ''finished'' then Some (common \<union> {''finish_reason'', ''completion''})
      else if status = ''failed'' then Some (common \<union> {''error_code''})
      else None)"

definition decode_build :: "SequenceHandle \<Rightarrow> string \<Rightarrow> (string, pyval) odict \<Rightarrow> DecodeOutcome option" where
  "decode_build public status d =
     (case native_tuple (dict_item d ''token_ids'') of
        None \<Rightarrow> None
      | Some token_ids \<Rightarrow>
          (let made = (if status = ''progressed'' then
                  Some (mk_DecodeOutcome public DecodeProgressed (PTuple token_ids) (dict_item d ''text_delta'') None None PNone)
                else if status = ''failed'' then
                  Some (mk_DecodeOutcome public DecodeFailed (PTuple token_ids) (dict_item d ''text_delta'') None None (dict_item d ''error_code''))
                else
                  (case (decode_completion (dict_item d ''completion''), finish_reason_of (dict_item d ''finish_reason'')) of
                     (Some c, Some r) \<Rightarrow>
                       Some (mk_DecodeOutcome public DecodeFinished (PTuple token_ids) (dict_item d ''text_delta'') (Some r) (Some c) PNone)
                   | _ \<Rightarrow> None)) in
           case made of Some (Inr out) \<Rightarrow> Some out | _ \<Rightarrow> None))"

text \<open>The status is looked up in a dict outside the handler, so an unhashable one raises \<open>TypeError\<close>.\<close>

definition native_decode_outcome :: "llama_state \<Rightarrow> SequenceHandle \<Rightarrow> pyval \<Rightarrow> llama_exc + DecodeOutcome" where
  "native_decode_outcome s public v =
     (case v of
        PDict d \<Rightarrow>
          (case dict_item d ''status'' of
             PList _ \<Rightarrow> Inl (BackendPy (TypeError ''unhashable type''))
           | PDict _ \<Rightarrow> Inl (BackendPy (TypeError ''unhashable type''))
           | PStr status \<Rightarrow>
               if decode_keys status \<noteq> Some (set (dict_keys d)) \<or> \<not> correlates s public (dict_item d ''handle'') then Inl protocol_violation
               else (case decode_build public status d of None \<Rightarrow> Inl protocol_violation | Some out \<Rightarrow> Inr out)
           | _ \<Rightarrow> Inl protocol_violation)
      | _ \<Rightarrow> Inl protocol_violation)"

definition decode_batch ::
  "llama_config \<Rightarrow> (string \<Rightarrow> json_node option) \<Rightarrow> surroundings \<Rightarrow> SequenceStep list \<Rightarrow> llama_state \<Rightarrow>
   (llama_exc + DecodeOutcome list) \<times> llama_state" where
  "decode_batch cfg decode env =
     run_batch cfg decode env (bc_max_decode_tokens_per_step (lc_capabilities cfg)) native_decode_outcome DecodeCmd ''decode_completed''"

text \<open>\<open>prefill\<close> and \<open>decode\<close> of one sequence are batches of one step; \<open>SequenceStep\<close> checks the budget.\<close>

definition single_step ::
  "(SequenceStep list \<Rightarrow> llama_state \<Rightarrow> (llama_exc + 'o list) \<times> llama_state) \<Rightarrow> SequenceHandle \<Rightarrow> pyval \<Rightarrow> llama_state \<Rightarrow>
   (llama_exc + 'o) \<times> llama_state" where
  "single_step batch h token_budget s =
     (case mk_SequenceStep h token_budget of
        Inl x \<Rightarrow> (Inl (BackendContract x), s)
      | Inr step \<Rightarrow> (case batch [step] s of (r, t) \<Rightarrow> (rbind r (\<lambda>outs. Inr (hd outs)), t)))"

section \<open>Release\<close>

definition release_status_of :: "pyval \<Rightarrow> ReleaseStatus option" where
  "release_status_of v =
     (if v = PStr ''released'' then Some Released else if v = PStr ''already_released'' then Some AlreadyReleased
      else if v = PStr ''stale_handle'' then Some StaleHandle else if v = PStr ''not_found'' then Some NotFound else None)"

definition released_response :: "llama_state \<Rightarrow> SequenceHandle \<Rightarrow> (string, pyval) odict \<Rightarrow> ReleaseOutcome option" where
  "released_response s h d =
     (if dict_item d ''type'' \<noteq> PStr ''sequence_released'' \<or>
         set (dict_keys d) \<noteq> {''protocol_version'', ''type'', ''command_id'', ''handle'', ''status'', ''released_bytes''} \<or>
         \<not> correlates s h (dict_item d ''handle'') then None
      else (case release_status_of (dict_item d ''status'') of
        None \<Rightarrow> None
      | Some status \<Rightarrow> (case mk_ReleaseOutcome h status (dict_item d ''released_bytes'') of Inl _ \<Rightarrow> None | Inr out \<Rightarrow> Some out)))"

text \<open>The bounded memory of released handles, oldest first.\<close>

definition remember_released :: "nat \<Rightarrow> SequenceHandle \<Rightarrow> pyval \<Rightarrow> (SequenceHandle, pyval) odict \<Rightarrow> (SequenceHandle, pyval) odict" where
  "remember_released capacity h raw d =
     (let d1 = dict_pop h d @ [(h, raw)] in drop (length d1 - capacity) d1)"

definition release_commit :: "llama_config \<Rightarrow> SequenceHandle \<Rightarrow> pyval \<Rightarrow> ReleaseStatus \<Rightarrow> llama_state \<Rightarrow> llama_state" where
  "release_commit cfg h native status s =
     (if status = NotFound then s
      else
        (let removed = (case dict_get (ll_active s) h of Some raw \<Rightarrow> if py_truth raw then raw else native | None \<Rightarrow> native);
             s1 = s\<lparr>ll_active := dict_pop h (ll_active s), ll_reserved := dict_pop h (ll_reserved s)\<rparr> in
         if status \<in> {Released, AlreadyReleased}
         then s1\<lparr>ll_released := remember_released (lc_released_capacity cfg) h removed (ll_released s1)\<rparr>
         else s1))"

definition llama_release ::
  "llama_config \<Rightarrow> (string \<Rightarrow> json_node option) \<Rightarrow> surroundings \<Rightarrow> SequenceHandle \<Rightarrow> llama_state \<Rightarrow>
   (llama_exc + ReleaseOutcome) \<times> llama_state" where
  "llama_release cfg decode env h s =
     (case dict_get (ll_active s) h of
        None \<Rightarrow>
          (Inr \<lparr>ro_handle = h, ro_status = (if dict_get (ll_released s) h \<noteq> None then AlreadyReleased else StaleHandle),
                ro_released_bytes = 0\<rparr>, s)
      | Some native \<Rightarrow>
          (case llama_command cfg decode env (ReleaseCmd native) s of
             (Inl x, s1) \<Rightarrow> (Inl x, s1)
           | (Inr d, s1) \<Rightarrow>
               (case released_response s1 h d of
                  None \<Rightarrow> (Inl protocol_violation, protocol_failure env s1)
                | Some out \<Rightarrow> (Inr out, release_commit cfg h native (ro_status out) s1))))"

section \<open>The cache commands\<close>

definition CACHE_COUNTERS :: "string list" where
  "CACHE_COUNTERS = [''entries'', ''bytes_used'', ''byte_budget'', ''hits'', ''exact_hits'', ''prefix_hits'', ''session_hits'', ''misses'',
     ''session_misses'', ''insertions'', ''session_insertions'', ''session_entries'', ''cow_clones'', ''evictions'',
     ''restore_failures'', ''store_failures'', ''saved_prefill_tokens'']"

definition non_negative_val :: "pyval \<Rightarrow> bool" where
  "non_negative_val v \<longleftrightarrow> (case v of PInt i \<Rightarrow> 0 \<le> i | _ \<Rightarrow> False)"

definition cache_stats_of :: "(string, pyval) odict \<Rightarrow> (string, pyval) odict option" where
  "cache_stats_of d =
     (if dict_item d ''type'' \<noteq> PStr ''cache_stats'' \<or> set (dict_keys d) \<noteq> {''protocol_version'', ''type'', ''command_id'', ''cache''} then None
      else (case dict_item d ''cache'' of
        PDict c \<Rightarrow>
          if set (dict_keys c) \<noteq> insert ''enabled'' (set CACHE_COUNTERS) then None
          else if (case dict_item c ''enabled'' of PBool _ \<Rightarrow> False | _ \<Rightarrow> True) \<or>
                  \<not> list_all (\<lambda>k. non_negative_val (dict_item c k)) CACHE_COUNTERS then None
          else Some c
      | _ \<Rightarrow> None))"

definition cache_cleared_of :: "(string, pyval) odict \<Rightarrow> int option" where
  "cache_cleared_of d =
     (if dict_item d ''type'' \<noteq> PStr ''cache_cleared'' \<or>
         set (dict_keys d) \<noteq> {''protocol_version'', ''type'', ''command_id'', ''removed_entries''} then None
      else (case dict_item d ''removed_entries'' of PInt i \<Rightarrow> if i < 0 then None else Some i | _ \<Rightarrow> None))"

definition plain_command ::
  "llama_config \<Rightarrow> (string \<Rightarrow> json_node option) \<Rightarrow> surroundings \<Rightarrow> llama_cmd \<Rightarrow> ((string, pyval) odict \<Rightarrow> 'a option) \<Rightarrow> llama_state \<Rightarrow>
   (llama_exc + 'a) \<times> llama_state" where
  "plain_command cfg decode env cmd parse s =
     (case llama_command cfg decode env cmd s of
        (Inl x, s1) \<Rightarrow> (Inl x, s1)
      | (Inr d, s1) \<Rightarrow>
          (case parse d of None \<Rightarrow> (Inl protocol_violation, protocol_failure env s1) | Some a \<Rightarrow> (Inr a, s1)))"

definition cache_stats :: "llama_config \<Rightarrow> (string \<Rightarrow> json_node option) \<Rightarrow> surroundings \<Rightarrow> llama_state \<Rightarrow>
    (llama_exc + (string, pyval) odict) \<times> llama_state" where
  "cache_stats cfg decode env = plain_command cfg decode env CacheStatsCmd cache_stats_of"

definition clear_cache :: "llama_config \<Rightarrow> (string \<Rightarrow> json_node option) \<Rightarrow> surroundings \<Rightarrow> llama_state \<Rightarrow> (llama_exc + int) \<times> llama_state" where
  "clear_cache cfg decode env = plain_command cfg decode env CacheClearCmd cache_cleared_of"

section \<open>Shutdown\<close>

text \<open>
  The exchange of the shutdown command. \<^const>\<open>None\<close> is the normal way on, which includes the errors that the
  code expects; \<^const>\<open>Some\<close> is an exception that the handler does not name.
\<close>

definition shutdown_exchange :: "(string \<Rightarrow> json_node option) \<Rightarrow> surroundings \<Rightarrow> llama_exc option" where
  "shutdown_exchange decode env =
     (case su_write env of
        WritePipeError \<Rightarrow> None
      | WriteValueError \<Rightarrow> Some (BackendPy (ValueError ''write''))
      | WriteOk \<Rightarrow>
          (case read_json decode (su_reply env) of
             Inl (BackendCommandError c) \<Rightarrow> None
           | Inl x \<Rightarrow> Some x
           | Inr (PDict _) \<Rightarrow> None
           | Inr _ \<Rightarrow> Some (BackendPy (AttributeErr ''get''))))"

definition llama_shutdown :: "(string \<Rightarrow> json_node option) \<Rightarrow> surroundings \<Rightarrow> llama_state \<Rightarrow> (llama_exc + unit) \<times> llama_state" where
  "llama_shutdown decode env s =
     (case ll_process s of
        None \<Rightarrow> (Inr (), (clear_tables s)\<lparr>ll_status := BackendStopped\<rparr>)
      | Some p \<Rightarrow>
          (let s1 = sent_to p ShutdownCmd (s\<lparr>ll_status := BackendDraining\<rparr>) in
           case shutdown_exchange decode env of
             Some x \<Rightarrow> (Inl x, s1)
           | None \<Rightarrow>
               (Inr (), (clear_tables (terminate_process env p s1))\<lparr>ll_process := None,
                  ll_status := (if su_killed env then BackendStopped else BackendDegraded)\<rparr>)))"

end
