(* ===== verification/LlamaMachine.thy ===== *)
theory LlamaMachine
  imports LlamaBackend
begin

text \<open>
  The adapter as a machine: the calls of \<open>adapters/llama_cpp.py\<close>, each with the surroundings it meets, the invariant that
  every call keeps, and the properties that rest on it. The calls of one run do not overlap: the scheduler makes those that
  concern sequences from its worker thread. Within a call the code releases the lock between its sections, so that another
  thread that asks for the cache statistics could restart the process in between; such runs are not covered.
\<close>

section \<open>Calls\<close>

datatype llama_call =
    CallStart
  | CallSupervisorState
  | CallOpen open_request
  | CallPrefill "SequenceStep list"
  | CallDecode "SequenceStep list"
  | CallRelease SequenceHandle
  | CallCacheStats
  | CallClearCache
  | CallShutdown

definition outcome_only :: "(llama_exc + 'a) \<times> llama_state \<Rightarrow> (llama_exc + unit) \<times> llama_state" where
  "outcome_only = (\<lambda>(r, t). (rbind r (\<lambda>_. Inr ()), t))"

fun run_call ::
  "llama_config \<Rightarrow> (string \<Rightarrow> json_node option) \<Rightarrow> surroundings \<Rightarrow> llama_call \<Rightarrow> llama_state \<Rightarrow> (llama_exc + unit) \<times> llama_state" where
  "run_call cfg decode env CallStart s = llama_start cfg decode env s"
| "run_call cfg decode env CallSupervisorState s = (Inr (), snd (supervisor_status (su_alive env) s))"
| "run_call cfg decode env (CallOpen q) s = outcome_only (open_sequence cfg decode env q s)"
| "run_call cfg decode env (CallPrefill steps) s = outcome_only (prefill_batch cfg decode env steps s)"
| "run_call cfg decode env (CallDecode steps) s = outcome_only (decode_batch cfg decode env steps s)"
| "run_call cfg decode env (CallRelease h) s = outcome_only (llama_release cfg decode env h s)"
| "run_call cfg decode env CallCacheStats s = outcome_only (cache_stats cfg decode env s)"
| "run_call cfg decode env CallClearCache s = outcome_only (clear_cache cfg decode env s)"
| "run_call cfg decode env CallShutdown s = llama_shutdown decode env s"

text \<open>The runtime counts generations in 64 bits from zero; the public handle has room for 32 of them.\<close>

fun small_native :: "llama_config \<Rightarrow> (string \<Rightarrow> json_node option) \<Rightarrow> surroundings \<Rightarrow> llama_call \<Rightarrow> llama_state \<Rightarrow> bool" where
  "small_native cfg decode env (CallOpen q) s =
     (case fst (open_exchange cfg decode env q s) of Inr opened \<Rightarrow> sh_generation (op_native opened) < 2 ^ 32 | Inl _ \<Rightarrow> True)"
| "small_native cfg decode env _ s = True"

inductive llama_step :: "llama_config \<Rightarrow> (string \<Rightarrow> json_node option) \<Rightarrow> llama_state \<Rightarrow> llama_state \<Rightarrow> bool"
  for cfg decode where
  llama_step: "small_native cfg decode env call s \<Longrightarrow> run_call cfg decode env call s = (r, t) \<Longrightarrow> llama_step cfg decode s t"

section \<open>The invariant\<close>

definition ids_of :: "nat \<Rightarrow> llama_state \<Rightarrow> int list" where
  "ids_of p s = map (fst \<circ> snd) (filter (\<lambda>x. fst x = p) (ll_sent s))"

definition tables_ok :: "llama_config \<Rightarrow> llama_state \<Rightarrow> bool" where
  "tables_ok cfg s \<longleftrightarrow>
     distinct (dict_keys (ll_active s)) \<and> distinct (dict_keys (ll_reserved s)) \<and> distinct (dict_keys (ll_released s)) \<and>
     set (dict_keys (ll_reserved s)) \<subseteq> set (dict_keys (ll_active s)) \<and>
     length (ll_released s) \<le> lc_released_capacity cfg \<and>
     (\<forall>h \<in> set (dict_keys (ll_active s)). sh_generation h div 2 ^ 32 = ll_generation s)"

definition log_ok :: "llama_state \<Rightarrow> bool" where
  "log_ok s \<longleftrightarrow>
     (\<forall>q \<in> fst ` set (ll_opened s) \<union> fst ` set (ll_sent s) \<union> set (ll_live s) \<union> set_option (ll_process s). q < ll_spawned s) \<and>
     (\<forall>q. \<exists>n. ids_of q s = [1..n]) \<and>
     (\<forall>(q, n, cmd) \<in> set (ll_sent s). \<forall>raw \<in> set (cmd_handles cmd). n = 1 \<or> (q, raw) \<in> set (ll_opened s))"

definition process_ok :: "llama_state \<Rightarrow> bool" where
  "process_ok s \<longleftrightarrow>
     (case ll_process s of
        None \<Rightarrow> ll_status s \<noteq> BackendReady
      | Some p \<Rightarrow> 0 \<le> ll_command_id s \<and> ids_of p s = [1..ll_command_id s] \<and>
          (\<forall>raw \<in> snd ` set (ll_active s). (p, raw) \<in> set (ll_opened s)))"

definition llama_inv :: "llama_config \<Rightarrow> llama_state \<Rightarrow> bool" where
  "llama_inv cfg s \<longleftrightarrow> tables_ok cfg s \<and> log_ok s \<and> process_ok s"

lemmas llama_inv_defs = llama_inv_def tables_ok_def log_ok_def process_ok_def

lemma new_llama_inv: "llama_inv cfg new_llama"
  by (auto simp: llama_inv_defs new_llama_def ids_of_def intro: exI [of _ 0])

section \<open>Every call keeps it\<close>

named_theorems llama_inv

lemma ids_of_update [simp]:
  "ids_of p (s\<lparr>ll_status := x\<rparr>) = ids_of p s" "ids_of p (s\<lparr>ll_process := y\<rparr>) = ids_of p s" "ids_of p (s\<lparr>ll_live := l\<rparr>) = ids_of p s"
  "ids_of p (s\<lparr>ll_active := a\<rparr>) = ids_of p s" "ids_of p (s\<lparr>ll_reserved := b\<rparr>) = ids_of p s" "ids_of p (s\<lparr>ll_released := c\<rparr>) = ids_of p s"
  "ids_of p (s\<lparr>ll_generation := g\<rparr>) = ids_of p s" "ids_of p (s\<lparr>ll_command_id := n\<rparr>) = ids_of p s"
  "ids_of p (s\<lparr>ll_spawned := m\<rparr>) = ids_of p s" "ids_of p (s\<lparr>ll_opened := os\<rparr>) = ids_of p s"
  by (simp_all add: ids_of_def)

lemma inv_status [llama_inv]: "llama_inv cfg s \<Longrightarrow> x \<noteq> BackendReady \<Longrightarrow> llama_inv cfg (s\<lparr>ll_status := x\<rparr>)"
  by (auto simp: llama_inv_defs split: option.splits)

lemma inv_live [llama_inv]: "llama_inv cfg s \<Longrightarrow> llama_inv cfg (s\<lparr>ll_live := removeAll p (ll_live s)\<rparr>)"
  by (auto simp: llama_inv_defs split: option.splits)

lemma inv_stopped [llama_inv]: "llama_inv cfg s \<Longrightarrow> x \<noteq> BackendReady \<Longrightarrow> llama_inv cfg (s\<lparr>ll_process := None, ll_status := x\<rparr>)"
  by (auto simp: llama_inv_defs split: option.splits)

lemma inv_clear [llama_inv]: "llama_inv cfg s \<Longrightarrow> llama_inv cfg (clear_tables s)"
  by (auto simp: llama_inv_defs clear_tables_def split: option.splits)

lemma inv_kill [llama_inv]: "llama_inv cfg s \<Longrightarrow> llama_inv cfg (terminate_process env p s)"
  by (simp add: terminate_process_def llama_inv)

lemma inv_reap [llama_inv]: "llama_inv cfg s \<Longrightarrow> llama_inv cfg (reap env s)"
  by (simp add: reap_def llama_inv split: option.splits)

lemma process_simps [simp]:
  "ll_process (terminate_process env p s) = ll_process s" "ll_process (clear_tables s) = ll_process s"
  by (simp_all add: terminate_process_def clear_tables_def)

lemma fail_process_eq:
  "fail_process env p s =
     (if ll_process s = Some p then clear_tables ((terminate_process env p s)\<lparr>ll_process := None, ll_status := BackendDegraded\<rparr>)
      else clear_tables ((terminate_process env p s)\<lparr>ll_status := BackendDegraded\<rparr>))"
  by (simp add: fail_process_def clear_tables_def terminate_process_def)

lemma inv_fail [llama_inv]: "llama_inv cfg s \<Longrightarrow> llama_inv cfg (fail_process env p s)"
  by (simp add: fail_process_eq llama_inv)

lemma inv_failure [llama_inv]: "llama_inv cfg s \<Longrightarrow> llama_inv cfg (protocol_failure env s)"
  by (simp add: protocol_failure_def llama_inv split: option.splits)

lemma ids_fresh: "log_ok s \<Longrightarrow> ids_of (ll_spawned s) s = []"
proof -
  assume "log_ok s"
  then have "fst x < ll_spawned s" if "x \<in> set (ll_sent s)" for x
    using that unfolding log_ok_def by (meson UnI1 UnI2 image_eqI)
  then have "\<forall>x \<in> set (ll_sent s). fst x \<noteq> ll_spawned s" by (metis less_irrefl)
  then show ?thesis by (simp add: ids_of_def filter_empty_conv)
qed

lemma reap_simps [simp]:
  "ll_spawned (reap env s) = ll_spawned s" "ll_sent (reap env s) = ll_sent s" "ll_opened (reap env s) = ll_opened s"
  "ll_generation (reap env s) = ll_generation s" "ids_of p (reap env s) = ids_of p s"
  by (simp_all add: reap_def split: option.splits)

lemma inv_spawn:
  assumes "llama_inv cfg s"
  shows "llama_inv cfg (s\<lparr>ll_status := BackendStarting, ll_spawned := Suc (ll_spawned s), ll_live := ll_live s @ [ll_spawned s]\<rparr>)"
  using assms by (auto simp: llama_inv_defs split: option.splits intro: less_SucI)

lemma inv_llama_started:
  assumes "llama_inv cfg s"
  shows "llama_inv cfg ((clear_tables (s\<lparr>ll_status := BackendStarting, ll_spawned := Suc (ll_spawned s), ll_live := ll_live s @ [ll_spawned s]\<rparr>))
    \<lparr>ll_process := Some (ll_spawned s), ll_generation := g, ll_command_id := 0, ll_status := BackendReady\<rparr>)"
proof -
  have "ids_of (ll_spawned s) s = []" using assms by (simp add: llama_inv_def ids_fresh)
  moreover have "tables_ok cfg s" "log_ok s" using assms by (simp_all add: llama_inv_def)
  ultimately show ?thesis
    by (auto simp: llama_inv_defs clear_tables_def intro: less_SucI)
qed

lemma inv_llama_start:
  assumes "llama_start cfg decode env s = (r, t)" and "llama_inv cfg s"
  shows "llama_inv cfg t"
proof -
  note spawn = inv_spawn [OF inv_reap [OF assms(2), of env], unfolded reap_simps]
  note started = inv_llama_started [OF inv_reap [OF assms(2), of env], unfolded reap_simps]
  show ?thesis
    using assms(1) assms(2) spawn started inv_stopped [OF inv_reap [OF assms(2)]]
    by (auto simp: llama_start_def Let_def split: if_splits sum.splits intro: inv_stopped inv_kill)
qed

lemma start_Inr:
  assumes "llama_start cfg decode env s = (Inr u, t)"
  shows "ll_status t = BackendReady \<and>
    (t = s \<and> ll_process s \<noteq> None \<and> su_alive env \<or>
     ll_process t = Some (ll_spawned s) \<and> ll_active t = [] \<and> ll_reserved t = [] \<and> ll_released t = [] \<and> ll_command_id t = 0 \<and>
     ll_generation t = ll_generation s + 1 \<and> ll_sent t = ll_sent s \<and> ll_spawned t = Suc (ll_spawned s))"
  using assms by (auto simp: llama_start_def Let_def clear_tables_def split: if_splits sum.splits)

lemma ids_of_sent: "ids_of q (sent_to p cmd s) = ids_of q s @ (if q = p then [ll_command_id s + 1] else [])"
  by (simp add: ids_of_def sent_to_def)

lemma upto_snoc: "0 \<le> n \<Longrightarrow> [1..n] @ [n + 1] = [1..n + (1::int)]"
  by (simp add: upto_rec2)

lemma active_opened:
  "llama_inv cfg s \<Longrightarrow> ll_process s = Some p \<Longrightarrow> raw \<in> snd ` set (ll_active s) \<Longrightarrow> (p, raw) \<in> set (ll_opened s)"
  by (auto simp: llama_inv_defs)

lemma inv_sent:
  assumes "llama_inv cfg s" and "ll_process s = Some p"
    and "\<forall>raw \<in> set (cmd_handles cmd). ll_command_id s = 0 \<or> (p, raw) \<in> set (ll_opened s)"
  shows "llama_inv cfg (sent_to p cmd s)"
proof -
  have ids: "0 \<le> ll_command_id s" "ids_of p s = [1..ll_command_id s]" using assms(1,2) by (auto simp: llama_inv_defs)
  then have new: "ids_of p (sent_to p cmd s) = [1..ll_command_id s + 1]" by (simp add: ids_of_sent upto_snoc)
  moreover have "\<exists>n. ids_of q (sent_to p cmd s) = [1..n]" for q
    using new assms(1) by (cases "q = p") (auto simp: ids_of_sent llama_inv_defs)
  ultimately have "log_ok (sent_to p cmd s)"
    using assms unfolding log_ok_def llama_inv_def process_ok_def by (auto simp: sent_to_def)
  moreover have "tables_ok cfg (sent_to p cmd s)" using assms(1) by (simp add: llama_inv_def tables_ok_def sent_to_def)
  moreover have "process_ok (sent_to p cmd s)"
    using new ids(1) active_opened [OF assms(1,2)] assms(2) unfolding process_ok_def by (simp add: sent_to_def)
  ultimately show ?thesis by (simp add: llama_inv_def)
qed

lemma inv_started_sent:
  assumes "llama_start cfg decode env s = (Inr u, t)" and "llama_inv cfg s"
    and "set (cmd_handles cmd) \<subseteq> snd ` set (ll_active s)"
  shows "llama_inv cfg (sent_to (the (ll_process t)) cmd t) \<and> ll_process t \<noteq> None"
proof -
  obtain p where p: "ll_process t = Some p" using start_Inr [OF assms(1)] by auto
  have "\<forall>raw \<in> set (cmd_handles cmd). ll_command_id t = 0 \<or> (p, raw) \<in> set (ll_opened t)"
    using start_Inr [OF assms(1)] assms(2,3) active_opened p by blast
  with inv_sent [OF inv_llama_start [OF assms(1,2)] p] p show ?thesis by simp
qed

lemma inv_command:
  assumes "llama_command cfg decode env cmd s = (r, t)" and "llama_inv cfg s" and "set (cmd_handles cmd) \<subseteq> snd ` set (ll_active s)"
  shows "llama_inv cfg t"
proof (cases "llama_start cfg decode env s")
  case (Pair r1 s1)
  show ?thesis
  proof (cases r1)
    case (Inl x)
    then show ?thesis using assms(1) inv_llama_start [OF Pair assms(2)] Pair by (simp add: llama_command_def)
  next
    case (Inr u)
    have "llama_inv cfg (sent_to (the (ll_process s1)) cmd s1)"
      using inv_started_sent [OF _ assms(2,3)] Pair Inr by blast
    with assms(1) Pair Inr show ?thesis
      by (auto simp: llama_command_def Let_def llama_inv split: if_splits sum.splits llama_exc.splits)
  qed
qed

lemma command_Inr:
  assumes "llama_command cfg decode env cmd s = (Inr d, t)"
  shows "\<exists>s1. llama_start cfg decode env s = (Inr (), s1) \<and> t = sent_to (the (ll_process s1)) cmd s1 \<and> ll_process t \<noteq> None"
proof (cases "llama_start cfg decode env s")
  case (Pair r1 s1)
  then obtain u where r1: "r1 = Inr u" using assms by (cases r1) (auto simp: llama_command_def)
  have "t = sent_to (the (ll_process s1)) cmd s1"
    using assms Pair r1 by (auto simp: llama_command_def Let_def split: if_splits sum.splits llama_exc.splits)
  moreover have "ll_process s1 \<noteq> None" using start_Inr Pair r1 by fastforce
  ultimately show ?thesis using Pair r1 by (simp add: sent_to_def)
qed

lemma inv_plain:
  assumes "plain_command cfg decode env cmd parse s = (r, t)" and "llama_inv cfg s" and "cmd_handles cmd = []"
  shows "llama_inv cfg t"
proof (cases "llama_command cfg decode env cmd s")
  case (Pair r1 s1)
  have "llama_inv cfg s1" using inv_command [OF Pair assms(2)] assms(3) by simp
  with assms(1) Pair show ?thesis by (auto simp: plain_command_def llama_inv split: sum.splits option.splits)
qed

lemma native_steps_active:
  assumes "native_steps steps s = Inr natives"
  shows "set (map fst natives) \<subseteq> snd ` set (ll_active s)" and "set (map st_handle steps) \<subseteq> set (dict_keys (ll_active s))"
proof -
  have "list_all2 (\<lambda>step n. dict_get (ll_active s) (st_handle step) = Some (fst n)) steps natives"
    using assms unfolding native_steps_def rmap_eq_Inr by (rule list_all2_mono) (auto split: option.splits)
  then show "set (map fst natives) \<subseteq> snd ` set (ll_active s)" "set (map st_handle steps) \<subseteq> set (dict_keys (ll_active s))"
  proof (induction rule: list_all2_induct)
    case (Cons step steps n natives)
    from map_of_SomeD [OF Cons(1)] have "(st_handle step, fst n) \<in> set (ll_active s)" .
    then have "fst n \<in> snd ` set (ll_active s)" "st_handle step \<in> set (dict_keys (ll_active s))"
      using imageI [of "(st_handle step, fst n)" "set (ll_active s)"] by (metis snd_conv, metis fst_conv set_map)
    with Cons.IH show "set (map fst (n # natives)) \<subseteq> snd ` set (ll_active s)"
      "set (map st_handle (step # steps)) \<subseteq> set (dict_keys (ll_active s))" by simp_all
  qed simp_all
qed

lemma inv_batch:
  assumes "run_batch cfg decode env per_step parse cmd type_name steps s = (r, t)" and "llama_inv cfg s"
    and "\<And>natives. cmd_handles (cmd natives) = map fst natives"
  shows "llama_inv cfg t"
proof (cases "rbind (batch_checks cfg per_step steps) (\<lambda>_. native_steps steps s)")
  case (Inl x)
  then show ?thesis using assms(1,2) by (simp add: run_batch_def)
next
  case (Inr natives)
  then have natives: "native_steps steps s = Inr natives" by simp
  show ?thesis
  proof (cases "llama_command cfg decode env (cmd natives) s")
    case (Pair r1 s1)
    have "llama_inv cfg s1"
      using inv_command [OF Pair assms(2)] native_steps_active(1) [OF natives] assms(3) by simp
    with assms(1) Pair Inr show ?thesis
      by (auto simp: run_batch_def llama_inv split: sum.splits if_splits)
  qed
qed

lemma remember_released:
  assumes "distinct (dict_keys d)"
  shows "distinct (dict_keys (remember_released n h raw d))" and "length (remember_released n h raw d) \<le> n"
proof -
  let ?e = "dict_pop h d @ [(h, raw)]"
  have e: "distinct (dict_keys ?e)"
    using assms od.distinct_pop [OF assms, of h] od.keys_pop [of h d] by auto
  have eq: "remember_released n h raw d = drop (length ?e - n) ?e" by (simp add: remember_released_def Let_def)
  show "distinct (dict_keys (remember_released n h raw d))" unfolding eq drop_map [symmetric] using e by (rule distinct_drop)
  show "length (remember_released n h raw d) \<le> n" unfolding eq by simp
qed

lemma inv_forget:
  assumes "llama_inv cfg s" and "rel = ll_released s \<or> rel = remember_released (lc_released_capacity cfg) h raw (ll_released s)"
  shows "llama_inv cfg (s\<lparr>ll_active := dict_pop h (ll_active s), ll_reserved := dict_pop h (ll_reserved s), ll_released := rel\<rparr>)"
proof -
  have T: "tables_ok cfg s" and "log_ok s" and P: "process_ok s" using assms(1) by (simp_all add: llama_inv_def)
  have rel: "distinct (dict_keys rel)" "length rel \<le> lc_released_capacity cfg"
  proof -
    have d: "distinct (dict_keys (ll_released s))" and l: "length (ll_released s) \<le> lc_released_capacity cfg"
      using T by (simp_all add: tables_ok_def)
    from assms(2) show "distinct (dict_keys rel)" using d remember_released(1) [OF d] by auto
    from assms(2) show "length rel \<le> lc_released_capacity cfg" using l remember_released(2) [OF d] by auto
  qed
  have sub: "set (dict_keys (dict_pop h (ll_reserved s))) \<subseteq> set (dict_keys (dict_pop h (ll_active s)))"
    using T unfolding od.keys_pop tables_ok_def by blast
  have gen: "\<forall>k \<in> set (dict_keys (dict_pop h (ll_active s))). sh_generation k div 2 ^ 32 = ll_generation s"
    using T unfolding od.keys_pop tables_ok_def by blast
  have "tables_ok cfg (s\<lparr>ll_active := dict_pop h (ll_active s), ll_reserved := dict_pop h (ll_reserved s), ll_released := rel\<rparr>)"
    using T rel(1,2) sub gen unfolding tables_ok_def by (simp add: od.distinct_pop del: set_map)
  moreover have "process_ok (s\<lparr>ll_active := dict_pop h (ll_active s), ll_reserved := dict_pop h (ll_reserved s), ll_released := rel\<rparr>)"
    using P unfolding process_ok_def by (auto simp: pop_filter split: option.splits)
  moreover have "log_ok (s\<lparr>ll_active := dict_pop h (ll_active s), ll_reserved := dict_pop h (ll_reserved s), ll_released := rel\<rparr>)"
    using \<open>log_ok s\<close> by (simp add: log_ok_def)
  ultimately show ?thesis by (simp add: llama_inv_def)
qed

lemma inv_release_commit:
  "llama_inv cfg s \<Longrightarrow> llama_inv cfg (release_commit cfg h native status s)"
  using inv_forget [of cfg s "ll_released s"] by (auto simp: release_commit_def Let_def intro: inv_forget)

lemma inv_release:
  assumes "llama_release cfg decode env h s = (r, t)" and "llama_inv cfg s"
  shows "llama_inv cfg t"
proof (cases "dict_get (ll_active s) h")
  case None
  then show ?thesis using assms by (simp add: llama_release_def)
next
  case (Some native)
  then have "native \<in> snd ` set (ll_active s)" using imageI [OF map_of_SomeD [OF Some], of snd] by simp
  then have s1: "llama_command cfg decode env (ReleaseCmd native) s = (r1, s1) \<Longrightarrow> llama_inv cfg s1" for r1 s1
    using inv_command [OF _ assms(2)] by simp
  show ?thesis
    using assms(1) Some s1
    by (auto simp: llama_release_def llama_inv inv_release_commit split: prod.splits sum.splits option.splits)
qed

lemma inv_opened:
  assumes "llama_inv cfg s" and "ll_process s = Some p"
  shows "llama_inv cfg (s\<lparr>ll_opened := ll_opened s @ [(p, raw)]\<rparr>)"
  using assms by (auto simp: llama_inv_defs)

lemma inv_exchange:
  assumes "open_exchange cfg decode env q s = (r, t)" and "llama_inv cfg s"
  shows "llama_inv cfg t" and "r = Inr opened \<Longrightarrow> \<exists>p. ll_process t = Some p \<and> (p, op_raw opened) \<in> set (ll_opened t)"
    and "r = Inr opened \<Longrightarrow> native_handle cfg (op_raw opened) = Some (op_native opened)"
proof -
  obtain r1 s1 where c: "llama_command cfg decode env (OpenCmd (oq_request_id q) (oq_attempt_id q) (open_envelope cfg q)) s = (r1, s1)"
    by (cases "llama_command cfg decode env (OpenCmd (oq_request_id q) (oq_attempt_id q) (open_envelope cfg q)) s")
  have s1: "llama_inv cfg s1" using inv_command [OF c assms(2)] by simp
  have p: "\<exists>p. ll_process s1 = Some p" if "r1 = Inr d" for d using command_Inr c that by blast
  show "llama_inv cfg t"
    using assms(1) c s1 p by (auto simp: open_exchange_def llama_inv split: sum.splits if_splits option.splits intro: inv_opened)
  show "r = Inr opened \<Longrightarrow> \<exists>p. ll_process t = Some p \<and> (p, op_raw opened) \<in> set (ll_opened t)"
    using assms(1) c p by (auto simp: open_exchange_def split: sum.splits if_splits option.splits)
  show "r = Inr opened \<Longrightarrow> native_handle cfg (op_raw opened) = Some (op_native opened)"
    using assms(1) c by (auto simp: open_exchange_def split: sum.splits if_splits option.splits)
qed

lemma handle_generation: "mk_SequenceHandle b m n g = Inr h \<Longrightarrow> 0 \<le> sh_generation h"
  by (auto simp: mk_SequenceHandle_def field_Inr)

lemma native_generation: "native_handle cfg v = Some h \<Longrightarrow> 0 \<le> sh_generation h"
  using handle_generation by (auto simp: native_handle_def split: pyval.splits if_splits sum.splits)

lemma public_generation:
  assumes "0 \<le> sh_generation h" and "sh_generation h < 2 ^ 32"
  shows "sh_generation (public_handle g h) div 2 ^ 32 = g"
proof -
  have "drop_bit 32 (sh_generation (public_handle g h)) = Bit_Operations.or (drop_bit 32 (push_bit 32 g)) (drop_bit 32 (sh_generation h))"
    unfolding drop_bit_or [symmetric] by (simp add: public_handle_def)
  also have "drop_bit 32 (sh_generation h) = 0" using assms by (simp add: drop_bit_eq_div)
  also have "drop_bit 32 (push_bit 32 g) = g" by (simp add: drop_bit_eq_div push_bit_eq_mult)
  finally show ?thesis by (simp add: drop_bit_eq_div)
qed

lemma inv_commit:
  assumes "open_commit cfg env opened s = (r, t)" and "llama_inv cfg s" and "ll_process s = Some p" and "(p, op_raw opened) \<in> set (ll_opened s)"
    and "0 \<le> sh_generation (op_native opened)" and "sh_generation (op_native opened) < 2 ^ 32"
  shows "llama_inv cfg t"
proof -
  define public where "public = public_handle (ll_generation s) (op_native opened)"
  have gen: "sh_generation public div 2 ^ 32 = ll_generation s" using public_generation assms(5,6) by (simp add: public_def)
  have T: "tables_ok cfg s" and L: "log_ok s" and P: "process_ok s" using assms(2) by (simp_all add: llama_inv_def)
  show ?thesis
  proof (cases "dict_get (ll_active s) public")
    case (Some x)
    then have "t = protocol_failure env s" using assms(1) by (simp add: open_commit_def public_def Let_def)
    then show ?thesis using assms(2) by (simp add: llama_inv)
  next
    case None
    let ?s1 = "s\<lparr>ll_active := dict_set public (op_raw opened) (ll_active s)\<rparr>"
    have tables: "tables_ok cfg (?s1\<lparr>ll_reserved := rs\<rparr>)" if "rs = ll_reserved s \<or> rs = dict_set public n (ll_reserved s)" for rs n
    proof -
      have "distinct (dict_keys rs)" "set (dict_keys rs) \<subseteq> set (dict_keys (dict_set public (op_raw opened) (ll_active s)))"
        using T that unfolding tables_ok_def od.keys_set by (auto simp: od.keys_set od.distinct_set simp del: set_map)
      moreover have "\<forall>k \<in> set (dict_keys (dict_set public (op_raw opened) (ll_active s))).
          sh_generation k div 2 ^ 32 = ll_generation s"
        using T gen unfolding tables_ok_def od.keys_set by blast
      ultimately show ?thesis using T unfolding tables_ok_def by (simp add: od.distinct_set del: set_map)
    qed
    have "process_ok (?s1\<lparr>ll_reserved := rs\<rparr>)" for rs
      using P assms(3,4) None unfolding process_ok_def by (simp add: set_new_append)
    moreover have "log_ok (?s1\<lparr>ll_reserved := rs\<rparr>)" for rs using L by (simp add: log_ok_def)
    ultimately have inv: "llama_inv cfg (?s1\<lparr>ll_reserved := rs\<rparr>)" if "rs = ll_reserved s \<or> rs = dict_set public n (ll_reserved s)" for rs n
      using tables [OF that] by (simp add: llama_inv_def)
    have "t = ?s1 \<or> (\<exists>n. t = ?s1\<lparr>ll_reserved := dict_set public n (ll_reserved s)\<rparr>)"
      using assms(1) None by (auto simp: open_commit_def public_def Let_def split: sum.splits)
    then show ?thesis
    proof
      assume "t = ?s1"
      then show ?thesis using inv [of "ll_reserved s"] by simp
    qed (use inv in blast)
  qed
qed

lemma inv_open:
  assumes "open_sequence cfg decode env q s = (r, t)" and "llama_inv cfg s" and "small_native cfg decode env (CallOpen q) s"
  shows "llama_inv cfg t"
proof (cases "open_exchange cfg decode env q s")
  case (Pair r1 s1)
  show ?thesis
  proof (cases r1)
    case (Inl x)
    then show ?thesis using assms(1) Pair inv_exchange(1) [OF Pair assms(2)] by (simp add: open_sequence_def)
  next
    case (Inr opened)
    note E = inv_exchange [OF Pair assms(2)]
    obtain p where p: "ll_process s1 = Some p" "(p, op_raw opened) \<in> set (ll_opened s1)" using E(2) [OF Inr] by blast
    have "open_commit cfg env opened s1 = (r, t)" using assms(1) Pair Inr by (simp add: open_sequence_def)
    then show ?thesis
      using inv_commit [OF _ E(1) p native_generation [OF E(3) [OF Inr]]] assms(3) Pair Inr by simp
  qed
qed

lemma inv_shutdown:
  assumes "llama_shutdown decode env s = (r, t)" and "llama_inv cfg s"
  shows "llama_inv cfg t"
proof (cases "ll_process s")
  case None
  then show ?thesis using assms by (auto simp: llama_shutdown_def intro!: inv_status inv_clear)
next
  case (Some p)
  define s1 where "s1 = sent_to p ShutdownCmd (s\<lparr>ll_status := BackendDraining\<rparr>)"
  have "llama_inv cfg s1" unfolding s1_def by (rule inv_sent) (use assms(2) Some in \<open>auto intro: inv_status\<close>)
  then show ?thesis
    using assms(1) Some by (auto simp: llama_shutdown_def Let_def s1_def [symmetric] split: option.splits if_splits intro!: inv_stopped inv_clear inv_kill)
qed

lemma inv_call:
  assumes "run_call cfg decode env call s = (r, t)" and "llama_inv cfg s" and "small_native cfg decode env call s"
  shows "llama_inv cfg t"
proof (cases call)
  case CallSupervisorState
  then show ?thesis using assms(1,2) by (auto simp: supervisor_status_def Let_def intro: inv_status)
qed (use assms in \<open>auto simp: outcome_only_def prefill_batch_def decode_batch_def cache_stats_def clear_cache_def
      split: prod.splits intro: inv_llama_start inv_open inv_batch inv_release inv_plain inv_shutdown\<close>)

lemma inv_llama_step: "llama_inv cfg s \<Longrightarrow> llama_step cfg decode s t \<Longrightarrow> llama_inv cfg t"
  by (auto elim!: llama_step.cases intro: inv_call)

interpretation llama_machine: invariant_system "\<lambda>s. s = new_llama" "llama_step cfg decode" "llama_inv cfg"
  by unfold_locales (auto intro: new_llama_inv inv_llama_step)

section \<open>Commands and handles\<close>

abbreviation llama_reach :: "llama_config \<Rightarrow> (string \<Rightarrow> json_node option) \<Rightarrow> llama_state \<Rightarrow> bool" where
  "llama_reach cfg decode \<equiv> reach (\<lambda>s. s = new_llama) (llama_step cfg decode)"


text \<open>The exception occurs: a release whose process has died starts another one and sends it the old handle.\<close>

lemma failure_sent [simp]: "ll_sent (protocol_failure env s) = ll_sent s"
  by (simp add: protocol_failure_def fail_process_eq clear_tables_def terminate_process_def split: option.splits)

lemma commit_sent [simp]: "ll_sent (release_commit cfg h native status s) = ll_sent s"
  by (simp add: release_commit_def Let_def split: option.splits)

lemma restart_carries_handle:
  assumes "dict_get (ll_active s) h = Some native" and "\<not> su_alive env" and "llama_start cfg decode env s = (Inr (), s1)"
  shows "(ll_spawned s, 1, ReleaseCmd native) \<in> set (ll_sent (snd (llama_release cfg decode env h s)))"
proof -
  have s1: "ll_process s1 = Some (ll_spawned s)" "ll_command_id s1 = 0" using start_Inr [OF assms(3)] assms(2) by auto
  obtain r t where c: "llama_command cfg decode env (ReleaseCmd native) s = (r, t)" by (cases "llama_command cfg decode env (ReleaseCmd native) s")
  have "ll_sent t = ll_sent (sent_to (ll_spawned s) (ReleaseCmd native) s1)"
    using c assms(3) s1 by (auto simp: llama_command_def Let_def split: if_splits sum.splits llama_exc.splits)
  then have "(ll_spawned s, 1, ReleaseCmd native) \<in> set (ll_sent t)" using s1 by (simp add: sent_to_def)
  then show ?thesis using assms(1) c by (auto simp: llama_release_def split: sum.splits option.splits)
qed

lemma stale_batch:
  assumes "h \<notin> set (dict_keys (ll_active t))" and "h \<in> st_handle ` set steps"
  shows "\<exists>x. run_batch cfg decode env per_step parse cmd type_name steps t = (Inl x, t)"
proof (cases "rbind (batch_checks cfg per_step steps) (\<lambda>_. native_steps steps t)")
  case (Inr natives)
  then have "native_steps steps t = Inr natives" by simp
  from native_steps_active(2) [OF this] assms show ?thesis by auto
qed (simp add: run_batch_def)


section \<open>Outcomes and errors\<close>

lemma batch_Inr:
  assumes "run_batch cfg decode env per_step parse cmd type_name steps s = (Inr outs, t)"
  shows "set (map st_handle steps) \<subseteq> set (dict_keys (ll_active s)) \<and> ll_process t \<noteq> None \<and>
    (\<exists>p n natives. ll_sent t = ll_sent s @ [(p, n, cmd natives)] \<and> ll_process t = Some p \<and> native_steps steps s = Inr natives) \<and>
    (\<exists>vs. list_all2 (\<lambda>(step, v) out. parse t (st_handle step) v = Inr out) (zip steps vs) outs \<and> length vs = length steps)"
proof -
  obtain natives where n: "rbind (batch_checks cfg per_step steps) (\<lambda>_. native_steps steps s) = Inr natives"
    using assms by (cases "rbind (batch_checks cfg per_step steps) (\<lambda>_. native_steps steps s)") (auto simp: run_batch_def)
  obtain r1 s1 where c: "llama_command cfg decode env (cmd natives) s = (r1, s1)" by (cases "llama_command cfg decode env (cmd natives) s")
  obtain d where d: "r1 = Inr d" "t = s1" "batch_response (parse s1) type_name steps d = Inr outs"
    using assms n c by (auto simp: run_batch_def split: sum.splits)
  from d(3) have "\<exists>vs. list_all2 (\<lambda>(step, v) out. parse t (st_handle step) v = Inr out) (zip steps vs) outs \<and> length vs = length steps"
    unfolding batch_response_def d(2)
    by (auto simp: rmap_eq_Inr case_prod_unfold split: if_splits pyval.splits)
  moreover obtain s0 where "llama_start cfg decode env s = (Inr (), s0)" "t = sent_to (the (ll_process s0)) (cmd natives) s0" "ll_process t \<noteq> None"
    using command_Inr c d by blast
  ultimately show ?thesis using native_steps_active(2) n start_Inr by (fastforce simp: sent_to_def)
qed

lemma native_prefill_sound: "native_prefill_outcome s h v = Inr out \<Longrightarrow> po_handle out = h \<and> prefill_wf out"
  by (auto simp: native_prefill_outcome_def mk_PrefillOutcome_Inr split: pyval.splits if_splits option.splits sum.splits)

lemma decode_build_sound: "decode_build h status d = Some out \<Longrightarrow> do_handle out = h \<and> decode_wf out"
  by (auto simp: decode_build_def Let_def dest: mk_DecodeOutcome_wf split: option.splits sum.splits if_splits)

lemma native_decode_sound: "native_decode_outcome s h v = Inr out \<Longrightarrow> do_handle out = h \<and> decode_wf out"
  by (auto simp: native_decode_outcome_def dest: decode_build_sound split: pyval.splits if_splits option.splits)

lemma parsed_outcomes:
  assumes "list_all2 (\<lambda>(step, v) out. parse (st_handle step) v = Inr out) (zip steps vs) outs" and "length vs = length steps"
    and "\<And>h v out. parse h v = Inr out \<Longrightarrow> handle_of out = h \<and> good out"
  shows "map handle_of outs = map st_handle steps \<and> list_all good outs"
  using assms(1,2)
proof (induction steps arbitrary: vs outs)
  case (Cons step steps)
  then obtain v vs' where "vs = v # vs'" by (cases vs) auto
  with Cons show ?case using assms(3) by (auto simp: list_all2_Cons1)
qed simp


definition idle :: "llama_state \<Rightarrow> bool" where
  "idle s \<longleftrightarrow> ll_process s = None \<and> ll_status s = BackendDegraded"

definition empty_tables :: "llama_state \<Rightarrow> bool" where
  "empty_tables s \<longleftrightarrow> ll_active s = [] \<and> ll_reserved s = [] \<and> ll_released s = []"

definition gone :: "surroundings \<Rightarrow> nat option \<Rightarrow> llama_state \<Rightarrow> bool" where
  "gone env p t \<longleftrightarrow> (\<forall>q. p = Some q \<and> su_killed env \<longrightarrow> q \<notin> set (ll_live t))"

lemma failed: "ll_process s \<noteq> None \<Longrightarrow>
    idle (protocol_failure env s) \<and> empty_tables (protocol_failure env s) \<and> gone env (ll_process s) (protocol_failure env s)"
  by (auto simp: protocol_failure_def fail_process_def idle_def empty_tables_def gone_def clear_tables_def terminate_process_def)

definition reset_by :: "llama_config \<Rightarrow> (string \<Rightarrow> json_node option) \<Rightarrow> surroundings \<Rightarrow> llama_state \<Rightarrow> llama_state \<Rightarrow> bool" where
  "reset_by cfg decode env s t \<longleftrightarrow> idle t \<and>
     (case llama_start cfg decode env s of (Inl _, u) \<Rightarrow> t = u | (Inr _, u) \<Rightarrow> empty_tables t \<and> gone env (ll_process u) t)"

lemma start_failed: "llama_start cfg decode env s = (Inl x, t) \<Longrightarrow> reset_by cfg decode env s t"
  by (auto simp: reset_by_def idle_def llama_start_def Let_def split: if_splits sum.splits)

lemma reset_failure:
  assumes "llama_start cfg decode env s = (Inr u, s1)" and "ll_process t = ll_process s1"
  shows "reset_by cfg decode env s (protocol_failure env t)"
proof -
  have "ll_process t \<noteq> None" using start_Inr [OF assms(1)] assms(2) by auto
  with failed [OF this, of env] assms show ?thesis by (simp add: reset_by_def)
qed

lemma command_fatal:
  assumes "llama_command cfg decode env cmd s = (Inl (BackendCommandError c), t)" and "c \<in> set fatal_codes"
  shows "reset_by cfg decode env s t"
proof (cases "llama_start cfg decode env s")
  case (Pair r1 s1)
  show ?thesis
  proof (cases r1)
    case (Inl x)
    then show ?thesis using assms(1) Pair start_failed by (auto simp: llama_command_def)
  next
    case (Inr u)
    then have "t = protocol_failure env (sent_to (the (ll_process s1)) cmd s1)"
      using assms Pair by (auto simp: llama_command_def Let_def fatal_codes_def split: if_splits sum.splits llama_exc.splits)
    then show ?thesis using reset_failure Pair Inr by (simp add: sent_to_def)
  qed
qed

lemma after_command:
  assumes "llama_command cfg decode env cmd s = (Inr d, s1)"
  shows "reset_by cfg decode env s (protocol_failure env s1)"
  using command_Inr [OF assms] reset_failure by (fastforce simp: sent_to_def)

lemma rmap_Inl: "rmap f xs = Inl e \<Longrightarrow> \<exists>x \<in> set xs. f x = Inl e"
  by (induction xs) (auto simp: rbind_def split: sum.splits)

lemma batch_response_errors:
  assumes "batch_response parse type_name steps d = Inl (BackendCommandError c)"
    and "\<And>h v x. parse h v = Inl (BackendCommandError x) \<Longrightarrow> x = ''protocol_violation''"
  shows "c = ''protocol_violation''"
proof (rule ccontr)
  assume "c \<noteq> ''protocol_violation''"
  then obtain vs where "rmap (\<lambda>(step, v). parse (st_handle step) v) (zip steps vs) = Inl (BackendCommandError c)"
    using assms(1) by (auto simp: batch_response_def split: if_splits pyval.splits)
  from rmap_Inl [OF this] assms(2) \<open>c \<noteq> ''protocol_violation''\<close> show False by auto
qed

lemma batch_fatal:
  assumes "run_batch cfg decode env per_step parse cmd type_name steps s = (Inl (BackendCommandError c), t)" and "c \<in> set fatal_codes"
    and "\<And>u h v x. parse u h v = Inl (BackendCommandError x) \<Longrightarrow> x = ''protocol_violation''"
  shows "reset_by cfg decode env s t"
proof (cases "rbind (batch_checks cfg per_step steps) (\<lambda>_. native_steps steps s)")
  case (Inl x)
  have "native_steps steps s \<noteq> Inl (BackendCommandError c)"
    using rmap_Inl assms(2) unfolding native_steps_def by (fastforce simp: fatal_codes_def split: option.splits)
  moreover have "batch_checks cfg per_step steps \<noteq> Inl (BackendCommandError c)"
    by (auto simp: batch_checks_def ensure_def split: sum.splits)
  ultimately show ?thesis using Inl assms(1) by (auto simp: run_batch_def rbind_def split: sum.splits)
next
  case (Inr natives)
  obtain r1 s1 where c: "llama_command cfg decode env (cmd natives) s = (r1, s1)" by (cases "llama_command cfg decode env (cmd natives) s")
  show ?thesis
  proof (cases r1)
    case (Inl x)
    then show ?thesis using assms(1,2) \<open>rbind _ _ = Inr natives\<close> c command_fatal by (auto simp: run_batch_def)
  next
    case (Inr d)
    have "batch_response (parse s1) type_name steps d = Inl (BackendCommandError c)"
      using assms(1) \<open>rbind _ _ = Inr natives\<close> c Inr by (auto simp: run_batch_def split: sum.splits)
    moreover from this have "c = ''protocol_violation''" by (rule batch_response_errors) (rule assms(3))
    ultimately have "t = protocol_failure env s1"
      using assms(1) \<open>rbind _ _ = Inr natives\<close> c Inr by (simp add: run_batch_def)
    then show ?thesis using after_command c Inr by blast
  qed
qed

lemma prefill_errors: "native_prefill_outcome u h v = Inl (BackendCommandError x) \<Longrightarrow> x = ''protocol_violation''"
  by (auto simp: native_prefill_outcome_def split: pyval.splits if_splits option.splits sum.splits)

lemma decode_errors: "native_decode_outcome u h v = Inl (BackendCommandError x) \<Longrightarrow> x = ''protocol_violation''"
  by (auto simp: native_decode_outcome_def split: pyval.splits if_splits option.splits)

lemma plain_fatal:
  assumes "plain_command cfg decode env cmd parse s = (Inl (BackendCommandError c), t)" and "c \<in> set fatal_codes"
  shows "reset_by cfg decode env s t"
proof (cases "llama_command cfg decode env cmd s")
  case (Pair r1 s1)
  then show ?thesis
    using assms command_fatal after_command by (auto simp: plain_command_def split: sum.splits option.splits)
qed

lemma release_fatal:
  assumes "llama_release cfg decode env h s = (Inl (BackendCommandError c), t)" and "c \<in> set fatal_codes"
  shows "reset_by cfg decode env s t"
proof -
  obtain native where n: "dict_get (ll_active s) h = Some native" using assms(1) by (auto simp: llama_release_def split: option.splits)
  obtain r1 s1 where "llama_command cfg decode env (ReleaseCmd native) s = (r1, s1)" by (cases "llama_command cfg decode env (ReleaseCmd native) s")
  then show ?thesis
    using assms n command_fatal after_command by (auto simp: llama_release_def split: sum.splits option.splits)
qed

lemma open_fatal:
  assumes "open_sequence cfg decode env q s = (Inl (BackendCommandError c), t)" and "c \<in> set fatal_codes"
  shows "reset_by cfg decode env s t"
proof -
  let ?cmd = "OpenCmd (oq_request_id q) (oq_attempt_id q) (open_envelope cfg q)"
  obtain r1 s1 where c: "llama_command cfg decode env ?cmd s = (r1, s1)" by (cases "llama_command cfg decode env ?cmd s")
  show ?thesis
  proof (cases r1)
    case (Inl x)
    then show ?thesis using assms c command_fatal by (auto simp: open_sequence_def open_exchange_def)
  next
    case (Inr d)
    have f: "reset_by cfg decode env s (protocol_failure env u)" if "ll_process u = ll_process s1" for u
    proof -
      obtain s0 where s0: "llama_start cfg decode env s = (Inr (), s0)" "s1 = sent_to (the (ll_process s0)) ?cmd s0"
        using command_Inr c Inr by blast
      have "ll_process u = ll_process s0" using that s0(2) by (simp add: sent_to_def)
      then show ?thesis by (rule reset_failure [OF s0(1)])
    qed
    have "\<exists>u. t = protocol_failure env u \<and> ll_process u = ll_process s1"
      using assms(1) c Inr
      by (auto simp: open_sequence_def open_exchange_def open_commit_def py_int_def Let_def
          split: if_splits option.splits sum.splits pyval.splits pyfloat.splits)
    then show ?thesis using f by blast
  qed
qed

text \<open>
  C30: What a fatal error leaves. A call that fails with \<open>worker_crashed\<close>, \<open>worker_timeout\<close> or \<open>protocol_violation\<close> leaves
  the adapter degraded and without a process. Unless it was the start that failed, no handle is kept, and the process that the call
  used does not run any more if the operating system could stop it.
\<close>

theorem fatal_errors_reset:
  assumes "run_call cfg decode env call s = (Inl (BackendCommandError c), t)" and "c \<in> set fatal_codes"
  shows "ll_process t = None \<and> ll_status t = BackendDegraded \<and>
    (case llama_start cfg decode env s of
       (Inl _, u) \<Rightarrow> t = u
     | (Inr _, u) \<Rightarrow> ll_active t = [] \<and> ll_reserved t = [] \<and> ll_released t = [] \<and>
         (\<forall>p. ll_process u = Some p \<and> su_killed env \<longrightarrow> p \<notin> set (ll_live t)))"
proof -
  have "reset_by cfg decode env s t"
  proof (cases call)
    case CallShutdown
    then show ?thesis using assms(1)
      by (auto simp: llama_shutdown_def shutdown_exchange_def Let_def split: option.splits write_outcome.splits sum.splits llama_exc.splits pyval.splits)
  qed (use assms in \<open>auto simp: outcome_only_def prefill_batch_def decode_batch_def cache_stats_def clear_cache_def rbind_def
        split: prod.splits sum.splits intro: start_failed open_fatal batch_fatal release_fatal plain_fatal
        dest: prefill_errors decode_errors\<close>)
  then show ?thesis unfolding reset_by_def idle_def empty_tables_def gone_def by (auto split: prod.splits sum.splits)
qed

section \<open>Shutdown\<close>

text \<open>
  C33: A shutdown that gives up. When the runtime answers the shutdown command with a line that is not valid JSON, the
  exception is one that \<open>shutdown\<close> does not expect: it escapes, the process is not terminated, and the adapter stays in
  \<open>DRAINING\<close>. The next command then starts a second process while the first still runs, and forgets the first.
\<close>

theorem shutdown_leaves_process:
  assumes "llama_reach cfg decode s" and "ll_process s = Some p" and "p \<in> set (ll_live s)"
    and "su_write env = WriteOk" and "su_reply env = ReadLine line" and "line \<noteq> []" and "strict_loads decode None (JsonText line) = Inl x"
    and "su_alive env'" and "su_spawns env'" and "rbind (read_json decode (su_ready env')) (verify_ready cfg) = Inr ()"
  shows "\<exists>t u q. llama_shutdown decode env s = (Inl (BackendWorker x), t) \<and> ll_process t = Some p \<and> ll_status t = BackendDraining \<and>
    llama_start cfg decode env' t = (Inr (), u) \<and> ll_process u = Some q \<and> q \<noteq> p \<and> {p, q} \<subseteq> set (ll_live u)"
proof -
  have "log_ok s" using llama_machine.inv_reach [OF assms(1)] by (simp add: llama_inv_def)
  then have "p \<noteq> ll_spawned s" using assms(3) unfolding log_ok_def by blast
  moreover have "llama_shutdown decode env s = (Inl (BackendWorker x), sent_to p ShutdownCmd (s\<lparr>ll_status := BackendDraining\<rparr>))"
    using assms(2,4-7) by (simp add: llama_shutdown_def shutdown_exchange_def read_json_def read_line_def Let_def)
  ultimately show ?thesis
    using assms(2,3,8-10) by (auto simp: llama_start_def sent_to_def clear_tables_def reap_def Let_def)
qed

section \<open>A concrete run\<close>

definition demo_llama :: llama_config where
  "demo_llama = \<lparr>lc_backend_id = ''b'', lc_model_id = ''m'', lc_model_digest = ''d'',
     lc_scheduler = \<lparr>rc_max_sequences = 2, rc_cpu_threads = 1, rc_kv_tokens = 8, rc_prefill_chunk_tokens = 1, rc_max_decode_batch = 2,
       rc_decode_quantum_tokens = 1, rc_tick_token_budget = 2\<rparr>,
     lc_cache = \<lparr>rk_enabled = True, rk_byte_budget = 1, rk_max_entries = 1, rk_ttl_seconds = 1\<rparr>,
     lc_capabilities = \<lparr>bc_backend = ''b'', bc_models = [''m''], bc_supports_full_request = False, bc_supports_sequence_steps = True,
       bc_supports_streaming = True, bc_supports_cancellation = True, bc_supports_chunked_prefill = True,
       bc_supports_decode_batching = True, bc_supports_continuous_batching = True, bc_supports_prefix_cache = True,
       bc_supports_session_cache = True, bc_supports_explicit_release = True, bc_max_context_tokens = 4, bc_max_output_tokens = 4,
       bc_max_concurrent_requests = 2, bc_max_concurrent_sequences = Some 2, bc_max_prefill_tokens_per_step = Some 1,
       bc_max_decode_tokens_per_step = Some 1, bc_max_sequences_per_step = Some 2\<rparr>,
     lc_released_capacity = 4, lc_gguf_sha256 = PStr ''g'', lc_executable_digest = ''x'', lc_runtime_digest = ''y'',
     lc_sha = (\<lambda>_. []), lc_int_of_str = (\<lambda>_. None), lc_str = (\<lambda>_. [])\<rparr>"

definition demo_native :: json_node where
  "demo_native = JObj [(''backend'', JStr ''b''), (''model'', JStr ''m''), (''sequence'', JStr ''s''), (''generation'', JInt 0)]"

definition demo_reply :: "string \<Rightarrow> int \<Rightarrow> (string \<times> json_node) list \<Rightarrow> json_node option" where
  "demo_reply t n extra =
     Some (JObj ([(''protocol_version'', JStr RUNTIME_IPC_VERSION), (''type'', JStr t), (''command_id'', JInt n)] @ extra))"

definition demo_lines :: "string \<Rightarrow> json_node option" where
  "demo_lines raw =
     (if raw = ''r'' then
        Some (JObj [(''protocol_version'', JStr RUNTIME_IPC_VERSION), (''type'', JStr ''ready''), (''sequence'', JInt 0),
          (''backend_id'', JStr ''b''), (''model_id'', JStr ''m''), (''model_manifest_digest'', JStr ''d''), (''max_sequences'', JInt 2),
          (''cpu_threads'', JInt 1), (''kv_tokens'', JInt 8), (''sequence_context_tokens'', JInt 4), (''prefill_chunk_tokens'', JInt 1),
          (''max_decode_batch'', JInt 2), (''decode_quantum_tokens'', JInt 1), (''tick_token_budget'', JInt 2),
          (''cache'', JObj [(''enabled'', JBool True), (''byte_budget'', JInt 1), (''max_entries'', JInt 1), (''ttl_seconds'', JInt 1)])])
      else if raw = ''o'' then
        demo_reply ''sequence_opened'' 1 [(''handle'', demo_native), (''prompt_tokens'', JInt 1), (''reserved_tokens'', JInt 4),
          (''cache_hit'', JBool False), (''cached_prompt_tokens'', JInt 0)]
      else if raw = ''p'' then
        demo_reply ''prefill_completed'' 2 [(''outcomes'', JArr [JObj [(''handle'', demo_native), (''status'', JStr ''ready''),
          (''processed_tokens'', JInt 1), (''remaining_tokens'', JInt 0)]])]
      else None)"

definition demo_env :: "bool \<Rightarrow> read_outcome \<Rightarrow> surroundings" where
  "demo_env alive reply = \<lparr>su_alive = alive, su_spawns = True, su_ready = ReadLine ''r'', su_write = WriteOk, su_reply = reply, su_killed = True\<rparr>"

definition demo_query :: open_request where
  "demo_query = \<lparr>oq_request_id = ''q'', oq_attempt_id = ''a'', oq_request = PNone, oq_grammar = PNone, oq_model_messages = [],
     oq_prompt_hash = [], oq_prompt_version = [], oq_cache_scope = PNone, oq_session_cache = PNone\<rparr>"

definition demo_public :: SequenceHandle where
  "demo_public = \<lparr>sh_backend = ''b'', sh_model = ''m'', sh_sequence = ''s'', sh_generation = 2 ^ 32\<rparr>"

definition demo_raw :: pyval where
  "demo_raw = PDict [(''backend'', PStr ''b''), (''model'', PStr ''m''), (''sequence'', PStr ''s''), (''generation'', PInt 0)]"

definition demo_run :: "bool \<Rightarrow> read_outcome \<Rightarrow> llama_call \<Rightarrow> llama_state \<Rightarrow> (llama_exc + unit) \<times> llama_state" where
  "demo_run alive reply = run_call demo_llama demo_lines (demo_env alive reply)"

definition demo_opened :: llama_state where
  "demo_opened = snd (demo_run True (ReadLine ''o'') (CallOpen demo_query) new_llama)"

lemma demo_opened_code [code]:
  "demo_opened = \<lparr>ll_process = Some 0, ll_command_id = 1, ll_generation = 1, ll_status = BackendReady, ll_active = [(demo_public, demo_raw)],
     ll_reserved = [(demo_public, 4)], ll_released = [], ll_spawned = 1, ll_live = [0],
     ll_sent = [(0, 1, OpenCmd ''q'' ''a'' (open_envelope demo_llama demo_query))], ll_opened = [(0, demo_raw)]\<rparr>"
  by code_simp

definition demo_steps :: "SequenceStep list" where
  "demo_steps = [\<lparr>st_handle = demo_public, st_token_budget = 1\<rparr>]"

definition demo_prefilled :: llama_state where
  "demo_prefilled = snd (demo_run True (ReadLine ''p'') (CallPrefill demo_steps) demo_opened)"

definition demo_restarted :: llama_state where
  "demo_restarted = snd (demo_run False ReadTimeout CallStart demo_opened)"

lemma demo_step:
  "small_native demo_llama demo_lines (demo_env alive reply) call s \<Longrightarrow>
     llama_step demo_llama demo_lines s (snd (demo_run alive reply call s))"
  by (rule llama_step [where r = "fst (demo_run alive reply call s)"]) (simp_all add: demo_run_def)

lemma demo_reach_step:
  "llama_reach demo_llama demo_lines s \<Longrightarrow> small_native demo_llama demo_lines (demo_env alive reply) call s \<Longrightarrow>
     llama_reach demo_llama demo_lines (snd (demo_run alive reply call s))"
  by (erule reach_step) (rule demo_step)

lemma demo_opened_reach: "llama_reach demo_llama demo_lines demo_opened"
proof -
  have "llama_reach demo_llama demo_lines new_llama" by (rule reach_init) simp
  moreover have "small_native demo_llama demo_lines (demo_env True (ReadLine ''o'')) (CallOpen demo_query) new_llama" by code_simp
  ultimately show ?thesis unfolding demo_opened_def by (rule demo_reach_step)
qed

lemma demo_prefilled_reach: "llama_reach demo_llama demo_lines demo_prefilled"
  unfolding demo_prefilled_def by (rule demo_reach_step [OF demo_opened_reach]) simp

lemma demo_restarted_steps: "(llama_step demo_llama demo_lines)\<^sup>*\<^sup>* demo_opened demo_restarted"
  unfolding demo_restarted_def by (rule r_into_rtranclp, rule demo_step) simp




theorem fatal_errors_reset_witness:
  "\<exists>t. demo_run True ReadTimeout (CallPrefill demo_steps) demo_opened = (Inl (BackendCommandError ''worker_timeout''), t) \<and>
    ll_process t = None \<and> ll_status t = BackendDegraded"
proof -
  have "fst (demo_run True ReadTimeout (CallPrefill demo_steps) demo_opened) = Inl (BackendCommandError ''worker_timeout'')" by code_simp
  then obtain t where *: "demo_run True ReadTimeout (CallPrefill demo_steps) demo_opened = (Inl (BackendCommandError ''worker_timeout''), t)"
    by (cases "demo_run True ReadTimeout (CallPrefill demo_steps) demo_opened") auto
  with fatal_errors_reset [OF * [unfolded demo_run_def]] show ?thesis by (simp add: fatal_codes_def)
qed

theorem shutdown_leaves_process_witness:
  "\<exists>x t u q. llama_shutdown demo_lines (demo_env True (ReadLine ''x'')) demo_opened = (Inl (BackendWorker x), t) \<and>
    ll_process t = Some 0 \<and> llama_start demo_llama demo_lines (demo_env True ReadTimeout) t = (Inr (), u) \<and> q \<noteq> 0 \<and> {0, q} \<subseteq> set (ll_live u)"
proof -
  have 1: "ll_process demo_opened = Some 0" "0 \<in> set (ll_live demo_opened)" by code_simp+
  have 2: "su_write (demo_env True (ReadLine ''x'')) = WriteOk" "su_reply (demo_env True (ReadLine ''x'')) = ReadLine ''x''" "''x'' \<noteq> []"
    by (simp_all add: demo_env_def)
  have 3: "strict_loads demo_lines None (JsonText ''x'') = Inl (mk_WorkerError ''invalid_request'' [])" by code_simp
  have 4: "su_alive (demo_env True ReadTimeout)" "su_spawns (demo_env True ReadTimeout)" by (simp_all add: demo_env_def)
  have 5: "rbind (read_json demo_lines (su_ready (demo_env True ReadTimeout))) (verify_ready demo_llama) = Inr ()" by code_simp
  from shutdown_leaves_process [OF demo_opened_reach 1 2 3 4 5] show ?thesis by blast
qed

end
