(* ===== verification/WorkerIPC.thy ===== *)
theory WorkerIPC
  imports Preflight EventBuffer
begin

text \<open>
  \<open>model_worker/ipc.py\<close>: the verifier of the frames a native worker sends for one request, and the
  regular language it accepts.
\<close>

section \<open>The frame verifier\<close>

definition FRAME_TYPES :: "string list" where
  "FRAME_TYPES = [''ready'', ''started'', ''phase'', ''final_delta'', ''heartbeat'', ''progress'', ''completed'', ''failed'']"

record FrameVerifier =
  fv_request_id :: string
  fv_attempt_id :: string
  fv_next_sequence :: int
  fv_started :: bool
  fv_final_phase :: bool
  fv_terminal :: bool

definition mk_FrameVerifier :: "string \<Rightarrow> string \<Rightarrow> FrameVerifier" where
  "mk_FrameVerifier request_id attempt_id =
     \<lparr>fv_request_id = request_id, fv_attempt_id = attempt_id, fv_next_sequence = 0, fv_started = False,
      fv_final_phase = False, fv_terminal = False\<rparr>"

abbreviation crashed :: "worker_exc" where
  "crashed \<equiv> mk_WorkerError ''worker_crashed'' []"

definition member_of :: "pyval \<Rightarrow> string list \<Rightarrow> worker_exc + bool" where
  "member_of v names =
     (if \<not> hashable v then Inl (WPy (TypeError ''unhashable type''))
      else Inr (case v of PStr s \<Rightarrow> s \<in> set names | _ \<Rightarrow> False))"

definition non_negative :: "pyval \<Rightarrow> bool" where
  "non_negative v \<longleftrightarrow> (case v of PInt i \<Rightarrow> 0 \<le> i | _ \<Rightarrow> False)"

definition is_text :: "pyval \<Rightarrow> bool" where
  "is_text v \<longleftrightarrow> (case v of PStr _ \<Rightarrow> True | _ \<Rightarrow> False)"

definition is_dict :: "pyval \<Rightarrow> bool" where
  "is_dict v \<longleftrightarrow> (case v of PDict _ \<Rightarrow> True | _ \<Rightarrow> False)"

text \<open>\<open>_verify_request_frame\<close>, on the type of a frame whose type is known.\<close>

definition verify_request_frame ::
  "string \<Rightarrow> (string, pyval) odict \<Rightarrow> FrameVerifier \<Rightarrow> worker_exc + FrameVerifier" where
  "verify_request_frame t frame s =
     (if t = ''ready'' then Inl crashed
      else if fv_terminal s then Inl crashed
      else if \<not> fv_started s then
        (if t \<noteq> ''started'' then Inl crashed else Inr (s\<lparr>fv_started := True\<rparr>))
      else if t = ''started'' then Inl crashed
      else if t = ''phase'' then
        (if dict_item frame ''phase'' \<noteq> PStr ''final'' \<or> fv_final_phase s then Inl crashed
         else Inr (s\<lparr>fv_final_phase := True\<rparr>))
      else if t = ''final_delta'' then
        (if \<not> fv_final_phase s \<or> \<not> is_text (dict_item frame ''delta'') \<or> dict_item frame ''delta'' = PStr [] then Inl crashed
         else Inr s)
      else if t = ''progress'' then
        rbind (member_of (dict_item frame ''phase'') [''prompt_decode'', ''reasoning'', ''final'']) (\<lambda>known.
          if \<not> known \<or> \<not> non_negative (dict_item frame ''tokens'') then Inl crashed else Inr s)
      else if t = ''heartbeat'' then
        (if \<not> non_negative (dict_item frame ''sampled_tokens'') then Inl crashed else Inr s)
      else if t = ''completed'' then
        (if \<not> is_text (dict_item frame ''final_text'') \<or> \<not> is_dict (dict_item frame ''usage'') \<or>
            \<not> is_dict (dict_item frame ''timing'') then Inl crashed
         else if \<not> fv_final_phase s then Inl crashed
         else Inr (s\<lparr>fv_terminal := True\<rparr>))
      else if t = ''failed'' then
        (if \<not> is_text (dict_item frame ''error'') \<or> \<not> is_text (dict_item frame ''detail'') then Inl crashed
         else Inr (s\<lparr>fv_terminal := True\<rparr>))
      else Inr s)"

definition verify_dict :: "(string, pyval) odict \<Rightarrow> FrameVerifier \<Rightarrow> worker_exc + FrameVerifier" where
  "verify_dict frame s =
     (if dict_item frame ''protocol_version'' \<noteq> PStr IPC_PROTOCOL_VERSION then Inl crashed
      else if dict_item frame ''request_id'' \<noteq> PStr (fv_request_id s) \<or>
              dict_item frame ''attempt_id'' \<noteq> PStr (fv_attempt_id s) then Inl crashed
      else if dict_item frame ''sequence'' \<noteq> PInt (fv_next_sequence s) then Inl crashed
      else
        rbind (member_of (dict_item frame ''type'') FRAME_TYPES) (\<lambda>known.
          case dict_item frame ''type'' of
            PStr t \<Rightarrow>
              if \<not> known then Inl crashed
              else rbind (verify_request_frame t frame s) (\<lambda>s1.
                Inr (s1\<lparr>fv_next_sequence := fv_next_sequence s1 + 1\<rparr>))
          | _ \<Rightarrow> Inl crashed))"

text \<open>\<open>verify\<close> of a line: the frame and the new state; a failure leaves the flags unchanged.\<close>

definition verify_line ::
  "(string \<Rightarrow> json_node option) \<Rightarrow> string \<Rightarrow> FrameVerifier \<Rightarrow> worker_exc + (string, pyval) odict \<times> FrameVerifier" where
  "verify_line decode raw s =
     (case strict_loads decode None (JsonText raw) of
        Inr (PDict frame) \<Rightarrow> rbind (verify_dict frame s) (\<lambda>s1. Inr (frame, s1))
      | _ \<Rightarrow> Inl crashed)"

definition frame_type_known :: "string \<Rightarrow> bool" where
  "frame_type_known t \<longleftrightarrow> t \<in> set FRAME_TYPES \<or> t \<in> {''generate'', ''cancel'', ''shutdown''}"

definition encode_frame ::
  "(pyval \<Rightarrow> string) \<Rightarrow> string \<Rightarrow> string \<Rightarrow> string \<Rightarrow> int \<Rightarrow> (string, pyval) odict \<Rightarrow> py_exc + string" where
  "encode_frame dumps t request_id attempt_id seq payload =
     (if \<not> frame_type_known t then Inl (ValueError ''unknown frame type'')
      else Inr (dumps (PDict (foldl (\<lambda>d kv. dict_set (fst kv) (snd kv) d)
        [(''protocol_version'', PStr IPC_PROTOCOL_VERSION), (''type'', PStr t), (''request_id'', PStr request_id),
         (''attempt_id'', PStr attempt_id), (''sequence'', PInt seq)] payload))))"

section \<open>The language of accepted streams\<close>

fun verify_all :: "(string, pyval) odict list \<Rightarrow> FrameVerifier \<Rightarrow> worker_exc + FrameVerifier" where
  "verify_all [] s = Inr s"
| "verify_all (f # fs) s = rbind (verify_dict f s) (verify_all fs)"

text \<open>The type of a frame, and what its payload must hold, apart from the order of frames.\<close>

definition frame_kind :: "(string, pyval) odict \<Rightarrow> string" where
  "frame_kind f = (case dict_item f ''type'' of PStr t \<Rightarrow> t | _ \<Rightarrow> [])"

definition payload_ok :: "(string, pyval) odict \<Rightarrow> bool" where
  "payload_ok f =
     (let t = frame_kind f in
      if t = ''started'' then True
      else if t = ''phase'' then dict_item f ''phase'' = PStr ''final''
      else if t = ''final_delta'' then is_text (dict_item f ''delta'') \<and> dict_item f ''delta'' \<noteq> PStr []
      else if t = ''progress'' then
        dict_item f ''phase'' \<in> {PStr ''prompt_decode'', PStr ''reasoning'', PStr ''final''} \<and> non_negative (dict_item f ''tokens'')
      else if t = ''heartbeat'' then non_negative (dict_item f ''sampled_tokens'')
      else if t = ''completed'' then
        is_text (dict_item f ''final_text'') \<and> is_dict (dict_item f ''usage'') \<and> is_dict (dict_item f ''timing'')
      else if t = ''failed'' then is_text (dict_item f ''error'') \<and> is_text (dict_item f ''detail'')
      else False)"

definition addressed :: "string \<Rightarrow> string \<Rightarrow> int \<Rightarrow> (string, pyval) odict \<Rightarrow> bool" where
  "addressed request_id attempt_id n f \<longleftrightarrow>
     dict_item f ''protocol_version'' = PStr IPC_PROTOCOL_VERSION \<and> dict_item f ''request_id'' = PStr request_id \<and>
     dict_item f ''attempt_id'' = PStr attempt_id \<and> dict_item f ''sequence'' = PInt n"

fun addressed_from :: "string \<Rightarrow> string \<Rightarrow> int \<Rightarrow> (string, pyval) odict list \<Rightarrow> bool" where
  "addressed_from r a n [] = True"
| "addressed_from r a n (f # fs) \<longleftrightarrow> addressed r a n f \<and> addressed_from r a (n + 1) fs"

abbreviation telemetry :: "string \<Rightarrow> bool" where
  "telemetry t \<equiv> t \<in> {''progress'', ''heartbeat''}"

text \<open>
  The order of frames as a regular language: \<open>started\<close>, telemetry, then either \<open>failed\<close> or the final
  phase, deltas and telemetry, and at last \<open>completed\<close> or \<open>failed\<close>; and every prefix of these.
\<close>

definition final_part :: "string list \<Rightarrow> bool" where
  "final_part ts \<longleftrightarrow> (\<exists>b e. ts = b @ e \<and> list_all (\<lambda>t. telemetry t \<or> t = ''final_delta'') b \<and>
     e \<in> {[], [''completed''], [''failed'']})"

definition reasoning_part :: "string list \<Rightarrow> bool" where
  "reasoning_part ts \<longleftrightarrow> (\<exists>a e. ts = a @ e \<and> list_all telemetry a \<and>
     (e \<in> {[], [''failed'']} \<or> (\<exists>b. e = ''phase'' # b \<and> final_part b)))"

definition stream_shape :: "string list \<Rightarrow> bool" where
  "stream_shape ts \<longleftrightarrow> ts = [] \<or> (\<exists>b. ts = ''started'' # b \<and> reasoning_part b)"

definition kind_ok :: "string \<Rightarrow> FrameVerifier \<Rightarrow> bool" where
  "kind_ok t s \<longleftrightarrow> \<not> fv_terminal s \<and>
     (if \<not> fv_started s then t = ''started''
      else t \<noteq> ''started'' \<and> (t = ''phase'' \<longrightarrow> \<not> fv_final_phase s) \<and> (t = ''final_delta'' \<longrightarrow> fv_final_phase s) \<and>
           (t = ''completed'' \<longrightarrow> fv_final_phase s))"

definition advance :: "string \<Rightarrow> FrameVerifier \<Rightarrow> FrameVerifier" where
  "advance t s = s\<lparr>fv_next_sequence := fv_next_sequence s + 1, fv_started := True,
     fv_final_phase := (fv_final_phase s \<or> t = ''phase''), fv_terminal := (t = ''completed'' \<or> t = ''failed'')\<rparr>"

lemma member_of_True: "member_of v ns = Inr True \<longleftrightarrow> v \<in> PStr ` set ns"
  by (cases v) (auto simp: member_of_def)

lemma member_of_PStr [simp]: "member_of (PStr t) ns = Inr (t \<in> set ns)"
  by (simp add: member_of_def)

definition valid_kinds :: "string list" where
  "valid_kinds = [''started'', ''phase'', ''final_delta'', ''progress'', ''heartbeat'', ''completed'', ''failed'']"

lemma payload_kind: "payload_ok f \<Longrightarrow> frame_kind f \<in> set valid_kinds"
  by (auto simp: payload_ok_def Let_def valid_kinds_def split: if_splits)

text \<open>
  Each kind of frame separately, on a state written out in its flags: a frame is accepted when its
  payload is right and its kind is due, and the state advances.
\<close>

definition accepts_kind :: "string \<Rightarrow> FrameVerifier \<Rightarrow> bool" where
  "accepts_kind t s \<longleftrightarrow> (\<forall>f s1. frame_kind f = t \<longrightarrow> (verify_request_frame t f s = Inr s1 \<longleftrightarrow>
     payload_ok f \<and> kind_ok t s \<and> s1 = advance t s\<lparr>fv_next_sequence := fv_next_sequence s\<rparr>))"

lemma accepts_started:
  assumes "fv_terminal s \<longrightarrow> fv_started s"
  shows "accepts_kind ''started'' s"
  using assms by (cases s) (auto simp: accepts_kind_def verify_request_frame_def kind_ok_def advance_def payload_ok_def)

lemma accepts_phase:
  assumes "fv_terminal s \<longrightarrow> fv_started s"
  shows "accepts_kind ''phase'' s"
  using assms by (cases s) (auto simp: accepts_kind_def verify_request_frame_def kind_ok_def advance_def payload_ok_def)

lemma accepts_final_delta:
  assumes "fv_terminal s \<longrightarrow> fv_started s"
  shows "accepts_kind ''final_delta'' s"
  using assms by (cases s) (auto simp: accepts_kind_def verify_request_frame_def kind_ok_def advance_def payload_ok_def)

lemma accepts_progress:
  assumes "fv_terminal s \<longrightarrow> fv_started s"
  shows "accepts_kind ''progress'' s"
  unfolding accepts_kind_def
proof (intro allI impI)
  fix f s1 assume kind: "frame_kind f = ''progress''"
  let ?m = "member_of (dict_item f ''phase'') [''prompt_decode'', ''reasoning'', ''final'']"
  have payload: "payload_ok f \<longleftrightarrow> ?m = Inr True \<and> non_negative (dict_item f ''tokens'')"
    unfolding member_of_True by (simp add: payload_ok_def kind)
  have call: "verify_request_frame ''progress'' f s = Inr s1 \<longleftrightarrow>
      kind_ok ''progress'' s \<and> ?m = Inr True \<and> non_negative (dict_item f ''tokens'') \<and> s1 = s"
    by (cases ?m) (auto simp: verify_request_frame_def kind_ok_def)
  have "kind_ok ''progress'' s \<Longrightarrow> advance ''progress'' s\<lparr>fv_next_sequence := fv_next_sequence s\<rparr> = s"
    by (cases s) (auto simp: kind_ok_def advance_def split: if_splits)
  with payload call show "verify_request_frame ''progress'' f s = Inr s1 \<longleftrightarrow>
      payload_ok f \<and> kind_ok ''progress'' s \<and> s1 = advance ''progress'' s\<lparr>fv_next_sequence := fv_next_sequence s\<rparr>"
    by auto
qed

lemma accepts_heartbeat:
  assumes "fv_terminal s \<longrightarrow> fv_started s"
  shows "accepts_kind ''heartbeat'' s"
  using assms by (cases s) (auto simp: accepts_kind_def verify_request_frame_def kind_ok_def advance_def payload_ok_def)

lemma accepts_completed:
  assumes "fv_terminal s \<longrightarrow> fv_started s"
  shows "accepts_kind ''completed'' s"
  using assms by (cases s) (auto simp: accepts_kind_def verify_request_frame_def kind_ok_def advance_def payload_ok_def)

lemma accepts_failed:
  assumes "fv_terminal s \<longrightarrow> fv_started s"
  shows "accepts_kind ''failed'' s"
  using assms by (cases s) (auto simp: accepts_kind_def verify_request_frame_def kind_ok_def advance_def payload_ok_def)

lemma request_frame_Inr:
  assumes "t \<in> set valid_kinds" and "frame_kind f = t" and "fv_terminal s \<longrightarrow> fv_started s"
  shows "verify_request_frame t f s = Inr s1 \<longleftrightarrow> payload_ok f \<and> kind_ok t s \<and>
    s1 = advance t s\<lparr>fv_next_sequence := fv_next_sequence s\<rparr>"
proof -
  have "accepts_kind t s"
    using assms(1) unfolding valid_kinds_def list.set
    by (elim insertE emptyE) (use assms(3) accepts_started accepts_phase accepts_final_delta accepts_progress
      accepts_heartbeat accepts_completed accepts_failed in \<open>simp_all\<close>)
  then show ?thesis using assms(2) by (simp add: accepts_kind_def)
qed

lemma verify_dict_Inr:
  assumes "fv_terminal s \<longrightarrow> fv_started s"
  shows "verify_dict f s = Inr s1 \<longleftrightarrow>
    addressed (fv_request_id s) (fv_attempt_id s) (fv_next_sequence s) f \<and> payload_ok f \<and>
    kind_ok (frame_kind f) s \<and> s1 = advance (frame_kind f) s"
proof (cases "\<exists>t. dict_item f ''type'' = PStr t")
  case True
  then obtain t where t: "dict_item f ''type'' = PStr t" ..
  then have k: "frame_kind f = t" by (simp add: frame_kind_def)
  have incr: "(advance t s\<lparr>fv_next_sequence := fv_next_sequence s\<rparr>)\<lparr>fv_next_sequence := fv_next_sequence s + 1\<rparr> = advance t s"
    by (simp add: advance_def)
  show ?thesis
  proof (cases "t \<in> set valid_kinds")
    case True
    then have "t \<in> set FRAME_TYPES" by (auto simp: valid_kinds_def FRAME_TYPES_def)
    then have call: "verify_dict f s = Inr s1 \<longleftrightarrow> addressed (fv_request_id s) (fv_attempt_id s) (fv_next_sequence s) f \<and>
        (\<exists>s2. verify_request_frame t f s = Inr s2 \<and> s1 = s2\<lparr>fv_next_sequence := fv_next_sequence s2 + 1\<rparr>)"
      by (auto simp: verify_dict_def addressed_def t)
    show ?thesis
      unfolding call request_frame_Inr [OF True k assms] k using incr by auto
  next
    case False
    then have "\<not> payload_ok f" using payload_kind [of f] k by auto
    moreover have "t \<notin> set FRAME_TYPES \<or> t = ''ready''" using False by (auto simp: valid_kinds_def FRAME_TYPES_def)
    then have "verify_dict f s \<noteq> Inr s1" by (auto simp: verify_dict_def t verify_request_frame_def)
    ultimately show ?thesis by simp
  qed
next
  case False
  then have "frame_kind f = []" by (auto simp: frame_kind_def split: pyval.split)
  then have "\<not> payload_ok f" using payload_kind [of f] by (auto simp: valid_kinds_def)
  moreover have "verify_dict f s \<noteq> Inr s1"
    using False by (auto simp: verify_dict_def split: pyval.splits)
  ultimately show ?thesis by simp
qed

definition due :: "FrameVerifier \<Rightarrow> string list \<Rightarrow> bool" where
  "due s ts \<longleftrightarrow>
     (if fv_terminal s then ts = []
      else if \<not> fv_started s then stream_shape ts
      else if \<not> fv_final_phase s then reasoning_part ts
      else final_part ts)"

lemma final_part_Nil: "final_part []" by (simp add: final_part_def)
lemma reasoning_part_Nil: "reasoning_part []" by (simp add: reasoning_part_def)

lemma split_Cons: "(\<exists>b e. t # ts = b @ e \<and> list_all P b \<and> E e) \<longleftrightarrow>
    P t \<and> (\<exists>b e. ts = b @ e \<and> list_all P b \<and> E e) \<or> E (t # ts)"
proof
  assume "\<exists>b e. t # ts = b @ e \<and> list_all P b \<and> E e"
  then obtain b e where *: "t # ts = b @ e" "list_all P b" "E e" by blast
  then show "P t \<and> (\<exists>b e. ts = b @ e \<and> list_all P b \<and> E e) \<or> E (t # ts)" by (cases b) auto
next
  assume "P t \<and> (\<exists>b e. ts = b @ e \<and> list_all P b \<and> E e) \<or> E (t # ts)"
  then show "\<exists>b e. t # ts = b @ e \<and> list_all P b \<and> E e"
  proof (elim disjE conjE exE)
    fix b e assume "P t" "ts = b @ e" "list_all P b" "E e"
    then have "t # ts = (t # b) @ e" "list_all P (t # b)" by simp_all
    with \<open>E e\<close> show ?thesis by blast
  next
    assume "E (t # ts)"
    moreover have "t # ts = [] @ (t # ts)" "list_all P []" by simp_all
    ultimately show ?thesis by blast
  qed
qed

lemma final_part_Cons: "final_part (t # ts) \<longleftrightarrow>
    (telemetry t \<or> t = ''final_delta'') \<and> final_part ts \<or> t = ''completed'' \<and> ts = [] \<or> t = ''failed'' \<and> ts = []"
  unfolding final_part_def split_Cons by simp

lemma reasoning_part_Cons: "reasoning_part (t # ts) \<longleftrightarrow>
    telemetry t \<and> reasoning_part ts \<or> t = ''failed'' \<and> ts = [] \<or> t = ''phase'' \<and> final_part ts"
  unfolding reasoning_part_def split_Cons by simp

lemma due_Cons:
  assumes "t \<in> set valid_kinds" and "fv_terminal s \<longrightarrow> fv_started s" and "fv_final_phase s \<longrightarrow> fv_started s"
  shows "due s (t # ts) \<longleftrightarrow> kind_ok t s \<and> due (advance t s) ts"
  using assms(1) unfolding valid_kinds_def list.set
  by (elim insertE emptyE)
    (use assms(2,3) in \<open>auto simp: due_def kind_ok_def advance_def stream_shape_def reasoning_part_Cons final_part_Cons\<close>)

lemma verify_all_due:
  assumes "fv_terminal s \<longrightarrow> fv_started s" and "fv_final_phase s \<longrightarrow> fv_started s"
  shows "(\<exists>s1. verify_all fs s = Inr s1) \<longleftrightarrow>
    addressed_from (fv_request_id s) (fv_attempt_id s) (fv_next_sequence s) fs \<and> list_all payload_ok fs \<and>
    due s (map frame_kind fs)"
  using assms
proof (induction fs arbitrary: s)
  case Nil
  then show ?case by (simp add: due_def stream_shape_def final_part_Nil reasoning_part_Nil)
next
  case (Cons f fs)
  let ?s = "advance (frame_kind f) s"
  have step: "(\<exists>s1. verify_all (f # fs) s = Inr s1) \<longleftrightarrow>
      (addressed (fv_request_id s) (fv_attempt_id s) (fv_next_sequence s) f \<and> payload_ok f \<and> kind_ok (frame_kind f) s) \<and>
      (\<exists>s1. verify_all fs ?s = Inr s1)"
    using verify_dict_Inr [OF Cons.prems(1), of f] by auto
  have ids: "fv_request_id ?s = fv_request_id s" "fv_attempt_id ?s = fv_attempt_id s"
    "fv_next_sequence ?s = fv_next_sequence s + 1" "fv_started ?s" by (simp_all add: advance_def)
  have "payload_ok f \<Longrightarrow> due s (frame_kind f # map frame_kind fs) \<longleftrightarrow> kind_ok (frame_kind f) s \<and> due ?s (map frame_kind fs)"
    by (rule due_Cons [OF payload_kind Cons.prems])
  with step Cons.IH [of ?s] ids show ?case by auto
qed

text \<open>
  C21: The verifier accepts exactly the protocol. A list of frames passes the stateful verifier
  precisely when every frame carries the version and the two ids, the frames are numbered from 0 without
  a gap, each payload is what its type requires, and the types form a word of the regular language:
  \<open>started\<close>, telemetry, then \<open>failed\<close> or the one switch to the final phase, deltas and telemetry and one
  terminal frame, with nothing after it.
\<close>

theorem frames_language:
  "(\<exists>s. verify_all frames (mk_FrameVerifier r a) = Inr s) \<longleftrightarrow>
    addressed_from r a 0 frames \<and> list_all payload_ok frames \<and> stream_shape (map frame_kind frames)"
  using verify_all_due [of "mk_FrameVerifier r a" frames] by (simp add: mk_FrameVerifier_def due_def)

end
