(* ===== verification/WorkerExecute.thy ===== *)
theory WorkerExecute
  imports WorkerIPC
begin

text \<open>
  The data plane of \<open>model_worker/worker_process.py\<close>: the loop of \<open>execute\<close>. One element of the input
  list is one turn of the loop, with what it observes: the cancel flag, the outcome of writes to the
  control pipe, the line read, and what follows a terminal frame. The clock readings that are only
  reported are one argument, \<open>elapsed\<close>, and the identity of the model is another.
\<close>

section \<open>The loop\<close>

datatype pipe_read = NoLine bool | Line string | PipeEnd

record turn =
  tn_cancelled :: bool
  tn_write_ok :: bool
  tn_read :: pipe_read
  tn_slow_write_ok :: bool
  tn_trailing :: pipe_read

record exec_state =
  xs_verifier :: FrameVerifier
  xs_cancel_sent :: bool
  xs_cancel_event :: bool
  xs_slow :: bool
  xs_deltas :: "string list"
  xs_sink :: "event_buffer option"

abbreviation worker_error :: "string \<Rightarrow> worker_exc" where
  "worker_error code \<equiv> mk_WorkerError code []"

definition send_cancel :: "bool \<Rightarrow> exec_state \<Rightarrow> worker_exc + exec_state" where
  "send_cancel write_ok s = (if write_ok then Inr (s\<lparr>xs_cancel_sent := True\<rparr>) else Inl crashed)"

text \<open>Publishing a frame; an invalid event counts as a crash of the worker.\<close>

definition publish_frame ::
  "(pyval \<Rightarrow> string) \<Rightarrow> (string, pyval) odict \<Rightarrow> exec_state \<Rightarrow> worker_exc + PublishResult \<times> exec_state" where
  "publish_frame dumps frame s =
     (case from_ipc_frame dumps (PDict frame) of
        Inl _ \<Rightarrow> Inl crashed
      | Inr event \<Rightarrow>
          (case xs_sink s of
             None \<Rightarrow> Inr (Enqueued, s)
           | Some b \<Rightarrow>
               (case publish_event event b of
                  (Inl _, b1) \<Rightarrow> Inl crashed
                | (Inr res, b1) \<Rightarrow> Inr (res, s\<lparr>xs_sink := Some b1\<rparr>))))"

definition note_delta :: "(string, pyval) odict \<Rightarrow> exec_state \<Rightarrow> exec_state" where
  "note_delta frame s = (if frame_kind frame = ''final_delta''
     then s\<lparr>xs_deltas := xs_deltas s @ [case dict_item frame ''delta'' of PStr d \<Rightarrow> d | _ \<Rightarrow> []]\<rparr> else s)"

definition observe_frame ::
  "(pyval \<Rightarrow> string) \<Rightarrow> bool \<Rightarrow> (string, pyval) odict \<Rightarrow> exec_state \<Rightarrow> worker_exc + exec_state" where
  "observe_frame dumps write_ok frame s =
     (let s1 = note_delta frame s in
      if event_type_of (dict_item frame ''type'') = None then Inr s1
      else rbind (publish_frame dumps frame s1) (\<lambda>(res, s2).
        if res = SlowConsumer \<and> \<not> xs_slow s2 then
          (let s3 = s2\<lparr>xs_slow := True, xs_cancel_event := True\<rparr> in
           if xs_cancel_sent s3 then Inr s3 else send_cancel write_ok s3)
        else Inr s2))"

definition reject_extra :: "pipe_read \<Rightarrow> worker_exc + unit" where
  "reject_extra extra = (case extra of Line _ \<Rightarrow> Inl crashed | _ \<Rightarrow> Inr ())"

definition dict_default :: "(string, pyval) odict \<Rightarrow> string \<Rightarrow> pyval \<Rightarrow> pyval" where
  "dict_default d k v = (case dict_get d k of None \<Rightarrow> v | Some x \<Rightarrow> x)"

definition as_odict :: "pyval \<Rightarrow> (string, pyval) odict" where
  "as_odict v = (case v of PDict d \<Rightarrow> d | _ \<Rightarrow> [])"

definition completed_result ::
  "(string \<Rightarrow> json_node option) \<Rightarrow> ContractAST \<Rightarrow> pyval \<Rightarrow> (string, pyval) odict \<Rightarrow> pipe_read \<Rightarrow>
   (string, pyval) odict \<Rightarrow> exec_state \<Rightarrow> worker_exc + GenerateResult" where
  "completed_result decode contract elapsed identity trailing frame s =
     rbind (reject_extra trailing) (\<lambda>_.
       let text = (case dict_item frame ''final_text'' of PStr x \<Rightarrow> x | _ \<Rightarrow> []) in
       if concat (xs_deltas s) \<noteq> text then Inl crashed
       else if xs_slow s then Inl (worker_error ''slow_consumer'')
       else (case strict_loads decode None (JsonText text) of
         Inl _ \<Rightarrow> Inl (worker_error ''output_invalid'')
       | Inr output \<Rightarrow>
           (let errors = validate_output output contract; timing = as_odict (dict_item frame ''timing'') in
            if errors \<noteq> [] then Inl (mk_WorkerError ''output_invalid'' errors)
            else Inr \<lparr>rs_request_id = fv_request_id (xs_verifier s), rs_attempt_id = fv_attempt_id (xs_verifier s),
              rs_termination = ''completed'', rs_protocol_valid = True, rs_output_valid = True, rs_output = output,
              rs_usage = as_odict (dict_item frame ''usage''),
              rs_timing = [(''queue_ms'', PInt 0), (''prompt_decode_ms'', dict_default timing ''prompt_decode_ms'' (PInt 0)),
                (''generation_ms'', dict_default timing ''generation_ms'' elapsed), (''total_ms'', elapsed)],
              rs_model = identity, rs_error = None\<rparr>)))"

definition failed_code :: "(string, pyval) odict \<Rightarrow> string" where
  "failed_code frame =
     (case dict_item frame ''error'' of
        PStr c \<Rightarrow> if c \<in> {''cancelled'', ''context_overflow'', ''protocol_violation'', ''decode_failed''} then c
                  else ''decode_failed''
      | _ \<Rightarrow> ''decode_failed'')"

definition failed_result :: "pipe_read \<Rightarrow> (string, pyval) odict \<Rightarrow> exec_state \<Rightarrow> worker_exc + GenerateResult" where
  "failed_result trailing frame s =
     rbind (reject_extra trailing) (\<lambda>_.
       if xs_slow s then Inl (worker_error ''slow_consumer'') else Inl (worker_error (failed_code frame)))"

text \<open>One turn: \<open>None\<close> goes on, \<open>Some\<close> leaves the loop.\<close>

definition exec_turn ::
  "(string \<Rightarrow> json_node option) \<Rightarrow> (pyval \<Rightarrow> string) \<Rightarrow> ContractAST \<Rightarrow> pyval \<Rightarrow> (string, pyval) odict \<Rightarrow>
   turn \<Rightarrow> exec_state \<Rightarrow> (worker_exc + GenerateResult) option \<times> exec_state" where
  "exec_turn decode dumps contract elapsed identity t s0 =
     (case (if (tn_cancelled t \<or> xs_cancel_event s0) \<and> \<not> xs_cancel_sent s0 then send_cancel (tn_write_ok t) s0 else Inr s0) of
        Inl err \<Rightarrow> (Some (Inl err), s0)
      | Inr s \<Rightarrow>
          (case tn_read t of
             NoLine gone \<Rightarrow> if gone then (Some (Inl crashed), s) else (None, s)
           | PipeEnd \<Rightarrow> (Some (Inl crashed), s)
           | Line raw \<Rightarrow>
               (case verify_line decode raw (xs_verifier s) of
                  Inl err \<Rightarrow> (Some (Inl err), s)
                | Inr (frame, v) \<Rightarrow>
                    (case observe_frame dumps (tn_slow_write_ok t) frame (s\<lparr>xs_verifier := v\<rparr>) of
                       Inl err \<Rightarrow> (Some (Inl err), s\<lparr>xs_verifier := v\<rparr>)
                     | Inr s1 \<Rightarrow>
                         if frame_kind frame = ''completed'' then
                           (Some (completed_result decode contract elapsed identity (tn_trailing t) frame s1), s1)
                         else if frame_kind frame = ''failed'' then
                           (Some (failed_result (tn_trailing t) frame s1), s1)
                         else (None, s1)))))"

fun exec_loop ::
  "(string \<Rightarrow> json_node option) \<Rightarrow> (pyval \<Rightarrow> string) \<Rightarrow> ContractAST \<Rightarrow> pyval \<Rightarrow> (string, pyval) odict \<Rightarrow>
   turn list \<Rightarrow> exec_state \<Rightarrow> (worker_exc + GenerateResult) option \<times> exec_state" where
  "exec_loop decode dumps contract elapsed identity [] s = (None, s)"
| "exec_loop decode dumps contract elapsed identity (t # ts) s =
     (case exec_turn decode dumps contract elapsed identity t s of
        (Some res, s1) \<Rightarrow> (Some res, s1)
      | (None, s1) \<Rightarrow> exec_loop decode dumps contract elapsed identity ts s1)"

definition exec_init :: "string \<Rightarrow> string \<Rightarrow> event_buffer option \<Rightarrow> exec_state" where
  "exec_init request_id attempt_id sink =
     \<lparr>xs_verifier = mk_FrameVerifier request_id attempt_id, xs_cancel_sent = False, xs_cancel_event = False, xs_slow = False,
      xs_deltas = [], xs_sink = sink\<rparr>"

text \<open>\<open>execute\<close> as a whole; \<open>started\<close> is the outcome of \<open>start()\<close>.\<close>

definition execute_request ::
  "(string \<Rightarrow> json_node option) \<Rightarrow> (pyval \<Rightarrow> string) \<Rightarrow> ContractAST \<Rightarrow> pyval \<Rightarrow> (string, pyval) odict \<Rightarrow> string \<Rightarrow> string \<Rightarrow>
   event_buffer option \<Rightarrow> bool \<Rightarrow> worker_exc + unit \<Rightarrow> bool \<Rightarrow> bool \<Rightarrow> bool \<Rightarrow> turn list \<Rightarrow>
   (worker_exc + GenerateResult) option" where
  "execute_request decode dumps contract elapsed identity request_id attempt_id sink
     cancelled_before started generate_ok cancelled_after cancel_ok turns =
     (if cancelled_before then Some (Inl (worker_error ''cancelled''))
      else case started of
        Inl err \<Rightarrow> Some (Inl err)
      | Inr _ \<Rightarrow>
          if \<not> generate_ok then Some (Inl crashed)
          else (case (if cancelled_after then send_cancel cancel_ok (exec_init request_id attempt_id sink)
                      else Inr (exec_init request_id attempt_id sink)) of
            Inl err \<Rightarrow> Some (Inl err)
          | Inr s \<Rightarrow> fst (exec_loop decode dumps contract elapsed identity turns s)))"

text \<open>The handler around the loop restarts the worker only for this error.\<close>

definition needs_recovery :: "worker_exc + GenerateResult \<Rightarrow> bool" where
  "needs_recovery r = (case r of Inl (WErr e) \<Rightarrow> we_code e = ''worker_crashed'' | _ \<Rightarrow> False)"

section \<open>What a completed result rests on\<close>

definition decode_frame :: "(string \<Rightarrow> json_node option) \<Rightarrow> string \<Rightarrow> (string, pyval) odict option" where
  "decode_frame decode raw = (case strict_loads decode None (JsonText raw) of Inr (PDict f) \<Rightarrow> Some f | _ \<Rightarrow> None)"

definition lines_read :: "turn list \<Rightarrow> string list" where
  "lines_read ts = List.map_filter (\<lambda>t. case tn_read t of Line raw \<Rightarrow> Some raw | _ \<Rightarrow> None) ts"

definition delta_text :: "(string, pyval) odict list \<Rightarrow> string" where
  "delta_text fs = concat (map (\<lambda>f. case dict_item f ''delta'' of PStr d \<Rightarrow> d | _ \<Rightarrow> []) (filter (\<lambda>f. frame_kind f = ''final_delta'') fs))"

lemma lines_read_Cons:
  "lines_read (t # ts) = (case tn_read t of Line raw \<Rightarrow> raw # lines_read ts | _ \<Rightarrow> lines_read ts)"
  by (simp add: lines_read_def map_filter_simps split: pipe_read.split)

lemma delta_text_simps:
  "delta_text [] = []"
  "delta_text (f # fs) = (if frame_kind f = ''final_delta'' then (case dict_item f ''delta'' of PStr d \<Rightarrow> d | _ \<Rightarrow> []) else []) @ delta_text fs"
  by (simp_all add: delta_text_def)

lemma send_cancel_keeps: "send_cancel ok s = Inr s1 \<Longrightarrow> xs_verifier s1 = xs_verifier s \<and> xs_deltas s1 = xs_deltas s"
  by (auto simp: send_cancel_def split: if_splits)

lemma publish_frame_keeps:
  "publish_frame dumps f s = Inr (res, s1) \<Longrightarrow> xs_verifier s1 = xs_verifier s \<and> xs_deltas s1 = xs_deltas s"
  by (auto simp: publish_frame_def split: sum.splits option.splits prod.splits)

lemma note_delta_keeps: "xs_verifier (note_delta f s) = xs_verifier s \<and> concat (xs_deltas (note_delta f s)) = concat (xs_deltas s) @ delta_text [f]"
  by (simp add: note_delta_def delta_text_simps)

lemma observe_frame_keeps:
  assumes "observe_frame dumps ok f s = Inr s1"
  shows "xs_verifier s1 = xs_verifier s \<and> concat (xs_deltas s1) = concat (xs_deltas s) @ delta_text [f]"
proof -
  have "xs_verifier s1 = xs_verifier (note_delta f s) \<and> xs_deltas s1 = xs_deltas (note_delta f s)"
  proof (cases "event_type_of (dict_item f ''type'') = None")
    case True
    then show ?thesis using assms by (simp add: observe_frame_def Let_def)
  next
    case False
    then obtain res s2 where p: "publish_frame dumps f (note_delta f s) = Inr (res, s2)"
      and r: "(if res = SlowConsumer \<and> \<not> xs_slow s2 then
          (let s3 = s2\<lparr>xs_slow := True, xs_cancel_event := True\<rparr> in
           if xs_cancel_sent s3 then Inr s3 else send_cancel ok s3)
        else Inr s2) = (Inr s1 :: worker_exc + exec_state)"
      using assms by (auto simp: observe_frame_def Let_def)
    have "xs_verifier s1 = xs_verifier s2 \<and> xs_deltas s1 = xs_deltas s2"
      using r by (auto simp: Let_def split: if_splits dest: send_cancel_keeps)
    then show ?thesis using publish_frame_keeps [OF p] by simp
  qed
  then show ?thesis using note_delta_keeps [of f s] by simp
qed

lemma verify_line_Inr: "verify_line decode raw s = Inr (f, s1) \<longleftrightarrow> decode_frame decode raw = Some f \<and> verify_dict f s = Inr s1"
  by (auto simp: verify_line_def decode_frame_def split: sum.splits pyval.splits)

text \<open>One turn either ends the loop or consumes at most one verified frame.\<close>

lemma exec_turn_None:
  assumes "exec_turn decode dumps contract elapsed identity t s = (None, s1)"
  shows "(xs_verifier s1 = xs_verifier s \<and> concat (xs_deltas s1) = concat (xs_deltas s) \<and> lines_read [t] = []) \<or>
    (\<exists>raw f. lines_read [t] = [raw] \<and> decode_frame decode raw = Some f \<and> verify_dict f (xs_verifier s) = Inr (xs_verifier s1) \<and>
      concat (xs_deltas s1) = concat (xs_deltas s) @ delta_text [f])"
  using assms
  by (auto simp: exec_turn_def lines_read_Cons lines_read_def verify_line_Inr dest!: send_cancel_keeps observe_frame_keeps
      split: sum.splits pipe_read.splits if_splits prod.splits)

lemma completed_result_Inr:
  assumes "completed_result decode contract elapsed identity trailing f s = Inr res"
  shows "\<exists>text. concat (xs_deltas s) = text \<and> (is_text (dict_item f ''final_text'') \<longrightarrow> dict_item f ''final_text'' = PStr text) \<and>
    \<not> xs_slow s \<and> strict_loads decode None (JsonText text) = Inr (rs_output res) \<and>
    validate_output (rs_output res) contract = [] \<and> rs_termination res = ''completed'' \<and> rs_protocol_valid res \<and> rs_output_valid res \<and>
    rs_request_id res = fv_request_id (xs_verifier s)"
  using assms
  by (auto simp: completed_result_def Let_def is_text_def split: sum.splits if_splits pyval.splits)

lemma exec_turn_Some:
  assumes "exec_turn decode dumps contract elapsed identity t s = (Some (Inr res), s1)"
  shows "\<exists>raw f. lines_read [t] = [raw] \<and> decode_frame decode raw = Some f \<and> verify_dict f (xs_verifier s) = Inr (xs_verifier s1) \<and>
      frame_kind f = ''completed'' \<and> concat (xs_deltas s1) = concat (xs_deltas s) @ delta_text [f] \<and>
      completed_result decode contract elapsed identity (tn_trailing t) f s1 = Inr res"
  using assms
  by (auto simp: exec_turn_def lines_read_Cons lines_read_def verify_line_Inr failed_result_def
      dest!: send_cancel_keeps observe_frame_keeps split: sum.splits pipe_read.splits if_splits prod.splits)

lemma verify_all_append: "verify_all (fs @ gs) s = rbind (verify_all fs s) (verify_all gs)"
proof (induction fs arbitrary: s)
  case (Cons f fs)
  then show ?case by (cases "verify_dict f s") simp_all
qed simp

lemma exec_loop_result:
  assumes "exec_loop decode dumps contract elapsed identity ts s = (Some (Inr res), s1)"
  shows "\<exists>raws fs f trailing. prefix raws (lines_read ts) \<and> map (decode_frame decode) raws = map Some (fs @ [f]) \<and>
    verify_all (fs @ [f]) (xs_verifier s) = Inr (xs_verifier s1) \<and> frame_kind f = ''completed'' \<and>
    concat (xs_deltas s1) = concat (xs_deltas s) @ delta_text (fs @ [f]) \<and>
    completed_result decode contract elapsed identity trailing f s1 = Inr res"
  using assms
proof (induction ts arbitrary: s)
  case Nil
  then show ?case by simp
next
  case (Cons t ts)
  show ?case
  proof (cases "fst (exec_turn decode dumps contract elapsed identity t s)")
    case (Some r)
    then have "exec_turn decode dumps contract elapsed identity t s = (Some (Inr res), s1)"
      using Cons.prems by (cases "exec_turn decode dumps contract elapsed identity t s") auto
    from exec_turn_Some [OF this] obtain raw f where *: "lines_read [t] = [raw]" "decode_frame decode raw = Some f"
      "verify_dict f (xs_verifier s) = Inr (xs_verifier s1)" "frame_kind f = ''completed''"
      "concat (xs_deltas s1) = concat (xs_deltas s) @ delta_text [f]"
      "completed_result decode contract elapsed identity (tn_trailing t) f s1 = Inr res" by blast
    have "prefix [raw] (lines_read (t # ts))" using *(1) by (simp add: lines_read_Cons lines_read_def split: pipe_read.splits)
    with * show ?thesis
      by (intro exI [of _ "[raw]"] exI [of _ "[]"] exI [of _ f] exI [of _ "tn_trailing t"]) simp
  next
    case None
    then obtain s2 where turn: "exec_turn decode dumps contract elapsed identity t s = (None, s2)"
      by (cases "exec_turn decode dumps contract elapsed identity t s") auto
    then have "exec_loop decode dumps contract elapsed identity ts s2 = (Some (Inr res), s1)" using Cons.prems by simp
    from Cons.IH [OF this] obtain raws fs f trailing where IH: "prefix raws (lines_read ts)"
      "map (decode_frame decode) raws = map Some (fs @ [f])" "verify_all (fs @ [f]) (xs_verifier s2) = Inr (xs_verifier s1)"
      "frame_kind f = ''completed''" "concat (xs_deltas s1) = concat (xs_deltas s2) @ delta_text (fs @ [f])"
      "completed_result decode contract elapsed identity trailing f s1 = Inr res" by blast
    from exec_turn_None [OF turn] show ?thesis
    proof (elim disjE exE conjE)
      assume "xs_verifier s2 = xs_verifier s" "concat (xs_deltas s2) = concat (xs_deltas s)" "lines_read [t] = []"
      moreover from this(3) have "lines_read (t # ts) = lines_read ts" by (simp add: lines_read_Cons lines_read_def split: pipe_read.splits)
      ultimately show ?thesis using IH by (intro exI [of _ raws] exI [of _ fs] exI [of _ f] exI [of _ trailing]) simp
    next
      fix raw g assume g: "lines_read [t] = [raw]" "decode_frame decode raw = Some g"
        "verify_dict g (xs_verifier s) = Inr (xs_verifier s2)" "concat (xs_deltas s2) = concat (xs_deltas s) @ delta_text [g]"
      then have "lines_read (t # ts) = raw # lines_read ts" by (simp add: lines_read_Cons lines_read_def split: pipe_read.splits)
      with g IH show ?thesis
        by (intro exI [of _ "raw # raws"] exI [of _ "g # fs"] exI [of _ f] exI [of _ trailing]) (simp add: delta_text_simps)
    qed
  qed
qed

text \<open>
  C8: A completed result is validated output. When \<open>execute\<close> returns a result, the lines it read
  from the worker are a complete stream of the protocol for this request, ending with \<open>completed\<close>; the
  final text is the concatenation of the deltas that were streamed; the result's output is that text
  parsed as strict JSON and it satisfies the request's contract; and the result can be serialized.
\<close>

theorem completed_output_valid:
  assumes "exec_loop decode dumps contract elapsed identity turns (exec_init r a sink) = (Some (Inr res), s)"
  shows "\<exists>raws frames. prefix raws (lines_read turns) \<and> map (decode_frame decode) raws = map Some frames \<and>
    frames \<noteq> [] \<and> frame_kind (last frames) = ''completed'' \<and>
    addressed_from r a 0 frames \<and> list_all payload_ok frames \<and> stream_shape (map frame_kind frames) \<and>
    dict_item (last frames) ''final_text'' = PStr (delta_text frames) \<and>
    strict_loads decode None (JsonText (delta_text frames)) = Inr (rs_output res) \<and>
    validate_output (rs_output res) contract = [] \<and> rs_request_id res = r \<and> (\<exists>d. result_dict res = Inr d)"
proof -
  let ?v = "mk_FrameVerifier r a"
  obtain raws fs f trailing where *: "prefix raws (lines_read turns)" "map (decode_frame decode) raws = map Some (fs @ [f])"
    "verify_all (fs @ [f]) ?v = Inr (xs_verifier s)" "frame_kind f = ''completed''"
    "concat (xs_deltas s) = delta_text (fs @ [f])" "completed_result decode contract elapsed identity trailing f s = Inr res"
    using exec_loop_result [OF assms] by (auto simp: exec_init_def)
  have lang: "addressed_from r a 0 (fs @ [f])" "list_all payload_ok (fs @ [f])" "stream_shape (map frame_kind (fs @ [f]))"
    using verify_all_due [of ?v "fs @ [f]"] *(3) by (simp_all add: mk_FrameVerifier_def due_def)
  have id: "fv_request_id v1 = fv_request_id v0" if "verify_all gs v0 = Inr v1" "fv_terminal v0 \<longrightarrow> fv_started v0" for gs v0 v1
    using that by (induction gs arbitrary: v0) (auto simp: verify_dict_Inr advance_def)
  have ftext: "is_text (dict_item f ''final_text'')" using lang(2) *(4) by (simp add: payload_ok_def Let_def)
  from completed_result_Inr [OF *(6)] have res: "dict_item f ''final_text'' = PStr (delta_text (fs @ [f]))"
    "strict_loads decode None (JsonText (delta_text (fs @ [f]))) = Inr (rs_output res)"
    "validate_output (rs_output res) contract = []" "rs_request_id res = fv_request_id (xs_verifier s)"
    "rs_protocol_valid res" "rs_output_valid res"
    using ftext *(5) by auto
  have "rs_request_id res = r" using res(4) id [OF *(3)] by (simp add: mk_FrameVerifier_def)
  moreover have "\<exists>d. result_dict res = Inr d" using res(5,6) by (simp add: result_dict_def)
  ultimately show ?thesis
    using *(1,2,4) lang res(1-3) by (intro exI [of _ raws] exI [of _ "fs @ [f]"]) simp
qed

section \<open>A concrete stream\<close>

definition demo_node :: "string \<Rightarrow> int \<Rightarrow> (string \<times> json_node) list \<Rightarrow> json_node" where
  "demo_node t n extra = JObj ([(''protocol_version'', JStr IPC_PROTOCOL_VERSION), (''type'', JStr t), (''request_id'', JStr ''r''),
     (''attempt_id'', JStr ''a''), (''sequence'', JInt n)] @ extra)"

definition demo_decode :: "string \<Rightarrow> json_node option" where
  "demo_decode raw =
     (if raw = ''0'' then Some (demo_node ''started'' 0 [])
      else if raw = ''1'' then Some (demo_node ''phase'' 1 [(''phase'', JStr ''final'')])
      else if raw = ''2'' then Some (demo_node ''final_delta'' 2 [(''delta'', JStr ''x'')])
      else if raw = ''3'' then Some (demo_node ''completed'' 3 [(''final_text'', JStr ''x''), (''usage'', JObj []), (''timing'', JObj [])])
      else if raw = ''x'' then Some (JObj [(''a'', JInt 1)])
      else None)"

definition demo_turn :: "string \<Rightarrow> turn" where
  "demo_turn raw = \<lparr>tn_cancelled = False, tn_write_ok = True, tn_read = Line raw, tn_slow_write_ok = True, tn_trailing = NoLine False\<rparr>"

definition demo_exec :: "(worker_exc + GenerateResult) option \<times> exec_state" where
  "demo_exec = exec_loop demo_decode (\<lambda>v. []) demo_contract (PInt 5) []
     (map demo_turn [''0'', ''1'', ''2'', ''3'']) (exec_init ''r'' ''a'' None)"

lemma demo_exec_ok: "case demo_exec of (Some (Inr res), s) \<Rightarrow> True | _ \<Rightarrow> False"
  by code_simp

theorem completed_output_valid_witness:
  "\<exists>res s. demo_exec = (Some (Inr res), s) \<and> validate_output (rs_output res) demo_contract = [] \<and> rs_request_id res = ''r''"
proof -
  obtain res s where *: "demo_exec = (Some (Inr res), s)"
    using demo_exec_ok by (auto split: prod.splits option.splits sum.splits)
  from completed_output_valid [OF * [unfolded demo_exec_def]] * show ?thesis by blast
qed

end
