(* ===== verification/WorkerSupervisor.thy ===== *)
theory WorkerSupervisor
  imports WorkerIPC
begin

text \<open>
  The control plane of \<open>model_worker/worker_process.py\<close>: starting, restarting and stopping the native
  worker. Every operation holds the supervisor's lock, except that \<open>shutdown\<close> releases it to join the
  reader thread, so it is two steps. Processes are numbered; \<open>sv_live\<close> is what \<open>poll()\<close> sees: the
  processes that have not exited. What the operating system does (the ready line, whether a killed
  process exits in time) is an argument.
\<close>

section \<open>State and operations\<close>

datatype SupervisorState = SupStarting | SupReady | SupDegraded | SupRestarting | SupDraining | SupStopped

record supervisor =
  sv_state :: SupervisorState
  sv_process :: "nat option"
  sv_generation :: int
  sv_model_loads :: int
  sv_frames :: bool
  sv_reader :: "(nat \<times> int) option"
  sv_live :: "nat list"
  sv_spawned :: "nat list"

definition mk_supervisor :: supervisor where
  "mk_supervisor = \<lparr>sv_state = SupStopped, sv_process = None, sv_generation = 0, sv_model_loads = 0, sv_frames = False,
     sv_reader = None, sv_live = [], sv_spawned = []\<rparr>"

datatype start_error = StartFailed worker_exc | StartOSError

datatype ready_read = ReadyTimeout | ReadyPipeFailed | ReadyLine string

datatype spawn = SpawnFailed | Spawned nat ready_read

definition process_alive :: "supervisor \<Rightarrow> bool" where
  "process_alive s \<longleftrightarrow> (case sv_process s of None \<Rightarrow> False | Some p \<Rightarrow> p \<in> set (sv_live s))"

text \<open>\<open>kill\<close> and \<open>terminate\<close> wait for the exit for a bounded time.\<close>

definition kill_process :: "nat \<Rightarrow> bool \<Rightarrow> supervisor \<Rightarrow> bool \<times> supervisor" where
  "kill_process p exits s =
     (if p \<notin> set (sv_live s) then (True, s)
      else if exits then (True, s\<lparr>sv_live := filter (\<lambda>q. q \<noteq> p) (sv_live s)\<rparr>)
      else (False, s))"

definition check_ready :: "(string \<Rightarrow> json_node option) \<Rightarrow> string \<Rightarrow> ready_read \<Rightarrow> start_error + unit" where
  "check_ready decode model_id r =
     (let refused = Inl (StartFailed (mk_WorkerError ''worker_not_ready'' [])) in
      case r of
        ReadyLine line \<Rightarrow>
          if line = [] then refused
          else (case strict_loads decode None (JsonText line) of
            Inl _ \<Rightarrow> refused
          | Inr (PDict d) \<Rightarrow>
              if dict_item d ''type'' \<noteq> PStr ''ready'' \<or> dict_item d ''protocol_version'' \<noteq> PStr IPC_PROTOCOL_VERSION \<or>
                 \<not> py_eq (dict_item d ''sequence'') (PInt 0) \<or> dict_item d ''model_id'' \<noteq> PStr model_id then refused
              else Inr ()
          | Inr _ \<Rightarrow> Inl (StartFailed (WPy (AttributeErr ''get''))))
      | _ \<Rightarrow> refused)"

definition start_locked ::
  "(string \<Rightarrow> json_node option) \<Rightarrow> string \<Rightarrow> SupervisorState \<Rightarrow> spawn \<Rightarrow> bool \<Rightarrow> supervisor \<Rightarrow>
   (start_error + unit) \<times> supervisor" where
  "start_locked decode model_id target sp exits s0 =
     (let s = s0\<lparr>sv_state := target\<rparr> in
      case sp of
        SpawnFailed \<Rightarrow> (Inl StartOSError, s\<lparr>sv_state := SupDegraded\<rparr>)
      | Spawned p r \<Rightarrow>
          (let s1 = s\<lparr>sv_process := Some p, sv_live := sv_live s @ [p], sv_spawned := sv_spawned s @ [p]\<rparr> in
           case check_ready decode model_id r of
             Inr _ \<Rightarrow>
               (Inr (), s1\<lparr>sv_generation := sv_generation s1 + 1, sv_model_loads := sv_model_loads s1 + 1, sv_frames := True,
                  sv_reader := Some (p, sv_generation s1 + 1), sv_state := SupReady\<rparr>)
           | Inl err \<Rightarrow>
               (Inl err, (snd (kill_process p exits (s1\<lparr>sv_state := SupDegraded\<rparr>)))\<lparr>sv_process := None\<rparr>)))"

definition sup_start ::
  "(string \<Rightarrow> json_node option) \<Rightarrow> string \<Rightarrow> spawn \<Rightarrow> bool \<Rightarrow> supervisor \<Rightarrow> (start_error + unit) \<times> supervisor" where
  "sup_start decode model_id sp exits s =
     (if process_alive s \<and> sv_state s = SupReady then (Inr (), s)
      else start_locked decode model_id SupStarting sp exits s)"

text \<open>The handlers catch worker errors and operating-system errors; another exception escapes.\<close>

definition restart_result :: "(start_error + unit) \<times> supervisor \<Rightarrow> (start_error + bool) \<times> supervisor" where
  "restart_result r =
     (case r of
        (Inr _, s) \<Rightarrow> (Inr True, s)
      | (Inl (StartFailed (WPy x)), s) \<Rightarrow> (Inl (StartFailed (WPy x)), s)
      | (Inl _, s) \<Rightarrow> (Inr False, s\<lparr>sv_state := SupDegraded\<rparr>))"

definition kill_and_restart ::
  "(string \<Rightarrow> json_node option) \<Rightarrow> string \<Rightarrow> bool \<Rightarrow> spawn \<Rightarrow> bool \<Rightarrow> supervisor \<Rightarrow> (start_error + bool) \<times> supervisor" where
  "kill_and_restart decode model_id exits1 sp exits2 s0 =
     (let s = s0\<lparr>sv_state := SupRestarting\<rparr> in
      case (case sv_process s of None \<Rightarrow> (True, s) | Some p \<Rightarrow> kill_process p exits1 s) of
        (False, s1) \<Rightarrow> (Inr False, s1\<lparr>sv_state := SupDegraded\<rparr>)
      | (True, s1) \<Rightarrow> restart_result (start_locked decode model_id SupRestarting sp exits2 (s1\<lparr>sv_process := None\<rparr>)))"

definition recover_protocol_failure ::
  "(string \<Rightarrow> json_node option) \<Rightarrow> string \<Rightarrow> nat \<Rightarrow> int \<Rightarrow> bool \<Rightarrow> spawn \<Rightarrow> bool \<Rightarrow> supervisor \<Rightarrow>
   (start_error + bool) \<times> supervisor" where
  "recover_protocol_failure decode model_id p generation exits1 sp exits2 s =
     (if sv_process s \<noteq> Some p \<or> sv_generation s \<noteq> generation then (Inr (sv_state s = SupReady), s)
      else kill_and_restart decode model_id exits1 sp exits2 s)"

text \<open>The end of the reader thread: a stale reader does not touch a newer generation.\<close>

definition reader_exit :: "nat \<Rightarrow> int \<Rightarrow> supervisor \<Rightarrow> supervisor" where
  "reader_exit p generation s =
     (if sv_process s = Some p \<and> sv_generation s = generation \<and> sv_state s = SupReady
      then s\<lparr>sv_state := SupDegraded\<rparr> else s)"

definition supervisor_state :: "supervisor \<Rightarrow> SupervisorState \<times> supervisor" where
  "supervisor_state s =
     (let s1 = (if sv_state s = SupReady \<and> \<not> process_alive s then s\<lparr>sv_state := SupDegraded\<rparr> else s) in
      (sv_state s1, s1))"

text \<open>
  \<open>shutdown\<close> up to the release of the lock: \<open>None\<close> when there is nothing to stop, else whether the
  process stopped. \<open>exits\<close> covers the cooperative exit within the grace period and the kill after it.
\<close>

definition shutdown_begin :: "bool \<Rightarrow> bool \<Rightarrow> supervisor \<Rightarrow> bool option \<times> supervisor" where
  "shutdown_begin reader_alive exits s0 =
     (if sv_state s0 = SupStopped \<and> sv_process s0 = None \<and> (sv_reader s0 = None \<or> \<not> reader_alive) then (None, s0)
      else
        (let s = s0\<lparr>sv_state := SupDraining\<rparr>;
             (stopped, s1) = (case sv_process s of None \<Rightarrow> (True, s) | Some p \<Rightarrow> kill_process p exits s) in
         (Some stopped, if stopped then s1\<lparr>sv_process := None, sv_frames := False\<rparr> else s1)))"

definition shutdown_end :: "bool \<Rightarrow> bool \<Rightarrow> supervisor \<Rightarrow> supervisor" where
  "shutdown_end stopped reader_stopped s =
     (if stopped \<and> reader_stopped then s\<lparr>sv_reader := None, sv_state := SupStopped\<rparr>
      else s\<lparr>sv_state := SupDegraded\<rparr>)"

section \<open>Runs\<close>

text \<open>
  A run of the supervisor in which the operating system is obliging: killed processes exit in time and
  a pipe is closed only by a process that has exited. The second component is the result of the first
  half of a shutdown whose second half is outstanding. \<open>racing\<close> allows other threads to start the
  worker between the two halves.
\<close>

type_synonym sup_run = "supervisor \<times> bool option"

definition fresh :: "spawn \<Rightarrow> supervisor \<Rightarrow> bool" where
  "fresh sp s \<longleftrightarrow> (case sp of SpawnFailed \<Rightarrow> True | Spawned p _ \<Rightarrow> p \<notin> set (sv_spawned s))"

inductive sup_step :: "(string \<Rightarrow> json_node option) \<Rightarrow> string \<Rightarrow> bool \<Rightarrow> sup_run \<Rightarrow> sup_run \<Rightarrow> bool"
  for decode :: "string \<Rightarrow> json_node option" and model_id :: string and racing :: bool where
  step_start: "fresh sp s \<Longrightarrow> racing \<or> sd = None \<Longrightarrow> sup_step decode model_id racing (s, sd) (snd (sup_start decode model_id sp True s), sd)"
| step_restart: "fresh sp s \<Longrightarrow> racing \<or> sd = None \<Longrightarrow>
    sup_step decode model_id racing (s, sd) (snd (kill_and_restart decode model_id True sp True s), sd)"
| step_recover: "fresh sp s \<Longrightarrow> racing \<or> sd = None \<Longrightarrow>
    sup_step decode model_id racing (s, sd) (snd (recover_protocol_failure decode model_id p g True sp True s), sd)"
| step_exit: "sup_step decode model_id racing (s, sd) (s\<lparr>sv_live := filter (\<lambda>q. q \<noteq> p) (sv_live s)\<rparr>, sd)"
| step_reader: "p \<notin> set (sv_live s) \<Longrightarrow> sup_step decode model_id racing (s, sd) (reader_exit p g s, sd)"
| step_poll: "sup_step decode model_id racing (s, sd) (snd (supervisor_state s), sd)"
| step_shutdown_begin: "shutdown_begin reader_alive True s = (Some stopped, s1) \<Longrightarrow> sd = None \<Longrightarrow>
    sup_step decode model_id racing (s, sd) (s1, Some stopped)"
| step_shutdown_end: "sup_step decode model_id racing (s, Some stopped) (shutdown_end stopped reader_stopped s, None)"

definition sup_init :: "sup_run \<Rightarrow> bool" where
  "sup_init r \<longleftrightarrow> r = (mk_supervisor, None)"

definition sup_inv :: "sup_run \<Rightarrow> bool" where
  "sup_inv r \<longleftrightarrow> (case r of (s, sd) \<Rightarrow>
     set (sv_live s) \<subseteq> set (sv_spawned s) \<and> distinct (sv_live s) \<and>
     (sv_live s \<noteq> [] \<longrightarrow> sv_state s = SupReady \<and> sd = None \<and> (\<exists>p. sv_process s = Some p \<and> sv_live s = [p])) \<and>
     (sv_state s = SupReady \<longrightarrow> (\<exists>p. sv_process s = Some p \<and> sv_reader s = Some (p, sv_generation s))) \<and>
     sv_generation s = sv_model_loads s)"

section \<open>One worker at a time\<close>

lemma start_locked_cases:
  assumes "start_locked decode model_id target sp True s = (r, t)" and "fresh sp s" and "sv_live s = []"
    and "set (sv_live s) \<subseteq> set (sv_spawned s)" and "sv_generation s = sv_model_loads s"
  shows "(r = Inr () \<and> sup_inv (t, None)) \<or> (sv_state t = SupDegraded \<and> sv_live t = [] \<and> sv_generation t = sv_model_loads t)"
  using assms
  by (cases sp) (auto simp: start_locked_def Let_def kill_process_def sup_inv_def split: sum.splits)

lemma idle_inv:
  "sv_live s = [] \<Longrightarrow> sv_state s \<noteq> SupReady \<Longrightarrow> sv_generation s = sv_model_loads s \<Longrightarrow> sup_inv (s, sd)"
  by (simp add: sup_inv_def)

lemma start_locked_inv:
  assumes "fresh sp s" and "sv_live s = []" and "sv_generation s = sv_model_loads s"
  shows "sup_inv (snd (start_locked decode model_id target sp True s), None)"
proof -
  obtain r t where t: "start_locked decode model_id target sp True s = (r, t)" by fastforce
  from start_locked_cases [OF t assms(1,2) _ assms(3)] assms(2) show ?thesis by (auto simp: t intro!: idle_inv)
qed

lemma restart_result_inv:
  assumes "fresh sp s" and "sv_live s = []" and "sv_generation s = sv_model_loads s"
  shows "sup_inv (snd (restart_result (start_locked decode model_id target sp True s)), None)"
proof -
  obtain r t where t: "start_locked decode model_id target sp True s = (r, t)" by fastforce
  from start_locked_cases [OF t assms(1,2) _ assms(3)] assms(2) show ?thesis
    by (auto simp: t restart_result_def intro!: idle_inv split: sum.splits start_error.splits worker_exc.splits)
qed

lemma sup_inv_live: "sup_inv (s, sd) \<Longrightarrow> sv_process s = Some p \<Longrightarrow> sv_live s = [] \<or> sv_live s = [p]"
  by (auto simp: sup_inv_def)

lemma restart_inv:
  assumes "sup_inv (s, None)" and "fresh sp s"
  shows "sup_inv (snd (kill_and_restart decode model_id True sp True s), None)"
proof -
  let ?s = "s\<lparr>sv_state := SupRestarting\<rparr>"
  obtain s1 where kill: "(case sv_process ?s of None \<Rightarrow> (True, ?s) | Some p \<Rightarrow> kill_process p True ?s) = (True, s1)"
    and s1: "sv_live s1 = []" "sv_generation s1 = sv_model_loads s1" "sv_spawned s1 = sv_spawned s"
    using assms(1) by (cases "sv_process s") (auto simp: kill_process_def sup_inv_def)
  have "fresh sp (s1\<lparr>sv_process := None\<rparr>)" using assms(2) s1(3) by (simp add: fresh_def split: spawn.splits)
  from restart_result_inv [OF this] s1 show ?thesis unfolding kill_and_restart_def Let_def kill by simp
qed

lemma sup_step_inv:
  assumes "sup_step decode model_id False r t" and "sup_inv r"
  shows "sup_inv t"
  using assms
proof (induction rule: sup_step.induct)
  case (step_start sp s sd)
  show ?case
  proof (cases "process_alive s \<and> sv_state s = SupReady")
    case False
    then have "sv_live s = []" using step_start by (auto simp: sup_inv_def process_alive_def)
    moreover have "sv_generation s = sv_model_loads s" using step_start(3) by (simp add: sup_inv_def)
    moreover have "sup_start decode model_id sp True s = start_locked decode model_id SupStarting sp True s"
      using False by (auto simp: sup_start_def)
    ultimately show ?thesis using start_locked_inv [OF step_start(1)] step_start(2) by simp
  qed (use step_start in \<open>simp add: sup_start_def\<close>)
next
  case (step_restart sp s sd)
  then show ?case using restart_inv by simp
next
  case (step_recover sp s sd p g)
  then show ?case using restart_inv by (simp add: recover_protocol_failure_def)
next
  case (step_exit s sd p)
  then show ?case by (auto simp: sup_inv_def)
next
  case (step_reader p s sd g)
  then show ?case by (auto simp: sup_inv_def reader_exit_def)
next
  case (step_poll s sd)
  then show ?case by (auto simp: sup_inv_def supervisor_state_def process_alive_def Let_def)
next
  case (step_shutdown_begin reader_alive s stopped s1 sd)
  have "sv_live s1 = [] \<and> sv_state s1 \<noteq> SupReady \<and> sv_generation s1 = sv_model_loads s1"
    using step_shutdown_begin(1,3)
    by (cases "sv_process s") (auto simp: shutdown_begin_def Let_def kill_process_def sup_inv_def split: if_splits)
  then show ?case by (simp add: idle_inv)
next
  case (step_shutdown_end s stopped reader_stopped)
  then show ?case by (auto simp: sup_inv_def shutdown_end_def)
qed

interpretation supervisor_machine: invariant_system sup_init "sup_step decode model_id False" sup_inv
proof unfold_locales
  show "sup_inv r" if "sup_init r" for r using that by (simp add: sup_init_def sup_inv_def mk_supervisor_def)
  show "sup_inv t" if "sup_inv r" "sup_step decode model_id False r t" for r t using sup_step_inv that by blast
qed


section \<open>Start during shutdown\<close>

definition demo_ready :: "string \<Rightarrow> json_node option" where
  "demo_ready line = Some (JObj [(''type'', JStr ''ready''), (''protocol_version'', JStr IPC_PROTOCOL_VERSION), (''sequence'', JInt 0),
     (''model_id'', JStr ''m'')])"

definition demo_started :: "nat \<Rightarrow> supervisor \<Rightarrow> supervisor" where
  "demo_started p s = snd (sup_start demo_ready ''m'' (Spawned p (ReadyLine ''x'')) True s)"

definition demo_stopping :: supervisor where
  "demo_stopping = snd (shutdown_begin True True (demo_started 0 mk_supervisor))"

definition demo_leaked :: supervisor where
  "demo_leaked = shutdown_end True True (demo_started 1 demo_stopping)"

lemma demo_states:
  "shutdown_begin True True (demo_started 0 mk_supervisor) = (Some True, demo_stopping)"
  "fresh (Spawned 0 (ReadyLine ''x'')) mk_supervisor" "fresh (Spawned 1 (ReadyLine ''x'')) demo_stopping"
  "fresh (Spawned 2 (ReadyLine ''x'')) demo_leaked"
  "sv_state demo_leaked = SupStopped" "sv_live demo_leaked = [1]" "sv_live (demo_started 2 demo_leaked) = [1, 2]"
  by code_simp+

lemma demo_start_step:
  "fresh (Spawned p (ReadyLine ''x'')) s \<Longrightarrow> sup_step demo_ready ''m'' True (s, sd) (demo_started p s, sd)"
  unfolding demo_started_def by (rule step_start) simp_all

lemma demo_leaked_reach: "reach sup_init (sup_step demo_ready ''m'' True) (demo_leaked, None)"
proof -
  let ?reach = "reach sup_init (sup_step demo_ready ''m'' True)"
  have "?reach (mk_supervisor, None)" by (rule reach_init) (simp add: sup_init_def)
  then have "?reach (demo_started 0 mk_supervisor, None)"
    by (rule reach_step) (rule demo_start_step, rule demo_states(2))
  then have "?reach (demo_stopping, Some True)"
    by (rule reach_step) (rule step_shutdown_begin, rule demo_states(1), simp)
  then have "?reach (demo_started 1 demo_stopping, Some True)"
    by (rule reach_step) (rule demo_start_step, rule demo_states(3))
  then show ?thesis unfolding demo_leaked_def by (rule reach_step) (rule step_shutdown_end)
qed

text \<open>
  C40: A start that races a shutdown leaks the worker. \<open>shutdown\<close> releases the lock to join the reader
  and then sets the state without looking at the process again. A request thread that starts the worker
  in between leaves a supervisor that is stopped while its process runs, and the next start runs a
  second process beside it, although every kill succeeds.
\<close>

theorem shutdown_race_leaks:
  "\<exists>s t. reach sup_init (sup_step demo_ready ''m'' True) (s, None) \<and> sv_state s = SupStopped \<and> sv_live s \<noteq> [] \<and>
    sup_step demo_ready ''m'' True (s, None) (t, None) \<and> length (sv_live t) = 2"
  using demo_leaked_reach demo_states demo_start_step [of 2 demo_leaked None]
  by (intro exI [of _ demo_leaked] exI [of _ "demo_started 2 demo_leaked"]) simp


end
