(* ===== verification/Dispatcher.thy ===== *)
theory Dispatcher
  imports RequestRegistry StructuredOutput "HOL-Library.Sublist"
begin

text \<open>
  \<open>model_worker/dispatcher.py\<close>: the bounded queue between the callers and the one native worker. Four
  kinds of threads share it: callers of \<open>submit\<close> and \<open>cancel\<close>, the dispatcher thread (\<open>_run\<close>), the expiry
  thread (\<open>_expire_queued\<close>) and the shutdown. Each definition below is the code between two points at
  which another thread can interfere; where a thread stands is its program counter. A record is named
  by its request id, uuids and clock readings are arguments, \<open>raises\<close> says which observers raise.
\<close>

section \<open>State\<close>

datatype 'r dvalue = DRequest 'r | DResult 'r | DCode string | DWorkerError WorkerError

datatype restart_state = NoRestart | RestartAlive | RestartDone bool

datatype 'r task = TaskAlive | TaskEnded "worker_exc + 'r"

text \<open>Where the dispatcher thread stands, and with which record.\<close>

datatype 'r run_pc =
    RunRestart
  | RunNext
  | RunStart string
  | RunExpire string
  | RunWatch string
  | RunCheck string
  | RunGrace string
  | RunDeadline string bool
  | RunSchedule string bool
  | RunFinish string Lifecycle "'r dvalue option" "'r dvalue option"
  | RunClose string
  | RunExit

datatype expiry_pc = ExpWait | ExpClose "string list" | ExpExit

datatype shutdown_pc =
    ShutIdle
  | ShutMark
  | ShutQueue
  | ShutSnapshot
  | ShutDrain "string list"
  | ShutSettle string "string list"
  | ShutBuffer string "string list"
  | ShutBackend

text \<open>
  \<open>dp_streams\<close> are the requests with an event buffer and \<open>dp_closed\<close> those whose buffer is closed;
  \<open>dp_callers\<close> are callers of \<open>cancel\<close> that still have to close the buffer of a record. \<open>dp_order\<close> and
  \<open>dp_begun\<close> record the order of submission and of execution.
\<close>

record 'r dispatcher =
  dp_registry :: "'r dvalue request_registry"
  dp_capacity :: int
  dp_pending :: "string list"
  dp_accepting :: bool
  dp_shutdown_started :: bool
  dp_dispatch_stopping :: bool
  dp_expiry_stopping :: bool
  dp_restart :: restart_state
  dp_streams :: "string list"
  dp_closed :: "string list"
  dp_tasks :: "(string, 'r task) odict"
  dp_run :: "'r run_pc"
  dp_expiry :: expiry_pc
  dp_shutdown :: shutdown_pc
  dp_callers :: "string list"
  dp_order :: "string list"
  dp_begun :: "string list"

definition mk_dispatcher :: "int \<Rightarrow> int \<Rightarrow> int \<Rightarrow> py_exc + 'r dispatcher" where
  "mk_dispatcher capacity max_events max_bytes =
     (if capacity \<le> 0 then Inl (ValueError ''capacity'')
      else if max_events \<le> 0 then Inl (ValueError ''event_buffer_max_events'')
      else if max_bytes \<le> 0 then Inl (ValueError ''event_buffer_max_bytes'')
      else Inr \<lparr>dp_registry = empty_registry, dp_capacity = capacity, dp_pending = [], dp_accepting = True,
        dp_shutdown_started = False, dp_dispatch_stopping = False, dp_expiry_stopping = False, dp_restart = NoRestart,
        dp_streams = [], dp_closed = [], dp_tasks = [], dp_run = RunRestart, dp_expiry = ExpWait, dp_shutdown = ShutIdle,
        dp_callers = [], dp_order = [], dp_begun = []\<rparr>)"

abbreviation clock_at :: "rat \<Rightarrow> pyval" where "clock_at t \<equiv> PFloat (Finite t)"

definition life :: "'v request_registry \<Rightarrow> string \<Rightarrow> Lifecycle option" where
  "life g k = map_option rc_lifecycle (dict_get (rg_objects g) k)"

definition ended :: "Lifecycle option \<Rightarrow> bool" where
  "ended l \<longleftrightarrow> (case l of None \<Rightarrow> False | Some x \<Rightarrow> terminal x)"

abbreviation lifecycle_of :: "string \<Rightarrow> 'r dispatcher \<Rightarrow> Lifecycle option" where
  "lifecycle_of k d \<equiv> life (dp_registry d) k"

abbreviation is_terminal :: "string \<Rightarrow> 'r dispatcher \<Rightarrow> bool" where
  "is_terminal k d \<equiv> ended (life (dp_registry d) k)"

text \<open>The registry calls of the dispatcher, on its own registry and clock.\<close>

definition cas ::
  "(observer \<Rightarrow> bool) \<Rightarrow> rat \<Rightarrow> string \<Rightarrow> Lifecycle \<Rightarrow> Lifecycle \<Rightarrow> bool option \<Rightarrow> 'r dvalue option \<Rightarrow> 'r dvalue option \<Rightarrow>
   'r dispatcher \<Rightarrow> bool \<times> 'r dispatcher" where
  "cas raises now k expected target guard result error d =
     (case compare_and_transition raises (clock_at now) k expected target guard result error (dp_registry d) of
        (res, obs, g) \<Rightarrow> (res = Inr True, d\<lparr>dp_registry := g\<rparr>))"

definition registry_cancel :: "(observer \<Rightarrow> bool) \<Rightarrow> rat \<Rightarrow> string \<Rightarrow> 'r dispatcher \<Rightarrow> bool \<times> 'r dispatcher" where
  "registry_cancel raises now k d =
     (case cancel_request raises (clock_at now) (DCode ''cancelled'') k (dp_registry d) of
        (res, obs, g) \<Rightarrow> (res = Inr True, d\<lparr>dp_registry := g\<rparr>))"

definition remove_pending :: "string \<Rightarrow> 'r dispatcher \<Rightarrow> 'r dispatcher" where
  "remove_pending k d = d\<lparr>dp_pending := remove1 k (dp_pending d)\<rparr>"

definition close_event_buffer :: "string \<Rightarrow> 'r dispatcher \<Rightarrow> 'r dispatcher" where
  "close_event_buffer k d = (if k \<in> set (dp_streams d) then d\<lparr>dp_closed := dp_closed d @ [k]\<rparr> else d)"

section \<open>Callers\<close>

text \<open>\<open>submit\<close> holds the admission and queue locks throughout; no other thread knows the new record yet.\<close>

definition submit ::
  "(observer \<Rightarrow> bool) \<Rightarrow> rat \<Rightarrow> string \<Rightarrow> string \<Rightarrow> 'r \<Rightarrow> int \<Rightarrow> int \<Rightarrow> bool \<Rightarrow> 'r dispatcher \<Rightarrow>
   (worker_exc + string) \<times> 'r dispatcher" where
  "submit raises now k attempt request queue_timeout_ms execution_timeout_ms stream d =
     (if \<not> dp_accepting d then (Inl (mk_WorkerError ''shutdown'' []), d)
      else if dp_capacity d \<le> int (length (dp_pending d)) then (Inl (mk_WorkerError ''queue_full'' []), d)
      else
        (let g1 = snd (create_record (clock_at now) k attempt (DRequest request) queue_timeout_ms execution_timeout_ms (dp_registry d));
             g2 = snd (snd (transition raises (clock_at now) k Preflighted None None g1));
             g3 = snd (snd (transition raises (clock_at now) k Queued None None g2)) in
         (Inr k, d\<lparr>dp_registry := g3, dp_streams := (if stream then dp_streams d @ [k] else dp_streams d),
                  dp_pending := dp_pending d @ [k], dp_order := dp_order d @ [k]\<rparr>)))"

text \<open>The locked section of \<open>cancel\<close>: whether it changed anything, and whether \<open>worker.cancel\<close> follows.\<close>

definition cancel_locked :: "(observer \<Rightarrow> bool) \<Rightarrow> rat \<Rightarrow> string \<Rightarrow> 'r dispatcher \<Rightarrow> (bool \<times> bool) \<times> 'r dispatcher" where
  "cancel_locked raises now k d =
     (case get_record k (dp_registry d) of
        None \<Rightarrow> ((False, False), d)
      | Some _ \<Rightarrow>
          (case registry_cancel raises now k d of
             (changed, d1) \<Rightarrow>
               (let queued = (lifecycle_of k d1 = Some Cancelled); running = (lifecycle_of k d1 = Some Running);
                    d2 = (if queued then remove_pending k d1 else d1) in
                if \<not> changed then ((False, False), d2)
                else ((True, running), if queued then d2\<lparr>dp_callers := dp_callers d2 @ [k]\<rparr> else d2))))"

definition cancel_close :: "string \<Rightarrow> 'r dispatcher \<Rightarrow> 'r dispatcher" where
  "cancel_close k d = (close_event_buffer k d)\<lparr>dp_callers := remove1 k (dp_callers d)\<rparr>"

section \<open>The expiry thread\<close>

definition deadline_of :: "'r dispatcher \<Rightarrow> string \<Rightarrow> rat" where
  "deadline_of d k = (case dict_get (rg_objects (dp_registry d)) k of None \<Rightarrow> 0 | Some r \<Rightarrow> rc_queue_deadline r)"

fun expire_all :: "(observer \<Rightarrow> bool) \<Rightarrow> rat \<Rightarrow> string list \<Rightarrow> 'r dispatcher \<Rightarrow> 'r dispatcher" where
  "expire_all raises now [] d = d"
| "expire_all raises now (k # ks) d =
     expire_all raises now ks
       (remove_pending k (snd (cas raises now k Queued TimedOut None None (Some (DCode ''queue_timeout'')) d)))"

definition expire_queued :: "(observer \<Rightarrow> bool) \<Rightarrow> rat \<Rightarrow> 'r dispatcher \<Rightarrow> 'r dispatcher" where
  "expire_queued raises now d =
     (if dp_expiry_stopping d then d\<lparr>dp_expiry := ExpExit\<rparr>
      else
        (let expired = filter (\<lambda>k. deadline_of d k \<le> now) (dp_pending d) in
         if expired = [] then d else (expire_all raises now expired d)\<lparr>dp_expiry := ExpClose expired\<rparr>))"

definition expire_close :: "string \<Rightarrow> string list \<Rightarrow> 'r dispatcher \<Rightarrow> 'r dispatcher" where
  "expire_close k ks d =
     (if is_terminal k d then close_event_buffer k d else d)\<lparr>dp_expiry := (if ks = [] then ExpWait else ExpClose ks)\<rparr>"

section \<open>The dispatcher thread\<close>

definition wait_for_restart :: "'r dispatcher \<Rightarrow> 'r dispatcher" where
  "wait_for_restart d =
     (if dp_dispatch_stopping d then d\<lparr>dp_run := RunExit\<rparr>
      else if dp_restart d = RestartAlive then d
      else d\<lparr>dp_run := RunNext\<rparr>)"

definition next_pending :: "'r dispatcher \<Rightarrow> 'r dispatcher" where
  "next_pending d =
     (if dp_dispatch_stopping d then d\<lparr>dp_run := RunExit\<rparr>
      else case dp_pending d of
        [] \<Rightarrow> d
      | k # ks \<Rightarrow> d\<lparr>dp_pending := ks, dp_run := RunStart k\<rparr>)"

definition run_start :: "(observer \<Rightarrow> bool) \<Rightarrow> rat \<Rightarrow> string \<Rightarrow> 'r dispatcher \<Rightarrow> 'r dispatcher" where
  "run_start raises now k d =
     (case cas raises now k Queued Running (Some (now < deadline_of d k)) None None d of
        (started, d1) \<Rightarrow>
          if started then d1\<lparr>dp_tasks := dict_set k TaskAlive (dp_tasks d1), dp_run := RunWatch k, dp_begun := dp_begun d1 @ [k]\<rparr>
          else d1\<lparr>dp_run := RunExpire k\<rparr>)"

definition run_expire :: "(observer \<Rightarrow> bool) \<Rightarrow> rat \<Rightarrow> string \<Rightarrow> 'r dispatcher \<Rightarrow> 'r dispatcher" where
  "run_expire raises now k d =
     (snd (cas raises now k Queued TimedOut None None (Some (DCode ''queue_timeout'')) d))\<lparr>dp_run := RunClose k\<rparr>"

definition task_alive :: "string \<Rightarrow> 'r dispatcher \<Rightarrow> bool" where
  "task_alive k d \<longleftrightarrow> dict_get (dp_tasks d) k = Some TaskAlive"

text \<open>The polling loop ends when the task ended, the deadline passed or the record is seen terminal.\<close>

definition run_watch :: "bool \<Rightarrow> string \<Rightarrow> 'r dispatcher \<Rightarrow> 'r dispatcher" where
  "run_watch deadline_passed k d =
     (if \<not> task_alive k d \<or> deadline_passed \<or> is_terminal k d then d\<lparr>dp_run := RunCheck k\<rparr> else d)"

definition set_cancel_event :: "string \<Rightarrow> 'r dispatcher \<Rightarrow> 'r dispatcher" where
  "set_cancel_event k d =
     (case dict_get (rg_objects (dp_registry d)) k of
        None \<Rightarrow> d
      | Some r \<Rightarrow> d\<lparr>dp_registry := set_record k (r\<lparr>rc_cancel_event := True\<rparr>) (dp_registry d)\<rparr>)"

definition cancel_event_set :: "string \<Rightarrow> 'r dispatcher \<Rightarrow> bool" where
  "cancel_event_set k d =
     (case dict_get (rg_objects (dp_registry d)) k of None \<Rightarrow> False | Some r \<Rightarrow> rc_cancel_event r)"

text \<open>What the end of a task means for its record: target lifecycle, result and error.\<close>

definition settle ::
  "worker_exc + 'r \<Rightarrow> bool \<Rightarrow> Lifecycle \<times> 'r dvalue option \<times> 'r dvalue option" where
  "settle outcome cancelled =
     (case outcome of
        Inl (WErr e) \<Rightarrow>
          if we_code e = ''slow_consumer'' then (Failed, None, Some (DWorkerError e))
          else if cancelled then (Cancelled, None, Some (DCode ''cancelled''))
          else (Failed, None, Some (DWorkerError e))
      | Inl (WPy _) \<Rightarrow>
          if cancelled then (Cancelled, None, Some (DCode ''cancelled''))
          else (Failed, None, Some (DCode ''worker_crashed''))
      | Inr v \<Rightarrow>
          if cancelled then (Cancelled, None, Some (DCode ''cancelled''))
          else (Completed, Some (DResult v), None))"

definition run_check :: "string \<Rightarrow> 'r dispatcher \<Rightarrow> 'r dispatcher" where
  "run_check k d =
     (if is_terminal k d then d\<lparr>dp_run := RunClose k\<rparr>
      else case dict_get (dp_tasks d) k of
        Some (TaskEnded outcome) \<Rightarrow>
          (case settle outcome (cancel_event_set k d) of (target, result, error) \<Rightarrow> d\<lparr>dp_run := RunFinish k target result error\<rparr>)
      | _ \<Rightarrow> (set_cancel_event k d)\<lparr>dp_run := RunGrace k\<rparr>)"

definition run_grace :: "bool \<Rightarrow> string \<Rightarrow> 'r dispatcher \<Rightarrow> 'r dispatcher" where
  "run_grace cancel_task_alive k d = d\<lparr>dp_run := RunDeadline k (task_alive k d \<or> cancel_task_alive)\<rparr>"

definition run_deadline :: "(observer \<Rightarrow> bool) \<Rightarrow> rat \<Rightarrow> string \<Rightarrow> bool \<Rightarrow> 'r dispatcher \<Rightarrow> 'r dispatcher" where
  "run_deadline raises now k restart d =
     (snd (cas raises now k Running TimedOut None None (Some (DCode ''deadline_exceeded'')) d))\<lparr>dp_run := RunSchedule k restart\<rparr>"

definition schedule_restart :: "'r dispatcher \<Rightarrow> 'r dispatcher" where
  "schedule_restart d =
     (if dp_shutdown_started d then d
      else if dp_restart d = RestartAlive then d
      else d\<lparr>dp_restart := RestartAlive\<rparr>)"

definition run_schedule :: "string \<Rightarrow> bool \<Rightarrow> 'r dispatcher \<Rightarrow> 'r dispatcher" where
  "run_schedule k restart d = (if restart then schedule_restart d else d)\<lparr>dp_run := RunClose k\<rparr>"

definition run_finish ::
  "(observer \<Rightarrow> bool) \<Rightarrow> rat \<Rightarrow> string \<Rightarrow> Lifecycle \<Rightarrow> 'r dvalue option \<Rightarrow> 'r dvalue option \<Rightarrow> 'r dispatcher \<Rightarrow> 'r dispatcher" where
  "run_finish raises now k target result error d =
     (snd (cas raises now k Running target None result error d))\<lparr>dp_run := RunClose k\<rparr>"

definition run_close :: "string \<Rightarrow> 'r dispatcher \<Rightarrow> 'r dispatcher" where
  "run_close k d = (close_event_buffer k d)\<lparr>dp_run := RunRestart\<rparr>"

definition restart_end :: "bool \<Rightarrow> 'r dispatcher \<Rightarrow> 'r dispatcher" where
  "restart_end succeeded d = (if dp_restart d = RestartAlive then d\<lparr>dp_restart := RestartDone succeeded\<rparr> else d)"

definition task_end :: "string \<Rightarrow> worker_exc + 'r \<Rightarrow> 'r dispatcher \<Rightarrow> 'r dispatcher" where
  "task_end k outcome d = (if task_alive k d then d\<lparr>dp_tasks := dict_set k (TaskEnded outcome) (dp_tasks d)\<rparr> else d)"

section \<open>Shutdown\<close>

definition stop_accepting :: "'r dispatcher \<Rightarrow> 'r dispatcher" where
  "stop_accepting d = d\<lparr>dp_accepting := False, dp_shutdown := ShutMark\<rparr>"

definition mark_shutdown :: "'r dispatcher \<Rightarrow> 'r dispatcher" where
  "mark_shutdown d = d\<lparr>dp_shutdown_started := True, dp_shutdown := ShutQueue\<rparr>"

definition stop_queue :: "'r dispatcher \<Rightarrow> 'r dispatcher" where
  "stop_queue d = d\<lparr>dp_dispatch_stopping := True, dp_expiry_stopping := True, dp_shutdown := ShutSnapshot\<rparr>"

definition drain_next :: "string list \<Rightarrow> shutdown_pc" where
  "drain_next ks = (if ks = [] then ShutBackend else ShutDrain ks)"

definition shutdown_snapshot :: "'r dispatcher \<Rightarrow> 'r dispatcher" where
  "shutdown_snapshot d = d\<lparr>dp_shutdown := drain_next (rg_records (dp_registry d))\<rparr>"

definition shutdown_cancel :: "(observer \<Rightarrow> bool) \<Rightarrow> rat \<Rightarrow> string \<Rightarrow> string list \<Rightarrow> 'r dispatcher \<Rightarrow> 'r dispatcher" where
  "shutdown_cancel raises now k ks d =
     (if is_terminal k d then d\<lparr>dp_shutdown := drain_next ks\<rparr>
      else case registry_cancel raises now k d of
        (changed, d1) \<Rightarrow> if changed then d1\<lparr>dp_shutdown := ShutSettle k ks\<rparr> else d1\<lparr>dp_shutdown := drain_next ks\<rparr>)"

definition shutdown_settle :: "(observer \<Rightarrow> bool) \<Rightarrow> rat \<Rightarrow> string \<Rightarrow> string list \<Rightarrow> 'r dispatcher \<Rightarrow> 'r dispatcher" where
  "shutdown_settle raises now k ks d =
     (if lifecycle_of k d = Some Cancelled then remove_pending k d
      else snd (cas raises now k Running Cancelled None None (Some (DCode ''shutdown'')) d))\<lparr>dp_shutdown := ShutBuffer k ks\<rparr>"

definition shutdown_buffer :: "string \<Rightarrow> string list \<Rightarrow> 'r dispatcher \<Rightarrow> 'r dispatcher" where
  "shutdown_buffer k ks d =
     (if is_terminal k d then close_event_buffer k d else d)\<lparr>dp_shutdown := drain_next ks\<rparr>"

end
