(* ===== verification/DispatcherMachine.thy ===== *)
theory DispatcherMachine
  imports Dispatcher
begin

text \<open>
  The threads of the dispatcher as a step relation, and the invariant that ties the queue, the registry
  and the program counters together: no accepted request is lost, whichever way the threads interleave.
\<close>

section \<open>Interleavings\<close>

inductive disp_step :: "(observer \<Rightarrow> bool) \<Rightarrow> 'r dispatcher \<Rightarrow> 'r dispatcher \<Rightarrow> bool"
  for raises :: "observer \<Rightarrow> bool" where
  d_submit: "dict_get (rg_objects (dp_registry d)) k = None \<Longrightarrow> disp_step raises d (snd (submit raises now k a req qt et stream d))"
| d_cancel: "disp_step raises d (snd (cancel_locked raises now k d))"
| d_cancel_close: "k \<in> set (dp_callers d) \<Longrightarrow> disp_step raises d (cancel_close k d)"
| d_expire: "dp_expiry d = ExpWait \<Longrightarrow> disp_step raises d (expire_queued raises now d)"
| d_expire_close: "dp_expiry d = ExpClose (k # ks) \<Longrightarrow> disp_step raises d (expire_close k ks d)"
| d_wait: "dp_run d = RunRestart \<Longrightarrow> disp_step raises d (wait_for_restart d)"
| d_next: "dp_run d = RunNext \<Longrightarrow> disp_step raises d (next_pending d)"
| d_start: "dp_run d = RunStart k \<Longrightarrow> disp_step raises d (run_start raises now k d)"
| d_run_expire: "dp_run d = RunExpire k \<Longrightarrow> disp_step raises d (run_expire raises now k d)"
| d_watch: "dp_run d = RunWatch k \<Longrightarrow> disp_step raises d (run_watch passed k d)"
| d_check: "dp_run d = RunCheck k \<Longrightarrow> disp_step raises d (run_check k d)"
| d_grace: "dp_run d = RunGrace k \<Longrightarrow> disp_step raises d (run_grace alive k d)"
| d_deadline: "dp_run d = RunDeadline k restart \<Longrightarrow> disp_step raises d (run_deadline raises now k restart d)"
| d_schedule: "dp_run d = RunSchedule k restart \<Longrightarrow> disp_step raises d (run_schedule k restart d)"
| d_finish: "dp_run d = RunFinish k target result error \<Longrightarrow> disp_step raises d (run_finish raises now k target result error d)"
| d_close: "dp_run d = RunClose k \<Longrightarrow> disp_step raises d (run_close k d)"
| d_restart_end: "disp_step raises d (restart_end ok_flag d)"
| d_task_end: "disp_step raises d (task_end k outcome d)"
| d_accepting: "dp_shutdown d = ShutIdle \<Longrightarrow> disp_step raises d (stop_accepting d)"
| d_mark: "dp_shutdown d = ShutMark \<Longrightarrow> disp_step raises d (mark_shutdown d)"
| d_stop: "dp_shutdown d = ShutQueue \<Longrightarrow> disp_step raises d (stop_queue d)"
| d_snapshot: "dp_shutdown d = ShutSnapshot \<Longrightarrow> disp_step raises d (shutdown_snapshot d)"
| d_drain: "dp_shutdown d = ShutDrain (k # ks) \<Longrightarrow> disp_step raises d (shutdown_cancel raises now k ks d)"
| d_settle: "dp_shutdown d = ShutSettle k ks \<Longrightarrow> disp_step raises d (shutdown_settle raises now k ks d)"
| d_buffer: "dp_shutdown d = ShutBuffer k ks \<Longrightarrow> disp_step raises d (shutdown_buffer k ks d)"
| d_prune: "disp_step raises d (d\<lparr>dp_registry := snd (prune_terminal (clock_at now) ttl limit current (dp_registry d))\<rparr>)"

definition disp_init :: "'r dispatcher \<Rightarrow> bool" where
  "disp_init d \<longleftrightarrow> (\<exists>capacity max_events max_bytes. mk_dispatcher capacity max_events max_bytes = Inr d)"

section \<open>Views\<close>

text \<open>The record the dispatcher thread is working on, before and after it is running.\<close>

fun held :: "'r run_pc \<Rightarrow> string list" where
  "held (RunStart k) = [k]"
| "held (RunExpire k) = [k]"
| "held _ = []"

fun in_service :: "'r run_pc \<Rightarrow> string list" where
  "in_service (RunWatch k) = [k]"
| "in_service (RunCheck k) = [k]"
| "in_service (RunGrace k) = [k]"
| "in_service (RunDeadline k _) = [k]"
| "in_service (RunFinish k _ _ _) = [k]"
| "in_service _ = []"

fun run_buffer :: "'r run_pc \<Rightarrow> string list" where
  "run_buffer (RunSchedule k _) = [k]"
| "run_buffer (RunClose k) = [k]"
| "run_buffer pc = held pc @ in_service pc"

fun expiry_buffer :: "expiry_pc \<Rightarrow> string list" where
  "expiry_buffer (ExpClose ks) = ks"
| "expiry_buffer _ = []"

fun shutdown_current :: "shutdown_pc \<Rightarrow> string list" where
  "shutdown_current (ShutSettle k _) = [k]"
| "shutdown_current (ShutBuffer k _) = [k]"
| "shutdown_current _ = []"

fun settling :: "shutdown_pc \<Rightarrow> string list" where
  "settling (ShutSettle k _) = [k]"
| "settling _ = []"

text \<open>The requests a shutdown has still to look at; before the snapshot, any.\<close>

fun undrained :: "shutdown_pc \<Rightarrow> string list option" where
  "undrained (ShutDrain ks) = Some ks"
| "undrained (ShutSettle k ks) = Some (k # ks)"
| "undrained (ShutBuffer _ ks) = Some ks"
| "undrained ShutBackend = Some []"
| "undrained _ = None"

definition live :: "Lifecycle option \<Rightarrow> bool" where
  "live l \<longleftrightarrow> l = Some Queued \<or> l = Some Running"

text \<open>
  The invariant, over what it depends on: the lifecycles \<open>L\<close>, the registered ids \<open>R\<close>, all ids \<open>K\<close>, the
  queue, its capacity, the orders of execution and submission, the record held by the dispatcher thread
  (\<open>H\<close>) or in service (\<open>V\<close>), the ids \<open>B\<close> some thread will close, those the shutdown settles (\<open>S\<close>) and
  has not drained (\<open>U\<close>), whether a shutdown has begun and whether requests are accepted.
\<close>

definition inv_of ::
  "(string \<Rightarrow> Lifecycle option) \<Rightarrow> string set \<Rightarrow> string set \<Rightarrow> string list \<Rightarrow> int \<Rightarrow> string list \<Rightarrow> string list \<Rightarrow>
   string list \<Rightarrow> string list \<Rightarrow> string set \<Rightarrow> string list \<Rightarrow> string list option \<Rightarrow> bool \<Rightarrow> bool \<Rightarrow> string set \<Rightarrow> string set \<Rightarrow> bool" where
  "inv_of L R K pend cap begun ord H V B S U begun_shutdown acc streams shut \<longleftrightarrow>
     distinct (H @ pend) \<and> int (length pend) \<le> cap \<and> subseq (begun @ H @ pend) ord \<and> distinct ord \<and> set ord = K \<and>
     (\<forall>k. L k \<noteq> Some Received \<and> L k \<noteq> Some Preflighted) \<and> (\<forall>k. L k \<noteq> None \<longleftrightarrow> k \<in> K) \<and>
     (\<forall>k\<in>set pend. L k = Some Queued \<or> L k = Some Cancelled \<and> k \<in> set S) \<and>
     (\<forall>k\<in>set H. L k \<noteq> Some Running) \<and>
     (\<forall>k. L k = Some Queued \<longrightarrow> k \<in> set H \<or> k \<in> set pend) \<and>
     (\<forall>k. L k = Some Running \<longrightarrow> k \<in> set V) \<and>
     (\<forall>k. live (L k) \<longrightarrow> k \<in> R) \<and>
     (\<forall>k\<in>streams. ended (L k) \<longrightarrow> k \<in> shut \<or> k \<in> B) \<and>
     (begun_shutdown \<longrightarrow> \<not> acc) \<and> (\<not> begun_shutdown \<longrightarrow> U = None \<and> S = []) \<and>
     (\<forall>ks k. U = Some ks \<longrightarrow> live (L k) \<longrightarrow> k \<in> set ks) \<and>
     (\<forall>k\<in>set S. L k \<noteq> Some Queued)"

definition closers :: "'r dispatcher \<Rightarrow> string set" where
  "closers d = set (run_buffer (dp_run d)) \<union> set (expiry_buffer (dp_expiry d)) \<union> set (shutdown_current (dp_shutdown d)) \<union>
     set (dp_callers d)"

definition disp_inv :: "'r dispatcher \<Rightarrow> bool" where
  "disp_inv d \<longleftrightarrow>
     inv_of (life (dp_registry d)) (set (rg_records (dp_registry d))) (set (dict_keys (rg_objects (dp_registry d))))
       (dp_pending d) (dp_capacity d) (dp_begun d) (dp_order d) (held (dp_run d)) (in_service (dp_run d)) (closers d)
       (settling (dp_shutdown d)) (undrained (dp_shutdown d)) (dp_shutdown d \<noteq> ShutIdle) (dp_accepting d)
       (set (dp_streams d)) (set (dp_closed d)) \<and>
     (\<forall>k target r e. dp_run d = RunFinish k target r e \<longrightarrow> target \<in> {Completed, Failed, Cancelled})"

section \<open>What the registry calls change\<close>

lemma registry_time_at [simp]: "registry_time (clock_at now) = Inr now"
  by (simp add: registry_time_def)

definition same_records :: "'v request_registry \<Rightarrow> 'v request_registry \<Rightarrow> bool" where
  "same_records g g' \<longleftrightarrow> rg_records g' = rg_records g \<and> set (dict_keys (rg_objects g')) = set (dict_keys (rg_objects g))"

lemma same_records_refl [simp]: "same_records g g"
  by (simp add: same_records_def)

lemma touches_same: "touches k g obs g' \<Longrightarrow> same_records g g'"
  by (simp add: touches_def same_records_def)

lemma transition_life:
  assumes "life g k = Some l" and "\<not> terminal l" and "target \<in> set (allowed l)"
    and "transition raises (clock_at now) k target result error g = (res, obs, g')"
  shows "res = Inr True \<and> life g' = (life g)(k := Some target)"
proof -
  obtain r where r: "dict_get (rg_objects g) k = Some r" "rc_lifecycle r = l" using assms(1) by (auto simp: life_def)
  show ?thesis using assms(2-4) r
    by (auto simp: transition_def transition_locked_def Let_def notify_terminal_def set_record_def life_def fun_eq_iff)
qed

lemma cas_cases:
  assumes "cas raises now k expected target guard result error d = (b, d1)" and "target \<in> set (allowed expected)"
  obtains (changed) g where "b" "d1 = d\<lparr>dp_registry := g\<rparr>" "life (dp_registry d) k = Some expected" "guard \<noteq> Some False"
      "life g = (life (dp_registry d))(k := Some target)" "same_records (dp_registry d) g"
  | (unchanged) "\<not> b" "d1 = d" "life (dp_registry d) k \<noteq> Some expected \<or> guard = Some False"
proof -
  let ?g = "dp_registry d"
  obtain res obs g where call: "compare_and_transition raises (clock_at now) k expected target guard result error ?g = (res, obs, g)"
    by (metis prod_cases3)
  have d1: "b = (res = Inr True)" "d1 = d\<lparr>dp_registry := g\<rparr>" using assms(1) call by (auto simp: cas_def)
  have nt: "\<not> terminal expected" using assms(2) by (cases expected) (auto simp: TERMINAL_SET_def)
  show thesis
  proof (cases "life ?g k = Some expected \<and> guard \<noteq> Some False")
    case True
    then obtain r where r: "dict_get (rg_objects ?g) k = Some r" "rc_lifecycle r = expected" by (auto simp: life_def)
    with True call have "transition raises (clock_at now) k target result error ?g = (res, obs, g)"
      by (auto simp: compare_and_transition_def)
    from transition_life [OF _ nt assms(2) this] True touches_same [OF transition_touches [OF this]] d1 show ?thesis
      by (intro changed) auto
  next
    case False
    then have "res = Inr False \<and> g = ?g" using call
      by (auto simp: compare_and_transition_def life_def split: option.splits if_splits)
    with d1 False show ?thesis by (intro unchanged) auto
  qed
qed

lemma registry_cancel_cases:
  assumes "registry_cancel raises now k d = (b, d1)" and "\<forall>k. life (dp_registry d) k \<noteq> Some Received \<and> life (dp_registry d) k \<noteq> Some Preflighted"
  obtains (queued) g where "b" "d1 = d\<lparr>dp_registry := g\<rparr>" "life (dp_registry d) k = Some Queued" "k \<in> set (rg_records (dp_registry d))"
      "life g = (life (dp_registry d))(k := Some Cancelled)" "same_records (dp_registry d) g"
  | (running) g where "b" "d1 = d\<lparr>dp_registry := g\<rparr>" "life (dp_registry d) k = Some Running" "k \<in> set (rg_records (dp_registry d))"
      "life g = life (dp_registry d)" "same_records (dp_registry d) g"
  | (unchanged) "\<not> b" "d1 = d" "k \<in> set (rg_records (dp_registry d)) \<longrightarrow> \<not> live (life (dp_registry d) k)"
proof -
  let ?g = "dp_registry d"
  obtain res obs g where call: "cancel_request raises (clock_at now) (DCode ''cancelled'') k ?g = (res, obs, g)"
    by (metis prod_cases3)
  have d1: "b = (res = Inr True)" "d1 = d\<lparr>dp_registry := g\<rparr>" using assms(1) call by (auto simp: registry_cancel_def)
  note same = touches_same [OF cancel_touches [OF call]]
  show thesis
  proof (cases "k \<in> set (rg_records ?g) \<and> live (life ?g k)")
    case True
    then obtain r where r: "dict_get (rg_objects ?g) k = Some r" "rc_lifecycle r = Queued \<or> rc_lifecycle r = Running"
      by (auto simp: life_def live_def)
    let ?g1 = "set_record k (r\<lparr>rc_cancel_event := True\<rparr>) ?g"
    have life1: "life ?g1 = life ?g" using r by (auto simp: life_def set_record_def fun_eq_iff)
    show ?thesis
    proof (cases "rc_lifecycle r = Queued")
      case True
      obtain res1 obs1 g1 where t: "transition raises (clock_at now) k Cancelled None (Some (DCode ''cancelled'')) ?g1 = (res1, obs1, g1)"
        by (metis prod_cases3)
      have "life ?g1 k = Some Queued" using r True by (simp add: life1) (simp add: life_def)
      from transition_life [OF this _ _ t] have "res1 = Inr True" "life g1 = (life ?g)(k := Some Cancelled)"
        by (auto simp: life1 TERMINAL_SET_def)
      moreover from this call t True r \<open>k \<in> set (rg_records ?g) \<and> live (life ?g k)\<close> have "res = Inr True" "g = g1"
        by (auto simp: cancel_request_def Let_def TERMINAL_SET_def)
      ultimately show ?thesis using d1 same r True \<open>k \<in> set (rg_records ?g) \<and> live (life ?g k)\<close>
        by (intro queued) (auto simp: life_def)
    next
      case False
      then have "res = Inr True" "g = ?g1" using call r \<open>k \<in> set (rg_records ?g) \<and> live (life ?g k)\<close>
        by (auto simp: cancel_request_def Let_def TERMINAL_SET_def)
      then show ?thesis using d1 same r False life1 \<open>k \<in> set (rg_records ?g) \<and> live (life ?g k)\<close>
        by (intro running) (auto simp: life_def)
    qed
  next
    case False
    have "res = Inr False \<and> g = ?g"
    proof (cases "dict_get (rg_objects ?g) k")
      case None
      then show ?thesis using call by (auto simp: cancel_request_def split: if_splits)
    next
      case (Some r)
      then have "k \<in> set (rg_records ?g) \<Longrightarrow> terminal (rc_lifecycle r)"
        using False assms(2) [rule_format, of k] by (cases "rc_lifecycle r") (auto simp: life_def live_def TERMINAL_SET_def)
      then show ?thesis using call Some by (auto simp: cancel_request_def split: if_splits)
    qed
    with d1 False show ?thesis by (intro unchanged) auto
  qed
qed

lemma set_cancel_event_life:
  obtains g where "set_cancel_event k d = d\<lparr>dp_registry := g\<rparr>" "life g = life (dp_registry d)" "same_records (dp_registry d) g"
proof (cases "dict_get (rg_objects (dp_registry d)) k")
  case None
  then show ?thesis by (intro that [of "dp_registry d"]) (simp_all add: set_cancel_event_def)
next
  case (Some r)
  let ?g = "set_record k (r\<lparr>rc_cancel_event := True\<rparr>) (dp_registry d)"
  have "life ?g = life (dp_registry d)" using Some by (auto simp: life_def set_record_def fun_eq_iff)
  moreover have "same_records (dp_registry d) ?g"
    using Some od.keys_set [of k "r\<lparr>rc_cancel_event := True\<rparr>" "rg_objects (dp_registry d)"]
      od.keys_get [of k "rg_objects (dp_registry d)"] by (auto simp: same_records_def set_record_def)
  ultimately show ?thesis using Some by (intro that [of ?g]) (simp_all add: set_cancel_event_def)
qed

section \<open>The dispatcher thread keeps the invariant\<close>

lemmas inv_defs = disp_inv_def inv_of_def closers_def

lemma close_event_buffer_simps [simp]:
  "dp_registry (close_event_buffer k d) = dp_registry d" "dp_pending (close_event_buffer k d) = dp_pending d"
  "dp_capacity (close_event_buffer k d) = dp_capacity d" "dp_begun (close_event_buffer k d) = dp_begun d"
  "dp_order (close_event_buffer k d) = dp_order d" "dp_run (close_event_buffer k d) = dp_run d"
  "dp_expiry (close_event_buffer k d) = dp_expiry d" "dp_shutdown (close_event_buffer k d) = dp_shutdown d"
  "dp_callers (close_event_buffer k d) = dp_callers d" "dp_accepting (close_event_buffer k d) = dp_accepting d"
  "dp_streams (close_event_buffer k d) = dp_streams d"
  "set (dp_closed (close_event_buffer k d)) = set (dp_closed d) \<union> ({k} \<inter> set (dp_streams d))"
  by (auto simp: close_event_buffer_def)

lemma wait_inv: "disp_inv d \<Longrightarrow> dp_run d = RunRestart \<Longrightarrow> disp_inv (wait_for_restart d)"
  by (auto simp: inv_defs wait_for_restart_def)

lemma next_inv: "disp_inv d \<Longrightarrow> dp_run d = RunNext \<Longrightarrow> disp_inv (next_pending d)"
  by (auto simp: inv_defs next_pending_def split: list.split)

lemma close_inv: "disp_inv d \<Longrightarrow> dp_run d = RunClose k \<Longrightarrow> disp_inv (run_close k d)"
  by (auto simp: inv_defs run_close_def)

lemma schedule_inv: "disp_inv d \<Longrightarrow> dp_run d = RunSchedule k b \<Longrightarrow> disp_inv (run_schedule k b d)"
  by (auto simp: inv_defs run_schedule_def schedule_restart_def)

lemma watch_inv: "disp_inv d \<Longrightarrow> dp_run d = RunWatch k \<Longrightarrow> disp_inv (run_watch b k d)"
  by (auto simp: inv_defs run_watch_def)

lemma grace_inv: "disp_inv d \<Longrightarrow> dp_run d = RunGrace k \<Longrightarrow> disp_inv (run_grace b k d)"
  by (auto simp: inv_defs run_grace_def)

lemma settle_target: "settle outcome c = (target, r, e) \<Longrightarrow> target \<in> {Completed, Failed, Cancelled}"
  by (auto simp: settle_def split: sum.splits worker_exc.splits if_splits)

lemma live_ended: "ended l \<Longrightarrow> \<not> live l" "live l \<Longrightarrow> \<not> ended l"
  by (auto simp: live_def ended_def TERMINAL_SET_def)

lemma check_inv: "disp_inv d \<Longrightarrow> dp_run d = RunCheck k \<Longrightarrow> disp_inv (run_check k d)"
proof -
  assume inv: "disp_inv d" and pc: "dp_run d = RunCheck k"
  consider (ended) "is_terminal k d" | (task) outcome where "\<not> is_terminal k d" "dict_get (dp_tasks d) k = Some (TaskEnded outcome)"
    | (late) "\<not> is_terminal k d" "\<forall>outcome. dict_get (dp_tasks d) k \<noteq> Some (TaskEnded outcome)" by blast
  then show ?thesis
  proof cases
    case ended
    then have "life (dp_registry d) k \<noteq> Some Running" by (auto simp: ended_def TERMINAL_SET_def)
    then show ?thesis using inv pc ended by (auto simp: inv_defs run_check_def)
  next
    case (task outcome)
    obtain target r e where st: "settle outcome (cancel_event_set k d) = (target, r, e)" by (metis prod_cases3)
    then show ?thesis using inv pc task settle_target [OF st] by (auto simp: inv_defs run_check_def)
  next
    case late
    obtain g where g: "set_cancel_event k d = d\<lparr>dp_registry := g\<rparr>" "life g = life (dp_registry d)" "same_records (dp_registry d) g"
      by (rule set_cancel_event_life)
    have "run_check k d = d\<lparr>dp_registry := g, dp_run := RunGrace k\<rparr>"
      using late g(1) by (auto simp: run_check_def split: option.split task.split)
    then show ?thesis using inv pc g(2,3) by (auto simp: inv_defs same_records_def)
  qed
qed

lemma cas_same: "snd (cas raises now k e t gd r er d) = d1 \<Longrightarrow> \<exists>b. cas raises now k e t gd r er d = (b, d1)"
  by (metis prod.collapse)

lemma allowed_moves [simp]:
  "Running \<in> set (allowed Queued)" "TimedOut \<in> set (allowed Queued)" "TimedOut \<in> set (allowed Running)"
  "Cancelled \<in> set (allowed Running)" "Completed \<in> set (allowed Running)" "Failed \<in> set (allowed Running)"
  by simp_all

lemma live_simps [simp]:
  "live (Some Queued)" "live (Some Running)" "\<not> live (Some TimedOut)" "\<not> live (Some Cancelled)" "\<not> live (Some Completed)"
  "\<not> live (Some Failed)" "\<not> live None"
  by (simp_all add: live_def)

lemma ended_simps [simp]:
  "ended (Some TimedOut)" "ended (Some Cancelled)" "ended (Some Completed)" "ended (Some Failed)"
  "\<not> ended (Some Queued)" "\<not> ended (Some Running)" "\<not> ended None"
  by (simp_all add: ended_def TERMINAL_SET_def)

lemma inv_ofD:
  assumes "inv_of L R K pend cap begun ord H V B S U begun_shutdown acc streams shut"
  shows "distinct (H @ pend)"
    and "int (length pend) \<le> cap"
    and "subseq (begun @ H @ pend) ord"
    and "distinct ord"
    and "set ord = K"
    and "\<forall>k. L k \<noteq> Some Received \<and> L k \<noteq> Some Preflighted"
    and "\<forall>k. L k \<noteq> None \<longleftrightarrow> k \<in> K"
    and "\<forall>k\<in>set pend. L k = Some Queued \<or> L k = Some Cancelled \<and> k \<in> set S"
    and "\<forall>k\<in>set H. L k \<noteq> Some Running"
    and "\<forall>k. L k = Some Queued \<longrightarrow> k \<in> set H \<or> k \<in> set pend"
    and "\<forall>k. L k = Some Running \<longrightarrow> k \<in> set V"
    and "\<forall>k. live (L k) \<longrightarrow> k \<in> R"
    and "\<forall>k\<in>streams. ended (L k) \<longrightarrow> k \<in> shut \<or> k \<in> B"
    and "begun_shutdown \<longrightarrow> \<not> acc"
    and "\<not> begun_shutdown \<longrightarrow> U = None \<and> S = []"
    and "\<forall>ks k. U = Some ks \<longrightarrow> live (L k) \<longrightarrow> k \<in> set ks"
    and "\<forall>k\<in>set S. L k \<noteq> Some Queued"
  using assms unfolding inv_of_def by argo+

lemma inv_ofI:
  assumes "distinct (H @ pend)"
    and "int (length pend) \<le> cap"
    and "subseq (begun @ H @ pend) ord"
    and "distinct ord"
    and "set ord = K"
    and "\<forall>k. L k \<noteq> Some Received \<and> L k \<noteq> Some Preflighted"
    and "\<forall>k. L k \<noteq> None \<longleftrightarrow> k \<in> K"
    and "\<forall>k\<in>set pend. L k = Some Queued \<or> L k = Some Cancelled \<and> k \<in> set S"
    and "\<forall>k\<in>set H. L k \<noteq> Some Running"
    and "\<forall>k. L k = Some Queued \<longrightarrow> k \<in> set H \<or> k \<in> set pend"
    and "\<forall>k. L k = Some Running \<longrightarrow> k \<in> set V"
    and "\<forall>k. live (L k) \<longrightarrow> k \<in> R"
    and "\<forall>k\<in>streams. ended (L k) \<longrightarrow> k \<in> shut \<or> k \<in> B"
    and "begun_shutdown \<longrightarrow> \<not> acc"
    and "\<not> begun_shutdown \<longrightarrow> U = None \<and> S = []"
    and "\<forall>ks k. U = Some ks \<longrightarrow> live (L k) \<longrightarrow> k \<in> set ks"
    and "\<forall>k\<in>set S. L k \<noteq> Some Queued"
  shows "inv_of L R K pend cap begun ord H V B S U begun_shutdown acc streams shut"
  unfolding inv_of_def by (intro conjI) (fact assms)+

text \<open>The effects of a step on the invariant: a record starts, ends, or is let go by the dispatcher thread.\<close>

lemma inv_start:
  assumes inv: "inv_of L R K pend cap begun ord [k] [] B S U sd acc streams shut" and q: "L k = Some Queued" and "B \<subseteq> B'"
  shows "inv_of (L(k := Some Running)) R K pend cap (begun @ [k]) ord [] [k] B' S U sd acc streams shut"
proof -
  note D = inv_ofD [OF inv]
  have "k \<notin> set pend" using D(1) by simp
  show ?thesis
  proof (rule inv_ofI, goal_cases)
    case 8 then show ?case using D(8) \<open>k \<notin> set pend\<close> by auto
  next
    case 13 then show ?case using D(13) assms(3) by auto
  next
    case 16 then show ?case using D(16) q by (auto simp: live_def)
  qed (use D q in \<open>auto simp: live_def\<close>)
qed

lemma subseq_drop_held: "subseq (begun @ H @ pend) ord \<Longrightarrow> subseq (begun @ pend) ord"
  by (rule subseq_order.order_trans [of _ "begun @ H @ pend"])
    (intro list_emb_append_mono list_emb_append2 subseq_order.order_refl)

lemma inv_end:
  assumes inv: "inv_of L R K pend cap begun ord H V B S U sd acc streams shut" and l: "L k = Some Queued \<or> L k = Some Running"
    and HV: "set H \<union> set V \<subseteq> {k}" and p: "k \<notin> set pend" and t: "ended (Some t)" and B': "k \<in> B'" "B \<subseteq> B'"
  shows "inv_of (L(k := Some t)) R K pend cap begun ord [] [] B' S U sd acc streams shut"
proof -
  note D = inv_ofD [OF inv]
  have t': "\<not> live (Some t)" "t \<noteq> Queued" "t \<noteq> Running" "t \<noteq> Received" "t \<noteq> Preflighted"
    using t by (auto simp: ended_def TERMINAL_SET_def live_def)
  show ?thesis
  proof (rule inv_ofI, goal_cases)
    case 3 then show ?case using subseq_drop_held [OF D(3)] by simp
  next
    case 8 then show ?case using D(8) p by auto
  next
    case 10 then show ?case using D(10) HV t' by auto
  next
    case 11 then show ?case using D(11) HV t' by auto
  next
    case 12 then show ?case using D(12) t' by auto
  next
    case 13 then show ?case using D(13) B' by auto
  next
    case 16 then show ?case using D(16) t' by auto
  qed (use D t' l in auto)
qed

lemma inv_let_go:
  assumes inv: "inv_of L R K pend cap begun ord H V B S U sd acc streams shut"
    and H: "\<forall>j\<in>set H. L j \<noteq> Some Queued" and V: "\<forall>j\<in>set V. L j \<noteq> Some Running" and B': "B \<subseteq> B'"
  shows "inv_of L R K pend cap begun ord [] [] B' S U sd acc streams shut"
proof -
  note D = inv_ofD [OF inv]
  show ?thesis
  proof (rule inv_ofI, goal_cases)
    case 3 then show ?case using subseq_drop_held [OF D(3)] by simp
  next
    case 10 then show ?case using D(10) H by auto
  next
    case 11 then show ?case using D(11) V by auto
  next
    case 13 then show ?case using D(13) B' by auto
  qed (use D in \<open>simp_all\<close>)
qed

lemma disp_inv_of: "disp_inv d \<Longrightarrow>
    inv_of (life (dp_registry d)) (set (rg_records (dp_registry d))) (set (dict_keys (rg_objects (dp_registry d))))
       (dp_pending d) (dp_capacity d) (dp_begun d) (dp_order d) (held (dp_run d)) (in_service (dp_run d)) (closers d)
       (settling (dp_shutdown d)) (undrained (dp_shutdown d)) (dp_shutdown d \<noteq> ShutIdle) (dp_accepting d)
       (set (dp_streams d)) (set (dp_closed d))"
  by (simp add: disp_inv_def)

lemma inv_facts:
  assumes "disp_inv d"
  shows "distinct (held (dp_run d) @ dp_pending d)"
    and "\<And>k. k \<in> set (dp_pending d) \<Longrightarrow> lifecycle_of k d = Some Queued \<or> lifecycle_of k d = Some Cancelled"
    and "\<And>k. k \<in> set (held (dp_run d)) \<Longrightarrow> lifecycle_of k d \<noteq> Some Running"
    and "\<And>k. lifecycle_of k d \<noteq> Some Received \<and> lifecycle_of k d \<noteq> Some Preflighted"
  using assms unfolding disp_inv_def inv_of_def by blast+

text \<open>The dispatcher thread ends the record it holds or serves, or finds that another thread did.\<close>

lemma run_end_inv:
  assumes inv: "disp_inv d" and c: "cas raises now k expected t gd r e d = (b, d1)" and al: "t \<in> set (allowed expected)"
    and pc: "held (dp_run d) = [k] \<and> in_service (dp_run d) = [] \<and> expected = Queued \<or>
      held (dp_run d) = [] \<and> in_service (dp_run d) = [k] \<and> expected = Running"
    and t: "ended (Some t)" and gd: "gd \<noteq> Some False"
    and pc': "held pc' = []" "in_service pc' = []" "run_buffer pc' = [k]" "\<forall>j x y z. pc' \<noteq> RunFinish j x y z"
    and rb: "run_buffer (dp_run d) = [k]"
  shows "disp_inv (d1\<lparr>dp_run := pc'\<rparr>)"
proof (cases rule: cas_cases [OF c al])
  case (1 g)
  have "k \<notin> set (dp_pending d)"
    using pc inv_facts(1,2) [OF inv] 1(3) by force
  moreover have "set (held (dp_run d)) \<union> set (in_service (dp_run d)) \<subseteq> {k}" using pc by auto
  moreover have "lifecycle_of k d = Some Queued \<or> lifecycle_of k d = Some Running" using 1(3) pc by auto
  ultimately have "inv_of ((life (dp_registry d))(k := Some t)) (set (rg_records (dp_registry d))) (set (dict_keys (rg_objects (dp_registry d))))
       (dp_pending d) (dp_capacity d) (dp_begun d) (dp_order d) [] [] (closers (d1\<lparr>dp_run := pc'\<rparr>))
       (settling (dp_shutdown d)) (undrained (dp_shutdown d)) (dp_shutdown d \<noteq> ShutIdle) (dp_accepting d)
       (set (dp_streams d)) (set (dp_closed d))"
    using inv_end [OF disp_inv_of [OF inv] _ _ _ t, of k "closers (d1\<lparr>dp_run := pc'\<rparr>)"]
    by (auto simp: 1(2) pc' rb closers_def)
  then show ?thesis using 1 pc' by (simp add: disp_inv_def same_records_def)
next
  case 2
  have "lifecycle_of k d \<noteq> Some expected" using 2(3) gd by simp
  then have "inv_of (life (dp_registry d)) (set (rg_records (dp_registry d))) (set (dict_keys (rg_objects (dp_registry d))))
       (dp_pending d) (dp_capacity d) (dp_begun d) (dp_order d) [] [] (closers (d1\<lparr>dp_run := pc'\<rparr>))
       (settling (dp_shutdown d)) (undrained (dp_shutdown d)) (dp_shutdown d \<noteq> ShutIdle) (dp_accepting d)
       (set (dp_streams d)) (set (dp_closed d))"
    using pc by (intro inv_let_go [OF disp_inv_of [OF inv]]) (auto simp: 2(2) pc' rb closers_def)
  then show ?thesis using 2 pc' by (simp add: disp_inv_def)
qed

lemma start_inv:
  assumes inv: "disp_inv d" and pc: "dp_run d = RunStart k"
  shows "disp_inv (run_start raises now k d)"
proof -
  obtain b d1 where c: "cas raises now k Queued Running (Some (now < deadline_of d k)) None None d = (b, d1)" by fastforce
  show ?thesis
  proof (cases rule: cas_cases [OF c allowed_moves(1)])
    case (1 g)
    have "inv_of ((life (dp_registry d))(k := Some Running)) (set (rg_records (dp_registry d))) (set (dict_keys (rg_objects (dp_registry d))))
       (dp_pending d) (dp_capacity d) (dp_begun d @ [k]) (dp_order d) [] [k] (closers (d\<lparr>dp_run := RunWatch k\<rparr>))
       (settling (dp_shutdown d)) (undrained (dp_shutdown d)) (dp_shutdown d \<noteq> ShutIdle) (dp_accepting d)
       (set (dp_streams d)) (set (dp_closed d))"
      using disp_inv_of [OF inv] pc 1(3) by (intro inv_start [where B = "closers d"]) (auto simp: closers_def)
    then show ?thesis using 1 c by (simp add: disp_inv_def run_start_def same_records_def closers_def)
  next
    case 2
    then show ?thesis using inv pc c by (simp add: disp_inv_def run_start_def closers_def)
  qed
qed

lemma run_expire_inv:
  assumes inv: "disp_inv d" and pc: "dp_run d = RunExpire k"
  shows "disp_inv (run_expire raises now k d)"
proof -
  obtain b d1 where c: "cas raises now k Queued TimedOut None None (Some (DCode ''queue_timeout'')) d = (b, d1)" by fastforce
  from run_end_inv [OF inv c, of "RunClose k"] show ?thesis by (simp add: c pc run_expire_def)
qed

lemma deadline_inv:
  assumes inv: "disp_inv d" and pc: "dp_run d = RunDeadline k b"
  shows "disp_inv (run_deadline raises now k b d)"
proof -
  obtain b1 d1 where c: "cas raises now k Running TimedOut None None (Some (DCode ''deadline_exceeded'')) d = (b1, d1)" by fastforce
  from run_end_inv [OF inv c, of "RunSchedule k b"] show ?thesis by (simp add: c pc run_deadline_def)
qed

lemma finish_inv:
  assumes inv: "disp_inv d" and pc: "dp_run d = RunFinish k target r e"
  shows "disp_inv (run_finish raises now k target r e d)"
proof -
  have t: "target \<in> {Completed, Failed, Cancelled}" using inv pc by (auto simp: disp_inv_def)
  obtain b1 d1 where c: "cas raises now k Running target None r e d = (b1, d1)" by fastforce
  from run_end_inv [OF inv c, of "RunClose k"] t show ?thesis by (auto simp: c pc run_finish_def)
qed

section \<open>The callers and the expiry thread keep the invariant\<close>

lemma create_life:
  assumes "dict_get (rg_objects g) k = None" and "g' = snd (create_record (clock_at now) k a req qt et g)"
  shows "life g' = (life g)(k := Some Received) \<and> set (rg_records g') = insert k (set (rg_records g)) \<and>
    set (dict_keys (rg_objects g')) = insert k (set (dict_keys (rg_objects g)))"
  using assms od.keys_set [of k _ "rg_objects g"]
  by (auto simp: create_record_def Let_def life_def fun_eq_iff simp del: set_map)

lemma submit_inv_of:
  assumes "inv_of L R K pend cap begun ord H V B S U sd True streams shut" and "L k = None" and "k \<notin> set ord"
    and "k \<notin> set H \<union> set pend" and "subseq (begun @ H @ pend @ [k]) (ord @ [k])" and "int (length pend) < cap"
  shows "inv_of (L(k := Some Queued)) (insert k R) (insert k K) (pend @ [k]) cap begun (ord @ [k]) H V B S U sd True
    (if stream then insert k streams else streams) shut"
proof -
  note D = inv_ofD [OF assms(1)]
  have "U = None" "S = []" using D(14,15) by auto
  show ?thesis
  proof (rule inv_ofI, goal_cases)
    case 1 then show ?case using D(1) assms(4) by auto
  next
    case 3 then show ?case by (rule assms(5))
  next
    case 8 then show ?case using D(8) by auto
  next
    case 9 then show ?case using D(9) by auto
  next
    case 10 then show ?case using D(10) by auto
  next
    case 11 then show ?case using D(11) by auto
  next
    case 12 then show ?case using D(12) by auto
  next
    case 13 then show ?case using D(13) by auto
  qed (use D(2,4-7,14) \<open>U = None\<close> \<open>S = []\<close> assms(3,6) in auto)
qed

lemma disp_submit_inv:
  assumes inv: "disp_inv d" and new: "dict_get (rg_objects (dp_registry d)) k = None"
  shows "disp_inv (snd (submit raises now k a req qt et stream d))"
proof (cases "dp_accepting d \<and> int (length (dp_pending d)) < dp_capacity d")
  case False
  then show ?thesis using inv by (auto simp: submit_def)
next
  case True
  define g1 where "g1 = snd (create_record (clock_at now) k a (DRequest req) qt et (dp_registry d))"
  obtain r2 o2 g2 where t2: "transition raises (clock_at now) k Preflighted None None g1 = (r2, o2, g2)" by (metis prod_cases3)
  obtain r3 o3 g3 where t3: "transition raises (clock_at now) k Queued None None g2 = (r3, o3, g3)" by (metis prod_cases3)
  have c: "life g1 = (life (dp_registry d))(k := Some Received)" "set (rg_records g1) = insert k (set (rg_records (dp_registry d)))"
    "set (dict_keys (rg_objects g1)) = insert k (set (dict_keys (rg_objects (dp_registry d))))"
    using create_life [OF new g1_def] by auto
  have l2: "life g2 = (life (dp_registry d))(k := Some Preflighted)"
    using transition_life [OF _ _ _ t2, of Received] c(1) by (auto simp: TERMINAL_SET_def)
  have l3: "life g3 = (life (dp_registry d))(k := Some Queued)"
    using transition_life [OF _ _ _ t3, of Preflighted] l2 by (auto simp: TERMINAL_SET_def)
  have same: "rg_records g3 = rg_records g1" "set (dict_keys (rg_objects g3)) = set (dict_keys (rg_objects g1))"
    using touches_same [OF transition_touches [OF t2]] touches_same [OF transition_touches [OF t3]] by (simp_all add: same_records_def)
  have sub: "snd (submit raises now k a req qt et stream d) = d\<lparr>dp_registry := g3,
      dp_streams := (if stream then dp_streams d @ [k] else dp_streams d), dp_pending := dp_pending d @ [k], dp_order := dp_order d @ [k]\<rparr>"
    using True by (simp add: submit_def Let_def g1_def [symmetric] t2 t3)
  have kl: "life (dp_registry d) k = None" using new by (simp add: life_def)
  then have kK: "k \<notin> set (dp_order d)" using inv unfolding disp_inv_def inv_of_def by blast
  have sq: "subseq (dp_begun d @ held (dp_run d) @ dp_pending d) (dp_order d)"
    using inv by (simp add: disp_inv_def inv_of_def)
  have kp: "k \<notin> set (held (dp_run d)) \<union> set (dp_pending d)"
  proof
    assume "k \<in> set (held (dp_run d)) \<union> set (dp_pending d)"
    then have "k \<in> set (dp_begun d @ held (dp_run d) @ dp_pending d)" by auto
    from list_emb_set [OF sq this] kK show False by blast
  qed
  have seq: "subseq (dp_begun d @ held (dp_run d) @ dp_pending d @ [k]) (dp_order d @ [k])"
    using list_emb_append_mono [OF sq, of "[k]" "[k]"] by simp
  have streams: "set (if stream then dp_streams d @ [k] else dp_streams d) = (if stream then insert k (set (dp_streams d)) else set (dp_streams d))"
    by simp
  show ?thesis
    using submit_inv_of [where k = k and L = "life (dp_registry d)" and ord = "dp_order d" and H = "held (dp_run d)"
        and pend = "dp_pending d" and begun = "dp_begun d" and stream = stream, OF _ kl kK kp seq] disp_inv_of [OF inv] True inv
    unfolding sub disp_inv_def closers_def by (simp add: l3 c(2,3) same streams del: set_map)
qed

lemma subseq_remove1: "subseq (remove1 k xs) xs"
  by (induction xs) auto

lemma subseq_remove_pending: "subseq (begun @ H @ pend) ord \<Longrightarrow> subseq (begun @ H @ remove1 k pend) ord"
  by (rule subseq_order.order_trans [of _ "begun @ H @ pend"])
    (intro list_emb_append_mono subseq_remove1 subseq_order.order_refl)

text \<open>Another thread ends a record, or takes one that has ended out of the queue.\<close>

lemma inv_terminate:
  assumes inv: "inv_of L R K pend cap begun ord H V B S U sd acc streams shut" and l: "live (L k)"
    and t: "ended (Some t)" and B': "k \<in> B'" "B \<subseteq> B'"
  shows "inv_of (L(k := Some t)) R K (remove1 k pend) cap begun ord H V B' S U sd acc streams shut"
proof -
  note D = inv_ofD [OF inv]
  have t': "\<not> live (Some t)" "t \<noteq> Queued" "t \<noteq> Running" "t \<noteq> Received" "t \<noteq> Preflighted"
    using t by (auto simp: ended_def TERMINAL_SET_def live_def)
  have dp: "distinct pend" using D(1) by simp
  show ?thesis
  proof (rule inv_ofI, goal_cases)
    case 1 then show ?case using D(1) by auto
  next
    case 2 then show ?case using D(2) length_remove1 [of k pend] by (auto split: if_splits)
  next
    case 3 then show ?case by (rule subseq_remove_pending [OF D(3)])
  next
    case 7 then show ?case using D(7) l by (auto simp: live_def)
  next
    case 8 then show ?case using D(8) dp by auto
  next
    case 9 then show ?case using D(9) t' by auto
  next
    case 10 then show ?case using D(10) dp t' by auto
  next
    case 11 then show ?case using D(11) t' by auto
  next
    case 12 then show ?case using D(12) t' by auto
  next
    case 13 then show ?case using D(13) B' by auto
  next
    case 16 then show ?case using D(16) t' by auto
  next
    case 17 then show ?case using D(17) t' by auto
  qed (use D t' in auto)
qed

lemma inv_remove:
  assumes inv: "inv_of L R K pend cap begun ord H V B S U sd acc streams shut" and l: "L k \<noteq> Some Queued" and B': "B \<subseteq> B'"
  shows "inv_of L R K (remove1 k pend) cap begun ord H V B' S U sd acc streams shut"
proof -
  note D = inv_ofD [OF inv]
  have dp: "distinct pend" using D(1) by simp
  show ?thesis
  proof (rule inv_ofI, goal_cases)
    case 1 then show ?case using D(1) by auto
  next
    case 2 then show ?case using D(2) length_remove1 [of k pend] by (auto split: if_splits)
  next
    case 3 then show ?case by (rule subseq_remove_pending [OF D(3)])
  next
    case 8 then show ?case using D(8) dp by auto
  next
    case 10 then show ?case using D(10) dp l by auto
  next
    case 13 then show ?case using D(13) B' by auto
  qed (use D in \<open>simp_all\<close>)
qed

lemma inv_closers: "inv_of L R K pend cap begun ord H V B S U sd acc streams shut \<Longrightarrow> B \<subseteq> B' \<Longrightarrow>
    inv_of L R K pend cap begun ord H V B' S U sd acc streams shut"
  unfolding inv_of_def by blast

lemma inv_shut:
  assumes inv: "inv_of L R K pend cap begun ord H V B S U sd acc streams shut"
    and "\<forall>k\<in>streams. k \<in> B \<longrightarrow> ended (L k) \<longrightarrow> k \<in> shut' \<or> k \<in> B'" and "shut \<subseteq> shut'"
  shows "inv_of L R K pend cap begun ord H V B' S U sd acc streams shut'"
proof -
  note D = inv_ofD [OF inv]
  show ?thesis
  proof (rule inv_ofI, goal_cases)
    case 13 then show ?case using D(13) assms(2,3) by blast
  qed (use D in \<open>simp_all\<close>)
qed

lemma remove_pending_simps [simp]:
  "dp_registry (remove_pending k d) = dp_registry d" "dp_pending (remove_pending k d) = remove1 k (dp_pending d)"
  "dp_capacity (remove_pending k d) = dp_capacity d" "dp_begun (remove_pending k d) = dp_begun d"
  "dp_order (remove_pending k d) = dp_order d" "dp_run (remove_pending k d) = dp_run d"
  "dp_expiry (remove_pending k d) = dp_expiry d" "dp_shutdown (remove_pending k d) = dp_shutdown d"
  "dp_callers (remove_pending k d) = dp_callers d" "dp_accepting (remove_pending k d) = dp_accepting d"
  "dp_streams (remove_pending k d) = dp_streams d" "dp_closed (remove_pending k d) = dp_closed d"
  "dp_expiry_stopping (remove_pending k d) = dp_expiry_stopping d"
  by (simp_all add: remove_pending_def)

lemma cancel_inv:
  assumes inv: "disp_inv d"
  shows "disp_inv (snd (cancel_locked raises now k d))"
proof (cases "get_record k (dp_registry d)")
  case None
  then show ?thesis using inv by (simp add: cancel_locked_def)
next
  case (Some r)
  obtain b d1 where c: "registry_cancel raises now k d = (b, d1)" by fastforce
  have np: "\<forall>k. life (dp_registry d) k \<noteq> Some Received \<and> life (dp_registry d) k \<noteq> Some Preflighted"
    using inv_facts(4) [OF inv] by blast
  note I = disp_inv_of [OF inv]
  show ?thesis
  proof (cases rule: registry_cancel_cases [OF c np])
    case (1 g)
    have "inv_of ((life (dp_registry d))(k := Some Cancelled)) (set (rg_records (dp_registry d))) (set (dict_keys (rg_objects (dp_registry d))))
       (remove1 k (dp_pending d)) (dp_capacity d) (dp_begun d) (dp_order d) (held (dp_run d)) (in_service (dp_run d))
       (closers (d\<lparr>dp_callers := dp_callers d @ [k]\<rparr>))
       (settling (dp_shutdown d)) (undrained (dp_shutdown d)) (dp_shutdown d \<noteq> ShutIdle) (dp_accepting d)
       (set (dp_streams d)) (set (dp_closed d))"
      by (rule inv_terminate [OF I]) (auto simp: 1(3) closers_def)
    then show ?thesis using inv 1 Some c
      by (simp add: cancel_locked_def Let_def disp_inv_def same_records_def closers_def)
  next
    case (2 g)
    then show ?thesis using inv Some c by (simp add: cancel_locked_def Let_def disp_inv_def same_records_def closers_def)
  next
    case 3
    show ?thesis
    proof (cases "lifecycle_of k d = Some Cancelled")
      case True
      then have "inv_of (life (dp_registry d)) (set (rg_records (dp_registry d))) (set (dict_keys (rg_objects (dp_registry d))))
       (remove1 k (dp_pending d)) (dp_capacity d) (dp_begun d) (dp_order d) (held (dp_run d)) (in_service (dp_run d)) (closers d)
       (settling (dp_shutdown d)) (undrained (dp_shutdown d)) (dp_shutdown d \<noteq> ShutIdle) (dp_accepting d)
       (set (dp_streams d)) (set (dp_closed d))"
        by (intro inv_remove [OF I]) auto
      then show ?thesis using inv 3 Some c True by (simp add: cancel_locked_def Let_def disp_inv_def closers_def)
    next
      case False
      then show ?thesis using inv 3 Some c by (simp add: cancel_locked_def Let_def)
    qed
  qed
qed

lemma cancel_close_inv:
  assumes inv: "disp_inv d"
  shows "disp_inv (cancel_close k d)"
proof -
  have "inv_of (life (dp_registry d)) (set (rg_records (dp_registry d))) (set (dict_keys (rg_objects (dp_registry d))))
       (dp_pending d) (dp_capacity d) (dp_begun d) (dp_order d) (held (dp_run d)) (in_service (dp_run d)) (closers (cancel_close k d))
       (settling (dp_shutdown d)) (undrained (dp_shutdown d)) (dp_shutdown d \<noteq> ShutIdle) (dp_accepting d)
       (set (dp_streams d)) (set (dp_closed (cancel_close k d)))"
    by (rule inv_shut [OF disp_inv_of [OF inv]]) (auto simp: closers_def cancel_close_def dest: in_set_remove1 [THEN iffD2, rotated])
  then show ?thesis using inv by (simp add: disp_inv_def cancel_close_def)
qed

lemma expire_close_inv:
  assumes inv: "disp_inv d" and pc: "dp_expiry d = ExpClose (k # ks)"
  shows "disp_inv (expire_close k ks d)"
proof -
  have "inv_of (life (dp_registry d)) (set (rg_records (dp_registry d))) (set (dict_keys (rg_objects (dp_registry d))))
       (dp_pending d) (dp_capacity d) (dp_begun d) (dp_order d) (held (dp_run d)) (in_service (dp_run d)) (closers (expire_close k ks d))
       (settling (dp_shutdown d)) (undrained (dp_shutdown d)) (dp_shutdown d \<noteq> ShutIdle) (dp_accepting d)
       (set (dp_streams d)) (set (dp_closed (expire_close k ks d)))"
    by (rule inv_shut [OF disp_inv_of [OF inv]]) (auto simp: closers_def expire_close_def pc)
  then show ?thesis using inv by (auto simp: disp_inv_def expire_close_def)
qed

text \<open>The invariant with a bigger set of closers, as it holds in the middle of an expiry.\<close>

definition expiring_inv :: "string set \<Rightarrow> 'r dispatcher \<Rightarrow> bool" where
  "expiring_inv E d \<longleftrightarrow>
     inv_of (life (dp_registry d)) (set (rg_records (dp_registry d))) (set (dict_keys (rg_objects (dp_registry d))))
       (dp_pending d) (dp_capacity d) (dp_begun d) (dp_order d) (held (dp_run d)) (in_service (dp_run d)) (closers d \<union> E)
       (settling (dp_shutdown d)) (undrained (dp_shutdown d)) (dp_shutdown d \<noteq> ShutIdle) (dp_accepting d)
       (set (dp_streams d)) (set (dp_closed d)) \<and>
     (\<forall>k target r e. dp_run d = RunFinish k target r e \<longrightarrow> target \<in> {Completed, Failed, Cancelled})"

lemma expire_one:
  assumes inv: "expiring_inv E d" and k: "k \<in> E"
  shows "expiring_inv E (remove_pending k (snd (cas raises now k Queued TimedOut None None (Some (DCode ''queue_timeout'')) d))) \<and>
    dp_expiry (remove_pending k (snd (cas raises now k Queued TimedOut None None (Some (DCode ''queue_timeout'')) d))) = dp_expiry d"
proof -
  obtain b d1 where c: "cas raises now k Queued TimedOut None None (Some (DCode ''queue_timeout'')) d = (b, d1)" by fastforce
  note I = inv [unfolded expiring_inv_def, THEN conjunct1]
  show ?thesis
  proof (cases rule: cas_cases [OF c allowed_moves(2)])
    case (1 g)
    have "inv_of ((life (dp_registry d))(k := Some TimedOut)) (set (rg_records (dp_registry d))) (set (dict_keys (rg_objects (dp_registry d))))
       (remove1 k (dp_pending d)) (dp_capacity d) (dp_begun d) (dp_order d) (held (dp_run d)) (in_service (dp_run d)) (closers d \<union> E)
       (settling (dp_shutdown d)) (undrained (dp_shutdown d)) (dp_shutdown d \<noteq> ShutIdle) (dp_accepting d)
       (set (dp_streams d)) (set (dp_closed d))"
      by (rule inv_terminate [OF I]) (use k 1(3) in auto)
    then show ?thesis using inv 1 c by (simp add: expiring_inv_def same_records_def closers_def)
  next
    case 2
    then have "lifecycle_of k d \<noteq> Some Queued" by simp
    from inv_remove [OF I this subset_refl] show ?thesis using inv 2 c by (simp add: expiring_inv_def closers_def)
  qed
qed

lemma expire_all_inv:
  "expiring_inv E d \<Longrightarrow> set ks \<subseteq> E \<Longrightarrow>
    expiring_inv E (expire_all raises now ks d) \<and> dp_expiry (expire_all raises now ks d) = dp_expiry d"
proof (induction ks arbitrary: d)
  case (Cons k ks)
  have "k \<in> E" using Cons.prems(2) by simp
  from expire_one [OF Cons.prems(1) this, of raises now] Cons.IH Cons.prems(2) show ?case by simp
qed simp

lemma expire_inv:
  assumes inv: "disp_inv d" and pc: "dp_expiry d = ExpWait"
  shows "disp_inv (expire_queued raises now d)"
proof -
  let ?E = "filter (\<lambda>k. deadline_of d k \<le> now) (dp_pending d)"
  consider (stop) "dp_expiry_stopping d" | (none) "\<not> dp_expiry_stopping d" "?E = []" | (some) "\<not> dp_expiry_stopping d" "?E \<noteq> []" by blast
  then show ?thesis
  proof cases
    case stop
    then show ?thesis using inv pc by (simp add: expire_queued_def disp_inv_def closers_def)
  next
    case none
    then show ?thesis using inv by (simp add: expire_queued_def)
  next
    case some
    have "expiring_inv (set ?E) d"
      using inv inv_closers [OF disp_inv_of [OF inv], of "closers d \<union> set ?E"] by (simp add: expiring_inv_def disp_inv_def)
    from expire_all_inv [OF this subset_refl] have *: "expiring_inv (set ?E) (expire_all raises now ?E d)"
      "dp_expiry (expire_all raises now ?E d) = ExpWait" using pc by simp_all
    then have "disp_inv ((expire_all raises now ?E d)\<lparr>dp_expiry := ExpClose ?E\<rparr>)"
      unfolding expiring_inv_def disp_inv_def by (auto simp: closers_def elim!: inv_closers)
    then show ?thesis using some by (simp add: expire_queued_def Let_def)
  qed
qed

section \<open>The shutdown and the maintenance keep the invariant\<close>

lemma restart_end_inv: "disp_inv d \<Longrightarrow> disp_inv (restart_end b d)"
  by (simp add: disp_inv_def restart_end_def closers_def)

lemma task_end_inv: "disp_inv d \<Longrightarrow> disp_inv (task_end k outcome d)"
  by (simp add: disp_inv_def task_end_def closers_def)

lemma undrained_next [simp]: "undrained (drain_next ks) = Some ks" "settling (drain_next ks) = []"
    "shutdown_current (drain_next ks) = []" "drain_next ks \<noteq> ShutIdle"
  by (auto simp: drain_next_def)

text \<open>Moving the shutdown along, with the clauses it changes as premises.\<close>

lemma inv_shutdown_pc:
  assumes inv: "inv_of L R K pend cap begun ord H V B S U sd acc streams shut"
    and "sd' \<longrightarrow> \<not> acc'" and "\<not> sd' \<longrightarrow> U' = None \<and> S' = []"
    and "\<forall>ks k. U' = Some ks \<longrightarrow> live (L k) \<longrightarrow> k \<in> set ks" and "\<forall>k\<in>set S'. L k \<noteq> Some Queued"
    and "\<forall>k\<in>set pend. k \<in> set S \<longrightarrow> L k = Some Queued \<or> k \<in> set S'"
    and "\<forall>k\<in>streams. k \<in> B \<longrightarrow> ended (L k) \<longrightarrow> k \<in> shut' \<or> k \<in> B'" and "shut \<subseteq> shut'"
  shows "inv_of L R K pend cap begun ord H V B' S' U' sd' acc' streams shut'"
proof -
  note D = inv_ofD [OF inv]
  show ?thesis
  proof (rule inv_ofI, goal_cases)
    case 8 then show ?case using D(8) assms(6) by blast
  next
    case 13 then show ?case using D(13) assms(7,8) by blast
  qed (use D assms(2-5) in \<open>simp_all\<close>)
qed

lemma stop_accepting_inv: "disp_inv d \<Longrightarrow> dp_shutdown d = ShutIdle \<Longrightarrow> disp_inv (stop_accepting d)"
  unfolding disp_inv_def stop_accepting_def by (auto simp: closers_def elim!: inv_shutdown_pc)

lemma mark_inv: "disp_inv d \<Longrightarrow> dp_shutdown d = ShutMark \<Longrightarrow> disp_inv (mark_shutdown d)"
  by (simp add: disp_inv_def mark_shutdown_def closers_def)

lemma disp_stop_inv: "disp_inv d \<Longrightarrow> dp_shutdown d = ShutQueue \<Longrightarrow> disp_inv (stop_queue d)"
  by (simp add: disp_inv_def stop_queue_def closers_def)

lemma snapshot_inv:
  assumes inv: "disp_inv d" and pc: "dp_shutdown d = ShutSnapshot"
  shows "disp_inv (shutdown_snapshot d)"
proof -
  note I = disp_inv_of [OF inv]
  have "inv_of (life (dp_registry d)) (set (rg_records (dp_registry d))) (set (dict_keys (rg_objects (dp_registry d))))
       (dp_pending d) (dp_capacity d) (dp_begun d) (dp_order d) (held (dp_run d)) (in_service (dp_run d)) (closers d)
       [] (Some (rg_records (dp_registry d))) True (dp_accepting d) (set (dp_streams d)) (set (dp_closed d))"
    using inv_ofD(12,14) [OF I] pc by (intro inv_shutdown_pc [OF I]) auto
  then show ?thesis using inv pc by (simp add: disp_inv_def shutdown_snapshot_def closers_def)
qed

lemma inv_shutdown_cancel:
  assumes inv: "inv_of L R K pend cap begun ord H V B [] (Some (k # ks)) True acc streams shut" and q: "L k = Some Queued"
    and B': "k \<in> B'" "B \<subseteq> B'"
  shows "inv_of (L(k := Some Cancelled)) R K pend cap begun ord H V B' [k] (Some (k # ks)) True acc streams shut"
proof -
  note D = inv_ofD [OF inv]
  show ?thesis
  proof (rule inv_ofI, goal_cases)
    case 8 then show ?case using D(8) by auto
  next
    case 10 then show ?case using D(10) by auto
  next
    case 12 then show ?case using D(12) by auto
  next
    case 13 then show ?case using D(13) B' by auto
  next
    case 16 then show ?case using D(16) by auto
  qed (use D q in auto)
qed

lemma drain_inv:
  assumes inv: "disp_inv d" and pc: "dp_shutdown d = ShutDrain (k # ks)"
  shows "disp_inv (shutdown_cancel raises now k ks d)"
proof -
  have I: "inv_of (life (dp_registry d)) (set (rg_records (dp_registry d))) (set (dict_keys (rg_objects (dp_registry d))))
       (dp_pending d) (dp_capacity d) (dp_begun d) (dp_order d) (held (dp_run d)) (in_service (dp_run d)) (closers d)
       [] (Some (k # ks)) True (dp_accepting d) (set (dp_streams d)) (set (dp_closed d))"
    using disp_inv_of [OF inv] by (simp add: pc)
  note D = inv_ofD [OF I]
  have acc: "\<not> dp_accepting d" using D(14) by simp
  have skip: "inv_of (life (dp_registry d)) (set (rg_records (dp_registry d))) (set (dict_keys (rg_objects (dp_registry d))))
       (dp_pending d) (dp_capacity d) (dp_begun d) (dp_order d) (held (dp_run d)) (in_service (dp_run d)) (closers d)
       [] (Some ks) True (dp_accepting d) (set (dp_streams d)) (set (dp_closed d))"
    if "\<not> live (lifecycle_of k d)"
    using D(16) acc that by (intro inv_shutdown_pc [OF I]) auto
  have rec: "live (lifecycle_of k d) \<longrightarrow> k \<in> set (rg_records (dp_registry d))" using D(12) by simp
  show ?thesis
  proof (cases "is_terminal k d")
    case True
    with skip live_ended have "disp_inv (d\<lparr>dp_shutdown := drain_next ks\<rparr>)"
      using inv pc by (simp add: disp_inv_def closers_def)
    then show ?thesis using True by (simp add: shutdown_cancel_def)
  next
    case False
    obtain b d1 where c: "registry_cancel raises now k d = (b, d1)" by fastforce
    have np: "\<forall>k. life (dp_registry d) k \<noteq> Some Received \<and> life (dp_registry d) k \<noteq> Some Preflighted"
      using inv_facts(4) [OF inv] by blast
    show ?thesis
    proof (cases rule: registry_cancel_cases [OF c np])
      case (1 g)
      have "inv_of ((life (dp_registry d))(k := Some Cancelled)) (set (rg_records (dp_registry d))) (set (dict_keys (rg_objects (dp_registry d))))
         (dp_pending d) (dp_capacity d) (dp_begun d) (dp_order d) (held (dp_run d)) (in_service (dp_run d))
         (closers (d\<lparr>dp_shutdown := ShutSettle k ks\<rparr>)) [k] (Some (k # ks)) True (dp_accepting d) (set (dp_streams d)) (set (dp_closed d))"
        by (rule inv_shutdown_cancel [OF I 1(3)]) (auto simp: closers_def pc)
      then show ?thesis using inv 1 c False by (simp add: shutdown_cancel_def disp_inv_def same_records_def closers_def)
    next
      case (2 g)
      have "inv_of (life (dp_registry d)) (set (rg_records (dp_registry d))) (set (dict_keys (rg_objects (dp_registry d))))
         (dp_pending d) (dp_capacity d) (dp_begun d) (dp_order d) (held (dp_run d)) (in_service (dp_run d))
         (closers (d\<lparr>dp_shutdown := ShutSettle k ks\<rparr>)) [k] (Some (k # ks)) True (dp_accepting d) (set (dp_streams d)) (set (dp_closed d))"
        using D(16) acc 2(3) by (intro inv_shutdown_pc [OF I]) (auto simp: closers_def pc)
      then show ?thesis using inv 2 c False by (simp add: shutdown_cancel_def disp_inv_def same_records_def closers_def)
    next
      case 3
      then have "\<not> live (lifecycle_of k d)" using rec by blast
      from skip [OF this] have "disp_inv (d\<lparr>dp_shutdown := drain_next ks\<rparr>)"
        using inv pc by (simp add: disp_inv_def closers_def)
      then show ?thesis using 3 c False by (simp add: shutdown_cancel_def)
    qed
  qed
qed

lemma settle_inv:
  assumes inv: "disp_inv d" and pc: "dp_shutdown d = ShutSettle k ks"
  shows "disp_inv (shutdown_settle raises now k ks d)"
proof -
  have I: "inv_of (life (dp_registry d)) (set (rg_records (dp_registry d))) (set (dict_keys (rg_objects (dp_registry d))))
       (dp_pending d) (dp_capacity d) (dp_begun d) (dp_order d) (held (dp_run d)) (in_service (dp_run d)) (closers d)
       [k] (Some (k # ks)) True (dp_accepting d) (set (dp_streams d)) (set (dp_closed d))"
    using disp_inv_of [OF inv] by (simp add: pc)
  note D = inv_ofD [OF I]
  have acc: "\<not> dp_accepting d" using D(14) by simp
  have notq: "lifecycle_of k d \<noteq> Some Queued" using D(17) by simp
  have dp: "distinct (dp_pending d)" using D(1) by simp
  let ?pc = "ShutBuffer k ks"
  show ?thesis
  proof (cases "lifecycle_of k d = Some Cancelled")
    case True
    have J: "inv_of (life (dp_registry d)) (set (rg_records (dp_registry d))) (set (dict_keys (rg_objects (dp_registry d))))
       (remove1 k (dp_pending d)) (dp_capacity d) (dp_begun d) (dp_order d) (held (dp_run d)) (in_service (dp_run d)) (closers d)
       [k] (Some (k # ks)) True (dp_accepting d) (set (dp_streams d)) (set (dp_closed d))"
      by (rule inv_remove [OF I notq subset_refl])
    have "inv_of (life (dp_registry d)) (set (rg_records (dp_registry d))) (set (dict_keys (rg_objects (dp_registry d))))
       (remove1 k (dp_pending d)) (dp_capacity d) (dp_begun d) (dp_order d) (held (dp_run d)) (in_service (dp_run d))
       (closers (d\<lparr>dp_shutdown := ?pc\<rparr>)) [] (Some ks) True (dp_accepting d) (set (dp_streams d)) (set (dp_closed d))"
      using D(16) acc dp True by (intro inv_shutdown_pc [OF J]) (auto simp: closers_def pc)
    then show ?thesis using inv True by (simp add: shutdown_settle_def disp_inv_def closers_def)
  next
    case False
    obtain b d1 where c: "cas raises now k Running Cancelled None None (Some (DCode ''shutdown'')) d = (b, d1)" by fastforce
    show ?thesis
    proof (cases rule: cas_cases [OF c allowed_moves(4)])
      case (1 g)
      have "k \<notin> set (dp_pending d)" using inv_facts(2) [OF inv, of k] 1(3) by auto
      then have r: "remove1 k (dp_pending d) = dp_pending d" by (rule remove1_idem)
      have J: "inv_of ((life (dp_registry d))(k := Some Cancelled)) (set (rg_records (dp_registry d))) (set (dict_keys (rg_objects (dp_registry d))))
         (dp_pending d) (dp_capacity d) (dp_begun d) (dp_order d) (held (dp_run d)) (in_service (dp_run d)) (closers d)
         [k] (Some (k # ks)) True (dp_accepting d) (set (dp_streams d)) (set (dp_closed d))"
        using inv_terminate [OF I, of k Cancelled "closers d"] 1(3) pc by (simp add: r closers_def)
      have "inv_of ((life (dp_registry d))(k := Some Cancelled)) (set (rg_records (dp_registry d))) (set (dict_keys (rg_objects (dp_registry d))))
         (dp_pending d) (dp_capacity d) (dp_begun d) (dp_order d) (held (dp_run d)) (in_service (dp_run d))
         (closers (d\<lparr>dp_shutdown := ?pc\<rparr>)) [] (Some ks) True (dp_accepting d) (set (dp_streams d)) (set (dp_closed d))"
        using inv_ofD(16) [OF J] acc \<open>k \<notin> set (dp_pending d)\<close>
        by (intro inv_shutdown_pc [OF J]) (auto simp: closers_def pc split: if_splits)
      then show ?thesis using inv False 1 c by (simp add: shutdown_settle_def disp_inv_def same_records_def closers_def)
    next
      case 2
      then have "\<not> live (lifecycle_of k d)" using notq by (auto simp: live_def)
      moreover have "k \<notin> set (dp_pending d)" using inv_facts(2) [OF inv, of k] notq False by auto
      ultimately have "inv_of (life (dp_registry d)) (set (rg_records (dp_registry d))) (set (dict_keys (rg_objects (dp_registry d))))
         (dp_pending d) (dp_capacity d) (dp_begun d) (dp_order d) (held (dp_run d)) (in_service (dp_run d))
         (closers (d\<lparr>dp_shutdown := ?pc\<rparr>)) [] (Some ks) True (dp_accepting d) (set (dp_streams d)) (set (dp_closed d))"
        using D(16) acc by (intro inv_shutdown_pc [OF I]) (auto simp: closers_def pc)
      then show ?thesis using inv False 2 c by (simp add: shutdown_settle_def disp_inv_def closers_def)
    qed
  qed
qed

lemma buffer_inv:
  assumes inv: "disp_inv d" and pc: "dp_shutdown d = ShutBuffer k ks"
  shows "disp_inv (shutdown_buffer k ks d)"
proof -
  have I: "inv_of (life (dp_registry d)) (set (rg_records (dp_registry d))) (set (dict_keys (rg_objects (dp_registry d))))
       (dp_pending d) (dp_capacity d) (dp_begun d) (dp_order d) (held (dp_run d)) (in_service (dp_run d)) (closers d)
       [] (Some ks) True (dp_accepting d) (set (dp_streams d)) (set (dp_closed d))"
    using disp_inv_of [OF inv] by (simp add: pc)
  have "inv_of (life (dp_registry d)) (set (rg_records (dp_registry d))) (set (dict_keys (rg_objects (dp_registry d))))
       (dp_pending d) (dp_capacity d) (dp_begun d) (dp_order d) (held (dp_run d)) (in_service (dp_run d)) (closers (shutdown_buffer k ks d))
       [] (Some ks) True (dp_accepting d) (set (dp_streams d)) (set (dp_closed (shutdown_buffer k ks d)))"
    by (rule inv_shut [OF I]) (auto simp: closers_def shutdown_buffer_def pc)
  then show ?thesis using inv by (auto simp: disp_inv_def shutdown_buffer_def)
qed

lemma inv_records:
  assumes inv: "inv_of L R K pend cap begun ord H V B S U sd acc streams shut" and "\<forall>k\<in>R. live (L k) \<longrightarrow> k \<in> R'"
  shows "inv_of L R' K pend cap begun ord H V B S U sd acc streams shut"
proof -
  note D = inv_ofD [OF inv]
  show ?thesis
  proof (rule inv_ofI, goal_cases)
    case 12 then show ?case using D(12) assms(2) by blast
  qed (use D in \<open>simp_all\<close>)
qed

lemma prune_keeps_live:
  assumes "k \<in> set (rg_records g)" and "live (life g k)"
  shows "k \<in> set (rg_records (snd (prune_terminal clock ttl limit now g)))"
proof -
  have "\<not> finished g k"
    using assms(2) by (auto simp: finished_def life_def live_def TERMINAL_SET_def)
  then have "k \<notin> snd ` set (prune_candidates t c g)" for t c
    by (auto simp: candidates_set eligible_def)
  then have "k \<notin> snd ` set (take n (prune_candidates t c g))" for n t c
    by (meson image_mono set_take_subset subsetD)
  then show ?thesis using assms(1)
    by (auto simp: prune_terminal_def Let_def split: option.splits pyval.splits sum.splits)
qed

lemma prune_inv:
  assumes inv: "disp_inv d"
  shows "disp_inv (d\<lparr>dp_registry := snd (prune_terminal clock ttl limit now (dp_registry d))\<rparr>)"
proof -
  let ?g = "snd (prune_terminal clock ttl limit now (dp_registry d))"
  have o: "rg_objects ?g = rg_objects (dp_registry d)" using prune_frame by blast
  then have l: "life ?g = life (dp_registry d)" by (simp add: life_def fun_eq_iff)
  have "inv_of (life (dp_registry d)) (set (rg_records ?g)) (set (dict_keys (rg_objects (dp_registry d))))
       (dp_pending d) (dp_capacity d) (dp_begun d) (dp_order d) (held (dp_run d)) (in_service (dp_run d)) (closers d)
       (settling (dp_shutdown d)) (undrained (dp_shutdown d)) (dp_shutdown d \<noteq> ShutIdle) (dp_accepting d)
       (set (dp_streams d)) (set (dp_closed d))"
    by (rule inv_records [OF disp_inv_of [OF inv]]) (use prune_keeps_live in blast)
  then show ?thesis using inv by (simp add: disp_inv_def closers_def l o)
qed

section \<open>The invariant\<close>

lemma disp_step_inv:
  assumes "disp_step raises d d'" and "disp_inv d"
  shows "disp_inv d'"
  using assms
proof (induction rule: disp_step.induct)
  case (d_submit d k now a req qt et stream)
  then show ?case by (intro disp_submit_inv)
qed (simp_all add: cancel_inv cancel_close_inv expire_inv expire_close_inv wait_inv next_inv start_inv run_expire_inv watch_inv
    check_inv grace_inv deadline_inv schedule_inv finish_inv close_inv restart_end_inv task_end_inv stop_accepting_inv
    mark_inv disp_stop_inv snapshot_inv drain_inv settle_inv buffer_inv prune_inv)

lemma disp_init_inv: "disp_init d \<Longrightarrow> disp_inv d"
  by (auto simp: disp_init_def mk_dispatcher_def disp_inv_def inv_of_def closers_def life_def empty_registry_def live_def ended_def
      split: if_splits)

interpretation dispatcher_machine: invariant_system disp_init "disp_step raises" disp_inv
proof unfold_locales
  show "disp_inv d" if "disp_init d" for d :: "'a dispatcher" using that by (rule disp_init_inv)
  show "disp_inv d'" if "disp_inv d" "disp_step raises d d'" for d d' :: "'a dispatcher" using disp_step_inv that by blast
qed

section \<open>Properties\<close>

lemma in_service_one: "k \<in> set (in_service pc) \<Longrightarrow> in_service pc = [k]"
  by (cases pc) auto

text \<open>
  C3: No accepted request is lost. Under every interleaving of submitters, cancellers, the dispatcher
  and expiry threads, restarts, shutdown and pruning, each accepted request has either reached a
  terminal lifecycle, or it is queued and waits in the queue or in the hands of the dispatcher thread,
  or it is the one that is running. The queue holds no request twice and never exceeds its capacity,
  and requests begin in the order in which they were submitted.
\<close>

theorem accepted_requests_tracked:
  assumes "reach disp_init (disp_step raises) d"
  shows "(\<forall>k\<in>set (dp_order d). ended (lifecycle_of k d) \<or>
      lifecycle_of k d = Some Queued \<and> (k \<in> set (dp_pending d) \<or> held (dp_run d) = [k]) \<or>
      lifecycle_of k d = Some Running \<and> in_service (dp_run d) = [k]) \<and>
    distinct (dp_pending d) \<and> int (length (dp_pending d)) \<le> dp_capacity d \<and>
    distinct (dp_begun d) \<and> subseq (dp_begun d) (dp_order d)"
proof -
  note D = inv_ofD [OF disp_inv_of [OF dispatcher_machine.inv_reach [OF assms]]]
  have "subseq (dp_begun d) (dp_begun d @ held (dp_run d) @ dp_pending d)"
    by (rule list_emb_prefix) (rule subseq_order.order_refl)
  then have sub: "subseq (dp_begun d) (dp_order d)" using D(3) by (rule subseq_order.order_trans)
  then have "distinct (dp_begun d)" using D(4) by (auto simp: subseq_conv_nths)
  moreover have "ended (lifecycle_of k d) \<or> lifecycle_of k d = Some Queued \<and> (k \<in> set (dp_pending d) \<or> held (dp_run d) = [k]) \<or>
      lifecycle_of k d = Some Running \<and> in_service (dp_run d) = [k]" if "k \<in> set (dp_order d)" for k
  proof -
    have "\<exists>l. lifecycle_of k d = Some l" using D(7) that by (simp add: D(5))
      then obtain l where l: "lifecycle_of k d = Some l" ..
    have h: "k \<in> set (held (dp_run d)) \<Longrightarrow> held (dp_run d) = [k]" by (cases "dp_run d") auto
    show ?thesis using D(6) [rule_format, of k] D(10,11) [rule_format, of k] h in_service_one l
      by (cases l) auto
  qed
  ultimately show ?thesis using sub D(1,2) by auto
qed

text \<open>
  C7: Shutdown leaves nothing behind. Once the shutdown has drained its snapshot and goes on to stop
  the backend, no request is accepted any more and every request ever accepted is terminal, whatever the
  other threads did meanwhile and still do.
\<close>

theorem shutdown_drains:
  assumes "reach disp_init (disp_step raises) d" and "dp_shutdown d = ShutBackend"
  shows "\<not> dp_accepting d \<and> (\<forall>k\<in>set (dp_order d). ended (lifecycle_of k d)) \<and>
    (\<forall>d'. (disp_step raises)\<^sup>*\<^sup>* d d' \<longrightarrow> dp_shutdown d' = ShutBackend \<longrightarrow> (\<forall>k\<in>set (dp_order d'). ended (lifecycle_of k d')))"
proof -
  have all: "\<not> dp_accepting e \<and> (\<forall>k\<in>set (dp_order e). ended (lifecycle_of k e))"
    if "disp_inv e" "dp_shutdown e = ShutBackend" for e :: "'a dispatcher"
  proof -
    note D = inv_ofD [OF disp_inv_of [OF that(1)]]
    have "ended (lifecycle_of k e)" if k: "k \<in> set (dp_order e)" for k
    proof -
      have "\<exists>l. lifecycle_of k e = Some l" using D(7) k by (simp add: D(5))
      then obtain l where l: "lifecycle_of k e = Some l" ..
      have "\<not> live (lifecycle_of k e)" using D(16) \<open>dp_shutdown e = ShutBackend\<close> by simp
      then show ?thesis using D(6) [rule_format, of k] l by (cases l) auto
    qed
    then show ?thesis using D(14) that(2) by simp
  qed
  have inv: "disp_inv d" by (rule dispatcher_machine.inv_reach [OF assms(1)])
  show ?thesis using all [OF inv assms(2)] all dispatcher_machine.inv_steps [OF _ inv] by blast
qed

text \<open>
  C23: Every stream ends. The event buffer of a terminal streaming request is closed, or some thread is
  on its way to closing it: the dispatcher thread with that record, the expiry thread, the shutdown or a
  caller of \<open>cancel\<close>. When no thread is, every terminal stream is closed and its consumer cannot hang.
\<close>

theorem streams_end:
  assumes "reach disp_init (disp_step raises) d" and "k \<in> set (dp_streams d)" and "is_terminal k d"
  shows "k \<in> set (dp_closed d) \<or> k \<in> set (run_buffer (dp_run d)) \<or> k \<in> set (expiry_buffer (dp_expiry d)) \<or>
    k \<in> set (shutdown_current (dp_shutdown d)) \<or> k \<in> set (dp_callers d)"
  using inv_ofD(13) [OF disp_inv_of [OF dispatcher_machine.inv_reach [OF assms(1)]]] assms(2,3)
  by (auto simp: closers_def)

section \<open>A concrete run\<close>

definition quiet :: "observer \<Rightarrow> bool" where "quiet ob = False"

definition demo_new :: "bool dispatcher" where
  "demo_new = (case mk_dispatcher 2 10 10 of Inr d \<Rightarrow> d | Inl _ \<Rightarrow> undefined)"

definition demo_submitted :: "bool dispatcher" where
  "demo_submitted = snd (submit quiet 0 ''a'' ''t'' True 1000 1000 True demo_new)"

definition demo_stopped :: "bool dispatcher" where
  "demo_stopped = shutdown_snapshot (stop_queue (mark_shutdown (stop_accepting demo_submitted)))"

definition demo_drained :: "bool dispatcher" where
  "demo_drained = shutdown_buffer ''a'' [] (shutdown_settle quiet 1 ''a'' [] (shutdown_cancel quiet 1 ''a'' [] demo_stopped))"

lemma demo_values:
  "mk_dispatcher 2 10 10 = Inr demo_new" "dict_get (rg_objects (dp_registry demo_new)) ''a'' = None"
  "dp_shutdown demo_submitted = ShutIdle" "dp_shutdown demo_stopped = ShutDrain [''a'']"
  "dp_shutdown (shutdown_cancel quiet 1 ''a'' [] demo_stopped) = ShutSettle ''a'' []"
  "dp_shutdown (shutdown_settle quiet 1 ''a'' [] (shutdown_cancel quiet 1 ''a'' [] demo_stopped)) = ShutBuffer ''a'' []"
  "dp_shutdown demo_drained = ShutBackend" "dp_order demo_drained = [''a'']" "dp_streams demo_drained = [''a'']"
  "ended (lifecycle_of ''a'' demo_drained)" "dp_order demo_submitted = [''a'']"
  by (simp_all add: demo_new_def mk_dispatcher_def) code_simp+

lemma demo_submitted_reach: "reach disp_init (disp_step quiet) demo_submitted"
  unfolding demo_submitted_def
  by (rule reach_step, rule reach_init) (use demo_values(1,2) in \<open>auto simp: disp_init_def intro: d_submit\<close>)

lemma demo_drained_reach: "reach disp_init (disp_step quiet) demo_drained"
proof -
  let ?reach = "reach disp_init (disp_step quiet)"
  have "?reach (stop_accepting demo_submitted)"
    by (rule reach_step [OF demo_submitted_reach]) (rule d_accepting, rule demo_values(3))
  then have "?reach (mark_shutdown (stop_accepting demo_submitted))"
    by (rule reach_step) (rule d_mark, simp add: stop_accepting_def)
  then have "?reach (stop_queue (mark_shutdown (stop_accepting demo_submitted)))"
    by (rule reach_step) (rule d_stop, simp add: mark_shutdown_def)
  then have "?reach demo_stopped" unfolding demo_stopped_def
    by (rule reach_step) (rule d_snapshot, simp add: stop_queue_def)
  then have "?reach (shutdown_cancel quiet 1 ''a'' [] demo_stopped)"
    by (rule reach_step) (rule d_drain, rule demo_values(4))
  then have "?reach (shutdown_settle quiet 1 ''a'' [] (shutdown_cancel quiet 1 ''a'' [] demo_stopped))"
    by (rule reach_step) (rule d_settle, rule demo_values(5))
  then show ?thesis unfolding demo_drained_def
    by (rule reach_step) (rule d_buffer, rule demo_values(6))
qed

theorem accepted_requests_tracked_witness:
  "lifecycle_of ''a'' demo_submitted = Some Queued \<and> dp_pending demo_submitted = [''a''] \<and> distinct (dp_pending demo_submitted)"
  using accepted_requests_tracked [OF demo_submitted_reach] by (intro conjI) (code_simp, code_simp, simp)

theorem shutdown_drains_witness:
  "\<not> dp_accepting demo_drained \<and> dp_order demo_drained = [''a''] \<and> ended (lifecycle_of ''a'' demo_drained)"
  using shutdown_drains [OF demo_drained_reach demo_values(7)] demo_values(8) by simp

theorem streams_end_witness:
  "''a'' \<in> set (dp_closed demo_drained) \<or> ''a'' \<in> set (run_buffer (dp_run demo_drained)) \<or>
    ''a'' \<in> set (expiry_buffer (dp_expiry demo_drained)) \<or> ''a'' \<in> set (shutdown_current (dp_shutdown demo_drained)) \<or>
    ''a'' \<in> set (dp_callers demo_drained)"
  using streams_end [OF demo_drained_reach] demo_values(9,10) by simp

end
