(* ===== verification/Spec2Isabelle.thy ===== *)
theory Spec2Isabelle
  imports SequenceContracts Governance Admission SequenceCache BackendRegistry Router SchedulerTheorems
    AgentScope AgentTurn EventBuffer RequestRegistry SimulatorProgress LlamaMachine Preflight WorkerExecute WorkerSupervisor DispatcherMachine
begin

text \<open>
  A verification library for a local inference service: the inference runtime (\<open>src/inference_runtime\<close>),
  the model worker (\<open>src/model_worker\<close>) and the agent runtime (\<open>src/agent_runtime\<close>), all in Python.

  \<^bold>\<open>The program.\<close> The \<^emph>\<open>inference runtime\<close> schedules many generation requests on one backend. A request
  carries scheduling metadata and passes admission (reservations of sequences and KV tokens under global,
  workflow and agent quotas), is chosen by a hierarchical fair selector, and is stepped by the worker thread of the
  continuous batch scheduler through open, prefill and decode microbatches to its release. A registry
  loads backends lazily and leases them; a router maps requests to leases; a cache keeps
  sequence states under tenant isolation; a single-threaded simulator is the reference scheduler. The
  \<^emph>\<open>model worker\<close> serves one resident model in a native process: a request body is parsed
  strictly, checked against the manifest and its output contract compiled to a decoding grammar
  (preflight), queued by a dispatcher, executed over a framed pipe protocol, streamed through a
  bounded event buffer, and tracked by a request registry. The \<^emph>\<open>agent runtime\<close> runs tool-using
  agents as event-sourced state machines: each turn asks the inference port for a decision, compiles it to a
  tool invocation, has it authorized and logged, executes it, normalizes the result and decides how the run goes on.

  \<^bold>\<open>Conventions.\<close> Python values are \<open>pyval\<close>, a \<open>str\<close> is its UTF-8 encoding, an \<open>int\<close> is an \<open>int\<close>, a finite
  float is a rational; the rounding of float arithmetic is not modelled. A dict is an association list in insertion order (the
  locale \<open>py_dict\<close>). A fallible operation returns \<open>error + result\<close>, and where the code
  keeps state changed before an exception the result is a pair with that state. A dataclass is a record with a
  constructor \<open>mk_C\<close> that has the checks of \<open>__post_init__\<close> in order. Concurrency is explicit: each definition is
  the code of one lock section, and a step relation interleaves the sections of all threads; the locale
  \<open>invariant_system\<close> carries an invariant to every reachable state and is interpreted for
  each machine. What the code calls but does not contain (backends, clocks, sinks, the file system,
  SHA-256, \<open>json.dumps\<close>, the tokenizer of \<open>json.loads\<close>, SQLite, the operating system's processes and pipes) is an argument
  of the definitions or an outcome that a step may choose.

  \<^bold>\<open>Theories and code.\<close>
  \<^item> \<open>Prelude\<close>: values, results, dicts, selection of a minimum, reachability.
  \<^item> \<open>CacheContracts\<close>, \<open>Contracts\<close>, \<open>SequenceContracts\<close>: the value types of \<open>cache.py\<close> and
    \<open>contracts.py\<close>. Constructors accept exactly the well-formed values.
  \<^item> \<open>Governance\<close>: \<open>HierarchicalFairSelector\<close> of \<open>governance.py\<close>. \<open>select\<close> picks an optimal entry; emergencies and
    aging bound how long a request can be overtaken.
  \<^item> \<open>Admission\<close>: \<open>ResourceAdmissionController\<close> of \<open>governance.py\<close>. The ledger respects every quota although the check and
    the activation are separate lock sections (locale \<open>guarded_activation\<close>).
  \<^item> \<open>SequenceCache\<close>: \<open>SequenceStateCache\<close> of \<open>cache.py\<close>: accounting of bytes and reference counts,
    leases that do not change under their holders, isolation of tenants.
  \<^item> \<open>BackendRegistry\<close>, \<open>Router\<close>: \<open>registry.py\<close> and \<open>router.py\<close>. A lease refers to a live instance.
  \<^item> \<open>Scheduler\<close>, \<open>SchedulerSafety\<close>, \<open>SchedulerMachine\<close>, \<open>SchedulerTheorems\<close>: \<open>continuous_scheduler.py\<close>: the lock
    sections, their budgets and ledgers, the interleaving of callers and the worker, and what callers may rely on.
  \<^item> \<open>Simulator\<close>, \<open>SimulatorMachine\<close>, \<open>SimulatorProgress\<close>: \<open>simulator.py\<close>. Its backend, clock and sink are a world that may
    raise anywhere; sequences are released once, limits hold, and with a backend of bounded work ticking ends every request.
  \<^item> \<open>RuntimeManifest\<close>, \<open>LlamaBackend\<close>, \<open>LlamaMachine\<close>: \<open>runtime_manifest.py\<close> and \<open>adapters/llama_cpp.py\<close>. Which manifests
    the adapter can serve; where native handles go, which handles are stale, what outcomes and errors mean.
  \<^item> \<open>StructuredOutput\<close>, \<open>Grammar\<close>: \<open>model_worker/errors.py\<close> and \<open>output_contract/\<close>. The parser accepts exactly
    the supported contracts, the validator is exact, and no client text can escape its literal in the grammar.
  \<^item> \<open>WorkerRequest\<close>, \<open>Preflight\<close>: \<open>strict_json.py\<close>, \<open>contracts.py\<close>, \<open>manifest.py\<close>, \<open>prompt.py\<close>, \<open>preflight.py\<close>. What a
    prepared request guarantees, and which errors a refused one gets.
  \<^item> \<open>WorkerIPC\<close>, \<open>WorkerExecute\<close>, \<open>WorkerSupervisor\<close>: \<open>ipc.py\<close> and \<open>worker_process.py\<close>. The accepted frames are a regular
    language, a completed result is validated output, at most one native process is alive.
  \<^item> \<open>EventBuffer\<close>, \<open>RequestRegistry\<close>, \<open>Dispatcher\<close>, \<open>DispatcherMachine\<close>: \<open>events.py\<close>, \<open>request_registry.py\<close> and
    \<open>dispatcher.py\<close>. Streams lose nothing silently, requests end once, no accepted request is lost, shutdown drains.
  \<^item> \<open>AgentContracts\<close>, \<open>AgentReducer\<close>, \<open>AgentReplay\<close>, \<open>AgentStore\<close>: \<open>contracts.py\<close>, \<open>ids.py\<close>, \<open>errors.py\<close>, \<open>events.py\<close>,
    \<open>reducer.py\<close>, \<open>event_store.py\<close>. What an accepted log guarantees, and that the store refines append-only logs.
  \<^item> \<open>AgentTools\<close>, \<open>AgentScope\<close>, \<open>AgentService\<close>, \<open>AgentTurn\<close>: catalog, decision, compiler, permissions, resolver,
    executor, normalization, flow, acceptance, tool adapters and \<open>service.py\<close>. No tool runs
    before its authorization is in the log, and calls stay in the workspace.

  \<^bold>\<open>Bounds and fuel.\<close> The eviction loop of the cache is the one definition with fuel. It is started with one more
  than the number of entries, each turn removes one, and \<open>Diverges\<close> is proved not to occur. The public generation of a
  llama.cpp handle has 32 bits for the generation of the runtime, and runs in which that counter outgrows them are
  excluded (\<open>small_native\<close>). Every other loop is structural recursion over the data it consumes. Loops of threads that run for ever are steps of a machine.

  \<^bold>\<open>Not modelled.\<close> The other backend adapters, the HTTP service and the command line are sockets, subprocess pipes and third-party
  packages; the native runtime is C++ around a third-party library; metrics, artifacts and maintenance are
  reports and file-system effects; scripts and the controlled-inference experiments measure the running service.
  Of the dispatcher, the joins at the end of \<open>shutdown\<close> and the bookkeeping of live threads are left out; of the worker process, what the
  pipe and the operating system do is the outcome of a step. Error texts are not modelled where only their class matters.
\<close>

end
